(* ===== verification/Prelude.thy ===== *)
theory Prelude
  imports Main "HOL-Library.Word" "HOL-Library.List_Lexorder"
begin

section \<open>Shared vocabulary of the model\<close>

text \<open>
  What every component theory uses: byte strings, the arithmetic of Rust's \<open>u32\<close> as the
  release profile compiles it (\<open>overflow-checks = false\<close> in \<^verbatim>\<open>Cargo.toml\<close>, so \<open>+\<close> and \<open>-\<close>
  wrap around and \<^verbatim>\<open>debug_assert!\<close> is compiled out), the results of fallible operations,
  the randomness a function draws, and a few facts on lists.
\<close>

subsection \<open>Collections\<close>

named_theorems u32_simps \<open>definitions of the \<open>u32\<close> operations\<close>
named_theorems result_iff \<open>when a composed operation returns a given result\<close>

subsection \<open>Bytes\<close>

type_synonym byte = "8 word"

text \<open>A byte array of the code, of whatever fixed length its type gives; the derived
  \<^verbatim>\<open>Ord\<close> of an array is the lexicographic order of \<open>HOL-Library.List_Lexorder\<close>.\<close>

type_synonym bytes = "byte list"

subsection \<open>The arithmetic of u32\<close>

definition u32_max :: nat where
  "u32_max = 4294967295"

definition u32_add :: "nat \<Rightarrow> nat \<Rightarrow> nat" where
  "u32_add a b = (a + b) mod 4294967296"

definition u32_sub :: "nat \<Rightarrow> nat \<Rightarrow> nat" where
  "u32_sub a b = (if b \<le> a then a - b else a + 4294967296 - b)"

definition u32_checked_add :: "nat \<Rightarrow> nat \<Rightarrow> nat option" where
  "u32_checked_add a b = (if a + b \<le> u32_max then Some (a + b) else None)"

definition u32_checked_sub :: "nat \<Rightarrow> nat \<Rightarrow> nat option" where
  "u32_checked_sub a b = (if b \<le> a then Some (a - b) else None)"

definition u32_saturating_add :: "nat \<Rightarrow> nat \<Rightarrow> nat" where
  "u32_saturating_add a b = min (a + b) u32_max"

text \<open>\<^verbatim>\<open>u32::try_from\<close> and \<^verbatim>\<open>as u32\<close> of a \<open>usize\<close>.\<close>

definition u32_try_from :: "nat \<Rightarrow> nat option" where
  "u32_try_from n = (if n \<le> u32_max then Some n else None)"

definition u32_of_usize :: "nat \<Rightarrow> nat" where
  "u32_of_usize n = n mod 4294967296"

text \<open>\<^verbatim>\<open>u16::try_from\<close> and \<^verbatim>\<open>as u16\<close>.\<close>

definition u16_try_from :: "nat \<Rightarrow> nat option" where
  "u16_try_from n = (if n < 65536 then Some n else None)"

definition as_u16 :: "nat \<Rightarrow> nat" where
  "as_u16 n = n mod 65536"

lemmas u32_defs [u32_simps] =
  u32_max_def u32_add_def u32_sub_def u32_checked_add_def u32_checked_sub_def
  u32_saturating_add_def u32_try_from_def u32_of_usize_def

lemma u32_add_small [simp]: "a + b \<le> u32_max \<Longrightarrow> u32_add a b = a + b"
  by (simp add: u32_simps)

lemma u32_of_usize_small [simp]: "n \<le> u32_max \<Longrightarrow> u32_of_usize n = n"
  by (simp add: u32_simps)

lemma u32_sub_small [simp]: "b \<le> a \<Longrightarrow> u32_sub a b = a - b"
  by (simp add: u32_simps)

lemma u32_sub_pred [simp]: "0 < a \<Longrightarrow> u32_sub a (Suc 0) = a - Suc 0"
  by (simp add: u32_simps)

lemma u32_checked_add_Some [simp]:
  "u32_checked_add a b = Some c \<longleftrightarrow> c = a + b \<and> a + b \<le> u32_max"
  by (auto simp: u32_checked_add_def)

lemma u32_try_from_Some [simp]: "u32_try_from n = Some m \<longleftrightarrow> m = n \<and> n \<le> u32_max"
  by (auto simp: u32_try_from_def)

lemma u32_add_bound: "u32_add a b \<le> u32_max"
  by (simp add: u32_simps)

subsection \<open>Byte order\<close>

definition u32_to_be_bytes :: "nat \<Rightarrow> bytes" where
  "u32_to_be_bytes n =
     [of_nat (n div 16777216), of_nat (n div 65536), of_nat (n div 256), of_nat n]"

definition u32_to_le_bytes :: "nat \<Rightarrow> bytes" where
  "u32_to_le_bytes n = rev (u32_to_be_bytes n)"

definition u32_from_le_bytes :: "bytes \<Rightarrow> nat" where
  "u32_from_le_bytes bs = foldr (\<lambda>b acc. unat b + 256 * acc) bs 0"

lemma length_u32_to_le_bytes [simp]: "length (u32_to_le_bytes n) = 4"
  by (simp add: u32_to_le_bytes_def u32_to_be_bytes_def)

lemma u32_from_to_le_bytes:
  assumes "n \<le> u32_max"
  shows "u32_from_le_bytes (u32_to_le_bytes n) = n"
proof -
  have ub: "unat (of_nat k :: byte) = k mod 256" for k
    by (simp add: unat_of_nat)
  have d: "n div 65536 = n div 256 div 256" "n div 16777216 = n div 256 div 256 div 256"
    by (simp_all add: div_mult2_eq [symmetric])
  have top: "n div 256 div 256 div 256 mod 256 = n div 256 div 256 div 256"
    using assms by (simp add: u32_max_def div_mult2_eq [symmetric])
  have "u32_from_le_bytes (u32_to_le_bytes n) =
      n mod 256 + 256 * (n div 256 mod 256 + 256 * (n div 256 div 256 mod 256
        + 256 * (n div 256 div 256 div 256)))"
    by (simp add: u32_from_le_bytes_def u32_to_le_bytes_def u32_to_be_bytes_def ub d top)
  then show ?thesis
    by (simp only: mod_mult_div_eq)
qed

subsection \<open>Results\<close>

text \<open>
  A fallible operation returns \<^verbatim>\<open>Ok\<close>, \<^verbatim>\<open>Err\<close>, or panics (\<^verbatim>\<open>panic!\<close>, \<^verbatim>\<open>expect\<close>,
  \<^verbatim>\<open>unwrap\<close>, \<^verbatim>\<open>assert!\<close>, an index out of bounds); the panic carries the code's message.
\<close>

datatype ('e, 'a) result = Ok 'a | Err 'e | Panic string

fun and_then :: "('e, 'a) result \<Rightarrow> ('a \<Rightarrow> ('e, 'b) result) \<Rightarrow> ('e, 'b) result" where
  "and_then (Ok a) f = f a"
| "and_then (Err e) f = Err e"
| "and_then (Panic m) f = Panic m"

fun map_err :: "('e \<Rightarrow> 'f) \<Rightarrow> ('e, 'a) result \<Rightarrow> ('f, 'a) result" where
  "map_err f (Ok a) = Ok a"
| "map_err f (Err e) = Err (f e)"
| "map_err f (Panic m) = Panic m"

fun ok_or :: "'e \<Rightarrow> 'a option \<Rightarrow> ('e, 'a) result" where
  "ok_or e None = Err e"
| "ok_or e (Some a) = Ok a"

fun expect :: "string \<Rightarrow> 'a option \<Rightarrow> ('e, 'a) result" where
  "expect m None = Panic m"
| "expect m (Some a) = Ok a"

fun panics :: "('e, 'a) result \<Rightarrow> bool" where
  "panics (Panic m) = True"
| "panics r = False"

lemma and_then_Ok_iff [result_iff]:
  "and_then r f = Ok b \<longleftrightarrow> (\<exists>a. r = Ok a \<and> f a = Ok b)"
  by (cases r) auto

lemma ok_or_Ok_iff [result_iff]: "ok_or e x = Ok a \<longleftrightarrow> x = Some a"
  by (cases x) auto

lemma expect_Ok_iff [result_iff]: "expect m x = Ok a \<longleftrightarrow> x = Some a"
  by (cases x) auto

lemma map_err_Ok_iff [result_iff]: "map_err f r = Ok a \<longleftrightarrow> r = Ok a"
  by (cases r) auto

lemma and_then_assoc: "and_then (and_then r f) g = and_then r (\<lambda>x. and_then (f x) g)"
  by (cases r) auto

lemmas result_iff_sym [result_iff] =
  and_then_Ok_iff [THEN trans [OF eq_commute]]
  ok_or_Ok_iff [THEN trans [OF eq_commute]]
  expect_Ok_iff [THEN trans [OF eq_commute]]
  map_err_Ok_iff [THEN trans [OF eq_commute]]

text \<open>The early return of \<open>?\<close>: the state is kept as it is at that point.\<close>

definition or_return ::
  "('e, 'a) result \<Rightarrow> 's \<Rightarrow> ('a \<Rightarrow> 's \<times> ('e, 'b) result) \<Rightarrow> 's \<times> ('e, 'b) result" where
  "or_return r s f =
     (case r of Ok a \<Rightarrow> f a | Err e \<Rightarrow> (s, Err e) | Panic m \<Rightarrow> (s, Panic m))"

lemma or_return_simps [simp]:
  "or_return (Ok a) s f = f a"
  "or_return (Err e) s f = (s, Err e)"
  "or_return (Panic m) s f = (s, Panic m)"
  by (simp_all add: or_return_def)

lemma or_return_Ok_iff [result_iff]:
  "or_return r s f = (s', Ok b) \<longleftrightarrow> (\<exists>a. r = Ok a \<and> f a = (s', Ok b))"
  by (cases r) auto

text \<open>An early return leaves the state, the rest keeps what it keeps.\<close>

lemma or_return_keeps:
  "P s \<Longrightarrow> (\<And>a. r = Ok a \<Longrightarrow> P (fst (f a))) \<Longrightarrow> P (fst (or_return r s f))"
  by (cases r) auto

lemma not_panicsE:
  "\<not> panics r \<Longrightarrow> (\<And>a. r = Ok a \<Longrightarrow> P) \<Longrightarrow> (\<And>e. r = Err e \<Longrightarrow> P) \<Longrightarrow> P"
  by (cases r) auto

subsection \<open>Randomness\<close>

text \<open>An \<^verbatim>\<open>RngCore\<close> is the endless sequence of the byte arrays its \<^verbatim>\<open>fill_bytes\<close> will
  give; drawing returns the first and the rest.\<close>

type_synonym rng = "nat \<Rightarrow> bytes"

definition rng_draw :: "rng \<Rightarrow> bytes \<times> rng" where
  "rng_draw r = (r 0, \<lambda>n. r (Suc n))"

lemma rng_draw_simps [simp]: "fst (rng_draw r) = r 0" "snd (rng_draw r) = (\<lambda>n. r (Suc n))"
  by (simp_all add: rng_draw_def)

subsection \<open>Versioned values\<close>

text \<open>\<^verbatim>\<open>frostsnap_core::Versioned\<close>, the wrapper of what is stored on flash.\<close>

datatype 'a versioned = V0 'a

fun versioned_value :: "'a versioned \<Rightarrow> 'a" where
  "versioned_value (V0 v) = v"

subsection \<open>Lists\<close>

text \<open>\<^verbatim>\<open>Iterator::position\<close>.\<close>

fun position :: "('a \<Rightarrow> bool) \<Rightarrow> 'a list \<Rightarrow> nat option" where
  "position P [] = None"
| "position P (x # xs) = (if P x then Some 0 else map_option Suc (position P xs))"

lemma position_Some:
  "position P xs = Some i \<Longrightarrow> i < length xs \<and> P (xs ! i) \<and> (\<forall>j<i. \<not> P (xs ! j))"
proof (induction xs arbitrary: i)
  case (Cons x xs)
  then show ?case
    by (auto simp: nth_Cons' less_Suc_eq_0_disj split: if_splits)
qed simp

lemma position_None [simp]: "position P xs = None \<longleftrightarrow> (\<forall>x\<in>set xs. \<not> P x)"
  by (induction xs) auto

text \<open>\<^verbatim>\<open>Iterator::find_map\<close>.\<close>

fun find_map :: "('a \<Rightarrow> 'b option) \<Rightarrow> 'a list \<Rightarrow> 'b option" where
  "find_map f [] = None"
| "find_map f (x # xs) = (case f x of Some y \<Rightarrow> Some y | None \<Rightarrow> find_map f xs)"

lemma find_map_Some: "find_map f xs = Some y \<Longrightarrow> \<exists>x\<in>set xs. f x = Some y"
  by (induction xs) (auto split: option.splits)

lemma find_map_None [simp]: "find_map f xs = None \<longleftrightarrow> (\<forall>x\<in>set xs. f x = None)"
  by (induction xs) (auto split: option.splits)

lemma in_map_filter: "y \<in> set (List.map_filter f xs) \<longleftrightarrow> (\<exists>x\<in>set xs. f x = Some y)"
  by (induction xs) (auto simp: List.map_filter_simps split: option.splits)

end
