(* ===== verification/OrderedMap.thy ===== *)
theory OrderedMap
  imports Prelude
begin

section \<open>Ordered maps and sets\<close>

text \<open>
  The \<^verbatim>\<open>BTreeMap\<close> and \<^verbatim>\<open>BTreeSet\<close> of the Rust library as association lists in key order,
  so that iterating over one is iterating over the list. \<^verbatim>\<open>HashMap\<close> is modelled by the
  same lists: the code relies on no iteration order of it. The locale \<open>map_interface\<close> is
  what the components use of a map; the interpretation discharges it for the lists.
\<close>

type_synonym ('k, 'v) btree = "('k \<times> 'v) list"

definition bt_get :: "('k, 'v) btree \<Rightarrow> 'k \<Rightarrow> 'v option" where
  "bt_get m k = map_of m k"

fun bt_insert :: "'k::linorder \<Rightarrow> 'v \<Rightarrow> ('k, 'v) btree \<Rightarrow> ('k, 'v) btree" where
  "bt_insert k v [] = [(k, v)]"
| "bt_insert k v ((k', v') # m) =
     (if k < k' then (k, v) # (k', v') # m
      else if k = k' then (k, v) # m
      else (k', v') # bt_insert k v m)"

definition bt_remove :: "'k \<Rightarrow> ('k, 'v) btree \<Rightarrow> ('k, 'v) btree" where
  "bt_remove k m = filter (\<lambda>e. fst e \<noteq> k) m"

definition bt_keys :: "('k, 'v) btree \<Rightarrow> 'k list" where
  "bt_keys m = map fst m"

definition bt_values :: "('k, 'v) btree \<Rightarrow> 'v list" where
  "bt_values m = map snd m"

text \<open>\<^verbatim>\<open>entry(k).and_modify(f)\<close>: nothing happens where the key is vacant.\<close>

definition bt_modify :: "'k::linorder \<Rightarrow> ('v \<Rightarrow> 'v) \<Rightarrow> ('k, 'v) btree \<Rightarrow> ('k, 'v) btree" where
  "bt_modify k f m = (case bt_get m k of None \<Rightarrow> m | Some v \<Rightarrow> bt_insert k (f v) m)"

definition bt_of_list :: "('k::linorder \<times> 'v) list \<Rightarrow> ('k, 'v) btree" where
  "bt_of_list kvs = fold (\<lambda>(k, v). bt_insert k v) kvs []"

definition bt_wf :: "('k::linorder, 'v) btree \<Rightarrow> bool" where
  "bt_wf m \<longleftrightarrow> sorted_wrt (<) (map fst m)"

subsection \<open>Sets\<close>

fun bs_insert :: "'a::linorder \<Rightarrow> 'a list \<Rightarrow> 'a list" where
  "bs_insert x [] = [x]"
| "bs_insert x (y # ys) =
     (if x < y then x # y # ys else if x = y then y # ys else y # bs_insert x ys)"

definition bs_of_list :: "'a::linorder list \<Rightarrow> 'a list" where
  "bs_of_list xs = fold bs_insert xs []"

definition bs_wf :: "'a::linorder list \<Rightarrow> bool" where
  "bs_wf xs \<longleftrightarrow> sorted_wrt (<) xs"

lemma set_bs_insert [simp]: "set (bs_insert x ys) = insert x (set ys)"
  by (induction ys) auto

lemma bs_wf_insert [intro, simp]: "bs_wf ys \<Longrightarrow> bs_wf (bs_insert x ys)"
  by (induction ys) (auto simp: bs_wf_def)

lemma set_fold_bs_insert: "set (fold bs_insert xs ys) = set xs \<union> set ys"
  by (induction xs arbitrary: ys) auto

lemma set_bs_of_list [simp]: "set (bs_of_list xs) = set xs"
  by (simp add: bs_of_list_def set_fold_bs_insert)

lemma bs_wf_fold: "bs_wf ys \<Longrightarrow> bs_wf (fold bs_insert xs ys)"
  by (induction xs arbitrary: ys) auto

lemma bs_wf_of_list [simp]: "bs_wf (bs_of_list xs)"
  unfolding bs_of_list_def by (rule bs_wf_fold) (simp add: bs_wf_def)

lemma bs_wf_distinct: "bs_wf xs \<Longrightarrow> distinct xs"
  unfolding bs_wf_def using strict_sorted_iff by blast

subsection \<open>The interface\<close>

locale map_interface =
  fixes empty :: "'m"
    and get :: "'m \<Rightarrow> 'k::linorder \<Rightarrow> 'v option"
    and insert_kv :: "'k \<Rightarrow> 'v \<Rightarrow> 'm \<Rightarrow> 'm"
    and remove :: "'k \<Rightarrow> 'm \<Rightarrow> 'm"
    and key_list :: "'m \<Rightarrow> 'k list"
    and wf :: "'m \<Rightarrow> bool"
  assumes get_empty: "get empty k = None"
    and get_insert: "get (insert_kv k v m) k' = (if k' = k then Some v else get m k')"
    and get_remove: "get (remove k m) k' = (if k' = k then None else get m k')"
    and key_list_dom: "k \<in> set (key_list m) \<longleftrightarrow> get m k \<noteq> None"
    and wf_empty: "wf empty"
    and wf_insert: "wf m \<Longrightarrow> wf (insert_kv k v m)"
    and wf_remove: "wf m \<Longrightarrow> wf (remove k m)"
    and key_list_sorted: "wf m \<Longrightarrow> sorted_wrt (<) (key_list m)"
begin

lemma get_insert_same: "get (insert_kv k v m) k = Some v"
  by (simp add: get_insert)

lemma get_insert_other: "k' \<noteq> k \<Longrightarrow> get (insert_kv k v m) k' = get m k'"
  by (simp add: get_insert)

text \<open>Taking an entry out and putting one back is an insertion.\<close>

lemma get_insert_remove: "get (insert_kv k v (remove k m)) = get (insert_kv k v m)"
  by (rule ext) (simp add: get_insert get_remove)

lemma key_list_distinct: "wf m \<Longrightarrow> distinct (key_list m)"
  using key_list_sorted strict_sorted_iff by blast

text \<open>A fold of insertions only adds the keys of the list.\<close>

lemma get_fold_insert:
  "distinct (map fst kvs) \<Longrightarrow>
   get (fold (\<lambda>(k, v). insert_kv k v) kvs m) k =
     (case map_of kvs k of Some v \<Rightarrow> Some v | None \<Rightarrow> get m k)"
proof (induction kvs arbitrary: m)
  case (Cons kv kvs)
  then show ?case
    by (cases kv) (auto simp: get_insert map_of_eq_None_iff [symmetric] split: option.splits)
qed simp

lemma wf_fold_insert: "wf m \<Longrightarrow> wf (fold (\<lambda>(k, v). insert_kv k v) kvs m)"
  by (induction kvs arbitrary: m) (auto simp: wf_insert)

end

subsection \<open>The sorted list implements it\<close>

lemma bt_get_insert:
  "bt_get (bt_insert k v m) k' = (if k' = k then Some v else bt_get m k')"
  by (induction m) (auto simp: bt_get_def)

lemma bt_get_remove: "bt_get (bt_remove k m) k' = (if k' = k then None else bt_get m k')"
  by (induction m) (auto simp: bt_get_def bt_remove_def)

lemma bt_keys_insert [simp]: "bt_keys (bt_insert k v m) = bs_insert k (bt_keys m)"
  by (induction m) (auto simp: bt_keys_def)

lemma bt_wf_iff_keys: "bt_wf m \<longleftrightarrow> bs_wf (bt_keys m)"
  by (simp add: bt_wf_def bs_wf_def bt_keys_def)

lemma bt_wf_insert: "bt_wf m \<Longrightarrow> bt_wf (bt_insert k v m)"
  by (simp add: bt_wf_iff_keys)

lemma bt_wf_filter: "bt_wf m \<Longrightarrow> bt_wf (filter P m)"
  by (induction m) (auto simp: bt_wf_def)

interpretation btree: map_interface "[]" bt_get bt_insert bt_remove bt_keys bt_wf
proof unfold_locales
  show "bt_get [] k = None" for k by (simp add: bt_get_def)
  show "bt_get (bt_insert k v m) k' = (if k' = k then Some v else bt_get m k')" for k v m k'
    by (rule bt_get_insert)
  show "bt_get (bt_remove k m) k' = (if k' = k then None else bt_get m k')" for k m k'
    by (rule bt_get_remove)
  show "k \<in> set (bt_keys m) \<longleftrightarrow> bt_get m k \<noteq> None" for k m
    by (simp add: bt_keys_def bt_get_def map_of_eq_None_iff)
  show "bt_wf []" by (simp add: bt_wf_def)
  show "bt_wf (bt_insert k v m)" if "bt_wf m" for k v m using that by (rule bt_wf_insert)
  show "bt_wf (bt_remove k m)" if "bt_wf m" for k m
    using that by (simp add: bt_remove_def bt_wf_filter)
  show "sorted_wrt (<) (bt_keys m)" if "bt_wf m" for m
    using that by (simp add: bt_wf_def bt_keys_def)
qed

lemmas bt_get_simps [simp] = btree.get_empty btree.get_insert btree.get_remove
lemmas bt_wf_intros [intro, simp] = btree.wf_empty btree.wf_insert btree.wf_remove

lemma bt_get_modify [simp]:
  "bt_get (bt_modify k f m) k' = (if k' = k then map_option f (bt_get m k) else bt_get m k')"
  by (auto simp: bt_modify_def split: option.splits)

lemma bt_wf_modify [intro, simp]: "bt_wf m \<Longrightarrow> bt_wf (bt_modify k f m)"
  by (simp add: bt_modify_def split: option.splits)

lemma bt_get_in: "bt_get m k = Some v \<Longrightarrow> (k, v) \<in> set m"
  by (simp add: bt_get_def map_of_SomeD)

lemma bt_in_get: "bt_wf m \<Longrightarrow> (k, v) \<in> set m \<Longrightarrow> bt_get m k = Some v"
  unfolding bt_wf_def bt_get_def using strict_sorted_iff by (metis map_of_is_SomeI)

text \<open>Two maps in key order with the same entries are the same map.\<close>

lemma bt_ext:
  assumes "bt_wf m" "bt_wf m'" and "\<And>k. bt_get m k = bt_get m' k"
  shows "m = m'"
proof -
  have mo: "map_of m = map_of m'"
    using assms(3) by (auto simp: bt_get_def)
  have d: "distinct (map fst m)" "distinct (map fst m')"
    using assms(1,2) strict_sorted_iff by (auto simp: bt_wf_def)
  have s: "set m = set m'"
    using mo d map_of_inject_set by metis
  have "sorted (map fst m)" "sorted (map fst m')"
    using assms(1,2) strict_sorted_iff by (auto simp: bt_wf_def)
  moreover have "inj_on fst (set m \<union> set m')"
    using s d by (simp add: distinct_map)
  ultimately show ?thesis
    using s d by (intro map_sorted_distinct_set_unique) auto
qed

end
