(* ===== verification/Ids.thy ===== *)
theory Ids
  imports OrderedMap
begin

section \<open>Identifiers\<close>

text \<open>
  The newtypes of \<^verbatim>\<open>frostsnap_core/src/lib.rs\<close> and \<^verbatim>\<open>nonce_stream.rs\<close> that name things. Each
  wraps a byte array and derives \<^verbatim>\<open>Ord\<close>, so each is an instance of \<open>linorder\<close>, ordered by
  its bytes; the maps of the model are keyed by them. The last part is the share index and
  the share image of \<^verbatim>\<open>schnorr_fun\<close>, ordered by index and then by image.
\<close>

subsection \<open>Byte-array newtypes\<close>

datatype nonce_stream_id = NonceStreamId (nonce_stream_bytes: bytes)

datatype device_id = DeviceId (device_id_bytes: bytes)

datatype key_id = KeyId (key_id_bytes: bytes)

datatype access_structure_id = AccessStructureId (access_structure_id_bytes: bytes)

datatype keygen_id = KeygenId (keygen_id_bytes: bytes)

datatype restoration_id = RestorationId (restoration_id_bytes: bytes)

datatype sign_session_id = SignSessionId (sign_session_id_bytes: bytes)

datatype enter_physical_id = EnterPhysicalId (enter_physical_id_bytes: bytes)

datatype session_hash = SessionHash (session_hash_bytes: bytes)

subsection \<open>Their order\<close>

instantiation nonce_stream_id :: linorder
begin
definition less_eq_nonce_stream_id :: "nonce_stream_id \<Rightarrow> nonce_stream_id \<Rightarrow> bool" where
  "less_eq_nonce_stream_id a b \<longleftrightarrow> nonce_stream_bytes a \<le> nonce_stream_bytes b"
definition less_nonce_stream_id :: "nonce_stream_id \<Rightarrow> nonce_stream_id \<Rightarrow> bool" where
  "less_nonce_stream_id a b \<longleftrightarrow> nonce_stream_bytes a < nonce_stream_bytes b"
instance
  by standard (auto simp: less_eq_nonce_stream_id_def less_nonce_stream_id_def nonce_stream_id.expand)
end

instantiation device_id :: linorder
begin
definition less_eq_device_id :: "device_id \<Rightarrow> device_id \<Rightarrow> bool" where
  "less_eq_device_id a b \<longleftrightarrow> device_id_bytes a \<le> device_id_bytes b"
definition less_device_id :: "device_id \<Rightarrow> device_id \<Rightarrow> bool" where
  "less_device_id a b \<longleftrightarrow> device_id_bytes a < device_id_bytes b"
instance
  by standard (auto simp: less_eq_device_id_def less_device_id_def device_id.expand)
end

instantiation key_id :: linorder
begin
definition less_eq_key_id :: "key_id \<Rightarrow> key_id \<Rightarrow> bool" where
  "less_eq_key_id a b \<longleftrightarrow> key_id_bytes a \<le> key_id_bytes b"
definition less_key_id :: "key_id \<Rightarrow> key_id \<Rightarrow> bool" where
  "less_key_id a b \<longleftrightarrow> key_id_bytes a < key_id_bytes b"
instance
  by standard (auto simp: less_eq_key_id_def less_key_id_def key_id.expand)
end

instantiation access_structure_id :: linorder
begin
definition less_eq_access_structure_id :: "access_structure_id \<Rightarrow> access_structure_id \<Rightarrow> bool" where
  "less_eq_access_structure_id a b \<longleftrightarrow> access_structure_id_bytes a \<le> access_structure_id_bytes b"
definition less_access_structure_id :: "access_structure_id \<Rightarrow> access_structure_id \<Rightarrow> bool" where
  "less_access_structure_id a b \<longleftrightarrow> access_structure_id_bytes a < access_structure_id_bytes b"
instance
  by standard (auto simp: less_eq_access_structure_id_def less_access_structure_id_def access_structure_id.expand)
end

instantiation keygen_id :: linorder
begin
definition less_eq_keygen_id :: "keygen_id \<Rightarrow> keygen_id \<Rightarrow> bool" where
  "less_eq_keygen_id a b \<longleftrightarrow> keygen_id_bytes a \<le> keygen_id_bytes b"
definition less_keygen_id :: "keygen_id \<Rightarrow> keygen_id \<Rightarrow> bool" where
  "less_keygen_id a b \<longleftrightarrow> keygen_id_bytes a < keygen_id_bytes b"
instance
  by standard (auto simp: less_eq_keygen_id_def less_keygen_id_def keygen_id.expand)
end

instantiation restoration_id :: linorder
begin
definition less_eq_restoration_id :: "restoration_id \<Rightarrow> restoration_id \<Rightarrow> bool" where
  "less_eq_restoration_id a b \<longleftrightarrow> restoration_id_bytes a \<le> restoration_id_bytes b"
definition less_restoration_id :: "restoration_id \<Rightarrow> restoration_id \<Rightarrow> bool" where
  "less_restoration_id a b \<longleftrightarrow> restoration_id_bytes a < restoration_id_bytes b"
instance
  by standard (auto simp: less_eq_restoration_id_def less_restoration_id_def restoration_id.expand)
end

instantiation sign_session_id :: linorder
begin
definition less_eq_sign_session_id :: "sign_session_id \<Rightarrow> sign_session_id \<Rightarrow> bool" where
  "less_eq_sign_session_id a b \<longleftrightarrow> sign_session_id_bytes a \<le> sign_session_id_bytes b"
definition less_sign_session_id :: "sign_session_id \<Rightarrow> sign_session_id \<Rightarrow> bool" where
  "less_sign_session_id a b \<longleftrightarrow> sign_session_id_bytes a < sign_session_id_bytes b"
instance
  by standard (auto simp: less_eq_sign_session_id_def less_sign_session_id_def sign_session_id.expand)
end

lemmas id_less_defs [simp] =
  less_eq_nonce_stream_id_def less_nonce_stream_id_def
  less_eq_device_id_def less_device_id_def
  less_eq_key_id_def less_key_id_def
  less_eq_access_structure_id_def less_access_structure_id_def
  less_eq_keygen_id_def less_keygen_id_def
  less_eq_restoration_id_def less_restoration_id_def
  less_eq_sign_session_id_def less_sign_session_id_def

subsection \<open>References to access structures\<close>

datatype access_structure_ref =
  AccessStructureRef (asr_key_id: key_id) (asr_access_structure_id: access_structure_id)

instantiation access_structure_ref :: linorder
begin
definition less_eq_access_structure_ref :: "access_structure_ref \<Rightarrow> access_structure_ref \<Rightarrow> bool" where
  "less_eq_access_structure_ref a b \<longleftrightarrow>
     asr_key_id a < asr_key_id b \<or>
     asr_key_id a = asr_key_id b \<and> asr_access_structure_id a \<le> asr_access_structure_id b"
definition less_access_structure_ref :: "access_structure_ref \<Rightarrow> access_structure_ref \<Rightarrow> bool" where
  "less_access_structure_ref a b \<longleftrightarrow>
     asr_key_id a < asr_key_id b \<or>
     asr_key_id a = asr_key_id b \<and> asr_access_structure_id a < asr_access_structure_id b"
instance
  by standard
    (force simp: less_eq_access_structure_ref_def less_access_structure_ref_def
       access_structure_ref.expand simp del: id_less_defs)+
end

subsection \<open>Share indices and share images\<close>

text \<open>A \<^verbatim>\<open>ShareIndex\<close> is a non-zero public scalar, here its value. A point is its encoding.\<close>

type_synonym share_index = nat
type_synonym point = bytes
type_synonym scalar = bytes

datatype share_image = ShareImage (image_index: share_index) (image_point: point)

instantiation share_image :: linorder
begin
definition less_eq_share_image :: "share_image \<Rightarrow> share_image \<Rightarrow> bool" where
  "less_eq_share_image a b \<longleftrightarrow>
     image_index a < image_index b \<or>
     image_index a = image_index b \<and> image_point a \<le> image_point b"
definition less_share_image :: "share_image \<Rightarrow> share_image \<Rightarrow> bool" where
  "less_share_image a b \<longleftrightarrow>
     image_index a < image_index b \<or>
     image_index a = image_index b \<and> image_point a < image_point b"
instance
  by standard (auto simp: less_eq_share_image_def less_share_image_def share_image.expand)
end

lemmas ref_less_defs [simp] =
  less_eq_access_structure_ref_def less_access_structure_ref_def
  less_eq_share_image_def less_share_image_def

end
