(* ===== verification/NonceStream.thy ===== *)
theory NonceStream
  imports Ids
begin

section \<open>Nonce stream segments\<close>

text \<open>
  Models \<^verbatim>\<open>frostsnap_core/src/nonce_stream.rs\<close>. A device's nonce stream is an endless sequence
  of public nonces; the coordinator holds a window of it, a segment, that starts at \<open>seg_index\<close>.
  A public nonce is its encoding.
\<close>

type_synonym pub_nonce = bytes

record nonce_segment =
  seg_stream_id :: nonce_stream_id
  seg_nonces :: "pub_nonce list"
  seg_index :: nat

record coord_nonce_state =
  cns_stream_id :: nonce_stream_id
  cns_index :: nat
  cns_remaining :: nat

record sub_segment =
  sub_segment :: nonce_segment
  sub_remaining :: nat

datatype segment_incompatible = StreamIdDontMatch | Overflows

definition coord_nonce_state_of :: "sub_segment \<Rightarrow> coord_nonce_state" where
  "coord_nonce_state_of s =
     \<lparr>cns_stream_id = seg_stream_id (sub_segment s),
      cns_index = seg_index (sub_segment s),
      cns_remaining = sub_remaining s\<rparr>"

subsection \<open>Operations\<close>

definition signing_req_sub_segment :: "nonce_segment \<Rightarrow> nat \<Rightarrow> sub_segment option" where
  "signing_req_sub_segment s len =
     (if len \<le> length (seg_nonces s)
      then (case u32_try_from (length (seg_nonces s) - len) of
              None \<Rightarrow> None
            | Some remaining \<Rightarrow>
                Some \<lparr>sub_segment =
                        \<lparr>seg_stream_id = seg_stream_id s,
                         seg_nonces = take len (seg_nonces s),
                         seg_index = seg_index s\<rparr>,
                      sub_remaining = remaining\<rparr>)
      else None)"

definition index_after_last :: "nonce_segment \<Rightarrow> nat option" where
  "index_after_last s =
     (case u32_try_from (length (seg_nonces s)) of
        None \<Rightarrow> None
      | Some n \<Rightarrow> u32_checked_add (seg_index s) n)"

definition get_nonce :: "nonce_segment \<Rightarrow> nat \<Rightarrow> pub_nonce option" where
  "get_nonce s i =
     (case u32_checked_sub i (seg_index s) of
        None \<Rightarrow> None
      | Some k \<Rightarrow> if k < length (seg_nonces s) then Some (seg_nonces s ! k) else None)"

text \<open>The loop of \<^verbatim>\<open>delete_up_to\<close>: \<open>n\<close> rounds of \<^verbatim>\<open>pop_front\<close> (which does nothing on an empty
  queue) and of advancing the index.\<close>

fun delete_rounds :: "nat \<Rightarrow> nonce_segment \<Rightarrow> nonce_segment" where
  "delete_rounds 0 s = s"
| "delete_rounds (Suc n) s =
     delete_rounds n (s\<lparr>seg_nonces := tl (seg_nonces s),
                        seg_index := u32_add (seg_index s) 1\<rparr>)"

definition delete_up_to :: "nonce_segment \<Rightarrow> nat \<Rightarrow> nonce_segment \<times> bool" where
  "delete_up_to s up_to =
     (let to_delete = up_to - seg_index s
      in (delete_rounds to_delete s, 0 < to_delete))"

text \<open>The two loops of \<^verbatim>\<open>_extend\<close>: nonces of \<open>other\<close> pushed on the front down to
  \<open>new_start\<close>, then on the back up to \<open>new_end\<close>.\<close>

function extend_front :: "nonce_segment \<Rightarrow> nat \<Rightarrow> nonce_segment \<Rightarrow> ('e, nonce_segment) result" where
  "extend_front other new_start cur =
     (if new_start < seg_index cur
      then (case get_nonce other (seg_index cur - 1) of
              None \<Rightarrow> Panic ''must exist''
            | Some n \<Rightarrow>
                extend_front other new_start
                  (cur\<lparr>seg_index := seg_index cur - 1, seg_nonces := n # seg_nonces cur\<rparr>))
      else Ok cur)"
  by pat_completeness auto
termination
  by (relation "measure (\<lambda>(other, new_start, cur). seg_index cur - new_start)") auto

function extend_back ::
  "nonce_segment \<Rightarrow> nat \<Rightarrow> nat \<Rightarrow> nonce_segment \<Rightarrow> ('e, nonce_segment) result" where
  "extend_back other new_end curr_end cur =
     (if curr_end < new_end
      then (case get_nonce other (curr_end + 1) of
              None \<Rightarrow> Panic ''must exist''
            | Some n \<Rightarrow>
                extend_back other new_end (curr_end + 1)
                  (cur\<lparr>seg_nonces := seg_nonces cur @ [n]\<rparr>))
      else Ok cur)"
  by pat_completeness auto
termination
  by (relation "measure (\<lambda>(other, new_end, curr_end, cur). new_end - curr_end)") auto

declare extend_front.simps [simp del] extend_back.simps [simp del]

text \<open>The code's test that the two windows touch or overlap.\<close>

definition segments_connect :: "nonce_segment \<Rightarrow> nonce_segment \<Rightarrow> bool" where
  "segments_connect cur other =
     (if seg_index cur < seg_index other
      then seg_index other \<le> u32_add (seg_index cur) (u32_of_usize (length (seg_nonces cur)))
      else seg_index cur \<le> u32_add (seg_index other) (u32_of_usize (length (seg_nonces other))))"

definition extend_connected ::
  "nonce_segment \<Rightarrow> nonce_segment \<Rightarrow> (segment_incompatible, nonce_segment) result" where
  "extend_connected cur other =
     (let new_start = min (seg_index cur) (seg_index other) in
      and_then (expect ''invariant'' (index_after_last cur)) (\<lambda>curr_after.
      and_then (expect ''unwrap'' (index_after_last other)) (\<lambda>other_after.
      let curr_end = u32_sub curr_after 1;
          other_end = u32_sub other_after 1;
          new_end = max curr_end other_end in
      and_then (extend_front other new_start cur) (\<lambda>c1.
      and_then (extend_back other new_end curr_end c1) (\<lambda>c2.
      if seg_index c2 \<noteq> new_start then Panic ''should start at the right place now''
      else and_then (expect ''unwrap'' (index_after_last c2)) (\<lambda>after.
        if u32_sub after 1 \<noteq> new_end then Panic ''should end at the right place now''
        else Ok c2))))))"

definition extend_aux ::
  "nonce_segment \<Rightarrow> nonce_segment \<Rightarrow> (segment_incompatible, nonce_segment) result" where
  "extend_aux self other =
     (if seg_stream_id self \<noteq> seg_stream_id other then Err StreamIdDontMatch
      else and_then (ok_or Overflows (index_after_last other)) (\<lambda>_.
        if \<not> segments_connect self other \<or> seg_nonces self = []
        then Ok (if length (seg_nonces other) < length (seg_nonces self) then self else other)
        else extend_connected self other))"

text \<open>\<^verbatim>\<open>extend\<close>: the new segment and whether it changed.\<close>

definition segment_extend ::
  "nonce_segment \<Rightarrow> nonce_segment \<Rightarrow> (segment_incompatible, nonce_segment \<times> bool) result" where
  "segment_extend self other =
     and_then (extend_aux self other) (\<lambda>new. Ok (new, new \<noteq> self))"

definition check_can_extend ::
  "nonce_segment \<Rightarrow> nonce_segment \<Rightarrow> (segment_incompatible, unit) result" where
  "check_can_extend self other = and_then (extend_aux self other) (\<lambda>_. Ok ())"

subsection \<open>Well-formed segments\<close>

text \<open>A segment is well formed when the index after its last nonce is a \<open>u32\<close>.\<close>

definition segment_wf :: "nonce_segment \<Rightarrow> bool" where
  "segment_wf s \<longleftrightarrow> seg_index s + length (seg_nonces s) \<le> u32_max"

lemma index_after_last_wf [simp]:
  "segment_wf s \<Longrightarrow> index_after_last s = Some (seg_index s + length (seg_nonces s))"
  by (simp add: segment_wf_def index_after_last_def u32_try_from_def u32_checked_add_def)

lemma index_after_last_None:
  "\<not> segment_wf s \<Longrightarrow> index_after_last s = None"
  by (simp add: segment_wf_def index_after_last_def u32_try_from_def u32_checked_add_def)

lemma get_nonce_iff:
  "get_nonce s i = Some n \<longleftrightarrow>
     seg_index s \<le> i \<and> i < seg_index s + length (seg_nonces s) \<and> seg_nonces s ! (i - seg_index s) = n"
  by (auto simp: get_nonce_def u32_checked_sub_def)

lemma get_nonce_None_iff:
  "get_nonce s i = None \<longleftrightarrow> i < seg_index s \<or> seg_index s + length (seg_nonces s) \<le> i"
  by (auto simp: get_nonce_def u32_checked_sub_def)

text \<open>Two segments of a stream with the same window and the same nonces are the same.\<close>

lemma segment_eqI:
  assumes "seg_stream_id s = seg_stream_id t" "seg_index s = seg_index t"
    and "length (seg_nonces s) = length (seg_nonces t)"
    and "\<And>i. get_nonce s i = get_nonce t i"
  shows "s = (t :: nonce_segment)"
proof -
  have "seg_nonces s ! k = seg_nonces t ! k" if "k < length (seg_nonces s)" for k
    using assms(4) [of "seg_index s + k"] assms(2,3) that
    by (simp add: get_nonce_def u32_checked_sub_def)
  then have "seg_nonces s = seg_nonces t"
    using assms(3) by (simp add: list_eq_iff_nth_eq)
  then show ?thesis
    using assms(1,2) by (cases s, cases t) simp
qed

subsection \<open>Extending a segment\<close>

text \<open>The front loop succeeds where \<open>other\<close> covers the gap, and gives the window from
  \<open>new_start\<close> with the nonces of \<open>other\<close> in the gap.\<close>

lemma extend_front_ok:
  assumes "new_start \<le> seg_index cur"
    and "\<And>i. new_start \<le> i \<Longrightarrow> i < seg_index cur \<Longrightarrow> get_nonce other i \<noteq> None"
  shows "\<exists>c. extend_front other new_start cur = (Ok c :: ('e, nonce_segment) result) \<and> seg_index c = new_start \<and>
    seg_stream_id c = seg_stream_id cur \<and>
    length (seg_nonces c) = (seg_index cur - new_start) + length (seg_nonces cur) \<and>
    (\<forall>i. get_nonce c i = (if new_start \<le> i \<and> i < seg_index cur then get_nonce other i
                          else get_nonce cur i))"
  using assms
proof (induction other new_start cur rule: extend_front.induct)
  case (1 other new_start cur)
  show ?case
  proof (cases "new_start < seg_index cur")
    case False
    then have "extend_front other new_start cur = (Ok cur :: ('e, nonce_segment) result)"
      by (simp add: extend_front.simps [of other new_start cur])
    with False "1.prems" show ?thesis
      by (intro exI [of _ cur]) auto
  next
    case True
    then obtain n where n: "get_nonce other (seg_index cur - 1) = Some n"
      using "1.prems"(2) [of "seg_index cur - 1"] by fastforce
    let ?c = "cur\<lparr>seg_index := seg_index cur - 1, seg_nonces := n # seg_nonces cur\<rparr>"
    have g: "get_nonce ?c i =
        (if i = seg_index cur - 1 then get_nonce other i else get_nonce cur i)" for i
      using True n by (auto simp: get_nonce_def u32_checked_sub_def nth_Cons')
    have "\<exists>c. extend_front other new_start ?c = (Ok c :: ('e, nonce_segment) result) \<and> seg_index c = new_start \<and>
        seg_stream_id c = seg_stream_id ?c \<and>
        length (seg_nonces c) = (seg_index ?c - new_start) + length (seg_nonces ?c) \<and>
        (\<forall>i. get_nonce c i = (if new_start \<le> i \<and> i < seg_index ?c then get_nonce other i
                              else get_nonce ?c i))"
      by (rule "1.IH") (use True n "1.prems" in auto)
    with True n g show ?thesis
      by (auto simp: extend_front.simps [of other new_start cur])
  qed
qed

lemma extend_back_ok:
  assumes "curr_end \<le> new_end" "seg_index cur + length (seg_nonces cur) = curr_end + 1"
    and "\<And>i. curr_end < i \<Longrightarrow> i \<le> new_end \<Longrightarrow> get_nonce other i \<noteq> None"
  shows "\<exists>c. extend_back other new_end curr_end cur = (Ok c :: ('e, nonce_segment) result) \<and> seg_index c = seg_index cur \<and>
    seg_stream_id c = seg_stream_id cur \<and>
    seg_index c + length (seg_nonces c) = new_end + 1 \<and>
    (\<forall>i. get_nonce c i = (if curr_end < i \<and> i \<le> new_end then get_nonce other i
                          else get_nonce cur i))"
  using assms
proof (induction other new_end curr_end cur rule: extend_back.induct)
  case (1 other new_end curr_end cur)
  show ?case
  proof (cases "curr_end < new_end")
    case False
    then have "extend_back other new_end curr_end cur = (Ok cur :: ('e, nonce_segment) result)"
      by (simp add: extend_back.simps [of other new_end curr_end cur])
    with False "1.prems" show ?thesis
      by (intro exI [of _ cur]) auto
  next
    case True
    then obtain n where n: "get_nonce other (curr_end + 1) = Some n"
      using "1.prems"(3) [of "curr_end + 1"] by auto
    let ?c = "cur\<lparr>seg_nonces := seg_nonces cur @ [n]\<rparr>"
    have g: "get_nonce ?c i =
        (if i = curr_end + 1 then get_nonce other i else get_nonce cur i)" for i
      using n "1.prems"(2) by (auto simp: get_nonce_def u32_checked_sub_def nth_append)
    have "\<exists>c. extend_back other new_end (curr_end + 1) ?c =
          (Ok c :: ('e, nonce_segment) result) \<and> seg_index c = seg_index ?c \<and>
        seg_stream_id c = seg_stream_id ?c \<and>
        seg_index c + length (seg_nonces c) = new_end + 1 \<and>
        (\<forall>i. get_nonce c i = (if curr_end + 1 < i \<and> i \<le> new_end then get_nonce other i
                              else get_nonce ?c i))"
      by (rule "1.IH") (use True n "1.prems" in auto)
    with True n g show ?thesis
      by (auto simp: extend_back.simps [of other new_end curr_end cur])
  qed
qed

text \<open>The merge of two windows: the nonces of the first, and those of the second where the
  first has none.\<close>

definition merged_nonce :: "nonce_segment \<Rightarrow> nonce_segment \<Rightarrow> nat \<Rightarrow> pub_nonce option" where
  "merged_nonce s t i = (case get_nonce s i of Some n \<Rightarrow> Some n | None \<Rightarrow> get_nonce t i)"

lemma segments_connect_wf:
  "segment_wf s \<Longrightarrow> segment_wf t \<Longrightarrow> segments_connect s t \<longleftrightarrow>
     (if seg_index s < seg_index t then seg_index t \<le> seg_index s + length (seg_nonces s)
      else seg_index s \<le> seg_index t + length (seg_nonces t))"
  by (simp add: segments_connect_def segment_wf_def)

lemma connected_covers:
  assumes "segment_wf s" "segment_wf t" "segments_connect s t"
  shows "min (seg_index s) (seg_index t) \<le> i \<Longrightarrow> i < seg_index s \<Longrightarrow> get_nonce t i \<noteq> None"
    and "seg_index s + length (seg_nonces s) \<le> i \<Longrightarrow> i < seg_index t + length (seg_nonces t) \<Longrightarrow>
      get_nonce t i \<noteq> None"
  using assms by (auto simp: segments_connect_wf get_nonce_None_iff split: if_splits)

lemma extend_connected_ok:
  assumes wf: "segment_wf s" "segment_wf t" and conn: "segments_connect s t"
    and ne: "seg_nonces s \<noteq> []" and nz: "seg_index t + length (seg_nonces t) \<noteq> 0"
  shows "\<exists>c. extend_connected s t = Ok c \<and> seg_stream_id c = seg_stream_id s \<and> segment_wf c \<and>
    seg_index c = min (seg_index s) (seg_index t) \<and>
    seg_index c + length (seg_nonces c) =
      max (seg_index s + length (seg_nonces s)) (seg_index t + length (seg_nonces t)) \<and>
    (\<forall>i. get_nonce c i = merged_nonce s t i)"
proof -
  let ?start = "min (seg_index s) (seg_index t)"
  let ?se = "seg_index s + length (seg_nonces s)" and ?te = "seg_index t + length (seg_nonces t)"
  let ?last = "max (?se - 1) (?te - 1)"
  have pos: "0 < ?se" "0 < ?te" using ne nz by auto
  obtain c1 where c1:
      "extend_front t ?start s = (Ok c1 :: (segment_incompatible, nonce_segment) result)" "seg_index c1 = ?start"
      "seg_stream_id c1 = seg_stream_id s"
      "length (seg_nonces c1) = (seg_index s - ?start) + length (seg_nonces s)"
      "\<And>i. get_nonce c1 i =
        (if ?start \<le> i \<and> i < seg_index s then get_nonce t i else get_nonce s i)"
    using extend_front_ok [of ?start s t] connected_covers(1) [OF wf conn] by auto
  have c1_end: "seg_index c1 + length (seg_nonces c1) = (?se - 1) + 1"
    using c1(2,4) pos by simp
  have "\<exists>c. extend_back t ?last (?se - 1) c1 =
        (Ok c :: (segment_incompatible, nonce_segment) result) \<and> seg_index c = seg_index c1 \<and>
      seg_stream_id c = seg_stream_id c1 \<and> seg_index c + length (seg_nonces c) = ?last + 1 \<and>
      (\<forall>i. get_nonce c i =
        (if ?se - 1 < i \<and> i \<le> ?last then get_nonce t i else get_nonce c1 i))"
  proof (rule extend_back_ok [OF _ c1_end])
    show "?se - 1 \<le> ?last" by simp
    fix i assume "?se - 1 < i" "i \<le> ?last"
    then show "get_nonce t i \<noteq> None"
      by (intro connected_covers(2) [OF wf conn]) (auto simp: max_def split: if_splits)
  qed
  then obtain c where c:
      "extend_back t ?last (?se - 1) c1 = (Ok c :: (segment_incompatible, nonce_segment) result)"
      "seg_index c = ?start"
      "seg_stream_id c = seg_stream_id s" "seg_index c + length (seg_nonces c) = ?last + 1"
      "\<And>i. get_nonce c i =
        (if ?se - 1 < i \<and> i \<le> ?last then get_nonce t i else get_nonce c1 i)"
    unfolding c1(2,3) by blast
  have wfc: "segment_wf c"
    using c(4) wf pos by (auto simp: segment_wf_def max_def)
  have "extend_connected s t = Ok c"
    using wf pos c1(1) c(1,2,4) wfc by (simp add: extend_connected_def Let_def)
  moreover have "get_nonce c i = merged_nonce s t i" for i
  proof -
    have s_None: "get_nonce s i = None \<longleftrightarrow> i < seg_index s \<or> ?se \<le> i"
      and t_None: "get_nonce t i = None \<longleftrightarrow> i < seg_index t \<or> ?te \<le> i"
      by (simp_all add: get_nonce_None_iff)
    have gap: "?se - 1 < i \<longleftrightarrow> ?se \<le> i" and top: "i \<le> ?last \<longleftrightarrow> i < ?se \<or> i < ?te"
      using pos by linarith+
    show ?thesis
    proof (cases "get_nonce s i")
      case (Some n)
      then have "\<not> ?se \<le> i" "\<not> i < seg_index s" using s_None by auto
      then show ?thesis
        unfolding c(5) c1(5) gap merged_nonce_def using Some by simp
    next
      case None
      then have "get_nonce t i = None" if "\<not> (?se \<le> i \<and> i \<le> ?last)"
          "\<not> (?start \<le> i \<and> i < seg_index s)"
        using that s_None t_None unfolding top by linarith
      with None show ?thesis
        unfolding c(5) c1(5) gap merged_nonce_def by auto
    qed
  qed
  ultimately show ?thesis
    using c pos wfc by (intro exI [of _ c]) (auto simp: max_def)
qed

text \<open>Whatever the segments, the result stays in our stream.\<close>

lemma extend_front_stream_id:
  "extend_front t n cur = Ok c \<Longrightarrow> seg_stream_id c = seg_stream_id cur"
proof (induction t n cur rule: extend_front.induct)
  case (1 t n cur)
  then show ?case
    by (cases "n < seg_index cur"; cases "get_nonce t (seg_index cur - 1)")
      (auto simp: extend_front.simps [of t n cur])
qed

lemma extend_back_stream_id:
  "extend_back t n k cur = Ok c \<Longrightarrow> seg_stream_id c = seg_stream_id cur"
proof (induction t n k cur rule: extend_back.induct)
  case (1 t n k cur)
  then show ?case
    by (cases "k < n"; cases "get_nonce t (k + 1)") (auto simp: extend_back.simps [of t n k cur])
qed

lemma extend_aux_stream_id:
  "extend_aux s t = Ok c \<Longrightarrow> seg_stream_id c = seg_stream_id s"
  by (auto simp: extend_aux_def extend_connected_def Let_def result_iff
      split: if_splits dest!: extend_front_stream_id extend_back_stream_id)

lemma segment_extend_stream_id:
  "segment_extend s t = Ok (c, changed) \<Longrightarrow> seg_stream_id c = seg_stream_id s"
  by (auto simp: segment_extend_def result_iff dest: extend_aux_stream_id)

text \<open>Where the windows do not touch, or ours is empty, the longer one is kept.\<close>

lemma extend_aux_disconnected:
  assumes "seg_stream_id s = seg_stream_id t" "segment_wf t"
    and "\<not> segments_connect s t \<or> seg_nonces s = []"
  shows "extend_aux s t =
    Ok (if length (seg_nonces t) < length (seg_nonces s) then s else t)"
  using assms by (simp add: extend_aux_def)

text \<open>An empty segment at index 0 makes the merge look for the nonce after our last one.\<close>

lemma extend_empty_at_zero:
  assumes "seg_stream_id s = seg_stream_id t" "segment_wf s" "seg_nonces s \<noteq> []"
    and "seg_index s = 0" "seg_index t = 0" "seg_nonces t = []"
  shows "extend_aux s t = Panic ''must exist''"
proof -
  have wft: "segment_wf t" using assms by (simp add: segment_wf_def)
  have "extend_front t 0 s = (Ok s :: (segment_incompatible, nonce_segment) result)"
    using assms by (simp add: extend_front.simps)
  moreover have "extend_back t u32_max (length (seg_nonces s) - 1) s =
      (Panic ''must exist'' :: (segment_incompatible, nonce_segment) result)"
    using assms by (subst extend_back.simps)
      (simp add: segment_wf_def u32_max_def get_nonce_def u32_checked_sub_def)
  moreover have "max (length (seg_nonces s) - 1) (u32_sub 0 1) = u32_max"
    using assms by (simp add: segment_wf_def u32_max_def u32_sub_def)
  moreover have "1 \<le> length (seg_nonces s)"
    using assms(3) by (simp add: Suc_le_eq)
  ultimately show ?thesis
    using assms wft
    by (simp add: extend_aux_def extend_connected_def Let_def segments_connect_wf)
qed

text \<open>A segment is a window of a stream of nonces; extending keeps that.\<close>

definition window_of :: "(nat \<Rightarrow> pub_nonce) \<Rightarrow> nonce_segment \<Rightarrow> bool" where
  "window_of f s \<longleftrightarrow> (\<forall>i n. get_nonce s i = Some n \<longrightarrow> n = f i)"

lemma window_of_merged:
  "window_of f s \<Longrightarrow> window_of f t \<Longrightarrow> merged_nonce s t i = Some n \<Longrightarrow> n = f i"
  by (auto simp: window_of_def merged_nonce_def split: option.splits)

lemma window_of_empty [simp]: "seg_nonces s = [] \<Longrightarrow> window_of f s"
  by (auto simp: window_of_def get_nonce_iff)

lemma extend_aux_stream:
  assumes "segment_wf s" "segment_wf t" "window_of f s" "window_of f t"
    and "extend_aux s t = Ok c"
  shows "segment_wf c \<and> window_of f c \<and> seg_stream_id c = seg_stream_id s"
proof (cases "\<not> segments_connect s t \<or> seg_nonces s = []")
  case True
  then show ?thesis
    using assms by (auto simp: extend_aux_def split: if_splits)
next
  case conn: False
  show ?thesis
  proof (cases "seg_index t + length (seg_nonces t) = 0")
    case False
    then have "\<exists>c. extend_aux s t = Ok c \<and> segment_wf c \<and> seg_stream_id c = seg_stream_id s \<and>
        (\<forall>i. get_nonce c i = merged_nonce s t i)"
      using extend_connected_ok [of s t] assms conn
      by (auto simp: extend_aux_def split: if_splits)
    then show ?thesis
      using assms window_of_merged [OF assms(3,4)] by (auto simp: window_of_def)
  next
    case True
    then have "seg_index s = 0"
      using conn assms by (auto simp: segments_connect_wf)
    then have "extend_aux s t = Panic ''must exist'' \<or> seg_stream_id s \<noteq> seg_stream_id t"
      using extend_empty_at_zero [of s t] assms conn True by auto
    then show ?thesis
      using assms(5) by (auto simp: extend_aux_def)
  qed
qed

subsection \<open>Deleting a prefix\<close>

lemma delete_rounds_eq:
  "seg_index s + n \<le> u32_max \<Longrightarrow>
   delete_rounds n s = s\<lparr>seg_nonces := drop n (seg_nonces s), seg_index := seg_index s + n\<rparr>"
  by (induction n arbitrary: s) (simp_all add: drop_Suc)

lemma delete_up_to_eq:
  "up_to \<le> u32_max \<Longrightarrow> seg_index s \<le> up_to \<Longrightarrow>
   delete_up_to s up_to =
     (s\<lparr>seg_nonces := drop (up_to - seg_index s) (seg_nonces s), seg_index := up_to\<rparr>,
      seg_index s < up_to)"
  by (simp add: delete_up_to_def delete_rounds_eq)

lemma delete_up_to_noop:
  "up_to \<le> seg_index s \<Longrightarrow> delete_up_to s up_to = (s, False)"
  by (simp add: delete_up_to_def)

lemma get_nonce_deleted:
  "up_to \<le> u32_max \<Longrightarrow> seg_index s \<le> up_to \<Longrightarrow>
   get_nonce (fst (delete_up_to s up_to)) i = (if i < up_to then None else get_nonce s i)"
  by (auto simp: delete_up_to_eq get_nonce_def u32_checked_sub_def)

end
