(* ===== verification/CoordNonces.thy ===== *)
theory CoordNonces
  imports NonceStream
begin

section \<open>The coordinator's nonce cache\<close>

text \<open>
  Models \<^verbatim>\<open>frostsnap_core/src/coord_nonces.rs\<close>: per device and per stream the segment of
  public nonces the coordinator still has, how it is extended by a device's response, how a
  signing session picks its nonces, and how used nonces are dropped.
\<close>

record nonce_cache =
  by_device :: "(device_id, (nonce_stream_id, nonce_segment) btree) btree"

record not_enough_nonces =
  nen_device_id :: device_id
  nen_available :: nat
  nen_need :: nat

definition empty_nonce_cache :: nonce_cache where
  "empty_nonce_cache = \<lparr>by_device = []\<rparr>"

definition device_streams :: "nonce_cache \<Rightarrow> device_id \<Rightarrow> (nonce_stream_id, nonce_segment) btree" where
  "device_streams c d = (case bt_get (by_device c) d of None \<Rightarrow> [] | Some m \<Rightarrow> m)"

definition cached_segment :: "nonce_cache \<Rightarrow> device_id \<Rightarrow> nonce_stream_id \<Rightarrow> nonce_segment option" where
  "cached_segment c d sid = bt_get (device_streams c d) sid"

definition put_segment ::
  "device_id \<Rightarrow> nonce_stream_id \<Rightarrow> nonce_segment \<Rightarrow> nonce_cache \<Rightarrow> nonce_cache" where
  "put_segment d sid s c =
     c\<lparr>by_device := bt_insert d (bt_insert sid s (device_streams c d)) (by_device c)\<rparr>"

subsection \<open>Operations\<close>

text \<open>The vacant entries are filled before the extension is tried, so they stay filled when
  it fails.\<close>

definition cached_or_empty :: "nonce_cache \<Rightarrow> device_id \<Rightarrow> nonce_stream_id \<Rightarrow> nonce_segment" where
  "cached_or_empty c d sid =
     (case cached_segment c d sid of
        None \<Rightarrow> \<lparr>seg_stream_id = sid, seg_nonces = [], seg_index = 0\<rparr>
      | Some s \<Rightarrow> s)"

definition extend_segment ::
  "nonce_cache \<Rightarrow> device_id \<Rightarrow> nonce_segment \<Rightarrow>
    nonce_cache \<times> (segment_incompatible, bool) result" where
  "extend_segment c d new =
     (let sid = seg_stream_id new;
          old = cached_or_empty c d sid
      in (case segment_extend old new of
            Ok (s, changed) \<Rightarrow> (put_segment d sid s c, Ok changed)
          | Err e \<Rightarrow> (put_segment d sid old c, Err e)
          | Panic m \<Rightarrow> (put_segment d sid old c, Panic m)))"

definition cache_check_can_extend ::
  "nonce_cache \<Rightarrow> device_id \<Rightarrow> nonce_segment \<Rightarrow> (segment_incompatible, unit) result" where
  "cache_check_can_extend c d new =
     (case cached_segment c d (seg_stream_id new) of
        Some s \<Rightarrow> check_can_extend s new
      | None \<Rightarrow> Ok ())"

text \<open>The inner loop of \<^verbatim>\<open>new_signing_session\<close>: the first usable stream, or the most nonces
  any usable stream had.\<close>

fun pick_stream ::
  "nonce_stream_id list \<Rightarrow> nat \<Rightarrow> (nonce_stream_id \<times> nonce_segment) list \<Rightarrow> nat \<Rightarrow>
    nat + sub_segment" where
  "pick_stream used n [] available = Inl available"
| "pick_stream used n ((sid, s) # rest) available =
     (if sid \<in> set used then pick_stream used n rest available
      else if index_after_last s = None then pick_stream used n rest available
      else (case signing_req_sub_segment s n of
              Some sub \<Rightarrow> Inr sub
            | None \<Rightarrow> pick_stream used n rest (max available (length (seg_nonces s)))))"

fun choose_nonces ::
  "nonce_cache \<Rightarrow> nat \<Rightarrow> nonce_stream_id list \<Rightarrow> device_id list \<Rightarrow>
    (device_id, sub_segment) btree \<Rightarrow>
    (not_enough_nonces, (device_id, sub_segment) btree) result" where
  "choose_nonces c n used [] chosen = Ok chosen"
| "choose_nonces c n used (d # ds) chosen =
     (case pick_stream used n (device_streams c d) 0 of
        Inr sub \<Rightarrow> choose_nonces c n used ds (bt_insert d sub chosen)
      | Inl available \<Rightarrow>
          Err \<lparr>nen_device_id = d, nen_available = available, nen_need = n\<rparr>)"

definition new_signing_session ::
  "nonce_cache \<Rightarrow> device_id list \<Rightarrow> nat \<Rightarrow> nonce_stream_id list \<Rightarrow>
    (not_enough_nonces, (device_id, sub_segment) btree) result" where
  "new_signing_session c devices n used = choose_nonces c n used devices []"

definition consume ::
  "nonce_cache \<Rightarrow> device_id \<Rightarrow> nonce_stream_id \<Rightarrow> nat \<Rightarrow> ('e, nonce_cache \<times> bool) result" where
  "consume c d sid up_to =
     (case cached_segment c d sid of
        None \<Rightarrow> Ok (c, False)
      | Some s \<Rightarrow>
          if up_to < seg_index s then Panic ''tried to consume no nonces''
          else (let (s', changed) = delete_up_to s up_to
                in Ok (put_segment d sid s' c, changed)))"

definition nonces_available ::
  "nonce_cache \<Rightarrow> device_id \<Rightarrow> nonce_stream_id list \<Rightarrow> (nonce_stream_id, nat) btree" where
  "nonces_available c d used =
     map (\<lambda>(sid, s). (sid, u32_of_usize (length (seg_nonces s))))
       (filter (\<lambda>(sid, s). sid \<notin> set used \<and> seg_nonces s \<noteq> []) (device_streams c d))"

text \<open>\<open>k\<close> fresh stream ids, each drawn from the generator.\<close>

fun fresh_stream_requests :: "nat \<Rightarrow> rng \<Rightarrow> coord_nonce_state list \<times> rng" where
  "fresh_stream_requests 0 rng = ([], rng)"
| "fresh_stream_requests (Suc k) rng =
     (let (b, rng) = rng_draw rng;
          (reqs, rng) = fresh_stream_requests k rng
      in (\<lparr>cns_stream_id = NonceStreamId b, cns_index = 0, cns_remaining = 0\<rparr> # reqs, rng))"

fun existing_stream_requests ::
  "(nonce_stream_id \<times> nonce_segment) list \<Rightarrow> ('e, coord_nonce_state list) result" where
  "existing_stream_requests [] = Ok []"
| "existing_stream_requests ((sid, s) # rest) =
     and_then (expect ''unwrap'' (u32_try_from (length (seg_nonces s)))) (\<lambda>remaining.
     and_then (existing_stream_requests rest) (\<lambda>reqs.
       Ok (\<lparr>cns_stream_id = sid, cns_index = seg_index s, cns_remaining = remaining\<rparr> # reqs)))"

definition generate_nonce_stream_opening_requests ::
  "nonce_cache \<Rightarrow> device_id \<Rightarrow> nat \<Rightarrow> rng \<Rightarrow> ('e, coord_nonce_state list) result \<times> rng" where
  "generate_nonce_stream_opening_requests c d min_streams rng =
     (let streams = device_streams c d;
          (fresh, rng) = fresh_stream_requests (min_streams - length streams) rng
      in (and_then (existing_stream_requests streams) (\<lambda>reqs. Ok (fresh @ reqs)), rng))"

subsection \<open>The invariant\<close>

text \<open>Every segment is filed under its own stream id.\<close>

definition cache_wf :: "nonce_cache \<Rightarrow> bool" where
  "cache_wf c \<longleftrightarrow>
     bt_wf (by_device c) \<and>
     (\<forall>d. bt_wf (device_streams c d)) \<and>
     (\<forall>d sid s. cached_segment c d sid = Some s \<longrightarrow> seg_stream_id s = sid)"

lemma cache_wfD:
  "cache_wf c \<Longrightarrow> cached_segment c d sid = Some s \<Longrightarrow> seg_stream_id s = sid"
  by (simp add: cache_wf_def)

lemma cache_wf_empty: "cache_wf empty_nonce_cache"
  by (simp add: cache_wf_def empty_nonce_cache_def device_streams_def cached_segment_def)

lemma device_streams_put [simp]:
  "device_streams (put_segment d sid s c) d' =
     (if d' = d then bt_insert sid s (device_streams c d) else device_streams c d')"
  by (simp add: put_segment_def device_streams_def)

lemma cached_segment_put [simp]:
  "cached_segment (put_segment d sid s c) d' sid' =
     (if d' = d \<and> sid' = sid then Some s else cached_segment c d' sid')"
  by (simp add: cached_segment_def)

lemma cache_wf_put:
  "cache_wf c \<Longrightarrow> seg_stream_id s = sid \<Longrightarrow> cache_wf (put_segment d sid s c)"
  by (auto simp: cache_wf_def put_segment_def [of d sid s c] cached_segment_put [unfolded put_segment_def]
      device_streams_put [unfolded put_segment_def])

lemma cached_or_empty_stream_id:
  "cache_wf c \<Longrightarrow> seg_stream_id (cached_or_empty c d sid) = sid"
  by (auto simp: cached_or_empty_def dest: cache_wfD split: option.splits)

lemma extend_segment_wf:
  assumes "cache_wf c"
  shows "cache_wf (fst (extend_segment c d new))"
proof (cases "segment_extend (cached_or_empty c d (seg_stream_id new)) new")
  case (Ok r)
  obtain s changed where r: "r = (s, changed)" by (cases r)
  have "seg_stream_id s = seg_stream_id new"
    using segment_extend_stream_id Ok cached_or_empty_stream_id [OF assms] unfolding r by metis
  then show ?thesis using assms Ok r by (simp add: extend_segment_def Let_def cache_wf_put)
qed (use assms in \<open>simp_all add: extend_segment_def Let_def cache_wf_put cached_or_empty_stream_id\<close>)

lemma delete_up_to_stream_id [simp]: "seg_stream_id (fst (delete_up_to s k)) = seg_stream_id s"
proof -
  have "seg_stream_id (delete_rounds n s) = seg_stream_id s" for n
    by (induction n arbitrary: s) auto
  then show ?thesis by (simp add: delete_up_to_def Let_def)
qed

lemma consume_wf: "cache_wf c \<Longrightarrow> consume c d sid k = Ok (c', b) \<Longrightarrow> cache_wf c'"
  by (auto simp: consume_def Let_def case_prod_beta cache_wfD
      intro!: cache_wf_put split: option.splits if_splits)

subsection \<open>Picking nonces for a signing session\<close>

text \<open>A stream a session can draw \<open>n\<close> nonces from.\<close>

definition usable_stream ::
  "nonce_cache \<Rightarrow> nonce_stream_id list \<Rightarrow> nat \<Rightarrow> device_id \<Rightarrow> nonce_stream_id \<Rightarrow> nonce_segment \<Rightarrow> bool" where
  "usable_stream c used n d sid s \<longleftrightarrow>
     (sid, s) \<in> set (device_streams c d) \<and> sid \<notin> set used \<and> segment_wf s \<and>
     n \<le> length (seg_nonces s)"

definition first_nonces :: "nat \<Rightarrow> nonce_segment \<Rightarrow> sub_segment" where
  "first_nonces n s =
     \<lparr>sub_segment = s\<lparr>seg_nonces := take n (seg_nonces s)\<rparr>,
      sub_remaining = length (seg_nonces s) - n\<rparr>"

lemma length_first_nonces:
  "n \<le> length (seg_nonces s) \<Longrightarrow> length (seg_nonces (sub_segment (first_nonces n s))) = n"
  by (simp add: first_nonces_def)

lemma index_after_last_None_iff: "index_after_last s = None \<longleftrightarrow> \<not> segment_wf s"
  using index_after_last_wf index_after_last_None by fastforce

lemma signing_req_sub_segment_wf:
  "segment_wf s \<Longrightarrow> signing_req_sub_segment s n =
     (if n \<le> length (seg_nonces s) then Some (first_nonces n s) else None)"
  by (cases s) (auto simp: signing_req_sub_segment_def first_nonces_def segment_wf_def u32_try_from_def)

lemma pick_stream_Cons:
  "pick_stream used n ((sid, s) # rest) a =
     (if sid \<in> set used \<or> \<not> segment_wf s then pick_stream used n rest a
      else if n \<le> length (seg_nonces s) then Inr (first_nonces n s)
      else pick_stream used n rest (max a (length (seg_nonces s))))"
  by (simp add: index_after_last_None_iff signing_req_sub_segment_wf)

lemma pick_stream_Inr:
  "pick_stream used n xs a = Inr sub \<Longrightarrow>
   \<exists>sid s. (sid, s) \<in> set xs \<and> sid \<notin> set used \<and> segment_wf s \<and> n \<le> length (seg_nonces s) \<and>
     sub = first_nonces n s"
proof (induction xs arbitrary: a)
  case (Cons x xs)
  obtain sid s where "x = (sid, s)" by (cases x)
  with Cons show ?case
    by (simp only: pick_stream_Cons split: if_splits) fastforce+
qed simp

lemma pick_stream_Inl:
  "pick_stream used n xs a = Inl available \<Longrightarrow>
   a \<le> available \<and> (available = a \<or> available < n) \<and>
   (\<forall>(sid, s) \<in> set xs. sid \<notin> set used \<longrightarrow> segment_wf s \<longrightarrow>
      length (seg_nonces s) < n \<and> length (seg_nonces s) \<le> available)"
proof (induction xs arbitrary: a)
  case (Cons x xs)
  obtain sid s where x: "x = (sid, s)" by (cases x)
  consider "sid \<in> set used \<or> \<not> segment_wf s" "pick_stream used n xs a = Inl available"
    | "length (seg_nonces s) < n"
      "pick_stream used n xs (max a (length (seg_nonces s))) = Inl available"
    using Cons.prems unfolding x pick_stream_Cons by (auto split: if_splits)
  then show ?case
  proof cases
    case 1
    then show ?thesis using Cons.IH [OF 1(2)] by (auto simp: x)
  next
    case 2
    then show ?thesis using Cons.IH [OF 2(2)] by (auto simp: x max_def split: if_splits)
  qed
qed simp

lemma choose_nonces_Ok:
  "choose_nonces c n used ds chosen = Ok chosen' \<Longrightarrow>
   (\<forall>d. bt_get chosen' d =
      (if d \<in> set ds then Some (projr (pick_stream used n (device_streams c d) 0))
       else bt_get chosen d)) \<and>
   (\<forall>d\<in>set ds. \<exists>sub. pick_stream used n (device_streams c d) 0 = Inr sub)"
proof (induction c n used ds chosen rule: choose_nonces.induct)
  case (2 c n used d ds chosen)
  show ?case
  proof (cases "pick_stream used n (device_streams c d) 0")
    case (Inr sub)
    then have "choose_nonces c n used ds (bt_insert d sub chosen) = Ok chosen'"
      using "2.prems" by simp
    note IH = "2.IH" [OF Inr this]
    from IH Inr show ?thesis by auto
  qed (use "2.prems" in simp)
qed simp

lemma choose_nonces_Err:
  "choose_nonces c n used ds chosen = Err e \<Longrightarrow>
   nen_device_id e \<in> set ds \<and> nen_need e = n \<and>
   pick_stream used n (device_streams c (nen_device_id e)) 0 = Inl (nen_available e)"
  by (induction c n used ds chosen rule: choose_nonces.induct) (auto split: sum.splits)

lemma choose_nonces_total: "\<not> panics (choose_nonces c n used ds chosen)"
  by (induction c n used ds chosen rule: choose_nonces.induct) (auto split: sum.splits)

lemma new_signing_session_picks:
  assumes "new_signing_session c devices n used = Ok chosen" "d \<in> set devices"
  obtains sub sid s where "bt_get chosen d = Some sub" "(sid, s) \<in> set (device_streams c d)"
    "sid \<notin> set used" "segment_wf s" "n \<le> length (seg_nonces s)" "sub = first_nonces n s"
proof -
  note ok = choose_nonces_Ok [OF assms(1) [unfolded new_signing_session_def]]
  from ok assms(2) obtain sub where "pick_stream used n (device_streams c d) 0 = Inr sub" by blast
  moreover from this ok assms(2) have "bt_get chosen d = Some sub" by simp
  ultimately show ?thesis using pick_stream_Inr that by blast
qed

lemma new_signing_session_keys:
  "new_signing_session c devices n used = Ok chosen \<Longrightarrow>
   bt_get chosen d \<noteq> None \<longleftrightarrow> d \<in> set devices"
  unfolding new_signing_session_def by (drule choose_nonces_Ok) simp

text \<open>A signing session gets, for exactly the devices asked, the first \<open>n\<close> nonces of a
  cached segment of that device whose stream no active session uses, with the index of the
  first and the number of nonces left after them.\<close>

theorem new_signing_session_sound:
  assumes "new_signing_session c devices n used = Ok chosen"
  shows "(d \<in> set devices \<longleftrightarrow> bt_get chosen d \<noteq> None) \<and>
    (\<forall>sub. bt_get chosen d = Some sub \<longrightarrow>
      (\<exists>sid s. usable_stream c used n d sid s \<and> sub = first_nonces n s \<and>
         length (seg_nonces (sub_segment sub)) = n))"
proof (intro conjI allI impI)
  show "d \<in> set devices \<longleftrightarrow> bt_get chosen d \<noteq> None"
    using new_signing_session_keys [OF assms] by blast
  fix sub assume "bt_get chosen d = Some sub"
  moreover from this have "d \<in> set devices" using new_signing_session_keys [OF assms, of d] by simp
  ultimately obtain sid s where "usable_stream c used n d sid s" "sub = first_nonces n s"
    by (elim new_signing_session_picks [OF assms]) (simp add: usable_stream_def)
  then show "\<exists>sid s. usable_stream c used n d sid s \<and> sub = first_nonces n s \<and>
      length (seg_nonces (sub_segment sub)) = n"
    using length_first_nonces unfolding usable_stream_def by blast
qed

definition demo_segment :: nonce_segment where
  "demo_segment = \<lparr>seg_stream_id = NonceStreamId [1], seg_nonces = [[9], [9], [9]], seg_index = 2\<rparr>"

definition demo_cache :: nonce_cache where
  "demo_cache = \<lparr>by_device = [(DeviceId [1], [(NonceStreamId [1], demo_segment)])]\<rparr>"

lemma demo_session: "new_signing_session demo_cache [DeviceId [1]] 2 [] = Ok [(DeviceId [1], first_nonces 2 demo_segment)]"
  by (simp add: new_signing_session_def device_streams_def demo_cache_def bt_get_def index_after_last_def
      signing_req_sub_segment_def first_nonces_def demo_segment_def u32_simps)

theorem new_signing_session_sound_witness:
  "DeviceId [1] \<in> set [DeviceId [1]] \<and>
   (\<exists>sid s. usable_stream demo_cache [] 2 (DeviceId [1]) sid s \<and>
     first_nonces 2 demo_segment = first_nonces 2 s)"
  using new_signing_session_sound [OF demo_session, of "DeviceId [1]"] by (auto simp: bt_get_def)

text \<open>It is refused exactly when some device asked has no usable stream: none cached that is
  unused by the active sessions and holds enough nonces.\<close>

theorem new_signing_session_fails_iff:
  "(\<exists>e. new_signing_session c devices n used = Err e) \<longleftrightarrow>
     (\<exists>d\<in>set devices. \<nexists>sid s. usable_stream c used n d sid s)"
  (is "?fails \<longleftrightarrow> ?unusable")
proof
  assume ?fails
  then obtain e where "new_signing_session c devices n used = Err e" by blast
  from choose_nonces_Err [OF this [unfolded new_signing_session_def]]
  show ?unusable
    by (auto dest!: pick_stream_Inl simp: usable_stream_def intro!: bexI [of _ "nen_device_id e"])
next
  assume ?unusable
  then have "\<not> (\<exists>chosen. new_signing_session c devices n used = Ok chosen)"
    using new_signing_session_picks unfolding usable_stream_def by metis
  then show ?fails
    using choose_nonces_total [of c n used devices "[]"]
    by (auto simp: new_signing_session_def elim: not_panicsE)
qed

subsection \<open>The cache tracks the devices\<close>

text \<open>\<open>f d sid i\<close> is the nonce device \<open>d\<close> makes at index \<open>i\<close> of stream \<open>sid\<close>. The cache
  tracks the devices when every cached segment is a well-formed window of that.\<close>

definition cache_tracks ::
  "(device_id \<Rightarrow> nonce_stream_id \<Rightarrow> nat \<Rightarrow> pub_nonce) \<Rightarrow> nonce_cache \<Rightarrow> bool" where
  "cache_tracks f c \<longleftrightarrow> cache_wf c \<and>
     (\<forall>d sid s. cached_segment c d sid = Some s \<longrightarrow> segment_wf s \<and> window_of (f d sid) s)"

lemma cache_tracks_put:
  "cache_tracks f c \<Longrightarrow> seg_stream_id s = sid \<Longrightarrow> segment_wf s \<Longrightarrow> window_of (f d sid) s \<Longrightarrow>
   cache_tracks f (put_segment d sid s c)"
  by (auto simp: cache_tracks_def cache_wf_put)

lemma cached_or_empty_tracks:
  "cache_tracks f c \<Longrightarrow> segment_wf (cached_or_empty c d sid) \<and>
   window_of (f d sid) (cached_or_empty c d sid) \<and> seg_stream_id (cached_or_empty c d sid) = sid"
  using cached_or_empty_stream_id [of c d sid]
  by (cases "cached_segment c d sid")
    (auto simp: cached_or_empty_def cache_tracks_def segment_wf_def u32_max_def)

lemma extend_segment_tracks:
  assumes "cache_tracks f c" "segment_wf new" "window_of (f d (seg_stream_id new)) new"
  shows "cache_tracks f (fst (extend_segment c d new))"
proof -
  let ?old = "cached_or_empty c d (seg_stream_id new)"
  note old = cached_or_empty_tracks [OF assms(1), of d "seg_stream_id new"]
  show ?thesis
  proof (cases "segment_extend ?old new")
    case (Ok r)
    then obtain s changed where r: "r = (s, changed)" "extend_aux ?old new = Ok s"
      by (cases r) (auto simp: segment_extend_def result_iff)
    have "segment_wf s \<and> window_of (f d (seg_stream_id new)) s \<and>
        seg_stream_id s = seg_stream_id new"
      using extend_aux_stream [of ?old new "f d (seg_stream_id new)" s] old assms(2,3) r(2)
      by simp
    then show ?thesis
      using assms(1) Ok r(1) by (simp add: extend_segment_def Let_def cache_tracks_put)
  qed (use assms(1) old in \<open>simp_all add: extend_segment_def Let_def cache_tracks_put\<close>)
qed

lemma window_of_deleted:
  "up_to \<le> u32_max \<Longrightarrow> seg_index s \<le> up_to \<Longrightarrow> window_of f s \<Longrightarrow>
   window_of f (fst (delete_up_to s up_to))"
  by (auto simp: window_of_def get_nonce_deleted split: if_splits)

lemma segment_wf_deleted:
  "up_to \<le> u32_max \<Longrightarrow> seg_index s \<le> up_to \<Longrightarrow> segment_wf s \<Longrightarrow>
   segment_wf (fst (delete_up_to s up_to))"
  by (auto simp: segment_wf_def delete_up_to_eq)

lemma consume_tracks:
  assumes "cache_tracks f c" "consume c d sid up_to = Ok (c', b)" "up_to \<le> u32_max"
  shows "cache_tracks f c'"
proof (cases "cached_segment c d sid")
  case (Some s)
  have s: "segment_wf s" "window_of (f d sid) s" "seg_stream_id s = sid"
    using assms(1) Some by (auto simp: cache_tracks_def dest: cache_wfD)
  have "seg_index s \<le> up_to" "c' = put_segment d sid (fst (delete_up_to s up_to)) c"
    using assms(2) Some by (auto simp: consume_def case_prod_beta Let_def split: if_splits)
  then show ?thesis
    using s assms by (simp add: cache_tracks_put window_of_deleted segment_wf_deleted)
qed (use assms in \<open>simp add: consume_def\<close>)

text \<open>What a session picks are then the device's own nonces at the indices it says.\<close>

lemma chosen_nonces_track:
  assumes "cache_tracks f c" "new_signing_session c devices n used = Ok chosen"
    and "bt_get chosen d = Some sub" "k < n"
  shows "seg_nonces (sub_segment sub) ! k =
    f d (seg_stream_id (sub_segment sub)) (seg_index (sub_segment sub) + k)"
proof -
  have "d \<in> set devices" using new_signing_session_keys [OF assms(2), of d] assms(3) by simp
  then obtain sid s where s: "(sid, s) \<in> set (device_streams c d)"
      "n \<le> length (seg_nonces s)" "sub = first_nonces n s"
    using assms(3) by (auto elim: new_signing_session_picks [OF assms(2)])
  have "cached_segment c d sid = Some s"
    using s(1) assms(1) by (auto simp: cached_segment_def cache_tracks_def cache_wf_def bt_in_get)
  then have "window_of (f d sid) s" "seg_stream_id s = sid"
    using assms(1) by (auto simp: cache_tracks_def dest: cache_wfD)
  moreover have "get_nonce s (seg_index s + k) = Some (seg_nonces s ! k)"
    using s(2) assms(4) by (simp add: get_nonce_def u32_checked_sub_def)
  ultimately show ?thesis
    using assms(4) s(2) by (simp add: s(3) first_nonces_def window_of_def)
qed

text \<open>C22. The cache only ever holds what the devices would produce: extending it with a segment of a
  device's own stream, whether that succeeds or not, and consuming nonces keep every cached
  segment a well-formed window of the stream of its device.\<close>

theorem cache_keeps_tracking:
  assumes "cache_tracks f c"
  shows "(segment_wf new \<longrightarrow> window_of (f d (seg_stream_id new)) new \<longrightarrow>
      cache_tracks f (fst (extend_segment c d new))) \<and>
    (\<forall>c' changed. consume c d sid up_to = (Ok (c', changed) :: ('e, nonce_cache \<times> bool) result) \<longrightarrow>
      up_to \<le> u32_max \<longrightarrow> cache_tracks f c')"
  using extend_segment_tracks [OF assms] consume_tracks [OF assms] by blast

definition demo_stream :: "device_id \<Rightarrow> nonce_stream_id \<Rightarrow> nat \<Rightarrow> pub_nonce" where
  "demo_stream d sid i = [9]"

lemma demo_cache_tracks: "cache_tracks demo_stream demo_cache"
proof -
  have "cached_segment demo_cache d sid = Some s \<longleftrightarrow> d = DeviceId [1] \<and> sid = NonceStreamId [1] \<and> s = demo_segment"
    for d sid s
    by (auto simp: demo_cache_def cached_segment_def device_streams_def bt_get_def)
  moreover have "n = [9]" if g: "get_nonce demo_segment i = Some n" for i n
  proof -
    have "n \<in> set (seg_nonces demo_segment)"
      using g by (auto simp: get_nonce_def split: option.splits if_splits)
    then show ?thesis by (simp add: demo_segment_def)
  qed
  then have "window_of (demo_stream (DeviceId [1]) (NonceStreamId [1])) demo_segment"
    by (simp add: window_of_def demo_stream_def)
  moreover have "bt_wf (device_streams demo_cache d)" "bt_wf (by_device demo_cache)" for d
    by (auto simp: demo_cache_def device_streams_def bt_get_def bt_wf_def)
  moreover have "segment_wf demo_segment" by (simp add: segment_wf_def demo_segment_def u32_max_def)
  moreover have "seg_stream_id demo_segment = NonceStreamId [1]" by (simp add: demo_segment_def)
  ultimately show ?thesis by (simp add: cache_tracks_def cache_wf_def)
qed

theorem cache_keeps_tracking_witness:
  "cache_tracks demo_stream (fst (extend_segment demo_cache (DeviceId [1]) (demo_segment\<lparr>seg_index := 4\<rparr>)))"
proof -
  have "window_of (demo_stream (DeviceId [1]) (NonceStreamId [1])) (demo_segment\<lparr>seg_index := 4\<rparr>)"
    by (auto simp: window_of_def demo_stream_def demo_segment_def get_nonce_def less_Suc_eq numeral_3_eq_3
        split: option.splits if_splits)
  moreover have "segment_wf (demo_segment\<lparr>seg_index := 4\<rparr>)"
    "seg_stream_id (demo_segment\<lparr>seg_index := 4\<rparr>) = NonceStreamId [1]"
    by (simp_all add: segment_wf_def demo_segment_def u32_max_def)
  ultimately show ?thesis
    using cache_keeps_tracking [OF demo_cache_tracks, where new = "demo_segment\<lparr>seg_index := 4\<rparr>" and d = "DeviceId [1]"]
    by metis
qed

text \<open>So the nonces a signing session is given are the ones its device makes at the indices the
  session says.\<close>

theorem session_nonces_genuine:
  assumes "cache_tracks f c" "new_signing_session c devices n used = Ok chosen"
    and "bt_get chosen d = Some sub" "k < n"
  shows "seg_nonces (sub_segment sub) ! k =
    f d (seg_stream_id (sub_segment sub)) (seg_index (sub_segment sub) + k)"
  using assms by (rule chosen_nonces_track)

theorem session_nonces_genuine_witness:
  "seg_nonces (sub_segment (first_nonces 2 demo_segment)) ! 1 = demo_stream (DeviceId [1]) (NonceStreamId [1]) 3"
  using session_nonces_genuine [OF demo_cache_tracks demo_session, of "DeviceId [1]" "first_nonces 2 demo_segment" 1]
  by (simp add: bt_get_def first_nonces_def demo_segment_def)

text \<open>Consuming up to an index leaves no nonce below it in the cache and every other cached nonce as
  it was.\<close>

theorem consume_drops_used:
  assumes "cache_tracks f c" "consume c d sid up_to = (Ok (c', changed) :: ('e, nonce_cache \<times> bool) result)"
    and "up_to \<le> u32_max"
  shows "(case cached_segment c d sid of
      None \<Rightarrow> c' = c
    | Some s \<Rightarrow> \<exists>s'. cached_segment c' d sid = Some s' \<and>
        (\<forall>i. get_nonce s' i = (if i < up_to then None else get_nonce s i))) \<and>
    (\<forall>d' sid'. (d', sid') \<noteq> (d, sid) \<longrightarrow> cached_segment c' d' sid' = cached_segment c d' sid')"
proof (cases "cached_segment c d sid")
  case None
  then show ?thesis using assms(2) by (simp add: consume_def)
next
  case (Some s)
  have le: "seg_index s \<le> up_to" and c': "c' = put_segment d sid (fst (delete_up_to s up_to)) c"
    using assms(2) Some by (auto simp: consume_def case_prod_beta Let_def split: if_splits)
  show ?thesis
    using Some le assms(3)
    by (auto simp: c' cached_segment_put get_nonce_deleted)
qed

theorem consume_drops_used_witness:
  "get_nonce (the (cached_segment (fst (case consume demo_cache (DeviceId [1]) (NonceStreamId [1]) 4 of
       Ok r \<Rightarrow> r | Err () \<Rightarrow> undefined | Panic m \<Rightarrow> undefined)) (DeviceId [1]) (NonceStreamId [1]))) 3 = None"
proof -
  have sg: "cached_segment demo_cache (DeviceId [1]) (NonceStreamId [1]) = Some demo_segment"
    by (simp add: demo_cache_def cached_segment_def device_streams_def bt_get_def)
  obtain c' ch where r: "consume demo_cache (DeviceId [1]) (NonceStreamId [1]) 4 =
      (Ok (c', ch) :: (unit, nonce_cache \<times> bool) result)"
    using sg by (auto simp: consume_def demo_segment_def case_prod_beta Let_def)
  from consume_drops_used [OF demo_cache_tracks r] sg show ?thesis
    unfolding r by (auto simp: u32_max_def)
qed

text \<open>A device can make the coordinator panic: an empty segment that starts at index 0, offered for
  a stream of which the coordinator holds nonces from index 0 on, is not rejected but
  reaches the \<^verbatim>\<open>expect("must exist")\<close> of \<^verbatim>\<open>_extend\<close>, also in \<^verbatim>\<open>check_can_extend\<close>.\<close>

theorem empty_segment_panics:
  assumes "cached_segment c d (seg_stream_id new) = Some s" "seg_stream_id s = seg_stream_id new"
    and "segment_wf s" "seg_nonces s \<noteq> []" "seg_index s = 0"
    and "seg_index new = 0" "seg_nonces new = []"
  shows "cache_check_can_extend c d new = Panic ''must exist'' \<and>
    snd (extend_segment c d new) = Panic ''must exist''"
  using assms extend_empty_at_zero [of s new]
  by (simp add: cache_check_can_extend_def check_can_extend_def extend_segment_def Let_def
      cached_or_empty_def segment_extend_def)

theorem empty_segment_panics_witness:
  "cache_check_can_extend \<lparr>by_device = [(DeviceId [1], [(NonceStreamId [1], demo_segment\<lparr>seg_index := 0\<rparr>)])]\<rparr>
     (DeviceId [1]) \<lparr>seg_stream_id = NonceStreamId [1], seg_nonces = [], seg_index = 0\<rparr> = Panic ''must exist''"
  using empty_segment_panics [of
      "\<lparr>by_device = [(DeviceId [1], [(NonceStreamId [1], demo_segment\<lparr>seg_index := 0\<rparr>)])]\<rparr>" "DeviceId [1]"
      "\<lparr>seg_stream_id = NonceStreamId [1], seg_nonces = [], seg_index = 0\<rparr>" "demo_segment\<lparr>seg_index := 0\<rparr>"]
  by (simp add: cached_segment_def device_streams_def bt_get_def demo_segment_def segment_wf_def u32_max_def)

end
