(* ===== verification/SecretDerivation.thy ===== *)
theory SecretDerivation
  imports Ids
begin

section \<open>Device secrets\<close>

text \<open>
  Models \<^verbatim>\<open>frostsnap_core/src/device/secret_derivation.rs\<close>: the share-encryption keys and the
  nonce seeds a device derives. The PRF is the device's hardware and a parameter, a function
  of the concatenation of the message parts. How a share index is written as 32 bytes is a
  parameter too (\<^verbatim>\<open>schnorr_fun\<close>'s \<^verbatim>\<open>Scalar::to_bytes\<close>).
\<close>

type_synonym device_prf = "bytes \<Rightarrow> bytes"

definition string_bytes :: "string \<Rightarrow> bytes" where
  "string_bytes s = map of_char s"

definition prf_domain :: "device_prf \<Rightarrow> string \<Rightarrow> bytes \<Rightarrow> bytes" where
  "prf_domain prf domain inp = prf (of_nat (length domain) # string_bytes domain @ inp)"

definition share_encryption_input ::
  "(share_index \<Rightarrow> bytes) \<Rightarrow> access_structure_ref \<Rightarrow> share_index \<Rightarrow> bytes \<Rightarrow> bytes" where
  "share_encryption_input index_bytes asr party_index coord_key =
     key_id_bytes (asr_key_id asr) @
     access_structure_id_bytes (asr_access_structure_id asr) @
     index_bytes party_index @ coord_key"

definition get_share_encryption_key ::
  "device_prf \<Rightarrow> (share_index \<Rightarrow> bytes) \<Rightarrow> access_structure_ref \<Rightarrow> share_index \<Rightarrow> bytes \<Rightarrow> bytes" where
  "get_share_encryption_key prf index_bytes asr party_index coord_key =
     prf_domain prf ''share-encryption''
       (share_encryption_input index_bytes asr party_index coord_key)"

definition nonce_seed_input :: "nonce_stream_id \<Rightarrow> nat \<Rightarrow> bytes \<Rightarrow> bytes" where
  "nonce_seed_input sid index seed_material =
     nonce_stream_bytes sid @ u32_to_be_bytes index @ seed_material"

definition derive_nonce_seed :: "device_prf \<Rightarrow> nonce_stream_id \<Rightarrow> nat \<Rightarrow> bytes \<Rightarrow> bytes" where
  "derive_nonce_seed prf sid index seed_material =
     prf_domain prf ''nonce-seed'' (nonce_seed_input sid index seed_material)"

subsection \<open>The layouts are injective and separated\<close>

lemma u32_to_be_bytes_inj:
  assumes "u32_to_be_bytes a = u32_to_be_bytes b" "a \<le> u32_max" "b \<le> u32_max"
  shows "a = b"
proof -
  have "u32_to_le_bytes a = u32_to_le_bytes b"
    using assms(1) by (simp add: u32_to_le_bytes_def)
  then show ?thesis
    using u32_from_to_le_bytes assms(2,3) by metis
qed

lemma length_u32_to_be_bytes [simp]: "length (u32_to_be_bytes n) = 4"
  by (simp add: u32_to_be_bytes_def)

lemma nonce_seed_input_inj:
  assumes "nonce_seed_input s i m = nonce_seed_input s' i' m'"
    and "length (nonce_stream_bytes s) = 16" "length (nonce_stream_bytes s') = 16"
    and "i \<le> u32_max" "i' \<le> u32_max"
  shows "s = s' \<and> i = i' \<and> m = m'"
  using assms u32_to_be_bytes_inj [of i i']
  by (auto simp: nonce_seed_input_def nonce_stream_id.expand)

text \<open>With a PRF that gives different outputs on different inputs, a nonce seed is
  determined by stream, index and seed material, all three, and is never a share-encryption
  key.\<close>

theorem device_secrets_separated:
  assumes inj_prf: "inj prf"
    and ids: "length (nonce_stream_bytes s) = 16" "length (nonce_stream_bytes s') = 16"
    and idx: "i \<le> u32_max" "i' \<le> u32_max"
  shows "(derive_nonce_seed prf s i m = derive_nonce_seed prf s' i' m' \<longleftrightarrow>
      s = s' \<and> i = i' \<and> m = m') \<and>
    derive_nonce_seed prf s i m \<noteq> get_share_encryption_key prf ib asr p ck"
  using nonce_seed_input_inj [OF _ ids idx] inj_prf
  by (auto simp: derive_nonce_seed_def get_share_encryption_key_def prf_domain_def inj_eq)

theorem device_secrets_separated_witness:
  "derive_nonce_seed (\<lambda>b. b) (NonceStreamId (replicate 16 0)) 1 [7] \<noteq>
   derive_nonce_seed (\<lambda>b. b) (NonceStreamId (replicate 16 0)) 2 [7]"
  using device_secrets_separated [of "\<lambda>b. b" "NonceStreamId (replicate 16 0)"
    "NonceStreamId (replicate 16 0)" 1 2 "[7]" "[7]"]
  by (simp add: u32_max_def)

end
