(* ===== verification/Keys.thy ===== *)
theory Keys
  imports SecretDerivation
begin

section \<open>Keys, derivation paths and identifiers\<close>

text \<open>
  Models \<^verbatim>\<open>frostsnap_core/src/tweak.rs\<close>, \<^verbatim>\<open>master_appkey.rs\<close> and the hash-based identifiers of
  \<^verbatim>\<open>lib.rs\<close>. A point or scalar is its encoding; a \<^verbatim>\<open>SharedKey\<close> is the list of the points of
  its polynomial. The library functions they rest on (SHA-256, HMAC-SHA512, the curve and
  Shamir arithmetic of \<^verbatim>\<open>schnorr_fun\<close>, the AEAD) are the fields of the parameter \<open>crypto\<close>.
\<close>

type_synonym shared_key = "point list"

record secret_share =
  sh_index :: share_index
  sh_scalar :: scalar

record paired_share =
  ps_share :: secret_share
  ps_public_key :: point

record crypto =
  sha256 :: "bytes \<Rightarrow> bytes"
  hmac_sha512 :: "bytes \<Rightarrow> bytes \<Rightarrow> bytes"
  scalar_mod_order :: "bytes \<Rightarrow> scalar"
  index_to_bytes :: "share_index \<Rightarrow> bytes"
  valid_point :: "bytes \<Rightarrow> bool"
  generator :: point
  point_add_g :: "point \<Rightarrow> scalar \<Rightarrow> point"
  point_even_y :: "point \<Rightarrow> point"
  tap_tweak_hash :: "point \<Rightarrow> bytes"
  shared_add :: "shared_key \<Rightarrow> scalar \<Rightarrow> shared_key"
  shared_even_y :: "shared_key \<Rightarrow> shared_key"
  paired_add :: "paired_share \<Rightarrow> scalar \<Rightarrow> paired_share"
  paired_even_y :: "paired_share \<Rightarrow> paired_share"
  share_image_point :: "scalar \<Rightarrow> point"
  poly_image_point :: "shared_key \<Rightarrow> share_index \<Rightarrow> point"
  aead_encrypt :: "bytes \<Rightarrow> bytes \<Rightarrow> scalar \<Rightarrow> bytes \<times> bytes"
  aead_decrypt :: "bytes \<Rightarrow> bytes \<Rightarrow> bytes \<Rightarrow> bytes \<Rightarrow> scalar option"

definition shared_public_key :: "shared_key \<Rightarrow> point" where
  "shared_public_key k = hd k"

definition shared_threshold :: "shared_key \<Rightarrow> nat" where
  "shared_threshold k = length k"

text \<open>\<^verbatim>\<open>share_image\<close> of a polynomial and of a secret share.\<close>

definition shared_share_image :: "crypto \<Rightarrow> shared_key \<Rightarrow> share_index \<Rightarrow> share_image" where
  "shared_share_image C k i = ShareImage i (poly_image_point C k i)"

definition secret_share_image :: "crypto \<Rightarrow> secret_share \<Rightarrow> share_image" where
  "secret_share_image C s = ShareImage (sh_index s) (share_image_point C (sh_scalar s))"

text \<open>An invalid device id is given the generator as its key.\<close>

definition device_pubkey :: "crypto \<Rightarrow> device_id \<Rightarrow> point" where
  "device_pubkey C d =
     (if valid_point C (device_id_bytes d) then device_id_bytes d else generator C)"

subsection \<open>Derivation paths\<close>

datatype normal_index = NormalIndex (normal_index_u32: nat)

definition normal_index_new :: "nat \<Rightarrow> normal_index option" where
  "normal_index_new i = (if i < 2147483648 then Some (NormalIndex i) else None)"

datatype account_kind = Segwitv1

datatype keychain = External | Internal

definition account_kind_u32 :: "account_kind \<Rightarrow> nat" where
  "account_kind_u32 k = 0"

definition keychain_u32 :: "keychain \<Rightarrow> nat" where
  "keychain_u32 k = (case k of External \<Rightarrow> 0 | Internal \<Rightarrow> 1)"

record bitcoin_account =
  account_kind :: account_kind
  account_index :: normal_index

record account_keychain =
  ak_account :: bitcoin_account
  ak_keychain :: keychain

record bip32_path =
  path_account_keychain :: account_keychain
  path_index :: normal_index

definition default_account :: bitcoin_account where
  "default_account = \<lparr>account_kind = Segwitv1, account_index = NormalIndex 0\<rparr>"

definition external_keychain :: account_keychain where
  "external_keychain = \<lparr>ak_account = default_account, ak_keychain = External\<rparr>"

definition internal_keychain :: account_keychain where
  "internal_keychain = \<lparr>ak_account = default_account, ak_keychain = Internal\<rparr>"

definition external_path :: "normal_index \<Rightarrow> bip32_path" where
  "external_path i = \<lparr>path_account_keychain = external_keychain, path_index = i\<rparr>"

definition internal_path :: "normal_index \<Rightarrow> bip32_path" where
  "internal_path i = \<lparr>path_account_keychain = internal_keychain, path_index = i\<rparr>"

definition account_segments :: "bitcoin_account \<Rightarrow> nat list" where
  "account_segments a = [account_kind_u32 (account_kind a), normal_index_u32 (account_index a)]"

definition account_keychain_segments :: "account_keychain \<Rightarrow> nat list" where
  "account_keychain_segments k = account_segments (ak_account k) @ [keychain_u32 (ak_keychain k)]"

definition path_segments :: "bip32_path \<Rightarrow> nat list" where
  "path_segments p =
     account_keychain_segments (path_account_keychain p) @ [normal_index_u32 (path_index p)]"

definition path_from_u32_slice :: "nat list \<Rightarrow> bip32_path option" where
  "path_from_u32_slice path =
     (if length path \<noteq> 4 then None
      else if path ! 0 \<noteq> 0 then None
      else (case (if path ! 2 = 0 then Some External else if path ! 2 = 1 then Some Internal else None) of
              None \<Rightarrow> None
            | Some kc \<Rightarrow>
                (case normal_index_new (path ! 1) of
                   None \<Rightarrow> None
                 | Some ai \<Rightarrow>
                     (case normal_index_new (path ! 3) of
                        None \<Rightarrow> None
                      | Some i \<Rightarrow>
                          Some \<lparr>path_account_keychain = \<lparr>ak_account =
                                  \<lparr>account_kind = Segwitv1, account_index = ai\<rparr>, ak_keychain = kc\<rparr>,
                                path_index = i\<rparr>))))"

datatype app_tweak = TestMessage | BitcoinTweak bip32_path | NostrTweak

definition app_tweak_kind_u32 :: "app_tweak \<Rightarrow> nat" where
  "app_tweak_kind_u32 t = (case t of BitcoinTweak _ \<Rightarrow> 0 | TestMessage \<Rightarrow> 1 | NostrTweak \<Rightarrow> 2)"

subsection \<open>Tweakable keys\<close>

text \<open>The trait \<^verbatim>\<open>TweakableKey\<close> and its three implementations. A tweak that hits zero is
  computationally unreachable in the code and has no case here.\<close>

record ('k, 'x) tweakable =
  to_key :: "'k \<Rightarrow> point"
  tweak :: "'k \<Rightarrow> scalar \<Rightarrow> 'k"
  into_xonly_with_tweak :: "'k \<Rightarrow> scalar \<Rightarrow> 'x"
  into_xonly :: "'k \<Rightarrow> 'x"

definition shared_key_tweakable :: "crypto \<Rightarrow> (shared_key, shared_key) tweakable" where
  "shared_key_tweakable C =
     \<lparr>to_key = shared_public_key, tweak = shared_add C,
      into_xonly_with_tweak = (\<lambda>k t. shared_even_y C (shared_add C (shared_even_y C k) t)),
      into_xonly = shared_even_y C\<rparr>"

definition paired_share_tweakable :: "crypto \<Rightarrow> (paired_share, paired_share) tweakable" where
  "paired_share_tweakable C =
     \<lparr>to_key = ps_public_key, tweak = paired_add C,
      into_xonly_with_tweak = (\<lambda>k t. paired_even_y C (paired_add C (paired_even_y C k) t)),
      into_xonly = paired_even_y C\<rparr>"

definition point_tweakable :: "crypto \<Rightarrow> (point, point) tweakable" where
  "point_tweakable C =
     \<lparr>to_key = (\<lambda>k. k), tweak = point_add_g C,
      into_xonly_with_tweak = (\<lambda>k t. point_even_y C (point_add_g C (point_even_y C k) t)),
      into_xonly = point_even_y C\<rparr>"

record 'k xpub =
  xpub_key :: 'k
  xpub_chaincode :: bytes

definition xpub_from_rootkey :: "'k \<Rightarrow> 'k xpub" where
  "xpub_from_rootkey k = \<lparr>xpub_key = k, xpub_chaincode = replicate 32 0\<rparr>"

definition derive_step :: "crypto \<Rightarrow> ('k, 'x) tweakable \<Rightarrow> nat \<Rightarrow> 'k xpub \<Rightarrow> 'k xpub" where
  "derive_step C T child x =
     (let r = hmac_sha512 C (xpub_chaincode x) (to_key T (xpub_key x) @ u32_to_be_bytes child)
      in \<lparr>xpub_key = tweak T (xpub_key x) (scalar_mod_order C (take 32 r)),
          xpub_chaincode = drop 32 r\<rparr>)"

definition derive_bip32 :: "crypto \<Rightarrow> ('k, 'x) tweakable \<Rightarrow> 'k xpub \<Rightarrow> nat list \<Rightarrow> 'k xpub" where
  "derive_bip32 C T x segments = fold (derive_step C T) segments x"

definition rootkey_to_master_appkey :: "crypto \<Rightarrow> ('k, 'x) tweakable \<Rightarrow> 'k xpub \<Rightarrow> 'k xpub" where
  "rootkey_to_master_appkey C T x = derive_bip32 C T x [0]"

definition derive_xonly_key :: "crypto \<Rightarrow> ('k, 'x) tweakable \<Rightarrow> app_tweak \<Rightarrow> 'k xpub \<Rightarrow> 'x" where
  "derive_xonly_key C T t master_appkey =
     (let appkey = derive_bip32 C T master_appkey [app_tweak_kind_u32 t] in
      case t of
        BitcoinTweak path \<Rightarrow>
          (let derived_key = xpub_key (derive_bip32 C T appkey (path_segments path));
               tw = tap_tweak_hash C (to_key T derived_key)
           in into_xonly_with_tweak T derived_key (scalar_mod_order C tw))
      | NostrTweak \<Rightarrow> into_xonly T (xpub_key appkey)
      | TestMessage \<Rightarrow> into_xonly T (xpub_key appkey))"

subsection \<open>Master application keys\<close>

datatype master_appkey = MasterAppkey (master_appkey_bytes: bytes)

definition from_xpub_unchecked :: "('k, 'x) tweakable \<Rightarrow> 'k xpub \<Rightarrow> master_appkey" where
  "from_xpub_unchecked T x = MasterAppkey (to_key T (xpub_key x) @ xpub_chaincode x)"

definition derive_from_rootkey :: "crypto \<Rightarrow> point \<Rightarrow> master_appkey" where
  "derive_from_rootkey C rootkey =
     from_xpub_unchecked (point_tweakable C)
       (rootkey_to_master_appkey C (point_tweakable C) (xpub_from_rootkey rootkey))"

definition to_xpub :: "crypto \<Rightarrow> master_appkey \<Rightarrow> ('e, point xpub) result" where
  "to_xpub C m =
     (if valid_point C (take 33 (master_appkey_bytes m))
      then if length (drop 33 (master_appkey_bytes m)) = 32
           then Ok \<lparr>xpub_key = take 33 (master_appkey_bytes m),
                    xpub_chaincode = drop 33 (master_appkey_bytes m)\<rparr>
           else Panic ''correct length''
      else Panic ''invariant'')"

subsection \<open>Identifiers that are hashes\<close>

definition prefix_hash :: "crypto \<Rightarrow> string \<Rightarrow> bytes \<Rightarrow> bytes" where
  "prefix_hash C prefix inp = sha256 C (of_nat (length prefix) # string_bytes prefix @ inp)"

definition key_id_of_master_appkey :: "crypto \<Rightarrow> master_appkey \<Rightarrow> key_id" where
  "key_id_of_master_appkey C m = KeyId (prefix_hash C ''KEY_ID'' (master_appkey_bytes m))"

definition key_id_of_rootkey :: "crypto \<Rightarrow> point \<Rightarrow> key_id" where
  "key_id_of_rootkey C rootkey = key_id_of_master_appkey C (derive_from_rootkey C rootkey)"

definition access_structure_id_of :: "crypto \<Rightarrow> shared_key \<Rightarrow> access_structure_id" where
  "access_structure_id_of C app_poly =
     AccessStructureId (prefix_hash C ''ACCESS_STRUCTURE_ID'' (concat app_poly))"

definition access_structure_ref_of :: "crypto \<Rightarrow> shared_key \<Rightarrow> access_structure_ref" where
  "access_structure_ref_of C root_shared_key =
     (let app_shared_key = rootkey_to_master_appkey C (shared_key_tweakable C)
                             (xpub_from_rootkey root_shared_key);
          master = from_xpub_unchecked (shared_key_tweakable C) app_shared_key
      in AccessStructureRef (key_id_of_master_appkey C master)
           (access_structure_id_of C (xpub_key app_shared_key)))"

definition share_decryption_contrib :: "crypto \<Rightarrow> device_id \<Rightarrow> share_index \<Rightarrow> shared_key \<Rightarrow> bytes" where
  "share_decryption_contrib C d i k =
     prefix_hash C ''SHARE_DECRYPTION'' (device_id_bytes d @ index_to_bytes C i @ concat k)"

subsection \<open>What the library promises\<close>

text \<open>The documented behaviour the code relies on: a tweak added to a polynomial or to a share
  with its public key adds the tweak's point to the public key and taking the even-Y form
  does so too, and the AEAD gives back what was sealed under the same key and nonce.\<close>

definition crypto_ok :: "crypto \<Rightarrow> bool" where
  "crypto_ok C \<longleftrightarrow>
     (\<forall>k t. k \<noteq> [] \<longrightarrow> shared_add C k t \<noteq> [] \<and>
        shared_public_key (shared_add C k t) = point_add_g C (shared_public_key k) t) \<and>
     (\<forall>k. k \<noteq> [] \<longrightarrow> shared_even_y C k \<noteq> [] \<and>
        shared_public_key (shared_even_y C k) = point_even_y C (shared_public_key k)) \<and>
     (\<forall>s t. ps_public_key (paired_add C s t) = point_add_g C (ps_public_key s) t) \<and>
     (\<forall>s. ps_public_key (paired_even_y C s) = point_even_y C (ps_public_key s)) \<and>
     (\<forall>key nonce v data tag. aead_encrypt C key nonce v = (data, tag) \<longrightarrow>
        aead_decrypt C key nonce data tag = Some v)"

definition demo_crypto :: crypto where
  "demo_crypto =
     \<lparr>sha256 = (\<lambda>b. b), hmac_sha512 = (\<lambda>k m. replicate 32 (of_nat (length m)) @ take 32 (rev m @ replicate 32 0)),
      scalar_mod_order = (\<lambda>b. b), index_to_bytes = (\<lambda>i. [of_nat i]), valid_point = (\<lambda>p. length p = 33),
      generator = 2 # replicate 32 1,
      point_add_g = (\<lambda>p t. map2 (+) p (t @ replicate 33 0)), point_even_y = (\<lambda>p. 2 # tl p),
      tap_tweak_hash = (\<lambda>p. p),
      shared_add = (\<lambda>k t. map2 (+) (hd k) (t @ replicate 33 0) # tl k),
      shared_even_y = (\<lambda>k. (2 # tl (hd k)) # tl k),
      paired_add = (\<lambda>s t. s\<lparr>ps_public_key := map2 (+) (ps_public_key s) (t @ replicate 33 0)\<rparr>),
      paired_even_y = (\<lambda>s. s\<lparr>ps_public_key := 2 # tl (ps_public_key s)\<rparr>),
      share_image_point = (\<lambda>s. s), poly_image_point = (\<lambda>k i. hd k),
      aead_encrypt = (\<lambda>k n v. (v, k @ n)),
      aead_decrypt = (\<lambda>k n d t. if t = k @ n then Some d else None)\<rparr>"

lemma demo_crypto_ok: "crypto_ok demo_crypto"
  by (simp add: crypto_ok_def demo_crypto_def shared_public_key_def)

subsection \<open>Derivation commutes with taking the public key\<close>

definition map_xpub :: "('k \<Rightarrow> 'l) \<Rightarrow> 'k xpub \<Rightarrow> 'l xpub" where
  "map_xpub h x = \<lparr>xpub_key = h (xpub_key x), xpub_chaincode = xpub_chaincode x\<rparr>"

text \<open>\<open>h\<close> maps the keys of \<open>T\<close> that satisfy \<open>P\<close> to keys of \<open>T'\<close> with the same public key.\<close>

definition tweak_hom ::
  "('k \<Rightarrow> bool) \<Rightarrow> ('k, 'x) tweakable \<Rightarrow> ('l, 'y) tweakable \<Rightarrow> ('k \<Rightarrow> 'l) \<Rightarrow> ('x \<Rightarrow> 'y) \<Rightarrow> bool" where
  "tweak_hom P T T' h hx \<longleftrightarrow>
     (\<forall>k. P k \<longrightarrow> to_key T' (h k) = to_key T k \<and> into_xonly T' (h k) = hx (into_xonly T k) \<and>
       (\<forall>t. P (tweak T k t) \<and> tweak T' (h k) t = h (tweak T k t) \<and>
          into_xonly_with_tweak T' (h k) t = hx (into_xonly_with_tweak T k t)))"

lemma derive_bip32_hom:
  "tweak_hom P T T' h hx \<Longrightarrow> P (xpub_key x) \<Longrightarrow>
   P (xpub_key (derive_bip32 C T x segments)) \<and>
   derive_bip32 C T' (map_xpub h x) segments = map_xpub h (derive_bip32 C T x segments)"
proof (induction segments arbitrary: x)
  case (Cons i segments)
  have "derive_step C T' i (map_xpub h x) = map_xpub h (derive_step C T i x)"
    "P (xpub_key (derive_step C T i x))"
    using Cons.prems by (simp_all add: tweak_hom_def derive_step_def Let_def map_xpub_def)
  with Cons show ?case by (simp add: derive_bip32_def)
qed (simp add: derive_bip32_def)

lemma xpub_key_map [simp]: "xpub_key (map_xpub h x) = h (xpub_key x)"
  by (simp add: map_xpub_def)

lemma derive_xonly_key_hom:
  assumes "tweak_hom P T T' h hx" "P (xpub_key x)"
  shows "derive_xonly_key C T' t (map_xpub h x) = hx (derive_xonly_key C T t x)"
proof -
  note D = derive_bip32_hom [OF assms(1)]
  have hom: "to_key T' (h k) = to_key T k" "into_xonly T' (h k) = hx (into_xonly T k)"
    "into_xonly_with_tweak T' (h k) u = hx (into_xonly_with_tweak T k u)" if "P k" for k u
    using assms(1) that by (simp_all add: tweak_hom_def)
  note D1 = D [OF assms(2), of C "[app_tweak_kind_u32 t]"]
  show ?thesis
    using D1 D [OF conjunct1 [OF D1], of C] hom
    by (cases t) (simp_all add: derive_xonly_key_def Let_def)
qed

lemma shared_key_hom:
  "crypto_ok C \<Longrightarrow> tweak_hom (\<lambda>k. k \<noteq> []) (shared_key_tweakable C) (point_tweakable C) shared_public_key shared_public_key"
  by (simp add: tweak_hom_def crypto_ok_def shared_key_tweakable_def point_tweakable_def)

lemma paired_share_hom:
  "crypto_ok C \<Longrightarrow> tweak_hom (\<lambda>k. True) (paired_share_tweakable C) (point_tweakable C) ps_public_key ps_public_key"
  by (simp add: tweak_hom_def crypto_ok_def paired_share_tweakable_def point_tweakable_def)

lemma map_xpub_from_rootkey [simp]: "map_xpub h (xpub_from_rootkey k) = xpub_from_rootkey (h k)"
  by (simp add: map_xpub_def xpub_from_rootkey_def)

lemma from_xpub_hom:
  "tweak_hom P T T' h hx \<Longrightarrow> P (xpub_key x) \<Longrightarrow> from_xpub_unchecked T' (map_xpub h x) = from_xpub_unchecked T x"
  by (simp add: from_xpub_unchecked_def tweak_hom_def map_xpub_def)

lemma key_id_of_ref:
  assumes "crypto_ok C" "k \<noteq> []"
  shows "asr_key_id (access_structure_ref_of C k) = key_id_of_rootkey C (shared_public_key k)"
proof -
  note H = shared_key_hom [OF assms(1)]
  let ?x = "xpub_from_rootkey k"
  have P: "xpub_key ?x \<noteq> []" using assms(2) by (simp add: xpub_from_rootkey_def)
  note D = derive_bip32_hom [OF H P, of C "[0]"]
  have "rootkey_to_master_appkey C (point_tweakable C) (xpub_from_rootkey (shared_public_key k)) =
      map_xpub shared_public_key (rootkey_to_master_appkey C (shared_key_tweakable C) ?x)"
    using D by (simp add: rootkey_to_master_appkey_def)
  moreover have "xpub_key (rootkey_to_master_appkey C (shared_key_tweakable C) ?x) \<noteq> []"
    using D by (simp add: rootkey_to_master_appkey_def)
  ultimately show ?thesis
    by (simp add: access_structure_ref_of_def key_id_of_rootkey_def derive_from_rootkey_def Let_def
        from_xpub_hom [OF H])
qed

subsection \<open>Properties\<close>

text \<open>A key has one id: hashing the master application key derived from the whole sharing
  polynomial and hashing the one derived from the public root key give the same \<^verbatim>\<open>KeyId\<close>, so
  a coordinator and a device name the same key.\<close>

theorem key_id_agrees:
  assumes "crypto_ok C" "k \<noteq> []"
  shows "asr_key_id (access_structure_ref_of C k) = key_id_of_rootkey C (shared_public_key k)"
  by (rule key_id_of_ref [OF assms])

theorem key_id_agrees_witness:
  "asr_key_id (access_structure_ref_of demo_crypto [replicate 33 5]) =
   key_id_of_rootkey demo_crypto (replicate 33 5)"
  using key_id_agrees [OF demo_crypto_ok, of "[replicate 33 5]"] by (simp add: shared_public_key_def)

text \<open>C25. The device that derives its share of an application key and the coordinator that derives
  the public key sign and verify under the same x-only key, whatever the tweak.\<close>

theorem derived_keys_agree:
  assumes "crypto_ok C"
  shows "ps_public_key (derive_xonly_key C (paired_share_tweakable C) t
      (rootkey_to_master_appkey C (paired_share_tweakable C) (xpub_from_rootkey s))) =
    derive_xonly_key C (point_tweakable C) t
      (rootkey_to_master_appkey C (point_tweakable C) (xpub_from_rootkey (ps_public_key s)))"
proof -
  note H = paired_share_hom [OF assms]
  have "rootkey_to_master_appkey C (point_tweakable C) (xpub_from_rootkey (ps_public_key s)) =
      map_xpub ps_public_key (rootkey_to_master_appkey C (paired_share_tweakable C) (xpub_from_rootkey s))"
    using derive_bip32_hom [OF H, where x = "xpub_from_rootkey s" and C = C and segments = "[0]"]
    by (simp add: rootkey_to_master_appkey_def)
  then show ?thesis using derive_xonly_key_hom [OF H] by simp
qed

theorem derived_keys_agree_witness:
  "ps_public_key (derive_xonly_key demo_crypto (paired_share_tweakable demo_crypto) NostrTweak
      (rootkey_to_master_appkey demo_crypto (paired_share_tweakable demo_crypto)
        (xpub_from_rootkey \<lparr>ps_share = \<lparr>sh_index = 1, sh_scalar = [3]\<rparr>, ps_public_key = replicate 33 5\<rparr>))) =
    derive_xonly_key demo_crypto (point_tweakable demo_crypto) NostrTweak
      (rootkey_to_master_appkey demo_crypto (point_tweakable demo_crypto) (xpub_from_rootkey (replicate 33 5)))"
  by (subst derived_keys_agree [OF demo_crypto_ok]) simp

text \<open>A slice of segments is accepted as a path exactly when it is the segment list of a path whose
  two free indices are not hardened, and then it is that path.\<close>

theorem path_slice_roundtrip:
  "path_from_u32_slice xs = Some p \<longleftrightarrow>
     path_segments p = xs \<and> normal_index_u32 (path_index p) < 2147483648 \<and>
     normal_index_u32 (account_index (ak_account (path_account_keychain p))) < 2147483648"
  (is "?parses \<longleftrightarrow> ?is")
proof
  assume ?parses
  then have len: "length xs = 4" and x0: "xs ! 0 = 0"
    by (auto simp: path_from_u32_slice_def split: if_splits)
  then obtain b c d where xs: "xs = [0, b, c, d]"
    by (auto simp: length_Suc_conv numeral_eq_Suc)
  show ?is using \<open>?parses\<close>
    by (auto simp: xs path_from_u32_slice_def normal_index_new_def path_segments_def account_segments_def
        account_keychain_segments_def account_kind_u32_def keychain_u32_def
        split: if_splits)
next
  assume segs: ?is
  obtain ai kc i where p: "p = \<lparr>path_account_keychain = \<lparr>ak_account =
      \<lparr>account_kind = Segwitv1, account_index = NormalIndex ai\<rparr>, ak_keychain = kc\<rparr>, path_index = NormalIndex i\<rparr>"
    by (metis (full_types) account_keychain.surjective account_kind.exhaust bip32_path.surjective
        bitcoin_account.surjective normal_index.exhaust old.unit.exhaust)
  from segs show ?parses
    by (cases kc) (auto simp: p path_from_u32_slice_def normal_index_new_def path_segments_def account_segments_def
        account_keychain_segments_def account_kind_u32_def keychain_u32_def)
qed

end
