(* ===== verification/TxTemplate.thy ===== *)
theory TxTemplate
  imports Keys "HOL-Library.Multiset"
begin

section \<open>Transaction templates\<close>

text \<open>
  Models \<^verbatim>\<open>frostsnap_core/src/bitcoin_transaction.rs\<close>: the transaction a device is asked to sign,
  what of it belongs to a key, and what the user is shown. Amounts are \<^verbatim>\<open>u64\<close>; their sums wrap
  around as the release profile compiles them. Scripts, ids and addresses of \<^verbatim>\<open>rust-bitcoin\<close> are
  encodings, and its functions are the fields of the parameter \<open>tx_ops\<close>.
\<close>

type_synonym script = bytes
type_synonym sighash = bytes

datatype network = Bitcoin | Testnet | Signet | Regtest

record outpoint =
  op_txid :: bytes
  op_vout :: nat

record tx_out =
  txout_value :: nat
  txout_spk :: script

record bitcoin_tx =
  btx_version :: nat
  btx_lock_time :: nat
  btx_inputs :: "(outpoint \<times> nat) list" \<comment> \<open>previous output and sequence\<close>
  btx_outputs :: "tx_out list"

text \<open>\<open>taproot_sighashes tx prevouts\<close> gives the key-spend hash of each input.\<close>

record tx_ops =
  p2tr_script :: "point \<Rightarrow> script"
  taproot_sighashes :: "bitcoin_tx \<Rightarrow> tx_out list \<Rightarrow> sighash list"
  address_of_script :: "script \<Rightarrow> network \<Rightarrow> bytes option"
  signed_vbytes :: "bitcoin_tx \<Rightarrow> nat"
  amount_sum :: "nat list \<Rightarrow> nat"

record local_spk =
  lspk_appkey :: master_appkey
  lspk_path :: bip32_path

datatype spk_owner = Foreign script | Local local_spk

record tx_input =
  in_outpoint :: outpoint
  in_value :: nat
  in_owner :: spk_owner
  in_sequence :: nat

record tx_output =
  out_value :: nat
  out_owner :: spk_owner

text \<open>The scope is \<open>()\<close> for the form that travels and the key for the narrowed one.\<close>

record 'scope tx_template =
  tx_scope :: 'scope
  tx_version :: nat
  tx_lock_time :: nat
  tx_inputs :: "tx_input list"
  tx_outputs :: "tx_output list"

subsection \<open>Owners\<close>

text \<open>A \<^verbatim>\<open>MasterAppkey\<close> only decodes from a valid point and chain code, which \<^verbatim>\<open>to_xpub\<close> takes
  apart again.\<close>

definition appkey_xpub :: "master_appkey \<Rightarrow> point xpub" where
  "appkey_xpub m =
     \<lparr>xpub_key = take 33 (master_appkey_bytes m), xpub_chaincode = drop 33 (master_appkey_bytes m)\<rparr>"

definition local_spk_script :: "crypto \<Rightarrow> tx_ops \<Rightarrow> local_spk \<Rightarrow> script" where
  "local_spk_script C B o1 =
     p2tr_script B (derive_xonly_key C (point_tweakable C) (BitcoinTweak (lspk_path o1))
       (appkey_xpub (lspk_appkey o1)))"

record spk_mismatch =
  mismatch_got :: script
  mismatch_expected :: script
  mismatch_path :: "nat list"
  mismatch_appkey :: master_appkey

definition check_spk :: "crypto \<Rightarrow> tx_ops \<Rightarrow> local_spk \<Rightarrow> script \<Rightarrow> (spk_mismatch, unit) result" where
  "check_spk C B o1 spk =
     (let expected = local_spk_script C B o1 in
      if spk \<noteq> expected
      then Err \<lparr>mismatch_got = spk, mismatch_expected = expected,
                mismatch_path = path_segments (lspk_path o1), mismatch_appkey = lspk_appkey o1\<rparr>
      else Ok ())"

definition owner_spk :: "crypto \<Rightarrow> tx_ops \<Rightarrow> spk_owner \<Rightarrow> script" where
  "owner_spk C B ow = (case ow of Foreign spk \<Rightarrow> spk | Local l \<Rightarrow> local_spk_script C B l)"

definition local_owner_key :: "spk_owner \<Rightarrow> master_appkey option" where
  "local_owner_key ow = (case ow of Foreign _ \<Rightarrow> None | Local l \<Rightarrow> Some (lspk_appkey l))"

definition local_owner :: "spk_owner \<Rightarrow> local_spk option" where
  "local_owner ow = (case ow of Foreign _ \<Rightarrow> None | Local l \<Rightarrow> Some l)"

definition input_txout :: "crypto \<Rightarrow> tx_ops \<Rightarrow> tx_input \<Rightarrow> tx_out" where
  "input_txout C B i = \<lparr>txout_value = in_value i, txout_spk = owner_spk C B (in_owner i)\<rparr>"

definition output_txout :: "crypto \<Rightarrow> tx_ops \<Rightarrow> tx_output \<Rightarrow> tx_out" where
  "output_txout C B o1 = \<lparr>txout_value = out_value o1, txout_spk = owner_spk C B (out_owner o1)\<rparr>"

subsection \<open>Facts that do not depend on whose transaction it is\<close>

definition to_rust_bitcoin_tx :: "crypto \<Rightarrow> tx_ops \<Rightarrow> 'scope tx_template \<Rightarrow> bitcoin_tx" where
  "to_rust_bitcoin_tx C B t =
     \<lparr>btx_version = tx_version t, btx_lock_time = tx_lock_time t,
      btx_inputs = map (\<lambda>i. (in_outpoint i, in_sequence i)) (tx_inputs t),
      btx_outputs = map (output_txout C B) (tx_outputs t)\<rparr>"

definition iter_sighash :: "crypto \<Rightarrow> tx_ops \<Rightarrow> 'scope tx_template \<Rightarrow> sighash list" where
  "iter_sighash C B t =
     take (length (tx_inputs t))
       (taproot_sighashes B (to_rust_bitcoin_tx C B t) (map (input_txout C B) (tx_inputs t)))"

definition u64_sum :: "nat list \<Rightarrow> nat" where
  "u64_sum xs = foldl (\<lambda>a b. (a + b) mod 18446744073709551616) 0 xs"

definition fee :: "'scope tx_template \<Rightarrow> nat option" where
  "fee t =
     (let ins = u64_sum (map in_value (tx_inputs t)); outs = u64_sum (map out_value (tx_outputs t))
      in if outs \<le> ins then Some (ins - outs) else None)"

subsection \<open>Building\<close>

definition new_template :: "unit tx_template" where
  "new_template = \<lparr>tx_scope = (), tx_version = 2, tx_lock_time = 0, tx_inputs = [], tx_outputs = []\<rparr>"

record push_input =
  pi_txout :: tx_out
  pi_outpoint :: outpoint
  pi_sequence :: nat

definition push_foreign_input :: "push_input \<Rightarrow> unit tx_template \<Rightarrow> unit tx_template" where
  "push_foreign_input p t =
     t\<lparr>tx_inputs := tx_inputs t @ [\<lparr>in_outpoint = pi_outpoint p,
         in_value = txout_value (pi_txout p), in_owner = Foreign (txout_spk (pi_txout p)),
         in_sequence = pi_sequence p\<rparr>]\<rparr>"

definition push_owned_input ::
  "crypto \<Rightarrow> tx_ops \<Rightarrow> push_input \<Rightarrow> local_spk \<Rightarrow> unit tx_template \<Rightarrow> (spk_mismatch, unit tx_template) result" where
  "push_owned_input C B p owner t =
     and_then (check_spk C B owner (txout_spk (pi_txout p))) (\<lambda>_.
       Ok (t\<lparr>tx_inputs := tx_inputs t @ [\<lparr>in_outpoint = pi_outpoint p,
         in_value = txout_value (pi_txout p), in_owner = Local owner,
         in_sequence = pi_sequence p\<rparr>]\<rparr>))"

definition push_foreign_output :: "tx_out \<Rightarrow> unit tx_template \<Rightarrow> unit tx_template" where
  "push_foreign_output o1 t =
     t\<lparr>tx_outputs := tx_outputs t @ [\<lparr>out_value = txout_value o1, out_owner = Foreign (txout_spk o1)\<rparr>]\<rparr>"

definition push_owned_output :: "nat \<Rightarrow> local_spk \<Rightarrow> unit tx_template \<Rightarrow> unit tx_template" where
  "push_owned_output value owner t =
     t\<lparr>tx_outputs := tx_outputs t @ [\<lparr>out_value = value, out_owner = Local owner\<rparr>]\<rparr>"

definition push_owned_output_checked ::
  "crypto \<Rightarrow> tx_ops \<Rightarrow> tx_out \<Rightarrow> local_spk \<Rightarrow> unit tx_template \<Rightarrow> (spk_mismatch, unit tx_template) result" where
  "push_owned_output_checked C B o1 owner t =
     and_then (check_spk C B owner (txout_spk o1)) (\<lambda>_.
       Ok (push_owned_output (txout_value o1) owner t))"

subsection \<open>Narrowing to one key\<close>

definition foreign_to_us :: "crypto \<Rightarrow> tx_ops \<Rightarrow> master_appkey \<Rightarrow> spk_owner \<Rightarrow> spk_owner" where
  "foreign_to_us C B m ow =
     (case ow of
        Local l \<Rightarrow> if lspk_appkey l \<noteq> m then Foreign (local_spk_script C B l) else ow
      | Foreign _ \<Rightarrow> ow)"

definition as_seen_by :: "crypto \<Rightarrow> tx_ops \<Rightarrow> master_appkey \<Rightarrow> unit tx_template \<Rightarrow> master_appkey tx_template" where
  "as_seen_by C B m t =
     \<lparr>tx_scope = m, tx_version = tx_version t, tx_lock_time = tx_lock_time t,
      tx_inputs = map (\<lambda>i. i\<lparr>in_owner := foreign_to_us C B m (in_owner i)\<rparr>) (tx_inputs t),
      tx_outputs = map (\<lambda>o1. \<lparr>out_value = out_value o1, out_owner = foreign_to_us C B m (out_owner o1)\<rparr>)
                     (tx_outputs t)\<rparr>"

subsection \<open>Answers for one key\<close>

type_synonym scoped_template = "master_appkey tx_template"
type_synonym encoded_signature = bytes

definition scoped_master_appkey :: "scoped_template \<Rightarrow> master_appkey" where
  "scoped_master_appkey t = tx_scope t"

definition owns_every_input :: "scoped_template \<Rightarrow> bool" where
  "owns_every_input t = list_all (\<lambda>i. local_owner (in_owner i) \<noteq> None) (tx_inputs t)"

definition has_any_inputs_to_sign :: "scoped_template \<Rightarrow> bool" where
  "has_any_inputs_to_sign t = list_ex (\<lambda>i. local_owner (in_owner i) \<noteq> None) (tx_inputs t)"

text \<open>The fee rate is kept as the fraction it is, the fee over the virtual size.\<close>

definition feerate :: "crypto \<Rightarrow> tx_ops \<Rightarrow> scoped_template \<Rightarrow> (nat \<times> nat) option" where
  "feerate C B t =
     (if owns_every_input t
      then map_option (\<lambda>f. (f, signed_vbytes B (to_rust_bitcoin_tx C B t))) (fee t)
      else None)"

definition iter_our_input_sighashes :: "crypto \<Rightarrow> tx_ops \<Rightarrow> scoped_template \<Rightarrow> (local_spk \<times> sighash) list" where
  "iter_our_input_sighashes C B t =
     List.map_filter (\<lambda>(i, h). map_option (\<lambda>l. (l, h)) (local_owner (in_owner i)))
       (zip (tx_inputs t) (iter_sighash C B t))"

definition iter_our_inputs :: "scoped_template \<Rightarrow> (nat \<times> tx_input \<times> local_spk) list" where
  "iter_our_inputs t =
     List.map_filter (\<lambda>(n, i). map_option (\<lambda>l. (n, i, l)) (local_owner (in_owner i)))
       (List.enumerate 0 (tx_inputs t))"

definition iter_our_outputs :: "scoped_template \<Rightarrow> (nat \<times> tx_output \<times> local_spk) list" where
  "iter_our_outputs t =
     List.map_filter (\<lambda>(n, o1). map_option (\<lambda>l. (n, o1, l)) (local_owner (out_owner o1)))
       (List.enumerate 0 (tx_outputs t))"

definition our_spks :: "crypto \<Rightarrow> tx_ops \<Rightarrow> scoped_template \<Rightarrow> (script, bip32_path) btree" where
  "our_spks C B t =
     bt_of_list (map (\<lambda>(n, i, l). (local_spk_script C B l, lspk_path l)) (iter_our_inputs t)
       @ map (\<lambda>(n, o1, l). (local_spk_script C B l, lspk_path l)) (iter_our_outputs t))"

record signature_count_mismatch =
  scm_expected :: nat
  scm_got :: nat

definition signatures_by_input_index ::
  "scoped_template \<Rightarrow> encoded_signature list \<Rightarrow>
    (signature_count_mismatch, (nat \<times> encoded_signature) list) result" where
  "signatures_by_input_index t signatures =
     (let expected = length (iter_our_inputs t) in
      if length signatures \<noteq> expected
      then Err \<lparr>scm_expected = expected, scm_got = length signatures\<rparr>
      else Ok (zip (map fst (iter_our_inputs t)) signatures))"

text \<open>The witnesses of a signed transaction, one option per input.\<close>

definition to_signed_rust_bitcoin_tx ::
  "crypto \<Rightarrow> tx_ops \<Rightarrow> scoped_template \<Rightarrow> encoded_signature list \<Rightarrow>
    (signature_count_mismatch, bitcoin_tx \<times> encoded_signature option list) result" where
  "to_signed_rust_bitcoin_tx C B t signatures =
     and_then (signatures_by_input_index t signatures) (\<lambda>pairs.
       Ok (to_rust_bitcoin_tx C B t,
           foldl (\<lambda>w (i, sg). w[i := Some sg]) (replicate (length (tx_inputs t)) None) pairs))"

definition i64_wrap :: "int \<Rightarrow> int" where
  "i64_wrap z = (z + 9223372036854775808) mod 18446744073709551616 - 9223372036854775808"

definition ours_value :: "spk_owner \<Rightarrow> nat \<Rightarrow> ('e, int) result" where
  "ours_value ow value =
     (case ow of
        Local _ \<Rightarrow> if value < 9223372036854775808 then Ok (int value) else Panic ''value ridiculously large''
      | Foreign _ \<Rightarrow> Ok 0)"

fun i64_sum :: "(spk_owner \<times> nat) list \<Rightarrow> int \<Rightarrow> ('e, int) result" where
  "i64_sum [] acc = Ok acc"
| "i64_sum ((ow, v) # rest) acc = and_then (ours_value ow v) (\<lambda>z. i64_sum rest (i64_wrap (acc + z)))"

definition our_net_value :: "scoped_template \<Rightarrow> ('e, int) result" where
  "our_net_value t =
     and_then (i64_sum (map (\<lambda>o1. (out_owner o1, out_value o1)) (tx_outputs t)) 0) (\<lambda>outs.
     and_then (i64_sum (map (\<lambda>i. (in_owner i, in_value i)) (tx_inputs t)) 0) (\<lambda>ins.
       Ok (i64_wrap (outs - ins))))"

definition foreign_recipients :: "scoped_template \<Rightarrow> (script \<times> nat) list" where
  "foreign_recipients t =
     List.map_filter (\<lambda>o1. case out_owner o1 of Foreign spk \<Rightarrow> Some (spk, out_value o1) | Local _ \<Rightarrow> None)
       (tx_outputs t)"

subsection \<open>The prompt\<close>

datatype prompt_destination = Address bytes | UnrecognizedScript script

definition destination_of :: "tx_ops \<Rightarrow> script \<Rightarrow> network \<Rightarrow> prompt_destination" where
  "destination_of B spk net =
     (case address_of_script B spk net of Some a \<Rightarrow> Address a | None \<Rightarrow> UnrecognizedScript spk)"

record prompt_recipient =
  rec_destination :: prompt_destination
  rec_amount :: nat
  rec_owned :: "bip32_path option"

record prompt_sign_tx =
  prompt_recipients :: "prompt_recipient list"
  prompt_fee :: nat
  prompt_fee_rate :: "(nat \<times> nat) option"

definition is_internal :: "local_spk \<Rightarrow> bool" where
  "is_internal l \<longleftrightarrow> ak_keychain (path_account_keychain (lspk_path l)) = Internal"

definition is_foreign :: "spk_owner \<Rightarrow> bool" where
  "is_foreign ow = (case ow of Foreign _ \<Rightarrow> True | Local _ \<Rightarrow> False)"

definition hide_single_change :: "scoped_template \<Rightarrow> bool" where
  "hide_single_change t =
     (list_ex (\<lambda>o1. is_foreign (out_owner o1)) (tx_outputs t) \<and>
      length (filter (\<lambda>(n, o1, l). is_internal l) (iter_our_outputs t)) = 1)"

definition prompt_recipient_of ::
  "crypto \<Rightarrow> tx_ops \<Rightarrow> network \<Rightarrow> bool \<Rightarrow> tx_output \<Rightarrow> prompt_recipient option" where
  "prompt_recipient_of C B net hide o1 =
     (case (case out_owner o1 of
              Foreign _ \<Rightarrow> Some None
            | Local l \<Rightarrow> if hide \<and> is_internal l then None else Some (Some (lspk_path l)))
      of None \<Rightarrow> None
       | Some owned \<Rightarrow>
           Some \<lparr>rec_destination = destination_of B (owner_spk C B (out_owner o1)) net,
                 rec_amount = out_value o1, rec_owned = owned\<rparr>)"

definition user_prompt :: "crypto \<Rightarrow> tx_ops \<Rightarrow> network \<Rightarrow> scoped_template \<Rightarrow> ('e, prompt_sign_tx) result" where
  "user_prompt C B net t =
     and_then (expect ''transaction validity should have already been checked'' (fee t)) (\<lambda>f.
       Ok \<lparr>prompt_recipients =
             List.map_filter (prompt_recipient_of C B net (hide_single_change t)) (tx_outputs t),
           prompt_fee = f, prompt_fee_rate = feerate C B t\<rparr>)"

definition value_moved :: "tx_ops \<Rightarrow> prompt_sign_tx \<Rightarrow> nat" where
  "value_moved B p = amount_sum B (map rec_amount (prompt_recipients p))"

definition foreign_value :: "tx_ops \<Rightarrow> prompt_sign_tx \<Rightarrow> nat option" where
  "foreign_value B p =
     (let v = amount_sum B (map rec_amount (filter (\<lambda>r. rec_owned r = None) (prompt_recipients p)))
      in if 0 < v then Some v else None)"

definition value_at_risk :: "tx_ops \<Rightarrow> prompt_sign_tx \<Rightarrow> nat" where
  "value_at_risk B p = (case foreign_value B p of Some v \<Rightarrow> v | None \<Rightarrow> value_moved B p)"

subsection \<open>Lemmas\<close>

lemma local_owner_Some [simp]: "local_owner ow = Some l \<longleftrightarrow> ow = Local l"
  by (cases ow) (auto simp: local_owner_def)

lemma local_owner_None [simp]: "local_owner ow = None \<longleftrightarrow> is_foreign ow"
  by (cases ow) (auto simp: local_owner_def is_foreign_def)

lemma owner_spk_foreign_to_us [simp]: "owner_spk C B (foreign_to_us C B m ow) = owner_spk C B ow"
  by (cases ow) (auto simp: owner_spk_def foreign_to_us_def)

lemma foreign_to_us_Local [simp]:
  "foreign_to_us C B m ow = Local l \<longleftrightarrow> ow = Local l \<and> lspk_appkey l = m"
  by (cases ow) (auto simp: foreign_to_us_def)

lemma tx_inputs_as_seen_by [simp]:
  "map in_value (tx_inputs (as_seen_by C B m t)) = map in_value (tx_inputs t)"
  "map out_value (tx_outputs (as_seen_by C B m t)) = map out_value (tx_outputs t)"
  "map (input_txout C B) (tx_inputs (as_seen_by C B m t)) = map (input_txout C B) (tx_inputs t)"
  by (simp_all add: as_seen_by_def comp_def input_txout_def)

lemma to_rust_bitcoin_tx_as_seen_by [simp]:
  "to_rust_bitcoin_tx C B (as_seen_by C B m t) = to_rust_bitcoin_tx C B t"
  by (simp add: to_rust_bitcoin_tx_def as_seen_by_def comp_def output_txout_def)

lemma fee_as_seen_by [simp]: "fee (as_seen_by C B m t) = fee t"
  by (simp add: fee_def)

lemma u64_sum_mod: "foldl (\<lambda>a b. (a + b) mod 18446744073709551616) a xs mod 18446744073709551616 =
    (a + sum_list xs) mod (18446744073709551616::nat)"
proof (induction xs arbitrary: a)
  case (Cons x xs)
  show ?case
    using Cons [of "(a + x) mod 18446744073709551616"]
    by (simp add: mod_simps add.assoc)
qed simp

lemma u64_sum_less: "foldl (\<lambda>a b. (a + b) mod 18446744073709551616) a xs < (18446744073709551616::nat)"
  if "a < 18446744073709551616"
  using that by (induction xs arbitrary: a) auto

lemma u64_sum_eq: "u64_sum xs = sum_list xs mod 18446744073709551616"
  using u64_sum_mod [of 0 xs] u64_sum_less [of 0 xs] by (simp add: u64_sum_def)

lemma length_iter_sighash:
  "length (taproot_sighashes B (to_rust_bitcoin_tx C B t) (map (input_txout C B) (tx_inputs t))) =
     length (tx_inputs t) \<Longrightarrow>
   length (iter_sighash C B t) = length (tx_inputs t)"
  by (simp add: iter_sighash_def)

text \<open>Owned inputs and their hashes run in step.\<close>

lemma map_filter_zip_enumerate:
  "length hs = length xs \<Longrightarrow>
   map (\<lambda>(n, x, l). (l, hs ! (n - k)))
     (List.map_filter (\<lambda>(n, x). map_option (\<lambda>l. (n, x, l)) (f x)) (List.enumerate k xs)) =
   List.map_filter (\<lambda>(x, h). map_option (\<lambda>l. (l, h)) (f x)) (zip xs hs)"
proof (induction xs arbitrary: k hs)
  case (Cons x xs)
  then obtain h hs' where hs: "hs = h # hs'" "length hs' = length xs" by (cases hs) auto
  have shift: "map (\<lambda>(n, x, l). (l, hs ! (n - k)))
      (List.map_filter (\<lambda>(n, x). map_option (\<lambda>l. (n, x, l)) (f x)) (List.enumerate (Suc k) xs)) =
    map (\<lambda>(n, x, l). (l, hs' ! (n - Suc k)))
      (List.map_filter (\<lambda>(n, x). map_option (\<lambda>l. (n, x, l)) (f x)) (List.enumerate (Suc k) xs))"
  proof (rule map_cong [OF refl])
    fix p
    assume "p \<in> set (List.map_filter (\<lambda>(n, x). map_option (\<lambda>l. (n, x, l)) (f x)) (List.enumerate (Suc k) xs))"
    then have "Suc k \<le> fst p" by (auto simp: List.map_filter_def in_set_enumerate_eq)
    then show "(case p of (n, x, l) \<Rightarrow> (l, hs ! (n - k))) = (case p of (n, x, l) \<Rightarrow> (l, hs' ! (n - Suc k)))"
      by (cases p) (simp add: hs nth_Cons')
  qed
  show ?case
    using Cons.IH [OF hs(2), of "Suc k"] shift
    by (cases "f x") (simp_all add: List.map_filter_simps hs(1))
qed (simp add: List.map_filter_simps)

lemma iter_our_inputs_nth:
  assumes "k < length (iter_our_inputs t)"
  obtains l where "iter_our_inputs t ! k = (fst (iter_our_inputs t ! k), tx_inputs t ! fst (iter_our_inputs t ! k), l)"
    "fst (iter_our_inputs t ! k) < length (tx_inputs t)"
    "in_owner (tx_inputs t ! fst (iter_our_inputs t ! k)) = Local l"
proof -
  have "iter_our_inputs t ! k \<in> set (iter_our_inputs t)" using assms by simp
  then obtain n l where "iter_our_inputs t ! k = (n, tx_inputs t ! n, l)" "n < length (tx_inputs t)"
      "in_owner (tx_inputs t ! n) = Local l"
    by (auto simp: iter_our_inputs_def List.map_filter_def in_set_enumerate_eq)
  then show thesis using that by simp
qed

lemma distinct_our_input_indices: "distinct (map fst (iter_our_inputs t))"
proof -
  have eq: "map fst (List.map_filter (\<lambda>(n, i). map_option (\<lambda>l. (n, i, l)) (f i)) (List.enumerate k xs)) =
      map fst (filter (\<lambda>(n, i). f i \<noteq> None) (List.enumerate k xs))"
    for f :: "tx_input \<Rightarrow> local_spk option" and k xs
    by (induction xs arbitrary: k) (auto simp: List.map_filter_simps)
  show ?thesis
    unfolding iter_our_inputs_def eq by (rule distinct_map_filter) simp
qed

lemma foldl_update_nth:
  "distinct (map fst ps) \<Longrightarrow> \<forall>p\<in>set ps. fst p < length w \<Longrightarrow>
   length (foldl (\<lambda>w (i, x). w[i := Some x]) w ps) = length w \<and>
   (\<forall>i < length w. foldl (\<lambda>w (i, x). w[i := Some x]) w ps ! i =
      (case map_of ps i of Some x \<Rightarrow> Some x | None \<Rightarrow> w ! i))"
proof (induction ps arbitrary: w)
  case (Cons p ps)
  obtain i x where p: "p = (i, x)" by (cases p)
  have "i \<notin> fst ` set ps" using Cons.prems(1) p by simp
  then have none: "map_of ps i = None" by (simp add: map_of_eq_None_iff)
  from Cons.IH [of "w[i := Some x]"] Cons.prems p none show ?case
    by (auto simp: nth_list_update split: option.splits)
qed simp

subsection \<open>Properties\<close>

text \<open>Narrowing a template to a key changes nothing that is signed or broadcast: the transaction,
  every signature hash and the fee are the same, and an input or output is ours afterwards
  exactly when it was claimed under that very key.\<close>

theorem scoping_keeps_transaction:
  "to_rust_bitcoin_tx C B (as_seen_by C B m t) = to_rust_bitcoin_tx C B t \<and>
   iter_sighash C B (as_seen_by C B m t) = iter_sighash C B t \<and>
   fee (as_seen_by C B m t) = fee t \<and>
   map (\<lambda>i. local_owner (in_owner i)) (tx_inputs (as_seen_by C B m t)) =
     map (\<lambda>i. case in_owner i of Local l \<Rightarrow> if lspk_appkey l = m then Some l else None | Foreign _ \<Rightarrow> None)
       (tx_inputs t) \<and>
   map (\<lambda>o1. local_owner (out_owner o1)) (tx_outputs (as_seen_by C B m t)) =
     map (\<lambda>o1. case out_owner o1 of Local l \<Rightarrow> if lspk_appkey l = m then Some l else None | Foreign _ \<Rightarrow> None)
       (tx_outputs t)"
proof -
  have "length (tx_inputs (as_seen_by C B m t)) = length (tx_inputs t)" by (simp add: as_seen_by_def)
  then have "iter_sighash C B (as_seen_by C B m t) = iter_sighash C B t"
    by (simp add: iter_sighash_def)
  moreover have "local_owner (foreign_to_us C B m ow) =
      (case ow of Local l \<Rightarrow> if lspk_appkey l = m then Some l else None | Foreign _ \<Rightarrow> None)" for ow
    by (cases ow) (auto simp: foreign_to_us_def local_owner_def)
  then have "map (\<lambda>i. local_owner (in_owner i)) (tx_inputs (as_seen_by C B m t)) =
     map (\<lambda>i. case in_owner i of Local l \<Rightarrow> if lspk_appkey l = m then Some l else None | Foreign _ \<Rightarrow> None)
       (tx_inputs t)"
    "map (\<lambda>o1. local_owner (out_owner o1)) (tx_outputs (as_seen_by C B m t)) =
     map (\<lambda>o1. case out_owner o1 of Local l \<Rightarrow> if lspk_appkey l = m then Some l else None | Foreign _ \<Rightarrow> None)
       (tx_outputs t)"
    by (simp_all add: as_seen_by_def)
  ultimately show ?thesis by simp
qed

text \<open>C4. What the signer is shown is complete: every foreign output appears with its amount and
  destination and is not marked as ours, and all amounts of the transaction's outputs are
  itemised except for at most one, which pays back to our own change and only when something
  else leaves.\<close>

theorem prompt_complete:
  assumes "user_prompt C B net t = (Ok p :: ('e, prompt_sign_tx) result)"
  shows "map (\<lambda>r. (rec_destination r, rec_amount r)) (filter (\<lambda>r. rec_owned r = None) (prompt_recipients p)) =
      map (\<lambda>(spk, v). (destination_of B spk net, v)) (foreign_recipients t) \<and>
    (\<exists>hidden. length hidden \<le> 1 \<and> set hidden \<subseteq> set (tx_outputs t) \<and>
       (\<forall>o1\<in>set hidden. (\<exists>l. out_owner o1 = Local l \<and> is_internal l) \<and> foreign_recipients t \<noteq> []) \<and>
       mset (map out_value (tx_outputs t)) =
         mset (map rec_amount (prompt_recipients p)) + mset (map out_value hidden))"
proof -
  let ?hide = "hide_single_change t"
  let ?rec = "prompt_recipient_of C B net ?hide"
  let ?hidden = "filter (\<lambda>o1. ?rec o1 = None) (tx_outputs t)"
  have p: "prompt_recipients p = List.map_filter ?rec (tx_outputs t)"
    using assms by (auto simp: user_prompt_def result_iff)
  have shown: "map (\<lambda>r. (rec_destination r, rec_amount r)) (filter (\<lambda>r. rec_owned r = None) (List.map_filter ?rec os)) =
      map (\<lambda>(spk, v). (destination_of B spk net, v))
        (List.map_filter (\<lambda>o1. case out_owner o1 of Foreign spk \<Rightarrow> Some (spk, out_value o1) | Local _ \<Rightarrow> None) os)"
    for os
    by (induction os)
      (auto simp: List.map_filter_simps prompt_recipient_of_def owner_spk_def split: spk_owner.splits)
  have split: "mset (map out_value os) = mset (map rec_amount (List.map_filter ?rec os)) +
      mset (map out_value (filter (\<lambda>o1. ?rec o1 = None) os))" for os
    by (induction os)
      (auto simp: List.map_filter_simps prompt_recipient_of_def split: spk_owner.splits option.splits)
  have none: "?rec o1 = None \<longleftrightarrow> ?hide \<and> (\<exists>l. out_owner o1 = Local l \<and> is_internal l)" for o1
    by (auto simp: prompt_recipient_of_def split: spk_owner.splits option.splits)
  have internal: "length (filter (\<lambda>o1. \<exists>l. out_owner o1 = Local l \<and> is_internal l) os) =
      length (filter (\<lambda>(n, o1, l). is_internal l)
        (List.map_filter (\<lambda>(n, o1). map_option (\<lambda>l. (n, o1, l)) (local_owner (out_owner o1))) (List.enumerate k os)))"
    for os k
    by (induction os arbitrary: k) (auto simp: List.map_filter_simps local_owner_def split: spk_owner.splits)
  have len: "length ?hidden \<le> 1"
  proof (cases ?hide)
    case True
    then have "length (filter (\<lambda>o1. \<exists>l. out_owner o1 = Local l \<and> is_internal l) (tx_outputs t)) = 1"
      unfolding internal [of _ 0] by (simp add: hide_single_change_def iter_our_outputs_def)
    then show ?thesis using True unfolding none by simp
  next
    case False
    then show ?thesis unfolding none by simp
  qed
  have "foreign_recipients t \<noteq> []" if h: ?hide
  proof -
    obtain o1 where "o1 \<in> set (tx_outputs t)" "is_foreign (out_owner o1)"
      using h by (auto simp: hide_single_change_def list_ex_iff)
    then show ?thesis
      by (cases "out_owner o1") (auto simp: foreign_recipients_def List.map_filter_def is_foreign_def
          filter_empty_conv split: spk_owner.splits intro!: bexI [of _ o1])
  qed
  then have "\<forall>o1\<in>set ?hidden. (\<exists>l. out_owner o1 = Local l \<and> is_internal l) \<and> foreign_recipients t \<noteq> []"
    by (auto simp: none)
  then show ?thesis
    using shown [of "tx_outputs t"] split [of "tx_outputs t"] len
    unfolding p foreign_recipients_def by (intro conjI exI [of _ ?hidden]) auto
qed

definition demo_tx_ops :: tx_ops where
  "demo_tx_ops = \<lparr>p2tr_script = (\<lambda>p. p), taproot_sighashes = (\<lambda>tx prevs. map txout_spk prevs),
     address_of_script = (\<lambda>spk net. if spk = [] then None else Some spk),
     signed_vbytes = (\<lambda>tx. 100 + length (btx_inputs tx)), amount_sum = sum_list\<rparr>"

definition demo_local :: "keychain \<Rightarrow> nat \<Rightarrow> local_spk" where
  "demo_local kc i = \<lparr>lspk_appkey = MasterAppkey (replicate 65 1),
     lspk_path = \<lparr>path_account_keychain = \<lparr>ak_account = default_account, ak_keychain = kc\<rparr>,
       path_index = NormalIndex i\<rparr>\<rparr>"

definition demo_input :: "spk_owner \<Rightarrow> nat \<Rightarrow> tx_input" where
  "demo_input ow v = \<lparr>in_outpoint = \<lparr>op_txid = [1], op_vout = 0\<rparr>, in_value = v, in_owner = ow, in_sequence = 0\<rparr>"

definition demo_template :: scoped_template where
  "demo_template = \<lparr>tx_scope = MasterAppkey (replicate 65 1), tx_version = 2, tx_lock_time = 0,
     tx_inputs = [demo_input (Foreign [8]) 5, demo_input (Local (demo_local External 0)) 100],
     tx_outputs = [\<lparr>out_value = 60, out_owner = Foreign [9]\<rparr>,
       \<lparr>out_value = 40, out_owner = Local (demo_local Internal 3)\<rparr>]\<rparr>"

theorem prompt_complete_witness:
  "\<exists>p. user_prompt demo_crypto demo_tx_ops Bitcoin demo_template = (Ok p :: (unit, prompt_sign_tx) result) \<and>
     map (\<lambda>r. (rec_destination r, rec_amount r)) (filter (\<lambda>r. rec_owned r = None) (prompt_recipients p)) =
       [(Address [9], 60)]"
proof -
  have "fee demo_template = Some 5" by (simp add: fee_def u64_sum_def demo_template_def demo_input_def)
  then obtain p where p: "user_prompt demo_crypto demo_tx_ops Bitcoin demo_template = (Ok p :: (unit, prompt_sign_tx) result)"
    by (simp add: user_prompt_def)
  from prompt_complete [OF this] p show ?thesis
    by (simp add: foreign_recipients_def demo_template_def List.map_filter_simps destination_of_def demo_tx_ops_def)
qed

text \<open>C24. Signatures are put on the inputs they were made for: the k-th signature goes to the input
  whose owner and hash are the k-th the signer was asked to sign, and no other input gets one.\<close>

theorem signatures_land_on_their_inputs:
  assumes "to_signed_rust_bitcoin_tx C B t sigs = Ok (tx, w)"
    and len: "length (taproot_sighashes B (to_rust_bitcoin_tx C B t) (map (input_txout C B) (tx_inputs t))) =
      length (tx_inputs t)"
  shows "length sigs = length (iter_our_input_sighashes C B t) \<and> length w = length (tx_inputs t) \<and>
    (\<forall>k < length sigs. \<exists>i < length (tx_inputs t). w ! i = Some (sigs ! k) \<and>
       (\<exists>l. in_owner (tx_inputs t ! i) = Local l \<and>
          iter_our_input_sighashes C B t ! k = (l, iter_sighash C B t ! i))) \<and>
    (\<forall>i < length (tx_inputs t). local_owner (in_owner (tx_inputs t ! i)) = None \<longrightarrow> w ! i = None)"
proof -
  let ?ours = "iter_our_inputs t"
  let ?pairs = "zip (map fst ?ours) sigs"
  have n: "length sigs = length ?ours" and w: "w = foldl (\<lambda>w (i, x). w[i := Some x])
      (replicate (length (tx_inputs t)) None) ?pairs"
    using assms(1) by (auto simp: to_signed_rust_bitcoin_tx_def signatures_by_input_index_def Let_def split: if_splits)
  have fsts: "map fst ?pairs = map fst ?ours" using n by simp
  have inb: "\<forall>p\<in>set ?pairs. fst p < length (replicate (length (tx_inputs t)) (None :: encoded_signature option))"
  proof
    fix p assume "p \<in> set ?pairs"
    then obtain k where "k < length ?ours" "p = ?pairs ! k" using n by (auto simp: in_set_conv_nth)
    then show "fst p < length (replicate (length (tx_inputs t)) (None :: encoded_signature option))"
      using n iter_our_inputs_nth [of k t] by (metis length_map length_replicate nth_map nth_zip fst_conv)
  qed
  note U = foldl_update_nth [of ?pairs "replicate (length (tx_inputs t)) None", unfolded fsts,
      OF distinct_our_input_indices inb]
  have at: "w ! i = (case map_of ?pairs i of Some x \<Rightarrow> Some x | None \<Rightarrow> None)" if "i < length (tx_inputs t)" for i
    using U that unfolding w by (simp split: option.splits)
  have hashes: "iter_our_input_sighashes C B t = map (\<lambda>(n, x, l). (l, iter_sighash C B t ! n)) ?ours"
    using map_filter_zip_enumerate [of "iter_sighash C B t" "tx_inputs t" 0 "\<lambda>i. local_owner (in_owner i)"]
      length_iter_sighash [OF len] by (simp add: iter_our_input_sighashes_def iter_our_inputs_def)
  have each: "\<exists>i < length (tx_inputs t). w ! i = Some (sigs ! k) \<and>
       (\<exists>l. in_owner (tx_inputs t ! i) = Local l \<and>
          iter_our_input_sighashes C B t ! k = (l, iter_sighash C B t ! i))" if k: "k < length sigs" for k
  proof -
    obtain l where l: "?ours ! k = (fst (?ours ! k), tx_inputs t ! fst (?ours ! k), l)"
        "fst (?ours ! k) < length (tx_inputs t)" "in_owner (tx_inputs t ! fst (?ours ! k)) = Local l"
      using k n by (auto elim: iter_our_inputs_nth [of k t])
    have "?pairs ! k \<in> set ?pairs" using k n by (intro nth_mem) simp
    then have "(fst (?ours ! k), sigs ! k) \<in> set ?pairs" using k n by simp
    then have "map_of ?pairs (fst (?ours ! k)) = Some (sigs ! k)"
      using distinct_our_input_indices [of t] fsts by (simp add: map_of_is_SomeI)
    then have "w ! fst (?ours ! k) = Some (sigs ! k)" using at l(2) by simp
    moreover have "iter_our_input_sighashes C B t ! k = (l, iter_sighash C B t ! fst (?ours ! k))"
    proof -
      have "map (\<lambda>(n, x, l). (l, iter_sighash C B t ! n)) ?ours ! k =
          (\<lambda>(n, x, l). (l, iter_sighash C B t ! n)) (?ours ! k)"
        using k n by simp
      also have "... = (l, iter_sighash C B t ! fst (?ours ! k))" by (subst l(1)) simp
      finally show ?thesis by (simp add: hashes)
    qed
    ultimately show ?thesis using l by blast
  qed
  have none: "w ! i = None" if "i < length (tx_inputs t)" "local_owner (in_owner (tx_inputs t ! i)) = None" for i
  proof -
    have "i \<notin> set (map fst ?ours)"
      using that(2) by (auto simp: iter_our_inputs_def List.map_filter_def in_set_enumerate_eq is_foreign_def)
    then have "map_of ?pairs i = None" using fsts by (simp add: map_of_eq_None_iff flip: set_map)
    then show ?thesis using at [OF that(1)] by simp
  qed
  have "length w = length (tx_inputs t)" using U unfolding w by simp
  moreover have "length sigs = length (iter_our_input_sighashes C B t)" using n by (simp add: hashes)
  ultimately show ?thesis using each none by blast
qed

theorem signatures_land_on_their_inputs_witness:
  "\<exists>tx w. to_signed_rust_bitcoin_tx demo_crypto demo_tx_ops demo_template [[7]] = Ok (tx, w) \<and>
     w ! 0 = None \<and> length w = 2"
proof -
  obtain tx w where r: "to_signed_rust_bitcoin_tx demo_crypto demo_tx_ops demo_template [[7]] = Ok (tx, w)"
    by (simp add: to_signed_rust_bitcoin_tx_def signatures_by_input_index_def demo_template_def demo_input_def
        iter_our_inputs_def List.map_filter_simps local_owner_def)
  from signatures_land_on_their_inputs [OF r] have "length w = 2" "w ! 0 = None"
    by (simp_all add: demo_tx_ops_def demo_template_def demo_input_def is_foreign_def)
  with r show ?thesis by blast
qed



text \<open>Past that bound the sums wrap around and the check is fooled: a template whose outputs are
  worth far more than its inputs gets a small fee instead of being refused.\<close>

theorem fee_wraps:
  "fee (demo_template\<lparr>tx_inputs := [demo_input (Local (demo_local External 0)) 100],
       tx_outputs := [\<lparr>out_value = 18446744073709551615, out_owner = Foreign [9]\<rparr>,
         \<lparr>out_value = 91, out_owner = Foreign [9]\<rparr>]\<rparr>) = Some 10"
  by (simp add: fee_def u64_sum_def demo_input_def)

end
