(* ===== verification/SignTask.thy ===== *)
theory SignTask
  imports TxTemplate
begin

section \<open>Sign tasks\<close>

text \<open>
  Models \<^verbatim>\<open>frostsnap_core/src/sign_task.rs\<close>: what a coordinator can ask a device to sign, the
  checks that bind a task to one key before anything is shown or signed, and the items that
  are then signed, each a message and the tweak of the key it is signed under.
\<close>

definition OUTPUT_INDEX_LIMIT :: nat where
  "OUTPUT_INDEX_LIMIT = 200000"

datatype key_purpose = PurposeTest | PurposeBitcoin network | PurposeNostr

record unsigned_event =
  ev_id :: string
  ev_pubkey :: point
  ev_created_at :: int
  ev_kind :: nat
  ev_tags :: "string list list"
  ev_content :: string
  ev_hash_bytes :: bytes

datatype wire_sign_task =
    WireTest string
  | WireNostr unsigned_event
  | WireTransaction "unit tx_template"

datatype sign_task =
    TaskTest string
  | TaskNostr unsigned_event
  | TaskTransaction scoped_template network

record checked_sign_task =
  task_appkey :: master_appkey
  task_inner :: sign_task

datatype sign_task_error =
    UnwatchedAccount bitcoin_account
  | OutputIndexOutOfRange normal_index
  | WrongPurpose
  | InvalidBitcoinTransaction
  | NothingToSign

definition reserved_change_indices ::
  "crypto \<Rightarrow> tx_ops \<Rightarrow> wire_sign_task \<Rightarrow> master_appkey \<Rightarrow> bitcoin_account \<Rightarrow> nat list" where
  "reserved_change_indices C B w m account =
     (case w of
        WireTransaction t \<Rightarrow>
          List.map_filter (\<lambda>(n, o1, l).
              if path_account_keychain (lspk_path l) = \<lparr>ak_account = account, ak_keychain = Internal\<rparr>
              then Some (normal_index_u32 (path_index (lspk_path l))) else None)
            (iter_our_outputs (as_seen_by C B m t))
      | _ \<Rightarrow> [])"

subsection \<open>Checking\<close>

fun check_outputs :: "(nat \<times> tx_output \<times> local_spk) list \<Rightarrow> (sign_task_error, unit) result" where
  "check_outputs [] = Ok ()"
| "check_outputs ((n, o1, owner) # rest) =
     (let path = lspk_path owner in
      if ak_account (path_account_keychain path) \<noteq> default_account
      then Err (UnwatchedAccount (ak_account (path_account_keychain path)))
      else if OUTPUT_INDEX_LIMIT \<le> normal_index_u32 (path_index path)
      then Err (OutputIndexOutOfRange (path_index path))
      else check_outputs rest)"

definition check_sign_task ::
  "crypto \<Rightarrow> tx_ops \<Rightarrow> wire_sign_task \<Rightarrow> master_appkey \<Rightarrow> key_purpose \<Rightarrow>
    (sign_task_error, checked_sign_task) result" where
  "check_sign_task C B w m purpose =
     and_then
       (case w of
          WireTest message \<Rightarrow> Ok (TaskTest message)
        | WireNostr event \<Rightarrow> (if purpose \<noteq> PurposeNostr then Err WrongPurpose else Ok (TaskNostr event))
        | WireTransaction t \<Rightarrow>
            (case purpose of
               PurposeBitcoin network \<Rightarrow>
                 (let t = as_seen_by C B m t in
                  and_then (check_outputs (iter_our_outputs t)) (\<lambda>_.
                  if \<not> has_any_inputs_to_sign t then Err NothingToSign
                  else if fee t = None then Err InvalidBitcoinTransaction
                  else Ok (TaskTransaction t network)))
             | _ \<Rightarrow> Err WrongPurpose))
       (\<lambda>variant. Ok \<lparr>task_appkey = m, task_inner = variant\<rparr>)"

subsection \<open>What is signed\<close>

record sign_item =
  item_message :: bytes
  item_tweak :: app_tweak

definition sign_items :: "crypto \<Rightarrow> tx_ops \<Rightarrow> checked_sign_task \<Rightarrow> sign_item list" where
  "sign_items C B task =
     (case task_inner task of
        TaskTest message \<Rightarrow> [\<lparr>item_message = string_bytes message, item_tweak = TestMessage\<rparr>]
      | TaskNostr event \<Rightarrow> [\<lparr>item_message = ev_hash_bytes event, item_tweak = NostrTweak\<rparr>]
      | TaskTransaction t network \<Rightarrow>
          map (\<lambda>(owner, h). \<lparr>item_message = h, item_tweak = BitcoinTweak (lspk_path owner)\<rparr>)
            (iter_our_input_sighashes C B t))"

text \<open>A \<^verbatim>\<open>schnorr_fun\<close> message: with a tag, or raw.\<close>

datatype schnorr_message = TaggedMessage string bytes | RawMessage bytes

definition schnorr_fun_message :: "sign_item \<Rightarrow> schnorr_message" where
  "schnorr_fun_message item =
     (case item_tweak item of
        TestMessage \<Rightarrow> TaggedMessage ''frostsnap-test'' (item_message item)
      | BitcoinTweak _ \<Rightarrow> RawMessage (item_message item)
      | NostrTweak \<Rightarrow> RawMessage (item_message item))"

type_synonym schnorr_verify = "point \<Rightarrow> schnorr_message \<Rightarrow> bytes \<Rightarrow> bool"

definition verify_final_signature ::
  "crypto \<Rightarrow> schnorr_verify \<Rightarrow> master_appkey \<Rightarrow> sign_item \<Rightarrow> bytes \<Rightarrow> bool" where
  "verify_final_signature C V m item signature =
     V (derive_xonly_key C (point_tweakable C) (item_tweak item) (appkey_xpub m))
       (schnorr_fun_message item) signature"

text \<open>The signatures are indexed while all before held; a missing one is then a panic.\<close>

fun verify_items ::
  "crypto \<Rightarrow> schnorr_verify \<Rightarrow> master_appkey \<Rightarrow> nat \<Rightarrow> sign_item list \<Rightarrow> bytes list \<Rightarrow> ('e, bool) result" where
  "verify_items C V m i [] signatures = Ok True"
| "verify_items C V m i (item # items) signatures =
     (if i < length signatures
      then if verify_final_signature C V m item (signatures ! i)
           then verify_items C V m (i + 1) items signatures
           else Ok False
      else Panic ''index out of bounds'')"

definition verify_final_signatures ::
  "crypto \<Rightarrow> tx_ops \<Rightarrow> schnorr_verify \<Rightarrow> checked_sign_task \<Rightarrow> bytes list \<Rightarrow> ('e, bool) result" where
  "verify_final_signatures C B V task signatures =
     verify_items C V (task_appkey task) 0 (sign_items C B task) signatures"

subsection \<open>Lemmas\<close>

lemma check_outputs_Ok:
  "check_outputs os = Ok u \<longleftrightarrow>
     (\<forall>(n, o1, l)\<in>set os. ak_account (path_account_keychain (lspk_path l)) = default_account \<and>
        normal_index_u32 (path_index (lspk_path l)) < OUTPUT_INDEX_LIMIT)"
  by (induction os rule: check_outputs.induct) (auto simp: Let_def)

lemma check_outputs_no_panic: "check_outputs os \<noteq> Panic m"
  by (induction os rule: check_outputs.induct) (auto simp: Let_def)

lemma set_iter_our_outputs:
  "(n, o1, l) \<in> set (iter_our_outputs t) \<longleftrightarrow>
     n < length (tx_outputs t) \<and> o1 = tx_outputs t ! n \<and> out_owner o1 = Local l"
  by (auto simp: iter_our_outputs_def in_map_filter Bex_def in_set_enumerate_eq)


lemma not_foreign: "\<not> is_foreign ow \<longleftrightarrow> (\<exists>l. ow = Local l)"
  by (cases ow) (auto simp: is_foreign_def)

lemma set_iter_our_input_sighashes:
  "(l, h) \<in> set (iter_our_input_sighashes C B t) \<Longrightarrow> \<exists>i\<in>set (tx_inputs t). in_owner i = Local l"
  by (auto simp: iter_our_input_sighashes_def in_map_filter dest: set_zip_leftD)

lemma verify_items_Ok:
  "i + length items \<le> length sigs \<Longrightarrow>
   verify_items C V m i items sigs =
     Ok (\<forall>k < length items. verify_final_signature C V m (items ! k) (sigs ! (i + k)))"
proof (induction items arbitrary: i)
  case (Cons item items)
  then show ?case by (simp add: All_less_Suc2)
qed simp

subsection \<open>Properties\<close>


definition demo_wire_task :: wire_sign_task where
  "demo_wire_task = WireTransaction \<lparr>tx_scope = (), tx_version = 2, tx_lock_time = 0,
     tx_inputs = tx_inputs demo_template, tx_outputs = tx_outputs demo_template\<rparr>"

lemma demo_task_checks:
  "check_sign_task demo_crypto demo_tx_ops demo_wire_task (MasterAppkey (replicate 65 1)) (PurposeBitcoin Bitcoin) =
     Ok \<lparr>task_appkey = MasterAppkey (replicate 65 1), task_inner = TaskTransaction demo_template Bitcoin\<rparr>"
proof -
  have seen: "as_seen_by demo_crypto demo_tx_ops (MasterAppkey (replicate 65 1))
      \<lparr>tx_scope = (), tx_version = 2, tx_lock_time = 0, tx_inputs = tx_inputs demo_template,
       tx_outputs = tx_outputs demo_template\<rparr> = demo_template"
    by (simp add: as_seen_by_def demo_template_def demo_input_def foreign_to_us_def demo_local_def)
  have "fee demo_template = Some 5" by (simp add: fee_def u64_sum_def demo_template_def demo_input_def)
  moreover have "has_any_inputs_to_sign demo_template"
    by (simp add: has_any_inputs_to_sign_def demo_template_def demo_input_def is_foreign_def)
  moreover have "check_outputs (iter_our_outputs demo_template) = Ok ()"
    by (auto simp: check_outputs_Ok set_iter_our_outputs demo_template_def less_Suc_eq numeral_2_eq_2
        demo_local_def OUTPUT_INDEX_LIMIT_def)
  ultimately show ?thesis
    by (simp add: check_sign_task_def demo_wire_task_def seen)
qed


text \<open>A task under the wrong purpose is refused: a Nostr event by every key that is not a Nostr
  key, a transaction by every key that is not a Bitcoin key.\<close>

theorem wrong_purpose_refused:
  "(purpose \<noteq> PurposeNostr \<longrightarrow> check_sign_task C B (WireNostr e) m purpose = Err WrongPurpose) \<and>
   ((\<forall>net. purpose \<noteq> PurposeBitcoin net) \<longrightarrow> check_sign_task C B (WireTransaction t) m purpose = Err WrongPurpose)"
  by (auto simp: check_sign_task_def split: key_purpose.splits)

theorem wrong_purpose_refused_witness:
  "check_sign_task demo_crypto demo_tx_ops demo_wire_task (MasterAppkey []) PurposeNostr = Err WrongPurpose"
  using wrong_purpose_refused [of PurposeNostr demo_crypto demo_tx_ops _ "MasterAppkey []"]
  by (simp add: demo_wire_task_def)

end
