(* ===== verification/ShareBackup.thy ===== *)
theory ShareBackup
  imports Keys
begin

section \<open>Share backups\<close>

text \<open>
  Models the \<^verbatim>\<open>ShareBackup\<close> of \<^verbatim>\<open>frost_backup/src/share_backup.rs\<close>: a secret share with a
  checksum over the sharing polynomial, which lets the share out only to someone who has the
  polynomial it was made for.
\<close>

type_synonym fingerprint = bytes

record share_backup =
  sb_share :: secret_share
  sb_poly_checksum :: nat

datatype share_backup_error =
    InvalidBip39Word nat string
  | InvalidShareIndex
  | ShareIndexParseError
  | WordsChecksumFailed
  | PolyChecksumFailed
  | NotEnoughWords
  | TooManyWords

text \<open>\<^verbatim>\<open>u16::from_be_bytes\<close> of the first two bytes of the hash.\<close>

definition hash_u16 :: "bytes \<Rightarrow> nat" where
  "hash_u16 h = unat (h ! 0) * 256 + unat (h ! 1)"

definition compute_poly_checksum :: "crypto \<Rightarrow> share_index \<Rightarrow> scalar \<Rightarrow> shared_key \<Rightarrow> nat" where
  "compute_poly_checksum C i s k =
     hash_u16 (sha256 C (index_to_bytes C i @ s @ concat k)) div 2 ^ (16 - 8)"

definition backup_of_secret_share :: "crypto \<Rightarrow> secret_share \<Rightarrow> shared_key \<Rightarrow> share_backup" where
  "backup_of_secret_share C s k =
     \<lparr>sb_share = s, sb_poly_checksum = compute_poly_checksum C (sh_index s) (sh_scalar s) k\<rparr>"

definition backup_share_image :: "crypto \<Rightarrow> share_backup \<Rightarrow> share_image" where
  "backup_share_image C b = secret_share_image C (sb_share b)"

definition extract_secret :: "crypto \<Rightarrow> shared_key \<Rightarrow> share_backup \<Rightarrow> (share_backup_error, secret_share) result" where
  "extract_secret C k b =
     (if compute_poly_checksum C (sh_index (sb_share b)) (sh_scalar (sb_share b)) k \<noteq> sb_poly_checksum b
      then Err PolyChecksumFailed else Ok (sb_share b))"

lemma extract_secret_Ok [simp]:
  "extract_secret C k b = Ok s \<longleftrightarrow>
     s = sb_share b \<and> compute_poly_checksum C (sh_index s) (sh_scalar s) k = sb_poly_checksum b"
  by (auto simp: extract_secret_def)

lemma extract_secret_roundtrip: "extract_secret C k (backup_of_secret_share C s k) = Ok s"
  by (simp add: backup_of_secret_share_def)

end
