(* ===== verification/DeviceNonces.thy ===== *)
theory DeviceNonces
  imports NonceStream Keys
begin

section \<open>The device's nonces\<close>

text \<open>
  Models \<^verbatim>\<open>frostsnap_core/src/device_nonces.rs\<close>: the ratchet that makes secret nonces, the
  jobs that publish them, the slots they live in, signing with them so that no nonce is used
  twice, and the table of slots. The storage of a slot is the trait \<^verbatim>\<open>NonceStreamSlot\<close>: two
  functions, given to every operation as a \<open>slot_ops\<close>, and the locale \<open>nonce_slot_store\<close>
  states what they promise. ChaCha20 and the nonce and signature arithmetic of
  \<^verbatim>\<open>schnorr_fun\<close> are parameters, gathered in \<open>nonce_ops\<close>.
\<close>

type_synonym secret_nonce = bytes
type_synonym sig_share = bytes
type_synonym party_session = "paired_share \<times> bytes" \<comment> \<open>the secret share and the \<^verbatim>\<open>PartySignSession\<close>\<close>

text \<open>\<open>chacha_keystream seed iv n\<close>: the first \<open>n\<close> bytes of the key stream.\<close>

record nonce_ops =
  chacha_keystream :: "bytes \<Rightarrow> bytes \<Rightarrow> nat \<Rightarrow> bytes"
  secret_nonce_from_bytes :: "bytes \<Rightarrow> secret_nonce option"
  nonce_public :: "secret_nonce \<Rightarrow> pub_nonce"
  party_sign :: "party_session \<Rightarrow> secret_nonce \<Rightarrow> sig_share"

text \<open>\<^verbatim>\<open>derive_nonce_seed\<close> of the device at hand.\<close>

type_synonym seed_fun = "nonce_stream_id \<Rightarrow> nat \<Rightarrow> bytes \<Rightarrow> bytes"

subsection \<open>The ratchet\<close>

text \<open>The next seed material and the bytes of the secret nonce at an index.\<close>

definition ratchet ::
  "nonce_ops \<Rightarrow> seed_fun \<Rightarrow> nonce_stream_id \<Rightarrow> nat \<Rightarrow> bytes \<Rightarrow> bytes \<times> bytes" where
  "ratchet N derive sid index material =
     (let seed = derive sid index material;
          iv = u32_to_le_bytes index @ replicate 8 0;
          ks = chacha_keystream N seed iv 96
      in (take 32 ks, take 64 (drop 32 ks)))"

subsection \<open>Nonce jobs\<close>

record nonce_job =
  job_stream_id :: nonce_stream_id
  job_seed_material :: bytes
  job_index :: nat
  job_target_index :: nat
  job_nonces :: "pub_nonce list"
  job_skip_to :: nat

text \<open>One unit of work. The index is below the target, a \<open>u32\<close>, so advancing it does not wrap.\<close>

definition job_do_work ::
  "nonce_ops \<Rightarrow> seed_fun \<Rightarrow> nonce_job \<Rightarrow> ('e, nonce_job \<times> bool) result" where
  "job_do_work N derive j =
     (if job_target_index j \<le> job_index j then Ok (j, True)
      else
        (let current = job_index j;
             (next_material, nonce_bytes) = ratchet N derive (job_stream_id j) current (job_seed_material j)
         in and_then (expect ''computationally unreachable'' (secret_nonce_from_bytes N nonce_bytes))
              (\<lambda>secret_nonce.
                let nonces = (if job_skip_to j \<le> current
                              then job_nonces j @ [nonce_public N secret_nonce] else job_nonces j)
                in Ok (j\<lparr>job_seed_material := next_material, job_index := current + 1,
                         job_nonces := nonces\<rparr>,
                       job_target_index j \<le> current + 1))))"

lemma and_then_cong [fundef_cong]:
  "r = r' \<Longrightarrow> (\<And>a. r' = Ok a \<Longrightarrow> f a = g a) \<Longrightarrow> and_then r f = and_then r' g"
  by (cases r') auto

lemma job_do_work_progress:
  "job_do_work N derive j = Ok (j', False) \<Longrightarrow>
   job_target_index j' - job_index j' < job_target_index j - job_index j"
  by (auto simp: job_do_work_def Let_def result_iff split: if_splits prod.splits)

function job_run :: "nonce_ops \<Rightarrow> seed_fun \<Rightarrow> nonce_job \<Rightarrow> ('e, nonce_job) result" where
  "job_run N derive j =
     and_then (job_do_work N derive j) (\<lambda>(j', finished).
       if finished then Ok j' else job_run N derive j')"
  by pat_completeness auto
termination
  by (relation "measure (\<lambda>(N, derive, j). job_target_index j - job_index j)")
    (auto dest: job_do_work_progress)

declare job_run.simps [simp del]

definition job_into_segment :: "nonce_job \<Rightarrow> ('e, nonce_segment) result" where
  "job_into_segment j =
     (if job_target_index j \<le> job_index j
      then Ok \<lparr>seg_stream_id = job_stream_id j, seg_nonces = job_nonces j, seg_index = job_skip_to j\<rparr>
      else Panic ''into_segment called on unfinished NonceJob'')"

subsection \<open>Batches of jobs\<close>

record nonce_job_batch =
  batch_tasks :: "nonce_job list"
  batch_current :: nat

definition new_batch :: "nonce_job list \<Rightarrow> nonce_job_batch" where
  "new_batch tasks = \<lparr>batch_tasks = tasks, batch_current = 0\<rparr>"

definition batch_do_work ::
  "nonce_ops \<Rightarrow> seed_fun \<Rightarrow> nonce_job_batch \<Rightarrow> ('e, nonce_job_batch \<times> bool) result" where
  "batch_do_work N derive b =
     (if batch_current b < length (batch_tasks b)
      then and_then (job_do_work N derive (batch_tasks b ! batch_current b)) (\<lambda>(task, finished).
        let b' = b\<lparr>batch_tasks := (batch_tasks b)[batch_current b := task],
                   batch_current := (if finished then batch_current b + 1 else batch_current b)\<rparr>
        in Ok (b', length (batch_tasks b') \<le> batch_current b'))
      else Ok (b, True))"

lemma batch_do_work_progress:
  assumes "batch_do_work N derive b = (Ok (b', False) :: ('e, nonce_job_batch \<times> bool) result)"
  shows "(b', b) \<in> measures
    [\<lambda>b. length (batch_tasks b) - batch_current b,
     \<lambda>b. job_target_index (batch_tasks b ! batch_current b) -
          job_index (batch_tasks b ! batch_current b)]"
proof -
  obtain task finished where w:
      "batch_current b < length (batch_tasks b)"
      "job_do_work N derive (batch_tasks b ! batch_current b) =
        (Ok (task, finished) :: ('e, nonce_job \<times> bool) result)"
      "b' = b\<lparr>batch_tasks := (batch_tasks b)[batch_current b := task],
              batch_current := (if finished then batch_current b + 1 else batch_current b)\<rparr>"
      "\<not> length (batch_tasks b') \<le> batch_current b'"
    using assms by (auto simp: batch_do_work_def Let_def result_iff split: if_splits)
  then show ?thesis
    by (cases finished) (auto dest: job_do_work_progress)
qed

function batch_run ::
  "nonce_ops \<Rightarrow> seed_fun \<Rightarrow> nonce_job_batch \<Rightarrow> ('e, nonce_job_batch) result" where
  "batch_run N derive b =
     and_then (batch_do_work N derive b) (\<lambda>(b', finished).
       if finished then Ok b' else batch_run N derive b')"
  by pat_completeness auto
termination
proof (relation "inv_image (measures
    [\<lambda>b. length (batch_tasks b) - batch_current b,
     \<lambda>b. job_target_index (batch_tasks b ! batch_current b) -
          job_index (batch_tasks b ! batch_current b)]) (\<lambda>(N, derive, b). b)")
qed (auto dest: batch_do_work_progress simp del: in_measures)

declare batch_run.simps [simp del]

fun jobs_into_segments :: "nonce_job list \<Rightarrow> ('e, nonce_segment list) result" where
  "jobs_into_segments [] = Ok []"
| "jobs_into_segments (j # js) =
     and_then (job_into_segment j) (\<lambda>s.
     and_then (jobs_into_segments js) (\<lambda>ss. Ok (s # ss)))"

definition batch_into_segments :: "nonce_job_batch \<Rightarrow> ('e, nonce_segment list) result" where
  "batch_into_segments b =
     (if length (batch_tasks b) \<le> batch_current b then jobs_into_segments (batch_tasks b)
      else Panic ''into_segments called on unfinished NonceJobBatch'')"

subsection \<open>Slots\<close>

record signing_state =
  ss_session_id :: sign_session_id
  ss_signature_shares :: "sig_share list"

record secret_nonce_slot =
  slot_index :: nat
  slot_stream_id :: nonce_stream_id
  slot_material :: bytes
  slot_last_used :: nat
  slot_signing_state :: "signing_state option"

datatype nonces_unavailable = IndexUsed nat nat | Overflow

text \<open>The storage: reading gives what is stored, if anything; writing gives the new store, or
  panics (\<open>None\<close>).\<close>

record 's slot_ops =
  read_versioned :: "'s \<Rightarrow> secret_nonce_slot versioned option"
  write_versioned :: "secret_nonce_slot versioned \<Rightarrow> 's \<Rightarrow> 's option"

definition read_slot :: "'s slot_ops \<Rightarrow> 's \<Rightarrow> secret_nonce_slot option" where
  "read_slot S s = map_option versioned_value (read_versioned S s)"

definition write_slot :: "'s slot_ops \<Rightarrow> secret_nonce_slot \<Rightarrow> 's \<Rightarrow> 's option" where
  "write_slot S v s = write_versioned S (V0 v) s"

definition initialize_slot ::
  "'s slot_ops \<Rightarrow> nonce_stream_id \<Rightarrow> nat \<Rightarrow> rng \<Rightarrow> 's \<Rightarrow> 's option \<times> rng" where
  "initialize_slot S sid last_used rng s =
     (let (material, rng) = rng_draw rng
      in (write_slot S \<lparr>slot_index = 0, slot_stream_id = sid, slot_material = material,
            slot_last_used = last_used, slot_signing_state = None\<rparr> s, rng))"

definition are_nonces_available ::
  "secret_nonce_slot \<Rightarrow> nat \<Rightarrow> nat \<Rightarrow> (nonces_unavailable, unit) result" where
  "are_nonces_available v index n =
     (if index < slot_index v then Err (IndexUsed (slot_index v) index)
      else if u32_saturating_add index n = u32_max then Err Overflow
      else Ok ())"

definition nonce_task :: "secret_nonce_slot \<Rightarrow> nat option \<Rightarrow> nat \<Rightarrow> ('e, nonce_job) result" where
  "nonce_task v start len =
     (let start = (case start of None \<Rightarrow> slot_index v | Some i \<Rightarrow> i) in
      if start < slot_index v then Panic ''can't iterate erased nonces''
      else and_then (expect ''length not too big'' (u32_try_from len)) (\<lambda>len.
        let last = u32_saturating_add start len in
        if last = u32_max then Panic ''cannot have an index at u32::MAX''
        else Ok \<lparr>job_stream_id = slot_stream_id v, job_seed_material = slot_material v,
                 job_index = slot_index v, job_target_index = last, job_nonces = [],
                 job_skip_to = start\<rparr>))"

definition reconcile ::
  "'s slot_ops \<Rightarrow> 's \<Rightarrow> coord_nonce_state \<Rightarrow> nat \<Rightarrow> ('e, nonce_job option) result" where
  "reconcile S s state batch_size =
     (case read_slot S s of
        None \<Rightarrow> Ok None
      | Some v \<Rightarrow>
          if cns_index state < slot_index v \<or> cns_remaining state < batch_size
          then and_then (nonce_task v None batch_size) (\<lambda>j. Ok (Some j))
          else if slot_index v = cns_index state then Ok None
          else and_then (nonce_task v None (cns_index state - slot_index v)) (\<lambda>j. Ok (Some j)))"

subsection \<open>Signing\<close>

text \<open>\<^verbatim>\<open>iter_secret_nonces\<close>: the iterator is the index and seed material it stands at.\<close>

type_synonym nonce_iter = "nat \<times> bytes"

definition slot_iter :: "secret_nonce_slot \<Rightarrow> nonce_iter" where
  "slot_iter v = (slot_index v, slot_material v)"

definition iter_next ::
  "nonce_ops \<Rightarrow> seed_fun \<Rightarrow> nonce_stream_id \<Rightarrow> nonce_iter \<Rightarrow>
    (nonces_unavailable, ((nat \<times> secret_nonce \<times> bytes) \<times> nonce_iter) option) result" where
  "iter_next N derive sid it =
     (let (index, material) = it in
      if index = u32_max then Ok None
      else (let (next_material, nonce_bytes) = ratchet N derive sid index material
            in and_then (expect ''computationally unreachable'' (secret_nonce_from_bytes N nonce_bytes))
                 (\<lambda>secret_nonce.
                   Ok (Some ((index, secret_nonce, next_material), (index + 1, next_material))))))"

fun iter_skip ::
  "nonce_ops \<Rightarrow> seed_fun \<Rightarrow> nonce_stream_id \<Rightarrow> nat \<Rightarrow> nonce_iter \<Rightarrow>
    (nonces_unavailable, nonce_iter) result" where
  "iter_skip N derive sid 0 it = Ok it"
| "iter_skip N derive sid (Suc k) it =
     and_then (iter_next N derive sid it) (\<lambda>r.
       case r of None \<Rightarrow> Ok it | Some (_, it') \<Rightarrow> iter_skip N derive sid k it')"

text \<open>The signing loop: the shares, and the index and material after the last nonce used.\<close>

fun sign_loop ::
  "nonce_ops \<Rightarrow> seed_fun \<Rightarrow> nonce_stream_id \<Rightarrow> party_session list \<Rightarrow> nonce_iter \<Rightarrow>
    sig_share list \<Rightarrow> (nat \<times> bytes) option \<Rightarrow>
    (nonces_unavailable, sig_share list \<times> (nat \<times> bytes) option) result" where
  "sign_loop N derive sid [] it shares next_state = Ok (shares, next_state)"
| "sign_loop N derive sid (session # sessions) it shares next_state =
     and_then (iter_next N derive sid it) (\<lambda>r.
     and_then (expect ''tried to sign with nonces out of range'' r)
       (\<lambda>((current_index, secret_nonce, next_material), it').
         sign_loop N derive sid sessions it'
           (shares @ [party_sign N session secret_nonce])
           (Some (current_index + 1, next_material))))"

text \<open>The new slot value of a session that is not cached. The iterator is lazy: with no
  sessions nothing is derived before the panic.\<close>

definition sign_fresh ::
  "nonce_ops \<Rightarrow> seed_fun \<Rightarrow> secret_nonce_slot \<Rightarrow> sign_session_id \<Rightarrow> coord_nonce_state \<Rightarrow> nat \<Rightarrow>
    party_session list \<Rightarrow> (nonces_unavailable, secret_nonce_slot) result" where
  "sign_fresh N derive v session_id coord last_used sessions =
     (if cns_index coord < slot_index v
      then Err (IndexUsed (slot_index v) (cns_index coord))
      else if sessions = [] then Panic ''sign sessions must not be empty''
      else
        and_then (iter_skip N derive (slot_stream_id v) (cns_index coord - slot_index v) (slot_iter v))
          (\<lambda>it.
        and_then (sign_loop N derive (slot_stream_id v) sessions it [] None) (\<lambda>(shares, next_state).
        and_then (expect ''unwrap'' next_state) (\<lambda>(next_index, next_material).
          Ok \<lparr>slot_index = next_index, slot_stream_id = slot_stream_id v,
              slot_material = next_material, slot_last_used = last_used,
              slot_signing_state = Some \<lparr>ss_session_id = session_id, ss_signature_shares = shares\<rparr>\<rparr>))))"

definition is_cached :: "secret_nonce_slot \<Rightarrow> sign_session_id \<Rightarrow> bool" where
  "is_cached v session_id =
     (case slot_signing_state v of None \<Rightarrow> False | Some ss \<Rightarrow> ss_session_id ss = session_id)"

text \<open>The code's \<^verbatim>\<open>with_signatures\<close>: the cached value, or a fresh one.\<close>

definition with_signatures ::
  "nonce_ops \<Rightarrow> seed_fun \<Rightarrow> secret_nonce_slot \<Rightarrow> sign_session_id \<Rightarrow> coord_nonce_state \<Rightarrow> nat \<Rightarrow>
    party_session list \<Rightarrow> (nonces_unavailable, secret_nonce_slot) result" where
  "with_signatures N derive v session_id coord last_used sessions =
     (if is_cached v session_id then Ok v
      else sign_fresh N derive v session_id coord last_used sessions)"

text \<open>\<^verbatim>\<open>sign_guaranteeing_nonces_destroyed\<close> of a slot: the store after it, and the result.\<close>

definition sign_slot ::
  "'s slot_ops \<Rightarrow> nonce_ops \<Rightarrow> seed_fun \<Rightarrow> nat \<Rightarrow> sign_session_id \<Rightarrow> coord_nonce_state \<Rightarrow> nat \<Rightarrow>
    party_session list \<Rightarrow> 's \<Rightarrow>
    's \<times> (nonces_unavailable, sig_share list \<times> nonce_job option) result" where
  "sign_slot S N derive batch_size session_id coord last_used sessions s =
     (case read_slot S s of
        None \<Rightarrow> (s, Panic ''cannot sign with uninitialized slot'')
      | Some v \<Rightarrow>
          if cns_stream_id coord \<noteq> slot_stream_id v then (s, Panic ''wrong stream id'')
          else
            (case with_signatures N derive v session_id coord last_used sessions of
               Err e \<Rightarrow> (s, Err e)
             | Panic m \<Rightarrow> (s, Panic m)
             | Ok value \<Rightarrow>
                 (case write_slot S value s of
                    None \<Rightarrow> (s, Panic ''write failed'')
                  | Some s' \<Rightarrow>
                      (s',
                       and_then (expect ''guaranteed'' (read_slot S s')) (\<lambda>read_back.
                       if read_back \<noteq> value
                       then Panic ''signature shares should have been read the same as written''
                       else
                         and_then (expect ''guaranteed'' (slot_signing_state read_back)) (\<lambda>ss.
                         and_then (reconcile S s' coord batch_size) (\<lambda>replenishment.
                           Ok (ss_signature_shares ss, replenishment))))))))"

subsection \<open>The table of slots\<close>

record 's ab_slots =
  ab_slots :: "'s list"
  ab_last_used :: nat

definition ab_new :: "'s slot_ops \<Rightarrow> 's list \<Rightarrow> 's ab_slots" where
  "ab_new S slots =
     \<lparr>ab_slots = slots,
      ab_last_used = fold max (map slot_last_used (List.map_filter (read_slot S) slots)) 0\<rparr>"

definition slot_stream_id_of :: "'s slot_ops \<Rightarrow> 's \<Rightarrow> nonce_stream_id option" where
  "slot_stream_id_of S s = map_option slot_stream_id (read_slot S s)"

text \<open>\<^verbatim>\<open>get\<close> returns a reference into the table, here the slot's position.\<close>

definition ab_get :: "'s slot_ops \<Rightarrow> 's ab_slots \<Rightarrow> nonce_stream_id \<Rightarrow> nat option" where
  "ab_get S ab sid = position (\<lambda>s. slot_stream_id_of S s = Some sid) (ab_slots ab)"

definition ab_sign ::
  "'s slot_ops \<Rightarrow> nonce_ops \<Rightarrow> seed_fun \<Rightarrow> nat \<Rightarrow> sign_session_id \<Rightarrow> coord_nonce_state \<Rightarrow>
    party_session list \<Rightarrow> 's ab_slots \<Rightarrow>
    's ab_slots \<times> (nonces_unavailable, sig_share list \<times> nonce_job option) result" where
  "ab_sign S N derive batch_size session_id coord sessions ab =
     (let last_used = u32_add (ab_last_used ab) 1 in
      case ab_get S ab (cns_stream_id coord) of
        None \<Rightarrow> (ab, Err Overflow)
      | Some i \<Rightarrow>
          (let (s', r) = sign_slot S N derive batch_size session_id coord last_used sessions
                           (ab_slots ab ! i);
               ab' = ab\<lparr>ab_slots := (ab_slots ab)[i := s']\<rparr>
           in case r of
                Ok out \<Rightarrow> (ab'\<lparr>ab_last_used := last_used\<rparr>, Ok out)
              | Err e \<Rightarrow> (ab', Err e)
              | Panic m \<Rightarrow> (ab', Panic m)))"

text \<open>The scan of \<^verbatim>\<open>get_or_create\<close>: the slot of the stream, the first empty one, or the least
  recently used.\<close>

datatype slot_search = Found nat | Vacant nat | Evict nat

fun scan_slots ::
  "'s slot_ops \<Rightarrow> nonce_stream_id \<Rightarrow> 's list \<Rightarrow> nat \<Rightarrow> nat \<Rightarrow> nat \<Rightarrow> slot_search" where
  "scan_slots S sid [] i lowest idx = Evict idx"
| "scan_slots S sid (s # ss) i lowest idx =
     (case read_slot S s of
        None \<Rightarrow> Vacant i
      | Some v \<Rightarrow>
          if slot_stream_id v = sid then Found i
          else if slot_last_used v < lowest
          then scan_slots S sid ss (i + 1) (slot_last_used v) i
          else scan_slots S sid ss (i + 1) lowest idx)"

definition ab_initialize ::
  "'s slot_ops \<Rightarrow> nonce_stream_id \<Rightarrow> nat \<Rightarrow> nat \<Rightarrow> rng \<Rightarrow> 's ab_slots \<Rightarrow>
    ('e, 's ab_slots \<times> nat) result \<times> rng" where
  "ab_initialize S sid i last_used rng ab =
     (if i < length (ab_slots ab)
      then (let (w, rng) = initialize_slot S sid last_used rng (ab_slots ab ! i)
            in (case w of
                  None \<Rightarrow> Panic ''write failed''
                | Some s \<Rightarrow> Ok (ab\<lparr>ab_slots := (ab_slots ab)[i := s]\<rparr>, i), rng))
      else (Panic ''index out of bounds'', rng))"

definition ab_get_or_create ::
  "'s slot_ops \<Rightarrow> nonce_stream_id \<Rightarrow> rng \<Rightarrow> 's ab_slots \<Rightarrow>
    ('e, 's ab_slots \<times> nat) result \<times> rng" where
  "ab_get_or_create S sid rng ab =
     (let last_used = u32_add (ab_last_used ab) 1;
          ab = ab\<lparr>ab_last_used := last_used\<rparr>
      in case scan_slots S sid (ab_slots ab) 0 u32_max 0 of
           Found i \<Rightarrow> (Ok (ab, i), rng)
         | Vacant i \<Rightarrow> ab_initialize S sid i last_used rng ab
         | Evict i \<Rightarrow> ab_initialize S sid i last_used rng ab)"

definition ab_all_stream_ids :: "'s slot_ops \<Rightarrow> 's ab_slots \<Rightarrow> nonce_stream_id list" where
  "ab_all_stream_ids S ab = List.map_filter (slot_stream_id_of S) (ab_slots ab)"

definition ab_total_slots :: "'s ab_slots \<Rightarrow> nat" where
  "ab_total_slots ab = length (ab_slots ab)"

subsection \<open>Slots in memory\<close>

record memory_nonce_slot =
  mem_inner :: "secret_nonce_slot versioned option"

definition memory_slot_ops :: "memory_nonce_slot slot_ops" where
  "memory_slot_ops =
     \<lparr>read_versioned = mem_inner,
      write_versioned = (\<lambda>v s. Some (s\<lparr>mem_inner := Some v\<rparr>))\<rparr>"

subsection \<open>The contract of a slot's storage\<close>

locale nonce_slot_store =
  fixes S :: "'s slot_ops"
  assumes read_after_write: "write_slot S v s = Some s' \<Longrightarrow> read_slot S s' = Some v"
begin

text \<open>A new slot starts its stream at index 0 with material from the generator.\<close>

lemma initialize_slot_reads:
  "fst (initialize_slot S sid last_used rng s) = Some s' \<Longrightarrow>
   read_slot S s' = Some \<lparr>slot_index = 0, slot_stream_id = sid, slot_material = rng 0,
     slot_last_used = last_used, slot_signing_state = None\<rparr>"
  by (auto simp: initialize_slot_def Let_def rng_draw_def dest: read_after_write)

text \<open>A signing call either leaves the store alone, without shares, or has written the cached
  or the fresh slot value, and then what it returns is what that value holds.\<close>

lemma sign_slot_cases:
  assumes "sign_slot S N derive batch_size session_id coord last_used sessions s = (s', r)"
  obtains (unchanged) "s' = s" "\<And>out. r \<noteq> Ok out"
  | (written) v v' where "read_slot S s = Some v" "cns_stream_id coord = slot_stream_id v"
      "write_slot S v' s = Some s'" "read_slot S s' = Some v'"
      "with_signatures N derive v session_id coord last_used sessions = Ok v'"
      "\<And>shares job. r = Ok (shares, job) \<Longrightarrow>
         \<exists>ss. slot_signing_state v' = Some ss \<and> shares = ss_signature_shares ss"
proof (cases "read_slot S s")
  case None
  then have "s' = s" "r = Panic ''cannot sign with uninitialized slot''"
    using assms by (simp_all add: sign_slot_def)
  then show ?thesis by (intro unchanged) simp_all
next
  case (Some v)
  let ?signed = "with_signatures N derive v session_id coord last_used sessions"
  show ?thesis
  proof (cases "cns_stream_id coord = slot_stream_id v \<and>
      (\<exists>v'. ?signed = Ok v' \<and> write_slot S v' s \<noteq> None)")
    case True
    then obtain v' t where v': "?signed = Ok v'" "write_slot S v' s = Some t" by auto
    have rd: "read_slot S t = Some v'" by (rule read_after_write [OF v'(2)])
    have "s' = t" "r = and_then (expect ''guaranteed'' (slot_signing_state v')) (\<lambda>ss.
        and_then (reconcile S t coord batch_size) (\<lambda>replenishment.
          Ok (ss_signature_shares ss, replenishment)))"
      using assms Some True v' rd by (auto simp: sign_slot_def)
    then show ?thesis
      using Some True v' rd by (intro written [of v v']) (auto simp: result_iff)
  next
    case False
    then have "s' = s \<and> (\<forall>out. r \<noteq> Ok out)"
      using assms Some by (auto simp: sign_slot_def split: result.splits option.splits if_splits)
    then show ?thesis using unchanged by blast
  qed
qed

end

interpretation mem: nonce_slot_store memory_slot_ops
  by unfold_locales (auto simp: memory_slot_ops_def write_slot_def read_slot_def)

end
