(* ===== verification/AbWrite.thy ===== *)
theory AbWrite
  imports DeviceNonces
begin

section \<open>Alternating slots on flash\<close>

text \<open>
  Models \<^verbatim>\<open>frostsnap_embedded/src/ab_write.rs\<close> and the nonce slots of \<^verbatim>\<open>nonce_slots.rs\<close> on top
  of it. A value is kept in two flash regions; each write bumps an index, goes to the region
  that is not current, then to the other one. A region is modelled by what decoding its
  sectors gives: erased, a complete value, or a torn one, whose index word was programmed
  before power was lost but whose value was not. The decoder of \<^verbatim>\<open>bincode\<close> is not in the
  repository, so what it makes of a torn value is a parameter of the torn image.
\<close>

datatype 'a slot_image = Erased | Torn nat "'a option" | Stored nat 'a

record 'a ab_slot =
  ab_a :: "'a slot_image"
  ab_b :: "'a slot_image"

subsection \<open>One region\<close>

definition not_u32_max :: "nat \<Rightarrow> nat option" where
  "not_u32_max i = (if i = u32_max then None else Some i)"

text \<open>The first word of an erased region reads \<^verbatim>\<open>u32::MAX\<close>.\<close>

fun slot_read_index :: "'a slot_image \<Rightarrow> nat option" where
  "slot_read_index Erased = not_u32_max u32_max"
| "slot_read_index (Torn i g) = not_u32_max i"
| "slot_read_index (Stored i v) = not_u32_max i"

fun slot_image_read :: "'a slot_image \<Rightarrow> (nat \<times> 'a) option" where
  "slot_image_read Erased = None"
| "slot_image_read (Torn i g) =
     (case g of None \<Rightarrow> None | Some v \<Rightarrow> if i = u32_max then None else Some (i, v))"
| "slot_image_read (Stored i v) = (if i = u32_max then None else Some (i, v))"

text \<open>Writing a region erases it, then programs it word by word, the index first: the images it
  goes through. \<open>g\<close> is what the decoder makes of the bytes before the last one is there.\<close>

definition slot_write_stages :: "'a option \<Rightarrow> nat \<Rightarrow> 'a \<Rightarrow> 'a slot_image list" where
  "slot_write_stages g i v = [Erased, Torn i g, Stored i v]"

definition slot_image_write :: "nat \<Rightarrow> 'a \<Rightarrow> 'a slot_image" where
  "slot_image_write i v = last (slot_write_stages None i v)"

subsection \<open>The pair\<close>

text \<open>\<^verbatim>\<open>>\<close> of \<^verbatim>\<open>Option<u32>\<close>: \<^verbatim>\<open>None\<close> is below every \<^verbatim>\<open>Some\<close>.\<close>

fun option_gt :: "nat option \<Rightarrow> nat option \<Rightarrow> bool" where
  "option_gt (Some x) (Some y) = (y < x)"
| "option_gt (Some x) None = True"
| "option_gt None y = False"

definition current_slot_and_index :: "'a ab_slot \<Rightarrow> (nat \<times> nat) option" where
  "current_slot_and_index s =
     (let a_index = slot_read_index (ab_a s); b_index = slot_read_index (ab_b s) in
      if option_gt b_index a_index then map_option (\<lambda>i. (1, i)) b_index
      else map_option (\<lambda>i. (0, i)) a_index)"

definition ab_image :: "nat \<Rightarrow> 'a ab_slot \<Rightarrow> 'a slot_image" where
  "ab_image n s = (if n = 0 then ab_a s else ab_b s)"

definition ab_set :: "nat \<Rightarrow> 'a slot_image \<Rightarrow> 'a ab_slot \<Rightarrow> 'a ab_slot" where
  "ab_set n im s = (if n = 0 then s\<lparr>ab_a := im\<rparr> else s\<lparr>ab_b := im\<rparr>)"

text \<open>The region a write goes to first and the index it writes, or a panic.\<close>

definition ab_next :: "'a ab_slot \<Rightarrow> (nat \<times> nat) option" where
  "ab_next s =
     (case current_slot_and_index s of
        None \<Rightarrow> Some (0, 0)
      | Some (current_slot, current_index) \<Rightarrow>
          let next_index = u32_add current_index 1 in
          if next_index = u32_max then None else Some ((current_slot + 1) mod 2, next_index))"

definition ab_write :: "'a \<Rightarrow> 'a ab_slot \<Rightarrow> 'a ab_slot option" where
  "ab_write v s =
     (case ab_next s of
        None \<Rightarrow> None
      | Some (next_slot, next_index) \<Rightarrow>
          let other_slot = (next_slot + 1) mod 2;
              s = ab_set next_slot (slot_image_write next_index v) s
          in Some (ab_set other_slot (slot_image_write next_index v) s))"

definition ab_read :: "'a ab_slot \<Rightarrow> 'a option" where
  "ab_read s =
     (let current_slot = (case current_slot_and_index s of None \<Rightarrow> 0 | Some (slot, _) \<Rightarrow> slot)
      in map_option snd (slot_image_read (ab_image current_slot s)))"

subsection \<open>Power loss\<close>

text \<open>Every state a write passes through, the last being the written one.\<close>

definition ab_write_stages :: "'a option \<Rightarrow> 'a \<Rightarrow> 'a ab_slot \<Rightarrow> 'a ab_slot list" where
  "ab_write_stages g v s =
     (case ab_next s of
        None \<Rightarrow> [s]
      | Some (n, i) \<Rightarrow>
          let other = (n + 1) mod 2; s1 = ab_set n (slot_image_write i v) s in
          s # map (\<lambda>im. ab_set n im s) (slot_write_stages g i v)
            @ map (\<lambda>im. ab_set other im s1) (slot_write_stages g i v))"

text \<open>The newest index on flash.\<close>

definition committed_index :: "'a ab_slot \<Rightarrow> nat option" where
  "committed_index s = map_option snd (current_slot_and_index s)"

subsection \<open>Indices\<close>

lemma slot_image_write_simp [simp]: "slot_image_write i v = Stored i v"
  by (simp add: slot_image_write_def slot_write_stages_def)

lemma not_u32_max_max [simp]: "not_u32_max u32_max = None"
  by (simp add: not_u32_max_def)

lemma not_u32_max_small [simp]: "i < u32_max \<Longrightarrow> not_u32_max i = Some i"
  by (simp add: not_u32_max_def)

lemma ab_image_set [simp]: "ab_image n (ab_set m im s) = (if (n = 0) = (m = 0) then im else ab_image n s)"
  by (auto simp: ab_image_def ab_set_def)

lemma ab_a_set [simp]: "ab_a (ab_set n im s) = (if n = 0 then im else ab_a s)"
  "ab_b (ab_set n im s) = (if n = 0 then ab_b s else im)"
  by (auto simp: ab_set_def)

lemma option_gt_iff: "option_gt x y \<longleftrightarrow> (case x of None \<Rightarrow> False | Some a \<Rightarrow> case y of None \<Rightarrow> True | Some b \<Rightarrow> b < a)"
  by (cases x; cases y) auto

lemma slot_read_index_bound:
  assumes "slot_read_index im = Some i"
  shows "i \<noteq> u32_max"
  using assms by (cases im) (auto simp: not_u32_max_def split: if_splits)

lemma committed_index_max:
  "committed_index s =
     (case (slot_read_index (ab_a s), slot_read_index (ab_b s)) of
        (None, None) \<Rightarrow> None | (Some i, None) \<Rightarrow> Some i | (None, Some j) \<Rightarrow> Some j
      | (Some i, Some j) \<Rightarrow> Some (max i j))"
  by (auto simp: committed_index_def current_slot_and_index_def Let_def option_gt_iff max_def
        split: option.splits)

lemma ab_next_index:
  "ab_next s = Some (n, i) \<Longrightarrow>
   n < 2 \<and> i \<noteq> u32_max \<and>
   (case committed_index s of None \<Rightarrow> i = 0 \<and> n = 0 | Some j \<Rightarrow> i = u32_add j 1)"
  by (auto simp: ab_next_def committed_index_def u32_max_def Let_def split: option.splits if_splits prod.splits)

text \<open>Indices stay below \<^verbatim>\<open>u32::MAX\<close>, so the next one is the successor.\<close>

definition ab_ok :: "'a ab_slot \<Rightarrow> bool" where
  "ab_ok s \<longleftrightarrow> (\<forall>j. committed_index s = Some j \<longrightarrow> j < u32_max)"

lemma ab_next_ok:
  assumes "ab_ok s" "ab_next s = Some (n, i)"
  shows "i < u32_max \<and> (\<forall>j. committed_index s = Some j \<longrightarrow> i = j + 1)"
  using assms ab_next_index [OF assms(2)]
  by (auto simp: ab_ok_def u32_max_def u32_add_def split: option.splits)

text \<open>The region written first is never the current one.\<close>

lemma ab_next_not_current:
  assumes "ab_next s = Some (n, i)" "current_slot_and_index s = Some (c, j)"
  shows "n = (c + 1) mod 2 \<and> c < 2"
  using assms
  by (auto simp: ab_next_def Let_def current_slot_and_index_def split: if_splits)

lemma slot_index_Stored [simp]: "i < u32_max \<Longrightarrow> slot_read_index (Stored i v) = Some i"
  "i < u32_max \<Longrightarrow> slot_read_index (Torn i g) = Some i" "slot_read_index Erased = None"
  "i < u32_max \<Longrightarrow> slot_image_read (Torn i g) = map_option (Pair i) g"
  by (auto simp: not_u32_max_def split: option.splits)

lemma ab_next_cases: "ab_next s = Some (n, i) \<Longrightarrow> n = 0 \<or> n = Suc 0"
  by (drule ab_next_index) (simp add: less_2_cases_iff)

lemma ab_write_eq:
  "ab_write v s = Some s' \<longleftrightarrow> (\<exists>n i. ab_next s = Some (n, i) \<and> s' = s\<lparr>ab_a := Stored i v, ab_b := Stored i v\<rparr>)"
proof (cases "ab_next s")
  case (Some ni)
  obtain n i where ni: "ni = (n, i)" by (cases ni)
  from ab_next_cases [OF Some [unfolded ni]] show ?thesis
    by (elim disjE) (auto simp: ab_write_def ab_set_def Some ni)
qed (simp add: ab_write_def)

lemma ab_write_reads: "ab_write v s = Some s' \<Longrightarrow> ab_read s' = Some v"
  by (auto simp: ab_write_eq ab_read_def current_slot_and_index_def not_u32_max_def ab_image_def
        option_gt_iff dest: ab_next_index split: option.splits)

lemma ab_write_committed:
  "ab_next s = Some (n, i) \<Longrightarrow> ab_write v s = Some s' \<Longrightarrow> committed_index s' = Some i"
  by (auto simp: ab_write_eq committed_index_max not_u32_max_def dest: ab_next_index)

subsection \<open>What is read after a power loss\<close>

lemma read_index_None_read: "slot_read_index im = None \<Longrightarrow> slot_image_read im = None"
  by (cases im) (auto simp: not_u32_max_def split: option.splits if_splits)

lemma committed_None:
  "committed_index s = None \<longleftrightarrow> slot_read_index (ab_a s) = None \<and> slot_read_index (ab_b s) = None"
  by (auto simp: committed_index_max split: option.splits)

lemma current_erase_other:
  assumes "ab_next s = Some (n, i)"
  shows "current_slot_and_index (ab_set n Erased s) = current_slot_and_index s"
    "ab_read (ab_set n Erased s) = ab_read s"
proof -
  have "current_slot_and_index (ab_set n Erased s) = current_slot_and_index s \<and>
      ab_read (ab_set n Erased s) = ab_read s"
  proof (cases "current_slot_and_index s")
    case None
    then have "committed_index s = None" by (simp add: committed_index_def)
    moreover have "n = 0" using assms None by (simp add: ab_next_def)
    ultimately show ?thesis
      by (simp add: committed_None ab_read_def current_slot_and_index_def ab_image_def
          read_index_None_read)
  next
    case (Some cj)
    obtain c j where cj: "cj = (c, j)" by (cases cj)
    with ab_next_not_current [OF assms] Some have n: "n = (c + 1) mod 2" "c < 2" by auto
    have "current_slot_and_index (ab_set n Erased s) = Some (c, j)"
      using Some n unfolding cj
      by (auto simp: current_slot_and_index_def Let_def option_gt_iff less_2_cases_iff
            split: if_splits option.splits)
    with Some n show ?thesis
      unfolding cj by (auto simp: ab_read_def ab_image_def less_2_cases_iff)
  qed
  then show "current_slot_and_index (ab_set n Erased s) = current_slot_and_index s"
    "ab_read (ab_set n Erased s) = ab_read s" by simp_all
qed

lemma current_next_newest:
  assumes ok: "ab_ok s" and next_is: "ab_next s = Some (n, i)" and im: "slot_read_index im = Some i"
  shows "current_slot_and_index (ab_set n im s) = Some (n, i)"
proof -
  note N = ab_next_ok [OF ok next_is] ab_next_index [OF next_is]
  show ?thesis
  proof (cases "current_slot_and_index s")
    case None
    then have "committed_index s = None" by (simp add: committed_index_def)
    moreover have "n = 0" using next_is None by (simp add: ab_next_def)
    ultimately show ?thesis
      using im by (simp add: committed_None current_slot_and_index_def)
  next
    case (Some cj)
    obtain c j where cj: "cj = (c, j)" by (cases cj)
    have n: "n = (c + 1) mod 2" "c < 2"
      using ab_next_not_current [OF next_is Some [unfolded cj]] by auto
    have "i = j + 1" using N(1) Some cj by (simp add: committed_index_def)
    then show ?thesis
      using Some n im unfolding cj
      by (auto simp: current_slot_and_index_def Let_def option_gt_iff less_2_cases_iff
            split: if_splits option.splits)
  qed
qed

text \<open>The states of a write as seen by a reader.\<close>

lemma stages_of_first:
  assumes ok: "ab_ok s" and next_is: "ab_next s = Some (n, i)"
    and mem: "im \<in> set (slot_write_stages g i v)"
  shows "committed_index (ab_set n im s) \<in> {committed_index s, Some i}"
    "ab_read (ab_set n im s) \<in> {ab_read s, g, Some v}"
proof -
  have "i < u32_max" using ab_next_ok [OF ok next_is] by blast
  then consider "im = Erased" | "slot_read_index im = Some i" "slot_image_read im = map_option (Pair i) g"
    | "slot_read_index im = Some i" "slot_image_read im = Some (i, v)"
    using mem by (cases g) (auto simp: slot_write_stages_def)
  then have "committed_index (ab_set n im s) \<in> {committed_index s, Some i} \<and>
      ab_read (ab_set n im s) \<in> {ab_read s, g, Some v}"
  proof cases
    case 1
    then show ?thesis using current_erase_other [OF next_is] by (simp add: committed_index_def)
  next
    case 2
    with current_next_newest [OF ok next_is, of im] ab_next_cases [OF next_is] show ?thesis
      by (cases g) (auto simp: committed_index_def ab_read_def)
  next
    case 3
    with current_next_newest [OF ok next_is, of im] ab_next_cases [OF next_is] show ?thesis
      by (auto simp: committed_index_def ab_read_def)
  qed
  then show "committed_index (ab_set n im s) \<in> {committed_index s, Some i}"
    "ab_read (ab_set n im s) \<in> {ab_read s, g, Some v}" by blast+
qed

lemma stages_of_second:
  assumes i: "i < u32_max" and n: "n = 0 \<or> n = Suc 0"
    and mem: "im \<in> set (slot_write_stages g i v)"
  shows "committed_index (ab_set ((n + 1) mod 2) im (ab_set n (Stored i v) s)) = Some i"
    "ab_read (ab_set ((n + 1) mod 2) im (ab_set n (Stored i v) s)) \<in> {g, Some v}"
  using assms
  by (auto simp: slot_write_stages_def committed_index_def current_slot_and_index_def ab_read_def
        option_gt_iff ab_image_def ab_set_def Let_def split: option.splits)

lemma ab_crash_index:
  assumes ok: "ab_ok s" and next_is: "ab_next s = Some (n, i)" and mem: "s' \<in> set (ab_write_stages g v s)"
  shows "committed_index s' \<in> {committed_index s, Some i}"
  using mem stages_of_first(1) [OF ok next_is] ab_next_ok [OF ok next_is] ab_next_cases [OF next_is]
    stages_of_second(1) [of i n _ g v s]
  by (auto simp: ab_write_stages_def next_is Let_def)

lemma ab_crash_read:
  assumes ok: "ab_ok s" and mem: "s' \<in> set (ab_write_stages g v s)"
  shows "ab_read s' \<in> {ab_read s, g, Some v}"
proof (cases "ab_next s")
  case None
  then show ?thesis using mem by (simp add: ab_write_stages_def)
next
  case (Some ni)
  obtain n i where ni: "ni = (n, i)" by (cases ni)
  note N = Some [unfolded ni]
  consider "s' = s" | im where "im \<in> set (slot_write_stages g i v)" "s' = ab_set n im s"
    | im where "im \<in> set (slot_write_stages g i v)"
        "s' = ab_set ((n + 1) mod 2) im (ab_set n (Stored i v) s)"
    using mem by (auto simp: ab_write_stages_def N Let_def)
  then show ?thesis
  proof cases
    case 2
    then show ?thesis using stages_of_first(2) [OF ok N] by blast
  next
    case 3
    then show ?thesis
      using stages_of_second(2) [of i n _ g v s] ab_next_ok [OF ok N] ab_next_cases [OF N] by blast
  qed simp
qed

lemma ab_crash_ok:
  assumes ok: "ab_ok s" and mem: "s' \<in> set (ab_write_stages g v s)"
  shows "ab_ok s'"
proof (cases "ab_next s")
  case (Some ni)
  obtain n i where ni: "ni = (n, i)" by (cases ni)
  from ab_crash_index [OF ok Some [unfolded ni] mem] ab_next_ok [OF ok Some [unfolded ni]] ok
  show ?thesis by (auto simp: ab_ok_def)
qed (use assms in \<open>simp add: ab_write_stages_def\<close>)

lemma ab_write_last_stage:
  assumes "ab_write v s = Some s'"
  shows "last (ab_write_stages g v s) = s'"
  using assms
  by (auto simp: ab_write_eq ab_write_stages_def slot_write_stages_def Let_def ab_set_def
        split: option.splits dest: ab_next_cases)

lemma ab_write_ok: "ab_ok s \<Longrightarrow> ab_write v s = Some s' \<Longrightarrow> ab_ok s'"
  using ab_next_ok by (fastforce simp: ab_ok_def ab_write_eq committed_index_max not_u32_max_def)

subsection \<open>Nonce slots on flash\<close>

type_synonym nonce_ab_slot = "secret_nonce_slot versioned ab_slot"

definition nonce_ab_slot_ops :: "nonce_ab_slot slot_ops" where
  "nonce_ab_slot_ops = \<lparr>read_versioned = ab_read, write_versioned = ab_write\<rparr>"

interpretation abs: nonce_slot_store nonce_ab_slot_ops
  by unfold_locales
    (auto simp: nonce_ab_slot_ops_def write_slot_def read_slot_def dest: ab_write_reads)

subsection \<open>What the alternating slots promise\<close>

text \<open>C3. A completed write is what the next read returns, and its index is above every index
  on flash before it, whatever interrupted writes left there; it refuses to write only when
  the index would reach \<^verbatim>\<open>u32::MAX\<close>.\<close>

theorem ab_write_newest:
  assumes "ab_ok s"
  shows "case ab_write v s of
      None \<Rightarrow> committed_index s = Some (u32_max - 1)
    | Some s' \<Rightarrow> ab_ok s' \<and> ab_read s' = Some v \<and>
        (\<exists>i. committed_index s' = Some i \<and>
          (\<forall>im\<in>{ab_a s, ab_b s}. \<forall>j. slot_read_index im = Some j \<longrightarrow> j < i))"
proof (cases "ab_next s")
  case None
  then have "committed_index s = Some (u32_max - 1)"
    using assms by (auto simp: ab_next_def Let_def committed_index_def ab_ok_def u32_max_def
        u32_add_def split: option.splits if_splits)
  moreover have "ab_write v s = None" using None by (simp add: ab_write_def)
  ultimately show ?thesis by simp
next
  case (Some ni)
  obtain n i where ni: "ni = (n, i)" by (cases ni)
  note N = Some [unfolded ni]
  obtain s' where s': "ab_write v s = Some s'" using ab_write_eq [of v s] N by blast
  have "j < i" if "im \<in> {ab_a s, ab_b s}" "slot_read_index im = Some j" for im j
    using that ab_next_ok [OF assms N]
    by (auto simp: committed_index_max split: option.splits)
  then show ?thesis
    using s' ab_write_reads [OF s'] ab_write_committed [OF N s'] ab_write_ok [OF assms s'] by auto
qed

theorem ab_write_newest_witness:
  "case ab_write True \<lparr>ab_a = Stored 1 False, ab_b = Torn 2 None\<rparr> of
      None \<Rightarrow> False
    | Some s' \<Rightarrow> ab_read s' = Some True"
  using ab_write_newest [of "\<lparr>ab_a = Stored 1 False, ab_b = Torn 2 None\<rparr>" True]
  by (simp add: ab_ok_def committed_index_max not_u32_max_def u32_max_def split: option.splits)



text \<open>The window in which the state is lost: a write interrupted inside the value of the first
  region leaves a newer index over an undecodable value, and the read then finds nothing
  although the other region still holds the complete previous value.\<close>

theorem ab_torn_write_hides_value:
  "let s = \<lparr>ab_a = Stored 1 v, ab_b = Stored 1 v\<rparr>;
       s' = \<lparr>ab_a = Stored 1 v, ab_b = Torn 2 None\<rparr>
   in ab_read s = Some v \<and> s' \<in> set (ab_write_stages None w s) \<and>
      slot_image_read (ab_a s') = Some (1, v) \<and> ab_read s' = None"
  by (simp add: ab_read_def current_slot_and_index_def ab_write_stages_def slot_write_stages_def
      ab_next_def ab_image_def ab_set_def not_u32_max_def u32_simps)

end
