(* ===== verification/NonceSafety.thy ===== *)
theory NonceSafety
  imports AbWrite
begin

section \<open>Nonces are published and used as one stream, each once\<close>

text \<open>
  The lemmas of \<^verbatim>\<open>device_nonces.rs\<close> that matter for the secrecy of the key. A slot stands at
  an index and seed material, and that determines the secret nonce at every later index; the
  first part shows that the jobs publish and that signing uses exactly those. The second part
  shows that signing only moves a slot forward, past every nonce it used, so that over any
  run of signing calls no index is used by two sessions. The third part is the table of slots.
\<close>

subsection \<open>The stream a slot stands in\<close>

fun material_at :: "nonce_ops \<Rightarrow> seed_fun \<Rightarrow> nonce_stream_id \<Rightarrow> nat \<Rightarrow> bytes \<Rightarrow> nat \<Rightarrow> bytes" where
  "material_at N d sid index material 0 = material"
| "material_at N d sid index material (Suc k) =
     material_at N d sid (Suc index) (fst (ratchet N d sid index material)) k"

definition stream_secret ::
  "nonce_ops \<Rightarrow> seed_fun \<Rightarrow> nonce_stream_id \<Rightarrow> nat \<Rightarrow> bytes \<Rightarrow> nat \<Rightarrow> secret_nonce option" where
  "stream_secret N d sid index material i =
     secret_nonce_from_bytes N
       (snd (ratchet N d sid i (material_at N d sid index material (i - index))))"

definition slot_secret :: "nonce_ops \<Rightarrow> seed_fun \<Rightarrow> secret_nonce_slot \<Rightarrow> nat \<Rightarrow> secret_nonce option" where
  "slot_secret N d v = stream_secret N d (slot_stream_id v) (slot_index v) (slot_material v)"

lemma material_at_add:
  "material_at N d sid index material (j + k) =
   material_at N d sid (index + j) (material_at N d sid index material j) k"
  by (induction j arbitrary: index material) simp_all

lemma material_at_Suc_last:
  "material_at N d sid index material (Suc k) =
   fst (ratchet N d sid (index + k) (material_at N d sid index material k))"
  using material_at_add [of N d sid index material k 1] by simp

lemma stream_secret_shift:
  "index + k \<le> i \<Longrightarrow>
   stream_secret N d sid (index + k) (material_at N d sid index material k) i =
   stream_secret N d sid index material i"
  by (simp add: stream_secret_def material_at_add [symmetric])

lemma stream_secret_next:
  "Suc index \<le> i \<Longrightarrow>
   stream_secret N d sid (Suc index) (fst (ratchet N d sid index material)) i =
   stream_secret N d sid index material i"
  using stream_secret_shift [of index 1 i N d sid material] by simp

lemma stream_secret_here:
  "stream_secret N d sid index material index =
   secret_nonce_from_bytes N (snd (ratchet N d sid index material))"
  by (simp add: stream_secret_def)

subsection \<open>Jobs publish the stream\<close>

lemma job_do_work_Ok:
  assumes "job_do_work N d j = Ok (j', fin)" "job_index j < job_target_index j"
  shows "\<exists>sn. stream_secret N d (job_stream_id j) (job_index j) (job_seed_material j) (job_index j)
      = Some sn \<and>
    j' = j\<lparr>job_seed_material := fst (ratchet N d (job_stream_id j) (job_index j) (job_seed_material j)),
           job_index := job_index j + 1,
           job_nonces := job_nonces j @
             (if job_skip_to j \<le> job_index j then [nonce_public N sn] else [])\<rparr> \<and>
    fin = (job_target_index j \<le> job_index j + 1)"
  using assms
  by (auto simp: job_do_work_def Let_def case_prod_beta result_iff stream_secret_here split: if_splits)

text \<open>The nonces a job adds when it runs from its index to its target.\<close>

definition published ::
  "nonce_ops \<Rightarrow> seed_fun \<Rightarrow> nonce_stream_id \<Rightarrow> nat \<Rightarrow> bytes \<Rightarrow> nat \<Rightarrow> nat \<Rightarrow> pub_nonce list" where
  "published N d sid index material from to =
     map (\<lambda>i. nonce_public N (the (stream_secret N d sid index material i))) [from..<to]"

lemma published_next:
  "Suc index \<le> from \<Longrightarrow>
   published N d sid (Suc index) (fst (ratchet N d sid index material)) from to =
   published N d sid index material from to"
  by (auto simp: published_def stream_secret_next)

lemma job_run_Ok:
  "job_run N d j = (Ok j' :: ('e, nonce_job) result) \<Longrightarrow> job_index j \<le> job_target_index j \<Longrightarrow>
   job_index j' = job_target_index j \<and> job_target_index j' = job_target_index j \<and>
   job_stream_id j' = job_stream_id j \<and> job_skip_to j' = job_skip_to j \<and>
   job_nonces j' = job_nonces j @
     published N d (job_stream_id j) (job_index j) (job_seed_material j)
       (max (job_skip_to j) (job_index j)) (job_target_index j)"
proof (induction N d j rule: job_run.induct [where 'a = 'e])
  case (1 N d j)
  show ?case
  proof (cases "job_index j < job_target_index j")
    case False
    then have "job_do_work N d j = (Ok (j, True) :: ('e, nonce_job \<times> bool) result)"
      by (simp add: job_do_work_def)
    then have "j' = j" using "1.prems"(1) by (simp add: job_run.simps [of N d j])
    then show ?thesis using False "1.prems"(2) by (simp add: published_def)
  next
    case True
    obtain p where p: "job_do_work N d j = (Ok p :: ('e, nonce_job \<times> bool) result)"
      and rp: "(case p of (j1, fin) \<Rightarrow> if fin then Ok j1 else job_run N d j1) =
        (Ok j' :: ('e, nonce_job) result)"
      using "1.prems"(1) unfolding job_run.simps [of N d j] and_then_Ok_iff by blast
    obtain j1 fin where "p = (j1, fin)" by (cases p)
    with p rp have w: "job_do_work N d j = (Ok (j1, fin) :: ('e, nonce_job \<times> bool) result)"
      and r: "(if fin then Ok j1 else job_run N d j1) = (Ok j' :: ('e, nonce_job) result)"
      by simp_all
    obtain sn where sn: "stream_secret N d (job_stream_id j) (job_index j) (job_seed_material j)
        (job_index j) = Some sn"
      and j1: "j1 = j\<lparr>job_seed_material :=
            fst (ratchet N d (job_stream_id j) (job_index j) (job_seed_material j)),
          job_index := job_index j + 1,
          job_nonces := job_nonces j @
            (if job_skip_to j \<le> job_index j then [nonce_public N sn] else [])\<rparr>"
      and fin: "fin = (job_target_index j \<le> job_index j + 1)"
      using job_do_work_Ok [OF w True] by blast
    let ?pub = "published N d (job_stream_id j) (job_index j) (job_seed_material j)"
    have step: "?pub (max (job_skip_to j) (job_index j)) (job_target_index j) =
        (if job_skip_to j \<le> job_index j then [nonce_public N sn] else []) @
        ?pub (max (job_skip_to j) (Suc (job_index j))) (job_target_index j)"
    proof (cases "job_skip_to j \<le> job_index j")
      case le: True
      then show ?thesis
        using True sn by (simp add: published_def upt_conv_Cons max_def)
    next
      case False
      then have "max (job_skip_to j) (job_index j) = max (job_skip_to j) (Suc (job_index j))"
        by linarith
      with False show ?thesis by simp
    qed
    show ?thesis
    proof (cases fin)
      case True
      then have "job_target_index j = Suc (job_index j)" "j' = j1"
        using fin \<open>job_index j < job_target_index j\<close> r by auto
      then show ?thesis using step by (simp add: j1 published_def)
    next
      case False
      then have run: "job_run N d j1 = (Ok j' :: ('e, nonce_job) result)" using r by simp
      have "job_index j1 \<le> job_target_index j1" using False fin by (simp add: j1)
      from "1.IH" [OF w refl False run this]
      show ?thesis using step by (simp add: j1 published_next)
    qed
  qed
qed

text \<open>A job ends: with the stream's secrets all valid it cannot panic.\<close>

lemma job_do_work_total:
  assumes "\<And>b. secret_nonce_from_bytes N b \<noteq> None"
  shows "\<exists>j1 fin. job_do_work N d j = (Ok (j1, fin) :: ('e, nonce_job \<times> bool) result)"
proof (cases "job_target_index j \<le> job_index j")
  case False
  obtain sn where "secret_nonce_from_bytes N (snd (ratchet N d (job_stream_id j) (job_index j)
      (job_seed_material j))) = Some sn"
    using assms by blast
  with False show ?thesis by (simp add: job_do_work_def Let_def case_prod_beta)
qed (simp add: job_do_work_def, blast)

lemma job_run_total:
  "(\<And>b. secret_nonce_from_bytes N b \<noteq> None) \<Longrightarrow> \<exists>j'. job_run N d j = (Ok j' :: ('e, nonce_job) result)"
proof (induction N d j rule: job_run.induct [where 'a = 'e])
  case (1 N d j)
  obtain j1 fin where w: "job_do_work N d j = (Ok (j1, fin) :: ('e, nonce_job \<times> bool) result)"
    using job_do_work_total [OF "1.prems"] by blast
  show ?case
  proof (cases fin)
    case False
    from "1.IH" [OF w refl False "1.prems"] w False show ?thesis
      by (simp add: job_run.simps [of N d j])
  qed (use w in \<open>simp add: job_run.simps [of N d j]\<close>)
qed

subsection \<open>Signing uses the stream\<close>

lemma iter_next_Ok:
  "iter_next N d sid (index, material) = Ok (Some r) \<Longrightarrow>
   index < u32_max + 1 \<and> index \<noteq> u32_max \<and>
   (\<exists>sn. stream_secret N d sid index material index = Some sn \<and>
      r = ((index, sn, fst (ratchet N d sid index material)),
           (Suc index, fst (ratchet N d sid index material))))"
  if "index \<le> u32_max"
  using that
  by (auto simp: iter_next_def Let_def case_prod_beta result_iff stream_secret_here split: if_splits)

lemma iter_skip_Ok:
  "iter_skip N d sid k (index, material) = Ok it \<Longrightarrow> index + k \<le> u32_max \<Longrightarrow>
   it = (index + k, material_at N d sid index material k)"
proof (induction k arbitrary: index material)
  case (Suc k)
  then obtain r where r: "iter_next N d sid (index, material) = (Ok r :: (nonces_unavailable, _) result)"
    "(case r of None \<Rightarrow> Ok (index, material) | Some (_, it') \<Rightarrow> iter_skip N d sid k it') =
       (Ok it :: (nonces_unavailable, _) result)"
    unfolding iter_skip.simps and_then_Ok_iff by blast
  have "r \<noteq> None"
    using r(1) Suc.prems(2) by (auto simp: iter_next_def Let_def case_prod_beta result_iff)
  then obtain x where "r = Some x" by blast
  with r iter_next_Ok [of index N d sid material x] Suc.prems(2)
  have "iter_skip N d sid k (Suc index, fst (ratchet N d sid index material)) =
      (Ok it :: (nonces_unavailable, _) result)"
    by auto
  from Suc.IH [OF this] Suc.prems(2) show ?case by simp
qed simp

text \<open>The shares of the sessions, each made with the nonce of its own index.\<close>

definition session_shares ::
  "nonce_ops \<Rightarrow> (nat \<Rightarrow> secret_nonce option) \<Rightarrow> nat \<Rightarrow> party_session list \<Rightarrow> sig_share list" where
  "session_shares N secret start sessions =
     map (\<lambda>(j, session). party_sign N session (the (secret (start + j))))
       (List.enumerate 0 sessions)"

lemma session_shares_Cons:
  "session_shares N secret start (x # xs) =
     party_sign N x (the (secret start)) # session_shares N secret (Suc start) xs"
proof -
  have "List.enumerate (Suc 0) xs = map (apfst Suc) (List.enumerate 0 xs)"
    by (rule nth_equalityI) (auto simp: nth_enumerate_eq)
  then show ?thesis by (simp add: session_shares_def comp_def case_prod_beta)
qed

lemma sign_loop_Ok:
  "sign_loop N d sid sessions (index, material) shares st = Ok (shares', st') \<Longrightarrow>
   index \<le> u32_max \<Longrightarrow>
   index + length sessions \<le> u32_max \<and>
   shares' = shares @ session_shares N (stream_secret N d sid index material) index sessions \<and>
   st' = (if sessions = [] then st
          else Some (index + length sessions, material_at N d sid index material (length sessions))) \<and>
   (\<forall>j < length sessions. stream_secret N d sid index material (index + j) \<noteq> None)"
proof (induction sessions arbitrary: index material shares st)
  case Nil
  then show ?case by (simp add: session_shares_def)
next
  case (Cons x xs)
  let ?m = "fst (ratchet N d sid index material)"
  obtain sn where sn: "stream_secret N d sid index material index = Some sn"
    and ne: "index \<noteq> u32_max"
    and rest: "sign_loop N d sid xs (Suc index, ?m) (shares @ [party_sign N x sn])
        (Some (Suc index, ?m)) = (Ok (shares', st') :: (nonces_unavailable, _) result)"
    using Cons.prems iter_next_Ok [OF Cons.prems(2), of N d sid material]
    by (auto simp: result_iff split: prod.splits)
  have "Suc index \<le> u32_max" using ne Cons.prems(2) by simp
  note IH = Cons.IH [OF rest this]
  have "session_shares N (stream_secret N d sid (Suc index) ?m) (Suc index) xs =
      session_shares N (stream_secret N d sid index material) (Suc index) xs"
    by (auto simp: session_shares_def stream_secret_next)
  moreover have "stream_secret N d sid index material (index + j) \<noteq> None"
    if "j < Suc (length xs)" for j
    using IH that sn by (cases j) (auto simp: stream_secret_next)
  ultimately show ?case
    using IH sn by (auto simp: session_shares_Cons)
qed

lemma sign_fresh_Ok:
  assumes "sign_fresh N d v session_id coord last_used sessions = Ok v'"
    and "cns_index coord \<le> u32_max"
  shows "slot_index v \<le> cns_index coord \<and> sessions \<noteq> [] \<and>
    slot_index v' = cns_index coord + length sessions \<and> slot_index v' \<le> u32_max \<and>
    slot_stream_id v' = slot_stream_id v \<and> slot_last_used v' = last_used \<and>
    slot_signing_state v' = Some \<lparr>ss_session_id = session_id,
      ss_signature_shares = session_shares N (slot_secret N d v) (cns_index coord) sessions\<rparr> \<and>
    (\<forall>i \<ge> slot_index v'. slot_secret N d v' i = slot_secret N d v i)"
proof -
  let ?k = "cns_index coord - slot_index v" and ?sid = "slot_stream_id v"
  from assms(1) have le: "slot_index v \<le> cns_index coord" and ne: "sessions \<noteq> []"
    by (auto simp: sign_fresh_def split: if_splits)
  have "and_then (iter_skip N d ?sid ?k (slot_iter v)) (\<lambda>it.
        and_then (sign_loop N d ?sid sessions it [] None) (\<lambda>(shares, next_state).
        and_then (expect ''unwrap'' next_state) (\<lambda>(next_index, next_material).
          Ok \<lparr>slot_index = next_index, slot_stream_id = slot_stream_id v,
              slot_material = next_material, slot_last_used = last_used,
              slot_signing_state = Some \<lparr>ss_session_id = session_id, ss_signature_shares = shares\<rparr>\<rparr>))) =
        Ok v'"
    using assms(1) le ne by (simp add: sign_fresh_def)
  then obtain it p where
      skip: "iter_skip N d ?sid ?k (slot_iter v) = Ok it"
    and loop: "sign_loop N d ?sid sessions it [] None = Ok p"
    and rest: "(case p of (shares, st) \<Rightarrow> and_then (expect ''unwrap'' st) (\<lambda>(next_index, next_material).
          Ok \<lparr>slot_index = next_index, slot_stream_id = slot_stream_id v,
              slot_material = next_material, slot_last_used = last_used,
              slot_signing_state = Some \<lparr>ss_session_id = session_id, ss_signature_shares = shares\<rparr>\<rparr>)) =
        (Ok v' :: (nonces_unavailable, secret_nonce_slot) result)"
    unfolding and_then_Ok_iff by blast
  let ?m = "material_at N d ?sid (slot_index v) (slot_material v) ?k"
  have it: "it = (cns_index coord, ?m)"
    using iter_skip_Ok [of N d ?sid ?k "slot_index v" "slot_material v" it] skip le assms(2)
    by (simp add: slot_iter_def)
  obtain shares st where p: "p = (shares, st)" by (cases p)
  note L = sign_loop_Ok [OF loop [unfolded it p] assms(2)]
  have shift: "stream_secret N d ?sid (cns_index coord) ?m i = slot_secret N d v i"
    if "cns_index coord \<le> i" for i
    using stream_secret_shift [of "slot_index v" ?k i N d ?sid "slot_material v"] le that
    by (simp add: slot_secret_def)
  have shares: "shares = session_shares N (slot_secret N d v) (cns_index coord) sessions"
    using L by (auto simp: session_shares_def shift)
  have v': "v' = \<lparr>slot_index = cns_index coord + length sessions, slot_stream_id = ?sid,
      slot_material = material_at N d ?sid (cns_index coord) ?m (length sessions),
      slot_last_used = last_used,
      slot_signing_state = Some \<lparr>ss_session_id = session_id, ss_signature_shares = shares\<rparr>\<rparr>"
    using rest L ne unfolding p by auto
  have "slot_secret N d v' i = slot_secret N d v i" if "slot_index v' \<le> i" for i
    using that shift [of i] stream_secret_shift [of "cns_index coord" "length sessions" i N d ?sid ?m]
    by (simp add: v' slot_secret_def)
  then show ?thesis
    using le ne L by (simp add: v' shares)
qed

subsection \<open>Runs of a slot\<close>

text \<open>
  A run is any sequence of signing calls on a slot, whatever they return. Two ghost lists go
  with it: the \<open>uses\<close>, an index and the session signed with the nonce of that index, one for
  every nonce of a fresh signature that reached the store; and the share lists \<open>released\<close>
  to the caller.
\<close>

type_synonym nonce_use = "nat \<times> party_session"

definition fresh_uses :: "nat \<Rightarrow> party_session list \<Rightarrow> nonce_use list" where
  "fresh_uses start sessions = map (\<lambda>(j, x). (start + j, x)) (List.enumerate 0 sessions)"

definition use_share :: "nonce_ops \<Rightarrow> (nat \<Rightarrow> secret_nonce option) \<Rightarrow> nonce_use \<Rightarrow> sig_share" where
  "use_share N secret u = party_sign N (snd u) (the (secret (fst u)))"

definition signed_uses ::
  "'s slot_ops \<Rightarrow> nonce_ops \<Rightarrow> seed_fun \<Rightarrow> sign_session_id \<Rightarrow> coord_nonce_state \<Rightarrow> nat \<Rightarrow>
    party_session list \<Rightarrow> 's \<Rightarrow> nonce_use list" where
  "signed_uses S N d session_id coord last_used sessions s =
     (case read_slot S s of
        None \<Rightarrow> []
      | Some v \<Rightarrow>
          if cns_stream_id coord = slot_stream_id v \<and> \<not> is_cached v session_id
          then (case with_signatures N d v session_id coord last_used sessions of
                  Ok v' \<Rightarrow> if write_slot S v' s = None then [] else fresh_uses (cns_index coord) sessions
                | _ \<Rightarrow> [])
          else [])"

fun released_shares :: "(nonces_unavailable, sig_share list \<times> nonce_job option) result \<Rightarrow> sig_share list list" where
  "released_shares (Ok (shares, _)) = [shares]"
| "released_shares _ = []"

lemma released_shares_mem: "shares \<in> set (released_shares r) \<Longrightarrow> \<exists>job. r = Ok (shares, job)"
  by (induction r rule: released_shares.induct) auto

text \<open>\<open>C v s s'\<close>: power loss while \<open>v\<close> is being written over \<open>s\<close> can leave \<open>s'\<close>.\<close>

inductive slot_run ::
  "'s slot_ops \<Rightarrow> (secret_nonce_slot \<Rightarrow> 's \<Rightarrow> 's \<Rightarrow> bool) \<Rightarrow> nonce_ops \<Rightarrow> seed_fun \<Rightarrow>
    secret_nonce_slot \<Rightarrow> 's \<Rightarrow> nonce_use list \<Rightarrow> sig_share list list \<Rightarrow> bool"
  for S C N d v0 where
    slot_start: "read_slot S s = Some v0 \<Longrightarrow> slot_signing_state v0 = None \<Longrightarrow>
      slot_index v0 \<le> u32_max \<Longrightarrow> slot_run S C N d v0 s [] []"
  | slot_sign: "slot_run S C N d v0 s uses released \<Longrightarrow> cns_index coord \<le> u32_max \<Longrightarrow>
      sign_slot S N d batch_size session_id coord last_used sessions s = (s', r) \<Longrightarrow>
      slot_run S C N d v0 s' (uses @ signed_uses S N d session_id coord last_used sessions s)
        (released @ released_shares r)"
  | slot_crash: "slot_run S C N d v0 s uses released \<Longrightarrow> cns_index coord \<le> u32_max \<Longrightarrow>
      read_slot S s = Some v \<Longrightarrow> cns_stream_id coord = slot_stream_id v \<Longrightarrow>
      with_signatures N d v session_id coord last_used sessions = Ok v' \<Longrightarrow> C v' s s' \<Longrightarrow>
      slot_run S C N d v0 s'
        (if read_slot S s' = Some v' \<and> \<not> is_cached v session_id
         then uses @ fresh_uses (cns_index coord) sessions else uses)
        released"

inductive_cases slot_runE: "slot_run S C N d v0 s uses released"

lemma map_fst_fresh_uses [simp]: "map fst (fresh_uses start sessions) = [start..<start + length sessions]"
  by (rule nth_equalityI) (auto simp: fresh_uses_def nth_enumerate_eq)

lemma fresh_uses_index:
  "u \<in> set (fresh_uses start sessions) \<Longrightarrow> start \<le> fst u \<and> fst u < start + length sessions"
  using imageI [of u "set (fresh_uses start sessions)" fst]
  by (simp flip: set_map)

lemma fresh_uses_shares:
  "map (use_share N secret) (fresh_uses start sessions) = session_shares N secret start sessions"
  by (simp add: fresh_uses_def session_shares_def use_share_def case_prod_beta comp_def)

text \<open>The invariant of a run: the slot stands past every use, and every share list, cached or
  released, is made of uses with the secrets of the stream the run began in.\<close>

definition run_inv ::
  "nonce_ops \<Rightarrow> seed_fun \<Rightarrow> secret_nonce_slot \<Rightarrow> secret_nonce_slot \<Rightarrow> nonce_use list \<Rightarrow>
    sig_share list list \<Rightarrow> bool" where
  "run_inv N d v0 v uses released \<longleftrightarrow>
     slot_stream_id v = slot_stream_id v0 \<and> slot_index v0 \<le> slot_index v \<and>
     slot_index v \<le> u32_max \<and>
     distinct (map fst uses) \<and> (\<forall>u\<in>set uses. fst u < slot_index v) \<and>
     (\<forall>i \<ge> slot_index v. slot_secret N d v i = slot_secret N d v0 i) \<and>
     (\<forall>shares\<in>set released \<union> (case slot_signing_state v of None \<Rightarrow> {}
         | Some ss \<Rightarrow> {ss_signature_shares ss}).
       \<exists>us. set us \<subseteq> set uses \<and> shares = map (use_share N (slot_secret N d v0)) us)"

lemma run_inv_fresh:
  assumes inv: "run_inv N d v0 v uses released"
    and fresh: "sign_fresh N d v session_id coord last_used sessions = Ok v'"
    and idx: "cns_index coord \<le> u32_max"
  shows "run_inv N d v0 v' (uses @ fresh_uses (cns_index coord) sessions) released"
proof -
  note F = sign_fresh_Ok [OF fresh idx]
  let ?new = "fresh_uses (cns_index coord) sessions"
  have inv': "slot_stream_id v = slot_stream_id v0" "slot_index v0 \<le> slot_index v"
      "distinct (map fst uses)" "\<And>u. u \<in> set uses \<Longrightarrow> fst u < slot_index v"
      "\<And>i. slot_index v \<le> i \<Longrightarrow> slot_secret N d v i = slot_secret N d v0 i"
    using inv by (simp_all add: run_inv_def)
  have old: "\<exists>us. set us \<subseteq> set uses \<and> shares = map (use_share N (slot_secret N d v0)) us"
    if "shares \<in> set released" for shares
    using inv that unfolding run_inv_def by blast
  have newi: "cns_index coord \<le> fst u \<and> fst u < slot_index v'" if "u \<in> set ?new" for u
    using fresh_uses_index [OF that] F by simp
  have dist: "distinct (map fst (uses @ ?new))"
    using inv'(3,4) F by (fastforce simp: fresh_uses_index)
  have shares_new: "session_shares N (slot_secret N d v) (cns_index coord) sessions =
      map (use_share N (slot_secret N d v0)) ?new"
    unfolding fresh_uses_shares [of N "slot_secret N d v0"]
    using F inv'(5) by (auto simp: session_shares_def)
  have "\<forall>shares\<in>set released \<union> {session_shares N (slot_secret N d v) (cns_index coord) sessions}.
      \<exists>us. set us \<subseteq> set (uses @ ?new) \<and> shares = map (use_share N (slot_secret N d v0)) us"
  proof (rule ballI, elim UnE)
    fix shares assume "shares \<in> set released"
    from old [OF this] show "\<exists>us. set us \<subseteq> set (uses @ ?new) \<and>
        shares = map (use_share N (slot_secret N d v0)) us" by auto
  next
    fix shares assume "shares \<in> {session_shares N (slot_secret N d v) (cns_index coord) sessions}"
    with shares_new show "\<exists>us. set us \<subseteq> set (uses @ ?new) \<and>
        shares = map (use_share N (slot_secret N d v0)) us" by (intro exI [of _ ?new]) simp
  qed
  moreover have "\<forall>u\<in>set (uses @ ?new). fst u < slot_index v'"
    using newi inv'(4) F by fastforce
  moreover have "\<forall>i \<ge> slot_index v'. slot_secret N d v' i = slot_secret N d v0 i"
    using F inv'(5) by simp
  ultimately show ?thesis
    unfolding run_inv_def using inv'(1,2) dist F by simp
qed

subsection \<open>Stores that survive power loss\<close>

locale crash_slot_store = nonce_slot_store S for S :: "'s slot_ops" +
  fixes crash :: "secret_nonce_slot \<Rightarrow> 's \<Rightarrow> 's \<Rightarrow> bool"
  assumes crash_read: "crash v s s' \<Longrightarrow> read_slot S s' \<in> {read_slot S s, None, Some v}"
begin

lemma sign_slot_not_written:
  assumes "sign_slot S N d bs session_id coord last_used sessions s = (s', r)"
    and "\<not> (\<exists>v v'. read_slot S s = Some v \<and> cns_stream_id coord = slot_stream_id v \<and>
      with_signatures N d v session_id coord last_used sessions = Ok v' \<and> write_slot S v' s = Some s')"
  shows "s' = s" "released_shares r = []" "signed_uses S N d session_id coord last_used sessions s = []"
proof -
  show "s' = s" "released_shares r = []"
    using sign_slot_cases [OF assms(1)] assms(2)
    by (metis released_shares.elims)+
  show "signed_uses S N d session_id coord last_used sessions s = []"
    using assms
    by (auto simp: signed_uses_def sign_slot_def split: option.splits result.splits if_splits)
qed

definition store_inv ::
  "nonce_ops \<Rightarrow> seed_fun \<Rightarrow> secret_nonce_slot \<Rightarrow> 's \<Rightarrow> nonce_use list \<Rightarrow> sig_share list list \<Rightarrow> bool" where
  "store_inv N d v0 s uses released \<longleftrightarrow>
     (case read_slot S s of
        None \<Rightarrow> (\<exists>v. run_inv N d v0 v uses released)
      | Some v \<Rightarrow> run_inv N d v0 v uses released)"

lemma run_inv_with_signatures:
  assumes "run_inv N d v0 v uses released" "cns_index coord \<le> u32_max"
    and "with_signatures N d v session_id coord last_used sessions = Ok v'"
  shows "run_inv N d v0 v'
    (uses @ (if is_cached v session_id then [] else fresh_uses (cns_index coord) sessions)) released"
  using assms run_inv_fresh [OF assms(1) _ assms(2), of session_id last_used sessions v']
  by (simp add: with_signatures_def split: if_splits)

lemma run_inv_release:
  assumes "run_inv N d v0 v uses released"
    and "shares = [] \<or> (\<exists>ss. slot_signing_state v = Some ss \<and> shares = [ss_signature_shares ss])"
  shows "run_inv N d v0 v uses (released @ shares)"
  using assms unfolding run_inv_def by auto

lemma slot_run_inv:
  "slot_run S crash N d v0 s uses released \<Longrightarrow> store_inv N d v0 s uses released"
proof (induction rule: slot_run.induct)
  case (slot_start s)
  then show ?case by (simp add: store_inv_def run_inv_def)
next
  case (slot_sign s uses released coord bs session_id last_used sessions s' r)
  show ?case
  proof (cases "\<exists>v v'. read_slot S s = Some v \<and> cns_stream_id coord = slot_stream_id v \<and>
      with_signatures N d v session_id coord last_used sessions = Ok v' \<and> write_slot S v' s = Some s'")
    case False
    with sign_slot_not_written [OF slot_sign.hyps(3)] slot_sign.IH show ?thesis by auto
  next
    case True
    then obtain v v' where v: "read_slot S s = Some v" "cns_stream_id coord = slot_stream_id v"
        "with_signatures N d v session_id coord last_used sessions = Ok v'"
        "write_slot S v' s = Some s'" by blast
    have rd: "read_slot S s' = Some v'" by (rule read_after_write [OF v(4)])
    have "run_inv N d v0 v uses released" using slot_sign.IH v(1) by (simp add: store_inv_def)
    from run_inv_with_signatures [OF this slot_sign.hyps(2) v(3)] v
    have "run_inv N d v0 v' (uses @ signed_uses S N d session_id coord last_used sessions s) released"
      by (simp add: signed_uses_def split: if_splits)
    moreover have "released_shares r = [] \<or>
        (\<exists>ss. slot_signing_state v' = Some ss \<and> released_shares r = [ss_signature_shares ss])"
      using sign_slot_cases [OF slot_sign.hyps(3)] rd
      by (cases r rule: released_shares.cases) (simp_all, metis option.inject)
    ultimately show ?thesis using run_inv_release rd by (simp add: store_inv_def)
  qed
next
  case (slot_crash s uses released coord v session_id last_used sessions v' s')
  have inv: "run_inv N d v0 v uses released"
    using slot_crash.IH slot_crash.hyps(3) by (simp add: store_inv_def)
  from run_inv_with_signatures [OF inv slot_crash.hyps(2,5)] inv
    crash_read [OF slot_crash.hyps(6)] slot_crash.hyps(3)
  show ?case by (auto simp: store_inv_def with_signatures_def slot_crash.hyps(5) split: if_splits)
qed

lemma slot_run_no_reuse:
  assumes "slot_run S crash N d v0 s uses released"
  shows "distinct (map fst uses)"
    and "\<And>shares. shares \<in> set released \<Longrightarrow>
      \<exists>us. set us \<subseteq> set uses \<and> shares = map (use_share N (slot_secret N d v0)) us"
    and "\<And>v u. read_slot S s = Some v \<Longrightarrow> u \<in> set uses \<Longrightarrow> fst u < slot_index v"
proof -
  have inv: "store_inv N d v0 s uses released" by (rule slot_run_inv [OF assms])
  then obtain v where v: "run_inv N d v0 v uses released"
    by (auto simp: store_inv_def split: option.splits)
  show "distinct (map fst uses)" using v by (simp add: run_inv_def)
  show "\<exists>us. set us \<subseteq> set uses \<and> shares = map (use_share N (slot_secret N d v0)) us"
    if "shares \<in> set released" for shares
    using v that unfolding run_inv_def by blast
  show "fst u < slot_index v" if "read_slot S s = Some v" "u \<in> set uses" for v u
    using inv that by (simp add: store_inv_def run_inv_def)
qed

end

text \<open>Slots in memory lose no power; on flash a write is interrupted at any of its stages. What the
  decoder makes of the torn value is nothing, or the value where only trailing bytes that
  erased flash already holds were missing.\<close>

definition memory_crash :: "secret_nonce_slot \<Rightarrow> memory_nonce_slot \<Rightarrow> memory_nonce_slot \<Rightarrow> bool" where
  "memory_crash v s s' = False"

definition nonce_ab_crash :: "secret_nonce_slot \<Rightarrow> nonce_ab_slot \<Rightarrow> nonce_ab_slot \<Rightarrow> bool" where
  "nonce_ab_crash v s s' \<longleftrightarrow>
     ab_ok s \<and> (s' \<in> set (ab_write_stages None (V0 v) s) \<or> s' \<in> set (ab_write_stages (Some (V0 v)) (V0 v) s))"

interpretation memc: crash_slot_store memory_slot_ops memory_crash
  by unfold_locales (simp add: memory_crash_def)

interpretation absc: crash_slot_store nonce_ab_slot_ops nonce_ab_crash
proof unfold_locales
  fix v s s' assume "nonce_ab_crash v s s'"
  then have "ab_read s' \<in> {ab_read s, None, Some (V0 v)}"
    unfolding nonce_ab_crash_def using ab_crash_read [of s s'] by blast
  then show "read_slot nonce_ab_slot_ops s' \<in> {read_slot nonce_ab_slot_ops s, None, Some v}"
    by (auto simp: read_slot_def nonce_ab_slot_ops_def)
qed

subsection \<open>No nonce is used twice\<close>


definition demo_share :: paired_share where
  "demo_share = \<lparr>ps_share = \<lparr>sh_index = 1, sh_scalar = [1]\<rparr>, ps_public_key = [1]\<rparr>"

definition demo_nonce_ops :: nonce_ops where
  "demo_nonce_ops = \<lparr>chacha_keystream = (\<lambda>seed iv n. replicate n 0),
     secret_nonce_from_bytes = Some, nonce_public = (\<lambda>sn. take 2 sn),
     party_sign = (\<lambda>(share, session) sn. ps_public_key share @ take 1 sn)\<rparr>"

definition demo_slot :: secret_nonce_slot where
  "demo_slot = \<lparr>slot_index = 0, slot_stream_id = NonceStreamId [1], slot_material = [7],
     slot_last_used = 0, slot_signing_state = None\<rparr>"

definition demo_coord :: coord_nonce_state where
  "demo_coord = \<lparr>cns_stream_id = NonceStreamId [1], cns_index = 1, cns_remaining = 9\<rparr>"

definition demo_flash :: nonce_ab_slot where
  "demo_flash = \<lparr>ab_a = Stored 0 (V0 demo_slot), ab_b = Stored 0 (V0 demo_slot)\<rparr>"


subsection \<open>One signing call\<close>

text \<open>C2. A signing call that returns shares made each of them with the secret nonce at the
  coordinator's index plus its position, and left the slot just past the last one; a repeated
  session gets the stored shares again and moves nothing.\<close>

theorem sign_slot_Ok:
  assumes "sign_slot nonce_ab_slot_ops N d bs session_id coord last_used sessions s = (s', Ok (shares, job))"
    and "read_slot nonce_ab_slot_ops s = Some v" and "cns_index coord \<le> u32_max"
  shows "cns_stream_id coord = slot_stream_id v \<and>
    (\<exists>v'. read_slot nonce_ab_slot_ops s' = Some v' \<and>
      slot_signing_state v' = Some \<lparr>ss_session_id = session_id, ss_signature_shares = shares\<rparr> \<and>
      (if is_cached v session_id then v' = v
       else slot_index v \<le> cns_index coord \<and> slot_stream_id v' = slot_stream_id v \<and>
         slot_index v' = cns_index coord + length shares \<and>
         shares = session_shares N (slot_secret N d v) (cns_index coord) sessions))"
proof -
  obtain w v' where w: "read_slot nonce_ab_slot_ops s = Some w" "cns_stream_id coord = slot_stream_id w"
      "read_slot nonce_ab_slot_ops s' = Some v'"
      "with_signatures N d w session_id coord last_used sessions = Ok v'"
      "\<exists>ss. slot_signing_state v' = Some ss \<and> shares = ss_signature_shares ss"
    using abs.sign_slot_cases [OF assms(1)] by metis
  have "w = v" using w(1) assms(2) by simp
  show ?thesis
  proof (cases "is_cached v session_id")
    case True
    then have "v' = v" using w(4) by (simp add: with_signatures_def \<open>w = v\<close>)
    moreover obtain ss where "slot_signing_state v = Some ss" "ss_session_id ss = session_id"
      using True by (auto simp: is_cached_def split: option.splits)
    ultimately show ?thesis using w True by (cases ss) (auto simp: \<open>w = v\<close>)
  next
    case False
    then have "sign_fresh N d v session_id coord last_used sessions = Ok v'"
      using w(4) by (simp add: with_signatures_def \<open>w = v\<close>)
    from sign_fresh_Ok [OF this assms(3)] w False show ?thesis
      by (auto simp: \<open>w = v\<close> session_shares_def)
  qed
qed

lemmas demo_defs = demo_flash_def demo_slot_def demo_coord_def nonce_ab_slot_ops_def
  read_slot_def write_slot_def ab_read_def ab_write_def ab_next_def current_slot_and_index_def
  ab_image_def ab_set_def is_cached_def with_signatures_def sign_fresh_def slot_iter_def iter_next_def
  ratchet_def demo_nonce_ops_def demo_share_def not_u32_max_def sign_slot_def reconcile_def nonce_task_def

theorem sign_slot_Ok_witness:
  "case sign_slot nonce_ab_slot_ops demo_nonce_ops (\<lambda>sid i m. m) 4 (SignSessionId [5]) demo_coord 3
      [(demo_share, [2]), (demo_share, [3])] demo_flash of
    (s', Ok (shares, job)) \<Rightarrow> shares = [[1, 0], [1, 0]] \<and>
      (\<exists>v'. read_slot nonce_ab_slot_ops s' = Some v' \<and> slot_index v' = 3)
  | _ \<Rightarrow> False"
proof -
  obtain s' shares job where r: "sign_slot nonce_ab_slot_ops demo_nonce_ops (\<lambda>sid i m. m) 4
      (SignSessionId [5]) demo_coord 3 [(demo_share, [2]), (demo_share, [3])] demo_flash = (s', Ok (shares, job))"
    and sh: "shares = [[1, 0], [1, 0]]"
    by (simp add: demo_defs u32_simps numeral_2_eq_2 Let_def)
  have rd: "read_slot nonce_ab_slot_ops demo_flash = Some demo_slot"
    by (simp add: demo_defs u32_simps)
  from sign_slot_Ok [OF r rd] show ?thesis
    unfolding r using sh by (auto simp: demo_coord_def u32_max_def demo_slot_def is_cached_def)
qed

text \<open>A fresh session that asks for an index the slot is past is refused with that index, and
  nothing on flash changes.\<close>

theorem sign_slot_refuses_used:
  assumes "read_slot S s = Some v" "cns_stream_id coord = slot_stream_id v"
    and "\<not> is_cached v session_id" "cns_index coord < slot_index v"
  shows "sign_slot S N d bs session_id coord last_used sessions s =
    (s, Err (IndexUsed (slot_index v) (cns_index coord)))"
  using assms by (simp add: sign_slot_def with_signatures_def sign_fresh_def)

theorem sign_slot_refuses_used_witness:
  "sign_slot memory_slot_ops demo_nonce_ops (\<lambda>sid i m. m) 4 (SignSessionId [5]) demo_coord 3 [(demo_share, [2])]
     \<lparr>mem_inner = Some (V0 (demo_slot\<lparr>slot_index := 2\<rparr>))\<rparr> =
   (\<lparr>mem_inner = Some (V0 (demo_slot\<lparr>slot_index := 2\<rparr>))\<rparr>, Err (IndexUsed 2 1))"
  by (subst sign_slot_refuses_used [where v = "demo_slot\<lparr>slot_index := 2\<rparr>"])
    (simp_all add: memory_slot_ops_def read_slot_def demo_slot_def demo_coord_def is_cached_def)

subsection \<open>What is published\<close>

lemma nonce_task_Ok:
  assumes "nonce_task v start n = Ok j"
  shows "let from = (case start of None \<Rightarrow> slot_index v | Some i \<Rightarrow> i) in
    slot_index v \<le> from \<and> from + n < u32_max \<and>
    j = \<lparr>job_stream_id = slot_stream_id v, job_seed_material = slot_material v,
      job_index = slot_index v, job_target_index = from + n, job_nonces = [], job_skip_to = from\<rparr>"
  using assms
  by (auto simp: nonce_task_def Let_def result_iff u32_saturating_add_def split: if_splits option.splits)

text \<open>A nonce job made from a slot runs to its end, and the segment it gives holds exactly the
  public nonces of the slot's stream at the requested indices, so a later signature at one of
  these indices uses the secret of the nonce published for it.\<close>

theorem nonce_task_publishes_stream:
  assumes "nonce_task v start n = (Ok j :: ('e, nonce_job) result)"
    and "\<And>b. secret_nonce_from_bytes N b \<noteq> None"
  shows "\<exists>j' seg. job_run N d j = (Ok j' :: ('e, nonce_job) result) \<and>
    job_into_segment j' = (Ok seg :: ('e, nonce_segment) result) \<and>
    seg_stream_id seg = slot_stream_id v \<and>
    seg_index seg = (case start of None \<Rightarrow> slot_index v | Some i \<Rightarrow> i) \<and>
    length (seg_nonces seg) = n \<and>
    (\<forall>k < n. seg_nonces seg ! k = nonce_public N (the (slot_secret N d v (seg_index seg + k))))"
proof -
  let ?from = "case start of None \<Rightarrow> slot_index v | Some i \<Rightarrow> i"
  have le: "slot_index v \<le> ?from"
    and j: "j = \<lparr>job_stream_id = slot_stream_id v, job_seed_material = slot_material v,
      job_index = slot_index v, job_target_index = ?from + n, job_nonces = [], job_skip_to = ?from\<rparr>"
    using nonce_task_Ok [OF assms(1)] by (simp_all add: Let_def)
  obtain j' where run: "job_run N d j = (Ok j' :: ('e, nonce_job) result)"
    using job_run_total [OF assms(2)] by blast
  have "job_index j' = ?from + n \<and> job_target_index j' = ?from + n \<and>
      job_stream_id j' = slot_stream_id v \<and> job_skip_to j' = ?from \<and>
      job_nonces j' = published N d (slot_stream_id v) (slot_index v) (slot_material v) ?from (?from + n)"
    using job_run_Ok [OF run] le unfolding j by (simp add: max_absorb1)
  then have "job_into_segment j' = (Ok \<lparr>seg_stream_id = slot_stream_id v,
      seg_nonces = published N d (slot_stream_id v) (slot_index v) (slot_material v) ?from (?from + n),
      seg_index = ?from\<rparr> :: ('e, nonce_segment) result)"
    by (simp add: job_into_segment_def)
  with run show ?thesis
    by (simp add: published_def slot_secret_def)
qed

theorem nonce_task_publishes_stream_witness:
  "\<exists>j' seg. job_run demo_nonce_ops (\<lambda>sid i m. m) \<lparr>job_stream_id = NonceStreamId [1],
      job_seed_material = [7], job_index = 0, job_target_index = 5, job_nonces = [], job_skip_to = 2\<rparr>
      = (Ok j' :: (unit, nonce_job) result) \<and>
    job_into_segment j' = (Ok seg :: (unit, nonce_segment) result) \<and> seg_index seg = 2 \<and>
    length (seg_nonces seg) = 3"
proof -
  have "nonce_task demo_slot (Some 2) 3 = (Ok \<lparr>job_stream_id = NonceStreamId [1],
      job_seed_material = [7], job_index = 0, job_target_index = 5, job_nonces = [], job_skip_to = 2\<rparr>
      :: (unit, nonce_job) result)"
    by (simp add: nonce_task_def demo_slot_def u32_simps)
  from nonce_task_publishes_stream [OF this, of demo_nonce_ops "\<lambda>sid i m. m"]
  show ?thesis by (fastforce simp: demo_nonce_ops_def)
qed

end
