(* ===== verification/NonceTable.thy ===== *)
theory NonceTable
  imports NonceSafety
begin

section \<open>Batches of nonce jobs and the table of nonce slots\<close>

text \<open>
  Lemmas on the rest of \<^verbatim>\<open>device_nonces.rs\<close>: a batch runs every job of it to its end, the
  replies to a coordinator's view of a stream, and the table of slots, which holds at most
  one slot per stream, touches no other slot when it signs, and gives a stream that is not
  there an empty slot or the least recently used one.
\<close>

subsection \<open>Batches\<close>

lemma batch_step:
  assumes "batch_current b < length (batch_tasks b)"
    and "batch_do_work N d b = (Ok (b', fin) :: ('e, nonce_job_batch \<times> bool) result)"
  obtains task tfin where
    "job_do_work N d (batch_tasks b ! batch_current b) = (Ok (task, tfin) :: ('e, nonce_job \<times> bool) result)"
    "b' = b\<lparr>batch_tasks := (batch_tasks b)[batch_current b := task],
            batch_current := (if tfin then batch_current b + 1 else batch_current b)\<rparr>"
    "fin = (length (batch_tasks b) \<le> batch_current b')"
proof -
  obtain p where p: "job_do_work N d (batch_tasks b ! batch_current b) = (Ok p :: ('e, nonce_job \<times> bool) result)"
    using assms by (auto simp: batch_do_work_def and_then_Ok_iff)
  obtain task tfin where "p = (task, tfin)" by (cases p)
  with p that [of task tfin] assms show thesis
    by (auto simp: batch_do_work_def Let_def)
qed

lemma batch_run_Ok:
  "batch_run N d b = (Ok b' :: ('e, nonce_job_batch) result) \<Longrightarrow>
   batch_current b \<le> length (batch_tasks b) \<Longrightarrow>
   batch_current b' = length (batch_tasks b') \<and> length (batch_tasks b') = length (batch_tasks b) \<and>
   (\<forall>i < batch_current b. batch_tasks b' ! i = batch_tasks b ! i) \<and>
   (\<forall>i < length (batch_tasks b). batch_current b \<le> i \<longrightarrow>
      job_run N d (batch_tasks b ! i) = (Ok (batch_tasks b' ! i) :: ('e, nonce_job) result))"
proof (induction N d b rule: batch_run.induct [where 'a = 'e])
  case (1 N d b)
  show ?case
  proof (cases "batch_current b < length (batch_tasks b)")
    case False
    then have "batch_do_work N d b = (Ok (b, True) :: ('e, nonce_job_batch \<times> bool) result)"
      by (simp add: batch_do_work_def)
    with "1.prems" False show ?thesis by (simp add: batch_run.simps [of N d b])
  next
    case True
    obtain p where p: "batch_do_work N d b = (Ok p :: ('e, nonce_job_batch \<times> bool) result)"
      and rp: "(case p of (b1, fin) \<Rightarrow> if fin then Ok b1 else batch_run N d b1) =
        (Ok b' :: ('e, nonce_job_batch) result)"
      using "1.prems"(1) unfolding batch_run.simps [of N d b] and_then_Ok_iff by blast
    obtain b1 fin where bf: "p = (b1, fin)" by (cases p)
    obtain task tfin where
        w: "job_do_work N d (batch_tasks b ! batch_current b) = (Ok (task, tfin) :: ('e, nonce_job \<times> bool) result)"
      and b1: "b1 = b\<lparr>batch_tasks := (batch_tasks b)[batch_current b := task],
            batch_current := (if tfin then batch_current b + 1 else batch_current b)\<rparr>"
      and fin: "fin = (length (batch_tasks b) \<le> batch_current b1)"
      using batch_step [OF True p [unfolded bf]] by metis
    have jr: "job_run N d (batch_tasks b ! batch_current b) =
        (if tfin then Ok task else job_run N d task :: ('e, nonce_job) result)"
      using w by (simp add: job_run.simps [of N d "batch_tasks b ! batch_current b"])
    show ?thesis
    proof (cases fin)
      case f: True
      then have t: "tfin" "batch_current b + 1 = length (batch_tasks b)" "b' = b1"
        using fin True rp by (auto simp: b1 bf split: if_splits)
      have "i = batch_current b" if "i < length (batch_tasks b)" "batch_current b \<le> i" for i
        using that t by linarith
      then have "job_run N d (batch_tasks b ! i) = (Ok (batch_tasks b' ! i) :: ('e, nonce_job) result)"
        if "i < length (batch_tasks b)" "batch_current b \<le> i" for i
        using that jr t by (metis b1 nonce_job_batch.select_convs(1) nonce_job_batch.surjective
            nonce_job_batch.update_convs(1,2) nth_list_update_eq)
      with t True show ?thesis by (auto simp: b1)
    next
      case False
      then have run: "batch_run N d b1 = (Ok b' :: ('e, nonce_job_batch) result)"
        using rp by (simp add: bf)
      have le: "batch_current b1 \<le> length (batch_tasks b1)" using True by (simp add: b1)
      note IH = "1.IH" [OF p bf [symmetric] False run le]
      show ?thesis
      proof (intro conjI allI impI)
        show "batch_current b' = length (batch_tasks b')"
          "length (batch_tasks b') = length (batch_tasks b)"
          using IH by (simp_all add: b1)
        show "batch_tasks b' ! i = batch_tasks b ! i" if "i < batch_current b" for i
          using IH that by (auto simp: b1 split: if_splits)
        show "job_run N d (batch_tasks b ! i) = (Ok (batch_tasks b' ! i) :: ('e, nonce_job) result)"
          if "i < length (batch_tasks b)" "batch_current b \<le> i" for i
          using IH that jr True by (cases "i = batch_current b"; cases tfin) (auto simp: b1)
      qed
    qed
  qed
qed

lemma batch_run_total:
  "(\<And>b. secret_nonce_from_bytes N b \<noteq> None) \<Longrightarrow>
   \<exists>b'. batch_run N d b = (Ok b' :: ('e, nonce_job_batch) result)"
proof (induction N d b rule: batch_run.induct [where 'a = 'e])
  case (1 N d b)
  obtain j1 jfin where "job_do_work N d (batch_tasks b ! batch_current b) =
      (Ok (j1, jfin) :: ('e, nonce_job \<times> bool) result)"
    using job_do_work_total [OF "1.prems"] by blast
  then have "\<exists>p. batch_do_work N d b = (Ok p :: ('e, nonce_job_batch \<times> bool) result)"
    by (auto simp: batch_do_work_def)
  then obtain b1 fin where w: "batch_do_work N d b = (Ok (b1, fin) :: ('e, nonce_job_batch \<times> bool) result)"
    by fast
  show ?case
  proof (cases fin)
    case False
    from "1.IH" [OF w refl False "1.prems"] w False show ?thesis
      by (simp add: batch_run.simps [of N d b])
  qed (use w in \<open>simp add: batch_run.simps [of N d b]\<close>)
qed



subsection \<open>Reconciling with the coordinator\<close>

text \<open>A coordinator whose view is not past the slot's is brought back to the slot's index with
  a fresh batch or, when it holds a full batch from the slot's own index, left alone; one
  ahead of the slot with a full batch is sent exactly the nonces from the slot's index up to its own.\<close>

theorem reconcile_spec:
  assumes "read_slot S s = Some v"
  shows "(reconcile S s state bs :: ('e, nonce_job option) result) =
    (if cns_index state = slot_index v \<and> bs \<le> cns_remaining state then Ok None
     else let n = (if slot_index v < cns_index state \<and> bs \<le> cns_remaining state
                   then cns_index state - slot_index v else bs)
          in if u32_max < n then Panic ''length not too big''
             else if u32_max \<le> slot_index v + n then Panic ''cannot have an index at u32::MAX''
             else Ok (Some \<lparr>job_stream_id = slot_stream_id v, job_seed_material = slot_material v,
               job_index = slot_index v, job_target_index = slot_index v + n, job_nonces = [],
               job_skip_to = slot_index v\<rparr>))"
  using assms
  by (auto simp: reconcile_def nonce_task_def Let_def u32_try_from_def u32_saturating_add_def
      simp del: u32_try_from_Some)

theorem reconcile_spec_witness:
  "(reconcile memory_slot_ops \<lparr>mem_inner = Some (V0 demo_slot)\<rparr> demo_coord 4 :: (unit, nonce_job option) result) =
   Ok (Some \<lparr>job_stream_id = NonceStreamId [1], job_seed_material = [7], job_index = 0,
     job_target_index = 1, job_nonces = [], job_skip_to = 0\<rparr>)"
  by (subst reconcile_spec [where v = demo_slot])
    (simp_all add: memory_slot_ops_def read_slot_def demo_slot_def demo_coord_def u32_max_def)

subsection \<open>The table\<close>

text \<open>At most one slot per stream, and no used slot behind an empty one.\<close>

definition table_wf :: "'s slot_ops \<Rightarrow> 's ab_slots \<Rightarrow> bool" where
  "table_wf S ab \<longleftrightarrow>
     (\<forall>i < length (ab_slots ab). \<forall>j < length (ab_slots ab).
        slot_stream_id_of S (ab_slots ab ! i) \<noteq> None \<longrightarrow>
        slot_stream_id_of S (ab_slots ab ! i) = slot_stream_id_of S (ab_slots ab ! j) \<longrightarrow> i = j) \<and>
     (\<forall>i j. i < j \<longrightarrow> j < length (ab_slots ab) \<longrightarrow> read_slot S (ab_slots ab ! i) = None \<longrightarrow>
        read_slot S (ab_slots ab ! j) = None)"

text \<open>What a scan starting at position \<open>i\<close> says of the slots it looks at.\<close>

definition scan_result ::
  "'s slot_ops \<Rightarrow> nonce_stream_id \<Rightarrow> 's list \<Rightarrow> nat \<Rightarrow> nat \<Rightarrow> nat \<Rightarrow> slot_search \<Rightarrow> bool" where
  "scan_result S sid ss i lowest idx r =
     (case r of
        Found k \<Rightarrow> \<exists>m < length ss. k = i + m \<and> slot_stream_id_of S (ss ! m) = Some sid
      | Vacant k \<Rightarrow> \<exists>m < length ss. k = i + m \<and> read_slot S (ss ! m) = None \<and>
          (\<forall>n < m. \<exists>v. read_slot S (ss ! n) = Some v \<and> slot_stream_id v \<noteq> sid)
      | Evict k \<Rightarrow>
          (\<forall>s\<in>set ss. \<exists>v. read_slot S s = Some v \<and> slot_stream_id v \<noteq> sid) \<and>
          ((k = idx \<and> (\<forall>s\<in>set ss. lowest \<le> slot_last_used (the (read_slot S s)))) \<or>
           (\<exists>m < length ss. k = i + m \<and> slot_last_used (the (read_slot S (ss ! m))) < lowest \<and>
              (\<forall>s\<in>set ss. slot_last_used (the (read_slot S (ss ! m))) \<le> slot_last_used (the (read_slot S s))))))"

lemma scan_result_Cons:
  assumes rd: "read_slot S s = Some v" and ne: "slot_stream_id v \<noteq> sid"
    and r: "scan_result S sid ss (Suc i) (if slot_last_used v < lowest then slot_last_used v else lowest)
      (if slot_last_used v < lowest then i else idx) r"
  shows "scan_result S sid (s # ss) i lowest idx r"
proof (cases r)
  case (Found k)
  then obtain m where "m < length ss" "k = Suc i + m" "slot_stream_id_of S (ss ! m) = Some sid"
    using r by (auto simp: scan_result_def)
  then show ?thesis using Found by (auto simp: scan_result_def intro!: exI [of _ "Suc m"])
next
  case (Vacant k)
  then obtain m where m: "m < length ss" "k = Suc i + m" "read_slot S (ss ! m) = None"
      "\<And>n. n < m \<Longrightarrow> \<exists>v. read_slot S (ss ! n) = Some v \<and> slot_stream_id v \<noteq> sid"
    using r by (auto simp: scan_result_def)
  have "\<exists>v. read_slot S ((s # ss) ! n) = Some v \<and> slot_stream_id v \<noteq> sid" if "n < Suc m" for n
    using that m(4) rd ne by (cases n) auto
  then show ?thesis using Vacant m(1-3) by (auto simp: scan_result_def intro!: exI [of _ "Suc m"])
next
  case (Evict k)
  let ?low = "if slot_last_used v < lowest then slot_last_used v else lowest"
  have all: "\<forall>t\<in>set (s # ss). \<exists>v. read_slot S t = Some v \<and> slot_stream_id v \<noteq> sid"
    using r Evict rd ne by (auto simp: scan_result_def)
  consider "k = (if slot_last_used v < lowest then i else idx)"
      "\<forall>t\<in>set ss. ?low \<le> slot_last_used (the (read_slot S t))"
    | m where "m < length ss" "k = Suc i + m" "slot_last_used (the (read_slot S (ss ! m))) < ?low"
      "\<forall>t\<in>set ss. slot_last_used (the (read_slot S (ss ! m))) \<le> slot_last_used (the (read_slot S t))"
    using r Evict unfolding scan_result_def by auto
  then show ?thesis
  proof cases
    case 1
    show ?thesis
    proof (cases "slot_last_used v < lowest")
      case True
      then have "k = i + 0 \<and> slot_last_used (the (read_slot S ((s # ss) ! 0))) < lowest \<and>
          (\<forall>t\<in>set (s # ss). slot_last_used (the (read_slot S ((s # ss) ! 0))) \<le> slot_last_used (the (read_slot S t)))"
        using 1 rd by simp
      then show ?thesis using all unfolding scan_result_def Evict slot_search.case by fastforce
    next
      case False
      then show ?thesis using 1 rd all Evict by (simp add: scan_result_def)
    qed
  next
    case 2
    then have "Suc m < length (s # ss) \<and> k = i + Suc m \<and>
        slot_last_used (the (read_slot S ((s # ss) ! Suc m))) < lowest \<and>
        (\<forall>t\<in>set (s # ss). slot_last_used (the (read_slot S ((s # ss) ! Suc m))) \<le> slot_last_used (the (read_slot S t)))"
      using rd by (auto split: if_splits)
    then show ?thesis using all unfolding scan_result_def Evict slot_search.case by blast
  qed
qed

lemma scan_slots_result: "scan_result S sid ss i lowest idx (scan_slots S sid ss i lowest idx)"
proof (induction ss arbitrary: i lowest idx)
  case Nil
  then show ?case by (simp add: scan_result_def)
next
  case (Cons s ss)
  show ?case
  proof (cases "read_slot S s")
    case None
    then show ?thesis by (simp add: scan_result_def)
  next
    case (Some v)
    show ?thesis
    proof (cases "slot_stream_id v = sid")
      case True
      then show ?thesis using Some by (auto simp: scan_result_def slot_stream_id_of_def)
    next
      case False
      show ?thesis
        using Cons.IH [of "Suc i" "if slot_last_used v < lowest then slot_last_used v else lowest"
            "if slot_last_used v < lowest then i else idx"]
        by (intro scan_result_Cons [OF Some False]) (simp add: Some False split: if_splits)
    qed
  qed
qed

lemma scan_slots_Found:
  "scan_slots S sid ss 0 lowest idx = Found k \<Longrightarrow> k < length ss \<and> slot_stream_id_of S (ss ! k) = Some sid"
  using scan_slots_result [of S sid ss 0 lowest idx] by (auto simp: scan_result_def)

lemma slot_stream_id_of_eq: "slot_stream_id_of S s = Some sid \<longleftrightarrow> (\<exists>v. read_slot S s = Some v \<and> slot_stream_id v = sid)"
  by (auto simp: slot_stream_id_of_def)

lemma scan_slots_Evict:
  assumes s: "scan_slots S sid ss 0 u32_max 0 = Evict k" and "j < length ss"
  shows "read_slot S (ss ! j) \<noteq> None \<and> slot_stream_id_of S (ss ! j) \<noteq> Some sid"
proof -
  have "\<forall>s\<in>set ss. \<exists>v. read_slot S s = Some v \<and> slot_stream_id v \<noteq> sid"
    using scan_slots_result [of S sid ss 0 u32_max 0] unfolding s scan_result_def by simp
  then have "\<exists>v. read_slot S (ss ! j) = Some v \<and> slot_stream_id v \<noteq> sid"
    using nth_mem [OF assms(2)] by blast
  then show ?thesis by (auto simp: slot_stream_id_of_def)
qed

lemma scan_slots_Vacant:
  assumes s: "scan_slots S sid ss 0 u32_max 0 = Vacant k"
  shows "k < length ss \<and> read_slot S (ss ! k) = None \<and>
    (\<forall>j < k. \<exists>v. read_slot S (ss ! j) = Some v \<and> slot_stream_id v \<noteq> sid)"
  using scan_slots_result [of S sid ss 0 u32_max 0] unfolding s scan_result_def by auto

context nonce_slot_store
begin

lemma ab_initialize_step:
  assumes "ab_initialize S sid i last_used rng ab = (Ok (ab', k), rng')"
  shows "i < length (ab_slots ab) \<and> (\<exists>s. fst (initialize_slot S sid last_used rng (ab_slots ab ! i)) = Some s \<and>
    ab' = ab\<lparr>ab_slots := (ab_slots ab)[i := s]\<rparr> \<and> k = i)"
proof (cases "i < length (ab_slots ab)")
  case True
  then show ?thesis
    using assms by (cases "fst (initialize_slot S sid last_used rng (ab_slots ab ! i))")
      (auto simp: ab_initialize_def case_prod_beta)
next
  case False
  then show ?thesis using assms by (simp add: ab_initialize_def)
qed

lemma ab_initialize_Ok:
  assumes "ab_initialize S sid i last_used rng ab = (Ok (ab', k), rng')"
  shows "k = i \<and> i < length (ab_slots ab) \<and> ab_last_used ab' = ab_last_used ab \<and>
    (\<exists>s. ab_slots ab' = (ab_slots ab)[i := s] \<and>
      read_slot S s = Some \<lparr>slot_index = 0, slot_stream_id = sid, slot_material = rng 0,
        slot_last_used = last_used, slot_signing_state = None\<rparr>)"
proof -
  obtain s where i: "i < length (ab_slots ab)" and s: "fst (initialize_slot S sid last_used rng (ab_slots ab ! i)) = Some s"
    "ab' = ab\<lparr>ab_slots := (ab_slots ab)[i := s]\<rparr>" "k = i" using ab_initialize_step [OF assms] by blast
  note rd = initialize_slot_reads [OF s(1)]
  have "ab_slots ab' = (ab_slots ab)[i := s]" "ab_last_used ab' = ab_last_used ab" by (simp_all add: s(2))
  with i s(3) rd show ?thesis by blast
qed

lemma table_wf_update:
  assumes wf: "table_wf S ab" and i: "i < length (ab_slots ab)" and s: "slot_stream_id_of S s = Some sid"
    and other: "\<And>j. j < length (ab_slots ab) \<Longrightarrow> j \<noteq> i \<Longrightarrow> slot_stream_id_of S (ab_slots ab ! j) \<noteq> Some sid"
    and used: "\<And>j. j < i \<Longrightarrow> read_slot S (ab_slots ab ! j) \<noteq> None"
    and ab': "ab_slots ab' = (ab_slots ab)[i := s]"
  shows "table_wf S ab'"
  unfolding table_wf_def
proof (intro conjI allI impI)
  fix a b
  assume a: "a < length (ab_slots ab')" and b: "b < length (ab_slots ab')"
    and some: "slot_stream_id_of S (ab_slots ab' ! a) \<noteq> None"
    and eq: "slot_stream_id_of S (ab_slots ab' ! a) = slot_stream_id_of S (ab_slots ab' ! b)"
  show "a = b"
  proof (cases "a = i \<or> b = i")
    case True
    then show ?thesis using a b eq s other unfolding ab' by (metis length_list_update nth_list_update)
  next
    case False
    then show ?thesis using a b some eq wf unfolding ab' table_wf_def by simp
  qed
next
  fix a b
  assume a: "a < b" and b: "b < length (ab_slots ab')" and e: "read_slot S (ab_slots ab' ! a) = None"
  have "a \<noteq> i" using e s a b unfolding ab' by (auto simp: slot_stream_id_of_def)
  then have ea: "read_slot S (ab_slots ab ! a) = None" using e unfolding ab' by simp
  then have "b \<noteq> i" using used a by blast
  moreover have "read_slot S (ab_slots ab ! b) = None"
    using wf a b ea unfolding ab' table_wf_def by simp
  ultimately show "read_slot S (ab_slots ab' ! b) = None" unfolding ab' by simp
qed

lemma get_or_create_new:
  assumes wf: "table_wf S ab" and absent: "\<forall>s\<in>set (ab_slots ab). slot_stream_id_of S s \<noteq> Some sid"
    and used: "\<And>j. j < i \<Longrightarrow> read_slot S (ab_slots ab ! j) \<noteq> None"
    and init: "ab_initialize S sid i last_used rng (ab\<lparr>ab_last_used := last_used\<rparr>) = (Ok (ab', k), rng')"
  shows "table_wf S ab' \<and> k = i \<and> k < length (ab_slots ab) \<and> (\<exists>s. ab_slots ab' = (ab_slots ab)[k := s] \<and>
      read_slot S s = Some \<lparr>slot_index = 0, slot_stream_id = sid, slot_material = rng 0,
        slot_last_used = last_used, slot_signing_state = None\<rparr>)"
proof -
  let ?fresh = "\<lparr>slot_index = 0, slot_stream_id = sid, slot_material = rng 0,
        slot_last_used = last_used, slot_signing_state = None\<rparr>"
  obtain s where k: "k = i" "i < length (ab_slots ab)" and ab': "ab_slots ab' = (ab_slots ab)[i := s]"
    and rd: "read_slot S s = Some ?fresh"
    using ab_initialize_Ok [OF init] by auto
  have "table_wf S ab'"
    by (rule table_wf_update [OF wf k(2) _ _ used ab'])
      (use rd absent in \<open>auto simp: slot_stream_id_of_def\<close>)
  with k ab' rd show ?thesis by blast
qed

end

subsection \<open>What the table promises\<close>

text \<open>The bound every \<^verbatim>\<open>u32\<close> of the table has by its type.\<close>

definition last_used_ok :: "'s slot_ops \<Rightarrow> 's ab_slots \<Rightarrow> bool" where
  "last_used_ok S ab \<longleftrightarrow>
     (\<forall>s\<in>set (ab_slots ab). \<forall>v. read_slot S s = Some v \<longrightarrow> slot_last_used v \<le> u32_max)"

text \<open>Looking up a stream in the table keeps one slot per stream and touches at most the slot it
  returns: an existing slot as it is, otherwise one that starts the stream at index 0 from
  fresh randomness, an empty slot where there is one and else the least recently used.\<close>

theorem get_or_create_spec:
  assumes wf: "table_wf nonce_ab_slot_ops ab" and lu: "last_used_ok nonce_ab_slot_ops ab"
    and run: "ab_get_or_create nonce_ab_slot_ops sid rng ab =
      ((Ok (ab', k), rng') :: ('e, nonce_ab_slot ab_slots \<times> nat) result \<times> rng)"
  shows "table_wf nonce_ab_slot_ops ab' \<and> k < length (ab_slots ab) \<and>
    (if \<exists>s\<in>set (ab_slots ab). slot_stream_id_of nonce_ab_slot_ops s = Some sid
     then ab_slots ab' = ab_slots ab \<and> slot_stream_id_of nonce_ab_slot_ops (ab_slots ab ! k) = Some sid
     else (\<exists>s. ab_slots ab' = (ab_slots ab)[k := s] \<and>
        read_slot nonce_ab_slot_ops s = Some \<lparr>slot_index = 0, slot_stream_id = sid, slot_material = rng 0,
          slot_last_used = u32_add (ab_last_used ab) 1, slot_signing_state = None\<rparr>) \<and>
      (case read_slot nonce_ab_slot_ops (ab_slots ab ! k) of None \<Rightarrow> True
       | Some w \<Rightarrow> \<forall>s\<in>set (ab_slots ab). \<exists>v. read_slot nonce_ab_slot_ops s = Some v \<and>
           slot_last_used w \<le> slot_last_used v))"
proof -
  let ?S = nonce_ab_slot_ops
  let ?lu = "u32_add (ab_last_used ab) 1"
  show ?thesis
  proof (cases "scan_slots ?S sid (ab_slots ab) 0 u32_max 0")
    case (Found i)
    note F = scan_slots_Found [OF this]
    have ab': "ab' = ab\<lparr>ab_last_used := ?lu\<rparr>" "k = i" using run Found by (simp_all add: ab_get_or_create_def)
    have "\<exists>s\<in>set (ab_slots ab). slot_stream_id_of ?S s = Some sid" using F nth_mem by blast
    moreover have "table_wf ?S (ab\<lparr>ab_last_used := ?lu\<rparr>) = table_wf ?S ab" by (simp add: table_wf_def)
    ultimately show ?thesis using F wf by (simp add: ab')
  next
    case (Vacant i)
    note V = scan_slots_Vacant [OF Vacant]
    have used: "read_slot ?S (ab_slots ab ! j) \<noteq> None" if "j < i" for j using V that by blast
    have none: "read_slot ?S (ab_slots ab ! j) = None" if "i < j" "j < length (ab_slots ab)" for j
      using wf V that by (simp add: table_wf_def)
    have absent: "\<forall>s\<in>set (ab_slots ab). slot_stream_id_of ?S s \<noteq> Some sid"
    proof
      fix s assume "s \<in> set (ab_slots ab)"
      then obtain j where "j < length (ab_slots ab)" "s = ab_slots ab ! j" by (auto simp: in_set_conv_nth)
      then show "slot_stream_id_of ?S s \<noteq> Some sid"
        using V none by (cases j i rule: linorder_cases) (auto simp: slot_stream_id_of_def)
    qed
    have "ab_initialize ?S sid i ?lu rng (ab\<lparr>ab_last_used := ?lu\<rparr>) =
        ((Ok (ab', k), rng') :: ('e, nonce_ab_slot ab_slots \<times> nat) result \<times> rng)"
      using run Vacant by (simp add: ab_get_or_create_def Let_def)
    note new = abs.get_or_create_new [OF wf absent used this]
    have "\<not> (\<exists>s\<in>set (ab_slots ab). slot_stream_id_of ?S s = Some sid)" using absent by blast
    moreover have "read_slot ?S (ab_slots ab ! k) = None" using new V by simp
    ultimately show ?thesis
      using new by (simp only: if_False option.case) blast
  next
    case (Evict i)
    note E = scan_slots_Evict [OF Evict]
    have absent: "\<forall>s\<in>set (ab_slots ab). slot_stream_id_of ?S s \<noteq> Some sid"
      using E by (metis in_set_conv_nth)
    have init: "ab_initialize ?S sid i ?lu rng (ab\<lparr>ab_last_used := ?lu\<rparr>) =
        ((Ok (ab', k), rng') :: ('e, nonce_ab_slot ab_slots \<times> nat) result \<times> rng)"
      using run Evict by (simp add: ab_get_or_create_def Let_def)
    have "k = i" "i < length (ab_slots ab)" using abs.ab_initialize_Ok [OF init] by auto
    then have used: "read_slot ?S (ab_slots ab ! j) \<noteq> None" if "j < i" for j using E that by simp
    have least: "slot_last_used w \<le> slot_last_used v"
      if w: "read_slot ?S (ab_slots ab ! i) = Some w" and s: "s \<in> set (ab_slots ab)" and v: "read_slot ?S s = Some v"
      for w s v
    proof -
      have "slot_last_used w \<le> u32_max"
        using lu w \<open>i < length (ab_slots ab)\<close> nth_mem unfolding last_used_ok_def by blast
      with scan_slots_result [of ?S sid "ab_slots ab" 0 u32_max 0] w s v show ?thesis
        unfolding Evict scan_result_def slot_search.case by fastforce
    qed
    have readable: "\<exists>v. read_slot ?S s = Some v" if "s \<in> set (ab_slots ab)" for s
      using E that by (metis in_set_conv_nth not_None_eq)
    have "case read_slot ?S (ab_slots ab ! i) of None \<Rightarrow> True
       | Some w \<Rightarrow> \<forall>s\<in>set (ab_slots ab). \<exists>v. read_slot ?S s = Some v \<and> slot_last_used w \<le> slot_last_used v"
    proof (cases "read_slot ?S (ab_slots ab ! i)")
      case (Some w)
      have "\<exists>v. read_slot ?S s = Some v \<and> slot_last_used w \<le> slot_last_used v" if "s \<in> set (ab_slots ab)" for s
        using readable [OF that] least [OF Some that] by blast
      then show ?thesis by (simp add: Some)
    qed simp
    moreover have "\<not> (\<exists>s\<in>set (ab_slots ab). slot_stream_id_of ?S s = Some sid)" using absent by blast
    ultimately show ?thesis
      using abs.get_or_create_new [OF wf absent used init] by (simp only: if_False \<open>k = i\<close>)
  qed
qed

theorem get_or_create_spec_witness:
  "case ab_get_or_create nonce_ab_slot_ops (NonceStreamId [2]) (\<lambda>n. [9])
      \<lparr>ab_slots = [demo_flash, \<lparr>ab_a = Erased, ab_b = Erased\<rparr>], ab_last_used = 0\<rparr> of
    (Ok (ab', k), rng') \<Rightarrow> k = 1 \<and> table_wf nonce_ab_slot_ops ab' |
    ((r :: (unit, nonce_ab_slot ab_slots \<times> nat) result), rng') \<Rightarrow> False"
proof -
  let ?ab = "\<lparr>ab_slots = [demo_flash, \<lparr>ab_a = Erased, ab_b = Erased\<rparr>], ab_last_used = 0\<rparr>"
  have rd: "read_slot nonce_ab_slot_ops demo_flash = Some demo_slot"
    "read_slot nonce_ab_slot_ops \<lparr>ab_a = Erased, ab_b = Erased\<rparr> = None"
    by (simp_all add: demo_defs u32_simps)
  have wr: "write_slot nonce_ab_slot_ops v \<lparr>ab_a = Erased, ab_b = Erased\<rparr> =
      Some \<lparr>ab_a = Stored 0 (V0 v), ab_b = Stored 0 (V0 v)\<rparr>" for v
    by (simp add: demo_defs)
  have sl: "slot_stream_id demo_slot = NonceStreamId [1]" "slot_last_used demo_slot = 0"
    by (simp_all add: demo_slot_def)
  obtain ab' rng' where r: "ab_get_or_create nonce_ab_slot_ops (NonceStreamId [2]) (\<lambda>n. [9]) ?ab =
      ((Ok (ab', 1), rng') :: (unit, nonce_ab_slot ab_slots \<times> nat) result \<times> rng)"
    by (simp add: ab_get_or_create_def rd wr ab_initialize_def initialize_slot_def sl u32_simps rng_draw_def Let_def)
  have "table_wf nonce_ab_slot_ops ?ab" "last_used_ok nonce_ab_slot_ops ?ab"
    using rd by (auto simp: table_wf_def last_used_ok_def slot_stream_id_of_def less_Suc_eq demo_slot_def
        numeral_2_eq_2)
  from get_or_create_spec [OF this r] show ?thesis unfolding r by simp
qed

subsection \<open>Signing through the table\<close>

text \<open>Signing through the table changes only the slot that holds the stream, and what it does to
  that slot and returns is what signing on the slot alone does; without a slot for the
  stream it returns an error and changes nothing.\<close>

theorem ab_sign_local:
  "ab_sign S N d bs session_id coord sessions ab =
     (case ab_get S ab (cns_stream_id coord) of
        None \<Rightarrow> (ab, Err Overflow)
      | Some i \<Rightarrow>
          (let lu = u32_add (ab_last_used ab) 1;
               (s', r) = sign_slot S N d bs session_id coord lu sessions (ab_slots ab ! i)
           in (ab\<lparr>ab_slots := (ab_slots ab)[i := s'],
                  ab_last_used := (if \<exists>out. r = Ok out then lu else ab_last_used ab)\<rparr>, r)))"
proof (cases "ab_get S ab (cns_stream_id coord)")
  case None
  then show ?thesis by (simp add: ab_sign_def)
next
  case (Some i)
  obtain s' r where sr: "sign_slot S N d bs session_id coord (u32_add (ab_last_used ab) 1) sessions
      (ab_slots ab ! i) = (s', r)"
    by (cases "sign_slot S N d bs session_id coord (u32_add (ab_last_used ab) 1) sessions (ab_slots ab ! i)")
  show ?thesis
    by (cases r) (simp_all add: ab_sign_def Some sr [simplified] Let_def)
qed

text \<open>An empty slot in front of a stream's slot, which a torn write leaves, shadows it: asking
  for the stream starts it again in the empty slot and the table holds the stream twice.\<close>

theorem hole_duplicates_stream:
  "let ab = \<lparr>ab_slots = [\<lparr>ab_a = Stored 2 (V0 demo_slot), ab_b = Torn 3 None\<rparr>, demo_flash],
             ab_last_used = 0\<rparr>
   in case ab_get_or_create nonce_ab_slot_ops (NonceStreamId [1]) rng ab of
        ((Ok (ab', k) :: (unit, nonce_ab_slot ab_slots \<times> nat) result), _) \<Rightarrow>
          k = 0 \<and> ab_get nonce_ab_slot_ops ab (NonceStreamId [1]) = Some 1 \<and>
          ab_all_stream_ids nonce_ab_slot_ops ab' = [NonceStreamId [1], NonceStreamId [1]]
      | _ \<Rightarrow> False"
proof -
  let ?torn = "\<lparr>ab_a = Stored 2 (V0 demo_slot), ab_b = Torn 3 None\<rparr>"
  have rd: "read_slot nonce_ab_slot_ops demo_flash = Some demo_slot"
    "read_slot nonce_ab_slot_ops ?torn = None"
    by (simp_all add: demo_defs u32_simps)
  have wr: "write_slot nonce_ab_slot_ops v ?torn =
      Some \<lparr>ab_a = Stored 4 (V0 v), ab_b = Stored 4 (V0 v)\<rparr>" for v
    by (simp add: demo_defs u32_simps)
  have rd3: "read_slot nonce_ab_slot_ops \<lparr>ab_a = Stored 4 (V0 v), ab_b = Stored 4 (V0 v)\<rparr> = Some v" for v
    by (simp add: demo_defs u32_simps)
  have sl: "slot_stream_id demo_slot = NonceStreamId [1]" by (simp add: demo_slot_def)
  show ?thesis
    by (simp add: ab_get_or_create_def rd wr rd3 sl ab_initialize_def initialize_slot_def rng_draw_def
        Let_def ab_get_def ab_all_stream_ids_def slot_stream_id_of_def List.map_filter_simps)
qed

end
