(* ===== verification/Encryption.thy ===== *)
theory Encryption
  imports Keys
begin

section \<open>Symmetric encryption\<close>

text \<open>
  Models \<^verbatim>\<open>frostsnap_core/src/symmetric_encryption.rs\<close>: a value sealed under a key with a fresh
  nonce. The AEAD is a parameter. The value is the encoding of a scalar (a device's share) or
  of a point (the coordinator's root key); an encoding that is no point does not decode.
\<close>

record ciphertext =
  ct_data :: bytes
  ct_nonce :: bytes
  ct_tag :: bytes

definition ct_decrypt :: "crypto \<Rightarrow> bytes \<Rightarrow> ciphertext \<Rightarrow> scalar option" where
  "ct_decrypt C key ct = aead_decrypt C key (ct_nonce ct) (ct_data ct) (ct_tag ct)"

definition ct_encrypt :: "crypto \<Rightarrow> bytes \<Rightarrow> scalar \<Rightarrow> rng \<Rightarrow> ciphertext \<times> rng" where
  "ct_encrypt C key v rng =
     (let (nonce, rng) = rng_draw rng;
          (data, tag) = aead_encrypt C key nonce v
      in (\<lparr>ct_data = data, ct_nonce = nonce, ct_tag = tag\<rparr>, rng))"

definition ct_decrypt_point :: "crypto \<Rightarrow> bytes \<Rightarrow> ciphertext \<Rightarrow> point option" where
  "ct_decrypt_point C key ct =
     Option.bind (ct_decrypt C key ct) (\<lambda>p. if valid_point C p then Some p else None)"

lemma ct_decrypt_encrypt:
  "crypto_ok C \<Longrightarrow> ct_decrypt C key (fst (ct_encrypt C key v rng)) = Some v"
  by (auto simp: ct_decrypt_def ct_encrypt_def Let_def rng_draw_def crypto_ok_def split: prod.splits)

lemma ct_decrypt_point_encrypt:
  "crypto_ok C \<Longrightarrow> valid_point C p \<Longrightarrow> ct_decrypt_point C key (fst (ct_encrypt C key p rng)) = Some p"
  by (simp add: ct_decrypt_point_def ct_decrypt_encrypt)

end
