(* ===== verification/Messages.thy ===== *)
theory Messages
  imports SignTask ShareBackup NonceTable Encryption
begin

section \<open>Messages\<close>

text \<open>
  Models \<^verbatim>\<open>frostsnap_core/src/message.rs\<close> and \<^verbatim>\<open>message/\<close>: what coordinator and devices send
  each other, and the errors of \<^verbatim>\<open>lib.rs\<close>. The values of the key generation protocol
  (\<^verbatim>\<open>certpedpop\<close> of \<^verbatim>\<open>schnorr_fun\<close>) are opaque encodings. A \<^verbatim>\<open>BTreeSet\<close> is its sorted list.
  The reason of an error is the constant part of its text.
\<close>

type_synonym keygen_input = bytes
type_synonym agg_keygen_input = bytes
type_synonym vrf_proof = bytes
type_synonym certificate = "(point, vrf_proof) btree"
type_synonym certified_keygen = bytes

record keypair =
  kp_secret :: scalar
  kp_public :: point

datatype access_structure_kind = Master

datatype core_error = MessageKind string string | InvalidMessage string string

datatype action_error = StateInconsistent string

subsection \<open>Key generation\<close>

record keygen_begin =
  kb_keygen_id :: keygen_id
  kb_devices :: "device_id list"
  kb_threshold :: nat
  kb_key_name :: string
  kb_purpose :: key_purpose
  kb_coordinator_public_keys :: "point list"

datatype keygen_msg =
    KgBegin keygen_begin
  | KgCertifyPlease keygen_id agg_keygen_input
  | KgCheck keygen_id certificate
  | KgFinalize keygen_id

record keygen_ack =
  ack_session_hash :: session_hash
  ack_keygen_id :: keygen_id

datatype device_keygen =
    KgResponse keygen_id keygen_input
  | KgCertify keygen_id vrf_proof
  | KgAck keygen_ack

subsection \<open>Signing\<close>

record 'task group_sign_req =
  gsr_parties :: "share_index list"
  gsr_agg_nonces :: "pub_nonce list"
  gsr_sign_task :: 'task
  gsr_access_structure_id :: access_structure_id

record device_sign_req =
  dsr_nonces :: coord_nonce_state
  dsr_rootkey :: point
  dsr_contrib :: bytes

record request_sign =
  rs_group :: "wire_sign_task group_sign_req"
  rs_device :: device_sign_req

definition n_signatures :: "'task group_sign_req \<Rightarrow> nat" where
  "n_signatures r = length (gsr_agg_nonces r)"

definition check_group_sign_req ::
  "crypto \<Rightarrow> tx_ops \<Rightarrow> wire_sign_task group_sign_req \<Rightarrow> point \<Rightarrow> key_purpose \<Rightarrow>
    (sign_task_error, checked_sign_task group_sign_req) result" where
  "check_group_sign_req C B r rootkey purpose =
     (let master_appkey = derive_from_rootkey C rootkey in
      and_then (check_sign_task C B (gsr_sign_task r) master_appkey purpose) (\<lambda>task.
        Ok \<lparr>gsr_parties = gsr_parties r, gsr_agg_nonces = gsr_agg_nonces r, gsr_sign_task = task,
            gsr_access_structure_id = gsr_access_structure_id r\<rparr>))"

text \<open>The session id is the hash of the request's \<^verbatim>\<open>bincode\<close> encoding, which is a parameter.\<close>

type_synonym encode_request = "wire_sign_task group_sign_req \<Rightarrow> bytes"

definition session_id_of :: "crypto \<Rightarrow> encode_request \<Rightarrow> wire_sign_task group_sign_req \<Rightarrow> sign_session_id" where
  "session_id_of C enc r = SignSessionId (sha256 C (enc r))"

datatype coordinator_signing =
    RequestSign request_sign
  | OpenNonceStreams "coord_nonce_state list"

definition split_open_streams :: "coord_nonce_state list \<Rightarrow> coord_nonce_state list list" where
  "split_open_streams streams = map (\<lambda>s. [s]) streams"

datatype device_signing =
    NonceResponse "nonce_segment list"
  | SignatureShares sign_session_id "sig_share list" "nonce_segment option"

subsection \<open>Restoration\<close>

record held_share =
  hs1_access_structure_ref :: "access_structure_ref option"
  hs1_share_image :: share_image
  hs1_threshold :: nat
  hs1_key_name :: string
  hs1_purpose :: key_purpose

record held_share2 =
  hs_access_structure_ref :: "access_structure_ref option"
  hs_share_image :: share_image
  hs_threshold :: "nat option"
  hs_key_name :: "string option"
  hs_purpose :: "key_purpose option"
  hs_needs_consolidation :: bool

definition held_share2_of :: "held_share \<Rightarrow> held_share2" where
  "held_share2_of h =
     \<lparr>hs_access_structure_ref = hs1_access_structure_ref h, hs_share_image = hs1_share_image h,
      hs_threshold = Some (hs1_threshold h), hs_key_name = Some (hs1_key_name h),
      hs_purpose = Some (hs1_purpose h),
      hs_needs_consolidation = (hs1_access_structure_ref h = None)\<rparr>"

record consolidate_backup =
  cb_share_index :: share_index
  cb_root_shared_key :: shared_key
  cb_key_name :: string
  cb_purpose :: key_purpose

datatype coordinator_restoration =
    EnterPhysicalBackup enter_physical_id
  | SavePhysicalBackup share_image string key_purpose nat
  | Consolidate consolidate_backup
  | DisplayBackup access_structure_ref bytes share_index shared_key
  | RequestHeldShares
  | SavePhysicalBackup2 held_share2
  | CheckBackup bytes share_index shared_key

record entered_physical_backup =
  epb_enter_physical_id :: enter_physical_id
  epb_share_image :: share_image

datatype device_restoration =
    PhysicalEntered entered_physical_backup
  | PhysicalSaved share_image
  | FinishedConsolidation access_structure_ref share_index
  | HeldShares "held_share list"
  | HeldShares2 "held_share2 list"

subsection \<open>The two directions\<close>

datatype coordinator_to_device =
    KeyGenMsg keygen_msg
  | SigningMsg coordinator_signing
  | RestorationMsg coordinator_restoration
  | VerifyAddressMsg master_appkey normal_index

datatype device_to_coordinator =
    DeviceKeyGen device_keygen
  | DeviceSigning device_signing
  | DeviceRestoration device_restoration

text \<open>The derived \<^verbatim>\<open>Kind\<close>: the variant's name, delegated where the code says so.\<close>

definition restoration_kind :: "coordinator_restoration \<Rightarrow> string" where
  "restoration_kind m =
     (case m of
        EnterPhysicalBackup _ \<Rightarrow> ''EnterPhysicalBackup''
      | SavePhysicalBackup _ _ _ _ \<Rightarrow> ''SavePhysicalBackup''
      | Consolidate _ \<Rightarrow> ''Consolidate''
      | DisplayBackup _ _ _ _ \<Rightarrow> ''DisplayBackup''
      | RequestHeldShares \<Rightarrow> ''RequestHeldShares''
      | SavePhysicalBackup2 _ \<Rightarrow> ''SavePhysicalBackup2''
      | CheckBackup _ _ _ \<Rightarrow> ''CheckBackup'')"

definition to_device_kind :: "coordinator_to_device \<Rightarrow> string" where
  "to_device_kind m =
     (case m of
        KeyGenMsg _ \<Rightarrow> ''KeyGen''
      | SigningMsg (RequestSign _) \<Rightarrow> ''RequestSign''
      | SigningMsg (OpenNonceStreams _) \<Rightarrow> ''OpenNonceStreams''
      | RestorationMsg r \<Rightarrow> restoration_kind r
      | VerifyAddressMsg _ _ \<Rightarrow> ''VerifyAddress'')"

definition from_device_kind :: "device_to_coordinator \<Rightarrow> string" where
  "from_device_kind m =
     (case m of
        DeviceKeyGen _ \<Rightarrow> ''KeyGen''
      | DeviceSigning (NonceResponse _) \<Rightarrow> ''NonceResponse''
      | DeviceSigning (SignatureShares _ _ _) \<Rightarrow> ''SignatureShare''
      | DeviceRestoration (PhysicalEntered _) \<Rightarrow> ''PhysicalEntered''
      | DeviceRestoration (PhysicalSaved _) \<Rightarrow> ''PhysicalSaved''
      | DeviceRestoration (FinishedConsolidation _ _) \<Rightarrow> ''FinishedConsolidation''
      | DeviceRestoration (HeldShares _) \<Rightarrow> ''HeldShares''
      | DeviceRestoration (HeldShares2 _) \<Rightarrow> ''HeldShares2'')"

end
