(* ===== verification/Recovery.thy ===== *)
theory Recovery
  imports ShareBackup OrderedMap
begin

section \<open>Recovering a key from shares\<close>

text \<open>
  Models \<^verbatim>\<open>frost_backup/src/recovery.rs\<close>: the search for a set of compatible share images among
  ones that may be duplicates, strays or corrupted, by trying all combinations. The iterators
  of combinations are modelled with the state they step through; the theorems identify them
  with the \<open>k\<close>-element sublists and the product of the choices. Interpolation, the fingerprint
  check and the recovery of the secret are \<^verbatim>\<open>schnorr_fun\<close>'s and parameters.
\<close>

record frost_ops =
  interpolate :: "share_image list \<Rightarrow> shared_key"
  fingerprint_bits :: "fingerprint \<Rightarrow> shared_key \<Rightarrow> nat option"
  max_bits_total :: "fingerprint \<Rightarrow> nat"
  recover_scalar :: "secret_share list \<Rightarrow> scalar"
  is_non_zero :: "shared_key \<Rightarrow> bool"

datatype recovery_error = NoSharesProvided | PolynomialChecksumFailed | SecretExtractionFailed

record recovered_secret =
  rec_secret :: scalar
  rec_compatible_shares :: "share_backup list"
  rec_shared_key :: shared_key

text \<open>\<^verbatim>\<open>entry(k).or_insert_with(Vec::new).push(v)\<close>.\<close>

definition bt_push :: "'k::linorder \<Rightarrow> 'v \<Rightarrow> ('k, 'v list) btree \<Rightarrow> ('k, 'v list) btree" where
  "bt_push k v m = bt_insert k (case bt_get m k of None \<Rightarrow> [v] | Some vs \<Rightarrow> vs @ [v]) m"

subsection \<open>The iterators\<close>

text \<open>An iterator that steps its state until there is no next one; \<open>fuel\<close> bounds the steps.\<close>

fun iterate :: "('s \<Rightarrow> 's option) \<Rightarrow> nat \<Rightarrow> 's \<Rightarrow> 's list" where
  "iterate step 0 s = []"
| "iterate step (Suc fuel) s =
     s # (case step s of None \<Rightarrow> [] | Some s' \<Rightarrow> iterate step fuel s')"

text \<open>The rightmost index that can be incremented, and the next combination.\<close>

definition rightmost_free :: "nat \<Rightarrow> nat list \<Rightarrow> nat option" where
  "rightmost_free n idx =
     (let k = length idx in find (\<lambda>j. idx ! j \<noteq> j + n - k) (rev [0..<k]))"

definition next_combination :: "nat \<Rightarrow> nat list \<Rightarrow> nat list option" where
  "next_combination n idx =
     (case rightmost_free n idx of
        None \<Rightarrow> None
      | Some i \<Rightarrow>
          Some (fold (\<lambda>j idx. idx[j := idx ! (j - 1) + 1]) [i + 1..<length idx]
                  (idx[i := idx ! i + 1])))"

definition generate_combinations :: "'a list \<Rightarrow> nat \<Rightarrow> 'a list list" where
  "generate_combinations elements k =
     (let n = length elements in
      if n < k \<or> k = 0 then []
      else map (map (nth elements)) (iterate (next_combination n) (2 ^ n) [0..<k]))"

text \<open>Counting in mixed base, from the last position.\<close>

fun carry :: "nat list \<Rightarrow> nat list \<Rightarrow> nat \<Rightarrow> nat list option" where
  "carry sizes idx 0 =
     (if idx ! 0 + 1 < sizes ! 0 then Some (idx[0 := idx ! 0 + 1]) else None)"
| "carry sizes idx (Suc p) =
     (if idx ! Suc p + 1 < sizes ! Suc p then Some (idx[Suc p := idx ! Suc p + 1])
      else carry sizes (idx[Suc p := 0]) p)"

definition next_choice :: "nat list \<Rightarrow> nat list \<Rightarrow> nat list option" where
  "next_choice sizes idx = carry sizes idx (length sizes - 1)"

definition generate_share_combinations ::
  "share_index list \<Rightarrow> (share_index, share_image list) btree \<Rightarrow> share_image list list" where
  "generate_share_combinations indices shares_by_index =
     (let lists = map (\<lambda>i. the (bt_get shares_by_index i)) indices;
          sizes = map length lists
      in if indices = [] then []
         else map (map2 nth lists)
           (iterate (next_choice sizes) (prod_list sizes) (replicate (length indices) 0)))"

subsection \<open>The search\<close>

definition group_by_index :: "share_image list \<Rightarrow> (share_index, share_image list) btree" where
  "group_by_index images = fold (\<lambda>im. bt_push (image_index im) im) images []"

text \<open>The loop body, and \<^verbatim>\<open>break 'outer\<close> as the end of the recursion.\<close>

fun try_candidates ::
  "frost_ops \<Rightarrow> fingerprint \<Rightarrow> nat option \<Rightarrow> (shared_key \<times> nat) option \<Rightarrow> share_image list list \<Rightarrow>
    (shared_key \<times> nat) option" where
  "try_candidates F fp threshold best [] = best"
| "try_candidates F fp threshold best (c # cs) =
     (let key = interpolate F c in
      if (case threshold of None \<Rightarrow> False | Some t \<Rightarrow> length key \<noteq> t)
      then try_candidates F fp threshold best cs
      else
        (case fingerprint_bits F fp key of
           None \<Rightarrow> try_candidates F fp threshold best cs
         | Some bits \<Rightarrow>
             if (case best of None \<Rightarrow> True | Some (_, prev) \<Rightarrow> prev < bits)
             then (if max_bits_total F fp \<le> bits then Some (key, bits)
                   else try_candidates F fp threshold (Some (key, bits)) cs)
             else try_candidates F fp threshold best cs))"

definition subset_sizes :: "nat option \<Rightarrow> nat \<Rightarrow> nat list" where
  "subset_sizes threshold n_indices =
     (case threshold of Some t \<Rightarrow> [t] | None \<Rightarrow> [2..<n_indices + 1])"

definition candidates :: "share_image list \<Rightarrow> nat option \<Rightarrow> share_image list list" where
  "candidates images threshold =
     (let shares_by_index = group_by_index images; indices = bt_keys shares_by_index in
      [c. k \<leftarrow> subset_sizes threshold (length indices),
          combo \<leftarrow> generate_combinations indices k,
          c \<leftarrow> generate_share_combinations combo shares_by_index])"

definition find_valid_subset ::
  "crypto \<Rightarrow> frost_ops \<Rightarrow> share_image list \<Rightarrow> fingerprint \<Rightarrow> nat option \<Rightarrow>
    (share_image list \<times> shared_key) option" where
  "find_valid_subset C F images fp threshold =
     (if length images < (case threshold of Some t \<Rightarrow> t | None \<Rightarrow> 2) then None
      else
        (case try_candidates F fp threshold None (candidates images threshold) of
           None \<Rightarrow> None
         | Some (key, _) \<Rightarrow>
             Some (bs_of_list (filter (\<lambda>im. shared_share_image C key (image_index im) = im) images), key)))"

subsection \<open>The secret\<close>

fun extract_all ::
  "crypto \<Rightarrow> shared_key \<Rightarrow> share_backup list \<Rightarrow> (share_backup_error, secret_share list) result" where
  "extract_all C key [] = Ok []"
| "extract_all C key (b # bs) =
     and_then (extract_secret C key b) (\<lambda>s. and_then (extract_all C key bs) (\<lambda>ss. Ok (s # ss)))"

definition recover_secret ::
  "crypto \<Rightarrow> frost_ops \<Rightarrow> share_backup list \<Rightarrow> fingerprint \<Rightarrow> (recovery_error, recovered_secret) result" where
  "recover_secret C F shares fp =
     (if shares = [] then Err NoSharesProvided
      else
        (let key = interpolate F (map (backup_share_image C) shares) in
         if fingerprint_bits F fp key = None then Err PolynomialChecksumFailed
         else and_then (map_err (\<lambda>_. SecretExtractionFailed) (extract_all C key shares)) (\<lambda>secrets.
           Ok \<lparr>rec_secret = recover_scalar F secrets, rec_compatible_shares = shares,
               rec_shared_key = key\<rparr>)))"

fun backups_of_images ::
  "crypto \<Rightarrow> share_backup list \<Rightarrow> share_image list \<Rightarrow> share_backup list option" where
  "backups_of_images C shares [] = Some []"
| "backups_of_images C shares (im # ims) =
     (case find (\<lambda>b. backup_share_image C b = im) shares of
        None \<Rightarrow> None
      | Some b \<Rightarrow> map_option (\<lambda>bs. b # bs) (backups_of_images C shares ims))"

definition recover_secret_fuzzy ::
  "crypto \<Rightarrow> frost_ops \<Rightarrow> share_backup list \<Rightarrow> fingerprint \<Rightarrow> nat option \<Rightarrow> recovered_secret option" where
  "recover_secret_fuzzy C F shares fp threshold =
     Option.bind (find_valid_subset C F (map (backup_share_image C) shares) fp threshold)
       (\<lambda>(images, key).
     Option.bind (backups_of_images C shares images) (\<lambda>compatible.
       case extract_all C key compatible of
         Ok secrets \<Rightarrow>
           Some \<lparr>rec_secret = recover_scalar F secrets, rec_compatible_shares = compatible,
                 rec_shared_key = key\<rparr>
       | _ \<Rightarrow> None))"

subsection \<open>The iterators are the sublists and the product\<close>

text \<open>The list runs through the states of an iterator: each state steps to the next one, the last to
  \<open>e\<close>.\<close>

fun run_through :: "('s \<Rightarrow> 's option) \<Rightarrow> 's list \<Rightarrow> 's option \<Rightarrow> bool" where
  "run_through step [] e = True"
| "run_through step (x # xs) e =
     (step x = (case xs of [] \<Rightarrow> e | y # _ \<Rightarrow> Some y) \<and> run_through step xs e)"

lemma iterate_run_through:
  "run_through step (x # xs) None \<Longrightarrow> Suc (length xs) \<le> fuel \<Longrightarrow> iterate step fuel x = x # xs"
proof (induction xs arbitrary: x fuel)
  case Nil
  then show ?case by (cases fuel) auto
next
  case (Cons y ys)
  then show ?case by (cases fuel) auto
qed

lemma run_through_append:
  "run_through step (xs @ ys) e \<longleftrightarrow>
     run_through step xs (case ys of [] \<Rightarrow> e | y # _ \<Rightarrow> Some y) \<and> run_through step ys e"
  by (induction xs) (auto split: list.splits)

lemma run_through_map:
  "run_through step xs None \<Longrightarrow>
   (\<And>x y. x \<in> set xs \<Longrightarrow> step x = Some y \<Longrightarrow> step' (g x) = Some (g y)) \<Longrightarrow>
   (\<And>x. x \<in> set xs \<Longrightarrow> step x = None \<Longrightarrow> step' (g x) = e) \<Longrightarrow>
   run_through step' (map g xs) e"
  by (induction xs) (auto split: list.splits)

text \<open>The reference: the sublists of \<open>k\<close> elements, in lexicographic order of the positions.\<close>

fun k_sublists :: "nat \<Rightarrow> 'a list \<Rightarrow> 'a list list" where
  "k_sublists 0 xs = [[]]"
| "k_sublists (Suc k) [] = []"
| "k_sublists (Suc k) (x # xs) = map (Cons x) (k_sublists k xs) @ k_sublists (Suc k) xs"

lemma k_sublists_map: "k_sublists k (map f xs) = map (map f) (k_sublists k xs)"
  by (induction k xs rule: k_sublists.induct) simp_all

lemma k_sublists_length: "c \<in> set (k_sublists k xs) \<Longrightarrow> length c = k"
  by (induction k xs arbitrary: c rule: k_sublists.induct) auto

lemma k_sublists_few: "length (k_sublists k xs) \<le> 2 ^ length xs"
proof (induction k xs rule: k_sublists.induct)
  case (3 k x xs)
  then show ?case by simp
qed simp_all

lemma k_sublists_short: "length xs < k \<Longrightarrow> k_sublists k xs = []"
  by (induction k xs rule: k_sublists.induct) auto

lemma hd_k_sublists: "k \<le> length xs \<Longrightarrow> \<exists>cs. k_sublists k xs = take k xs # cs"
proof (induction k xs rule: k_sublists.induct)
  case (3 k x xs)
  then obtain cs where "k_sublists k xs = take k xs # cs" by auto
  then show ?case by simp
qed auto

lemma in_k_sublists: "c \<in> set (k_sublists k xs) \<longleftrightarrow> c \<in> set (subseqs xs) \<and> length c = k"
proof (induction k xs arbitrary: c rule: k_sublists.induct)
  case (1 xs)
  have "[] \<in> set (subseqs xs)" by (induction xs) (auto simp: Let_def)
  then show ?case by auto
next
  case (3 k x xs)
  then show ?case by (auto simp: Let_def)
qed auto

lemma subseqs_length: "c \<in> set (subseqs xs) \<Longrightarrow> length c \<le> length xs"
  by (induction xs arbitrary: c) (auto simp: Let_def le_SucI)

text \<open>The increment, seen from the front of the list.\<close>

lemma fill_increasing:
  "i < length idx \<Longrightarrow>
   fold (\<lambda>j idx. idx[j := idx ! (j - 1) + 1]) [i + 1..<length idx] (idx[i := v]) =
     take i idx @ [v..<v + (length idx - i)]"
proof (induction "length idx - i" arbitrary: i idx v)
  case (Suc m)
  show ?case
  proof (cases "i + 1 < length idx")
    case True
    have up: "[i + 1..<length idx] = (i + 1) # [i + 2..<length idx]"
      using True by (simp add: upt_rec)
    have "fold (\<lambda>j idx. idx[j := idx ! (j - 1) + 1]) [i + 1..<length idx] (idx[i := v]) =
        fold (\<lambda>j idx. idx[j := idx ! (j - 1) + 1]) [i + 1 + 1..<length (idx[i := v])]
          ((idx[i := v])[i + 1 := v + 1])"
      using Suc.prems unfolding up by (simp add: numeral_2_eq_2)
    also have "\<dots> = take (i + 1) (idx[i := v]) @ [v + 1..<v + 1 + (length (idx[i := v]) - (i + 1))]"
      by (rule Suc.hyps(1)) (use Suc.hyps(2) True in auto)
    also have "length (idx[i := v]) - (i + 1) = m"
      using Suc.hyps(2) by simp
    also have "take (i + 1) (idx[i := v]) = take i idx @ [v]"
      using Suc.prems by (simp add: take_Suc_conv_app_nth)
    also have "(take i idx @ [v]) @ [v + 1..<v + 1 + m] = take i idx @ v # [v + 1..<v + 1 + m]"
      by (simp only: append_assoc append_Cons append_Nil)
    also have "v # [v + 1..<v + 1 + m] = [v..<v + Suc m]"
      by (simp add: upt_conv_Cons del: upt_Suc)
    finally have "fold (\<lambda>j idx. idx[j := idx ! (j - 1) + 1]) [i + 1..<length idx] (idx[i := v]) =
        take i idx @ [v..<v + Suc m]" .
    then show ?thesis by (simp only: Suc.hyps(2))
  next
    case False
    then have "length idx = Suc i" using Suc.prems by simp
    then show ?thesis by (simp add: list_eq_iff_nth_eq nth_append nth_list_update)
  qed
qed simp

lemma next_combination_eq:
  "next_combination n idx =
     (case rightmost_free n idx of
        None \<Rightarrow> None
      | Some i \<Rightarrow> Some (take i idx @ [idx ! i + 1..<idx ! i + 1 + (length idx - i)]))"
proof (cases "rightmost_free n idx")
  case (Some i)
  then have "i < length idx" by (auto simp: rightmost_free_def find_Some_iff Let_def rev_nth)
  then show ?thesis using Some fill_increasing [of i idx "idx ! i + 1"] by (simp add: next_combination_def)
qed (simp add: next_combination_def)

lemma rightmost_free_Cons:
  "rightmost_free n (x # c) =
     (case rightmost_free n c of
        Some i \<Rightarrow> Some (Suc i)
      | None \<Rightarrow> if x \<noteq> n - Suc (length c) then Some 0 else None)"
proof -
  have up: "rev [0..<length (x # c)] = map Suc (rev [0..<length c]) @ [0]"
    by (simp add: rev_map [symmetric] upt_conv_Cons map_Suc_upt del: upt_Suc)
  have fa: "find P (xs @ ys) = (case find P xs of None \<Rightarrow> find P ys | Some z \<Rightarrow> Some z)" for P and xs ys :: "nat list"
    by (induction xs) auto
  have fm: "find P (map Suc xs) = map_option Suc (find (\<lambda>j. P (Suc j)) xs)" for P xs
    by (induction xs) auto
  show ?thesis
    unfolding rightmost_free_def Let_def up fa fm by (simp split: option.split)
qed

lemma next_combination_Cons:
  "next_combination n (x # c) =
     (case next_combination n c of
        Some d \<Rightarrow> Some (x # d)
      | None \<Rightarrow> if x \<noteq> n - Suc (length c) then Some [x + 1..<x + 1 + Suc (length c)] else None)"
  by (simp add: next_combination_eq rightmost_free_Cons split: option.split)

lemma next_combination_Nil: "next_combination n [] = None"
  by (simp add: next_combination_def rightmost_free_def)

lemma run_through_combinations:
  "lo \<le> n \<Longrightarrow> run_through (next_combination n) (k_sublists k [lo..<n]) None"
proof (induction "n - lo" arbitrary: lo k)
  case 0
  then show ?case by (cases k) (auto simp: next_combination_Nil)
next
  case (Suc m)
  show ?case
  proof (cases k)
    case 0
    then show ?thesis by (simp add: next_combination_Nil)
  next
    case (Suc k')
    have lo_n: "lo < n" using Suc.hyps(2) by simp
    have lo: "[lo..<n] = lo # [Suc lo..<n]" using Suc.hyps(2) by (simp add: upt_rec)
    let ?rest = "k_sublists k [Suc lo..<n]"
    have IH: "run_through (next_combination n) (k_sublists j [Suc lo..<n]) None" for j
      by (rule Suc.hyps(1)) (use Suc.hyps(2) in auto)
    have "run_through (next_combination n) (map (Cons lo) (k_sublists k' [Suc lo..<n]))
        (case ?rest of [] \<Rightarrow> None | y # _ \<Rightarrow> Some y)"
    proof (rule run_through_map [OF IH])
      fix c assume c: "c \<in> set (k_sublists k' [Suc lo..<n])" "next_combination n c = None"
      have len: "length c = k'" by (rule k_sublists_length [OF c(1)])
      show "next_combination n (lo # c) = (case ?rest of [] \<Rightarrow> None | y # _ \<Rightarrow> Some y)"
      proof (cases "lo = n - Suc k'")
        case True
        then have "?rest = []" using Suc Suc.hyps(2) by (intro k_sublists_short) auto
        then show ?thesis using c(2) len True by (simp add: next_combination_Cons)
      next
        case False
        have "c \<in> set (subseqs [Suc lo..<n])" using c(1) by (simp add: in_k_sublists)
        then have "k' \<le> n - Suc lo" using len using subseqs_length by fastforce
        then have "k \<le> length [Suc lo..<n]" using False Suc lo_n by auto
        from hd_k_sublists [OF this] obtain cs where cs: "?rest = take k [Suc lo..<n] # cs" by blast
        have "take k [Suc lo..<n] = [lo + 1..<lo + 1 + Suc k']"
          using \<open>k \<le> length [Suc lo..<n]\<close> Suc by (simp add: take_upt)
        then show ?thesis using cs c(2) len False by (simp add: next_combination_Cons)
      qed
    qed (simp add: next_combination_Cons)
    then show ?thesis using IH [of k] by (simp add: lo Suc run_through_append)
  qed
qed

lemma generate_combinations_eq:
  "generate_combinations xs k = (if k = 0 then [] else k_sublists k xs)"
proof (cases "k = 0 \<or> length xs < k")
  case True
  then show ?thesis by (auto simp: generate_combinations_def k_sublists_short Let_def)
next
  case False
  let ?n = "length xs"
  obtain cs where cs: "k_sublists k [0..<?n] = take k [0..<?n] # cs"
    using hd_k_sublists [of k "[0..<?n]"] False by auto
  have "Suc (length cs) \<le> 2 ^ ?n" using k_sublists_few [of k "[0..<?n]"] cs by simp
  then have "iterate (next_combination ?n) (2 ^ ?n) [0..<k] = k_sublists k [0..<?n]"
    using iterate_run_through [of "next_combination ?n" "[0..<k]" cs] run_through_combinations [of 0 ?n k]
      cs False by (simp add: take_upt)
  then show ?thesis
    using False k_sublists_map [of k "nth xs" "[0..<?n]"] by (simp add: generate_combinations_def Let_def map_nth)
qed

text \<open>Counting up is the product of the choices.\<close>

lemma carry_Cons:
  "p < length c \<Longrightarrow> length ss = length c \<Longrightarrow>
   carry (s # ss) (x # c) (Suc p) =
     (case carry ss c p of
        Some d \<Rightarrow> Some (x # d)
      | None \<Rightarrow>
          if x + 1 < s then Some ((x + 1) # replicate (Suc p) 0 @ drop (Suc p) c) else None)"
proof (induction p arbitrary: c)
  case 0
  then show ?case by (cases c) auto
next
  case (Suc p)
  let ?c = "c[Suc p := 0]"
  have IH: "carry (s # ss) (x # ?c) (Suc p) =
     (case carry ss ?c p of
        Some d \<Rightarrow> Some (x # d)
      | None \<Rightarrow> if x + 1 < s then Some ((x + 1) # replicate (Suc p) 0 @ drop (Suc p) ?c) else None)"
    by (rule Suc.IH) (use Suc.prems in auto)
  have "drop (Suc p) ?c = 0 # drop (Suc (Suc p)) c"
    using Suc.prems Cons_nth_drop_Suc [of "Suc p" ?c] by simp
  then have zeros: "replicate (Suc p) 0 @ drop (Suc p) ?c = replicate (Suc (Suc p)) 0 @ drop (Suc (Suc p)) c"
    by (simp only: replicate_app_Cons_same replicate_Suc append_Cons)
  have step: "carry (s # ss) (x # c) (Suc (Suc p)) =
      (if c ! Suc p + 1 < ss ! Suc p then Some (x # c[Suc p := c ! Suc p + 1])
       else carry (s # ss) (x # ?c) (Suc p))"
    by simp
  have step': "carry ss c (Suc p) =
      (if c ! Suc p + 1 < ss ! Suc p then Some (c[Suc p := c ! Suc p + 1]) else carry ss ?c p)"
    by simp
  show ?case
    unfolding step step' IH zeros by (cases "c ! Suc p + 1 < ss ! Suc p") (simp_all only: if_True if_False option.case)
qed

lemma next_choice_Cons:
  "length c = length ss \<Longrightarrow> ss \<noteq> [] \<Longrightarrow>
   next_choice (s # ss) (x # c) =
     (case next_choice ss c of
        Some d \<Rightarrow> Some (x # d)
      | None \<Rightarrow> if x + 1 < s then Some ((x + 1) # replicate (length ss) 0) else None)"
  using carry_Cons [of "length ss - 1" c ss s x]
  by (cases ss) (auto simp: next_choice_def split: option.split)

lemma next_choice_single: "next_choice [s] [x] = (if x + 1 < s then Some [x + 1] else None)"
  by (simp add: next_choice_def)

definition choice_lists :: "nat list \<Rightarrow> nat list list" where
  "choice_lists sizes = product_lists (map (\<lambda>n. [0..<n]) sizes)"

lemma choice_lists_simps:
  "choice_lists [] = [[]]"
  "choice_lists (n # ns) = concat (map (\<lambda>x. map (Cons x) (choice_lists ns)) [0..<n])"
  by (simp_all add: choice_lists_def)

lemma choice_lists_hd:
  "\<forall>n\<in>set sizes. 0 < n \<Longrightarrow> \<exists>cs. choice_lists sizes = replicate (length sizes) 0 # cs"
proof (induction sizes)
  case (Cons n ns)
  then obtain cs where "choice_lists ns = replicate (length ns) 0 # cs" by auto
  moreover have "[0..<n] = 0 # [1..<n]" using Cons.prems by (simp add: upt_conv_Cons)
  ultimately show ?case by (simp add: choice_lists_simps)
qed (simp add: choice_lists_simps)

lemma choice_lists_length: "c \<in> set (choice_lists sizes) \<Longrightarrow> length c = length sizes"
  using in_set_product_lists_length by (fastforce simp: choice_lists_def)

lemma length_choice_lists: "length (choice_lists sizes) = prod_list sizes"
  by (induction sizes) (simp_all add: choice_lists_simps length_concat comp_def sum_list_triv)

lemma run_through_blocks:
  assumes ne: "ss \<noteq> []" "\<forall>n\<in>set ss. 0 < n" and IH: "run_through (next_choice ss) (choice_lists ss) None"
  shows "lo \<le> s \<Longrightarrow> run_through (next_choice (s # ss))
      (concat (map (\<lambda>x. map (Cons x) (choice_lists ss)) [lo..<s])) None"
proof (induction "s - lo" arbitrary: lo)
  case (Suc m)
  have lo: "[lo..<s] = lo # [Suc lo..<s]" using Suc.hyps(2) by (simp add: upt_rec)
  let ?rest = "concat (map (\<lambda>x. map (Cons x) (choice_lists ss)) [Suc lo..<s])"
  obtain cs where cs: "choice_lists ss = replicate (length ss) 0 # cs" using choice_lists_hd ne by blast
  have rest: "(case ?rest of [] \<Rightarrow> None | y # _ \<Rightarrow> Some y) =
      (if lo + 1 < s then Some ((lo + 1) # replicate (length ss) 0) else None)"
    by (simp add: upt_rec [of "Suc lo"] cs)
  have "run_through (next_choice (s # ss)) (map (Cons lo) (choice_lists ss))
      (case ?rest of [] \<Rightarrow> None | y # _ \<Rightarrow> Some y)"
    unfolding rest
    by (rule run_through_map [OF IH]) (auto simp: next_choice_Cons choice_lists_length ne)
  then show ?case
    using Suc.hyps(1) [of "Suc lo"] Suc.hyps(2) by (simp add: lo run_through_append)
qed simp

lemma run_through_single:
  "lo \<le> s \<Longrightarrow> run_through (next_choice [s]) (map (\<lambda>x. [x]) [lo..<s]) None"
proof (induction "s - lo" arbitrary: lo)
  case (Suc m)
  have lo: "[lo..<s] = lo # [Suc lo..<s]" using Suc.hyps(2) by (simp add: upt_rec)
  show ?case
    using Suc.hyps(1) [of "Suc lo"] Suc.hyps(2)
    by (simp add: lo next_choice_single upt_rec [of "Suc lo"])
qed simp

lemma concat_singletons: "concat (map (\<lambda>x. [f x]) xs) = map f xs"
  by (induction xs) simp_all

lemma run_through_choices:
  "sizes \<noteq> [] \<Longrightarrow> \<forall>n\<in>set sizes. 0 < n \<Longrightarrow> run_through (next_choice sizes) (choice_lists sizes) None"
proof (induction sizes)
  case (Cons s ss)
  show ?case
  proof (cases "ss = []")
    case True
    then show ?thesis
      using run_through_single [of 0 s] by (simp add: choice_lists_simps concat_singletons)
  next
    case False
    then show ?thesis
      using run_through_blocks [of ss 0 s] Cons by (simp add: choice_lists_simps)
  qed
qed simp

lemma choice_lists_select:
  "map (map2 nth xss) (choice_lists (map length xss)) = product_lists xss"
proof (induction xss)
  case (Cons xs xss)
  have "map (map2 nth (xs # xss)) (choice_lists (map length (xs # xss))) =
      concat (map (\<lambda>x. map (Cons (xs ! x)) (product_lists xss)) [0..<length xs])"
    by (simp add: choice_lists_simps map_concat comp_def Cons.IH [symmetric])
  also have "\<dots> = concat (map (\<lambda>x. map (Cons x) (product_lists xss)) (map (nth xs) [0..<length xs]))"
    by (simp only: map_map comp_def)
  finally show ?case by (simp only: map_nth product_lists.simps)
qed (simp add: choice_lists_simps)

lemma generate_share_combinations_eq:
  assumes "\<forall>i\<in>set indices. \<exists>x xs. bt_get m i = Some (x # xs)"
  shows "generate_share_combinations indices m =
    (if indices = [] then [] else product_lists (map (\<lambda>i. the (bt_get m i)) indices))"
proof (cases "indices = []")
  case False
  let ?lists = "map (\<lambda>i. the (bt_get m i)) indices"
  let ?sizes = "map length ?lists"
  have pos: "\<forall>n\<in>set ?sizes. 0 < n" using assms by fastforce
  obtain cs where cs: "choice_lists ?sizes = replicate (length indices) 0 # cs"
    using choice_lists_hd [OF pos] by auto
  have "iterate (next_choice ?sizes) (prod_list ?sizes) (replicate (length indices) 0) = choice_lists ?sizes"
    unfolding cs
    using run_through_choices [OF _ pos] False length_choice_lists [of ?sizes] cs
    by (intro iterate_run_through) auto
  then show ?thesis
    using False choice_lists_select [of ?lists] by (simp only: generate_share_combinations_def Let_def if_False)
qed (simp add: generate_share_combinations_def)

subsection \<open>The search space\<close>

lemma bt_get_push [simp]:
  "bt_get (bt_push k v m) k' =
     (if k' = k then Some ((case bt_get m k of None \<Rightarrow> [] | Some vs \<Rightarrow> vs) @ [v]) else bt_get m k')"
  by (simp add: bt_push_def split: option.split)

lemma bt_wf_push [intro, simp]: "bt_wf m \<Longrightarrow> bt_wf (bt_push k v m)"
  by (simp add: bt_push_def)

lemma bt_wf_group_from: "bt_wf m \<Longrightarrow> bt_wf (fold (\<lambda>im. bt_push (image_index im) im) images m)"
  by (induction images arbitrary: m) auto

lemma bt_get_group_from:
  "bt_get (fold (\<lambda>im. bt_push (image_index im) im) images m) i =
     (let new = filter (\<lambda>im. image_index im = i) images in
      case bt_get m i of
        None \<Rightarrow> (if new = [] then None else Some new)
      | Some old \<Rightarrow> Some (old @ new))"
  by (induction images arbitrary: m) (auto simp: Let_def split: option.splits)

lemma bt_wf_group: "bt_wf (group_by_index images)"
  by (simp add: group_by_index_def bt_wf_group_from)

lemma bt_get_group:
  "bt_get (group_by_index images) i =
     (if i \<in> image_index ` set images then Some (filter (\<lambda>im. image_index im = i) images) else None)"
  by (auto simp: group_by_index_def bt_get_group_from Let_def filter_empty_conv)

lemma group_indices:
  "sorted_wrt (<) (bt_keys (group_by_index images))"
  "set (bt_keys (group_by_index images)) = image_index ` set images"
proof -
  show "sorted_wrt (<) (bt_keys (group_by_index images))"
    using bt_wf_group by (simp add: bt_wf_def bt_keys_def)
  have "i \<in> set (bt_keys (group_by_index images)) \<longleftrightarrow> i \<in> image_index ` set images" for i
    by (simp add: btree.key_list_dom bt_get_group)
  then show "set (bt_keys (group_by_index images)) = image_index ` set images" by blast
qed

lemma subseqs_of_sorted:
  "sorted_wrt (<) (xs :: 'a::linorder list) \<Longrightarrow>
   ys \<in> set (subseqs xs) \<longleftrightarrow> sorted_wrt (<) ys \<and> set ys \<subseteq> set xs"
proof (induction xs arbitrary: ys)
  case (Cons x xs)
  have "ys \<in> Cons x ` set (subseqs xs) \<or> ys \<in> set (subseqs xs) \<longleftrightarrow>
      sorted_wrt (<) ys \<and> set ys \<subseteq> set (x # xs)"
  proof (cases ys)
    case (Cons y zs)
    show ?thesis
    proof (cases "y = x")
      case True
      then show ?thesis using Cons Cons.IH [of zs] Cons.IH [of ys] Cons.prems by (auto 4 3)
    next
      case False
      have "x \<notin> set ys" if "sorted_wrt (<) ys" "y \<in> set xs"
        using that False Cons Cons.prems by fastforce
      then show ?thesis using Cons False Cons.IH [of ys] Cons.prems by fastforce
    qed
  qed (use Cons in auto)
  then show ?case by (simp add: Let_def)
qed auto

text \<open>A selection: images at different indices, in the order of the indices.\<close>

definition selection :: "share_image list \<Rightarrow> nat option \<Rightarrow> share_image list \<Rightarrow> bool" where
  "selection images threshold c \<longleftrightarrow>
     c \<noteq> [] \<and> set c \<subseteq> set images \<and> sorted_wrt (<) (map image_index c) \<and>
     (case threshold of Some t \<Rightarrow> length c = t | None \<Rightarrow> 2 \<le> length c)"

lemma in_share_combinations:
  assumes "set combo \<subseteq> image_index ` set images"
  shows "c \<in> set (generate_share_combinations combo (group_by_index images)) \<longleftrightarrow>
    c \<noteq> [] \<and> set c \<subseteq> set images \<and> map image_index c = combo"
proof -
  have lists: "map (\<lambda>i. the (bt_get (group_by_index images) i)) combo =
      map (\<lambda>i. filter (\<lambda>im. image_index im = i) images) combo"
    using assms by (auto simp: bt_get_group)
  have "list_all2 (\<lambda>x ys. x \<in> set ys) c (map (\<lambda>i. filter (\<lambda>im. image_index im = i) images) combo) \<longleftrightarrow>
      set c \<subseteq> set images \<and> map image_index c = combo"
    by (induction c arbitrary: combo; case_tac combo) auto
  moreover have "generate_share_combinations combo (group_by_index images) =
      (if combo = [] then [] else product_lists (map (\<lambda>i. filter (\<lambda>im. image_index im = i) images) combo))"
    using assms unfolding lists [symmetric]
    by (intro generate_share_combinations_eq) (auto simp: bt_get_group filter_empty_conv neq_Nil_conv [symmetric])
  ultimately show ?thesis by (auto simp: product_lists_set)
qed

lemma selection_size:
  assumes "set c \<subseteq> set images" and "sorted_wrt (<) (map image_index c)"
  shows "length c \<le> card (image_index ` set images)"
proof -
  have "card (set (map image_index c)) = length c"
    using assms(2) unfolding strict_sorted_iff by (simp only: distinct_card length_map)
  moreover have "set (map image_index c) \<subseteq> image_index ` set images" using assms(1) by auto
  ultimately show ?thesis by (metis List.finite_set card_mono finite_imageI)
qed

lemma candidates_iff: "c \<in> set (candidates images threshold) \<longleftrightarrow> selection images threshold c"
proof -
  let ?m = "group_by_index images"
  let ?I = "bt_keys ?m"
  have n: "length ?I = card (image_index ` set images)"
    using group_indices [of images] strict_sorted_iff distinct_card by metis
  have combo: "combo \<in> set (generate_combinations ?I k) \<longleftrightarrow>
      k \<noteq> 0 \<and> sorted_wrt (<) combo \<and> set combo \<subseteq> image_index ` set images \<and> length combo = k" for combo k
    by (auto simp: generate_combinations_eq in_k_sublists subseqs_of_sorted group_indices)
  have "c \<in> set (candidates images threshold) \<longleftrightarrow>
      (\<exists>combo. length combo \<in> set (subset_sizes threshold (length ?I)) \<and> length combo \<noteq> 0 \<and>
        sorted_wrt (<) combo \<and> set combo \<subseteq> image_index ` set images \<and>
        c \<in> set (generate_share_combinations combo ?m))"
    unfolding candidates_def Let_def by (auto simp: Bex_def combo)
  also have "\<dots> \<longleftrightarrow> c \<noteq> [] \<and> set c \<subseteq> set images \<and> sorted_wrt (<) (map image_index c) \<and>
      length c \<in> set (subset_sizes threshold (length ?I))"
  proof
    assume c: "c \<noteq> [] \<and> set c \<subseteq> set images \<and> sorted_wrt (<) (map image_index c) \<and>
      length c \<in> set (subset_sizes threshold (length ?I))"
    then have "c \<in> set (generate_share_combinations (map image_index c) ?m)"
      by (subst in_share_combinations) auto
    then show "\<exists>combo. length combo \<in> set (subset_sizes threshold (length ?I)) \<and> length combo \<noteq> 0 \<and>
        sorted_wrt (<) combo \<and> set combo \<subseteq> image_index ` set images \<and>
        c \<in> set (generate_share_combinations combo ?m)"
      using c by (intro exI [of _ "map image_index c"]) auto
  qed (auto simp: in_share_combinations)
  also have "\<dots> \<longleftrightarrow> selection images threshold c"
    using selection_size [of c images]
    by (auto simp: selection_def subset_sizes_def n split: option.splits)
  finally show ?thesis .
qed

subsection \<open>The search finds the best match\<close>

definition accepted :: "frost_ops \<Rightarrow> fingerprint \<Rightarrow> nat option \<Rightarrow> shared_key \<Rightarrow> nat \<Rightarrow> bool" where
  "accepted F fp threshold key bits \<longleftrightarrow>
     (case threshold of None \<Rightarrow> True | Some t \<Rightarrow> length key = t) \<and> fingerprint_bits F fp key = Some bits"

lemma try_candidates_skip:
  "\<nexists>b. accepted F fp t (interpolate F c) b \<Longrightarrow>
   try_candidates F fp t best (c # cs) = try_candidates F fp t best cs"
  by (auto simp: accepted_def Let_def split: option.splits)

lemma try_candidates_hit:
  "accepted F fp t (interpolate F c) b \<Longrightarrow>
   try_candidates F fp t best (c # cs) =
     (if (case best of None \<Rightarrow> True | Some (_, prev) \<Rightarrow> prev < b)
      then (if max_bits_total F fp \<le> b then Some (interpolate F c, b)
            else try_candidates F fp t (Some (interpolate F c, b)) cs)
      else try_candidates F fp t best cs)"
  by (simp add: accepted_def Let_def split: option.splits)

declare try_candidates.simps(2) [simp del]

lemma try_candidates_None:
  "try_candidates F fp t best cs = None \<longleftrightarrow>
     best = None \<and> (\<forall>c\<in>set cs. \<forall>b. \<not> accepted F fp t (interpolate F c) b)"
proof (induction cs arbitrary: best)
  case (Cons c cs)
  show ?case
  proof (cases "\<exists>b. accepted F fp t (interpolate F c) b")
    case True
    then obtain b where "accepted F fp t (interpolate F c) b" ..
    then show ?thesis using Cons.IH by (auto simp: try_candidates_hit)
  qed (use Cons.IH in \<open>simp add: try_candidates_skip\<close>)
qed simp

lemma try_candidates_Some:
  "try_candidates F fp t best cs = Some (key, b) \<Longrightarrow>
   (best = Some (key, b) \<or> (\<exists>c\<in>set cs. key = interpolate F c \<and> accepted F fp t key b)) \<and>
   (max_bits_total F fp \<le> b \<or> (\<forall>c\<in>set cs. \<forall>b'. accepted F fp t (interpolate F c) b' \<longrightarrow> b' \<le> b)) \<and>
   (\<forall>k p. best = Some (k, p) \<longrightarrow> p \<le> b)"
proof (induction cs arbitrary: best)
  case (Cons c cs)
  let ?k = "interpolate F c"
  show ?case
  proof (cases "\<exists>b'. accepted F fp t ?k b'")
    case False
    then have "try_candidates F fp t best cs = Some (key, b)"
      using Cons.prems by (simp add: try_candidates_skip)
    from Cons.IH [OF this] show ?thesis using False by (metis list.set_intros(2) set_ConsD)
  next
    case True
    then obtain b' where b': "accepted F fp t ?k b'" and only: "\<And>x. accepted F fp t ?k x \<longleftrightarrow> x = b'"
      by (auto simp: accepted_def)
    let ?better = "case best of None \<Rightarrow> True | Some (_, prev) \<Rightarrow> prev < b'"
    consider "?better" "max_bits_total F fp \<le> b'" | "?better" "\<not> max_bits_total F fp \<le> b'" | "\<not> ?better" by blast
    then show ?thesis
    proof cases
      case 1
      then have "key = ?k \<and> b = b'" using Cons.prems by (simp add: try_candidates_hit [OF b'])
      then show ?thesis using b' 1 by (force split: option.splits)
    next
      case 2
      then have "try_candidates F fp t (Some (?k, b')) cs = Some (key, b)"
        using Cons.prems by (simp add: try_candidates_hit [OF b'])
      note IH = Cons.IH [OF this]
      then have "b' \<le> b" by blast
      then show ?thesis using IH b' 2(1) by (auto simp: only split: option.splits)
    next
      case 3
      then obtain k p where best: "best = Some (k, p)" "b' \<le> p" by (auto split: option.splits)
      have "try_candidates F fp t best cs = Some (key, b)"
        using Cons.prems 3 by (simp add: try_candidates_hit [OF b'])
      note IH = Cons.IH [OF this]
      then have "b' \<le> b" using best by auto
      then show ?thesis using IH by (auto simp: only)
    qed
  qed
qed simp

lemma few_images_no_selection:
  "length images < (case t of Some k \<Rightarrow> k | None \<Rightarrow> 2) \<Longrightarrow> \<not> selection images t c"
proof
  assume few: "length images < (case t of Some k \<Rightarrow> k | None \<Rightarrow> 2)" and sel: "selection images t c"
  have "length c \<le> card (image_index ` set images)"
    using sel by (intro selection_size) (auto simp: selection_def)
  also have "\<dots> \<le> length images" by (meson card_image_le card_length le_trans List.finite_set)
  finally show False using few sel by (auto simp: selection_def split: option.splits)
qed

text \<open>C40. The search of shares is exhaustive and sound: it gives up only when no choice of images at
  different indices (of the threshold's size when it is known, of at least two otherwise)
  interpolates to a key that passes the fingerprint check; and when it finds a key, that key is the
  interpolation of such a choice, no other choice matches more bits of the fingerprint (unless all
  of them matched), and the images it returns are exactly the given ones that lie on the key.\<close>

theorem find_valid_subset_exhaustive:
  "(find_valid_subset C F images fp t = None \<longleftrightarrow>
      (\<nexists>c b. selection images t c \<and> accepted F fp t (interpolate F c) b)) \<and>
   (\<forall>found key. find_valid_subset C F images fp t = Some (found, key) \<longrightarrow>
      (\<exists>c b. selection images t c \<and> key = interpolate F c \<and> accepted F fp t key b \<and>
        (max_bits_total F fp \<le> b \<or>
          (\<forall>c' b'. selection images t c' \<and> accepted F fp t (interpolate F c') b' \<longrightarrow> b' \<le> b))) \<and>
      set found = {im \<in> set images. shared_share_image C key (image_index im) = im})"
proof (cases "length images < (case t of Some k \<Rightarrow> k | None \<Rightarrow> 2)")
  case True
  then show ?thesis using few_images_no_selection [OF True] by (auto simp: find_valid_subset_def)
next
  case False
  let ?r = "try_candidates F fp t None (candidates images t)"
  have find: "find_valid_subset C F images fp t = map_option (\<lambda>(key, _).
      (bs_of_list (filter (\<lambda>im. shared_share_image C key (image_index im) = im) images), key)) ?r"
    using False by (simp add: find_valid_subset_def split: option.split)
  show ?thesis
  proof (intro conjI allI impI)
    show "find_valid_subset C F images fp t = None \<longleftrightarrow>
        (\<nexists>c b. selection images t c \<and> accepted F fp t (interpolate F c) b)"
      by (auto simp: find try_candidates_None candidates_iff)
  next
    fix found key assume "find_valid_subset C F images fp t = Some (found, key)"
    then obtain b where r: "?r = Some (key, b)"
      and found: "found = bs_of_list (filter (\<lambda>im. shared_share_image C key (image_index im) = im) images)"
      by (auto simp: find)
    show "\<exists>c b. selection images t c \<and> key = interpolate F c \<and> accepted F fp t key b \<and>
        (max_bits_total F fp \<le> b \<or>
          (\<forall>c' b'. selection images t c' \<and> accepted F fp t (interpolate F c') b' \<longrightarrow> b' \<le> b))"
      using try_candidates_Some [OF r] unfolding candidates_iff [symmetric] by blast
    show "set found = {im \<in> set images. shared_share_image C key (image_index im) = im}"
      by (auto simp: found)
  qed
qed

definition demo_frost_ops :: frost_ops where
  "demo_frost_ops =
     \<lparr>interpolate = map image_point,
      fingerprint_bits = (\<lambda>fp key. if key = [[1], [2]] then Some 5 else None),
      max_bits_total = (\<lambda>fp. 5), recover_scalar = (\<lambda>ss. []), is_non_zero = (\<lambda>k. True)\<rparr>"

lemma find_valid_subset_exhaustive_witness:
  "\<exists>found. find_valid_subset demo_crypto demo_frost_ops [ShareImage 1 [1], ShareImage 2 [9], ShareImage 2 [2]] [] None =
      Some (found, [[1], [2]]) \<and>
    set found = {im \<in> {ShareImage 1 [1], ShareImage 2 [9], ShareImage 2 [2]}.
      shared_share_image demo_crypto [[1], [2]] (image_index im) = im}"
proof -
  have "find_valid_subset demo_crypto demo_frost_ops
      [ShareImage 1 [1], ShareImage 2 [9], ShareImage 2 [2]] [] None = Some ([ShareImage 1 [1]], [[1], [2]])"
    by code_simp
  then show ?thesis
    using find_valid_subset_exhaustive [of demo_crypto demo_frost_ops
        "[ShareImage 1 [1], ShareImage 2 [9], ShareImage 2 [2]]" "[]" None] by force
qed

end
