(* ===== verification/CoordRestoring.thy ===== *)
theory CoordRestoring
  imports Messages Recovery "HOL-Library.Product_Lexorder"
begin

section \<open>An access structure being restored\<close>

text \<open>
  Models the data of \<^verbatim>\<open>frostsnap_core/src/coordinator/restoration.rs\<close>: the shares collected so
  far, the key they were found to lie on, what can be said of each share, and the mutations of
  the coordinator's restoration state. A \<^verbatim>\<open>BTreeSet\<close> of pending consolidations is its sorted
  list; \<^verbatim>\<open>debug_assert!\<close> being compiled out, \<^verbatim>\<open>fail!\<close> returns \<^verbatim>\<open>None\<close>.
\<close>

subsection \<open>The shares collected\<close>

datatype share_compatibility = Compatible | Incompatible | Uncertain

record recover_share =
  rcs_held_by :: device_id
  rcs_held_share :: held_share2

abbreviation rcs_image :: "recover_share \<Rightarrow> share_image" where
  "rcs_image r \<equiv> hs_share_image (rcs_held_share r)"

record recovering =
  rec_starting_threshold :: "nat option"
  rec_held_shares :: "recover_share list"
  rec_shared_key :: "shared_key option"

definition compatibility :: "crypto \<Rightarrow> recovering \<Rightarrow> share_image \<Rightarrow> share_compatibility" where
  "compatibility C a im =
     (case rec_shared_key a of
        Some k \<Rightarrow> (if shared_share_image C k (image_index im) = im then Compatible else Incompatible)
      | None \<Rightarrow> Uncertain)"

definition needs_to_consolidate :: "crypto \<Rightarrow> recovering \<Rightarrow> device_id list" where
  "needs_to_consolidate C a =
     map rcs_held_by (filter (\<lambda>r. hs_needs_consolidation (rcs_held_share r) \<and>
       compatibility C a (rcs_image r) = Compatible) (rec_held_shares a))"

definition recovering_ref :: "crypto \<Rightarrow> recovering \<Rightarrow> access_structure_ref option" where
  "recovering_ref C a =
     (case rec_shared_key a of
        Some k \<Rightarrow> Some (access_structure_ref_of C k)
      | None \<Rightarrow> find_map (\<lambda>r. hs_access_structure_ref (rcs_held_share r)) (rec_held_shares a))"

definition effective_threshold :: "recovering \<Rightarrow> nat option" where
  "effective_threshold a =
     (case rec_shared_key a of
        Some k \<Rightarrow> Some (as_u16 (shared_threshold k))
      | None \<Rightarrow>
          (case rec_starting_threshold a of
             Some t \<Rightarrow> Some t
           | None \<Rightarrow> find_map (\<lambda>r. hs_threshold (rcs_held_share r)) (rec_held_shares a)))"

definition is_share_of :: "device_id \<Rightarrow> share_image \<Rightarrow> recover_share \<Rightarrow> bool" where
  "is_share_of d im r \<longleftrightarrow> rcs_held_by r = d \<and> rcs_image r = im"

definition has_got_share :: "recovering \<Rightarrow> device_id \<Rightarrow> share_image \<Rightarrow> bool" where
  "has_got_share a d im \<longleftrightarrow> list_ex (is_share_of d im) (rec_held_shares a)"

definition share_image_to_devices :: "recovering \<Rightarrow> (share_image, device_id list) btree" where
  "share_image_to_devices a =
     fold (\<lambda>r. bt_push (rcs_image r) (rcs_held_by r)) (rec_held_shares a) []"

definition compatible_device_to_share_index ::
  "crypto \<Rightarrow> recovering \<Rightarrow> (device_id, share_index) btree option" where
  "compatible_device_to_share_index C a =
     (case rec_shared_key a of
        None \<Rightarrow> None
      | Some _ \<Rightarrow>
          Some (bt_of_list (map (\<lambda>r. (rcs_held_by r, image_index (rcs_image r)))
            (filter (\<lambda>r. compatibility C a (rcs_image r) = Compatible) (rec_held_shares a)))))"

text \<open>The threshold in effect is the one of the key found before, if one was.\<close>

definition try_fuzzy_recovery ::
  "crypto \<Rightarrow> frost_ops \<Rightarrow> recovering \<Rightarrow> fingerprint \<Rightarrow> shared_key option" where
  "try_fuzzy_recovery C F a fp =
     Option.bind (find_valid_subset C F (map rcs_image (rec_held_shares a)) fp (effective_threshold a))
       (\<lambda>(_, key). if is_non_zero F key then Some key else None)"

definition add_share ::
  "crypto \<Rightarrow> frost_ops \<Rightarrow> recover_share \<Rightarrow> fingerprint \<Rightarrow> recovering \<Rightarrow> recovering" where
  "add_share C F r fp a =
     (let a = a\<lparr>rec_held_shares := rec_held_shares a @ [r]\<rparr>
      in a\<lparr>rec_shared_key := try_fuzzy_recovery C F a fp\<rparr>)"

definition remove_share ::
  "crypto \<Rightarrow> frost_ops \<Rightarrow> device_id \<Rightarrow> share_image \<Rightarrow> fingerprint \<Rightarrow> recovering \<Rightarrow> recovering \<times> bool" where
  "remove_share C F d im fp a =
     (case position (is_share_of d im) (rec_held_shares a) of
        None \<Rightarrow> (a, False)
      | Some pos \<Rightarrow>
          (let a = a\<lparr>rec_held_shares := take pos (rec_held_shares a) @ drop (Suc pos) (rec_held_shares a)\<rparr>
           in (a\<lparr>rec_shared_key := try_fuzzy_recovery C F a fp\<rparr>, True)))"

definition progress :: "recovering \<Rightarrow> ('e, nat) result" where
  "progress a = expect ''unwrap''
     (u16_try_from (length (bs_of_list (map (\<lambda>r. image_index (rcs_image r)) (rec_held_shares a)))))"

definition has_got_share_index :: "recovering \<Rightarrow> share_index \<Rightarrow> bool" where
  "has_got_share_index a i \<longleftrightarrow> list_ex (\<lambda>r. image_index (rcs_image r) = i) (rec_held_shares a)"

definition get_device_contribution :: "recovering \<Rightarrow> device_id \<Rightarrow> share_image option" where
  "get_device_contribution a d = map_option rcs_image (find (\<lambda>r. rcs_held_by r = d) (rec_held_shares a))"

definition has_got_from :: "recovering \<Rightarrow> device_id \<Rightarrow> bool" where
  "has_got_from a d \<longleftrightarrow> get_device_contribution a d \<noteq> None"

subsection \<open>A restoration and its status\<close>

record restoration_state =
  rst_restoration_id :: restoration_id
  rst_key_name :: string
  rst_access_structure :: recovering
  rst_key_purpose :: key_purpose
  rst_fingerprint :: fingerprint

record restoration_share =
  rsh_device_id :: device_id
  rsh_index :: nat
  rsh_compatibility :: share_compatibility

record restoration_status =
  status_threshold :: "nat option"
  status_shares :: "restoration_share list"
  status_shared_key :: "shared_key option"

record share_count =
  count_got :: "nat option"
  count_needed :: "nat option"
  count_incompatible :: nat

definition share_status ::
  "crypto \<Rightarrow> recovering \<Rightarrow> recover_share \<Rightarrow> ('e, restoration_share) result" where
  "share_status C a r =
     (let compat = compatibility C a (rcs_image r);
          compat =
            (if compat = Uncertain
             then (case (recovering_ref C a, hs_access_structure_ref (rcs_held_share r)) of
                     (Some restoration_ref, Some share_ref) \<Rightarrow>
                       (if restoration_ref = share_ref then Compatible else Incompatible)
                   | _ \<Rightarrow> compat)
             else compat)
      in and_then (expect ''share index is small'' (u16_try_from (image_index (rcs_image r)))) (\<lambda>index.
           Ok \<lparr>rsh_device_id = rcs_held_by r, rsh_index = index, rsh_compatibility = compat\<rparr>))"

fun collect_results :: "('e, 'a) result list \<Rightarrow> ('e, 'a list) result" where
  "collect_results [] = Ok []"
| "collect_results (r # rs) =
     and_then r (\<lambda>x. and_then (collect_results rs) (\<lambda>xs. Ok (x # xs)))"

definition restoration_status :: "crypto \<Rightarrow> restoration_state \<Rightarrow> ('e, restoration_status) result" where
  "restoration_status C s =
     (let a = rst_access_structure s in
      and_then (collect_results (map (share_status C a) (rec_held_shares a))) (\<lambda>shares.
        Ok \<lparr>status_threshold = effective_threshold a, status_shares = shares,
            status_shared_key = rec_shared_key a\<rparr>))"

definition is_restorable :: "crypto \<Rightarrow> restoration_state \<Rightarrow> ('e, bool) result" where
  "is_restorable C s =
     and_then (restoration_status C s) (\<lambda>st. Ok (status_shared_key st \<noteq> None))"

definition share_count_of :: "restoration_status \<Rightarrow> share_count" where
  "share_count_of st =
     (let explicitly_incompatible =
            as_u16 (length (filter (\<lambda>s. rsh_compatibility s = Incompatible) (status_shares st)));
          needed = status_threshold st;
          (got, incompatible) =
            (if status_shared_key st \<noteq> None
             then (Some (as_u16 (length (bs_of_list (map rsh_index
                     (filter (\<lambda>s. rsh_compatibility s = Compatible) (status_shares st)))))),
                   explicitly_incompatible)
             else
               (let total_unique = as_u16 (length (bs_of_list (map rsh_index (status_shares st))))
                in case needed of
                     Some threshold \<Rightarrow>
                       (if threshold \<le> total_unique
                        then (None, max (as_u16 (total_unique - threshold + 1)) explicitly_incompatible)
                        else (Some total_unique, explicitly_incompatible))
                   | None \<Rightarrow> (Some total_unique, explicitly_incompatible)))
      in \<lparr>count_got = got, count_needed = needed, count_incompatible = incompatible\<rparr>)"

text \<open>What a device is told to store with a physical backup: the metadata of the access structure
  only when the trial run with the share finds a key the share lies on.\<close>

definition prepare_save_physical_backup ::
  "crypto \<Rightarrow> frost_ops \<Rightarrow> restoration_state \<Rightarrow> device_id \<Rightarrow> share_image \<Rightarrow> held_share2" where
  "prepare_save_physical_backup C F s d im =
     (let held_share =
            \<lparr>hs_access_structure_ref = None, hs_share_image = im, hs_threshold = None,
             hs_key_name = Some (rst_key_name s), hs_purpose = Some (rst_key_purpose s),
             hs_needs_consolidation = True\<rparr>;
          trial = add_share C F \<lparr>rcs_held_by = d, rcs_held_share = held_share\<rparr> (rst_fingerprint s)
                    (rst_access_structure s)
      in if rec_shared_key trial \<noteq> None \<and> compatibility C trial im = Compatible
         then held_share\<lparr>hs_threshold := effective_threshold trial,
                hs_access_structure_ref := recovering_ref C trial\<rparr>
         else held_share)"

subsection \<open>The restoration state and its mutations\<close>

datatype pending_consolidation =
  PendingConsolidation (pc_device_id: device_id) (pc_ref: access_structure_ref) (pc_share_index: share_index)

instantiation pending_consolidation :: linorder
begin
definition less_eq_pending_consolidation :: "pending_consolidation \<Rightarrow> pending_consolidation \<Rightarrow> bool" where
  "less_eq_pending_consolidation a b \<longleftrightarrow>
     pc_device_id a < pc_device_id b \<or> pc_device_id a = pc_device_id b \<and>
     (pc_ref a < pc_ref b \<or> pc_ref a = pc_ref b \<and> pc_share_index a \<le> pc_share_index b)"
definition less_pending_consolidation :: "pending_consolidation \<Rightarrow> pending_consolidation \<Rightarrow> bool" where
  "less_pending_consolidation a b \<longleftrightarrow>
     pc_device_id a < pc_device_id b \<or> pc_device_id a = pc_device_id b \<and>
     (pc_ref a < pc_ref b \<or> pc_ref a = pc_ref b \<and> pc_share_index a < pc_share_index b)"
instance
  by standard
    (force simp: less_eq_pending_consolidation_def less_pending_consolidation_def
       pending_consolidation.expand simp del: id_less_defs ref_less_defs)+
end

record restorations =
  rs_restorations :: "(restoration_id, restoration_state) btree"
  rs_pending :: "pending_consolidation list"
  rs_tmp_waiting_consolidate :: "pending_consolidation list"
  rs_tmp_waiting_save :: "(device_id \<times> share_image, restoration_id \<times> held_share2) btree"

definition empty_restorations :: restorations where
  "empty_restorations =
     \<lparr>rs_restorations = [], rs_pending = [], rs_tmp_waiting_consolidate = [], rs_tmp_waiting_save = []\<rparr>"

datatype coord_restoration_mutation =
    NewRestoration restoration_id string nat key_purpose
  | RestorationProgress restoration_id device_id share_image "access_structure_ref option"
  | DeleteRestorationShare restoration_id device_id share_image
  | DeleteRestoration restoration_id
  | DeviceNeedsConsolidation pending_consolidation
  | DeviceFinishedConsolidation pending_consolidation
  | NewRestoration2 restoration_id string "nat option" key_purpose
  | RestorationProgress2 restoration_id device_id held_share2

definition bs_remove :: "'a \<Rightarrow> 'a list \<Rightarrow> 'a list" where
  "bs_remove x xs = filter (\<lambda>y. y \<noteq> x) xs"

definition apply_new_restoration ::
  "restoration_id \<Rightarrow> string \<Rightarrow> nat option \<Rightarrow> key_purpose \<Rightarrow> fingerprint \<Rightarrow> restorations \<Rightarrow> restorations" where
  "apply_new_restoration rid name threshold purpose fp s =
     s\<lparr>rs_restorations := bt_insert rid
        \<lparr>rst_restoration_id = rid, rst_key_name = name,
         rst_access_structure = \<lparr>rec_starting_threshold = threshold, rec_held_shares = [],
           rec_shared_key = None\<rparr>,
         rst_key_purpose = purpose, rst_fingerprint = fp\<rparr> (rs_restorations s)\<rparr>"

definition apply_progress ::
  "crypto \<Rightarrow> frost_ops \<Rightarrow> restoration_id \<Rightarrow> device_id \<Rightarrow> held_share2 \<Rightarrow> fingerprint \<Rightarrow> restorations \<Rightarrow>
    restorations \<times> coord_restoration_mutation option" where
  "apply_progress C F rid d h fp s =
     (case bt_get (rs_restorations s) rid of
        None \<Rightarrow> (s, None)
      | Some st \<Rightarrow>
          (let a = rst_access_structure st in
           if has_got_share a d (hs_share_image h) then (s, None)
           else if (case (hs_access_structure_ref h, recovering_ref C a) of
                      (Some new_ref, Some existing_ref) \<Rightarrow> existing_ref \<noteq> new_ref
                    | _ \<Rightarrow> False)
           then (s, None)
           else
             (s\<lparr>rs_restorations := bt_insert rid
                 (st\<lparr>rst_access_structure :=
                    add_share C F \<lparr>rcs_held_by = d, rcs_held_share = h\<rparr> fp a\<rparr>)
                 (rs_restorations s)\<rparr>,
              Some (RestorationProgress2 rid d h))))"

definition legacy_held_share ::
  "restorations \<Rightarrow> restoration_id \<Rightarrow> share_image \<Rightarrow> access_structure_ref option \<Rightarrow> held_share2" where
  "legacy_held_share s rid im asr =
     \<lparr>hs_access_structure_ref = asr, hs_share_image = im, hs_threshold = None,
      hs_key_name = map_option rst_key_name (bt_get (rs_restorations s) rid),
      hs_purpose = map_option rst_key_purpose (bt_get (rs_restorations s) rid),
      hs_needs_consolidation = (asr = None)\<rparr>"

definition coord_apply_restoration ::
  "crypto \<Rightarrow> frost_ops \<Rightarrow> coord_restoration_mutation \<Rightarrow> fingerprint \<Rightarrow> restorations \<Rightarrow>
    restorations \<times> coord_restoration_mutation option" where
  "coord_apply_restoration C F m fp s =
     (case m of
        NewRestoration rid name threshold purpose \<Rightarrow>
          (apply_new_restoration rid name (Some threshold) purpose fp s,
           Some (NewRestoration2 rid name (Some threshold) purpose))
      | NewRestoration2 rid name threshold purpose \<Rightarrow>
          (apply_new_restoration rid name threshold purpose fp s, Some m)
      | RestorationProgress rid d im asr \<Rightarrow>
          apply_progress C F rid d (legacy_held_share s rid im asr) fp s
      | RestorationProgress2 rid d h \<Rightarrow> apply_progress C F rid d h fp s
      | DeleteRestoration rid \<Rightarrow>
          (if bt_get (rs_restorations s) rid = None then (s, None)
           else (s\<lparr>rs_restorations := bt_remove rid (rs_restorations s)\<rparr>, Some m))
      | DeviceNeedsConsolidation c \<Rightarrow>
          (if c \<in> set (rs_pending s) then (s, None)
           else (s\<lparr>rs_pending := bs_insert c (rs_pending s)\<rparr>, Some m))
      | DeviceFinishedConsolidation c \<Rightarrow>
          (if c \<in> set (rs_pending s) then (s\<lparr>rs_pending := bs_remove c (rs_pending s)\<rparr>, Some m)
           else (s, None))
      | DeleteRestorationShare rid d im \<Rightarrow>
          (case bt_get (rs_restorations s) rid of
             None \<Rightarrow> (s, None)
           | Some st \<Rightarrow>
               (case remove_share C F d im (rst_fingerprint st) (rst_access_structure st) of
                  (a, False) \<Rightarrow> (s, None)
                | (a, True) \<Rightarrow>
                    (s\<lparr>rs_restorations := bt_insert rid (st\<lparr>rst_access_structure := a\<rparr>)
                        (rs_restorations s)\<rparr>, Some m))))"

definition clear_up_key_deletion :: "key_id \<Rightarrow> restorations \<Rightarrow> restorations" where
  "clear_up_key_deletion kid s =
     s\<lparr>rs_pending := filter (\<lambda>c. asr_key_id (pc_ref c) \<noteq> kid) (rs_pending s),
       rs_tmp_waiting_consolidate :=
         filter (\<lambda>c. asr_key_id (pc_ref c) \<noteq> kid) (rs_tmp_waiting_consolidate s)\<rparr>"

definition clear_restoration_tmp :: "restorations \<Rightarrow> restorations" where
  "clear_restoration_tmp s = s\<lparr>rs_tmp_waiting_consolidate := [], rs_tmp_waiting_save := []\<rparr>"

definition restoration_tied_to_key :: "coord_restoration_mutation \<Rightarrow> key_id option" where
  "restoration_tied_to_key m =
     (case m of
        DeviceFinishedConsolidation c \<Rightarrow> Some (asr_key_id (pc_ref c))
      | DeviceNeedsConsolidation c \<Rightarrow> Some (asr_key_id (pc_ref c))
      | _ \<Rightarrow> None)"

definition restoration_tied_to_restoration :: "coord_restoration_mutation \<Rightarrow> restoration_id option" where
  "restoration_tied_to_restoration m =
     (case m of
        NewRestoration rid _ _ _ \<Rightarrow> Some rid
      | NewRestoration2 rid _ _ _ \<Rightarrow> Some rid
      | RestorationProgress rid _ _ _ \<Rightarrow> Some rid
      | RestorationProgress2 rid _ _ \<Rightarrow> Some rid
      | DeleteRestoration rid \<Rightarrow> Some rid
      | DeleteRestorationShare rid _ _ \<Rightarrow> Some rid
      | _ \<Rightarrow> None)"

end
