(* ===== verification/StagedMutations.thy ===== *)
theory StagedMutations
  imports Prelude
begin

section \<open>Staged mutations\<close>

text \<open>
  Device and coordinator change everything durable through mutations: applying one changes the
  state in memory and returns the mutation to stage, if anything changed; the staged mutations
  are written out by the caller, in order, and replayed on an empty state at the next start.
  The locale states what the two implementations of \<^verbatim>\<open>apply_mutation\<close> and \<^verbatim>\<open>mutate\<close> promise, and proves
  that what has been written out together with what is staged always replays to the durable
  part of the state in memory.
\<close>

definition replay :: "('m \<Rightarrow> 's \<Rightarrow> 's \<times> 'm option) \<Rightarrow> 'm list \<Rightarrow> 's \<Rightarrow> 's" where
  "replay apply_m ms s = fold (\<lambda>m s. fst (apply_m m s)) ms s"

lemma replay_simps [simp]:
  "replay apply_m [] s = s"
  "replay apply_m (m # ms) s = replay apply_m ms (fst (apply_m m s))"
  "replay apply_m (ms @ ms') s = replay apply_m ms' (replay apply_m ms s)"
  by (simp_all add: replay_def)

text \<open>\<open>written\<close> is what the caller has taken from the log and written out.\<close>

definition recovers ::
  "('m \<Rightarrow> 's \<Rightarrow> 's \<times> 'm option) \<Rightarrow> ('s \<Rightarrow> 'm list) \<Rightarrow> ('s \<Rightarrow> 'd) \<Rightarrow> 's \<Rightarrow> 'm list \<Rightarrow> 's \<Rightarrow> bool" where
  "recovers apply_m log durable s0 written s \<longleftrightarrow>
     durable (replay apply_m (written @ log s) s0) = durable s"

locale mutation_log =
  fixes apply_m :: "'m \<Rightarrow> 's \<Rightarrow> 's \<times> 'm option"
    and mutate :: "'m \<Rightarrow> 's \<Rightarrow> 's"
    and push :: "'m \<Rightarrow> 's \<Rightarrow> 's"
    and log :: "'s \<Rightarrow> 'm list"
    and durable :: "'s \<Rightarrow> 'd"
  assumes mutate_eq: "mutate m s =
      (case apply_m m s of (s', Some m') \<Rightarrow> push m' s' | (s', None) \<Rightarrow> s')"
    and log_apply: "log (fst (apply_m m s)) = log s"
    and log_push: "log (push m s) = log s @ [m]"
    and durable_push: "durable (push m s) = durable s"
    and unstaged_unchanged: "snd (apply_m m s) = None \<Longrightarrow> durable (fst (apply_m m s)) = durable s"
    and durable_apply: "durable s = durable t \<Longrightarrow> durable (fst (apply_m m s)) = durable (fst (apply_m m t))"
    and staged_same: "snd (apply_m m s) = Some m' \<Longrightarrow>
      durable (fst (apply_m m' s)) = durable (fst (apply_m m s))"
begin

lemma durable_replay:
  "durable s = durable t \<Longrightarrow> durable (replay apply_m ms s) = durable (replay apply_m ms t)"
proof (induction ms arbitrary: s t)
  case (Cons m ms)
  show ?case using Cons.IH [OF durable_apply [OF Cons.prems]] by simp
qed simp

lemma durable_mutate: "durable (mutate m s) = durable (fst (apply_m m s))"
  by (simp add: mutate_eq durable_push split: prod.splits option.splits)

lemma recovers_start: "log s = [] \<Longrightarrow> durable s = durable s0 \<Longrightarrow> recovers apply_m log durable s0 [] s"
  by (simp add: recovers_def)

lemma recovers_cong:
  "recovers apply_m log durable s0 written s \<Longrightarrow> log s' = log s \<Longrightarrow> durable s' = durable s \<Longrightarrow>
   recovers apply_m log durable s0 written s'"
  by (simp add: recovers_def)

lemma recovers_mutate:
  assumes "recovers apply_m log durable s0 written s"
  shows "recovers apply_m log durable s0 written (mutate m s)"
proof (cases "snd (apply_m m s)")
  case None
  then obtain s' where "apply_m m s = (s', None)" by (cases "apply_m m s") auto
  then show ?thesis
    using assms log_apply [of m s] unstaged_unchanged [OF None]
    by (simp add: recovers_def mutate_eq)
next
  case (Some m')
  then obtain s' where s': "apply_m m s = (s', Some m')" by (cases "apply_m m s") auto
  have "durable (fst (apply_m m' (replay apply_m (written @ log s) s0))) = durable (fst (apply_m m' s))"
    by (rule durable_apply) (use assms in \<open>simp add: recovers_def\<close>)
  also have "\<dots> = durable s'" using staged_same [OF Some] s' by simp
  finally show ?thesis
    using log_apply [of m s] s' by (simp add: recovers_def mutate_eq log_push durable_push)
qed

text \<open>Writing out the oldest staged mutation.\<close>

lemma recovers_write:
  "recovers apply_m log durable s0 written s \<Longrightarrow> log s = m # log s' \<Longrightarrow> durable s' = durable s \<Longrightarrow>
   recovers apply_m log durable s0 (written @ [m]) s'"
  by (simp add: recovers_def)

end

subsection \<open>Mutations that can panic\<close>

text \<open>
  On the coordinator applying a mutation can panic, and an ignored mutation can leave traces that
  nothing durable depends on. The locale is stated with a simulation \<open>sim s t\<close>: the replayed state
  \<open>t\<close> stands for the state in memory \<open>s\<close>; and with the mutations that are admissible in a state. The
  conclusion is stronger for it: the replay does not panic.
\<close>

fun replay_all ::
  "('m \<Rightarrow> 's \<Rightarrow> ('e, 's \<times> 'm option) result) \<Rightarrow> 'm list \<Rightarrow> 's \<Rightarrow> ('e, 's) result" where
  "replay_all apply_m [] s = Ok s"
| "replay_all apply_m (m # ms) s = and_then (apply_m m s) (\<lambda>(s, _). replay_all apply_m ms s)"

lemma replay_all_append:
  "replay_all apply_m (ms @ ms') s = and_then (replay_all apply_m ms s) (replay_all apply_m ms')"
  by (induction ms arbitrary: s) (simp_all add: and_then_assoc case_prod_unfold)

definition recoverable ::
  "('m \<Rightarrow> 's \<Rightarrow> ('e, 's \<times> 'm option) result) \<Rightarrow> ('s \<Rightarrow> 'm list) \<Rightarrow> ('s \<Rightarrow> 's \<Rightarrow> bool) \<Rightarrow>
    's \<Rightarrow> 'm list \<Rightarrow> 's \<Rightarrow> bool" where
  "recoverable apply_m log sim s0 written s \<longleftrightarrow>
     (\<exists>t. replay_all apply_m (written @ log s) s0 = Ok t \<and> sim s t)"

locale fallible_log =
  fixes apply_m :: "'m \<Rightarrow> 's \<Rightarrow> ('e, 's \<times> 'm option) result"
    and mutate :: "'m \<Rightarrow> 's \<Rightarrow> ('e, 's) result"
    and push :: "'m \<Rightarrow> 's \<Rightarrow> 's"
    and log :: "'s \<Rightarrow> 'm list"
    and sim :: "'s \<Rightarrow> 's \<Rightarrow> bool"
    and admissible :: "'m \<Rightarrow> 's \<Rightarrow> bool"
  assumes mutate_eq: "mutate m s = and_then (apply_m m s)
      (\<lambda>(s', r). Ok (case r of Some m' \<Rightarrow> push m' s' | None \<Rightarrow> s'))"
    and log_apply: "apply_m m s = Ok (s', r) \<Longrightarrow> log s' = log s"
    and log_push: "log (push m s) = log s @ [m]"
    and sim_push: "sim s t \<Longrightarrow> sim (push m s) t"
    and sim_staged: "sim s t \<Longrightarrow> admissible m s \<Longrightarrow> apply_m m s = Ok (s', Some m') \<Longrightarrow>
      \<exists>t' r. apply_m m' t = Ok (t', r) \<and> sim s' t'"
    and sim_unstaged: "sim s t \<Longrightarrow> admissible m s \<Longrightarrow> apply_m m s = Ok (s', None) \<Longrightarrow> sim s' t"
begin

lemma recoverable_start: "log s = [] \<Longrightarrow> sim s s0 \<Longrightarrow> recoverable apply_m log sim s0 [] s"
  by (simp add: recoverable_def)

lemma recoverable_mutate:
  assumes "recoverable apply_m log sim s0 written s" "admissible m s" "mutate m s = Ok s'"
  shows "recoverable apply_m log sim s0 written s'"
proof -
  obtain t where t: "replay_all apply_m (written @ log s) s0 = Ok t" "sim s t"
    using assms(1) by (auto simp: recoverable_def)
  obtain s1 r where s1: "apply_m m s = Ok (s1, r)" "s' = (case r of Some m' \<Rightarrow> push m' s1 | None \<Rightarrow> s1)"
    using assms(3) by (auto simp: mutate_eq result_iff)
  have log1: "log s1 = log s" by (rule log_apply [OF s1(1)])
  show ?thesis
  proof (cases r)
    case None
    then show ?thesis using t s1 log1 sim_unstaged [OF t(2) assms(2)] by (simp add: recoverable_def)
  next
    case (Some m')
    then obtain t' r' where t': "apply_m m' t = Ok (t', r')" "sim s1 t'"
      using sim_staged [OF t(2) assms(2)] s1(1) by blast
    have "replay_all apply_m (written @ log s') s0 = Ok t'"
      using t(1) t'(1) s1(2) log1 Some
      by (auto simp: log_push replay_all_append and_then_assoc result_iff)
    then show ?thesis using sim_push [OF t'(2)] s1(2) Some by (auto simp: recoverable_def)
  qed
qed

lemma recoverable_write:
  "recoverable apply_m log sim s0 written s \<Longrightarrow> log s = m # log s' \<Longrightarrow> (\<And>t. sim s t \<Longrightarrow> sim s' t) \<Longrightarrow>
   recoverable apply_m log sim s0 (written @ [m]) s'"
  by (auto simp: recoverable_def)

lemma recoverable_cong:
  "recoverable apply_m log sim s0 written s \<Longrightarrow> log s' = log s \<Longrightarrow> (\<And>t. sim s t \<Longrightarrow> sim s' t) \<Longrightarrow>
   recoverable apply_m log sim s0 written s'"
  by (auto simp: recoverable_def)

end

end
