(* ===== verification/CoordState.thy ===== *)
theory CoordState
  imports CoordNonces CoordRestoring StagedMutations
begin

section \<open>The state of the coordinator\<close>

text \<open>
  Models the data of \<^verbatim>\<open>frostsnap_core/src/coordinator.rs\<close> and of \<^verbatim>\<open>coordinator/keys.rs\<close> and
  \<^verbatim>\<open>coordinator/signing.rs\<close>: the keys and who holds which share, the key generations and signing
  sessions under way, and \<^verbatim>\<open>apply_mutation\<close>, the only place where the durable part changes.
  A \<^verbatim>\<open>HashMap\<close> is a sorted map (the code looks entries up; where it iterates, the order is
  unspecified in the code and the map's here). The values of \<^verbatim>\<open>schnorr_fun\<close>'s signing sessions
  and of the key generation protocol are opaque and their operations parameters.
\<close>

subsection \<open>What the coordinator uses of the libraries\<close>

type_synonym coord_session = bytes
type_synonym verification_share = bytes
type_synonym input_aggregator = bytes
type_synonym aux_contributor = bytes
type_synonym certifier = bytes

record session_ops =
  new_session ::
    "shared_key \<Rightarrow> (share_index, pub_nonce) btree \<Rightarrow> schnorr_message \<Rightarrow> rng \<Rightarrow> coord_session \<times> rng"
  session_agg_binonce :: "coord_session \<Rightarrow> pub_nonce"
  session_parties :: "coord_session \<Rightarrow> share_index list"
  verification_share_of :: "shared_key \<Rightarrow> share_index \<Rightarrow> verification_share"
  session_verify_share :: "coord_session \<Rightarrow> verification_share \<Rightarrow> sig_share \<Rightarrow> bool"
  session_combine :: "coord_session \<Rightarrow> sig_share list \<Rightarrow> encoded_signature"

record coord_pedpop =
  aggregator_new :: "nat \<Rightarrow> nat \<Rightarrow> nat \<Rightarrow> input_aggregator"
  aux_keygen_input ::
    "nat \<Rightarrow> point list \<Rightarrow> point list \<Rightarrow> nat \<Rightarrow> rng \<Rightarrow> (aux_contributor \<times> keygen_input) option \<times> rng"
  add_aux_input :: "input_aggregator \<Rightarrow> nat \<Rightarrow> keygen_input \<Rightarrow> input_aggregator option"
  add_receiver_input :: "input_aggregator \<Rightarrow> nat \<Rightarrow> keygen_input \<Rightarrow> input_aggregator option"
  aggregator_finished :: "input_aggregator \<Rightarrow> bool"
  aggregator_finish :: "input_aggregator \<Rightarrow> fingerprint \<Rightarrow> agg_keygen_input option"
  aux_verify_agg_input ::
    "aux_contributor \<Rightarrow> agg_keygen_input \<Rightarrow> keypair \<Rightarrow> (bytes \<times> vrf_proof) option"
  certifier_new :: "bytes \<Rightarrow> certifier"
  receive_certificate :: "certifier \<Rightarrow> point \<Rightarrow> vrf_proof \<Rightarrow> certifier option"
  certifier_finished :: "certifier \<Rightarrow> bool"
  certifier_finish :: "certifier \<Rightarrow> certified_keygen option"
  keygen_certificate :: "certified_keygen \<Rightarrow> certificate"
  keygen_session_hash :: "certified_keygen \<Rightarrow> session_hash"
  keygen_shared_key :: "certified_keygen \<Rightarrow> shared_key"
  keygen_n_receivers :: "certified_keygen \<Rightarrow> nat"
  keygen_receiver_keys :: "certified_keygen \<Rightarrow> (share_index \<times> point) list"

record coord_env =
  ce_crypto :: crypto
  ce_tx_ops :: tx_ops
  ce_frost_ops :: frost_ops
  ce_sessions :: session_ops
  ce_pedpop :: coord_pedpop
  ce_encode_request :: encode_request
  ce_schnorr_verify :: schnorr_verify
  ce_random_keypair :: "rng \<Rightarrow> keypair \<times> rng"

subsection \<open>Keys\<close>

record coord_access_structure =
  cas_app_shared_key :: "shared_key xpub"
  cas_device_to_share_index :: "(device_id, share_index) btree"
  cas_kind :: access_structure_kind

record complete_key =
  ck_master_appkey :: master_appkey
  ck_encrypted_rootkey :: ciphertext
  ck_access_structures :: "(access_structure_id, coord_access_structure) btree"

record coord_frost_key =
  cfk_key_id :: key_id
  cfk_complete_key :: complete_key
  cfk_key_name :: string
  cfk_purpose :: key_purpose

definition cas_threshold :: "coord_access_structure \<Rightarrow> ('e, nat) result" where
  "cas_threshold a =
     expect ''threshold too large'' (u16_try_from (shared_threshold (xpub_key (cas_app_shared_key a))))"

definition cas_master_appkey :: "crypto \<Rightarrow> coord_access_structure \<Rightarrow> master_appkey" where
  "cas_master_appkey C a = from_xpub_unchecked (shared_key_tweakable C) (cas_app_shared_key a)"

definition cas_id :: "crypto \<Rightarrow> coord_access_structure \<Rightarrow> access_structure_id" where
  "cas_id C a = access_structure_id_of C (xpub_key (cas_app_shared_key a))"

definition cas_ref :: "crypto \<Rightarrow> coord_access_structure \<Rightarrow> access_structure_ref" where
  "cas_ref C a = AccessStructureRef (key_id_of_master_appkey C (cas_master_appkey C a)) (cas_id C a)"

definition cas_devices :: "coord_access_structure \<Rightarrow> device_id list" where
  "cas_devices a = bt_keys (cas_device_to_share_index a)"

definition cas_contains_device :: "coord_access_structure \<Rightarrow> device_id \<Rightarrow> bool" where
  "cas_contains_device a d \<longleftrightarrow> bt_get (cas_device_to_share_index a) d \<noteq> None"

definition share_index_to_devices :: "coord_access_structure \<Rightarrow> (share_index, device_id list) btree" where
  "share_index_to_devices a = fold (\<lambda>(d, i). bt_push i d) (cas_device_to_share_index a) []"

definition devices_by_share_index :: "coord_access_structure \<Rightarrow> device_id list" where
  "devices_by_share_index a = concat (bt_values (share_index_to_devices a))"

text \<open>The polynomial of the root key: the application key's with the decrypted root key as its
  constant coefficient, which is not zero.\<close>

definition complete_root_shared_key ::
  "crypto \<Rightarrow> complete_key \<Rightarrow> access_structure_id \<Rightarrow> bytes \<Rightarrow> shared_key option" where
  "complete_root_shared_key C k asid encryption_key =
     Option.bind (bt_get (ck_access_structures k) asid) (\<lambda>a.
     Option.bind (ct_decrypt_point C encryption_key (ck_encrypted_rootkey k)) (\<lambda>rootkey.
       Some ((xpub_key (cas_app_shared_key a))[0 := rootkey])))"

definition coord_decryption_contrib ::
  "crypto \<Rightarrow> complete_key \<Rightarrow> access_structure_id \<Rightarrow> device_id \<Rightarrow> bytes \<Rightarrow> (point \<times> bytes) option" where
  "coord_decryption_contrib C k asid d encryption_key =
     Option.bind (complete_root_shared_key C k asid encryption_key) (\<lambda>root.
     Option.bind (bt_get (ck_access_structures k) asid) (\<lambda>a.
     Option.bind (bt_get (cas_device_to_share_index a) d) (\<lambda>i.
       Some (shared_public_key root, share_decryption_contrib C d i root))))"

subsection \<open>Key generations under way\<close>

record keygen_waiting_responses =
  kwr_keygen_id :: keygen_id
  kwr_input_aggregator :: input_aggregator
  kwr_devices :: "device_id list"
  kwr_key_name :: string
  kwr_purpose :: key_purpose
  kwr_contributer :: aux_contributor
  kwr_keypair :: keypair

record keygen_waiting_certificates =
  kwc_keygen_id :: keygen_id
  kwc_devices :: "device_id list"
  kwc_key_name :: string
  kwc_purpose :: key_purpose
  kwc_certifier :: certifier
  kwc_keypair :: keypair

record keygen_waiting_acks =
  kwa_certified :: certified_keygen
  kwa_devices :: "device_id list"
  kwa_acks :: "device_id list"
  kwa_key_name :: string
  kwa_purpose :: key_purpose

record keygen_needs_finalize =
  knf_root_shared_key :: shared_key
  knf_device_to_share_index :: "(device_id, share_index) btree"
  knf_key_name :: string
  knf_purpose :: key_purpose

datatype keygen_state =
    WaitingForResponses keygen_waiting_responses
  | WaitingForCertificates keygen_waiting_certificates
  | WaitingForAcks keygen_waiting_acks
  | NeedsFinalize keygen_needs_finalize

subsection \<open>Signing sessions\<close>

record start_sign =
  ss_nonces :: "(device_id, coord_nonce_state) btree"
  ss_group_request :: "wire_sign_task group_sign_req"

record session_progress =
  sp_sign_item :: sign_item
  sp_session :: coord_session
  sp_signature_shares :: "(device_id, sig_share) btree"
  sp_app_shared_key :: "shared_key xpub"

record active_session =
  as_progress :: "session_progress list"
  as_init :: start_sign
  as_key_id :: key_id
  as_sent_req :: "device_id list"

record finished_session =
  fin_init :: start_sign
  fin_signatures :: "encoded_signature list"
  fin_key_id :: key_id

datatype sign_session = ActiveSession active_session | FinishedSession finished_session

definition session_key_id :: "sign_session \<Rightarrow> key_id" where
  "session_key_id s = (case s of ActiveSession a \<Rightarrow> as_key_id a | FinishedSession f \<Rightarrow> fin_key_id f)"

definition as_ref :: "active_session \<Rightarrow> access_structure_ref" where
  "as_ref s = AccessStructureRef (as_key_id s) (gsr_access_structure_id (ss_group_request (as_init s)))"

definition as_session_id :: "coord_env \<Rightarrow> active_session \<Rightarrow> sign_session_id" where
  "as_session_id E s = session_id_of (ce_crypto E) (ce_encode_request E) (ss_group_request (as_init s))"

definition as_received_from :: "active_session \<Rightarrow> device_id list" where
  "as_received_from s = (case as_progress s of [] \<Rightarrow> [] | p # _ \<Rightarrow> bt_keys (sp_signature_shares p))"

definition has_received_from :: "active_session \<Rightarrow> device_id \<Rightarrow> bool" where
  "has_received_from s d \<longleftrightarrow>
     (case as_progress s of [] \<Rightarrow> False | p # _ \<Rightarrow> bt_get (sp_signature_shares p) d \<noteq> None)"

subsection \<open>The coordinator\<close>

datatype key_mutation =
    NewKey string key_purpose complete_key
  | NewAccessStructure "shared_key xpub" access_structure_kind
  | NewShare access_structure_ref device_id share_index
  | DeleteKey key_id
  | DeleteShare access_structure_ref device_id

datatype signing_mutation =
    NewNonces device_id nonce_segment
  | NewSigningSession active_session
  | SentSignReq sign_session_id device_id
  | GotSignatureShares sign_session_id device_id "sig_share list"
  | CloseSignSession sign_session_id "encoded_signature list option"
  | ForgetFinishedSignSession sign_session_id

datatype coord_mutation =
    KeygenMutation key_mutation
  | SigningMutation signing_mutation
  | RestorationMutation coord_restoration_mutation

record frost_coordinator =
  fc_keys :: "(key_id, coord_frost_key) btree"
  fc_key_order :: "key_id list"
  fc_pending_keygens :: "(keygen_id, keygen_state) btree"
  fc_nonce_cache :: nonce_cache
  fc_mutations :: "coord_mutation list"
  fc_active_sessions :: "(sign_session_id, active_session) btree"
  fc_session_order :: "sign_session_id list"
  fc_finished_sessions :: "(sign_session_id, finished_session) btree"
  fc_restoration :: restorations
  fc_fingerprint :: fingerprint

definition new_coordinator :: "fingerprint \<Rightarrow> frost_coordinator" where
  "new_coordinator fp =
     \<lparr>fc_keys = [], fc_key_order = [], fc_pending_keygens = [], fc_nonce_cache = empty_nonce_cache,
      fc_mutations = [], fc_active_sessions = [], fc_session_order = [], fc_finished_sessions = [],
      fc_restoration = empty_restorations, fc_fingerprint = fp\<rparr>"

subsection \<open>Applying a mutation\<close>

text \<open>\<open>Some\<close> is a change to stage, \<open>None\<close> an ignored mutation.\<close>

type_synonym applied = "frost_coordinator \<times> coord_mutation option"

definition update_access_structure ::
  "access_structure_ref \<Rightarrow> (coord_access_structure \<Rightarrow> coord_access_structure) \<Rightarrow>
    frost_coordinator \<Rightarrow> frost_coordinator" where
  "update_access_structure asr f co =
     co\<lparr>fc_keys := bt_modify (asr_key_id asr) (\<lambda>k. k\<lparr>cfk_complete_key := (cfk_complete_key k)
         \<lparr>ck_access_structures := bt_modify (asr_access_structure_id asr) f
            (ck_access_structures (cfk_complete_key k))\<rparr>\<rparr>) (fc_keys co)\<rparr>"

definition lookup_access_structure ::
  "access_structure_ref \<Rightarrow> frost_coordinator \<Rightarrow> coord_access_structure option" where
  "lookup_access_structure asr co =
     Option.bind (bt_get (fc_keys co) (asr_key_id asr)) (\<lambda>k.
       bt_get (ck_access_structures (cfk_complete_key k)) (asr_access_structure_id asr))"

definition ensure_key ::
  "crypto \<Rightarrow> complete_key \<Rightarrow> string \<Rightarrow> key_purpose \<Rightarrow> frost_coordinator \<Rightarrow> frost_coordinator" where
  "ensure_key C k name purpose co =
     (let kid = key_id_of_master_appkey C (ck_master_appkey k) in
      if bt_get (fc_keys co) kid \<noteq> None then co
      else co\<lparr>fc_keys := bt_insert kid \<lparr>cfk_key_id = kid, cfk_complete_key = k, cfk_key_name = name,
                 cfk_purpose = purpose\<rparr> (fc_keys co),
              fc_key_order := fc_key_order co @ [kid]\<rparr>)"

definition apply_new_access_structure ::
  "crypto \<Rightarrow> shared_key xpub \<Rightarrow> access_structure_kind \<Rightarrow> frost_coordinator \<Rightarrow> frost_coordinator \<times> bool" where
  "apply_new_access_structure C shared_key kind co =
     (let asid = access_structure_id_of C (xpub_key shared_key);
          kid = key_id_of_master_appkey C (from_xpub_unchecked (shared_key_tweakable C) shared_key)
      in case bt_get (fc_keys co) kid of
           None \<Rightarrow> (co, False)
         | Some k \<Rightarrow>
             if bt_get (ck_access_structures (cfk_complete_key k)) asid \<noteq> None then (co, False)
             else (co\<lparr>fc_keys := bt_insert kid (k\<lparr>cfk_complete_key := (cfk_complete_key k)
                     \<lparr>ck_access_structures := bt_insert asid
                        \<lparr>cas_app_shared_key = shared_key, cas_device_to_share_index = [], cas_kind = kind\<rparr>
                        (ck_access_structures (cfk_complete_key k))\<rparr>\<rparr>) (fc_keys co)\<rparr>, True))"

definition apply_new_share ::
  "access_structure_ref \<Rightarrow> device_id \<Rightarrow> share_index \<Rightarrow> frost_coordinator \<Rightarrow> frost_coordinator \<times> bool" where
  "apply_new_share asr d i co =
     (case lookup_access_structure asr co of
        None \<Rightarrow> (co, False)
      | Some a \<Rightarrow>
          if bt_get (cas_device_to_share_index a) d = Some i then (co, False)
          else (update_access_structure asr (\<lambda>a. a\<lparr>cas_device_to_share_index :=
                  bt_insert d i (cas_device_to_share_index a)\<rparr>) co, True))"

definition apply_delete_share ::
  "access_structure_ref \<Rightarrow> device_id \<Rightarrow> frost_coordinator \<Rightarrow> frost_coordinator \<times> bool" where
  "apply_delete_share asr d co =
     (case lookup_access_structure asr co of
        None \<Rightarrow> (co, False)
      | Some a \<Rightarrow>
          if bt_get (cas_device_to_share_index a) d = None then (co, False)
          else (update_access_structure asr (\<lambda>a. a\<lparr>cas_device_to_share_index :=
                  bt_remove d (cas_device_to_share_index a)\<rparr>) co, True))"

text \<open>Closing a session uses up the nonces of every device a request was sent to.\<close>

fun consume_sent ::
  "device_id list \<Rightarrow> nat \<Rightarrow> (device_id \<times> coord_nonce_state) list \<Rightarrow> nonce_cache \<Rightarrow>
    ('e, nonce_cache) result" where
  "consume_sent sent n [] c = Ok c"
| "consume_sent sent n ((d, ns) # rest) c =
     (if d \<in> set sent
      then and_then (expect ''no overflow'' (u32_checked_add (cns_index ns) (u32_of_usize n))) (\<lambda>up_to.
           and_then (consume c d (cns_stream_id ns) up_to) (\<lambda>(c, _). consume_sent sent n rest c))
      else consume_sent sent n rest c)"

definition close_sign_session ::
  "sign_session_id \<Rightarrow> encoded_signature list option \<Rightarrow> frost_coordinator \<Rightarrow>
    ('e, frost_coordinator \<times> bool) result" where
  "close_sign_session sid finished co =
     (if sid \<notin> set (fc_session_order co) then Ok (co, False)
      else
        and_then (expect ''it existed in the order'' (bt_get (fc_active_sessions co) sid)) (\<lambda>st.
        and_then (consume_sent (as_sent_req st) (n_signatures (ss_group_request (as_init st)))
                    (ss_nonces (as_init st)) (fc_nonce_cache co)) (\<lambda>cache.
          Ok (co\<lparr>fc_session_order := remove1 sid (fc_session_order co),
                fc_active_sessions := bt_remove sid (fc_active_sessions co),
                fc_nonce_cache := cache,
                fc_finished_sessions :=
                  (case finished of
                     None \<Rightarrow> fc_finished_sessions co
                   | Some signatures \<Rightarrow> bt_insert sid \<lparr>fin_init = as_init st, fin_signatures = signatures,
                       fin_key_id = as_key_id st\<rparr> (fc_finished_sessions co))\<rparr>, True))))"

fun close_sign_sessions ::
  "sign_session_id list \<Rightarrow> frost_coordinator \<Rightarrow> ('e, frost_coordinator) result" where
  "close_sign_sessions [] co = Ok co"
| "close_sign_sessions (sid # sids) co =
     and_then (close_sign_session sid None co) (\<lambda>(co, _). close_sign_sessions sids co)"

definition sessions_of_key :: "key_id \<Rightarrow> frost_coordinator \<Rightarrow> sign_session_id list" where
  "sessions_of_key kid co = map fst (filter (\<lambda>(_, s). as_key_id s = kid) (fc_active_sessions co))"

definition apply_delete_key ::
  "key_id \<Rightarrow> frost_coordinator \<Rightarrow> ('e, frost_coordinator \<times> bool) result" where
  "apply_delete_key kid co =
     (if bt_get (fc_keys co) kid = None then Ok (co, False)
      else
        (let co = co\<lparr>fc_keys := bt_remove kid (fc_keys co),
                     fc_key_order := filter (\<lambda>k. k \<noteq> kid) (fc_key_order co),
                     fc_restoration := clear_up_key_deletion kid (fc_restoration co)\<rparr>
         in and_then (close_sign_sessions (sessions_of_key kid co) co) (\<lambda>co. Ok (co, True))))"

definition staged_if :: "coord_mutation \<Rightarrow> frost_coordinator \<times> bool \<Rightarrow> applied" where
  "staged_if m r = (fst r, if snd r then Some m else None)"

definition apply_key_mutation ::
  "coord_env \<Rightarrow> key_mutation \<Rightarrow> frost_coordinator \<Rightarrow> ('e, frost_coordinator \<times> bool) result" where
  "apply_key_mutation E m co =
     (case m of
        NewKey name purpose k \<Rightarrow> Ok (ensure_key (ce_crypto E) k name purpose co, True)
      | NewAccessStructure k kind \<Rightarrow> Ok (apply_new_access_structure (ce_crypto E) k kind co)
      | NewShare asr d i \<Rightarrow> Ok (apply_new_share asr d i co)
      | DeleteShare asr d \<Rightarrow> Ok (apply_delete_share asr d co)
      | DeleteKey kid \<Rightarrow> apply_delete_key kid co)"

text \<open>A response with too many nonces, or one that cannot be joined, leaves the vacant entry it
  filled (see \<open>extend_segment\<close>) and is not staged.\<close>

definition apply_new_nonces ::
  "device_id \<Rightarrow> nonce_segment \<Rightarrow> frost_coordinator \<Rightarrow> ('e, frost_coordinator \<times> bool) result" where
  "apply_new_nonces d segment co =
     (case extend_segment (fc_nonce_cache co) d segment of
        (cache, Ok changed) \<Rightarrow> Ok (co\<lparr>fc_nonce_cache := cache\<rparr>, changed)
      | (cache, Err e) \<Rightarrow> Ok (co\<lparr>fc_nonce_cache := cache\<rparr>, False)
      | (cache, Panic m) \<Rightarrow> Panic m)"

fun record_shares :: "device_id \<Rightarrow> session_progress list \<Rightarrow> sig_share list \<Rightarrow> session_progress list" where
  "record_shares d (p # ps) (s # ss) =
     p\<lparr>sp_signature_shares := bt_insert d s (sp_signature_shares p)\<rparr> # record_shares d ps ss"
| "record_shares d ps ss = ps"

definition apply_signing_mutation ::
  "coord_env \<Rightarrow> signing_mutation \<Rightarrow> frost_coordinator \<Rightarrow> ('e, frost_coordinator \<times> bool) result" where
  "apply_signing_mutation E m co =
     (case m of
        NewNonces d segment \<Rightarrow> apply_new_nonces d segment co
      | NewSigningSession s \<Rightarrow>
          Ok (co\<lparr>fc_active_sessions := bt_insert (as_session_id E s) s (fc_active_sessions co),
                fc_session_order := fc_session_order co @ [as_session_id E s]\<rparr>, True)
      | GotSignatureShares sid d shares \<Rightarrow>
          Ok (co\<lparr>fc_active_sessions := bt_modify sid
                (\<lambda>s. s\<lparr>as_progress := record_shares d (as_progress s) shares\<rparr>) (fc_active_sessions co)\<rparr>, True)
      | SentSignReq sid d \<Rightarrow>
          (case bt_get (fc_active_sessions co) sid of
             None \<Rightarrow> Ok (co, False)
           | Some s \<Rightarrow>
               if d \<in> set (as_sent_req s) then Ok (co, False)
               else Ok (co\<lparr>fc_active_sessions := bt_insert sid (s\<lparr>as_sent_req := bs_insert d (as_sent_req s)\<rparr>)
                          (fc_active_sessions co)\<rparr>, True))
      | CloseSignSession sid finished \<Rightarrow> close_sign_session sid finished co
      | ForgetFinishedSignSession sid \<Rightarrow>
          Ok (co\<lparr>fc_finished_sessions := bt_remove sid (fc_finished_sessions co)\<rparr>, True))"

definition coord_apply ::
  "coord_env \<Rightarrow> coord_mutation \<Rightarrow> frost_coordinator \<Rightarrow> ('e, applied) result" where
  "coord_apply E m co =
     (case m of
        KeygenMutation k \<Rightarrow> and_then (apply_key_mutation E k co) (\<lambda>r. Ok (staged_if m r))
      | SigningMutation s \<Rightarrow> and_then (apply_signing_mutation E s co) (\<lambda>r. Ok (staged_if m r))
      | RestorationMutation r \<Rightarrow>
          (case coord_apply_restoration (ce_crypto E) (ce_frost_ops E) r (fc_fingerprint co) (fc_restoration co) of
             (rs, staged) \<Rightarrow> Ok (co\<lparr>fc_restoration := rs\<rparr>, map_option RestorationMutation staged)))"

definition coord_push :: "coord_mutation \<Rightarrow> frost_coordinator \<Rightarrow> frost_coordinator" where
  "coord_push m co = co\<lparr>fc_mutations := fc_mutations co @ [m]\<rparr>"

definition coord_mutate ::
  "coord_env \<Rightarrow> coord_mutation \<Rightarrow> frost_coordinator \<Rightarrow> ('e, frost_coordinator) result" where
  "coord_mutate E m co =
     and_then (coord_apply E m co) (\<lambda>(co, staged).
       Ok (case staged of Some m' \<Rightarrow> coord_push m' co | None \<Rightarrow> co))"

fun coord_mutate_all ::
  "coord_env \<Rightarrow> coord_mutation list \<Rightarrow> frost_coordinator \<Rightarrow> ('e, frost_coordinator) result" where
  "coord_mutate_all E [] co = Ok co"
| "coord_mutate_all E (m # ms) co = and_then (coord_mutate E m co) (coord_mutate_all E ms)"

definition take_staged_mutations :: "frost_coordinator \<Rightarrow> coord_mutation list \<times> frost_coordinator" where
  "take_staged_mutations co = (fc_mutations co, co\<lparr>fc_mutations := []\<rparr>)"

definition tied_to_key :: "coord_env \<Rightarrow> frost_coordinator \<Rightarrow> coord_mutation \<Rightarrow> key_id option" where
  "tied_to_key E co m =
     (let C = ce_crypto E;
          of_session = (\<lambda>sid. case bt_get (fc_active_sessions co) sid of
             Some s \<Rightarrow> Some (as_key_id s)
           | None \<Rightarrow> map_option fin_key_id (bt_get (fc_finished_sessions co) sid))
      in case m of
           KeygenMutation (NewKey _ _ k) \<Rightarrow> Some (key_id_of_master_appkey C (ck_master_appkey k))
         | KeygenMutation (NewAccessStructure k _) \<Rightarrow>
             Some (key_id_of_master_appkey C (from_xpub_unchecked (shared_key_tweakable C) k))
         | KeygenMutation (NewShare asr _ _) \<Rightarrow> Some (asr_key_id asr)
         | KeygenMutation (DeleteShare asr _) \<Rightarrow> Some (asr_key_id asr)
         | KeygenMutation (DeleteKey kid) \<Rightarrow> Some kid
         | SigningMutation (NewNonces _ _) \<Rightarrow> None
         | SigningMutation (NewSigningSession s) \<Rightarrow> Some (as_key_id s)
         | SigningMutation (SentSignReq sid _) \<Rightarrow> of_session sid
         | SigningMutation (GotSignatureShares sid _ _) \<Rightarrow> of_session sid
         | SigningMutation (CloseSignSession sid _) \<Rightarrow> of_session sid
         | SigningMutation (ForgetFinishedSignSession sid) \<Rightarrow> of_session sid
         | RestorationMutation r \<Rightarrow> restoration_tied_to_key r)"

definition tied_to_restoration :: "coord_mutation \<Rightarrow> restoration_id option" where
  "tied_to_restoration m =
     (case m of RestorationMutation r \<Rightarrow> restoration_tied_to_restoration r | _ \<Rightarrow> None)"

end
