(* ===== verification/CoordKeygen.thy ===== *)
theory CoordKeygen
  imports CoordState
begin

section \<open>Key generation on the coordinator\<close>

text \<open>
  Models the key generation of \<^verbatim>\<open>frostsnap_core/src/coordinator.rs\<close>: \<^verbatim>\<open>begin_keygen\<close>, the three
  messages of the devices, \<^verbatim>\<open>finalize_keygen\<close> and \<^verbatim>\<open>mutate_new_key\<close>. A handler takes the entry of
  the key generation out of the map and puts the next state back; where it returns an error
  before that, the key generation is gone. A handler returns the coordinator and the result.
\<close>

datatype keygen_user_message =
    ReceivedShares device_id
  | CheckKeyGenHash session_hash
  | KeyGenAckFrom device_id bool

datatype signing_user_message =
    GotShare sign_session_id device_id
  | Signed sign_session_id "encoded_signature list"

record physical_backup_phase =
  pbp_backup :: entered_physical_backup
  pbp_from :: device_id

datatype restoration_user_message =
    GotHeldShares device_id "held_share2 list"
  | PhysicalBackupEntered physical_backup_phase
  | PhysicalBackupSaved device_id restoration_id share_index
  | ConsolidationFinished device_id access_structure_ref share_index

datatype coord_user_message =
    UserKeyGen keygen_id keygen_user_message
  | UserSigning signing_user_message
  | UserRestoration restoration_user_message
  | ReplenishedNonces device_id

datatype coord_send =
    CoordToDevice coordinator_to_device "device_id list"
  | CoordToUser coord_user_message

type_synonym 'a coord_handled = "frost_coordinator \<times> (core_error, 'a) result"

definition coordinator_invalid_message :: "string \<Rightarrow> string \<Rightarrow> core_error" where
  "coordinator_invalid_message kind reason = InvalidMessage kind reason"

definition take_keygen :: "keygen_id \<Rightarrow> frost_coordinator \<Rightarrow> keygen_state option \<times> frost_coordinator" where
  "take_keygen kid co =
     (bt_get (fc_pending_keygens co) kid,
      co\<lparr>fc_pending_keygens := bt_remove kid (fc_pending_keygens co)\<rparr>)"

definition put_keygen :: "keygen_id \<Rightarrow> keygen_state \<Rightarrow> frost_coordinator \<Rightarrow> frost_coordinator" where
  "put_keygen kid st co = co\<lparr>fc_pending_keygens := bt_insert kid st (fc_pending_keygens co)\<rparr>"

subsection \<open>Beginning\<close>

record begin_keygen =
  bk_keygen_id :: keygen_id
  bk_devices_in_order :: "device_id list"
  bk_threshold :: nat
  bk_key_name :: string
  bk_purpose :: key_purpose

definition begin_keygen_devices :: "begin_keygen \<Rightarrow> device_id list" where
  "begin_keygen_devices b = bs_of_list (bk_devices_in_order b)"

definition begin_keygen_new ::
  "device_id list \<Rightarrow> nat \<Rightarrow> string \<Rightarrow> key_purpose \<Rightarrow> rng \<Rightarrow> begin_keygen \<times> rng" where
  "begin_keygen_new devices threshold name purpose rng =
     (let (kid, rng) = rng_draw rng
      in (\<lparr>bk_keygen_id = KeygenId kid, bk_devices_in_order = devices, bk_threshold = threshold,
           bk_key_name = name, bk_purpose = purpose\<rparr>, rng))"

definition coord_begin_keygen ::
  "coord_env \<Rightarrow> begin_keygen \<Rightarrow> rng \<Rightarrow> frost_coordinator \<Rightarrow>
    (frost_coordinator \<times> rng) \<times> (action_error, keygen_begin) result" where
  "coord_begin_keygen E b rng co =
     (let P = ce_pedpop E; devices = bk_devices_in_order b in
      if bt_get (fc_pending_keygens co) (bk_keygen_id b) \<noteq> None
      then ((co, rng), Err (StateInconsistent ''keygen with that id already in progress''))
      else
        (let (keypair, rng) = ce_random_keypair E rng in
         if length devices < bk_threshold b
         then ((co, rng), Panic ''caller needs to ensure that threshold < devices.len()'')
         else
           (let receiver_keys = map (device_pubkey (ce_crypto E)) devices;
                coordinator_public_keys = [kp_public keypair];
                aggregator = aggregator_new P (bk_threshold b) 1 (u32_of_usize (length devices));
                (generated, rng) = aux_keygen_input P (bk_threshold b) coordinator_public_keys receiver_keys 0 rng
            in or_return (ok_or (StateInconsistent ''gen_keygen_input failed'') generated) (co, rng)
                 (\<lambda>(contributer, inp).
               or_return (expect ''we just generated the input'' (add_aux_input P aggregator 0 inp)) (co, rng)
                 (\<lambda>aggregator.
               ((put_keygen (bk_keygen_id b) (WaitingForResponses
                   \<lparr>kwr_keygen_id = bk_keygen_id b, kwr_input_aggregator = aggregator,
                    kwr_devices = devices, kwr_key_name = bk_key_name b, kwr_purpose = bk_purpose b,
                    kwr_contributer = contributer, kwr_keypair = keypair\<rparr>) co, rng),
                Ok \<lparr>kb_keygen_id = bk_keygen_id b, kb_devices = devices, kb_threshold = bk_threshold b,
                    kb_key_name = bk_key_name b, kb_purpose = bk_purpose b,
                    kb_coordinator_public_keys = coordinator_public_keys\<rparr>))))))"

definition send_begin_keygen :: "keygen_begin \<Rightarrow> coord_send list" where
  "send_begin_keygen b = [CoordToDevice (KeyGenMsg (KgBegin b)) (bs_of_list (kb_devices b))]"

definition cancel_keygen :: "keygen_id \<Rightarrow> frost_coordinator \<Rightarrow> frost_coordinator" where
  "cancel_keygen kid co = snd (take_keygen kid co)"

subsection \<open>The devices' messages\<close>

text \<open>The coordinator certifies the aggregated input it has just made.\<close>

definition certify_own_input ::
  "coord_env \<Rightarrow> keygen_waiting_responses \<Rightarrow> fingerprint \<Rightarrow> ('e, agg_keygen_input \<times> certifier) result" where
  "certify_own_input E st fp =
     (let P = ce_pedpop E in
      and_then (expect ''input aggregator just reported finished''
          (aggregator_finish P (kwr_input_aggregator st) fp)) (\<lambda>agg_input.
      and_then (expect ''will be able to certify agg_input we created''
          (aux_verify_agg_input P (kwr_contributer st) agg_input (kwr_keypair st))) (\<lambda>(verified, cert).
      and_then (expect ''will be able to verify our own certificate''
          (receive_certificate P (certifier_new P verified) (kp_public (kwr_keypair st)) cert)) (\<lambda>certifier.
        Ok (agg_input, certifier)))))"

definition handle_keygen_response ::
  "coord_env \<Rightarrow> device_id \<Rightarrow> keygen_id \<Rightarrow> keygen_input \<Rightarrow> frost_coordinator \<Rightarrow> coord_send list coord_handled" where
  "handle_keygen_response E from kid inp co =
     (let P = ce_pedpop E; (state, co) = take_keygen kid co in
      case state of
        Some (WaitingForResponses st) \<Rightarrow>
          or_return (ok_or (coordinator_invalid_message ''KeyGen''
              ''got share from device that was not part of keygen'')
              (position (\<lambda>d. d = from) (kwr_devices st))) co (\<lambda>receiver_idx.
          or_return (ok_or (coordinator_invalid_message ''KeyGen'' ''couldn't add input'')
              (add_receiver_input P (kwr_input_aggregator st) (u32_of_usize receiver_idx) inp)) co (\<lambda>aggregator.
          let st = st\<lparr>kwr_input_aggregator := aggregator\<rparr>;
              received = CoordToUser (UserKeyGen kid (ReceivedShares from))
          in if aggregator_finished P aggregator
             then or_return (certify_own_input E st (fc_fingerprint co)) co (\<lambda>(agg_input, certifier).
               (put_keygen kid (WaitingForCertificates
                  \<lparr>kwc_keygen_id = kwr_keygen_id st, kwc_devices = kwr_devices st,
                   kwc_key_name = kwr_key_name st, kwc_purpose = kwr_purpose st,
                   kwc_certifier = certifier, kwc_keypair = kwr_keypair st\<rparr>) co,
                Ok [received,
                    CoordToDevice (KeyGenMsg (KgCertifyPlease kid agg_input)) (bs_of_list (kwr_devices st))]))
             else (put_keygen kid (WaitingForResponses st) co, Ok [received])))
      | _ \<Rightarrow> (co, Err (coordinator_invalid_message ''KeyGen''
                 ''keygen wasn't in WaitingForResponses state'')))"

definition handle_keygen_certify ::
  "coord_env \<Rightarrow> device_id \<Rightarrow> keygen_id \<Rightarrow> vrf_proof \<Rightarrow> frost_coordinator \<Rightarrow> coord_send list coord_handled" where
  "handle_keygen_certify E from kid cert co =
     (let P = ce_pedpop E; (state, co) = take_keygen kid co in
      case state of
        Some (WaitingForCertificates st) \<Rightarrow>
          or_return (ok_or (coordinator_invalid_message ''KeyGen'' ''Invalid VRF proof received'')
              (receive_certificate P (kwc_certifier st) (device_pubkey (ce_crypto E) from) cert)) co (\<lambda>certifier.
          let st = st\<lparr>kwc_certifier := certifier\<rparr> in
          if certifier_finished P certifier
          then or_return (expect ''just checked is_finished'' (certifier_finish P certifier)) co (\<lambda>certified.
            (put_keygen kid (WaitingForAcks
               \<lparr>kwa_certified = certified, kwa_devices = kwc_devices st, kwa_acks = [],
                kwa_key_name = kwc_key_name st, kwa_purpose = kwc_purpose st\<rparr>) co,
             Ok [CoordToDevice (KeyGenMsg (KgCheck kid (keygen_certificate P certified)))
                   (bs_of_list (kwc_devices st)),
                 CoordToUser (UserKeyGen kid (CheckKeyGenHash (keygen_session_hash P certified)))]))
          else (put_keygen kid (WaitingForCertificates st) co, Ok []))
      | _ \<Rightarrow> (co, Err (coordinator_invalid_message ''KeyGen''
                 ''received VRF proof for keygen but this keygen wasn't in WaitingForCertificates state'')))"

text \<open>The share index of each device, asserting that the devices are the protocol's receivers in
  the same order.\<close>

fun assign_indices ::
  "crypto \<Rightarrow> device_id list \<Rightarrow> (share_index \<times> point) list \<Rightarrow>
    ('e, (device_id \<times> share_index) list) result" where
  "assign_indices C (d # ds) ((i, key) # ks) =
     (if device_pubkey C d \<noteq> key then Panic ''device order must match keygen receiver order''
      else and_then (assign_indices C ds ks) (\<lambda>rest. Ok ((d, i) # rest)))"
| "assign_indices C ds ks = Ok []"

definition keygen_all_acked ::
  "coord_env \<Rightarrow> keygen_waiting_acks \<Rightarrow> ('e, keygen_needs_finalize) result" where
  "keygen_all_acked E st =
     (let P = ce_pedpop E in
      if keygen_n_receivers P (kwa_certified st) \<noteq> length (kwa_devices st)
      then Panic ''chilldkg receiver count must match devices_in_order''
      else and_then (assign_indices (ce_crypto E) (kwa_devices st) (keygen_receiver_keys P (kwa_certified st)))
        (\<lambda>indices.
          Ok \<lparr>knf_root_shared_key = keygen_shared_key P (kwa_certified st),
              knf_device_to_share_index = bt_of_list indices,
              knf_key_name = kwa_key_name st, knf_purpose = kwa_purpose st\<rparr>))"

definition handle_keygen_ack ::
  "coord_env \<Rightarrow> device_id \<Rightarrow> keygen_ack \<Rightarrow> frost_coordinator \<Rightarrow> coord_send list coord_handled" where
  "handle_keygen_ack E from ack co =
     (let P = ce_pedpop E; kid = ack_keygen_id ack; (state, co) = take_keygen kid co in
      case state of
        Some (WaitingForAcks st) \<Rightarrow>
          if ack_session_hash ack \<noteq> keygen_session_hash P (kwa_certified st)
          then (put_keygen kid (WaitingForAcks st) co,
                Err (coordinator_invalid_message ''KeyGen'' ''Device acked wrong keygen session hash''))
          else if from \<notin> set (kwa_devices st)
          then (put_keygen kid (WaitingForAcks st) co,
                Err (coordinator_invalid_message ''KeyGen''
                  ''Received ack from device not a member of keygen''))
          else if from \<in> set (kwa_acks st) then (put_keygen kid (WaitingForAcks st) co, Ok [])
          else
            (let st = st\<lparr>kwa_acks := bs_insert from (kwa_acks st)\<rparr>;
                 all_acks_received = (length (kwa_acks st) = length (kwa_devices st));
                 outgoing = [CoordToUser (UserKeyGen kid (KeyGenAckFrom from all_acks_received))]
             in if all_acks_received
                then or_return (keygen_all_acked E st) co (\<lambda>fin.
                       (put_keygen kid (NeedsFinalize fin) co, Ok outgoing))
                else (put_keygen kid (WaitingForAcks st) co, Ok outgoing))
      | _ \<Rightarrow> (co, Err (coordinator_invalid_message ''KeyGen''
                 ''received ACK for keygen but this keygen wasn't in WaitingForAcks state'')))"

definition handle_device_keygen ::
  "coord_env \<Rightarrow> device_id \<Rightarrow> device_keygen \<Rightarrow> frost_coordinator \<Rightarrow> coord_send list coord_handled" where
  "handle_device_keygen E from m co =
     (case m of
        KgResponse kid inp \<Rightarrow> handle_keygen_response E from kid inp co
      | KgCertify kid cert \<Rightarrow> handle_keygen_certify E from kid cert co
      | KgAck ack \<Rightarrow> handle_keygen_ack E from ack co)"

subsection \<open>Saving the key\<close>

text \<open>What \<^verbatim>\<open>mutate_new_key\<close> mutates: the key unless it is known, its access structure and its shares.\<close>

definition new_key_mutations ::
  "crypto \<Rightarrow> string \<Rightarrow> shared_key \<Rightarrow> (device_id, share_index) btree \<Rightarrow> ciphertext \<Rightarrow> key_purpose \<Rightarrow>
    frost_coordinator \<Rightarrow> access_structure_ref \<times> coord_mutation list" where
  "new_key_mutations C name root_shared_key indices encrypted_rootkey purpose co =
     (let app_shared_key = rootkey_to_master_appkey C (shared_key_tweakable C) (xpub_from_rootkey root_shared_key);
          asid = access_structure_id_of C (xpub_key app_shared_key);
          master_appkey = from_xpub_unchecked (shared_key_tweakable C) app_shared_key;
          kid = key_id_of_master_appkey C master_appkey;
          asr = AccessStructureRef kid asid
      in (asr,
          (if bt_get (fc_keys co) kid = None
           then [KeygenMutation (NewKey name purpose
                   \<lparr>ck_master_appkey = master_appkey, ck_encrypted_rootkey = encrypted_rootkey,
                    ck_access_structures = []\<rparr>)]
           else []) @
          KeygenMutation (NewAccessStructure app_shared_key Master) #
          map (\<lambda>(d, i). KeygenMutation (NewShare asr d i)) indices))"

definition mutate_new_key ::
  "coord_env \<Rightarrow> string \<Rightarrow> shared_key \<Rightarrow> (device_id, share_index) btree \<Rightarrow> bytes \<Rightarrow> key_purpose \<Rightarrow>
    rng \<Rightarrow> frost_coordinator \<Rightarrow> ('e, access_structure_ref \<times> frost_coordinator \<times> rng) result" where
  "mutate_new_key E name root_shared_key indices encryption_key purpose rng co =
     (let C = ce_crypto E;
          (encrypted_rootkey, rng) = ct_encrypt C encryption_key (shared_public_key root_shared_key) rng;
          (asr, ms) = new_key_mutations C name root_shared_key indices encrypted_rootkey purpose co
      in and_then (coord_mutate_all E ms co) (\<lambda>co. Ok (asr, co, rng)))"

record finalized_keygen =
  fk_devices :: "device_id list"
  fk_access_structure_ref :: access_structure_ref
  fk_keygen_id :: keygen_id

definition finalize_keygen ::
  "coord_env \<Rightarrow> keygen_id \<Rightarrow> bytes \<Rightarrow> rng \<Rightarrow> frost_coordinator \<Rightarrow>
    (frost_coordinator \<times> rng) \<times> (action_error, finalized_keygen) result" where
  "finalize_keygen E kid encryption_key rng co =
     (let (state, co) = take_keygen kid co in
      case state of
        Some (NeedsFinalize fin) \<Rightarrow>
          or_return (mutate_new_key E (knf_key_name fin) (knf_root_shared_key fin)
              (knf_device_to_share_index fin) encryption_key (knf_purpose fin) rng co) (co, rng)
            (\<lambda>(asr, co, rng).
              ((co, rng), Ok \<lparr>fk_devices = bt_keys (knf_device_to_share_index fin),
                              fk_access_structure_ref = asr, fk_keygen_id = kid\<rparr>))
      | _ \<Rightarrow> ((co, rng), Err (StateInconsistent ''no such keygen'')))"

definition send_finalize_keygen :: "finalized_keygen \<Rightarrow> coord_send list" where
  "send_finalize_keygen f =
     [CoordToDevice (KeyGenMsg (KgFinalize (fk_keygen_id f))) (bs_of_list (fk_devices f))]"

end
