(* ===== verification/CoordSigning.thy ===== *)
theory CoordSigning
  imports CoordKeygen
begin

section \<open>Signing on the coordinator\<close>

text \<open>
  Models the signing sessions of \<^verbatim>\<open>frostsnap_core/src/coordinator.rs\<close>: starting a session with
  nonces that no other session uses, requesting a device's shares, receiving and verifying
  them, completing, cancelling and forgetting sessions, and the deletion of keys and shares
  that sessions depend on.
\<close>

datatype start_sign_error =
    UnknownKey key_id
  | DeviceNotPartOfKey device_id
  | NotEnoughDevicesSelected nat nat
  | CantSignInState string
  | NotEnoughNoncesForDevice not_enough_nonces
  | StartSignTaskError sign_task_error
  | NoSuchAccessStructure
  | CouldntDecryptRootKey

datatype delete_share_error = DeviceInActiveSignSession

subsection \<open>Looking up\<close>

definition all_used_nonce_streams :: "frost_coordinator \<Rightarrow> nonce_stream_id list" where
  "all_used_nonce_streams co =
     bs_of_list [cns_stream_id ns. s \<leftarrow> bt_values (fc_active_sessions co),
       ns \<leftarrow> bt_values (ss_nonces (as_init s))]"

definition coord_nonces_available :: "frost_coordinator \<Rightarrow> device_id \<Rightarrow> (nonce_stream_id, nat) btree" where
  "coord_nonces_available co d = nonces_available (fc_nonce_cache co) d (all_used_nonce_streams co)"

definition get_sign_session :: "frost_coordinator \<Rightarrow> sign_session_id \<Rightarrow> sign_session option" where
  "get_sign_session co sid =
     (case bt_get (fc_active_sessions co) sid of
        Some s \<Rightarrow> Some (ActiveSession s)
      | None \<Rightarrow> map_option FinishedSession (bt_get (fc_finished_sessions co) sid))"

definition active_signing_sessions :: "frost_coordinator \<Rightarrow> ('e, active_session list) result" where
  "active_signing_sessions co =
     collect_results (map (\<lambda>sid. expect ''invariant'' (bt_get (fc_active_sessions co) sid))
       (fc_session_order co))"

definition coord_reserved_change_indices ::
  "coord_env \<Rightarrow> frost_coordinator \<Rightarrow> master_appkey \<Rightarrow> bitcoin_account \<Rightarrow> nat list" where
  "coord_reserved_change_indices E co m account =
     bs_of_list [i. task \<leftarrow> map (\<lambda>s. gsr_sign_task (ss_group_request (as_init s))) (bt_values (fc_active_sessions co)) @
                     map (\<lambda>s. gsr_sign_task (ss_group_request (fin_init s))) (bt_values (fc_finished_sessions co)),
                   i \<leftarrow> reserved_change_indices (ce_crypto E) (ce_tx_ops E) task m account]"

subsection \<open>Starting a session\<close>

text \<open>\<^verbatim>\<open>SignSessionProgress::new\<close>, and one for each item, the \<open>i\<close>-th with each party's \<open>i\<close>-th nonce.\<close>

definition new_session_progress ::
  "coord_env \<Rightarrow> shared_key xpub \<Rightarrow> sign_item \<Rightarrow> (share_index, pub_nonce) btree \<Rightarrow> rng \<Rightarrow>
    session_progress \<times> rng" where
  "new_session_progress E app_shared_key item nonces rng =
     (let C = ce_crypto E;
          tweaked_key = derive_xonly_key C (shared_key_tweakable C) (item_tweak item) app_shared_key;
          (session, rng) = new_session (ce_sessions E) tweaked_key nonces (schnorr_fun_message item) rng
      in (\<lparr>sp_sign_item = item, sp_session = session, sp_signature_shares = [],
           sp_app_shared_key = app_shared_key\<rparr>, rng))"

fun nth_nonces :: "nat \<Rightarrow> (share_index \<times> nonce_segment) list \<Rightarrow> ('e, (share_index \<times> pub_nonce) list) result" where
  "nth_nonces i [] = Ok []"
| "nth_nonces i ((p, s) # rest) =
     (if i < length (seg_nonces s)
      then and_then (nth_nonces i rest) (\<lambda>ns. Ok ((p, seg_nonces s ! i) # ns))
      else Panic ''Out of bounds access'')"

fun new_progresses ::
  "coord_env \<Rightarrow> shared_key xpub \<Rightarrow> (share_index, nonce_segment) btree \<Rightarrow> nat \<Rightarrow> sign_item list \<Rightarrow> rng \<Rightarrow>
    ('e, session_progress list \<times> rng) result" where
  "new_progresses E k nonces i [] rng = Ok ([], rng)"
| "new_progresses E k nonces i (item # items) rng =
     and_then (nth_nonces i nonces) (\<lambda>indexed.
       (case new_session_progress E k item indexed rng of (p, rng) \<Rightarrow>
          and_then (new_progresses E k nonces (Suc i) items rng) (\<lambda>(ps, rng). Ok (p # ps, rng))))"

fun nonces_of_parties ::
  "coord_access_structure \<Rightarrow> (device_id \<times> sub_segment) list \<Rightarrow>
    ('e, (share_index \<times> nonce_segment) list) result" where
  "nonces_of_parties a [] = Ok []"
| "nonces_of_parties a ((d, sub) # rest) =
     and_then (expect ''checked already'' (bt_get (cas_device_to_share_index a) d)) (\<lambda>i.
     and_then (nonces_of_parties a rest) (\<lambda>ps. Ok ((i, sub_segment sub) # ps)))"

text \<open>The session once its nonces are chosen.\<close>

definition build_session ::
  "coord_env \<Rightarrow> key_id \<Rightarrow> access_structure_id \<Rightarrow> coord_access_structure \<Rightarrow> wire_sign_task \<Rightarrow>
    sign_item list \<Rightarrow> (device_id, sub_segment) btree \<Rightarrow> rng \<Rightarrow> ('e, active_session \<times> rng) result" where
  "build_session E kid asid a sign_task items nonces_by_device rng =
     and_then (nonces_of_parties a nonces_by_device) (\<lambda>ps.
     let nonces_by_party = bt_of_list ps in
     and_then (new_progresses E (cas_app_shared_key a) nonces_by_party 0 items rng) (\<lambda>(sessions, rng).
     let group_request =
           \<lparr>gsr_parties = bt_keys nonces_by_party,
            gsr_agg_nonces = map (\<lambda>p. session_agg_binonce (ce_sessions E) (sp_session p)) sessions,
            gsr_sign_task = sign_task, gsr_access_structure_id = asid\<rparr>
     in Ok (\<lparr>as_progress = sessions,
             as_init = \<lparr>ss_nonces = map (\<lambda>(d, sub). (d, coord_nonce_state_of sub)) nonces_by_device,
                        ss_group_request = group_request\<rparr>,
             as_key_id = kid, as_sent_req = []\<rparr>, rng)))"

definition start_sign_checks ::
  "coord_env \<Rightarrow> access_structure_ref \<Rightarrow> wire_sign_task \<Rightarrow> device_id list \<Rightarrow> frost_coordinator \<Rightarrow>
    (start_sign_error, coord_access_structure \<times> sign_item list) result" where
  "start_sign_checks E asr sign_task devices co =
     (let C = ce_crypto E in
      and_then (ok_or (UnknownKey (asr_key_id asr)) (bt_get (fc_keys co) (asr_key_id asr))) (\<lambda>key_data.
      let complete_key = cfk_complete_key key_data in
      and_then (ok_or NoSuchAccessStructure
          (bt_get (ck_access_structures complete_key) (asr_access_structure_id asr))) (\<lambda>a.
      case find (\<lambda>d. bt_get (cas_device_to_share_index a) d = None) devices of
        Some d \<Rightarrow> Err (DeviceNotPartOfKey d)
      | None \<Rightarrow>
          and_then (cas_threshold a) (\<lambda>threshold.
          if length devices < threshold then Err (NotEnoughDevicesSelected (length devices) threshold)
          else
            and_then (map_err StartSignTaskError
              (check_sign_task C (ce_tx_ops E) sign_task (ck_master_appkey complete_key) (cfk_purpose key_data)))
            (\<lambda>checked. Ok (a, sign_items C (ce_tx_ops E) checked))))))"

definition coord_start_sign ::
  "coord_env \<Rightarrow> access_structure_ref \<Rightarrow> wire_sign_task \<Rightarrow> device_id list \<Rightarrow> rng \<Rightarrow> frost_coordinator \<Rightarrow>
    (frost_coordinator \<times> rng) \<times> (start_sign_error, sign_session_id) result" where
  "coord_start_sign E asr sign_task devices rng co =
     or_return (start_sign_checks E asr sign_task devices co) (co, rng) (\<lambda>(a, items).
     or_return (map_err NotEnoughNoncesForDevice
         (new_signing_session (fc_nonce_cache co) devices (length items) (all_used_nonce_streams co))) (co, rng)
       (\<lambda>nonces_by_device.
     or_return (build_session E (asr_key_id asr) (asr_access_structure_id asr) a sign_task items
         nonces_by_device rng) (co, rng) (\<lambda>(session, rng).
     or_return (coord_mutate E (SigningMutation (NewSigningSession session)) co) (co, rng) (\<lambda>co.
       ((co, rng), Ok (as_session_id E session))))))"

definition request_device_sign ::
  "coord_env \<Rightarrow> sign_session_id \<Rightarrow> device_id \<Rightarrow> bytes \<Rightarrow> frost_coordinator \<Rightarrow>
    ('e, frost_coordinator \<times> request_sign) result" where
  "request_device_sign E sid d encryption_key co =
     and_then (expect ''signing session doesn't exist'' (bt_get (fc_active_sessions co) sid)) (\<lambda>s.
     and_then (expect ''device must be part of the signing session'' (bt_get (ss_nonces (as_init s)) d)) (\<lambda>ns.
     and_then (expect ''key exists'' (bt_get (fc_keys co) (as_key_id s))) (\<lambda>k.
     let group_sign_req = ss_group_request (as_init s) in
     and_then (expect ''must be able to decrypt rootkey''
         (coord_decryption_contrib (ce_crypto E) (cfk_complete_key k)
            (gsr_access_structure_id group_sign_req) d encryption_key)) (\<lambda>(rootkey, contrib).
     and_then (coord_mutate E (SigningMutation (SentSignReq sid d)) co) (\<lambda>co.
       Ok (co, \<lparr>rs_group = group_sign_req,
                rs_device = \<lparr>dsr_nonces = ns, dsr_rootkey = rootkey, dsr_contrib = contrib\<rparr>\<rparr>))))))"

definition send_request_sign :: "device_id \<Rightarrow> request_sign \<Rightarrow> coord_send" where
  "send_request_sign d r = CoordToDevice (SigningMsg (RequestSign r)) [d]"

subsection \<open>Signature shares\<close>

definition progress_frost_key :: "crypto \<Rightarrow> session_progress \<Rightarrow> shared_key" where
  "progress_frost_key C p =
     derive_xonly_key C (shared_key_tweakable C) (item_tweak (sp_sign_item p)) (sp_app_shared_key p)"

definition progress_verify_final :: "coord_env \<Rightarrow> session_progress \<Rightarrow> encoded_signature \<Rightarrow> bool" where
  "progress_verify_final E p signature =
     verify_final_signature (ce_crypto E) (ce_schnorr_verify E)
       (from_xpub_unchecked (shared_key_tweakable (ce_crypto E)) (sp_app_shared_key p))
       (sp_sign_item p) signature"

definition progress_accepts :: "coord_env \<Rightarrow> share_index \<Rightarrow> session_progress \<Rightarrow> sig_share \<Rightarrow> bool" where
  "progress_accepts E i p share \<longleftrightarrow>
     session_verify_share (ce_sessions E) (sp_session p)
       (verification_share_of (ce_sessions E) (progress_frost_key (ce_crypto E) p) i) share"

fun check_signature_shares ::
  "coord_env \<Rightarrow> share_index \<Rightarrow> session_progress list \<Rightarrow> sig_share list \<Rightarrow> (core_error, unit) result" where
  "check_signature_shares E i (p # ps) (s # ss) =
     (if i \<notin> set (session_parties (ce_sessions E) (sp_session p))
      then Err (coordinator_invalid_message ''SignatureShare'' ''Signer was not a particpant for this session'')
      else if \<not> progress_accepts E i p s
      then Err (coordinator_invalid_message ''SignatureShare'' ''Invalid signature share under key'')
      else check_signature_shares E i ps ss)"
| "check_signature_shares E i ps ss = Ok ()"

fun combine_signatures :: "coord_env \<Rightarrow> session_progress list \<Rightarrow> ('e, encoded_signature list) result" where
  "combine_signatures E [] = Ok []"
| "combine_signatures E (p # ps) =
     (let signature = session_combine (ce_sessions E) (sp_session p) (bt_values (sp_signature_shares p)) in
      if \<not> progress_verify_final E p signature
      then Panic ''we have verified the signature shares so combined should be correct''
      else and_then (combine_signatures E ps) (\<lambda>sigs. Ok (signature # sigs)))"

definition complete_sign_session ::
  "coord_env \<Rightarrow> sign_session_id \<Rightarrow> frost_coordinator \<Rightarrow>
    ('e, frost_coordinator \<times> encoded_signature list option) result" where
  "complete_sign_session E sid co =
     (case bt_get (fc_active_sessions co) sid of
        None \<Rightarrow> Ok (co, None)
      | Some s \<Rightarrow>
          if list_all (\<lambda>p. length (sp_signature_shares p) =
               length (gsr_parties (ss_group_request (as_init s)))) (as_progress s)
          then and_then (combine_signatures E (as_progress s)) (\<lambda>signatures.
               and_then (coord_mutate E (SigningMutation (CloseSignSession sid (Some signatures))) co) (\<lambda>co.
                 Ok (co, Some signatures)))
          else Ok (co, None))"

definition signature_share_checks ::
  "coord_env \<Rightarrow> device_id \<Rightarrow> sign_session_id \<Rightarrow> sig_share list \<Rightarrow> frost_coordinator \<Rightarrow>
    (core_error, unit) result" where
  "signature_share_checks E from sid shares co =
     and_then (ok_or (coordinator_invalid_message ''SignatureShare''
         ''got signature shares for a signing session we don't have'')
         (bt_get (fc_active_sessions co) sid)) (\<lambda>s.
     and_then (expect ''session exists access structure exists'' (lookup_access_structure (as_ref s) co)) (\<lambda>a.
     and_then (ok_or (coordinator_invalid_message ''SignatureShare''
         ''got shares from signer who was not part of the access structure'')
         (bt_get (cas_device_to_share_index a) from)) (\<lambda>i.
     if length shares \<noteq> length (as_progress s)
     then Err (coordinator_invalid_message ''SignatureShare''
            ''signer did not provide the right number of signature shares'')
     else check_signature_shares E i (as_progress s) shares)))"

definition handle_signature_shares ::
  "coord_env \<Rightarrow> device_id \<Rightarrow> sign_session_id \<Rightarrow> sig_share list \<Rightarrow> nonce_segment option \<Rightarrow>
    frost_coordinator \<Rightarrow> coord_send list coord_handled" where
  "handle_signature_shares E from sid shares replenish co =
     or_return (signature_share_checks E from sid shares co) co (\<lambda>_.
     or_return (coord_mutate_all E
         (SigningMutation (GotSignatureShares sid from shares) #
          (case replenish of None \<Rightarrow> [] | Some segment \<Rightarrow> [SigningMutation (NewNonces from segment)])) co) co
       (\<lambda>co.
     or_return (complete_sign_session E sid co) co (\<lambda>(co, signed).
       (co, Ok (CoordToUser (UserSigning (GotShare sid from)) #
          (case signed of None \<Rightarrow> []
           | Some signatures \<Rightarrow> [CoordToUser (UserSigning (Signed sid signatures))]))))))"

text \<open>Every segment is checked against the cache before it is added; what was added before a
  segment that cannot be joined stays.\<close>

fun handle_nonce_segments ::
  "coord_env \<Rightarrow> device_id \<Rightarrow> nonce_segment list \<Rightarrow> frost_coordinator \<Rightarrow> unit coord_handled" where
  "handle_nonce_segments E from [] co = (co, Ok ())"
| "handle_nonce_segments E from (segment # rest) co =
     or_return (map_err (\<lambda>_. coordinator_invalid_message ''NonceResponse'' ''couldn't extend nonces'')
         (cache_check_can_extend (fc_nonce_cache co) from segment)) co (\<lambda>_.
     or_return (coord_mutate E (SigningMutation (NewNonces from segment)) co) co (\<lambda>co.
       handle_nonce_segments E from rest co))"

definition handle_nonce_response ::
  "coord_env \<Rightarrow> device_id \<Rightarrow> nonce_segment list \<Rightarrow> frost_coordinator \<Rightarrow> coord_send list coord_handled" where
  "handle_nonce_response E from segments co =
     (case handle_nonce_segments E from segments co of
        (co, r) \<Rightarrow> or_return r co (\<lambda>_. (co, Ok [CoordToUser (ReplenishedNonces from)])))"

subsection \<open>Ending sessions\<close>

definition cancel_sign_session ::
  "coord_env \<Rightarrow> sign_session_id \<Rightarrow> frost_coordinator \<Rightarrow> ('e, frost_coordinator) result" where
  "cancel_sign_session E sid co = coord_mutate E (SigningMutation (CloseSignSession sid None)) co"

definition cancel_all_signing_sessions ::
  "coord_env \<Rightarrow> frost_coordinator \<Rightarrow> ('e, frost_coordinator) result" where
  "cancel_all_signing_sessions E co =
     coord_mutate_all E (map (\<lambda>sid. SigningMutation (CloseSignSession sid None)) (fc_session_order co)) co"

definition forget_finished_sign_session ::
  "coord_env \<Rightarrow> sign_session_id \<Rightarrow> frost_coordinator \<Rightarrow>
    ('e, frost_coordinator \<times> finished_session option) result" where
  "forget_finished_sign_session E sid co =
     (case bt_get (fc_finished_sessions co) sid of
        None \<Rightarrow> Ok (co, None)
      | Some f \<Rightarrow>
          and_then (coord_mutate E (SigningMutation (ForgetFinishedSignSession sid)) co) (\<lambda>co. Ok (co, Some f)))"

definition coord_delete_key :: "coord_env \<Rightarrow> key_id \<Rightarrow> frost_coordinator \<Rightarrow> ('e, frost_coordinator) result" where
  "coord_delete_key E kid co =
     (if bt_get (fc_keys co) kid \<noteq> None then coord_mutate E (KeygenMutation (DeleteKey kid)) co else Ok co)"

definition device_involved :: "access_structure_ref \<Rightarrow> device_id \<Rightarrow> active_session \<Rightarrow> bool" where
  "device_involved asr d s \<longleftrightarrow>
     as_ref s = asr \<and> (d \<in> set (as_sent_req s) \<or> has_received_from s d)"

definition coord_delete_share ::
  "coord_env \<Rightarrow> access_structure_ref \<Rightarrow> device_id \<Rightarrow> frost_coordinator \<Rightarrow>
    frost_coordinator \<times> (delete_share_error, unit) result" where
  "coord_delete_share E asr d co =
     (if list_ex (device_involved asr d) (bt_values (fc_active_sessions co))
      then (co, Err DeviceInActiveSignSession)
      else if (case lookup_access_structure asr co of
                 None \<Rightarrow> False | Some a \<Rightarrow> bt_get (cas_device_to_share_index a) d \<noteq> None)
      then or_return (coord_mutate E (KeygenMutation (DeleteShare asr d)) co) co (\<lambda>co. (co, Ok ()))
      else (co, Ok ()))"

subsection \<open>Replenishing nonces\<close>

fun replenish_requests ::
  "nonce_cache \<Rightarrow> nat \<Rightarrow> device_id list \<Rightarrow> rng \<Rightarrow>
    ('e, (device_id \<times> coord_nonce_state list) list) result \<times> rng" where
  "replenish_requests c desired [] rng = (Ok [], rng)"
| "replenish_requests c desired (d # ds) rng =
     (case generate_nonce_stream_opening_requests c d desired rng of
        (Ok streams, rng) \<Rightarrow>
          (case replenish_requests c desired ds rng of
             (r, rng) \<Rightarrow> (and_then r (\<lambda>rest. Ok ((d, streams) # rest)), rng))
      | (Err e, rng) \<Rightarrow> (Err e, rng)
      | (Panic m, rng) \<Rightarrow> (Panic m, rng))"

definition maybe_request_nonce_replenishment ::
  "device_id list \<Rightarrow> nat \<Rightarrow> rng \<Rightarrow> frost_coordinator \<Rightarrow>
    ('e, (device_id, coord_nonce_state list) btree) result \<times> rng" where
  "maybe_request_nonce_replenishment devices desired rng co =
     replenish_requests (fc_nonce_cache co) desired devices rng"

definition some_nonces_requested :: "(device_id, coord_nonce_state list) btree \<Rightarrow> bool" where
  "some_nonces_requested r \<longleftrightarrow> list_ex (list_ex (\<lambda>s. cns_remaining s = 0)) (bt_values r)"

definition send_nonce_requests :: "(device_id, coord_nonce_state list) btree \<Rightarrow> coord_send list" where
  "send_nonce_requests r = map (\<lambda>(d, streams). CoordToDevice (SigningMsg (OpenNonceStreams streams)) [d]) r"

end
