(* ===== verification/CoordRestoration.thy ===== *)
theory CoordRestoration
  imports CoordSigning
begin

section \<open>Restoring keys on the coordinator\<close>

text \<open>
  Models the operations of \<^verbatim>\<open>frostsnap_core/src/coordinator/restoration.rs\<close> on the whole
  coordinator, and the search for a share of \<^verbatim>\<open>coordinator.rs\<close>: collecting the shares of a
  restoration, finishing it, recovering a single share of a known key, consolidating and
  checking physical backups, and the messages of a device.
\<close>

subsection \<open>Where a share is known\<close>

datatype key_location_state = LocationComplete access_structure_ref | LocationRestoring restoration_id

record share_location =
  loc_device_ids :: "device_id list"
  loc_share_index :: share_index
  loc_key_name :: string
  loc_key_purpose :: key_purpose
  loc_key_state :: key_location_state

definition coord_access_structures :: "frost_coordinator \<Rightarrow> coord_access_structure list" where
  "coord_access_structures co =
     [a. k \<leftarrow> bt_values (fc_keys co), a \<leftarrow> bt_values (ck_access_structures (cfk_complete_key k))]"

definition coord_root_shared_key ::
  "crypto \<Rightarrow> access_structure_ref \<Rightarrow> bytes \<Rightarrow> frost_coordinator \<Rightarrow> shared_key option" where
  "coord_root_shared_key C asr encryption_key co =
     Option.bind (bt_get (fc_keys co) (asr_key_id asr)) (\<lambda>k.
       complete_root_shared_key C (cfk_complete_key k) (asr_access_structure_id asr) encryption_key)"

definition expected_share_image ::
  "crypto \<Rightarrow> access_structure_ref \<Rightarrow> share_index \<Rightarrow> bytes \<Rightarrow> frost_coordinator \<Rightarrow> share_image option" where
  "expected_share_image C asr i encryption_key co =
     map_option (\<lambda>k. shared_share_image C k i) (coord_root_shared_key C asr encryption_key co)"

definition on_access_structure ::
  "crypto \<Rightarrow> share_image \<Rightarrow> bytes \<Rightarrow> frost_coordinator \<Rightarrow> coord_access_structure \<Rightarrow> bool" where
  "on_access_structure C im encryption_key co a \<longleftrightarrow>
     (case coord_root_shared_key C (cas_ref C a) encryption_key co of
        None \<Rightarrow> False
      | Some root \<Rightarrow> shared_share_image C root (image_index im) = im)"

fun find_in_restorations :: "crypto \<Rightarrow> share_image \<Rightarrow> restoration_state list \<Rightarrow> share_location option" where
  "find_in_restorations C im [] = None"
| "find_in_restorations C im (r # rs) =
     (let found = (\<lambda>devices. \<lparr>loc_device_ids = devices, loc_share_index = image_index im,
            loc_key_name = rst_key_name r, loc_key_purpose = rst_key_purpose r,
            loc_key_state = LocationRestoring (rst_restoration_id r)\<rparr>)
      in case bt_get (share_image_to_devices (rst_access_structure r)) im of
           Some devices \<Rightarrow> Some (found devices)
         | None \<Rightarrow>
             (case rec_shared_key (rst_access_structure r) of
                Some k \<Rightarrow>
                  (if shared_share_image C k (image_index im) = im then Some (found [])
                   else find_in_restorations C im rs)
              | None \<Rightarrow> find_in_restorations C im rs))"

definition find_share ::
  "crypto \<Rightarrow> share_image \<Rightarrow> bytes \<Rightarrow> frost_coordinator \<Rightarrow> ('e, share_location option) result" where
  "find_share C im encryption_key co =
     (case find (on_access_structure C im encryption_key co) (coord_access_structures co) of
        Some a \<Rightarrow>
          and_then (expect ''must exist'' (bt_get (fc_keys co) (asr_key_id (cas_ref C a)))) (\<lambda>k.
            Ok (Some \<lparr>loc_device_ids =
                        (case bt_get (share_index_to_devices a) (image_index im) of None \<Rightarrow> [] | Some ds \<Rightarrow> ds),
                      loc_share_index = image_index im, loc_key_name = cfk_key_name k,
                      loc_key_purpose = cfk_purpose k, loc_key_state = LocationComplete (cas_ref C a)\<rparr>))
      | None \<Rightarrow> Ok (find_in_restorations C im (bt_values (rs_restorations (fc_restoration co)))))"

definition shares_of_access_structure ::
  "crypto \<Rightarrow> bytes \<Rightarrow> frost_coordinator \<Rightarrow> coord_access_structure \<Rightarrow>
    ('e, (share_image \<times> share_location) list) result" where
  "shares_of_access_structure C encryption_key co a =
     (case coord_root_shared_key C (cas_ref C a) encryption_key co of
        None \<Rightarrow> Ok []
      | Some root \<Rightarrow>
          and_then (expect ''must exist'' (bt_get (fc_keys co) (asr_key_id (cas_ref C a)))) (\<lambda>k.
            Ok (map (\<lambda>(i, devices). (shared_share_image C root i,
                  \<lparr>loc_device_ids = devices, loc_share_index = i, loc_key_name = cfk_key_name k,
                   loc_key_purpose = cfk_purpose k, loc_key_state = LocationComplete (cas_ref C a)\<rparr>))
                (share_index_to_devices a))))"

definition shares_of_restoration :: "restoration_state \<Rightarrow> (share_image \<times> share_location) list" where
  "shares_of_restoration r =
     map (\<lambda>(im, devices). (im,
         \<lparr>loc_device_ids = devices, loc_share_index = image_index im, loc_key_name = rst_key_name r,
          loc_key_purpose = rst_key_purpose r, loc_key_state = LocationRestoring (rst_restoration_id r)\<rparr>))
       (share_image_to_devices (rst_access_structure r))"

definition coord_iter_shares ::
  "crypto \<Rightarrow> bytes \<Rightarrow> frost_coordinator \<Rightarrow> ('e, (share_image \<times> share_location) list) result" where
  "coord_iter_shares C encryption_key co =
     and_then (collect_results (map (shares_of_access_structure C encryption_key co) (coord_access_structures co)))
       (\<lambda>complete. Ok (concat complete @
          concat (map shares_of_restoration (bt_values (rs_restorations (fc_restoration co))))))"

definition knows_about_share ::
  "device_id \<Rightarrow> access_structure_ref \<Rightarrow> share_index \<Rightarrow> frost_coordinator \<Rightarrow> bool" where
  "knows_about_share d asr i co \<longleftrightarrow>
     (case lookup_access_structure asr co of
        None \<Rightarrow> False | Some a \<Rightarrow> bt_get (cas_device_to_share_index a) d = Some i)"

subsection \<open>Errors\<close>

datatype check_backup_error = BackupNoSuchAccessStructure | BackupImageWrong | BackupDecryptionError
datatype consolidate_error = CannotDecrypt access_structure_ref | WalletNotFound access_structure_ref
datatype restoration_error = UnknownRestorationId | NotEnoughShares
datatype restore_share_error =
    RestoreUnknownId | RestoreMismatch | RestoreAlreadyGot | RestoreBelongsElsewhere share_location
datatype restore_backup_error =
    RestoreBackupUnknownId | RestoreBackupAlreadyGot | RestoreBackupElsewhere share_location
datatype recover_share_kind =
    RecoverAlreadyGot | RecoverNoSuchAccessStructure | RecoverMismatch | RecoverImageWrong | RecoverDecryption
datatype recover_share_error = RecoverShareError key_purpose recover_share_kind
datatype start_restoration_error = MissingMetadata

subsection \<open>Starting a restoration\<close>

definition restoring :: "frost_coordinator \<Rightarrow> (restoration_id, restoration_state) btree" where
  "restoring co = rs_restorations (fc_restoration co)"

definition get_restoration_state :: "restoration_id \<Rightarrow> frost_coordinator \<Rightarrow> restoration_state option" where
  "get_restoration_state rid co = bt_get (restoring co) rid"

abbreviation mutate_restoration where
  "mutate_restoration E m co \<equiv> coord_mutate E (RestorationMutation m) co"

definition start_restoring_key ::
  "coord_env \<Rightarrow> string \<Rightarrow> nat option \<Rightarrow> key_purpose \<Rightarrow> restoration_id \<Rightarrow> frost_coordinator \<Rightarrow>
    ('e, frost_coordinator) result" where
  "start_restoring_key E name threshold purpose rid co =
     (if get_restoration_state rid co \<noteq> None then Panic ''assertion failed''
      else mutate_restoration E (NewRestoration2 rid name threshold purpose) co)"

definition start_restoring_from_share ::
  "coord_env \<Rightarrow> recover_share \<Rightarrow> restoration_id \<Rightarrow> frost_coordinator \<Rightarrow>
    frost_coordinator \<times> (start_restoration_error, unit) result" where
  "start_restoring_from_share E r rid co =
     (let h = rcs_held_share r in
      or_return (ok_or MissingMetadata (hs_key_name h)) co (\<lambda>name.
      or_return (ok_or MissingMetadata (hs_purpose h)) co (\<lambda>purpose.
      if get_restoration_state rid co \<noteq> None then (co, Panic ''assertion failed'')
      else if (case hs_access_structure_ref h of
                 None \<Rightarrow> False | Some asr \<Rightarrow> lookup_access_structure asr co \<noteq> None)
      then (co, Panic ''assertion failed'')
      else or_return (coord_mutate_all E
             [RestorationMutation (NewRestoration2 rid name (hs_threshold h) purpose),
              RestorationMutation (RestorationProgress2 rid (rcs_held_by r) h)] co) co (\<lambda>co. (co, Ok ())))))"

definition cancel_restoration ::
  "coord_env \<Rightarrow> restoration_id \<Rightarrow> frost_coordinator \<Rightarrow> ('e, frost_coordinator) result" where
  "cancel_restoration E rid co = mutate_restoration E (DeleteRestoration rid) co"

definition delete_restoration_share ::
  "coord_env \<Rightarrow> restoration_id \<Rightarrow> device_id \<Rightarrow> frost_coordinator \<Rightarrow> ('e, frost_coordinator) result" where
  "delete_restoration_share E rid d co =
     (case get_restoration_state rid co of
        None \<Rightarrow> Ok co
      | Some st \<Rightarrow>
          (case get_device_contribution (rst_access_structure st) d of
             None \<Rightarrow> Ok co
           | Some im \<Rightarrow> mutate_restoration E (DeleteRestorationShare rid d im) co))"

subsection \<open>Collecting shares\<close>

text \<open>A share found in another key or restoration is not taken, nor one this device has already
  given to this restoration.\<close>

definition location_allows ::
  "restoration_id \<Rightarrow> device_id \<Rightarrow> 'err \<Rightarrow> (share_location \<Rightarrow> 'err) \<Rightarrow> share_location option \<Rightarrow>
    ('err, unit) result" where
  "location_allows rid d already elsewhere found =
     (case found of
        None \<Rightarrow> Ok ()
      | Some loc \<Rightarrow>
          (if loc_key_state loc = LocationRestoring rid
           then (if d \<in> set (loc_device_ids loc) then Err already else Ok ())
           else Err (elsewhere loc)))"

definition check_share_compatible ::
  "coord_env \<Rightarrow> restoration_id \<Rightarrow> recover_share \<Rightarrow> bytes \<Rightarrow> frost_coordinator \<Rightarrow>
    (restore_share_error, unit) result" where
  "check_share_compatible E rid r encryption_key co =
     and_then (ok_or RestoreUnknownId (get_restoration_state rid co)) (\<lambda>st.
     and_then (find_share (ce_crypto E) (rcs_image r) encryption_key co) (\<lambda>found.
     and_then (location_allows rid (rcs_held_by r) RestoreAlreadyGot RestoreBelongsElsewhere found) (\<lambda>_.
       case (hs_access_structure_ref (rcs_held_share r), recovering_ref (ce_crypto E) (rst_access_structure st)) of
         (Some new, Some existing) \<Rightarrow> (if new \<noteq> existing then Err RestoreMismatch else Ok ())
       | _ \<Rightarrow> Ok ())))"

definition add_recovery_share ::
  "coord_env \<Rightarrow> restoration_id \<Rightarrow> recover_share \<Rightarrow> bytes \<Rightarrow> frost_coordinator \<Rightarrow>
    frost_coordinator \<times> (restore_share_error, unit) result" where
  "add_recovery_share E rid r encryption_key co =
     or_return (check_share_compatible E rid r encryption_key co) co (\<lambda>_.
     or_return (mutate_restoration E (RestorationProgress2 rid (rcs_held_by r) (rcs_held_share r)) co) co
       (\<lambda>co. (co, Ok ())))"

definition check_backup_compatible ::
  "coord_env \<Rightarrow> restoration_id \<Rightarrow> physical_backup_phase \<Rightarrow> bytes \<Rightarrow> frost_coordinator \<Rightarrow>
    (restore_backup_error, unit) result" where
  "check_backup_compatible E rid phase encryption_key co =
     and_then (ok_or RestoreBackupUnknownId (get_restoration_state rid co)) (\<lambda>_.
     and_then (find_share (ce_crypto E) (epb_share_image (pbp_backup phase)) encryption_key co) (\<lambda>found.
       location_allows rid (pbp_from phase) RestoreBackupAlreadyGot RestoreBackupElsewhere found))"

definition tell_device_to_save_backup ::
  "coord_env \<Rightarrow> physical_backup_phase \<Rightarrow> restoration_id \<Rightarrow> frost_coordinator \<Rightarrow>
    frost_coordinator \<times> coord_send list" where
  "tell_device_to_save_backup E phase rid co =
     (case get_restoration_state rid co of
        None \<Rightarrow> (co, [])
      | Some st \<Rightarrow>
          (let from = pbp_from phase; im = epb_share_image (pbp_backup phase);
               held_share = prepare_save_physical_backup (ce_crypto E) (ce_frost_ops E) st from im;
               rs = fc_restoration co
           in (co\<lparr>fc_restoration := rs\<lparr>rs_tmp_waiting_save :=
                 bt_insert (from, im) (rid, held_share) (rs_tmp_waiting_save rs)\<rparr>\<rparr>,
               [CoordToDevice (RestorationMsg (SavePhysicalBackup2 held_share)) [from]])))"

subsection \<open>Finishing\<close>

fun needs_consolidation_mutations ::
  "(device_id, share_index) btree \<Rightarrow> access_structure_ref \<Rightarrow> device_id list \<Rightarrow> ('e, coord_mutation list) result" where
  "needs_consolidation_mutations indices asr [] = Ok []"
| "needs_consolidation_mutations indices asr (d # ds) =
     and_then (expect ''no entry found for key'' (bt_get indices d)) (\<lambda>i.
     and_then (needs_consolidation_mutations indices asr ds) (\<lambda>ms.
       Ok (RestorationMutation (DeviceNeedsConsolidation (PendingConsolidation d asr i)) # ms)))"

definition finish_restoring ::
  "coord_env \<Rightarrow> restoration_id \<Rightarrow> bytes \<Rightarrow> rng \<Rightarrow> frost_coordinator \<Rightarrow>
    (frost_coordinator \<times> rng) \<times> (restoration_error, access_structure_ref) result" where
  "finish_restoring E rid encryption_key rng co =
     (let C = ce_crypto E in
      or_return (ok_or UnknownRestorationId (get_restoration_state rid co)) (co, rng) (\<lambda>st.
      or_return (ok_or NotEnoughShares (rec_shared_key (rst_access_structure st))) (co, rng) (\<lambda>root_shared_key.
      let asr = access_structure_ref_of C root_shared_key in
      or_return (expect ''shared_key is Some so compatible_device_to_share_index should return Some''
          (compatible_device_to_share_index C (rst_access_structure st))) (co, rng) (\<lambda>indices.
      or_return (mutate_new_key E (rst_key_name st) root_shared_key indices encryption_key
          (rst_key_purpose st) rng co) (co, rng) (\<lambda>(_, co, rng).
      or_return (and_then (needs_consolidation_mutations indices asr
            (needs_to_consolidate C (rst_access_structure st))) (\<lambda>ms. coord_mutate_all E ms co)) (co, rng) (\<lambda>co.
      or_return (mutate_restoration E (DeleteRestoration rid) co) (co, rng) (\<lambda>co.
        ((co, rng), Ok asr))))))))"

subsection \<open>Recovering a share of a known key\<close>

definition check_share_compatible_with_key ::
  "coord_env \<Rightarrow> access_structure_ref \<Rightarrow> recover_share \<Rightarrow> bytes \<Rightarrow> frost_coordinator \<Rightarrow>
    (recover_share_error, unit) result" where
  "check_share_compatible_with_key E asr r encryption_key co =
     (let C = ce_crypto E in
      and_then (ok_or (RecoverShareError PurposeTest RecoverNoSuchAccessStructure)
          (bt_get (fc_keys co) (asr_key_id asr))) (\<lambda>k.
      let err = RecoverShareError (cfk_purpose k) in
      and_then (ok_or (err RecoverNoSuchAccessStructure) (lookup_access_structure asr co)) (\<lambda>a.
      if (case hs_access_structure_ref (rcs_held_share r) of None \<Rightarrow> False | Some got \<Rightarrow> got \<noteq> asr)
      then Err (err RecoverMismatch)
      else if bt_get (cas_device_to_share_index a) (rcs_held_by r) \<noteq> None then Err (err RecoverAlreadyGot)
      else
        and_then (ok_or (err RecoverDecryption) (complete_root_shared_key C (cfk_complete_key k)
            (asr_access_structure_id asr) encryption_key)) (\<lambda>root.
        if shared_share_image C root (image_index (rcs_image r)) \<noteq> rcs_image r
        then Err (err RecoverImageWrong) else Ok ()))))"

definition coord_recover_share ::
  "coord_env \<Rightarrow> access_structure_ref \<Rightarrow> recover_share \<Rightarrow> bytes \<Rightarrow> frost_coordinator \<Rightarrow>
    frost_coordinator \<times> (recover_share_error, unit) result" where
  "coord_recover_share E asr r encryption_key co =
     or_return (check_share_compatible_with_key E asr r encryption_key co) co (\<lambda>_.
     let i = image_index (rcs_image r);
         was_a_physical_backup = (hs_access_structure_ref (rcs_held_share r) = None)
     in or_return (coord_mutate_all E
          (KeygenMutation (NewShare asr (rcs_held_by r) i) #
           (if was_a_physical_backup
            then [RestorationMutation (DeviceNeedsConsolidation (PendingConsolidation (rcs_held_by r) asr i))]
            else [])) co) co (\<lambda>co. (co, Ok ())))"

subsection \<open>Physical backups of a known key\<close>

definition check_physical_backup ::
  "coord_env \<Rightarrow> access_structure_ref \<Rightarrow> physical_backup_phase \<Rightarrow> bytes \<Rightarrow> frost_coordinator \<Rightarrow>
    (check_backup_error, share_index) result" where
  "check_physical_backup E asr phase encryption_key co =
     (let C = ce_crypto E; im = epb_share_image (pbp_backup phase) in
      and_then (ok_or BackupNoSuchAccessStructure (bt_get (fc_keys co) (asr_key_id asr))) (\<lambda>k.
      and_then (ok_or BackupDecryptionError (complete_root_shared_key C (cfk_complete_key k)
          (asr_access_structure_id asr) encryption_key)) (\<lambda>root.
      if im \<noteq> shared_share_image C root (image_index im) then Err BackupImageWrong
      else Ok (image_index im))))"

record tell_consolidate =
  tc_device_id :: device_id
  tc_backup :: consolidate_backup

definition tell_device_to_consolidate ::
  "coord_env \<Rightarrow> physical_backup_phase \<Rightarrow> access_structure_ref \<Rightarrow> bytes \<Rightarrow> frost_coordinator \<Rightarrow>
    frost_coordinator \<times> (check_backup_error, tell_consolidate) result" where
  "tell_device_to_consolidate E phase asr encryption_key co =
     (let from = pbp_from phase; im = epb_share_image (pbp_backup phase) in
      or_return (check_physical_backup E asr phase encryption_key co) co (\<lambda>_.
      or_return (expect ''invariant'' (coord_root_shared_key (ce_crypto E) asr encryption_key co)) co (\<lambda>root.
      or_return (expect ''invariant'' (bt_get (fc_keys co) (asr_key_id asr))) co (\<lambda>k.
      let rs = fc_restoration co in
        (co\<lparr>fc_restoration := rs\<lparr>rs_tmp_waiting_consolidate :=
              bs_insert (PendingConsolidation from asr (image_index im)) (rs_tmp_waiting_consolidate rs)\<rparr>\<rparr>,
         Ok \<lparr>tc_device_id = from, tc_backup = \<lparr>cb_share_index = image_index im, cb_root_shared_key = root,
              cb_key_name = cfk_key_name k, cb_purpose = cfk_purpose k\<rparr>\<rparr>)))))"

definition send_consolidate :: "tell_consolidate \<Rightarrow> coord_send list" where
  "send_consolidate t = [CoordToDevice (RestorationMsg (Consolidate (tc_backup t))) [tc_device_id t]]"

definition pending_physical_consolidations :: "device_id \<Rightarrow> frost_coordinator \<Rightarrow> access_structure_ref list" where
  "pending_physical_consolidations d co =
     bs_of_list (map pc_ref (filter (\<lambda>c. pc_device_id c = d) (rs_pending (fc_restoration co))))"

definition consolidate_pending ::
  "coord_env \<Rightarrow> device_id \<Rightarrow> access_structure_ref \<Rightarrow> bytes \<Rightarrow> frost_coordinator \<Rightarrow>
    (consolidate_error, coord_send option) result" where
  "consolidate_pending E d asr encryption_key co =
     and_then (ok_or (WalletNotFound asr) (bt_get (fc_keys co) (asr_key_id asr))) (\<lambda>k.
     and_then (ok_or (CannotDecrypt asr) (complete_root_shared_key (ce_crypto E) (cfk_complete_key k)
         (asr_access_structure_id asr) encryption_key)) (\<lambda>root.
       Ok (map_option (\<lambda>c. CoordToDevice (RestorationMsg (Consolidate
              \<lparr>cb_share_index = pc_share_index c, cb_root_shared_key = root,
               cb_key_name = cfk_key_name k, cb_purpose = cfk_purpose k\<rparr>)) [d])
            (find (\<lambda>c. pc_device_id c = d \<and> pc_ref c = asr) (rs_pending (fc_restoration co))))))"

definition request_held_shares :: "device_id \<Rightarrow> coord_send list" where
  "request_held_shares d = [CoordToDevice (RestorationMsg RequestHeldShares) [d]]"

definition tell_device_to_load_backup :: "enter_physical_id \<Rightarrow> device_id \<Rightarrow> coord_send list" where
  "tell_device_to_load_backup eid d = [CoordToDevice (RestorationMsg (EnterPhysicalBackup eid)) [d]]"

text \<open>What \<^verbatim>\<open>request_device_display_backup\<close> and \<^verbatim>\<open>request_device_check_backup\<close> both look up.\<close>

definition backup_request_data ::
  "coord_env \<Rightarrow> device_id \<Rightarrow> access_structure_ref \<Rightarrow> bytes \<Rightarrow> frost_coordinator \<Rightarrow>
    (action_error, share_index \<times> shared_key \<times> bytes) result" where
  "backup_request_data E d asr encryption_key co =
     (let C = ce_crypto E; asid = asr_access_structure_id asr in
      and_then (ok_or (StateInconsistent ''no such key'') (bt_get (fc_keys co) (asr_key_id asr))) (\<lambda>fk.
      let k = cfk_complete_key fk in
      and_then (ok_or (StateInconsistent ''no such access structure'')
          (bt_get (ck_access_structures k) asid)) (\<lambda>a.
      and_then (ok_or (StateInconsistent ''device does not have share in key'')
          (bt_get (cas_device_to_share_index a) d)) (\<lambda>i.
      and_then (ok_or (StateInconsistent ''couldn't decrypt root key'')
          (complete_root_shared_key C k asid encryption_key)) (\<lambda>root.
      and_then (ok_or (StateInconsistent ''couldn't decrypt root key'')
          (coord_decryption_contrib C k asid d encryption_key)) (\<lambda>(_, contrib).
        Ok (i, root, contrib)))))))"

definition request_device_display_backup ::
  "coord_env \<Rightarrow> device_id \<Rightarrow> access_structure_ref \<Rightarrow> bytes \<Rightarrow> frost_coordinator \<Rightarrow>
    (action_error, coord_send list) result" where
  "request_device_display_backup E d asr encryption_key co =
     and_then (backup_request_data E d asr encryption_key co) (\<lambda>(i, root, contrib).
       Ok [CoordToDevice (RestorationMsg (DisplayBackup asr contrib i root)) [d]])"

definition request_device_check_backup ::
  "coord_env \<Rightarrow> device_id \<Rightarrow> access_structure_ref \<Rightarrow> bytes \<Rightarrow> frost_coordinator \<Rightarrow>
    (action_error, coord_send list) result" where
  "request_device_check_backup E d asr encryption_key co =
     and_then (backup_request_data E d asr encryption_key co) (\<lambda>(i, root, contrib).
       Ok [CoordToDevice (RestorationMsg (CheckBackup contrib i root)) [d]])"

subsection \<open>The device's messages\<close>

definition restoration_reply :: "restoration_user_message \<Rightarrow> coord_send list" where
  "restoration_reply m = [CoordToUser (UserRestoration m)]"

definition handle_physical_saved ::
  "coord_env \<Rightarrow> device_id \<Rightarrow> share_image \<Rightarrow> frost_coordinator \<Rightarrow> coord_send list coord_handled" where
  "handle_physical_saved E from im co =
     (let rs = fc_restoration co in
      case bt_get (rs_tmp_waiting_save rs) (from, im) of
        None \<Rightarrow> (co, Err (coordinator_invalid_message ''PhysicalSaved''
                       ''coordinator not waiting for that share to be saved''))
      | Some (rid, held_share) \<Rightarrow>
          (let co = co\<lparr>fc_restoration := rs\<lparr>rs_tmp_waiting_save :=
                 bt_remove (from, im) (rs_tmp_waiting_save rs)\<rparr>\<rparr>
           in or_return (mutate_restoration E (RestorationProgress2 rid from held_share) co) co (\<lambda>co.
                (co, Ok (restoration_reply (PhysicalBackupSaved from rid (image_index im)))))))"

definition handle_finished_consolidation ::
  "coord_env \<Rightarrow> device_id \<Rightarrow> access_structure_ref \<Rightarrow> share_index \<Rightarrow> frost_coordinator \<Rightarrow>
    coord_send list coord_handled" where
  "handle_finished_consolidation E from asr i co =
     (let c = PendingConsolidation from asr i; rs = fc_restoration co;
          reply = Ok (restoration_reply (ConsolidationFinished from asr i))
      in if c \<in> set (rs_tmp_waiting_consolidate rs)
         then (let co = co\<lparr>fc_restoration := rs\<lparr>rs_tmp_waiting_consolidate :=
                      bs_remove c (rs_tmp_waiting_consolidate rs)\<rparr>\<rparr>
               in or_return (coord_mutate E (KeygenMutation (NewShare asr from i)) co) co (\<lambda>co. (co, reply)))
         else if c \<in> set (rs_pending rs)
         then or_return (mutate_restoration E (DeviceFinishedConsolidation c) co) co (\<lambda>co. (co, reply))
         else (co, Err (coordinator_invalid_message ''FinishedConsolidation''
                ''not waiting for device to consolidate'')))"

definition recv_restoration_message ::
  "coord_env \<Rightarrow> device_id \<Rightarrow> device_restoration \<Rightarrow> frost_coordinator \<Rightarrow> coord_send list coord_handled" where
  "recv_restoration_message E from m co =
     (case m of
        PhysicalEntered backup \<Rightarrow>
          (co, Ok (restoration_reply (PhysicalBackupEntered \<lparr>pbp_backup = backup, pbp_from = from\<rparr>)))
      | PhysicalSaved im \<Rightarrow> handle_physical_saved E from im co
      | FinishedConsolidation asr i \<Rightarrow> handle_finished_consolidation E from asr i co
      | HeldShares shares \<Rightarrow> (co, Ok (restoration_reply (GotHeldShares from (map held_share2_of shares))))
      | HeldShares2 shares \<Rightarrow> (co, Ok (restoration_reply (GotHeldShares from shares))))"

end
