(* ===== verification/Coordinator.thy ===== *)
theory Coordinator
  imports CoordRestoration
begin

section \<open>The coordinator's interface\<close>

text \<open>
  Models what is left of \<^verbatim>\<open>frostsnap_core/src/coordinator.rs\<close>: the dispatch of the devices'
  messages, address verification, the iteration over the keys, and the forgetting of
  everything temporary.
\<close>

definition recv_device_message ::
  "coord_env \<Rightarrow> device_id \<Rightarrow> device_to_coordinator \<Rightarrow> frost_coordinator \<Rightarrow> coord_send list coord_handled" where
  "recv_device_message E from m co =
     (case m of
        DeviceSigning (NonceResponse segments) \<Rightarrow> handle_nonce_response E from segments co
      | DeviceKeyGen k \<Rightarrow> handle_device_keygen E from k co
      | DeviceSigning (SignatureShares sid shares replenish) \<Rightarrow>
          handle_signature_shares E from sid shares replenish co
      | DeviceRestoration r \<Rightarrow> recv_restoration_message E from r co)"

definition iter_keys :: "frost_coordinator \<Rightarrow> ('e, coord_frost_key list) result" where
  "iter_keys co = collect_results (map (\<lambda>kid. expect ''invariant'' (bt_get (fc_keys co) kid)) (fc_key_order co))"

record verify_address =
  va_master_appkey :: master_appkey
  va_derivation_index :: normal_index
  va_target_devices :: "device_id list"

definition coord_verify_address ::
  "key_id \<Rightarrow> normal_index \<Rightarrow> frost_coordinator \<Rightarrow> (action_error, verify_address) result" where
  "coord_verify_address kid index co =
     and_then (ok_or (StateInconsistent ''no such frost key'') (bt_get (fc_keys co) kid)) (\<lambda>k.
       Ok \<lparr>va_master_appkey = ck_master_appkey (cfk_complete_key k), va_derivation_index = index,
           va_target_devices = bs_of_list [d. a \<leftarrow> bt_values (ck_access_structures (cfk_complete_key k)),
             d \<leftarrow> cas_devices a]\<rparr>)"

definition send_verify_address :: "verify_address \<Rightarrow> coord_send list" where
  "send_verify_address v =
     [CoordToDevice (VerifyAddressMsg (va_master_appkey v) (va_derivation_index v)) (va_target_devices v)]"

definition coord_clear_tmp_data :: "frost_coordinator \<Rightarrow> frost_coordinator" where
  "coord_clear_tmp_data co =
     co\<lparr>fc_pending_keygens := [], fc_restoration := clear_restoration_tmp (fc_restoration co)\<rparr>"

end
