(* ===== verification/CoordRecover.thy ===== *)
theory CoordRecover
  imports Coordinator
begin

section \<open>The coordinator's state is recoverable\<close>

text \<open>
  Replaying the mutations written out and staged on an empty coordinator gives the durable part
  of the one in memory, without panicking. The nonce cache agrees up to empty segments, which a
  refused response can leave behind: \<open>coord_sim\<close> says so and keeps every stream an active session
  uses in both caches, so that closing the session does the same to both.
\<close>

definition coord_core where
  "coord_core co = (fc_keys co, fc_key_order co, fc_active_sessions co, fc_session_order co,
     fc_finished_sessions co, rs_restorations (fc_restoration co), rs_pending (fc_restoration co),
     fc_fingerprint co)"

definition cache_sim :: "nonce_cache \<Rightarrow> nonce_cache \<Rightarrow> bool" where
  "cache_sim c c' \<longleftrightarrow> (\<forall>d sid. cached_or_empty c d sid = cached_or_empty c' d sid)"

definition streams_cached :: "frost_coordinator \<Rightarrow> nonce_cache \<Rightarrow> bool" where
  "streams_cached co c \<longleftrightarrow>
     (\<forall>sid s d ns. bt_get (fc_active_sessions co) sid = Some s \<longrightarrow> (d, ns) \<in> set (ss_nonces (as_init s)) \<longrightarrow>
        cached_segment c d (cns_stream_id ns) \<noteq> None)"

definition coord_sim :: "frost_coordinator \<Rightarrow> frost_coordinator \<Rightarrow> bool" where
  "coord_sim s t \<longleftrightarrow>
     coord_core s = coord_core t \<and> cache_sim (fc_nonce_cache s) (fc_nonce_cache t) \<and>
     streams_cached s (fc_nonce_cache s) \<and> streams_cached s (fc_nonce_cache t)"

text \<open>A new session draws on streams that are cached and not empty.\<close>

definition coord_admissible :: "coord_mutation \<Rightarrow> frost_coordinator \<Rightarrow> bool" where
  "coord_admissible m co =
     (case m of
        SigningMutation (NewSigningSession s) \<Rightarrow>
          list_all (\<lambda>(d, ns). case cached_segment (fc_nonce_cache co) d (cns_stream_id ns) of
             None \<Rightarrow> False | Some seg \<Rightarrow> seg_nonces seg \<noteq> []) (ss_nonces (as_init s))
      | _ \<Rightarrow> True)"

lemmas core_defs = coord_core_def prod.inject

subsection \<open>The nonce cache\<close>

definition cache_grows :: "nonce_cache \<Rightarrow> nonce_cache \<Rightarrow> bool" where
  "cache_grows c c' \<longleftrightarrow> (\<forall>d sid. cached_segment c d sid \<noteq> None \<longrightarrow> cached_segment c' d sid \<noteq> None)"

lemma cache_grows_refl [simp]: "cache_grows c c"
  by (simp add: cache_grows_def)

lemma cache_grows_trans: "cache_grows a b \<Longrightarrow> cache_grows b c \<Longrightarrow> cache_grows a c"
  by (auto simp: cache_grows_def)

lemma cache_grows_put [simp]: "cache_grows c (put_segment d sid s c)"
  by (simp add: cache_grows_def)

lemma cached_or_empty_put [simp]:
  "cached_or_empty (put_segment d sid s c) d' sid' =
     (if d' = d \<and> sid' = sid then s else cached_or_empty c d' sid')"
  by (simp add: cached_or_empty_def)

lemma cache_sim_refl [simp]: "cache_sim c c"
  by (simp add: cache_sim_def)

lemma cache_sim_trans: "cache_sim a b \<Longrightarrow> cache_sim b c \<Longrightarrow> cache_sim a c"
  by (simp add: cache_sim_def)

lemma cache_sim_put: "cache_sim c c' \<Longrightarrow> cache_sim (put_segment d sid s c) (put_segment d sid s c')"
  by (simp add: cache_sim_def)

lemma cache_sim_put_old [simp]: "cache_sim (put_segment d sid (cached_or_empty c d sid) c) c"
  by (simp add: cache_sim_def)

lemma streams_cached_grows: "streams_cached co c \<Longrightarrow> cache_grows c c' \<Longrightarrow> streams_cached co c'"
  by (auto simp: streams_cached_def cache_grows_def)

lemma extend_segment_sim:
  assumes "cache_sim c c'"
  shows "snd (extend_segment c' d new) = snd (extend_segment c d new) \<and>
    cache_sim (fst (extend_segment c d new)) (fst (extend_segment c' d new)) \<and>
    cache_grows c (fst (extend_segment c d new)) \<and>
    (snd (extend_segment c d new) \<noteq> Ok True \<longrightarrow> cache_sim (fst (extend_segment c d new)) c)"
proof -
  let ?old = "cached_or_empty c d (seg_stream_id new)"
  have old: "cached_or_empty c' d (seg_stream_id new) = ?old"
    using assms by (simp add: cache_sim_def)
  show ?thesis
  proof (cases "segment_extend ?old new")
    case (Ok r)
    obtain s where r: "r = (s, s \<noteq> ?old)" using Ok by (auto simp: segment_extend_def result_iff)
    have "extend_segment c d new = (put_segment d (seg_stream_id new) s c, Ok (s \<noteq> ?old))"
      "extend_segment c' d new = (put_segment d (seg_stream_id new) s c', Ok (s \<noteq> ?old))"
      using Ok r by (simp_all add: extend_segment_def Let_def old)
    then show ?thesis using assms by (auto simp: cache_sim_put)
  qed (use assms in \<open>simp_all add: extend_segment_def Let_def old cache_sim_put\<close>)
qed

lemma consume_sim:
  assumes "cache_sim c c'" "cached_segment c d sid \<noteq> None" "cached_segment c' d sid \<noteq> None"
    and "consume c d sid k = (Ok (c1, b) :: ('e, _) result)"
  shows "\<exists>c1'. consume c' d sid k = (Ok (c1', b) :: ('e, _) result) \<and> cache_sim c1 c1' \<and> cache_grows c c1 \<and> cache_grows c' c1'"
proof -
  obtain s where s: "cached_segment c d sid = Some s" using assms(2) by blast
  moreover have "cached_or_empty c d sid = cached_or_empty c' d sid" using assms(1) by (simp add: cache_sim_def)
  ultimately have s': "cached_segment c' d sid = Some s"
    using assms(3) by (auto simp: cached_or_empty_def)
  show ?thesis
    using assms(1,4) s s'
    by (auto simp: consume_def Let_def cache_sim_put split: if_splits prod.splits)
qed

lemma consume_sent_sim:
  "consume_sent sent n nonces c = (Ok c1 :: ('e, nonce_cache) result) \<Longrightarrow> cache_sim c c' \<Longrightarrow>
   (\<forall>(d, ns)\<in>set nonces. cached_segment c d (cns_stream_id ns) \<noteq> None \<and>
      cached_segment c' d (cns_stream_id ns) \<noteq> None) \<Longrightarrow>
   \<exists>c1'. consume_sent sent n nonces c' = (Ok c1' :: ('e, nonce_cache) result) \<and> cache_sim c1 c1' \<and> cache_grows c c1 \<and> cache_grows c' c1'"
proof (induction nonces arbitrary: c c')
  case (Cons p nonces)
  obtain d ns where p: "p = (d, ns)" by (cases p)
  show ?case
  proof (cases "d \<in> set sent")
    case False
    then show ?thesis using Cons p by auto
  next
    case True
    then obtain k c2 b where k: "u32_checked_add (cns_index ns) (u32_of_usize n) = Some k"
      and c2: "consume c d (cns_stream_id ns) k = (Ok (c2, b) :: ('e, _) result)"
      and rest: "consume_sent sent n nonces c2 = (Ok c1 :: ('e, _) result)"
      using Cons.prems(1) p by (auto simp: result_iff)
    obtain c2' where c2': "consume c' d (cns_stream_id ns) k = (Ok (c2', b) :: ('e, _) result)" "cache_sim c2 c2'"
        "cache_grows c c2" "cache_grows c' c2'"
      using consume_sim [OF Cons.prems(2) _ _ c2] Cons.prems(3) p by auto
    have "\<forall>(d, ns)\<in>set nonces. cached_segment c2 d (cns_stream_id ns) \<noteq> None \<and>
        cached_segment c2' d (cns_stream_id ns) \<noteq> None"
      using Cons.prems(3) c2'(3,4) by (fastforce simp: cache_grows_def)
    from Cons.IH [OF rest c2'(2) this] obtain c1' where c1': "consume_sent sent n nonces c2' = (Ok c1' :: ('e, _) result)"
        "cache_sim c1 c1'" "cache_grows c2 c1" "cache_grows c2' c1'" by blast
    have "consume_sent sent n (p # nonces) c' = (Ok c1' :: ('e, _) result)" using p True k c2'(1) c1'(1) by (auto simp: result_iff)
    then show ?thesis
      using c1'(2) cache_grows_trans [OF c2'(3) c1'(3)] cache_grows_trans [OF c2'(4) c1'(4)] by blast
  qed
qed simp

subsection \<open>The simulation\<close>

lemma coord_simD:
  assumes "coord_sim s t"
  shows "fc_keys t = fc_keys s" "fc_key_order t = fc_key_order s"
    "fc_active_sessions t = fc_active_sessions s" "fc_session_order t = fc_session_order s"
    "fc_finished_sessions t = fc_finished_sessions s"
    "rs_restorations (fc_restoration t) = rs_restorations (fc_restoration s)"
    "rs_pending (fc_restoration t) = rs_pending (fc_restoration s)"
    "fc_fingerprint t = fc_fingerprint s" "cache_sim (fc_nonce_cache s) (fc_nonce_cache t)"
    "streams_cached s (fc_nonce_cache s)" "streams_cached s (fc_nonce_cache t)"
  using assms by (auto simp: coord_sim_def core_defs)

lemma streams_cached_cong:
  "fc_active_sessions co = fc_active_sessions co' \<Longrightarrow> streams_cached co c = streams_cached co' c"
  by (simp add: streams_cached_def)

text \<open>What leaves sessions and cache alone keeps the simulation if it keeps the core.\<close>

lemma coord_sim_core:
  assumes "coord_sim s t" "coord_core s' = coord_core t'"
    and "fc_active_sessions s' = fc_active_sessions s"
    and "fc_nonce_cache s' = fc_nonce_cache s" "fc_nonce_cache t' = fc_nonce_cache t"
  shows "coord_sim s' t'"
  using assms streams_cached_cong [OF assms(3)] by (simp add: coord_sim_def)

lemma lookup_access_structure_sim:
  "coord_sim s t \<Longrightarrow> lookup_access_structure asr t = lookup_access_structure asr s"
  by (simp add: lookup_access_structure_def coord_simD)

lemma close_sign_session_sim:
  assumes "coord_sim s t" "close_sign_session sid fin s = (Ok (s', changed) :: ('e, _) result)"
  shows "\<exists>t'. close_sign_session sid fin t = (Ok (t', changed) :: ('e, _) result) \<and> coord_sim s' t' \<and> (\<not> changed \<longrightarrow> s' = s)"
proof (cases "sid \<in> set (fc_session_order s)")
  case False
  then show ?thesis using assms by (auto simp: close_sign_session_def coord_simD)
next
  case True
  then obtain st c where st: "bt_get (fc_active_sessions s) sid = Some st"
    and c: "consume_sent (as_sent_req st) (n_signatures (ss_group_request (as_init st)))
      (ss_nonces (as_init st)) (fc_nonce_cache s) = (Ok c :: ('e, _) result)" and changed: "changed"
    and s': "fc_nonce_cache s' = c" "fc_active_sessions s' = bt_remove sid (fc_active_sessions s)"
    using assms(2) by (auto simp: close_sign_session_def result_iff)
  have "\<forall>(d, ns)\<in>set (ss_nonces (as_init st)). cached_segment (fc_nonce_cache s) d (cns_stream_id ns) \<noteq> None \<and>
      cached_segment (fc_nonce_cache t) d (cns_stream_id ns) \<noteq> None"
    using coord_simD(10,11) [OF assms(1)] st by (fastforce simp: streams_cached_def)
  from consume_sent_sim [OF c coord_simD(9) [OF assms(1)] this] obtain c' where
    c': "consume_sent (as_sent_req st) (n_signatures (ss_group_request (as_init st)))
      (ss_nonces (as_init st)) (fc_nonce_cache t) = (Ok c' :: ('e, _) result)" "cache_sim c c'"
    "cache_grows (fc_nonce_cache s) c" "cache_grows (fc_nonce_cache t) c'" by blast
  obtain t' where t': "close_sign_session sid fin t = (Ok (t', True) :: ('e, _) result)" "fc_nonce_cache t' = c'"
      "coord_core s' = coord_core t'"
    using assms(2) True st c c'(1)
    by (auto simp: close_sign_session_def coord_simD [OF assms(1)] core_defs cong: option.case_cong)
  have sub: "streams_cached s x \<Longrightarrow> streams_cached s' x" for x
    unfolding streams_cached_def s'(2) by (auto split: if_splits)
  have "streams_cached s' (fc_nonce_cache s')" "streams_cached s' (fc_nonce_cache t')"
    using sub streams_cached_grows [OF coord_simD(10) [OF assms(1)] c'(3)]
      streams_cached_grows [OF coord_simD(11) [OF assms(1)] c'(4)] s'(1) t'(2) by auto
  then have "coord_sim s' t'" using t' s'(1) c'(2) by (simp add: coord_sim_def)
  then show ?thesis using t'(1) changed by auto
qed

lemma close_sign_sessions_sim:
  "coord_sim s t \<Longrightarrow> close_sign_sessions sids s = (Ok s' :: ('e, _) result) \<Longrightarrow>
   \<exists>t'. close_sign_sessions sids t = (Ok t' :: ('e, _) result) \<and> coord_sim s' t'"
proof (induction sids arbitrary: s t)
  case (Cons sid sids)
  then obtain s1 b where s1: "close_sign_session sid None s = (Ok (s1, b) :: ('e, _) result)"
      "close_sign_sessions sids s1 = (Ok s' :: ('e, _) result)"
    by (auto simp: result_iff)
  obtain t1 where "close_sign_session sid None t = (Ok (t1, b) :: ('e, _) result)" "coord_sim s1 t1"
    using close_sign_session_sim [OF Cons.prems(1) s1(1)] by blast
  then show ?case using Cons.IH s1(2) by fastforce
qed simp

subsection \<open>Every mutation\<close>

lemma restoration_sim:
  assumes "coord_apply_restoration C F m fp s = (s', r)"
    and "rs_restorations t = rs_restorations s" "rs_pending t = rs_pending s"
  shows "(r = None \<longrightarrow> rs_restorations s' = rs_restorations s \<and> rs_pending s' = rs_pending s) \<and>
    (\<forall>m'. r = Some m' \<longrightarrow>
      snd (coord_apply_restoration C F m' fp t) = Some m' \<and>
      rs_restorations (fst (coord_apply_restoration C F m' fp t)) = rs_restorations s' \<and>
      rs_pending (fst (coord_apply_restoration C F m' fp t)) = rs_pending s')"
proof (cases m)
  case (RestorationProgress rid d im asr)
  have "apply_progress C F rid d (legacy_held_share s rid im asr) fp s = (s', r)"
    using assms(1) RestorationProgress by (simp add: coord_apply_restoration_def)
  then show ?thesis
    using assms(2,3)
    by (auto simp: apply_progress_def coord_apply_restoration_def Let_def split: option.splits if_splits)
next
  case (RestorationProgress2 rid d h)
  then show ?thesis
    using assms
    by (auto simp: apply_progress_def coord_apply_restoration_def Let_def split: option.splits if_splits)
next
  case (DeleteRestorationShare rid d im)
  then show ?thesis
    using assms
    by (auto simp: coord_apply_restoration_def split: option.splits if_splits prod.splits bool.splits)
qed (use assms in \<open>auto simp: coord_apply_restoration_def apply_new_restoration_def split: if_splits\<close>)

lemma update_access_structure_core:
  assumes "coord_sim s t"
  shows "coord_sim (update_access_structure asr f s) (update_access_structure asr f t)"
  by (rule coord_sim_core [OF assms])
    (simp_all add: update_access_structure_def core_defs coord_simD [OF assms])

lemma apply_new_share_sim:
  assumes "coord_sim s t"
  shows "coord_sim (fst (apply_new_share asr d i s)) (fst (apply_new_share asr d i t)) \<and>
    snd (apply_new_share asr d i t) = snd (apply_new_share asr d i s)"
  using assms update_access_structure_core [OF assms]
  by (simp add: apply_new_share_def lookup_access_structure_sim [OF assms] split: option.split)

lemma apply_delete_share_sim:
  assumes "coord_sim s t"
  shows "coord_sim (fst (apply_delete_share asr d s)) (fst (apply_delete_share asr d t)) \<and>
    snd (apply_delete_share asr d t) = snd (apply_delete_share asr d s)"
  using assms update_access_structure_core [OF assms]
  by (simp add: apply_delete_share_def lookup_access_structure_sim [OF assms] split: option.split)

lemma apply_new_access_structure_sim:
  assumes "coord_sim s t"
  shows "coord_sim (fst (apply_new_access_structure C k kind s)) (fst (apply_new_access_structure C k kind t)) \<and>
    snd (apply_new_access_structure C k kind t) = snd (apply_new_access_structure C k kind s)"
proof (intro conjI)
  show "coord_sim (fst (apply_new_access_structure C k kind s)) (fst (apply_new_access_structure C k kind t))"
    by (rule coord_sim_core [OF assms])
      (auto simp: apply_new_access_structure_def Let_def core_defs coord_simD [OF assms] split: option.splits)
  show "snd (apply_new_access_structure C k kind t) = snd (apply_new_access_structure C k kind s)"
    by (auto simp: apply_new_access_structure_def Let_def coord_simD [OF assms] split: option.splits)
qed

lemma ensure_key_sim:
  assumes "coord_sim s t"
  shows "coord_sim (ensure_key C k name p s) (ensure_key C k name p t)"
  by (rule coord_sim_core [OF assms]) (auto simp: ensure_key_def Let_def core_defs coord_simD [OF assms])

lemma unchanged_same:
  "\<not> snd (apply_new_share asr d i s) \<Longrightarrow> fst (apply_new_share asr d i s) = s"
  "\<not> snd (apply_delete_share asr d s) \<Longrightarrow> fst (apply_delete_share asr d s) = s"
  "\<not> snd (apply_new_access_structure C k kind s) \<Longrightarrow> fst (apply_new_access_structure C k kind s) = s"
  by (auto simp: apply_new_share_def apply_delete_share_def apply_new_access_structure_def Let_def
      split: option.splits if_splits)

lemma apply_delete_key_sim:
  assumes "coord_sim s t" "apply_delete_key kid s = (Ok (s', changed) :: ('e, _) result)"
  shows "\<exists>t'. apply_delete_key kid t = (Ok (t', changed) :: ('e, _) result) \<and> coord_sim s' t' \<and>
    (\<not> changed \<longrightarrow> s' = s)"
proof (cases "bt_get (fc_keys s) kid")
  case None
  then show ?thesis using assms by (simp add: apply_delete_key_def coord_simD)
next
  case (Some k)
  define clear where "clear = (\<lambda>co :: frost_coordinator. co\<lparr>fc_keys := bt_remove kid (fc_keys co),
      fc_key_order := filter (\<lambda>k. k \<noteq> kid) (fc_key_order co),
      fc_restoration := clear_up_key_deletion kid (fc_restoration co)\<rparr>)"
  have sim: "coord_sim (clear s) (clear t)"
    by (rule coord_sim_core [OF assms(1)])
      (simp_all add: clear_def core_defs clear_up_key_deletion_def coord_simD [OF assms(1)])
  have sessions: "sessions_of_key kid (clear t) = sessions_of_key kid (clear s)"
    using coord_simD(3) [OF sim] by (simp add: sessions_of_key_def)
  have close: "close_sign_sessions (sessions_of_key kid (clear s)) (clear s) = (Ok s' :: ('e, _) result)" "changed"
    using assms(2) Some by (auto simp: apply_delete_key_def result_iff Let_def clear_def)
  obtain t' where "close_sign_sessions (sessions_of_key kid (clear s)) (clear t) = (Ok t' :: ('e, _) result)"
      "coord_sim s' t'"
    using close_sign_sessions_sim [OF sim close(1)] by blast
  then show ?thesis
    using Some close(2) coord_simD(1) [OF assms(1)] sessions
    by (simp add: apply_delete_key_def Let_def clear_def)
qed

lemma apply_key_mutation_sim:
  assumes "coord_sim s t" "apply_key_mutation E m s = (Ok (s', changed) :: ('e, _) result)"
  shows "\<exists>t'. apply_key_mutation E m t = (Ok (t', changed) :: ('e, _) result) \<and> coord_sim s' t' \<and>
    (\<not> changed \<longrightarrow> s' = s)"
proof (cases m)
  case (NewKey name purpose k)
  then show ?thesis using assms ensure_key_sim [OF assms(1)] by (auto simp: apply_key_mutation_def)
next
  case (NewAccessStructure k kind)
  then show ?thesis
    using assms(2) apply_new_access_structure_sim [OF assms(1), of "ce_crypto E" k kind]
      unchanged_same(3) [of "ce_crypto E" k kind s]
    by (cases "apply_new_access_structure (ce_crypto E) k kind t") (auto simp: apply_key_mutation_def)
next
  case (NewShare asr d i)
  then show ?thesis
    using assms(2) apply_new_share_sim [OF assms(1), of asr d i] unchanged_same(1) [of asr d i s]
    by (cases "apply_new_share asr d i t") (auto simp: apply_key_mutation_def)
next
  case (DeleteShare asr d)
  then show ?thesis
    using assms(2) apply_delete_share_sim [OF assms(1), of asr d] unchanged_same(2) [of asr d s]
    by (cases "apply_delete_share asr d t") (auto simp: apply_key_mutation_def)
next
  case (DeleteKey kid)
  then show ?thesis using assms apply_delete_key_sim [OF assms(1)] by (simp add: apply_key_mutation_def)
qed

lemma apply_new_nonces_sim:
  assumes "coord_sim s t" "apply_new_nonces d seg s = (Ok (s', changed) :: ('e, _) result)"
  shows "\<exists>t'. apply_new_nonces d seg t = (Ok (t', changed) :: ('e, _) result) \<and> coord_sim s' t' \<and>
    (\<not> changed \<longrightarrow> coord_sim s' t)"
proof -
  note D = coord_simD [OF assms(1)]
  obtain c r where c: "extend_segment (fc_nonce_cache s) d seg = (c, r)" by fastforce
  obtain c' where c': "extend_segment (fc_nonce_cache t) d seg = (c', r)"
    using extend_segment_sim [OF D(9), of d seg] c by (cases "extend_segment (fc_nonce_cache t) d seg") auto
  have sim: "cache_sim c c'" "cache_grows (fc_nonce_cache s) c" "r \<noteq> Ok True \<Longrightarrow> cache_sim c (fc_nonce_cache s)"
    using extend_segment_sim [OF D(9), of d seg] c c' by auto
  have "cache_sim (fc_nonce_cache t) (fc_nonce_cache s)" using D(9) by (simp add: cache_sim_def)
  then have grows': "cache_grows (fc_nonce_cache t) c'"
    using extend_segment_sim [of "fc_nonce_cache t" "fc_nonce_cache s" d seg] c' by simp
  have s': "s' = s\<lparr>fc_nonce_cache := c\<rparr>" and ch: "changed \<longleftrightarrow> r = Ok True"
    using assms(2) c by (auto simp: apply_new_nonces_def split: result.splits)
  have t': "apply_new_nonces d seg t = (Ok (t\<lparr>fc_nonce_cache := c'\<rparr>, changed) :: ('e, _) result)"
    using assms(2) c c' by (auto simp: apply_new_nonces_def split: result.splits)
  have core: "coord_core s' = coord_core t" "streams_cached s' = streams_cached s"
    using assms(1) by (auto simp: s' coord_sim_def core_defs streams_cached_def fun_eq_iff)
  have "coord_sim s' (t\<lparr>fc_nonce_cache := c'\<rparr>)"
    using core sim(1) streams_cached_grows [OF D(10) sim(2)] streams_cached_grows [OF D(11) grows']
    by (simp add: coord_sim_def s' coord_core_def)
  moreover have "coord_sim s' t" if "\<not> changed"
    using that core cache_sim_trans [OF sim(3) D(9)] ch streams_cached_grows [OF D(10) sim(2)] D(11)
    by (simp add: coord_sim_def s')
  ultimately show ?thesis using t' by blast
qed

lemma sessions_update_sim:
  assumes "coord_sim s t" "coord_core s' = coord_core t'"
    and "fc_nonce_cache s' = fc_nonce_cache s" "fc_nonce_cache t' = fc_nonce_cache t"
    and "\<And>sid st. bt_get (fc_active_sessions s') sid = Some st \<Longrightarrow>
      (\<exists>st0. bt_get (fc_active_sessions s) sid = Some st0 \<and> as_init st = as_init st0) \<or>
      (\<forall>(d, ns)\<in>set (ss_nonces (as_init st)).
        cached_segment (fc_nonce_cache s) d (cns_stream_id ns) \<noteq> None \<and>
        cached_segment (fc_nonce_cache t) d (cns_stream_id ns) \<noteq> None)"
  shows "coord_sim s' t'"
proof -
  have "streams_cached s' (fc_nonce_cache s)" "streams_cached s' (fc_nonce_cache t)"
    unfolding streams_cached_def
    using assms(5) coord_simD(10,11) [OF assms(1)] by (fastforce simp: streams_cached_def)+
  then show ?thesis using assms(2,3,4) coord_simD(9) [OF assms(1)] by (simp add: coord_sim_def)
qed

lemma admissible_cached:
  assumes "coord_sim s t" "coord_admissible (SigningMutation (NewSigningSession se)) s"
    and "(d, ns) \<in> set (ss_nonces (as_init se))"
  shows "cached_segment (fc_nonce_cache s) d (cns_stream_id ns) \<noteq> None \<and>
    cached_segment (fc_nonce_cache t) d (cns_stream_id ns) \<noteq> None"
proof -
  obtain seg where seg: "cached_segment (fc_nonce_cache s) d (cns_stream_id ns) = Some seg" "seg_nonces seg \<noteq> []"
    using assms(2,3) by (fastforce simp: coord_admissible_def list_all_iff split: option.splits)
  have "cached_or_empty (fc_nonce_cache t) d (cns_stream_id ns) = seg"
    using coord_simD(9) [OF assms(1)] seg(1) by (metis cache_sim_def cached_or_empty_def option.simps(5))
  then show ?thesis using seg by (auto simp: cached_or_empty_def split: option.splits)
qed

lemma apply_signing_mutation_sim:
  assumes "coord_sim s t" "coord_admissible (SigningMutation m) s"
    and "apply_signing_mutation E m s = (Ok (s', changed) :: ('e, _) result)"
  shows "\<exists>t'. apply_signing_mutation E m t = (Ok (t', changed) :: ('e, _) result) \<and> coord_sim s' t' \<and>
    (\<not> changed \<longrightarrow> coord_sim s' t)"
proof (cases m)
  case (NewNonces d seg)
  then show ?thesis using apply_new_nonces_sim [OF assms(1)] assms(3) by (simp add: apply_signing_mutation_def)
next
  case (NewSigningSession se)
  let ?add = "\<lambda>co :: frost_coordinator. co\<lparr>fc_active_sessions := bt_insert (as_session_id E se) se (fc_active_sessions co),
      fc_session_order := fc_session_order co @ [as_session_id E se]\<rparr>"
  have "coord_sim (?add s) (?add t)"
    by (rule sessions_update_sim [OF assms(1)])
      (use admissible_cached [OF assms(1)] assms(2) NewSigningSession in
       \<open>auto simp: core_defs coord_simD [OF assms(1)] split: if_splits\<close>)
  then show ?thesis using assms(3) NewSigningSession by (auto simp: apply_signing_mutation_def)
next
  case (SentSignReq sid d)
  show ?thesis
  proof (cases "\<exists>st. bt_get (fc_active_sessions s) sid = Some st \<and> d \<notin> set (as_sent_req st)")
    case False
    then show ?thesis
      using assms SentSignReq
      by (auto simp: apply_signing_mutation_def coord_simD [OF assms(1)] split: option.splits if_splits)
  next
    case True
    then obtain st where st: "bt_get (fc_active_sessions s) sid = Some st" "d \<notin> set (as_sent_req st)" by blast
    let ?upd = "\<lambda>co :: frost_coordinator. co\<lparr>fc_active_sessions := bt_insert sid
        (st\<lparr>as_sent_req := bs_insert d (as_sent_req st)\<rparr>) (fc_active_sessions co)\<rparr>"
    have "coord_sim (?upd s) (?upd t)"
      by (rule sessions_update_sim [OF assms(1)])
        (auto simp: core_defs coord_simD [OF assms(1)] st split: if_splits)
    then show ?thesis
      using assms(3) SentSignReq st by (auto simp: apply_signing_mutation_def coord_simD [OF assms(1)])
  qed
next
  case (GotSignatureShares sid d shares)
  let ?upd = "\<lambda>co :: frost_coordinator. co\<lparr>fc_active_sessions := bt_modify sid
      (\<lambda>s. s\<lparr>as_progress := record_shares d (as_progress s) shares\<rparr>) (fc_active_sessions co)\<rparr>"
  have "coord_sim (?upd s) (?upd t)"
    by (rule sessions_update_sim [OF assms(1)])
      (auto simp: core_defs coord_simD [OF assms(1)] split: if_splits)
  then show ?thesis using assms(3) GotSignatureShares by (auto simp: apply_signing_mutation_def)
next
  case (CloseSignSession sid fin)
  then show ?thesis
    using close_sign_session_sim [OF assms(1)] assms(1,3) by (fastforce simp: apply_signing_mutation_def)
next
  case (ForgetFinishedSignSession sid)
  have "coord_sim (s\<lparr>fc_finished_sessions := bt_remove sid (fc_finished_sessions s)\<rparr>)
      (t\<lparr>fc_finished_sessions := bt_remove sid (fc_finished_sessions t)\<rparr>)"
    by (rule coord_sim_core [OF assms(1)]) (simp_all add: core_defs coord_simD [OF assms(1)])
  then show ?thesis using assms(3) ForgetFinishedSignSession by (auto simp: apply_signing_mutation_def)
qed

lemma coord_apply_restoration_sim:
  assumes "coord_sim s t" "coord_apply E (RestorationMutation m) s = (Ok (s', r) :: ('e, _) result)"
  shows "(r = None \<longrightarrow> coord_sim s' t) \<and>
    (\<forall>m'. r = Some m' \<longrightarrow> (\<exists>t' r'. coord_apply E m' t = (Ok (t', r') :: ('e, _) result) \<and> coord_sim s' t'))"
proof -
  let ?ap = "coord_apply_restoration (ce_crypto E) (ce_frost_ops E)"
  note D = coord_simD [OF assms(1)]
  obtain rs q where rs: "?ap m (fc_fingerprint s) (fc_restoration s) = (rs, q)"
    and s': "s' = s\<lparr>fc_restoration := rs\<rparr>" and r: "r = map_option RestorationMutation q"
    using assms(2) by (auto simp: coord_apply_def split: prod.splits)
  note sim = restoration_sim [OF rs D(6) D(7)]
  show ?thesis
  proof (intro conjI allI impI)
    assume "r = None"
    then have "coord_core s' = coord_core t" using sim r by (simp add: s' core_defs D)
    then show "coord_sim s' t" by (intro coord_sim_core [OF assms(1)]) (simp_all add: s')
  next
    fix m' assume "r = Some m'"
    then obtain q' where q': "q = Some q'" "m' = RestorationMutation q'" using r by auto
    let ?t = "t\<lparr>fc_restoration := fst (?ap q' (fc_fingerprint s) (fc_restoration t))\<rparr>"
    have core: "coord_core s' = coord_core ?t" using sim q' by (simp add: s' core_defs D)
    have "coord_sim s' ?t" by (rule coord_sim_core [OF assms(1) core]) (simp_all add: s')
    moreover have "coord_apply E m' t = (Ok (?t, Some m') :: ('e, _) result)"
      using sim q' by (auto simp: coord_apply_def D split: prod.splits)
    ultimately show "\<exists>t' r'. coord_apply E m' t = (Ok (t', r') :: ('e, _) result) \<and> coord_sim s' t'" by blast
  qed
qed

lemma coord_apply_sim:
  assumes "coord_sim s t" "coord_admissible m s" "coord_apply E m s = (Ok (s', r) :: ('e, _) result)"
  shows "(r = None \<longrightarrow> coord_sim s' t) \<and>
    (\<forall>m'. r = Some m' \<longrightarrow> (\<exists>t' r'. coord_apply E m' t = (Ok (t', r') :: ('e, _) result) \<and> coord_sim s' t'))"
proof (cases m)
  case (KeygenMutation k)
  then obtain b where b: "apply_key_mutation E k s = (Ok (s', b) :: ('e, _) result)" "r = (if b then Some m else None)"
    using assms(3) by (auto simp: coord_apply_def result_iff staged_if_def)
  obtain t' where "apply_key_mutation E k t = (Ok (t', b) :: ('e, _) result)" "coord_sim s' t'" "\<not> b \<longrightarrow> s' = s"
    using apply_key_mutation_sim [OF assms(1) b(1)] by blast
  then show ?thesis using b(2) assms(1) KeygenMutation by (auto simp: coord_apply_def staged_if_def)
next
  case (SigningMutation k)
  then obtain b where b: "apply_signing_mutation E k s = (Ok (s', b) :: ('e, _) result)" "r = (if b then Some m else None)"
    using assms(3) by (auto simp: coord_apply_def result_iff staged_if_def)
  obtain t' where "apply_signing_mutation E k t = (Ok (t', b) :: ('e, _) result)" "coord_sim s' t'" "\<not> b \<longrightarrow> coord_sim s' t"
    using apply_signing_mutation_sim [OF assms(1) _ b(1)] assms(2) SigningMutation by blast
  then show ?thesis using b(2) SigningMutation by (auto simp: coord_apply_def staged_if_def)
next
  case (RestorationMutation k)
  then show ?thesis using coord_apply_restoration_sim assms(1,3) by blast
qed

lemma close_sign_session_log:
  "close_sign_session sid fin co = (Ok (co', b) :: ('e, _) result) \<Longrightarrow> fc_mutations co' = fc_mutations co"
  by (auto simp: close_sign_session_def result_iff split: if_splits)

lemma close_sign_sessions_log:
  "close_sign_sessions sids co = (Ok co' :: ('e, _) result) \<Longrightarrow> fc_mutations co' = fc_mutations co"
proof (induction sids arbitrary: co)
  case (Cons sid sids)
  then obtain co1 b where "close_sign_session sid None co = (Ok (co1, b) :: ('e, _) result)"
      "close_sign_sessions sids co1 = (Ok co' :: ('e, _) result)"
    by (auto simp: result_iff)
  then show ?case using Cons.IH close_sign_session_log by fastforce
qed simp

lemma apply_delete_key_log:
  "apply_delete_key kid co = (Ok (co', b) :: ('e, _) result) \<Longrightarrow> fc_mutations co' = fc_mutations co"
  by (auto simp: apply_delete_key_def Let_def result_iff split: if_splits dest!: close_sign_sessions_log)

lemma coord_apply_log:
  assumes "coord_apply E m co = (Ok (co', r) :: ('e, _) result)"
  shows "fc_mutations co' = fc_mutations co"
proof (cases m)
  case (KeygenMutation k)
  then obtain b where b: "apply_key_mutation E k co = (Ok (co', b) :: ('e, _) result)"
    using assms by (auto simp: coord_apply_def result_iff staged_if_def)
  then show ?thesis
    by (cases k) (auto simp: apply_key_mutation_def ensure_key_def Let_def apply_new_access_structure_def
        apply_new_share_def apply_delete_share_def update_access_structure_def
        split: option.splits if_splits dest!: apply_delete_key_log)
next
  case (SigningMutation k)
  then obtain b where b: "apply_signing_mutation E k co = (Ok (co', b) :: ('e, _) result)"
    using assms by (auto simp: coord_apply_def result_iff staged_if_def)
  then show ?thesis
    by (cases k) (auto simp: apply_signing_mutation_def apply_new_nonces_def
        split: option.splits if_splits prod.splits result.splits dest!: close_sign_session_log)
qed (use assms in \<open>auto simp: coord_apply_def split: prod.splits\<close>)

interpretation coord: fallible_log
    "coord_apply E :: _ \<Rightarrow> _ \<Rightarrow> ('e, applied) result" "coord_mutate E :: _ \<Rightarrow> _ \<Rightarrow> ('e, frost_coordinator) result"
    coord_push fc_mutations coord_sim coord_admissible
  for E
proof unfold_locales
  show "coord_mutate E m s = and_then (coord_apply E m s)
      (\<lambda>(s', r). Ok (case r of Some m' \<Rightarrow> coord_push m' s' | None \<Rightarrow> s'))" for m s
    by (simp add: coord_mutate_def)
  show "fc_mutations s' = fc_mutations s" if "coord_apply E m s = Ok (s', r)" for m s s' r
    by (rule coord_apply_log [OF that])
  show "fc_mutations (coord_push m s) = fc_mutations s @ [m]" for m s
    by (simp add: coord_push_def)
  show "coord_sim (coord_push m s) t" if "coord_sim s t" for m s t
    by (rule coord_sim_core [OF that]) (simp_all add: coord_push_def core_defs coord_simD [OF that])
  show "\<exists>t' r. coord_apply E m' t = (Ok (t', r) :: ('e, applied) result) \<and> coord_sim s' t'"
    if "coord_sim s t" "coord_admissible m s" "coord_apply E m s = (Ok (s', Some m') :: ('e, applied) result)"
    for s t m s' m'
    using coord_apply_sim [OF that] by blast
  show "coord_sim s' t"
    if "coord_sim s t" "coord_admissible m s" "coord_apply E m s = (Ok (s', None) :: ('e, applied) result)"
    for s t m s'
    using coord_apply_sim [OF that] by blast
qed

end
