(* ===== verification/CoordInv.thy ===== *)
theory CoordInv
  imports CoordRecover
begin

section \<open>The coordinator's invariant\<close>

text \<open>
  What every mutation keeps: the orders list exactly the keys and the sessions there are, an
  access structure is filed under its own identifiers, a session's access structure exists,
  and no two active sessions draw on the same nonce stream.
\<close>

definition session_streams :: "active_session \<Rightarrow> nonce_stream_id set" where
  "session_streams s = (\<lambda>(d, ns). cns_stream_id ns) ` set (ss_nonces (as_init s))"

definition frost_key_wf :: "crypto \<Rightarrow> key_id \<Rightarrow> coord_frost_key \<Rightarrow> bool" where
  "frost_key_wf C kid k \<longleftrightarrow>
     cfk_key_id k = kid \<and> key_id_of_master_appkey C (ck_master_appkey (cfk_complete_key k)) = kid \<and>
     bt_wf (ck_access_structures (cfk_complete_key k)) \<and>
     (\<forall>asid a. bt_get (ck_access_structures (cfk_complete_key k)) asid = Some a \<longrightarrow>
        cas_ref C a = AccessStructureRef kid asid \<and> bt_wf (cas_device_to_share_index a))"

definition coord_keys_wf :: "crypto \<Rightarrow> frost_coordinator \<Rightarrow> bool" where
  "coord_keys_wf C co \<longleftrightarrow>
     bt_wf (fc_keys co) \<and> distinct (fc_key_order co) \<and> set (fc_key_order co) = set (bt_keys (fc_keys co)) \<and>
     (\<forall>kid k. bt_get (fc_keys co) kid = Some k \<longrightarrow> frost_key_wf C kid k)"

definition coord_sessions_wf :: "coord_env \<Rightarrow> frost_coordinator \<Rightarrow> bool" where
  "coord_sessions_wf E co \<longleftrightarrow>
     bt_wf (fc_active_sessions co) \<and> distinct (fc_session_order co) \<and>
     set (fc_session_order co) = set (bt_keys (fc_active_sessions co)) \<and>
     (\<forall>sid s. bt_get (fc_active_sessions co) sid = Some s \<longrightarrow>
        as_session_id E s = sid \<and> bt_wf (ss_nonces (as_init s)) \<and>
        lookup_access_structure (as_ref s) co \<noteq> None) \<and>
     (\<forall>sid s sid' s'. bt_get (fc_active_sessions co) sid = Some s \<longrightarrow>
        bt_get (fc_active_sessions co) sid' = Some s' \<longrightarrow> sid \<noteq> sid' \<longrightarrow>
        session_streams s \<inter> session_streams s' = {})"

text \<open>The key of a restoration is one the search found among the shares held.\<close>

definition restoration_wf :: "coord_env \<Rightarrow> fingerprint \<Rightarrow> restoration_id \<Rightarrow> restoration_state \<Rightarrow> bool" where
  "restoration_wf E fp rid st \<longleftrightarrow>
     rst_restoration_id st = rid \<and> rst_fingerprint st = fp \<and>
     distinct (map (\<lambda>r. (rcs_held_by r, rcs_image r)) (rec_held_shares (rst_access_structure st))) \<and>
     (\<forall>k. rec_shared_key (rst_access_structure st) = Some k \<longrightarrow>
        (\<exists>threshold found. find_valid_subset (ce_crypto E) (ce_frost_ops E)
           (map rcs_image (rec_held_shares (rst_access_structure st))) fp threshold = Some (found, k)) \<and>
        is_non_zero (ce_frost_ops E) k)"

definition coord_restorations_wf :: "coord_env \<Rightarrow> frost_coordinator \<Rightarrow> bool" where
  "coord_restorations_wf E co \<longleftrightarrow>
     bt_wf (rs_restorations (fc_restoration co)) \<and> bs_wf (rs_pending (fc_restoration co)) \<and>
     (\<forall>rid st. bt_get (rs_restorations (fc_restoration co)) rid = Some st \<longrightarrow>
        restoration_wf E (fc_fingerprint co) rid st)"

definition coord_wf :: "coord_env \<Rightarrow> frost_coordinator \<Rightarrow> bool" where
  "coord_wf E co \<longleftrightarrow>
     coord_keys_wf (ce_crypto E) co \<and> coord_sessions_wf E co \<and> coord_restorations_wf E co"

text \<open>What the operations see to before they add a session or a key.\<close>

definition new_session_valid :: "coord_env \<Rightarrow> active_session \<Rightarrow> frost_coordinator \<Rightarrow> bool" where
  "new_session_valid E s co \<longleftrightarrow>
     bt_get (fc_active_sessions co) (as_session_id E s) = None \<and> bt_wf (ss_nonces (as_init s)) \<and>
     lookup_access_structure (as_ref s) co \<noteq> None \<and>
     session_streams s \<inter> set (all_used_nonce_streams co) = {}"

definition coord_valid :: "coord_env \<Rightarrow> coord_mutation \<Rightarrow> frost_coordinator \<Rightarrow> bool" where
  "coord_valid E m co \<longleftrightarrow>
     coord_admissible m co \<and>
     (case m of
        SigningMutation (NewSigningSession s) \<Rightarrow> new_session_valid E s co
      | KeygenMutation (NewKey _ _ k) \<Rightarrow> ck_access_structures k = []
      | _ \<Rightarrow> True)"

lemma coord_wf_new: "coord_wf E (new_coordinator fp)"
  by (simp add: coord_wf_def coord_keys_wf_def coord_sessions_wf_def coord_restorations_wf_def
      new_coordinator_def empty_restorations_def bt_wf_def bt_keys_def bs_wf_def)

lemma bt_in_iff: "bt_wf m \<Longrightarrow> (k, v) \<in> set m \<longleftrightarrow> bt_get m k = Some v"
  using bt_get_in bt_in_get by metis

lemma bt_values_get:
  assumes "bt_wf m"
  shows "v \<in> set (bt_values m) \<longleftrightarrow> (\<exists>k. bt_get m k = Some v)"
proof
  assume "v \<in> set (bt_values m)"
  then obtain k where "(k, v) \<in> set m" by (auto simp: bt_values_def)
  then show "\<exists>k. bt_get m k = Some v" using bt_in_get [OF assms] by blast
next
  assume "\<exists>k. bt_get m k = Some v"
  then obtain k where "(k, v) \<in> set m" using bt_get_in by metis
  then show "v \<in> set (bt_values m)" by (force simp: bt_values_def)
qed

lemma all_used_streams:
  assumes "bt_wf (fc_active_sessions co)"
  shows "x \<in> set (all_used_nonce_streams co) \<longleftrightarrow>
    (\<exists>sid s. bt_get (fc_active_sessions co) sid = Some s \<and> x \<in> session_streams s)"
proof -
  have streams: "session_streams s = cns_stream_id ` set (bt_values (ss_nonces (as_init s)))" for s
    by (simp add: session_streams_def bt_values_def image_image case_prod_unfold)
  have "set (all_used_nonce_streams co) = (\<Union>s\<in>set (bt_values (fc_active_sessions co)). session_streams s)"
    by (simp add: all_used_nonce_streams_def streams)
  then show ?thesis by (simp add: Bex_def bt_values_get [OF assms]) blast
qed

subsection \<open>Changes of one part keep the others\<close>

lemma coord_keys_wf_cong:
  "fc_keys co' = fc_keys co \<Longrightarrow> fc_key_order co' = fc_key_order co \<Longrightarrow>
   coord_keys_wf C co' = coord_keys_wf C co"
  by (simp add: coord_keys_wf_def)

lemma lookup_cong: "fc_keys co' = fc_keys co \<Longrightarrow> lookup_access_structure asr co' = lookup_access_structure asr co"
  by (simp add: lookup_access_structure_def)

lemma coord_restorations_wf_cong:
  "rs_restorations (fc_restoration co') = rs_restorations (fc_restoration co) \<Longrightarrow>
   rs_pending (fc_restoration co') = rs_pending (fc_restoration co) \<Longrightarrow>
   fc_fingerprint co' = fc_fingerprint co \<Longrightarrow>
   coord_restorations_wf E co' = coord_restorations_wf E co"
  by (simp add: coord_restorations_wf_def)

lemma coord_sessions_wf_cong:
  "coord_sessions_wf E co \<Longrightarrow> fc_active_sessions co' = fc_active_sessions co \<Longrightarrow>
   fc_session_order co' = fc_session_order co \<Longrightarrow>
   (\<And>asr. lookup_access_structure asr co \<noteq> None \<Longrightarrow> lookup_access_structure asr co' \<noteq> None) \<Longrightarrow>
   coord_sessions_wf E co'"
  by (auto simp: coord_sessions_wf_def)

lemma coord_wf_cong:
  assumes "coord_wf E co" "coord_core co' = coord_core co"
  shows "coord_wf E co'"
proof -
  have eqs: "fc_keys co' = fc_keys co" "fc_key_order co' = fc_key_order co"
    "fc_active_sessions co' = fc_active_sessions co" "fc_session_order co' = fc_session_order co"
    "rs_restorations (fc_restoration co') = rs_restorations (fc_restoration co)"
    "rs_pending (fc_restoration co') = rs_pending (fc_restoration co)"
    "fc_fingerprint co' = fc_fingerprint co"
    using assms(2) by (simp_all add: core_defs)
  have parts: "coord_keys_wf (ce_crypto E) co" "coord_sessions_wf E co" "coord_restorations_wf E co"
    using assms(1) by (simp_all add: coord_wf_def)
  have "coord_sessions_wf E co'"
    by (rule coord_sessions_wf_cong [OF parts(2) eqs(3,4)]) (simp add: lookup_cong [OF eqs(1)])
  moreover have "coord_keys_wf (ce_crypto E) co'"
    using parts(1) by (simp only: coord_keys_wf_cong [OF eqs(1,2)])
  moreover have "coord_restorations_wf E co'"
    using parts(3) by (simp only: coord_restorations_wf_cong [OF eqs(5,6,7)])
  ultimately show ?thesis by (simp add: coord_wf_def)
qed

text \<open>Sessions that go, or change in what the invariant does not speak of.\<close>

lemma coord_sessionsD:
  assumes "coord_sessions_wf E co"
  shows "bt_wf (fc_active_sessions co)" "distinct (fc_session_order co)"
    "set (fc_session_order co) = set (bt_keys (fc_active_sessions co))"
    and "bt_get (fc_active_sessions co) sid = Some s \<Longrightarrow> as_session_id E s = sid"
    and "bt_get (fc_active_sessions co) sid = Some s \<Longrightarrow> bt_wf (ss_nonces (as_init s))"
    and "bt_get (fc_active_sessions co) sid = Some s \<Longrightarrow> lookup_access_structure (as_ref s) co \<noteq> None"
    and "bt_get (fc_active_sessions co) sid = Some s \<Longrightarrow> bt_get (fc_active_sessions co) sid' = Some s' \<Longrightarrow>
      sid \<noteq> sid' \<Longrightarrow> session_streams s \<inter> session_streams s' = {}"
  using assms unfolding coord_sessions_wf_def by blast+

lemma coord_sessions_wfI:
  assumes "bt_wf (fc_active_sessions co)" "distinct (fc_session_order co)"
    and "set (fc_session_order co) = set (bt_keys (fc_active_sessions co))"
    and "\<And>sid s. bt_get (fc_active_sessions co) sid = Some s \<Longrightarrow>
      as_session_id E s = sid \<and> bt_wf (ss_nonces (as_init s)) \<and> lookup_access_structure (as_ref s) co \<noteq> None"
    and "\<And>sid s sid' s'. bt_get (fc_active_sessions co) sid = Some s \<Longrightarrow>
      bt_get (fc_active_sessions co) sid' = Some s' \<Longrightarrow> sid \<noteq> sid' \<Longrightarrow>
      session_streams s \<inter> session_streams s' = {}"
  shows "coord_sessions_wf E co"
  unfolding coord_sessions_wf_def using assms by blast

lemma same_init_same:
  assumes "as_init s' = as_init s" "as_key_id s' = as_key_id s"
  shows "as_session_id E s' = as_session_id E s" "as_ref s' = as_ref s" "session_streams s' = session_streams s"
  using assms by (simp_all add: as_session_id_def as_ref_def session_streams_def)

lemma coord_sessions_wf_shrink:
  assumes "coord_sessions_wf E co" "bt_wf (fc_active_sessions co')" "distinct (fc_session_order co')"
    and "set (fc_session_order co') = set (bt_keys (fc_active_sessions co'))"
    and old: "\<And>sid s'. bt_get (fc_active_sessions co') sid = Some s' \<Longrightarrow>
      \<exists>s. bt_get (fc_active_sessions co) sid = Some s \<and> as_init s' = as_init s \<and> as_key_id s' = as_key_id s"
    and look: "\<And>sid s. bt_get (fc_active_sessions co') sid = Some s \<Longrightarrow> lookup_access_structure (as_ref s) co \<noteq> None \<Longrightarrow>
      lookup_access_structure (as_ref s) co' \<noteq> None"
  shows "coord_sessions_wf E co'"
proof (rule coord_sessions_wfI [OF assms(2-4)])
  fix sid s' assume s': "bt_get (fc_active_sessions co') sid = Some s'"
  then obtain s where s: "bt_get (fc_active_sessions co) sid = Some s" "as_init s' = as_init s"
      "as_key_id s' = as_key_id s" using old by blast
  note same = same_init_same [OF s(2,3)]
  show "as_session_id E s' = sid \<and> bt_wf (ss_nonces (as_init s')) \<and> lookup_access_structure (as_ref s') co' \<noteq> None"
    using coord_sessionsD(4,5,6) [OF assms(1) s(1)] look [OF s'] same s(2) by simp
next
  fix sid s' sid2 s2'
  assume a: "bt_get (fc_active_sessions co') sid = Some s'" "bt_get (fc_active_sessions co') sid2 = Some s2'" "sid \<noteq> sid2"
  obtain s where s: "bt_get (fc_active_sessions co) sid = Some s" "as_init s' = as_init s" "as_key_id s' = as_key_id s"
    using old [OF a(1)] by blast
  obtain s2 where s2: "bt_get (fc_active_sessions co) sid2 = Some s2" "as_init s2' = as_init s2"
      "as_key_id s2' = as_key_id s2"
    using old [OF a(2)] by blast
  show "session_streams s' \<inter> session_streams s2' = {}"
    using coord_sessionsD(7) [OF assms(1) s(1) s2(1) a(3)] same_init_same(3) [OF s(2,3)]
      same_init_same(3) [OF s2(2,3)] by simp
qed

subsection \<open>Closing sessions\<close>

lemma close_sign_session_effect:
  assumes "close_sign_session sid fin co = (Ok (co', b) :: ('e, _) result)"
  shows "fc_keys co' = fc_keys co \<and> fc_key_order co' = fc_key_order co \<and>
    fc_restoration co' = fc_restoration co \<and> fc_fingerprint co' = fc_fingerprint co \<and>
    fc_session_order co' = remove1 sid (fc_session_order co) \<and>
    (sid \<in> set (fc_session_order co) \<longrightarrow> fc_active_sessions co' = bt_remove sid (fc_active_sessions co)) \<and>
    (sid \<notin> set (fc_session_order co) \<longrightarrow> co' = co)"
  using assms by (auto simp: close_sign_session_def result_iff remove1_idem split: if_splits)

lemma close_sign_session_wf:
  assumes "coord_sessions_wf E co" "close_sign_session sid fin co = (Ok (co', b) :: ('e, _) result)"
  shows "coord_sessions_wf E co'"
proof (cases "sid \<in> set (fc_session_order co)")
  case True
  note eff = close_sign_session_effect [OF assms(2)] and D = coord_sessionsD [OF assms(1)]
  have act: "fc_active_sessions co' = bt_remove sid (fc_active_sessions co)"
    and ord: "fc_session_order co' = remove1 sid (fc_session_order co)" using eff True by simp_all
  show ?thesis
  proof (rule coord_sessions_wf_shrink [OF assms(1)])
    show "bt_wf (fc_active_sessions co')" "distinct (fc_session_order co')"
      using D(1,2) by (simp_all add: act ord)
    show "set (fc_session_order co') = set (bt_keys (fc_active_sessions co'))"
      using D(2,3) by (simp add: act ord set_eq_iff btree.key_list_dom)
  next
    fix sid' s' assume "bt_get (fc_active_sessions co') sid' = Some s'"
    then show "\<exists>s. bt_get (fc_active_sessions co) sid' = Some s \<and> as_init s' = as_init s \<and> as_key_id s' = as_key_id s"
      by (simp add: act split: if_splits)
  next
    fix sid' s assume "lookup_access_structure (as_ref s) co \<noteq> None"
    then show "lookup_access_structure (as_ref s) co' \<noteq> None" using eff lookup_cong by metis
  qed
next
  case False
  then show ?thesis using close_sign_session_effect [OF assms(2)] assms(1) by simp
qed

definition sessions_ordered :: "frost_coordinator \<Rightarrow> bool" where
  "sessions_ordered co \<longleftrightarrow>
     bt_wf (fc_active_sessions co) \<and> distinct (fc_session_order co) \<and>
     set (fc_session_order co) = set (bt_keys (fc_active_sessions co))"

lemma close_sign_session_ordered:
  assumes "sessions_ordered co" "close_sign_session sid fin co = (Ok (co', b) :: ('e, _) result)"
  shows "sessions_ordered co' \<and>
    bt_get (fc_active_sessions co') x = (if x = sid then None else bt_get (fc_active_sessions co) x)"
proof (cases "sid \<in> set (fc_session_order co)")
  case True
  then have "fc_active_sessions co' = bt_remove sid (fc_active_sessions co)"
    "fc_session_order co' = remove1 sid (fc_session_order co)"
    using close_sign_session_effect [OF assms(2)] by simp_all
  then show ?thesis using assms(1) by (simp add: sessions_ordered_def set_eq_iff btree.key_list_dom)
next
  case False
  then have "bt_get (fc_active_sessions co) sid = None"
    using assms(1) by (simp add: sessions_ordered_def btree.key_list_dom)
  then show ?thesis using close_sign_session_effect [OF assms(2)] assms(1) False by simp
qed

lemma close_sign_sessions_effect:
  "close_sign_sessions sids co = (Ok co' :: ('e, _) result) \<Longrightarrow> sessions_ordered co \<Longrightarrow>
   sessions_ordered co' \<and> fc_keys co' = fc_keys co \<and> fc_key_order co' = fc_key_order co \<and>
   fc_restoration co' = fc_restoration co \<and> fc_fingerprint co' = fc_fingerprint co \<and>
   (\<forall>x. bt_get (fc_active_sessions co') x =
      (if x \<in> set sids then None else bt_get (fc_active_sessions co) x))"
proof (induction sids arbitrary: co)
  case (Cons sid sids)
  then obtain co1 b where co1: "close_sign_session sid None co = (Ok (co1, b) :: ('e, _) result)"
      "close_sign_sessions sids co1 = (Ok co' :: ('e, _) result)"
    by (auto simp: result_iff)
  note one = close_sign_session_ordered [OF Cons.prems(2) co1(1)] and eff = close_sign_session_effect [OF co1(1)]
  show ?case using Cons.IH [OF co1(2)] one eff by simp
qed simp

lemma in_sessions_of_key:
  assumes "bt_wf (fc_active_sessions co)"
  shows "sid \<in> set (sessions_of_key kid co) \<longleftrightarrow>
    (\<exists>s. bt_get (fc_active_sessions co) sid = Some s \<and> as_key_id s = kid)"
proof -
  have "sid \<in> set (sessions_of_key kid co) \<longleftrightarrow> (\<exists>s. (sid, s) \<in> set (fc_active_sessions co) \<and> as_key_id s = kid)"
    by (force simp: sessions_of_key_def)
  then show ?thesis by (simp only: bt_in_iff [OF assms])
qed

subsection \<open>Key mutations\<close>

lemma frost_key_wf_modify:
  assumes "frost_key_wf C kid k" and "\<And>a. cas_app_shared_key (f a) = cas_app_shared_key a"
    and "\<And>a. bt_wf (cas_device_to_share_index a) \<Longrightarrow> bt_wf (cas_device_to_share_index (f a))"
  shows "frost_key_wf C kid (k\<lparr>cfk_complete_key := (cfk_complete_key k)
      \<lparr>ck_access_structures := bt_modify asid f (ck_access_structures (cfk_complete_key k))\<rparr>\<rparr>)"
  using assms by (auto simp: frost_key_wf_def cas_ref_def cas_master_appkey_def cas_id_def split: if_splits)

lemma update_access_structure_wf:
  assumes "coord_wf E co" and "\<And>a. cas_app_shared_key (f a) = cas_app_shared_key a"
    and "\<And>a. bt_wf (cas_device_to_share_index a) \<Longrightarrow> bt_wf (cas_device_to_share_index (f a))"
  shows "coord_wf E (update_access_structure asr f co)"
proof -
  let ?co = "update_access_structure asr f co"
  have parts: "coord_keys_wf (ce_crypto E) co" "coord_sessions_wf E co" "coord_restorations_wf E co"
    using assms(1) by (simp_all add: coord_wf_def)
  have "set (bt_keys (fc_keys ?co)) = set (bt_keys (fc_keys co))"
    by (auto simp: update_access_structure_def btree.key_list_dom split: if_splits)
  moreover have "frost_key_wf (ce_crypto E) kid k" if "bt_get (fc_keys ?co) kid = Some k" for kid k
    using that parts(1) frost_key_wf_modify [OF _ assms(2,3)]
    by (auto simp: update_access_structure_def coord_keys_wf_def split: if_splits)
  ultimately have "coord_keys_wf (ce_crypto E) ?co"
    using parts(1) by (simp add: coord_keys_wf_def) (simp add: update_access_structure_def)
  moreover have "coord_sessions_wf E ?co"
    by (rule coord_sessions_wf_cong [OF parts(2)])
      (auto simp: update_access_structure_def lookup_access_structure_def bind_eq_None_conv split: if_splits)
  moreover have "coord_restorations_wf E ?co"
    using parts(3) by (simp add: coord_restorations_wf_def update_access_structure_def)
  ultimately show ?thesis by (simp add: coord_wf_def)
qed

lemma put_frost_key_wf:
  assumes "coord_wf E co" "frost_key_wf (ce_crypto E) kid k"
    and "co' = co\<lparr>fc_keys := bt_insert kid k (fc_keys co),
      fc_key_order := (if bt_get (fc_keys co) kid = None then fc_key_order co @ [kid] else fc_key_order co)\<rparr>"
    and "\<And>k0 asid. bt_get (fc_keys co) kid = Some k0 \<Longrightarrow>
      bt_get (ck_access_structures (cfk_complete_key k0)) asid \<noteq> None \<Longrightarrow>
      bt_get (ck_access_structures (cfk_complete_key k)) asid \<noteq> None"
  shows "coord_wf E co'"
proof -
  have parts: "coord_keys_wf (ce_crypto E) co" "coord_sessions_wf E co" "coord_restorations_wf E co"
    using assms(1) by (simp_all add: coord_wf_def)
  have "coord_keys_wf (ce_crypto E) co'"
    using parts(1) assms(2) unfolding assms(3) coord_keys_wf_def
    by (auto simp: btree.key_list_dom split: if_splits)
  moreover have "coord_sessions_wf E co'"
    by (rule coord_sessions_wf_cong [OF parts(2)])
      (use assms(4) in \<open>auto simp: assms(3) lookup_access_structure_def bind_eq_None_conv split: if_splits\<close>)
  moreover have "coord_restorations_wf E co'"
    using parts(3) by (simp add: coord_restorations_wf_def assms(3))
  ultimately show ?thesis by (simp add: coord_wf_def)
qed

lemma ensure_key_wf:
  assumes "coord_wf E co" "ck_access_structures k = []"
  shows "coord_wf E (ensure_key (ce_crypto E) k name p co)"
proof (cases "bt_get (fc_keys co) (key_id_of_master_appkey (ce_crypto E) (ck_master_appkey k))")
  case None
  show ?thesis
    by (rule put_frost_key_wf [OF assms(1), of "key_id_of_master_appkey (ce_crypto E) (ck_master_appkey k)"
          "\<lparr>cfk_key_id = key_id_of_master_appkey (ce_crypto E) (ck_master_appkey k), cfk_complete_key = k,
            cfk_key_name = name, cfk_purpose = p\<rparr>"])
      (use assms(2) None in \<open>simp_all add: ensure_key_def Let_def frost_key_wf_def\<close>)
qed (use assms in \<open>simp add: ensure_key_def\<close>)

lemma apply_new_access_structure_wf:
  assumes "coord_wf E co"
  shows "coord_wf E (fst (apply_new_access_structure (ce_crypto E) k kind co))"
proof -
  let ?C = "ce_crypto E"
  let ?kid = "key_id_of_master_appkey ?C (from_xpub_unchecked (shared_key_tweakable ?C) k)"
  let ?asid = "access_structure_id_of ?C (xpub_key k)"
  show ?thesis
  proof (cases "\<exists>fk. bt_get (fc_keys co) ?kid = Some fk \<and>
      bt_get (ck_access_structures (cfk_complete_key fk)) ?asid = None")
    case False
    then show ?thesis using assms by (auto simp: apply_new_access_structure_def Let_def split: option.split)
  next
    case True
    then obtain fk where fk: "bt_get (fc_keys co) ?kid = Some fk"
        "bt_get (ck_access_structures (cfk_complete_key fk)) ?asid = None" by blast
    have wf: "frost_key_wf ?C ?kid fk" using assms fk(1) by (simp add: coord_wf_def coord_keys_wf_def)
    show ?thesis
      by (rule put_frost_key_wf [OF assms, of ?kid "fk\<lparr>cfk_complete_key := (cfk_complete_key fk)
            \<lparr>ck_access_structures := bt_insert ?asid
               \<lparr>cas_app_shared_key = k, cas_device_to_share_index = [], cas_kind = kind\<rparr>
               (ck_access_structures (cfk_complete_key fk))\<rparr>\<rparr>"])
        (use wf fk in \<open>auto simp: apply_new_access_structure_def Let_def frost_key_wf_def cas_ref_def
           cas_master_appkey_def cas_id_def split: if_splits\<close>)
  qed
qed

lemma clear_up_restorations_wf:
  "coord_restorations_wf E co \<Longrightarrow> rs_restorations (fc_restoration co') = rs_restorations (fc_restoration co) \<Longrightarrow>
   rs_pending (fc_restoration co') = filter P (rs_pending (fc_restoration co)) \<Longrightarrow>
   fc_fingerprint co' = fc_fingerprint co \<Longrightarrow> coord_restorations_wf E co'"
  by (auto simp: coord_restorations_wf_def bs_wf_def sorted_wrt_filter)

lemma apply_delete_key_wf:
  assumes "coord_wf E co" "apply_delete_key kid co = (Ok (co', b) :: ('e, _) result)"
  shows "coord_wf E co'"
proof (cases "bt_get (fc_keys co) kid")
  case None
  then show ?thesis using assms by (simp add: apply_delete_key_def)
next
  case (Some k)
  let ?co = "co\<lparr>fc_keys := bt_remove kid (fc_keys co), fc_key_order := filter (\<lambda>k. k \<noteq> kid) (fc_key_order co),
      fc_restoration := clear_up_key_deletion kid (fc_restoration co)\<rparr>"
  have parts: "coord_keys_wf (ce_crypto E) co" "coord_sessions_wf E co" "coord_restorations_wf E co"
    using assms(1) by (simp_all add: coord_wf_def)
  have close: "close_sign_sessions (sessions_of_key kid ?co) ?co = (Ok co' :: ('e, _) result)"
    using assms(2) Some by (auto simp: apply_delete_key_def Let_def result_iff)
  have "sessions_ordered ?co" using coord_sessionsD(1-3) [OF parts(2)] by (simp add: sessions_ordered_def)
  note eff = close_sign_sessions_effect [OF close this]
  have gone: "bt_get (fc_active_sessions co') sid = Some s \<Longrightarrow>
      bt_get (fc_active_sessions co) sid = Some s \<and> as_key_id s \<noteq> kid" for sid s
    using eff in_sessions_of_key [of ?co sid kid] coord_sessionsD(1) [OF parts(2)] by (auto split: if_splits)
  have "coord_sessions_wf E co'"
  proof (rule coord_sessions_wf_shrink [OF parts(2)])
    fix sid s assume "bt_get (fc_active_sessions co') sid = Some s" "lookup_access_structure (as_ref s) co \<noteq> None"
    then show "lookup_access_structure (as_ref s) co' \<noteq> None"
      using gone eff by (simp add: lookup_access_structure_def as_ref_def)
  qed (use eff gone in \<open>auto simp: sessions_ordered_def\<close>)
  moreover have "coord_keys_wf (ce_crypto E) co'"
    using parts(1) eff by (auto simp: coord_keys_wf_def btree.key_list_dom split: if_splits)
  moreover have "coord_restorations_wf E co'"
    by (rule clear_up_restorations_wf [OF parts(3)]) (use eff in \<open>simp_all add: clear_up_key_deletion_def\<close>)
  ultimately show ?thesis by (simp add: coord_wf_def)
qed

lemma apply_key_mutation_wf:
  assumes "coord_wf E co" "coord_valid E (KeygenMutation m) co"
    and "apply_key_mutation E m co = (Ok (co', b) :: ('e, _) result)"
  shows "coord_wf E co'"
proof (cases m)
  case (NewKey name p k)
  then show ?thesis
    using assms ensure_key_wf [OF assms(1)] by (auto simp: apply_key_mutation_def coord_valid_def)
next
  case (NewAccessStructure k kind)
  then show ?thesis
    using assms(3) apply_new_access_structure_wf [OF assms(1), of k kind] by (simp add: apply_key_mutation_def)
next
  case (NewShare asr d i)
  then show ?thesis
    using assms(1,3)
    by (auto simp: apply_key_mutation_def apply_new_share_def split: option.splits if_splits
        intro!: update_access_structure_wf)
next
  case (DeleteShare asr d)
  then show ?thesis
    using assms(1,3)
    by (auto simp: apply_key_mutation_def apply_delete_share_def split: option.splits if_splits
        intro!: update_access_structure_wf)
next
  case (DeleteKey kid)
  then show ?thesis using assms(3) apply_delete_key_wf [OF assms(1)] by (simp add: apply_key_mutation_def)
qed

subsection \<open>Signing mutations\<close>

lemma sessions_change_wf:
  assumes "coord_wf E co" "coord_sessions_wf E co'"
    and "fc_keys co' = fc_keys co" "fc_key_order co' = fc_key_order co" "fc_restoration co' = fc_restoration co"
    and "fc_fingerprint co' = fc_fingerprint co"
  shows "coord_wf E co'"
  using assms(1,2) coord_keys_wf_cong [OF assms(3,4)] coord_restorations_wf_cong [of co' co] assms(5,6)
  by (simp add: coord_wf_def)

lemma add_session_wf:
  assumes "coord_wf E co" "new_session_valid E s co"
    and "co' = co\<lparr>fc_active_sessions := bt_insert (as_session_id E s) s (fc_active_sessions co),
      fc_session_order := fc_session_order co @ [as_session_id E s]\<rparr>"
  shows "coord_wf E co'"
proof (rule sessions_change_wf [OF assms(1)])
  have wf: "coord_sessions_wf E co" using assms(1) by (simp add: coord_wf_def)
  note D = coord_sessionsD [OF wf]
  have fresh: "session_streams s \<inter> session_streams s' = {}" if "bt_get (fc_active_sessions co) sid = Some s'" for sid s'
    using assms(2) that all_used_streams [OF D(1)] by (auto simp: new_session_valid_def)
  have new: "bt_get (fc_active_sessions co) (as_session_id E s) = None"
    using assms(2) by (simp add: new_session_valid_def)
  have look: "lookup_access_structure asr co' = lookup_access_structure asr co" for asr
    by (rule lookup_cong) (simp add: assms(3))
  show "coord_sessions_wf E co'"
  proof (rule coord_sessions_wfI)
    show "bt_wf (fc_active_sessions co')" "distinct (fc_session_order co')"
      using D(1,2,3) new by (simp_all add: assms(3) btree.key_list_dom)
    show "set (fc_session_order co') = set (bt_keys (fc_active_sessions co'))"
      using D(3) by (simp add: assms(3))
  next
    fix sid s' assume "bt_get (fc_active_sessions co') sid = Some s'"
    then show "as_session_id E s' = sid \<and> bt_wf (ss_nonces (as_init s')) \<and> lookup_access_structure (as_ref s') co' \<noteq> None"
      using D(4,5,6) [of sid s'] assms(2) by (auto simp: assms(3) look [unfolded assms(3)] new_session_valid_def split: if_splits)
  next
    fix sid s1 sid2 s2
    assume "bt_get (fc_active_sessions co') sid = Some s1" "bt_get (fc_active_sessions co') sid2 = Some s2" "sid \<noteq> sid2"
    then show "session_streams s1 \<inter> session_streams s2 = {}"
      using D(7) [of sid s1 sid2 s2] fresh [of sid s1] fresh [of sid2 s2] by (auto simp: assms(3) split: if_splits)
  qed
qed (simp_all add: assms(3))

lemma modify_session_wf:
  assumes "coord_wf E co" "\<And>s. as_init (f s) = as_init s" "\<And>s. as_key_id (f s) = as_key_id s"
  shows "coord_wf E (co\<lparr>fc_active_sessions := bt_modify sid f (fc_active_sessions co)\<rparr>)"
proof (rule sessions_change_wf [OF assms(1)])
  have wf: "coord_sessions_wf E co" using assms(1) by (simp add: coord_wf_def)
  note D = coord_sessionsD [OF wf]
  show "coord_sessions_wf E (co\<lparr>fc_active_sessions := bt_modify sid f (fc_active_sessions co)\<rparr>)"
  proof (rule coord_sessions_wf_shrink [OF wf])
    show "set (fc_session_order (co\<lparr>fc_active_sessions := bt_modify sid f (fc_active_sessions co)\<rparr>)) =
        set (bt_keys (fc_active_sessions (co\<lparr>fc_active_sessions := bt_modify sid f (fc_active_sessions co)\<rparr>)))"
      using D(3) by (auto simp: set_eq_iff btree.key_list_dom split: if_splits)
  next
    fix x s' assume "bt_get (fc_active_sessions (co\<lparr>fc_active_sessions := bt_modify sid f (fc_active_sessions co)\<rparr>)) x = Some s'"
    then show "\<exists>s. bt_get (fc_active_sessions co) x = Some s \<and> as_init s' = as_init s \<and> as_key_id s' = as_key_id s"
      using assms(2,3) by (auto split: if_splits)
  qed (use D(1,2) in \<open>simp_all add: lookup_access_structure_def\<close>)
qed simp_all

lemma apply_signing_mutation_wf:
  assumes "coord_wf E co" "coord_valid E (SigningMutation m) co"
    and "apply_signing_mutation E m co = (Ok (co', b) :: ('e, _) result)"
  shows "coord_wf E co'"
proof (cases m)
  case (NewNonces d seg)
  then have "coord_core co' = coord_core co"
    using assms(3)
    by (auto simp: apply_signing_mutation_def apply_new_nonces_def core_defs split: prod.splits result.splits)
  then show ?thesis by (rule coord_wf_cong [OF assms(1)])
next
  case (NewSigningSession s)
  then show ?thesis
    using assms(2,3) add_session_wf [OF assms(1), of s co']
    by (auto simp: apply_signing_mutation_def coord_valid_def)
next
  case (SentSignReq sid d)
  show ?thesis
  proof (cases "\<exists>s. bt_get (fc_active_sessions co) sid = Some s \<and> d \<notin> set (as_sent_req s)")
    case False
    then show ?thesis
      using assms SentSignReq by (auto simp: apply_signing_mutation_def split: option.splits if_splits)
  next
    case True
    then obtain s where s: "bt_get (fc_active_sessions co) sid = Some s" "d \<notin> set (as_sent_req s)" by blast
    have "co' = co\<lparr>fc_active_sessions := bt_modify sid (\<lambda>s. s\<lparr>as_sent_req := bs_insert d (as_sent_req s)\<rparr>)
        (fc_active_sessions co)\<rparr>"
      using assms(3) SentSignReq s by (simp add: apply_signing_mutation_def bt_modify_def)
    then show ?thesis using modify_session_wf [OF assms(1)] by simp
  qed
next
  case (GotSignatureShares sid d shares)
  then have "co' = co\<lparr>fc_active_sessions := bt_modify sid
      (\<lambda>s. s\<lparr>as_progress := record_shares d (as_progress s) shares\<rparr>) (fc_active_sessions co)\<rparr>"
    using assms(3) by (simp add: apply_signing_mutation_def)
  then show ?thesis using modify_session_wf [OF assms(1)] by simp
next
  case (CloseSignSession sid fin)
  then have close: "close_sign_session sid fin co = (Ok (co', b) :: ('e, _) result)"
    using assms(3) by (simp add: apply_signing_mutation_def)
  show ?thesis
    using close_sign_session_effect [OF close] close_sign_session_wf [OF _ close] assms(1)
    by (intro sessions_change_wf [OF assms(1)]) (simp_all add: coord_wf_def)
next
  case (ForgetFinishedSignSession sid)
  then have co': "co' = co\<lparr>fc_finished_sessions := bt_remove sid (fc_finished_sessions co)\<rparr>"
    using assms(3) by (simp add: apply_signing_mutation_def)
  have "coord_sessions_wf E co'"
    by (rule coord_sessions_wf_cong [of E co]) (use assms(1) in \<open>simp_all add: co' coord_wf_def lookup_access_structure_def\<close>)
  then show ?thesis by (rule sessions_change_wf [OF assms(1)]) (simp_all add: co')
qed

subsection \<open>Restoration mutations\<close>

lemma try_fuzzy_recovery_found:
  "try_fuzzy_recovery C F a fp = Some k \<Longrightarrow>
   (\<exists>threshold found. find_valid_subset C F (map rcs_image (rec_held_shares a)) fp threshold = Some (found, k)) \<and>
   is_non_zero F k"
  by (fastforce simp: try_fuzzy_recovery_def bind_eq_Some_conv split: if_splits)

lemma add_share_wf:
  assumes "restoration_wf E fp rid st" "\<not> has_got_share (rst_access_structure st) d (hs_share_image h)"
  shows "restoration_wf E fp rid (st\<lparr>rst_access_structure := add_share (ce_crypto E) (ce_frost_ops E)
      \<lparr>rcs_held_by = d, rcs_held_share = h\<rparr> fp (rst_access_structure st)\<rparr>)"
proof -
  let ?r = "\<lparr>rcs_held_by = d, rcs_held_share = h\<rparr>"
  let ?a = "add_share (ce_crypto E) (ce_frost_ops E) ?r fp (rst_access_structure st)"
  have held: "rec_held_shares ?a = rec_held_shares (rst_access_structure st) @ [?r]"
    by (simp add: add_share_def Let_def)
  have "(\<exists>threshold found. find_valid_subset (ce_crypto E) (ce_frost_ops E) (map rcs_image (rec_held_shares ?a)) fp
      threshold = Some (found, k)) \<and> is_non_zero (ce_frost_ops E) k" if "rec_shared_key ?a = Some k" for k
    using that try_fuzzy_recovery_found [of "ce_crypto E" "ce_frost_ops E" _ fp k]
    by (fastforce simp: add_share_def Let_def)
  moreover have "distinct (map (\<lambda>r. (rcs_held_by r, rcs_image r)) (rec_held_shares ?a))"
    using assms unfolding held by (auto simp: restoration_wf_def has_got_share_def is_share_of_def list_ex_iff)
  ultimately show ?thesis using assms(1) by (simp add: restoration_wf_def)
qed

lemma remove_share_wf:
  assumes "restoration_wf E fp rid st"
    and "remove_share (ce_crypto E) (ce_frost_ops E) d im fp (rst_access_structure st) = (a, True)"
  shows "restoration_wf E fp rid (st\<lparr>rst_access_structure := a\<rparr>)"
proof -
  let ?held = "rec_held_shares (rst_access_structure st)"
  obtain pos where held: "rec_held_shares a = take pos ?held @ drop (Suc pos) ?held"
    and key: "rec_shared_key a = try_fuzzy_recovery (ce_crypto E) (ce_frost_ops E)
      ((rst_access_structure st)\<lparr>rec_held_shares := rec_held_shares a\<rparr>) fp"
    using assms(2) by (auto simp: remove_share_def Let_def split: option.splits)
  have "distinct (map (\<lambda>r. (rcs_held_by r, rcs_image r)) (rec_held_shares a))"
    using assms(1) set_take_disj_set_drop_if_distinct [of _ pos "Suc pos"]
    unfolding held restoration_wf_def by (auto simp: take_map [symmetric] drop_map [symmetric])
  moreover have "(\<exists>threshold found. find_valid_subset (ce_crypto E) (ce_frost_ops E) (map rcs_image (rec_held_shares a)) fp
      threshold = Some (found, k)) \<and> is_non_zero (ce_frost_ops E) k" if "rec_shared_key a = Some k" for k
    using try_fuzzy_recovery_found [OF that [unfolded key]] by simp
  ultimately show ?thesis using assms(1) by (simp add: restoration_wf_def)
qed

definition rs_wf :: "coord_env \<Rightarrow> fingerprint \<Rightarrow> restorations \<Rightarrow> bool" where
  "rs_wf E fp rs \<longleftrightarrow>
     bt_wf (rs_restorations rs) \<and> bs_wf (rs_pending rs) \<and>
     (\<forall>rid st. bt_get (rs_restorations rs) rid = Some st \<longrightarrow> restoration_wf E fp rid st)"

lemma rs_wf_put: "rs_wf E fp rs \<Longrightarrow> restoration_wf E fp rid st \<Longrightarrow>
   rs_wf E fp (rs\<lparr>rs_restorations := bt_insert rid st (rs_restorations rs)\<rparr>)"
  by (auto simp: rs_wf_def split: if_splits)

lemma apply_progress_wf:
  assumes "rs_wf E fp rs" "apply_progress (ce_crypto E) (ce_frost_ops E) rid d h fp rs = (rs', r)"
  shows "rs_wf E fp rs'"
proof (cases "bt_get (rs_restorations rs) rid")
  case (Some st)
  then have "restoration_wf E fp rid st" using assms(1) by (simp add: rs_wf_def)
  then show ?thesis
    using assms Some add_share_wf [of E fp rid st d h]
    by (auto simp: apply_progress_def Let_def split: if_splits intro!: rs_wf_put)
qed (use assms in \<open>simp add: apply_progress_def\<close>)

lemma coord_apply_restoration_wf:
  assumes "rs_wf E fp rs" "coord_apply_restoration (ce_crypto E) (ce_frost_ops E) m fp rs = (rs', r)"
  shows "rs_wf E fp rs'"
proof (cases m)
  case (NewRestoration rid name threshold purpose)
  then show ?thesis
    using assms by (auto simp: coord_apply_restoration_def apply_new_restoration_def restoration_wf_def intro!: rs_wf_put)
next
  case (NewRestoration2 rid name threshold purpose)
  then show ?thesis
    using assms by (auto simp: coord_apply_restoration_def apply_new_restoration_def restoration_wf_def intro!: rs_wf_put)
next
  case (DeleteRestorationShare rid d im)
  show ?thesis
  proof (cases "bt_get (rs_restorations rs) rid")
    case (Some st)
    then have st: "restoration_wf E fp rid st" "rst_fingerprint st = fp"
      using assms(1) by (auto simp: rs_wf_def restoration_wf_def)
    then show ?thesis
      using assms Some DeleteRestorationShare remove_share_wf [OF st(1)]
      by (auto simp: coord_apply_restoration_def split: prod.splits bool.splits intro!: rs_wf_put)
  qed (use assms DeleteRestorationShare in \<open>simp add: coord_apply_restoration_def\<close>)
next
  case (RestorationProgress rid d im asr)
  then show ?thesis using assms apply_progress_wf by (simp add: coord_apply_restoration_def)
next
  case (RestorationProgress2 rid d h)
  then show ?thesis using assms apply_progress_wf by (simp add: coord_apply_restoration_def)
qed (use assms in \<open>auto simp: coord_apply_restoration_def rs_wf_def bs_remove_def bs_wf_def sorted_wrt_filter
       intro: bs_wf_insert [unfolded bs_wf_def] split: if_splits\<close>)

lemma coord_apply_wf:
  assumes "coord_wf E co" "coord_valid E m co" "coord_apply E m co = (Ok (co', r) :: ('e, _) result)"
  shows "coord_wf E co'"
proof (cases m)
  case (KeygenMutation k)
  then obtain b where "apply_key_mutation E k co = (Ok (co', b) :: ('e, _) result)"
    using assms(3) by (auto simp: coord_apply_def result_iff staged_if_def)
  then show ?thesis using apply_key_mutation_wf assms(1,2) KeygenMutation by blast
next
  case (SigningMutation k)
  then obtain b where "apply_signing_mutation E k co = (Ok (co', b) :: ('e, _) result)"
    using assms(3) by (auto simp: coord_apply_def result_iff staged_if_def)
  then show ?thesis using apply_signing_mutation_wf assms(1,2) SigningMutation by blast
next
  case (RestorationMutation k)
  obtain rs q where ap: "coord_apply_restoration (ce_crypto E) (ce_frost_ops E) k (fc_fingerprint co) (fc_restoration co) = (rs, q)"
    by fastforce
  then have co': "co' = co\<lparr>fc_restoration := rs\<rparr>"
    using assms(3) RestorationMutation by (simp add: coord_apply_def)
  have "rs_wf E (fc_fingerprint co) (fc_restoration co)"
    using assms(1) by (simp add: coord_wf_def coord_restorations_wf_def rs_wf_def)
  from coord_apply_restoration_wf [OF this ap] have "coord_restorations_wf E co'"
    by (simp add: coord_restorations_wf_def rs_wf_def co')
  moreover have "coord_keys_wf (ce_crypto E) co'"
    using assms(1) coord_keys_wf_cong [of co' co] by (simp add: coord_wf_def co')
  moreover have "coord_sessions_wf E co'"
    by (rule coord_sessions_wf_cong [of E co]) (use assms(1) in \<open>simp_all add: coord_wf_def co' lookup_access_structure_def\<close>)
  ultimately show ?thesis by (simp add: coord_wf_def)
qed

lemma coord_push_core: "coord_core (coord_push m co) = coord_core co"
  by (simp add: coord_push_def core_defs)

lemma coord_mutate_wf:
  assumes "coord_wf E co" "coord_valid E m co" "coord_mutate E m co = (Ok co' :: ('e, _) result)"
  shows "coord_wf E co'"
proof -
  obtain co1 r where "coord_apply E m co = (Ok (co1, r) :: ('e, _) result)"
    and co': "co' = (case r of Some m' \<Rightarrow> coord_push m' co1 | None \<Rightarrow> co1)"
    using assms(3) by (auto simp: coord_mutate_def result_iff)
  then have "coord_wf E co1" using coord_apply_wf assms(1,2) by blast
  then show ?thesis using coord_wf_cong coord_push_core by (auto simp: co' split: option.split)
qed

end
