(* ===== verification/CoordRun.thy ===== *)
theory CoordRun
  imports CoordInv
begin

section \<open>Runs of the coordinator\<close>

text \<open>
  Every public operation keeps the invariant and the recoverability of the coordinator, for any
  messages and any interleaving. \<open>coord_op\<close> is one operation, \<open>coord_run\<close> the runs from an empty
  coordinator, with what the caller has written out of the staged mutations. The id of a new
  session is the hash of its request; that it is not the id of a session already active is a
  premise of the step that starts one.
\<close>

definition tx_ops_ok :: "tx_ops \<Rightarrow> bool" where
  "tx_ops_ok B \<longleftrightarrow> (\<forall>tx outs. length (btx_inputs tx) = length outs \<longrightarrow>
     length (taproot_sighashes B tx outs) = length outs)"

lemma sign_items_nonempty:
  assumes "tx_ops_ok B" "check_sign_task C B w m p = Ok checked"
  shows "sign_items C B checked \<noteq> []"
proof (cases "task_inner checked")
  case (TaskTransaction t net)
  have some: "has_any_inputs_to_sign t"
    using assms(2) TaskTransaction
    by (auto simp: check_sign_task_def Let_def result_iff split: wire_sign_task.splits key_purpose.splits if_splits)
  then obtain k where k: "k < length (tx_inputs t)" "local_owner (in_owner (tx_inputs t ! k)) \<noteq> None"
    by (auto simp: has_any_inputs_to_sign_def list_ex_iff in_set_conv_nth)
  have "length (iter_sighash C B t) = length (tx_inputs t)"
    by (rule length_iter_sighash) (use assms(1) in \<open>simp add: tx_ops_ok_def to_rust_bitcoin_tx_def\<close>)
  then have "(tx_inputs t ! k, iter_sighash C B t ! k) \<in> set (zip (tx_inputs t) (iter_sighash C B t))"
    using k(1) by (auto simp: in_set_zip)
  then have "iter_our_input_sighashes C B t \<noteq> []"
    using k(2) unfolding iter_our_input_sighashes_def List.map_filter_def
    by (force simp: filter_empty_conv)
  then show ?thesis using TaskTransaction by (simp add: sign_items_def)
qed (simp_all add: sign_items_def)

subsection \<open>What operations keep\<close>

definition coord_good :: "coord_env \<Rightarrow> fingerprint \<Rightarrow> coord_mutation list \<Rightarrow> frost_coordinator \<Rightarrow> bool" where
  "coord_good E fp written co \<longleftrightarrow>
     coord_wf E co \<and> cache_wf (fc_nonce_cache co) \<and>
     recoverable (coord_apply E :: _ \<Rightarrow> _ \<Rightarrow> (unit, applied) result) fc_mutations coord_sim
       (new_coordinator fp) written co"

definition coord_keeps :: "coord_env \<Rightarrow> frost_coordinator \<Rightarrow> frost_coordinator \<Rightarrow> bool" where
  "coord_keeps E co co' \<longleftrightarrow> (\<forall>fp written. coord_good E fp written co \<longrightarrow> coord_good E fp written co')"

lemma coord_keeps_refl [intro, simp]: "coord_keeps E co co"
  by (simp add: coord_keeps_def)

lemma coord_keeps_trans: "coord_keeps E a b \<Longrightarrow> coord_keeps E b c \<Longrightarrow> coord_keeps E a c"
  by (simp add: coord_keeps_def)

text \<open>The result of applying a mutation does not depend on the error type.\<close>

lemma consume_any: "consume c d sid k = (Ok r :: ('e, _) result) \<Longrightarrow> consume c d sid k = (Ok r :: ('f, _) result)"
  by (auto simp: consume_def Let_def split: option.splits if_splits prod.splits)

lemma consume_sent_any:
  "consume_sent sent n nonces c = (Ok c' :: ('e, _) result) \<Longrightarrow> consume_sent sent n nonces c = (Ok c' :: ('f, _) result)"
proof (induction nonces arbitrary: c)
  case (Cons p nonces)
  then show ?case
    by (cases p) (auto simp: result_iff split: if_splits dest!: consume_any [where ?'e = 'e and ?'f = 'f])
qed simp

lemma close_sign_session_any:
  "close_sign_session sid fin co = (Ok r :: ('e, _) result) \<Longrightarrow> close_sign_session sid fin co = (Ok r :: ('f, _) result)"
  by (auto simp: close_sign_session_def result_iff split: if_splits dest!: consume_sent_any [where ?'e = 'e and ?'f = 'f])

lemma close_sign_sessions_ConsE:
  assumes "close_sign_sessions (sid # sids) co = (Ok co' :: ('e, _) result)"
  obtains co1 b where "close_sign_session sid None co = (Ok (co1, b) :: ('e, _) result)"
    "close_sign_sessions sids co1 = (Ok co' :: ('e, _) result)"
  using assms by (auto simp: result_iff)

lemma close_sign_sessions_any:
  "close_sign_sessions sids co = (Ok r :: ('e, _) result) \<Longrightarrow> close_sign_sessions sids co = (Ok r :: ('f, _) result)"
proof (induction sids arbitrary: co)
  case (Cons sid sids)
  from Cons.prems obtain co1 b where co1: "close_sign_session sid None co = (Ok (co1, b) :: ('e, _) result)"
      "close_sign_sessions sids co1 = (Ok r :: ('e, _) result)"
    by (rule close_sign_sessions_ConsE)
  show ?case
    using close_sign_session_any [OF co1(1), where ?'f = 'f] Cons.IH [OF co1(2)] by simp
qed simp

lemma apply_delete_key_any:
  assumes "apply_delete_key kid co = (Ok r :: ('e, _) result)"
  shows "apply_delete_key kid co = (Ok r :: ('f, _) result)"
proof (cases "bt_get (fc_keys co) kid")
  case (Some k)
  let ?co = "co\<lparr>fc_keys := bt_remove kid (fc_keys co), fc_key_order := filter (\<lambda>k. k \<noteq> kid) (fc_key_order co),
      fc_restoration := clear_up_key_deletion kid (fc_restoration co)\<rparr>"
  obtain co' where close: "close_sign_sessions (sessions_of_key kid ?co) ?co = (Ok co' :: ('e, _) result)" "r = (co', True)"
    using assms Some by (auto simp: apply_delete_key_def Let_def result_iff)
  show ?thesis
    using close_sign_sessions_any [OF close(1), where ?'f = 'f] close(2) Some by (simp add: apply_delete_key_def Let_def)
qed (use assms in \<open>simp add: apply_delete_key_def\<close>)

lemma apply_new_nonces_any:
  "apply_new_nonces d seg co = (Ok r :: ('e, _) result) \<Longrightarrow> apply_new_nonces d seg co = (Ok r :: ('f, _) result)"
  by (auto simp: apply_new_nonces_def split: prod.splits result.splits)

lemma apply_key_mutation_any:
  assumes "apply_key_mutation E m co = (Ok r :: ('e, _) result)"
  shows "apply_key_mutation E m co = (Ok r :: ('f, _) result)"
proof (cases m)
  case (DeleteKey kid)
  then have "apply_delete_key kid co = (Ok r :: ('e, _) result)" using assms by (simp add: apply_key_mutation_def)
  from apply_delete_key_any [OF this, where ?'f = 'f] show ?thesis
    using DeleteKey by (simp add: apply_key_mutation_def)
qed (use assms in \<open>simp_all add: apply_key_mutation_def\<close>)

lemma apply_signing_mutation_any:
  assumes "apply_signing_mutation E m co = (Ok r :: ('e, _) result)"
  shows "apply_signing_mutation E m co = (Ok r :: ('f, _) result)"
proof (cases m)
  case (NewNonces d seg)
  then have "apply_new_nonces d seg co = (Ok r :: ('e, _) result)" using assms by (simp add: apply_signing_mutation_def)
  from apply_new_nonces_any [OF this, where ?'f = 'f] show ?thesis
    using NewNonces by (simp add: apply_signing_mutation_def)
next
  case (CloseSignSession sid fin)
  then have "close_sign_session sid fin co = (Ok r :: ('e, _) result)" using assms by (simp add: apply_signing_mutation_def)
  from close_sign_session_any [OF this, where ?'f = 'f] show ?thesis
    using CloseSignSession by (simp add: apply_signing_mutation_def)
qed (use assms in \<open>auto simp: apply_signing_mutation_def split: option.splits\<close>)

lemma coord_apply_any:
  assumes "coord_apply E m co = (Ok r :: ('e, _) result)"
  shows "coord_apply E m co = (Ok r :: ('f, _) result)"
proof (cases m)
  case (KeygenMutation k)
  then obtain q where "apply_key_mutation E k co = (Ok q :: ('e, _) result)" "r = staged_if m q"
    using assms by (auto simp: coord_apply_def result_iff)
  from apply_key_mutation_any [OF this(1), where ?'f = 'f] this(2) show ?thesis
    using KeygenMutation by (simp add: coord_apply_def)
next
  case (SigningMutation k)
  then obtain q where "apply_signing_mutation E k co = (Ok q :: ('e, _) result)" "r = staged_if m q"
    using assms by (auto simp: coord_apply_def result_iff)
  from apply_signing_mutation_any [OF this(1), where ?'f = 'f] this(2) show ?thesis
    using SigningMutation by (simp add: coord_apply_def)
qed (use assms in \<open>auto simp: coord_apply_def split: prod.splits\<close>)

lemma coord_mutate_any:
  "coord_mutate E m co = (Ok r :: ('e, _) result) \<Longrightarrow> coord_mutate E m co = (Ok r :: ('f, _) result)"
  by (auto simp: coord_mutate_def result_iff dest!: coord_apply_any [where ?'e = 'e and ?'f = 'f])

subsection \<open>The nonce cache stays well formed\<close>

lemma consume_sent_cache_wf:
  "consume_sent sent n nonces c = (Ok c' :: ('e, _) result) \<Longrightarrow> cache_wf c \<Longrightarrow> cache_wf c'"
proof (induction nonces arbitrary: c)
  case (Cons p nonces)
  obtain d ns where p: "p = (d, ns)" by (cases p)
  show ?case
  proof (cases "d \<in> set sent")
    case True
    then obtain k c1 b where "consume c d (cns_stream_id ns) k = (Ok (c1, b) :: ('e, _) result)"
        "consume_sent sent n nonces c1 = (Ok c' :: ('e, _) result)"
      using Cons.prems(1) p by (auto simp: result_iff)
    then show ?thesis using Cons.IH Cons.prems(2) consume_wf by metis
  qed (use Cons p in simp)
qed simp

lemma close_sign_session_cache_wf:
  "close_sign_session sid fin co = (Ok (co', b) :: ('e, _) result) \<Longrightarrow> cache_wf (fc_nonce_cache co) \<Longrightarrow>
   cache_wf (fc_nonce_cache co')"
  by (auto simp: close_sign_session_def result_iff split: if_splits dest!: consume_sent_cache_wf)

lemma close_sign_sessions_cache_wf:
  "close_sign_sessions sids co = (Ok co' :: ('e, _) result) \<Longrightarrow> cache_wf (fc_nonce_cache co) \<Longrightarrow>
   cache_wf (fc_nonce_cache co')"
proof (induction sids arbitrary: co)
  case (Cons sid sids)
  from Cons.prems(1) obtain co1 b where co1: "close_sign_session sid None co = (Ok (co1, b) :: ('e, _) result)"
      "close_sign_sessions sids co1 = (Ok co' :: ('e, _) result)"
    by (rule close_sign_sessions_ConsE)
  show ?case by (rule Cons.IH [OF co1(2) close_sign_session_cache_wf [OF co1(1) Cons.prems(2)]])
qed simp

lemma apply_delete_key_cache_wf:
  assumes "apply_delete_key kid co = (Ok (co', b) :: ('e, _) result)" "cache_wf (fc_nonce_cache co)"
  shows "cache_wf (fc_nonce_cache co')"
proof (cases "bt_get (fc_keys co) kid")
  case (Some k)
  let ?co = "co\<lparr>fc_keys := bt_remove kid (fc_keys co), fc_key_order := filter (\<lambda>k. k \<noteq> kid) (fc_key_order co),
      fc_restoration := clear_up_key_deletion kid (fc_restoration co)\<rparr>"
  have "close_sign_sessions (sessions_of_key kid ?co) ?co = (Ok co' :: ('e, _) result)"
    using assms(1) Some by (auto simp: apply_delete_key_def Let_def result_iff)
  from close_sign_sessions_cache_wf [OF this] show ?thesis using assms(2) by simp
qed (use assms in \<open>simp add: apply_delete_key_def\<close>)

lemma apply_key_mutation_cache_wf:
  assumes "apply_key_mutation E m co = (Ok (co', b) :: ('e, _) result)" "cache_wf (fc_nonce_cache co)"
  shows "cache_wf (fc_nonce_cache co')"
proof (cases m)
  case (DeleteKey kid)
  then show ?thesis using assms apply_delete_key_cache_wf by (simp add: apply_key_mutation_def)
qed (use assms in \<open>auto simp: apply_key_mutation_def ensure_key_def Let_def apply_new_access_structure_def
       apply_new_share_def apply_delete_share_def update_access_structure_def split: option.splits if_splits\<close>)

lemma apply_signing_mutation_cache_wf:
  assumes "apply_signing_mutation E m co = (Ok (co', b) :: ('e, _) result)" "cache_wf (fc_nonce_cache co)"
  shows "cache_wf (fc_nonce_cache co')"
proof (cases m)
  case (NewNonces d seg)
  then show ?thesis
    using assms extend_segment_wf [OF assms(2), of d seg]
    by (auto simp: apply_signing_mutation_def apply_new_nonces_def split: prod.splits result.splits)
next
  case (CloseSignSession sid fin)
  then show ?thesis
    using assms close_sign_session_cache_wf by (simp add: apply_signing_mutation_def)
qed (use assms in \<open>auto simp: apply_signing_mutation_def split: option.splits if_splits\<close>)

lemma coord_apply_cache_wf:
  assumes "coord_apply E m co = (Ok (co', r) :: ('e, _) result)" "cache_wf (fc_nonce_cache co)"
  shows "cache_wf (fc_nonce_cache co')"
proof (cases m)
  case (KeygenMutation k)
  then obtain b where "apply_key_mutation E k co = (Ok (co', b) :: ('e, _) result)"
    using assms by (auto simp: coord_apply_def result_iff staged_if_def)
  then show ?thesis by (rule apply_key_mutation_cache_wf [OF _ assms(2)])
next
  case (SigningMutation k)
  then obtain b where "apply_signing_mutation E k co = (Ok (co', b) :: ('e, _) result)"
    using assms by (auto simp: coord_apply_def result_iff staged_if_def)
  then show ?thesis by (rule apply_signing_mutation_cache_wf [OF _ assms(2)])
qed (use assms in \<open>auto simp: coord_apply_def split: prod.splits\<close>)

lemma coord_mutate_cache_wf:
  assumes "coord_mutate E m co = (Ok co' :: ('e, _) result)" "cache_wf (fc_nonce_cache co)"
  shows "cache_wf (fc_nonce_cache co')"
proof -
  obtain co1 r where "coord_apply E m co = (Ok (co1, r) :: ('e, _) result)"
    and "co' = (case r of Some m' \<Rightarrow> coord_push m' co1 | None \<Rightarrow> co1)"
    using assms(1) by (auto simp: coord_mutate_def result_iff)
  then show ?thesis
    using coord_apply_cache_wf assms(2) by (fastforce simp: coord_push_def split: option.splits)
qed

subsection \<open>Mutations keep\<close>

lemma coord_keeps_mutate:
  assumes "coord_valid E m co" "coord_mutate E m co = (Ok co' :: ('e, _) result)"
  shows "coord_keeps E co co'"
  unfolding coord_keeps_def coord_good_def
proof (intro allI impI conjI; elim conjE)
  fix fp written
  assume good: "coord_wf E co" "cache_wf (fc_nonce_cache co)"
    "recoverable (coord_apply E :: _ \<Rightarrow> _ \<Rightarrow> (unit, applied) result) fc_mutations coord_sim (new_coordinator fp) written co"
  show "coord_wf E co'" by (rule coord_mutate_wf [OF good(1) assms])
  show "cache_wf (fc_nonce_cache co')" by (rule coord_mutate_cache_wf [OF assms(2) good(2)])
  show "recoverable (coord_apply E :: _ \<Rightarrow> _ \<Rightarrow> (unit, applied) result) fc_mutations coord_sim (new_coordinator fp) written co'"
    by (rule coord.recoverable_mutate [OF good(3) _ coord_mutate_any [OF assms(2)]])
      (use assms(1) in \<open>simp add: coord_valid_def\<close>)
qed

lemma coord_keeps_tmp:
  assumes "coord_core co' = coord_core co" "fc_nonce_cache co' = fc_nonce_cache co" "fc_mutations co' = fc_mutations co"
  shows "coord_keeps E co co'"
  unfolding coord_keeps_def coord_good_def
proof (intro allI impI conjI; elim conjE)
  fix fp written
  assume good: "coord_wf E co" "cache_wf (fc_nonce_cache co)"
    "recoverable (coord_apply E :: _ \<Rightarrow> _ \<Rightarrow> (unit, applied) result) fc_mutations coord_sim (new_coordinator fp) written co"
  show "coord_wf E co'" by (rule coord_wf_cong [OF good(1) assms(1)])
  show "cache_wf (fc_nonce_cache co')" using good(2) assms(2) by simp
  have act: "fc_active_sessions co' = fc_active_sessions co" using assms(1) by (simp add: core_defs)
  show "recoverable (coord_apply E :: _ \<Rightarrow> _ \<Rightarrow> (unit, applied) result) fc_mutations coord_sim (new_coordinator fp) written co'"
    by (rule coord.recoverable_cong [OF good(3) assms(3)])
      (use assms(1,2) streams_cached_cong [OF act] in \<open>simp add: coord_sim_def\<close>)
qed

subsection \<open>Steps\<close>

text \<open>
  An operation is a sequence of valid mutations and of changes of the temporary part of the
  restorations. What a mutation keeps, every operation that is such a sequence keeps.
\<close>

inductive coord_steps :: "coord_env \<Rightarrow> frost_coordinator \<Rightarrow> frost_coordinator \<Rightarrow> bool" for E where
  steps_refl: "coord_steps E co co"
| steps_mutate:
    "coord_steps E a b \<Longrightarrow> (coord_wf E b \<Longrightarrow> cache_wf (fc_nonce_cache b) \<Longrightarrow> coord_valid E m b) \<Longrightarrow>
     coord_mutate E m b = (Ok c :: (unit, _) result) \<Longrightarrow> coord_steps E a c"
| steps_tmp:
    "coord_steps E a b \<Longrightarrow> coord_core c = coord_core b \<Longrightarrow> fc_nonce_cache c = fc_nonce_cache b \<Longrightarrow>
     fc_mutations c = fc_mutations b \<Longrightarrow> fc_pending_keygens c = fc_pending_keygens b \<Longrightarrow> coord_steps E a c"

lemma coord_steps_refl [intro, simp]: "coord_steps E co co"
  by (rule steps_refl)

lemma coord_steps_trans: "coord_steps E a b \<Longrightarrow> coord_steps E b c \<Longrightarrow> coord_steps E a c"
  by (rotate_tac, induction rule: coord_steps.induct) (auto intro: steps_mutate steps_tmp)

lemma coord_steps_mutate:
  assumes "coord_wf E co \<Longrightarrow> cache_wf (fc_nonce_cache co) \<Longrightarrow> coord_valid E m co"
    and "coord_mutate E m co = (Ok co' :: ('e, _) result)"
  shows "coord_steps E co co'"
  by (rule steps_mutate [OF steps_refl assms(1) coord_mutate_any [OF assms(2)]])

lemma coord_steps_keeps: "coord_steps E a b \<Longrightarrow> coord_keeps E a b"
proof (induction rule: coord_steps.induct)
  case (steps_mutate a b m c)
  show ?case
  proof (cases "coord_wf E b \<and> cache_wf (fc_nonce_cache b)")
    case True
    then show ?thesis using steps_mutate coord_keeps_mutate coord_keeps_trans by blast
  next
    case False
    then show ?thesis using steps_mutate.IH by (auto simp: coord_keeps_def coord_good_def)
  qed
next
  case (steps_tmp a b c)
  then show ?case using coord_keeps_tmp coord_keeps_trans by metis
qed simp

text \<open>A mutation that is valid in every state.\<close>

definition plain_mutation :: "coord_mutation \<Rightarrow> bool" where
  "plain_mutation m \<longleftrightarrow>
     (case m of
        SigningMutation (NewSigningSession s) \<Rightarrow> False
      | KeygenMutation (NewKey _ _ k) \<Rightarrow> ck_access_structures k = []
      | _ \<Rightarrow> True)"

lemma plain_valid: "plain_mutation m \<Longrightarrow> coord_valid E m co"
  by (auto simp: plain_mutation_def coord_valid_def coord_admissible_def
      split: coord_mutation.splits signing_mutation.splits key_mutation.splits)

lemma plain_simps [simp]:
  "plain_mutation (RestorationMutation r)"
  "plain_mutation (SigningMutation (NewNonces d seg))"
  "plain_mutation (SigningMutation (SentSignReq sid d))"
  "plain_mutation (SigningMutation (GotSignatureShares sid d shares))"
  "plain_mutation (SigningMutation (CloseSignSession sid fin))"
  "plain_mutation (SigningMutation (ForgetFinishedSignSession sid))"
  "plain_mutation (KeygenMutation (NewAccessStructure xk kind))"
  "plain_mutation (KeygenMutation (NewShare asr d i))"
  "plain_mutation (KeygenMutation (DeleteKey kid))"
  "plain_mutation (KeygenMutation (DeleteShare asr d))"
  "plain_mutation (KeygenMutation (NewKey name p k)) \<longleftrightarrow> ck_access_structures k = []"
  by (simp_all add: plain_mutation_def)

lemma coord_steps_plain:
  "coord_mutate E m co = (Ok co' :: ('e, _) result) \<Longrightarrow> plain_mutation m \<Longrightarrow> coord_steps E co co'"
  by (rule coord_steps_mutate [OF plain_valid])

lemma coord_steps_mutate_all:
  "coord_mutate_all E ms co = (Ok co' :: ('e, _) result) \<Longrightarrow> list_all plain_mutation ms \<Longrightarrow> coord_steps E co co'"
proof (induction ms arbitrary: co)
  case (Cons m ms)
  then obtain co1 where "coord_mutate E m co = (Ok co1 :: ('e, _) result)"
      "coord_mutate_all E ms co1 = (Ok co' :: ('e, _) result)"
    by (auto simp: result_iff)
  then show ?case using Cons coord_steps_plain coord_steps_trans by (metis list.pred_inject(2))
qed simp

subsection \<open>Operations that change only temporary state\<close>

definition coord_tmp :: "frost_coordinator \<Rightarrow> frost_coordinator \<Rightarrow> bool" where
  "coord_tmp co co' \<longleftrightarrow>
     coord_core co' = coord_core co \<and> fc_nonce_cache co' = fc_nonce_cache co \<and> fc_mutations co' = fc_mutations co"

lemma coord_tmp_keeps: "coord_tmp co co' \<Longrightarrow> coord_keeps E co co'"
  by (simp add: coord_tmp_def coord_keeps_tmp)

lemma coord_steps_tmp:
  "coord_tmp co co' \<Longrightarrow> fc_pending_keygens co' = fc_pending_keygens co \<Longrightarrow> coord_steps E co co'"
  by (rule steps_tmp [OF steps_refl]) (simp_all add: coord_tmp_def)

lemma coord_tmp_simps [simp]:
  "coord_tmp co co"
  "coord_tmp co (co\<lparr>fc_pending_keygens := x\<rparr>)"
  "coord_tmp co (put_keygen kid st (co\<lparr>fc_pending_keygens := x\<rparr>))"
  "coord_tmp co (put_keygen kid st co)"
  by (simp_all add: coord_tmp_def core_defs put_keygen_def)

lemma coord_tmp_or_return:
  "coord_tmp co s \<Longrightarrow> (\<And>a. r = Ok a \<Longrightarrow> coord_tmp co (fst (f a))) \<Longrightarrow> coord_tmp co (fst (or_return r s f))"
  by (rule or_return_keeps)

lemma handle_keygen_response_tmp: "coord_tmp co (fst (handle_keygen_response E from kid inp co))"
  unfolding handle_keygen_response_def Let_def take_keygen_def prod.case
  by (auto split: option.split keygen_state.split intro!: coord_tmp_or_return)

lemma handle_keygen_certify_tmp: "coord_tmp co (fst (handle_keygen_certify E from kid cert co))"
  unfolding handle_keygen_certify_def Let_def take_keygen_def prod.case
  by (auto split: option.split keygen_state.split intro!: coord_tmp_or_return)

lemma handle_keygen_ack_tmp: "coord_tmp co (fst (handle_keygen_ack E from ack co))"
  unfolding handle_keygen_ack_def Let_def take_keygen_def prod.case
  by (auto split: option.split keygen_state.split intro!: coord_tmp_or_return)

lemma handle_device_keygen_tmp: "coord_tmp co (fst (handle_device_keygen E from m co))"
  by (simp add: handle_device_keygen_def handle_keygen_response_tmp handle_keygen_certify_tmp
      handle_keygen_ack_tmp split: device_keygen.split)

lemma coord_begin_keygen_tmp: "coord_tmp co (fst (fst (coord_begin_keygen E b rng co)))"
  unfolding coord_begin_keygen_def Let_def or_return_def
  by (simp split: prod.split result.split)

lemma coord_clear_tmp_data_tmp: "coord_tmp co (coord_clear_tmp_data co)"
  by (simp add: coord_tmp_def coord_clear_tmp_data_def core_defs clear_restoration_tmp_def)

lemma cancel_keygen_tmp: "coord_tmp co (cancel_keygen kid co)"
  by (simp add: cancel_keygen_def take_keygen_def)

lemma restoration_tmp:
  "coord_tmp co (co\<lparr>fc_restoration := (fc_restoration co)\<lparr>rs_tmp_waiting_save := x\<rparr>\<rparr>)"
  "coord_tmp co (co\<lparr>fc_restoration := (fc_restoration co)\<lparr>rs_tmp_waiting_consolidate := y\<rparr>\<rparr>)"
  by (simp_all add: coord_tmp_def core_defs)

lemma tell_device_to_save_backup_tmp: "coord_tmp co (fst (tell_device_to_save_backup E phase rid co))"
  by (simp add: tell_device_to_save_backup_def Let_def restoration_tmp split: option.split)

lemma tell_device_to_consolidate_tmp: "coord_tmp co (fst (tell_device_to_consolidate E phase asr ek co))"
  unfolding tell_device_to_consolidate_def Let_def
  by (intro coord_tmp_or_return) (simp_all add: restoration_tmp)

subsection \<open>The other operations\<close>

lemma coord_steps_or_return:
  "coord_steps E co s \<Longrightarrow> (\<And>a. r = Ok a \<Longrightarrow> coord_steps E co (fst (f a))) \<Longrightarrow>
   coord_steps E co (fst (or_return r s f))"
  by (rule or_return_keeps)

lemma coord_steps_or_return_rng:
  "coord_steps E co (fst s) \<Longrightarrow> (\<And>a. r = Ok a \<Longrightarrow> coord_steps E co (fst (fst (f a)))) \<Longrightarrow>
   coord_steps E co (fst (fst (or_return r s f)))"
  by (cases r) auto

lemma new_key_mutations_plain:
  "list_all plain_mutation (snd (new_key_mutations C name k indices ct p co))"
  by (auto simp: new_key_mutations_def Let_def list_all_iff)

lemma mutate_new_key_steps:
  assumes "mutate_new_key E name k indices ek p rng co = (Ok (asr, co', rng') :: ('e, _) result)"
  shows "coord_steps E co co'"
proof -
  obtain ct where "coord_mutate_all E (snd (new_key_mutations (ce_crypto E) name k indices ct p co)) co
      = (Ok co' :: ('e, _) result)"
    using assms by (auto simp: mutate_new_key_def Let_def case_prod_unfold result_iff)
  then show ?thesis by (rule coord_steps_mutate_all) (rule new_key_mutations_plain)
qed

lemma finalize_keygen_steps:
  "coord_steps E (co\<lparr>fc_pending_keygens := bt_remove kid (fc_pending_keygens co)\<rparr>)
     (fst (fst (finalize_keygen E kid ek rng co)))"
  unfolding finalize_keygen_def take_keygen_def prod.case Let_def
  by (auto split: option.split keygen_state.split intro!: coord_steps_or_return_rng dest!: mutate_new_key_steps)

lemma tell_device_to_save_backup_steps: "coord_steps E co (fst (tell_device_to_save_backup E phase rid co))"
  by (rule coord_steps_tmp [OF tell_device_to_save_backup_tmp])
    (simp add: tell_device_to_save_backup_def Let_def split: option.split)

lemma tell_device_to_consolidate_steps: "coord_steps E co (fst (tell_device_to_consolidate E phase asr ek co))"
  by (rule coord_steps_tmp [OF tell_device_to_consolidate_tmp])
    (simp add: tell_device_to_consolidate_def Let_def or_return_def split: result.split)

lemma request_device_sign_steps:
  assumes "request_device_sign E sid d ek co = (Ok (co', r) :: ('e, _) result)"
  shows "coord_steps E co co'"
  using assms by (auto simp: request_device_sign_def Let_def result_iff intro: coord_steps_plain [where ?'e = 'e])

lemma complete_sign_session_steps:
  assumes "complete_sign_session E sid co = (Ok (co', r) :: ('e, _) result)"
  shows "coord_steps E co co'"
  using assms
  by (auto simp: complete_sign_session_def result_iff split: option.splits if_splits
      intro: coord_steps_plain [where ?'e = 'e])

lemma handle_signature_shares_steps: "coord_steps E co (fst (handle_signature_shares E from sid shares replenish co))"
  unfolding handle_signature_shares_def
proof (intro coord_steps_or_return)
  fix u co1
  assume all: "coord_mutate_all E (SigningMutation (GotSignatureShares sid from shares) #
      (case replenish of None \<Rightarrow> [] | Some segment \<Rightarrow> [SigningMutation (NewNonces from segment)])) co = (Ok co1 :: (core_error, _) result)"
  have one: "coord_steps E co co1"
    by (rule coord_steps_mutate_all [OF all]) (simp split: option.split)
  show "coord_steps E co co1" by (rule one)
  fix r assume two: "complete_sign_session E sid co1 = (Ok r :: (core_error, _) result)"
  obtain co2 signed where r: "r = (co2, signed)" by (cases r)
  show "coord_steps E co (fst (case r of (co, signed) \<Rightarrow>
      (co, Ok (CoordToUser (UserSigning (GotShare sid from)) #
          (case signed of None \<Rightarrow> []
           | Some signatures \<Rightarrow> [CoordToUser (UserSigning (Signed sid signatures))])))))"
    using coord_steps_trans [OF one complete_sign_session_steps [OF two [unfolded r]]] by (simp add: r)
qed simp_all

lemma handle_nonce_segments_steps: "coord_steps E co (fst (handle_nonce_segments E from segments co))"
proof (induction segments arbitrary: co)
  case (Cons seg segments)
  show ?case
    unfolding handle_nonce_segments.simps
  proof (intro coord_steps_or_return)
    fix u co1 assume "coord_mutate E (SigningMutation (NewNonces from seg)) co = (Ok co1 :: (core_error, _) result)"
    then have "coord_steps E co co1" by (rule coord_steps_plain) simp
    then show "coord_steps E co (fst (handle_nonce_segments E from segments co1))"
      using Cons.IH coord_steps_trans by blast
  qed simp_all
qed simp

lemma handle_nonce_response_steps: "coord_steps E co (fst (handle_nonce_response E from segments co))"
proof -
  obtain co1 r where eq: "handle_nonce_segments E from segments co = (co1, r)" by fastforce
  have "coord_steps E co co1" using handle_nonce_segments_steps [where segments = segments, of E co "from"] by (simp add: eq)
  then show ?thesis by (auto simp: handle_nonce_response_def eq intro!: coord_steps_or_return)
qed

lemma handle_physical_saved_steps: "coord_steps E co (fst (handle_physical_saved E from im co))"
proof (cases "bt_get (rs_tmp_waiting_save (fc_restoration co)) (from, im)")
  case (Some p)
  obtain rid h where p: "p = (rid, h)" by (cases p)
  let ?co = "co\<lparr>fc_restoration := (fc_restoration co)\<lparr>rs_tmp_waiting_save :=
      bt_remove (from, im) (rs_tmp_waiting_save (fc_restoration co))\<rparr>\<rparr>"
  have tmp: "coord_steps E co ?co" by (rule coord_steps_tmp) (simp_all add: restoration_tmp)
  have "coord_steps E co (fst (or_return (mutate_restoration E (RestorationProgress2 rid from h) ?co) ?co
      (\<lambda>co. (co, Ok (restoration_reply (PhysicalBackupSaved from rid (image_index im))) :: (core_error, _) result))))"
    by (rule coord_steps_or_return [OF tmp]) (simp, erule coord_steps_trans [OF tmp coord_steps_plain], simp)
  then show ?thesis using Some p by (simp add: handle_physical_saved_def Let_def)
qed (simp add: handle_physical_saved_def)

lemma handle_finished_consolidation_steps:
  "coord_steps E co (fst (handle_finished_consolidation E from asr i co))"
proof -
  let ?c = "PendingConsolidation from asr i"
  let ?co = "co\<lparr>fc_restoration := (fc_restoration co)\<lparr>rs_tmp_waiting_consolidate :=
      bs_remove ?c (rs_tmp_waiting_consolidate (fc_restoration co))\<rparr>\<rparr>"
  have tmp: "coord_steps E co ?co" by (rule coord_steps_tmp) (simp_all add: restoration_tmp)
  show ?thesis
    unfolding handle_finished_consolidation_def Let_def
    by (auto simp: tmp intro!: coord_steps_or_return
        intro: coord_steps_trans [OF tmp coord_steps_plain [where ?'e = core_error]]
          coord_steps_plain [where ?'e = core_error])
qed

lemma recv_device_message_steps:
  assumes "\<And>k. m \<noteq> DeviceKeyGen k"
  shows "coord_steps E co (fst (recv_device_message E d m co))"
proof (cases m)
  case (DeviceKeyGen k)
  then show ?thesis using assms by blast
next
  case (DeviceSigning s)
  then show ?thesis
    by (cases s) (simp_all add: recv_device_message_def handle_nonce_response_steps handle_signature_shares_steps)
next
  case (DeviceRestoration r)
  then show ?thesis
    by (cases r) (simp_all add: recv_device_message_def recv_restoration_message_def handle_physical_saved_steps
        handle_finished_consolidation_steps)
qed

lemma coord_delete_share_steps: "coord_steps E co (fst (coord_delete_share E asr d co))"
  unfolding coord_delete_share_def
  by (auto intro!: coord_steps_or_return intro: coord_steps_plain)

lemma start_restoring_from_share_steps: "coord_steps E co (fst (start_restoring_from_share E r rid co))"
  unfolding start_restoring_from_share_def Let_def
  by (intro coord_steps_or_return) (auto intro!: coord_steps_or_return intro: coord_steps_mutate_all simp del: coord_mutate_all.simps)

lemma add_recovery_share_steps: "coord_steps E co (fst (add_recovery_share E rid r ek co))"
  unfolding add_recovery_share_def
  by (intro coord_steps_or_return) (auto intro: coord_steps_plain)

lemma coord_recover_share_steps: "coord_steps E co (fst (coord_recover_share E asr r ek co))"
  unfolding coord_recover_share_def Let_def
  by (intro coord_steps_or_return) (auto intro: coord_steps_mutate_all simp del: coord_mutate_all.simps)

lemma needs_consolidation_plain:
  "needs_consolidation_mutations indices asr ds = (Ok ms :: ('e, _) result) \<Longrightarrow> list_all plain_mutation ms"
  by (induction ds arbitrary: ms) (auto simp: result_iff)

lemma finish_restoring_steps: "coord_steps E co (fst (fst (finish_restoring E rid ek rng co)))"
  unfolding finish_restoring_def Let_def
proof (intro coord_steps_or_return_rng)
  fix st root indices r
  assume new: "mutate_new_key E (rst_key_name st) root indices ek (rst_key_purpose st) rng co = (Ok r :: (restoration_error, _) result)"
  obtain asr co1 rng1 where r: "r = (asr, co1, rng1)" by (cases r)
  have one: "coord_steps E co co1" by (rule mutate_new_key_steps [OF new [unfolded r]])
  let ?asr = "access_structure_ref_of (ce_crypto E) root"
  let ?needs = "and_then (needs_consolidation_mutations indices ?asr
      (needs_to_consolidate (ce_crypto E) (rst_access_structure st))) (\<lambda>ms. coord_mutate_all E ms co1) :: (restoration_error, _) result"
  have "coord_steps E co (fst (fst (or_return ?needs (co1, rng1) (\<lambda>co.
      or_return (mutate_restoration E (DeleteRestoration rid) co) (co, rng1) (\<lambda>co. ((co, rng1), Ok ?asr :: (restoration_error, _) result))))))"
  proof (intro coord_steps_or_return_rng)
    fix co2 assume "?needs = Ok co2"
    then have "coord_steps E co1 co2"
      by (auto simp: result_iff intro: coord_steps_mutate_all [OF _ needs_consolidation_plain])
    then have two: "coord_steps E co co2" by (rule coord_steps_trans [OF one])
    then show "coord_steps E co (fst (co2, rng1))" by simp
    fix co3 assume "mutate_restoration E (DeleteRestoration rid) co2 = (Ok co3 :: (restoration_error, _) result)"
    then have "coord_steps E co2 co3" by (rule coord_steps_plain) simp
    then show "coord_steps E co (fst (fst ((co3, rng1), Ok ?asr)))" using coord_steps_trans [OF two] by simp
  qed (simp add: one)
  then show "coord_steps E co (fst (fst (case r of (x, co, rng) \<Rightarrow>
      or_return (and_then (needs_consolidation_mutations indices ?asr
          (needs_to_consolidate (ce_crypto E) (rst_access_structure st))) (\<lambda>ms. coord_mutate_all E ms co)) (co, rng)
        (\<lambda>co. or_return (mutate_restoration E (DeleteRestoration rid) co) (co, rng) (\<lambda>co. ((co, rng), Ok ?asr :: (restoration_error, _) result))))))"
    by (simp add: r)
qed simp_all

end
