(* ===== verification/CoordSessions.thy ===== *)
theory CoordSessions
  imports CoordRun
begin

section \<open>Starting a signing session, and runs\<close>

text \<open>
  What \<^verbatim>\<open>start_sign\<close> builds: the nonces of a session come from cached streams no other
  session uses, its access structure is known, and it has at least one item to sign. With it
  every public operation keeps the invariant, and so do runs of them.
\<close>

lemma choose_nonces_wf:
  "choose_nonces c n used ds chosen = Ok chosen' \<Longrightarrow> bt_wf chosen \<Longrightarrow> bt_wf chosen'"
  by (induction c n used ds chosen rule: choose_nonces.induct) (auto split: sum.splits)

lemma new_signing_session_wf: "new_signing_session c devices n used = Ok chosen \<Longrightarrow> bt_wf chosen"
  by (auto simp: new_signing_session_def dest: choose_nonces_wf)

text \<open>Each nonce chosen is the first of a cached segment of a stream that was free.\<close>

lemma new_signing_session_cached:
  assumes "cache_wf c" "new_signing_session c devices n used = Ok chosen" "(d, sub) \<in> set chosen"
  obtains seg where "cached_segment c d (seg_stream_id seg) = Some seg" "seg_stream_id seg \<notin> set used"
    "segment_wf seg" "n \<le> length (seg_nonces seg)" "sub = first_nonces n seg"
proof -
  have got: "bt_get chosen d = Some sub"
    using bt_in_iff [OF new_signing_session_wf [OF assms(2)]] assms(3) by blast
  then have "d \<in> set devices" using new_signing_session_keys [OF assms(2), of d] by simp
  then obtain sid seg where s: "(sid, seg) \<in> set (device_streams c d)" "sid \<notin> set used" "segment_wf seg"
      "n \<le> length (seg_nonces seg)" "sub = first_nonces n seg"
    using new_signing_session_picks [OF assms(2)] got by (metis option.inject)
  have "cached_segment c d sid = Some seg"
    using s(1) assms(1) by (auto simp: cached_segment_def cache_wf_def bt_in_get)
  moreover from this have "seg_stream_id seg = sid" using cache_wfD [OF assms(1)] by simp
  ultimately show ?thesis using s by (intro that) auto
qed

lemma coord_nonce_state_of_first [simp]:
  "coord_nonce_state_of (first_nonces n seg) =
   \<lparr>cns_stream_id = seg_stream_id seg, cns_index = seg_index seg, cns_remaining = length (seg_nonces seg) - n\<rparr>"
  by (simp add: coord_nonce_state_of_def first_nonces_def)

lemma bt_wf_map_values: "bt_wf m \<Longrightarrow> bt_wf (map (\<lambda>(k, v). (k, f v)) m)"
  by (simp add: bt_wf_def bt_keys_def comp_def case_prod_unfold)

lemma bt_get_map_values: "bt_get (map (\<lambda>(k, v). (k, f v)) m) k = map_option f (bt_get m k)"
  by (induction m) (auto simp: bt_get_def)

lemma build_session_Ok:
  assumes "build_session E kid asid a task items chosen rng = (Ok (s, rng') :: ('e, _) result)"
  obtains ps sessions where "nonces_of_parties a chosen = (Ok ps :: ('e, _) result)"
    "new_progresses E (cas_app_shared_key a) (bt_of_list ps) 0 items rng = (Ok (sessions, rng') :: ('e, _) result)"
    "s = \<lparr>as_progress = sessions,
          as_init = \<lparr>ss_nonces = map (\<lambda>(d, sub). (d, coord_nonce_state_of sub)) chosen,
            ss_group_request = \<lparr>gsr_parties = bt_keys (bt_of_list ps),
              gsr_agg_nonces = map (\<lambda>p. session_agg_binonce (ce_sessions E) (sp_session p)) sessions,
              gsr_sign_task = task, gsr_access_structure_id = asid\<rparr>\<rparr>,
          as_key_id = kid, as_sent_req = []\<rparr>"
  using assms by (auto simp: build_session_def Let_def result_iff)

lemma start_sign_checks_Ok:
  assumes "start_sign_checks E asr task devices co = Ok (a, items)"
  obtains k checked threshold where "bt_get (fc_keys co) (asr_key_id asr) = Some k"
    "lookup_access_structure asr co = Some a" "list_all (\<lambda>d. bt_get (cas_device_to_share_index a) d \<noteq> None) devices"
    "cas_threshold a = (Ok threshold :: (start_sign_error, _) result)" "threshold \<le> length devices"
    "check_sign_task (ce_crypto E) (ce_tx_ops E) task (ck_master_appkey (cfk_complete_key k)) (cfk_purpose k) = Ok checked"
    "items = sign_items (ce_crypto E) (ce_tx_ops E) checked"
  using assms
  by (auto simp: start_sign_checks_def Let_def result_iff lookup_access_structure_def find_None_iff list_all_iff
      not_less split: option.splits if_splits result.splits)

lemma coord_start_sign_mutates:
  assumes "coord_start_sign E asr task devices rng co = ((co', rng'), r)" "co' \<noteq> co \<or> (\<exists>sid. r = Ok sid)"
  obtains a items chosen session where "start_sign_checks E asr task devices co = Ok (a, items)"
    "new_signing_session (fc_nonce_cache co) devices (length items) (all_used_nonce_streams co) = Ok chosen"
    "build_session E (asr_key_id asr) (asr_access_structure_id asr) a task items chosen rng
      = (Ok (session, rng') :: (start_sign_error, _) result)"
    "coord_mutate E (SigningMutation (NewSigningSession session)) co = (Ok co' :: (start_sign_error, _) result)"
    "r = Ok (as_session_id E session)"
proof -
  note eq = assms(1) [unfolded coord_start_sign_def]
  obtain p where c: "start_sign_checks E asr task devices co = Ok p"
    using eq assms(2) by (cases "start_sign_checks E asr task devices co") auto
  obtain a items where p: "p = (a, items)" by (cases p)
  let ?new = "new_signing_session (fc_nonce_cache co) devices (length items) (all_used_nonce_streams co)"
  obtain chosen where ch: "?new = Ok chosen" using eq assms(2) by (cases ?new) (auto simp: c p)
  let ?build = "build_session E (asr_key_id asr) (asr_access_structure_id asr) a task items chosen rng
      :: (start_sign_error, _) result"
  obtain q where b: "?build = Ok q" using eq assms(2) by (cases ?build) (auto simp: c p ch)
  obtain session rng1 where q: "q = (session, rng1)" by (cases q)
  let ?mutate = "coord_mutate E (SigningMutation (NewSigningSession session)) co :: (start_sign_error, _) result"
  obtain co1 where m: "?mutate = Ok co1" using eq assms(2) by (cases ?mutate) (auto simp: c p ch b q)
  from eq show ?thesis by (intro that) (auto simp: c p ch b q m)
qed

text \<open>The session added is one the invariant allows.\<close>

lemma built_session_valid:
  assumes "tx_ops_ok (ce_tx_ops E)" "cache_wf (fc_nonce_cache co)" "bt_wf (fc_active_sessions co)"
    and checks: "start_sign_checks E asr task devices co = Ok (a, items)"
    and chosen: "new_signing_session (fc_nonce_cache co) devices (length items) (all_used_nonce_streams co) = Ok chosen"
    and built: "build_session E (asr_key_id asr) (asr_access_structure_id asr) a task items chosen rng
      = (Ok (session, rng') :: ('e, _) result)"
    and fresh: "bt_get (fc_active_sessions co) (as_session_id E session) = None"
  shows "coord_valid E (SigningMutation (NewSigningSession session)) co"
proof -
  have init: "ss_nonces (as_init session) = map (\<lambda>(d, sub). (d, coord_nonce_state_of sub)) chosen"
    and key: "as_ref session = asr"
    using built by (auto elim!: build_session_Ok simp: as_ref_def)
  have known: "lookup_access_structure (as_ref session) co \<noteq> None"
    by (rule start_sign_checks_Ok [OF checks]) (simp add: key)
  have items: "items \<noteq> []"
    by (rule start_sign_checks_Ok [OF checks]) (simp add: sign_items_nonempty [OF assms(1)])
  have stream: "\<exists>seg. cached_segment (fc_nonce_cache co) d (cns_stream_id ns) = Some seg \<and> seg_nonces seg \<noteq> [] \<and>
      cns_stream_id ns \<notin> set (all_used_nonce_streams co)"
    if mem: "(d, ns) \<in> set (ss_nonces (as_init session))" for d ns
  proof -
    obtain sub where sub: "(d, sub) \<in> set chosen" "ns = coord_nonce_state_of sub"
      using mem unfolding init by auto
    obtain seg where "cached_segment (fc_nonce_cache co) d (seg_stream_id seg) = Some seg"
        "seg_stream_id seg \<notin> set (all_used_nonce_streams co)" "length items \<le> length (seg_nonces seg)"
        "sub = first_nonces (length items) seg"
      by (rule new_signing_session_cached [OF assms(2) chosen sub(1)])
    then show ?thesis using items sub(2) by (intro exI [of _ seg]) auto
  qed
  have "coord_admissible (SigningMutation (NewSigningSession session)) co"
    unfolding coord_admissible_def list_all_iff by (auto split: option.split dest!: stream)
  moreover have "session_streams session \<inter> set (all_used_nonce_streams co) = {}"
    unfolding session_streams_def using stream by fastforce
  ultimately show ?thesis
    using fresh known new_signing_session_wf [OF chosen]
    by (simp add: coord_valid_def new_session_valid_def init bt_wf_map_values)
qed

lemma coord_start_sign_steps:
  assumes "tx_ops_ok (ce_tx_ops E)" "coord_start_sign E asr task devices rng co = ((co', rng'), r)"
    and fresh: "\<And>sid. r = Ok sid \<Longrightarrow> bt_get (fc_active_sessions co) sid = None"
  shows "coord_steps E co co'"
proof (cases "co' = co")
  case False
  obtain a items chosen session where s: "start_sign_checks E asr task devices co = Ok (a, items)"
    "new_signing_session (fc_nonce_cache co) devices (length items) (all_used_nonce_streams co) = Ok chosen"
    "build_session E (asr_key_id asr) (asr_access_structure_id asr) a task items chosen rng
      = (Ok (session, rng') :: (start_sign_error, _) result)"
    "coord_mutate E (SigningMutation (NewSigningSession session)) co = (Ok co' :: (start_sign_error, _) result)"
    "r = Ok (as_session_id E session)"
    using coord_start_sign_mutates [OF assms(2) disjI1 [OF False]] by metis
  have "coord_valid E (SigningMutation (NewSigningSession session)) co"
    if "coord_wf E co" "cache_wf (fc_nonce_cache co)"
    using that by (intro built_session_valid [OF assms(1) that(2) _ s(1,2,3) fresh [OF s(5)]])
      (simp add: coord_wf_def coord_sessions_wf_def)
  then show ?thesis by (rule coord_steps_mutate [OF _ s(4)])
qed simp

subsection \<open>Runs\<close>

text \<open>
  One operation of the user or the caller, from state to state. Operations that only read are
  not listed; one that panics takes no step. A run also receives messages, and lists them;
  writing out the staged mutations is the caller's \<^verbatim>\<open>take_staged_mutations\<close>.
\<close>

inductive coord_op :: "coord_env \<Rightarrow> frost_coordinator \<Rightarrow> frost_coordinator \<Rightarrow> bool" for E where
  op_begin_keygen: "coord_op E co (fst (fst (coord_begin_keygen E b rng co)))"
| op_cancel_keygen: "coord_op E co (cancel_keygen kid co)"
| op_finalize_keygen: "coord_op E co (fst (fst (finalize_keygen E kid ek rng co)))"
| op_start_sign:
    "coord_start_sign E asr task devices rng co = ((co', rng'), r) \<Longrightarrow>
     (\<And>sid. r = Ok sid \<Longrightarrow> bt_get (fc_active_sessions co) sid = None) \<Longrightarrow> coord_op E co co'"
| op_request_sign:
    "request_device_sign E sid d ek co = (Ok (co', r) :: (core_error, _) result) \<Longrightarrow> coord_op E co co'"
| op_cancel_session: "cancel_sign_session E sid co = (Ok co' :: (core_error, _) result) \<Longrightarrow> coord_op E co co'"
| op_cancel_sessions: "cancel_all_signing_sessions E co = (Ok co' :: (core_error, _) result) \<Longrightarrow> coord_op E co co'"
| op_forget_session:
    "forget_finished_sign_session E sid co = (Ok (co', f) :: (core_error, _) result) \<Longrightarrow> coord_op E co co'"
| op_delete_key: "coord_delete_key E kid co = (Ok co' :: (core_error, _) result) \<Longrightarrow> coord_op E co co'"
| op_delete_share: "coord_op E co (fst (coord_delete_share E asr d co))"
| op_start_restoring:
    "start_restoring_key E name t p rid co = (Ok co' :: (core_error, _) result) \<Longrightarrow> coord_op E co co'"
| op_start_restoring_from_share: "coord_op E co (fst (start_restoring_from_share E r rid co))"
| op_cancel_restoration: "cancel_restoration E rid co = (Ok co' :: (core_error, _) result) \<Longrightarrow> coord_op E co co'"
| op_delete_restoration_share:
    "delete_restoration_share E rid d co = (Ok co' :: (core_error, _) result) \<Longrightarrow> coord_op E co co'"
| op_add_recovery_share: "coord_op E co (fst (add_recovery_share E rid r ek co))"
| op_save_backup: "coord_op E co (fst (tell_device_to_save_backup E phase rid co))"
| op_finish_restoring: "coord_op E co (fst (fst (finish_restoring E rid ek rng co)))"
| op_recover_share: "coord_op E co (fst (coord_recover_share E asr r ek co))"
| op_consolidate: "coord_op E co (fst (tell_device_to_consolidate E phase asr ek co))"
| op_clear_tmp: "coord_op E co (coord_clear_tmp_data co)"

inductive coord_run ::
  "coord_env \<Rightarrow> fingerprint \<Rightarrow> (device_id \<times> device_to_coordinator) list \<Rightarrow> coord_mutation list \<Rightarrow>
    frost_coordinator \<Rightarrow> bool" for E fp where
  run_start: "coord_run E fp [] [] (new_coordinator fp)"
| run_message:
    "coord_run E fp received written co \<Longrightarrow>
     coord_run E fp (received @ [(d, m)]) written (fst (recv_device_message E d m co))"
| run_op: "coord_run E fp received written co \<Longrightarrow> coord_op E co co' \<Longrightarrow> coord_run E fp received written co'"
| run_write:
    "coord_run E fp received written co \<Longrightarrow> take_staged_mutations co = (ms, co') \<Longrightarrow>
     coord_run E fp received (written @ ms) co'"

lemma cancel_all_plain: "list_all plain_mutation (map (\<lambda>sid. SigningMutation (CloseSignSession sid None)) sids)"
  by (simp add: list_all_iff)

text \<open>Every operation is a sequence of steps, after a change of the key generations under way for
  the operations on those.\<close>

lemma coord_op_steps:
  assumes "tx_ops_ok (ce_tx_ops E)" "coord_op E co co'"
  obtains co1 where "coord_tmp co co1" "coord_steps E co1 co'"
    "fc_pending_keygens co1 = fc_pending_keygens co \<or>
     (\<exists>kid. fc_pending_keygens co1 = bt_remove kid (fc_pending_keygens co)) \<or>
     (\<exists>b rng. co1 = fst (fst (coord_begin_keygen E b rng co))) \<or> fc_pending_keygens co1 = []"
proof -
  note found = that
  have direct: thesis if s: "coord_steps E co co'" using found [OF _ s] by simp
  from assms(2) show thesis
  proof cases
    case (op_begin_keygen b rng)
    then show thesis using coord_begin_keygen_tmp by (intro found) auto
  next
    case (op_cancel_keygen kid)
    then show thesis using cancel_keygen_tmp by (intro found) (auto simp: cancel_keygen_def take_keygen_def)
  next
    case (op_finalize_keygen kid ek rng)
    then show thesis using finalize_keygen_steps [where co = co and kid = kid and ek = ek and rng = rng and E = E] by (intro found) auto
  next
    case (op_start_sign asr task devices rng rng' r)
    then show thesis by (intro direct coord_start_sign_steps [OF assms(1)])
  next
    case op_cancel_sessions
    then show thesis
      unfolding cancel_all_signing_sessions_def by (intro direct coord_steps_mutate_all [OF _ cancel_all_plain])
  next
    case (op_forget_session sid f)
    then show thesis
      by (intro direct) (auto simp: forget_finished_sign_session_def result_iff split: option.splits
          intro: coord_steps_plain [where ?'e = core_error])
  next
    case (op_delete_key kid)
    then show thesis
      by (intro direct) (auto simp: coord_delete_key_def split: if_splits intro: coord_steps_plain [where ?'e = core_error])
  next
    case (op_start_restoring name t p rid)
    then show thesis
      by (intro direct) (auto simp: start_restoring_key_def split: if_splits intro: coord_steps_plain [where ?'e = core_error])
  next
    case (op_delete_restoration_share rid d)
    then show thesis
      by (intro direct) (auto simp: delete_restoration_share_def split: option.splits
          intro: coord_steps_plain [where ?'e = core_error])
  next
    case op_clear_tmp
    then show thesis using coord_clear_tmp_data_tmp by (intro found) (auto simp: coord_clear_tmp_data_def)
  qed (simp_all add: direct request_device_sign_steps
    coord_delete_share_steps start_restoring_from_share_steps add_recovery_share_steps finish_restoring_steps
    coord_recover_share_steps tell_device_to_save_backup_steps tell_device_to_consolidate_steps
    cancel_sign_session_def cancel_restoration_def coord_steps_plain [where ?'e = core_error])
qed

lemma coord_op_keeps:
  assumes "tx_ops_ok (ce_tx_ops E)" "coord_op E co co'"
  shows "coord_keeps E co co'"
  by (rule coord_op_steps [OF assms]) (metis coord_tmp_keeps coord_steps_keeps coord_keeps_trans)

lemma recv_device_message_keeps: "coord_keeps E co (fst (recv_device_message E d m co))"
proof (cases "\<exists>k. m = DeviceKeyGen k")
  case True
  then show ?thesis using coord_tmp_keeps [OF handle_device_keygen_tmp] by (auto simp: recv_device_message_def)
qed (blast intro: coord_steps_keeps recv_device_message_steps)

lemma coord_good_new: "coord_good E fp [] (new_coordinator fp)"
proof -
  have "coord_sim (new_coordinator fp) (new_coordinator fp)"
    by (simp add: coord_sim_def streams_cached_def new_coordinator_def bt_get_def)
  then have "recoverable (coord_apply E :: _ \<Rightarrow> _ \<Rightarrow> (unit, applied) result) fc_mutations coord_sim
      (new_coordinator fp) [] (new_coordinator fp)"
    by (intro coord.recoverable_start) (simp_all add: new_coordinator_def)
  moreover have "cache_wf (fc_nonce_cache (new_coordinator fp))" by (simp add: new_coordinator_def cache_wf_empty)
  ultimately show ?thesis unfolding coord_good_def by (intro conjI coord_wf_new)
qed

lemma coord_good_write:
  assumes "coord_good E fp written co"
  shows "coord_good E fp (written @ fc_mutations co) (co\<lparr>fc_mutations := []\<rparr>)"
proof -
  let ?co = "co\<lparr>fc_mutations := []\<rparr>"
  have good: "coord_wf E co" "cache_wf (fc_nonce_cache co)" and rec:
    "recoverable (coord_apply E :: _ \<Rightarrow> _ \<Rightarrow> (unit, applied) result) fc_mutations coord_sim (new_coordinator fp) written co"
    using assms unfolding coord_good_def by blast+
  obtain t where t: "replay_all (coord_apply E :: _ \<Rightarrow> _ \<Rightarrow> (unit, applied) result) (written @ fc_mutations co)
      (new_coordinator fp) = Ok t" "coord_sim co t"
    using rec unfolding recoverable_def by blast
  have core: "coord_core ?co = coord_core co" by (simp add: coord_core_def)
  have "coord_sim ?co t" using t(2) core by (simp add: coord_sim_def streams_cached_def)
  then have "recoverable (coord_apply E :: _ \<Rightarrow> _ \<Rightarrow> (unit, applied) result) fc_mutations coord_sim
      (new_coordinator fp) (written @ fc_mutations co) ?co"
    unfolding recoverable_def using t(1) by (intro exI [of _ t]) simp
  then show ?thesis using coord_wf_cong [OF good(1) core] good(2) by (simp add: coord_good_def)
qed

lemma coord_run_good:
  assumes "tx_ops_ok (ce_tx_ops E)" "coord_run E fp received written co"
  shows "coord_good E fp written co"
  using assms(2)
proof induction
  case run_start
  show ?case by (rule coord_good_new)
next
  case (run_message received written co d m)
  then show ?case using recv_device_message_keeps unfolding coord_keeps_def by blast
next
  case (run_op received written co co')
  then show ?case using coord_op_keeps [OF assms(1)] unfolding coord_keeps_def by blast
next
  case (run_write received written co ms co')
  then have "ms = fc_mutations co" "co' = co\<lparr>fc_mutations := []\<rparr>" by (simp_all add: take_staged_mutations_def)
  with coord_good_write [OF run_write.IH] show ?case by simp
qed

end
