(* ===== verification/CoordKeygenProps.thy ===== *)
theory CoordKeygenProps
  imports CoordSessions
begin

section \<open>Key generation on the coordinator\<close>

text \<open>
  What is saved when a key generation is finalized, what the coordinator can get back of it with
  the encryption key, and that nothing is saved before every device has confirmed the same
  session hash.
\<close>

subsection \<open>A key that has been saved\<close>

text \<open>\<open>key_holds\<close>: the access structure is there, under the encrypted root key \<open>ct\<close>, with \<open>f\<close>
  telling which device holds which share.\<close>

definition key_holds ::
  "frost_coordinator \<Rightarrow> access_structure_ref \<Rightarrow> shared_key xpub \<Rightarrow> ciphertext \<Rightarrow>
    (device_id \<Rightarrow> share_index option) \<Rightarrow> bool" where
  "key_holds co asr xk ct f \<longleftrightarrow>
     (\<exists>k a. bt_get (fc_keys co) (asr_key_id asr) = Some k \<and>
        bt_get (ck_access_structures (cfk_complete_key k)) (asr_access_structure_id asr) = Some a \<and>
        ck_encrypted_rootkey (cfk_complete_key k) = ct \<and> cas_app_shared_key a = xk \<and>
        bt_get (cas_device_to_share_index a) = f)"

lemma key_holds_lookup:
  assumes "key_holds co asr xk ct f"
  obtains a where "lookup_access_structure asr co = Some a" "cas_app_shared_key a = xk"
    "bt_get (cas_device_to_share_index a) = f"
  using assms by (auto simp: key_holds_def lookup_access_structure_def)

lemma coord_push_fields [simp]:
  "fc_keys (coord_push m co) = fc_keys co" "fc_pending_keygens (coord_push m co) = fc_pending_keygens co"
  "fc_active_sessions (coord_push m co) = fc_active_sessions co"
  "fc_finished_sessions (coord_push m co) = fc_finished_sessions co"
  "fc_session_order (coord_push m co) = fc_session_order co"
  "fc_nonce_cache (coord_push m co) = fc_nonce_cache co"
  "fc_restoration (coord_push m co) = fc_restoration co"
  by (simp_all add: coord_push_def)

lemma key_holds_push [simp]: "key_holds (coord_push m co) asr xk ct f = key_holds co asr xk ct f"
  by (simp add: key_holds_def)

lemma mutate_keygen_eq:
  "(coord_mutate E (KeygenMutation k) co :: ('e, _) result) =
   and_then (apply_key_mutation E k co) (\<lambda>(co1, b). Ok (if b then coord_push (KeygenMutation k) co1 else co1))"
proof (cases "apply_key_mutation E k co :: ('e, _) result")
  case (Ok r)
  then show ?thesis by (cases r) (simp add: coord_mutate_def coord_apply_def staged_if_def)
qed (simp_all add: coord_mutate_def coord_apply_def)

lemma mutate_keygen_Ok:
  "coord_mutate E (KeygenMutation k) co = (Ok co' :: ('e, _) result) \<longleftrightarrow>
   (\<exists>co1 b. apply_key_mutation E k co = (Ok (co1, b) :: ('e, _) result) \<and>
      co' = (if b then coord_push (KeygenMutation k) co1 else co1))"
  unfolding mutate_keygen_eq by (auto simp: result_iff)

lemma new_share_holds:
  assumes "key_holds co asr xk ct f" "coord_mutate E (KeygenMutation (NewShare asr d i)) co = (Ok co' :: ('e, _) result)"
  shows "key_holds co' asr xk ct (f(d \<mapsto> i))"
  using assms
  by (auto simp: mutate_keygen_Ok apply_key_mutation_def apply_new_share_def key_holds_def
      lookup_access_structure_def update_access_structure_def fun_eq_iff split: if_splits)

lemma new_shares_hold:
  "key_holds co asr xk ct f \<Longrightarrow>
   coord_mutate_all E (map (\<lambda>(d, i). KeygenMutation (NewShare asr d i)) xs) co = (Ok co' :: ('e, _) result) \<Longrightarrow>
   key_holds co' asr xk ct (f ++ map_of (rev xs))"
proof (induction xs arbitrary: co f)
  case (Cons x xs)
  obtain d i where x: "x = (d, i)" by (cases x)
  then obtain co1 where co1: "coord_mutate E (KeygenMutation (NewShare asr d i)) co = (Ok co1 :: ('e, _) result)"
      "coord_mutate_all E (map (\<lambda>(d, i). KeygenMutation (NewShare asr d i)) xs) co1 = (Ok co' :: ('e, _) result)"
    using Cons.prems(2) by (auto simp: result_iff)
  have "key_holds co' asr xk ct (f(d \<mapsto> i) ++ map_of (rev xs))"
    by (rule Cons.IH [OF new_share_holds [OF Cons.prems(1) co1(1)] co1(2)])
  then show ?case by (simp add: x)
qed simp

text \<open>\<^verbatim>\<open>mutate_new_key\<close> leaves the access structure with the shares given, beside those it had.\<close>

lemma new_structure_holds:
  assumes "bt_get (fc_keys co) kid = Some k"
    and kid: "kid = key_id_of_master_appkey (ce_crypto E) (from_xpub_unchecked (shared_key_tweakable (ce_crypto E)) xk)"
    and asr: "asr = AccessStructureRef kid (access_structure_id_of (ce_crypto E) (xpub_key xk))"
    and ok: "coord_mutate E (KeygenMutation (NewAccessStructure xk kind)) co = (Ok co' :: ('e, _) result)"
  shows "\<exists>xk' f. key_holds co' asr xk' (ck_encrypted_rootkey (cfk_complete_key k)) f \<and>
    (ck_access_structures (cfk_complete_key k) = [] \<longrightarrow> xk' = xk \<and> f = Map.empty)"
proof (cases "bt_get (ck_access_structures (cfk_complete_key k)) (asr_access_structure_id asr)")
  case None
  then have "key_holds co' asr xk (ck_encrypted_rootkey (cfk_complete_key k)) Map.empty"
    using ok assms(1)
    by (simp add: mutate_keygen_Ok apply_key_mutation_def apply_new_access_structure_def Let_def asr
        kid [symmetric] key_holds_def fun_eq_iff) auto
  then show ?thesis by blast
next
  case (Some a)
  then have "co' = co"
    using ok assms(1)
    by (simp add: mutate_keygen_Ok apply_key_mutation_def apply_new_access_structure_def Let_def asr kid [symmetric]) auto
  moreover have "ck_access_structures (cfk_complete_key k) \<noteq> []" using Some by (auto simp: bt_get_def)
  ultimately show ?thesis using assms(1) Some asr by (auto simp: key_holds_def)
qed

lemma map_of_rev_wf:
  assumes "bt_wf (m :: ('k::linorder, 'v) btree)"
  shows "map_of (rev m) = bt_get m"
proof
  fix k
  have "distinct (map fst m)" using assms bs_wf_distinct by (force simp: bt_wf_iff_keys bt_keys_def)
  then have "map_of (rev m) = map_of m" by (intro map_of_inject_set [THEN iffD2]) (simp_all add: rev_map [symmetric])
  then show "map_of (rev m) k = bt_get m k" by (simp add: bt_get_def)
qed

lemma mutate_new_key_holds:
  fixes root :: shared_key and E :: coord_env
  defines "xk \<equiv> rootkey_to_master_appkey (ce_crypto E) (shared_key_tweakable (ce_crypto E)) (xpub_from_rootkey root)"
  assumes ok: "mutate_new_key E name root indices ek p rng co = (Ok (asr, co', rng') :: ('e, _) result)"
    and indices: "bt_wf indices"
  shows "asr = access_structure_ref_of (ce_crypto E) root \<and>
    (\<exists>xk' ct f. key_holds co' asr xk' ct (f ++ bt_get indices) \<and>
      (bt_get (fc_keys co) (asr_key_id asr) = None \<longrightarrow>
         xk' = xk \<and> ct = fst (ct_encrypt (ce_crypto E) ek (shared_public_key root) rng) \<and> f = Map.empty))"
proof -
  let ?C = "ce_crypto E" and ?ct = "fst (ct_encrypt (ce_crypto E) ek (shared_public_key root) rng)"
  let ?kid = "key_id_of_master_appkey ?C (from_xpub_unchecked (shared_key_tweakable ?C) xk)"
  let ?shares = "map (\<lambda>(d, i). KeygenMutation (NewShare asr d i)) indices"
  let ?m = "from_xpub_unchecked (shared_key_tweakable ?C) xk"
  let ?new = "if bt_get (fc_keys co) ?kid = None
     then [KeygenMutation (NewKey name p \<lparr>ck_master_appkey = ?m, ck_encrypted_rootkey = ?ct, ck_access_structures = []\<rparr>)] else []"
  have asr: "asr = AccessStructureRef ?kid (access_structure_id_of ?C (xpub_key xk))"
    and all: "coord_mutate_all E (?new @ KeygenMutation (NewAccessStructure xk Master) # ?shares) co = (Ok co' :: ('e, _) result)"
    using ok by (auto simp: mutate_new_key_def new_key_mutations_def Let_def xk_def [symmetric] case_prod_unfold result_iff)
  obtain co1 k where k: "bt_get (fc_keys co1) ?kid = Some k"
      "coord_mutate_all E (KeygenMutation (NewAccessStructure xk Master) # ?shares) co1 = (Ok co' :: ('e, _) result)"
      "bt_get (fc_keys co) ?kid = None \<longrightarrow> ck_encrypted_rootkey (cfk_complete_key k) = ?ct \<and> ck_access_structures (cfk_complete_key k) = []"
  proof (cases "bt_get (fc_keys co) ?kid")
    case None
    let ?k = "\<lparr>ck_master_appkey = ?m, ck_encrypted_rootkey = ?ct, ck_access_structures = []\<rparr>"
    obtain co1 where co1: "coord_mutate E (KeygenMutation (NewKey name p ?k)) co = (Ok co1 :: ('e, _) result)"
        "coord_mutate_all E (KeygenMutation (NewAccessStructure xk Master) # ?shares) co1 = (Ok co' :: ('e, _) result)"
      using all None by (auto simp: result_iff)
    have "bt_get (fc_keys co1) ?kid = Some \<lparr>cfk_key_id = ?kid, cfk_complete_key = ?k, cfk_key_name = name, cfk_purpose = p\<rparr>"
      using co1(1) None by (auto simp: mutate_keygen_Ok apply_key_mutation_def ensure_key_def Let_def)
    then show ?thesis using co1(2) by (rule that) simp
  qed (use all that in auto)
  obtain co2 where co2: "coord_mutate E (KeygenMutation (NewAccessStructure xk Master)) co1 = (Ok co2 :: ('e, _) result)"
      "coord_mutate_all E ?shares co2 = (Ok co' :: ('e, _) result)"
    using k(2) by (auto simp: result_iff)
  obtain xk' f where h: "key_holds co2 asr xk' (ck_encrypted_rootkey (cfk_complete_key k)) f"
      "ck_access_structures (cfk_complete_key k) = [] \<longrightarrow> xk' = xk \<and> f = Map.empty"
    using new_structure_holds [OF k(1) refl asr co2(1)] by blast
  have "map_of (rev indices) = bt_get indices" by (rule map_of_rev_wf [OF indices])
  then have "key_holds co' asr xk' (ck_encrypted_rootkey (cfk_complete_key k)) (f ++ bt_get indices)"
    using new_shares_hold [OF h(1) co2(2)] by simp
  moreover have "asr = access_structure_ref_of ?C root" by (simp add: asr access_structure_ref_of_def Let_def xk_def)
  moreover have "asr_key_id asr = ?kid" by (simp add: asr)
  ultimately show ?thesis
    using h(2) k(3) by (intro conjI exI [of _ xk'] exI [of _ "ck_encrypted_rootkey (cfk_complete_key k)"] exI [of _ f]) auto
qed

subsection \<open>What the key generations under way have heard\<close>

definition acked ::
  "coord_env \<Rightarrow> (device_id \<times> device_to_coordinator) list \<Rightarrow> keygen_id \<Rightarrow> certified_keygen \<Rightarrow> device_id \<Rightarrow> bool" where
  "acked E received kid certified d \<longleftrightarrow>
     (\<exists>ack. (d, DeviceKeyGen (KgAck ack)) \<in> set received \<and> ack_keygen_id ack = kid \<and>
        ack_session_hash ack = keygen_session_hash (ce_pedpop E) certified)"

definition keygen_state_ok ::
  "coord_env \<Rightarrow> (device_id \<times> device_to_coordinator) list \<Rightarrow> keygen_id \<Rightarrow> keygen_state \<Rightarrow> bool" where
  "keygen_state_ok E received kid st \<longleftrightarrow>
     (case st of
        WaitingForAcks st \<Rightarrow>
          bs_wf (kwa_acks st) \<and> set (kwa_acks st) \<subseteq> set (kwa_devices st) \<and>
          (\<forall>d\<in>set (kwa_acks st). acked E received kid (kwa_certified st) d)
      | NeedsFinalize fin \<Rightarrow>
          bt_wf (knf_device_to_share_index fin) \<and>
          (\<exists>certified. knf_root_shared_key fin = keygen_shared_key (ce_pedpop E) certified \<and>
             (\<forall>d i. bt_get (knf_device_to_share_index fin) d = Some i \<longrightarrow>
                acked E received kid certified d \<and>
                (i, device_pubkey (ce_crypto E) d) \<in> set (keygen_receiver_keys (ce_pedpop E) certified)))
      | _ \<Rightarrow> True)"

definition keygens_ok ::
  "coord_env \<Rightarrow> (device_id \<times> device_to_coordinator) list \<Rightarrow> (keygen_id, keygen_state) btree \<Rightarrow> bool" where
  "keygens_ok E received pending \<longleftrightarrow>
     (\<forall>kid st. bt_get pending kid = Some st \<longrightarrow> keygen_state_ok E received kid st)"

lemma keygens_okD: "keygens_ok E received p \<Longrightarrow> bt_get p kid = Some st \<Longrightarrow> keygen_state_ok E received kid st"
  by (simp add: keygens_ok_def)

lemma acked_more: "acked E received kid c d \<Longrightarrow> acked E (received @ ms) kid c d"
  by (auto simp: acked_def)

lemma keygen_state_ok_more: "keygen_state_ok E received kid st \<Longrightarrow> keygen_state_ok E (received @ ms) kid st"
  unfolding keygen_state_ok_def by (cases st) (simp_all, blast intro: acked_more, meson acked_more)

lemma keygens_ok_more: "keygens_ok E received p \<Longrightarrow> keygens_ok E (received @ ms) p"
  by (auto simp: keygens_ok_def intro: keygen_state_ok_more)

lemma keygens_ok_simps [simp]:
  "keygens_ok E received []"
  "keygens_ok E received p \<Longrightarrow> keygens_ok E received (bt_remove kid p)"
  "keygens_ok E received p \<Longrightarrow> keygen_state_ok E received kid st \<Longrightarrow> keygens_ok E received (bt_insert kid st p)"
  by (auto simp: keygens_ok_def bt_get_remove)

lemma keygen_state_ok_waiting [simp]:
  "keygen_state_ok E received kid (WaitingForResponses w)"
  "keygen_state_ok E received kid (WaitingForCertificates c)"
  "keygen_state_ok E received kid (WaitingForAcks \<lparr>kwa_certified = x, kwa_devices = ds, kwa_acks = [],
     kwa_key_name = n, kwa_purpose = p\<rparr>)"
  by (simp_all add: keygen_state_ok_def bs_wf_def)

lemma put_keygen_pending [simp]:
  "fc_pending_keygens (put_keygen kid st co) = bt_insert kid st (fc_pending_keygens co)"
  by (simp add: put_keygen_def)

lemma assign_indices_in:
  "assign_indices C ds ks = (Ok xs :: ('e, _) result) \<Longrightarrow> (d, i) \<in> set xs \<Longrightarrow>
   d \<in> set ds \<and> (i, device_pubkey C d) \<in> set ks"
  by (induction C ds ks arbitrary: xs rule: assign_indices.induct) (auto simp: result_iff split: if_splits)

lemma bt_of_list_wf [simp]: "bt_wf (bt_of_list kvs)"
  unfolding bt_of_list_def by (rule btree.wf_fold_insert) simp

lemma fold_insert_in:
  "bt_get (fold (\<lambda>(k, v). bt_insert k v) kvs m) k = Some v \<Longrightarrow> (k, v) \<in> set kvs \<or> bt_get m k = Some v"
proof (induction kvs arbitrary: m)
  case (Cons x kvs)
  obtain k' v' where x: "x = (k', v')" by (cases x)
  have "(k, v) \<in> set kvs \<or> bt_get (bt_insert k' v' m) k = Some v"
    by (rule Cons.IH) (use Cons.prems x in simp)
  then show ?case by (auto simp: x split: if_splits)
qed simp

lemma bt_of_list_in: "bt_get (bt_of_list kvs) k = Some v \<Longrightarrow> (k, v) \<in> set kvs"
  using fold_insert_in [of kvs "[]" k v] by (simp add: bt_of_list_def)

text \<open>The last ack: as many distinct devices have confirmed as there are.\<close>

lemma all_acked_ok:
  assumes acks: "bs_wf (kwa_acks st)" "set (kwa_acks st) \<subseteq> set (kwa_devices st)"
    "length (kwa_acks st) = length (kwa_devices st)"
    and heard: "\<forall>d\<in>set (kwa_acks st). acked E received kid (kwa_certified st) d"
    and fin: "keygen_all_acked E st = (Ok fin :: ('e, _) result)"
  shows "keygen_state_ok E received kid (NeedsFinalize fin)"
proof -
  let ?P = "ce_pedpop E"
  obtain indices where i: "assign_indices (ce_crypto E) (kwa_devices st) (keygen_receiver_keys ?P (kwa_certified st))
      = (Ok indices :: ('e, _) result)"
    "knf_device_to_share_index fin = bt_of_list indices" "knf_root_shared_key fin = keygen_shared_key ?P (kwa_certified st)"
    using fin by (auto simp: keygen_all_acked_def Let_def result_iff split: if_splits)
  have "card (set (kwa_devices st)) \<le> card (set (kwa_acks st))"
    using acks(3) bs_wf_distinct [OF acks(1)] card_length [of "kwa_devices st"] by (simp add: distinct_card)
  then have all: "set (kwa_acks st) = set (kwa_devices st)" by (intro card_seteq) (simp_all add: acks(2))
  have "acked E received kid (kwa_certified st) d \<and>
      (j, device_pubkey (ce_crypto E) d) \<in> set (keygen_receiver_keys ?P (kwa_certified st))"
    if "bt_get (bt_of_list indices) d = Some j" for d j
  proof -
    have "(d, j) \<in> set indices" using that by (rule bt_of_list_in)
    from assign_indices_in [OF i(1) this] show ?thesis using heard all by blast
  qed
  then show ?thesis by (auto simp: keygen_state_ok_def i(2,3))
qed

subsection \<open>The handlers keep it\<close>

abbreviation keygens_ok_in where
  "keygens_ok_in E received co \<equiv> keygens_ok E received (fc_pending_keygens co)"

lemma handle_keygen_response_ok:
  "keygens_ok_in E received co \<Longrightarrow> keygens_ok_in E received (fst (handle_keygen_response E d kid inp co))"
  unfolding handle_keygen_response_def Let_def take_keygen_def prod.case
  by (auto split: option.split keygen_state.split intro!: or_return_keeps [where P = "keygens_ok_in E received"])

lemma handle_keygen_certify_ok:
  "keygens_ok_in E received co \<Longrightarrow> keygens_ok_in E received (fst (handle_keygen_certify E d kid cert co))"
  unfolding handle_keygen_certify_def Let_def take_keygen_def prod.case
  by (auto split: option.split keygen_state.split intro!: or_return_keeps [where P = "keygens_ok_in E received"])

lemma handle_keygen_ack_ok:
  assumes "keygens_ok_in E received co"
  shows "keygens_ok_in E (received @ [(d, DeviceKeyGen (KgAck ack))]) (fst (handle_keygen_ack E d ack co))"
proof -
  let ?kid = "ack_keygen_id ack" and ?received = "received @ [(d, DeviceKeyGen (KgAck ack))]"
  let ?co = "co\<lparr>fc_pending_keygens := bt_remove ?kid (fc_pending_keygens co)\<rparr>"
  have more: "keygens_ok_in E ?received co" by (rule keygens_ok_more [OF assms])
  then have removed: "keygens_ok_in E ?received ?co" by simp
  show ?thesis
  proof (cases "bt_get (fc_pending_keygens co) ?kid")
    case None
    then show ?thesis using removed by (simp add: handle_keygen_ack_def Let_def take_keygen_def)
  next
    case (Some state)
    show ?thesis
    proof (cases state)
      case (WaitingForAcks st)
      have ok: "keygen_state_ok E ?received ?kid (WaitingForAcks st)"
        using more Some WaitingForAcks by (simp add: keygens_ok_def)
      let ?st = "st\<lparr>kwa_acks := bs_insert d (kwa_acks st)\<rparr>"
      have heard: "keygen_state_ok E ?received ?kid (WaitingForAcks ?st)"
        if "ack_session_hash ack = keygen_session_hash (ce_pedpop E) (kwa_certified st)" "d \<in> set (kwa_devices st)"
        using ok that by (auto simp: keygen_state_ok_def acked_def)
      have fin: "keygen_state_ok E ?received ?kid (NeedsFinalize fin)"
        if "ack_session_hash ack = keygen_session_hash (ce_pedpop E) (kwa_certified st)" "d \<in> set (kwa_devices st)"
          "length (bs_insert d (kwa_acks st)) = length (kwa_devices st)"
          "keygen_all_acked E ?st = (Ok fin :: (core_error, _) result)" for fin
        by (rule all_acked_ok [OF _ _ _ _ that(4)]) (use heard [OF that(1,2)] that(3) in \<open>auto simp: keygen_state_ok_def\<close>)
      show ?thesis
        using Some WaitingForAcks removed ok heard fin
        unfolding handle_keygen_ack_def Let_def take_keygen_def prod.case
        by (auto intro!: or_return_keeps [where P = "keygens_ok_in E ?received"])
    qed (use Some removed in \<open>simp_all add: handle_keygen_ack_def Let_def take_keygen_def\<close>)
  qed
qed

text \<open>No mutation touches them.\<close>

lemma close_sign_session_pending:
  "close_sign_session sid fin co = (Ok (co', b) :: ('e, _) result) \<Longrightarrow> fc_pending_keygens co' = fc_pending_keygens co"
  by (auto simp: close_sign_session_def result_iff split: if_splits)

lemma close_sign_sessions_pending:
  "close_sign_sessions sids co = (Ok co' :: ('e, _) result) \<Longrightarrow> fc_pending_keygens co' = fc_pending_keygens co"
proof (induction sids arbitrary: co)
  case (Cons sid sids)
  from Cons.prems obtain co1 b where co1: "close_sign_session sid None co = (Ok (co1, b) :: ('e, _) result)"
      "close_sign_sessions sids co1 = (Ok co' :: ('e, _) result)"
    by (rule close_sign_sessions_ConsE)
  show ?case using Cons.IH [OF co1(2)] close_sign_session_pending [OF co1(1)] by simp
qed simp

lemma apply_delete_key_pending:
  assumes "apply_delete_key kid co = (Ok (co', b) :: ('e, _) result)"
  shows "fc_pending_keygens co' = fc_pending_keygens co"
proof (cases "bt_get (fc_keys co) kid")
  case (Some k)
  let ?co = "co\<lparr>fc_keys := bt_remove kid (fc_keys co), fc_key_order := filter (\<lambda>k. k \<noteq> kid) (fc_key_order co),
      fc_restoration := clear_up_key_deletion kid (fc_restoration co)\<rparr>"
  have "close_sign_sessions (sessions_of_key kid ?co) ?co = (Ok co' :: ('e, _) result)"
    using assms Some by (auto simp: apply_delete_key_def Let_def result_iff)
  from close_sign_sessions_pending [OF this] show ?thesis by simp
qed (use assms in \<open>simp add: apply_delete_key_def\<close>)

lemma coord_apply_pending:
  assumes "coord_apply E m co = (Ok (co', r) :: ('e, _) result)"
  shows "fc_pending_keygens co' = fc_pending_keygens co"
proof (cases m)
  case (KeygenMutation k)
  then obtain b where "apply_key_mutation E k co = (Ok (co', b) :: ('e, _) result)"
    using assms by (auto simp: coord_apply_def result_iff staged_if_def)
  then show ?thesis
    by (cases k) (auto simp: apply_key_mutation_def ensure_key_def Let_def apply_new_access_structure_def
       apply_new_share_def apply_delete_share_def update_access_structure_def apply_delete_key_pending
       split: option.splits if_splits)
next
  case (SigningMutation k)
  then obtain b where "apply_signing_mutation E k co = (Ok (co', b) :: ('e, _) result)"
    using assms by (auto simp: coord_apply_def result_iff staged_if_def)
  then show ?thesis
    by (cases k) (auto simp: apply_signing_mutation_def apply_new_nonces_def close_sign_session_pending
       split: option.splits if_splits prod.splits result.splits)
qed (use assms in \<open>auto simp: coord_apply_def split: prod.splits\<close>)

lemma coord_mutate_pending:
  assumes "coord_mutate E m co = (Ok co' :: ('e, _) result)"
  shows "fc_pending_keygens co' = fc_pending_keygens co"
proof -
  obtain co1 r where "coord_apply E m co = (Ok (co1, r) :: ('e, _) result)"
    and "co' = (case r of Some m' \<Rightarrow> coord_push m' co1 | None \<Rightarrow> co1)"
    using assms by (auto simp: coord_mutate_def result_iff)
  then show ?thesis using coord_apply_pending by (fastforce split: option.splits)
qed

lemma steps_pending: "coord_steps E a b \<Longrightarrow> fc_pending_keygens b = fc_pending_keygens a"
proof (induction rule: coord_steps.induct)
  case (steps_mutate a b m c)
  then show ?case using coord_mutate_pending by metis
qed simp_all

lemma coord_begin_keygen_ok:
  "keygens_ok_in E received co \<Longrightarrow> keygens_ok_in E received (fst (fst (coord_begin_keygen E b rng co)))"
  unfolding coord_begin_keygen_def Let_def or_return_def
  by (simp split: prod.split result.split)

lemma recv_device_message_ok:
  assumes "keygens_ok_in E received co"
  shows "keygens_ok_in E (received @ [(d, m)]) (fst (recv_device_message E d m co))"
proof (cases "\<exists>k. m = DeviceKeyGen k")
  case True
  then obtain k where m: "m = DeviceKeyGen k" by blast
  note more = keygens_ok_more [OF assms, of "[(d, m)]"]
  show ?thesis
    using handle_keygen_response_ok [OF more] handle_keygen_certify_ok [OF more] handle_keygen_ack_ok [OF assms]
    by (cases k) (simp_all add: recv_device_message_def m handle_device_keygen_def)
next
  case False
  then have "coord_steps E co (fst (recv_device_message E d m co))" by (intro recv_device_message_steps) blast
  then show ?thesis using keygens_ok_more [OF assms] by (simp add: steps_pending)
qed

lemma coord_run_keygens_ok:
  assumes "tx_ops_ok (ce_tx_ops E)" "coord_run E fp received written co"
  shows "keygens_ok_in E received co"
  using assms(2)
proof induction
  case (run_message received written co d m)
  then show ?case by (intro recv_device_message_ok)
next
  case (run_op received written co co')
  obtain co1 where "coord_tmp co co1" "coord_steps E co1 co'"
    "fc_pending_keygens co1 = fc_pending_keygens co \<or>
     (\<exists>kid. fc_pending_keygens co1 = bt_remove kid (fc_pending_keygens co)) \<or>
     (\<exists>b rng. co1 = fst (fst (coord_begin_keygen E b rng co))) \<or> fc_pending_keygens co1 = []"
    by (rule coord_op_steps [OF assms(1) run_op.hyps(2)])
  then show ?case using run_op.IH coord_begin_keygen_ok by (auto simp: steps_pending)
qed (simp_all add: new_coordinator_def take_staged_mutations_def)

subsection \<open>A concrete coordinator\<close>

definition demo_coord_pedpop :: coord_pedpop where
  "demo_coord_pedpop =
     \<lparr>aggregator_new = (\<lambda>t n m. []),
      aux_keygen_input = (\<lambda>t ck rk i rng. (Some ([], [1]), rng)),
      add_aux_input = (\<lambda>agg i inp. Some agg),
      add_receiver_input = (\<lambda>agg i inp. Some [1]),
      aggregator_finished = (\<lambda>agg. agg \<noteq> []),
      aggregator_finish = (\<lambda>agg fp. Some [7]),
      aux_verify_agg_input = (\<lambda>c agg kp. Some ([], [2])),
      certifier_new = (\<lambda>v. []),
      receive_certificate = (\<lambda>c pk cert. Some (1 # c)),
      certifier_finished = (\<lambda>c. length c = 2),
      certifier_finish = (\<lambda>c. Some (2 # replicate 32 7)),
      keygen_certificate = (\<lambda>c. []),
      keygen_session_hash = SessionHash,
      keygen_shared_key = (\<lambda>c. [c]),
      keygen_n_receivers = (\<lambda>c. 1),
      keygen_receiver_keys = (\<lambda>c. [(1, 2 # replicate 32 5)])\<rparr>"

definition demo_sessions :: session_ops where
  "demo_sessions =
     \<lparr>new_session = (\<lambda>k nonces m rng. (map (\<lambda>(i, n). of_nat i) nonces, rng)),
      session_agg_binonce = (\<lambda>s. []),
      session_parties = map unat,
      verification_share_of = (\<lambda>k i. [of_nat i]),
      session_verify_share = (\<lambda>s v share. share = v),
      session_combine = (\<lambda>s shares. concat shares)\<rparr>"

definition demo_coord_env :: coord_env where
  "demo_coord_env =
     \<lparr>ce_crypto = demo_crypto, ce_tx_ops = demo_tx_ops, ce_frost_ops = demo_frost_ops,
      ce_sessions = demo_sessions, ce_pedpop = demo_coord_pedpop, ce_encode_request = (\<lambda>r. case gsr_sign_task r of WireTest m \<Rightarrow> string_bytes m | _ \<Rightarrow> []),
      ce_schnorr_verify = (\<lambda>pk m s. True),
      ce_random_keypair = (\<lambda>rng. (\<lparr>kp_secret = [1], kp_public = generator demo_crypto\<rparr>, rng))\<rparr>"

lemma demo_coord_env_simps [simp]:
  "ce_crypto demo_coord_env = demo_crypto" "ce_tx_ops demo_coord_env = demo_tx_ops"
  "ce_frost_ops demo_coord_env = demo_frost_ops" "ce_sessions demo_coord_env = demo_sessions"
  "ce_pedpop demo_coord_env = demo_coord_pedpop"
  "ce_random_keypair demo_coord_env = (\<lambda>rng. (\<lparr>kp_secret = [1], kp_public = generator demo_crypto\<rparr>, rng))"
  by (simp_all add: demo_coord_env_def)

lemma demo_tx_ops_ok: "tx_ops_ok demo_tx_ops"
  by (simp add: tx_ops_ok_def demo_tx_ops_def)

definition demo_rng :: rng where
  "demo_rng = (\<lambda>n. [])"

definition demo_d :: device_id where
  "demo_d = DeviceId (2 # replicate 32 5)"

definition demo_kid :: keygen_id where
  "demo_kid = KeygenId [1]"

definition demo_root :: shared_key where
  "demo_root = [2 # replicate 32 7]"

definition demo_begin :: begin_keygen where
  "demo_begin = \<lparr>bk_keygen_id = demo_kid, bk_devices_in_order = [demo_d], bk_threshold = 1,
     bk_key_name = ''k'', bk_purpose = PurposeTest\<rparr>"

definition demo_messages :: "(device_id \<times> device_to_coordinator) list" where
  "demo_messages =
     [(demo_d, DeviceKeyGen (KgResponse demo_kid [])), (demo_d, DeviceKeyGen (KgCertify demo_kid [3])),
      (demo_d, DeviceKeyGen (KgAck \<lparr>ack_session_hash = SessionHash (2 # replicate 32 7), ack_keygen_id = demo_kid\<rparr>))]"

definition demo_begun :: frost_coordinator where
  "demo_begun = fst (fst (coord_begin_keygen demo_coord_env demo_begin demo_rng (new_coordinator [])))"

definition demo_confirmed :: frost_coordinator where
  "demo_confirmed = fold (\<lambda>(d, m) co. fst (recv_device_message demo_coord_env d m co)) demo_messages demo_begun"

lemma demo_confirmed_run: "coord_run demo_coord_env [] demo_messages [] demo_confirmed"
proof -
  have "coord_run demo_coord_env [] [] [] demo_begun"
    unfolding demo_begun_def by (rule run_op [OF run_start]) (rule op_begin_keygen)
  from run_message [OF run_message [OF run_message [OF this]]]
  show ?thesis by (simp add: demo_confirmed_def demo_messages_def)
qed

definition demo_fin :: keygen_needs_finalize where
  "demo_fin = \<lparr>knf_root_shared_key = demo_root, knf_device_to_share_index = [(demo_d, 1)],
     knf_key_name = ''k'', knf_purpose = PurposeTest\<rparr>"

lemma demo_device_pubkey [simp]: "device_pubkey demo_crypto demo_d = 2 # replicate 32 5"
  by (simp add: device_pubkey_def demo_d_def demo_crypto_def)

lemma demo_begun_eq:
  "fc_pending_keygens demo_begun = [(demo_kid, WaitingForResponses
     \<lparr>kwr_keygen_id = demo_kid, kwr_input_aggregator = [], kwr_devices = [demo_d], kwr_key_name = ''k'',
      kwr_purpose = PurposeTest, kwr_contributer = [],
      kwr_keypair = \<lparr>kp_secret = [1], kp_public = generator demo_crypto\<rparr>\<rparr>)]"
  by (simp add: demo_begun_def coord_begin_keygen_def demo_begin_def Let_def new_coordinator_def
      demo_coord_pedpop_def put_keygen_def)

lemma demo_confirmed_pending: "fc_pending_keygens demo_confirmed = [(demo_kid, NeedsFinalize demo_fin)]"
  by (simp add: demo_confirmed_def demo_messages_def recv_device_message_def handle_device_keygen_def
      handle_keygen_response_def handle_keygen_certify_def handle_keygen_ack_def Let_def take_keygen_def
      demo_begun_eq bt_get_def bt_remove_def put_keygen_def demo_coord_pedpop_def certify_own_input_def
      keygen_all_acked_def demo_fin_def demo_root_def bt_of_list_def)

lemma recv_keygen_tmp: "coord_tmp co (fst (recv_device_message E d (DeviceKeyGen k) co))"
  by (simp add: recv_device_message_def handle_device_keygen_tmp)

lemma coord_tmp_trans: "coord_tmp a b \<Longrightarrow> coord_tmp b c \<Longrightarrow> coord_tmp a c"
  by (simp add: coord_tmp_def)

lemma demo_confirmed_keys:
  "fc_keys demo_confirmed = []" "fc_active_sessions demo_confirmed = []" "fc_session_order demo_confirmed = []"
  "fc_nonce_cache demo_confirmed = empty_nonce_cache" "fc_mutations demo_confirmed = []"
proof -
  have "coord_tmp (new_coordinator []) demo_begun" unfolding demo_begun_def by (rule coord_begin_keygen_tmp)
  then have "coord_tmp (new_coordinator []) demo_confirmed"
    unfolding demo_confirmed_def demo_messages_def
    by (simp, intro coord_tmp_trans [OF _ recv_keygen_tmp])
  then show "fc_keys demo_confirmed = []" "fc_active_sessions demo_confirmed = []" "fc_session_order demo_confirmed = []"
    "fc_nonce_cache demo_confirmed = empty_nonce_cache" "fc_mutations demo_confirmed = []"
    by (simp_all add: coord_tmp_def core_defs new_coordinator_def)
qed

subsection \<open>The root key from the encrypted one\<close>

text \<open>A tweak adds to the constant term of the polynomial and leaves the others.\<close>

definition tweak_constant_term :: "crypto \<Rightarrow> bool" where
  "tweak_constant_term C \<longleftrightarrow> (\<forall>k t. k \<noteq> [] \<longrightarrow> shared_add C k t \<noteq> [] \<and> tl (shared_add C k t) = tl k)"

lemma demo_tweak_constant_term: "tweak_constant_term demo_crypto"
  by (simp add: tweak_constant_term_def demo_crypto_def)

lemma derive_constant_term:
  assumes "tweak_constant_term C"
  shows "xpub_key x \<noteq> [] \<Longrightarrow> xpub_key (derive_bip32 C (shared_key_tweakable C) x segments) \<noteq> [] \<and>
    tl (xpub_key (derive_bip32 C (shared_key_tweakable C) x segments)) = tl (xpub_key x)"
proof (induction segments arbitrary: x)
  case (Cons i segments)
  have "xpub_key (derive_step C (shared_key_tweakable C) i x) \<noteq> []"
    "tl (xpub_key (derive_step C (shared_key_tweakable C) i x)) = tl (xpub_key x)"
    using assms Cons.prems by (simp_all add: derive_step_def Let_def shared_key_tweakable_def tweak_constant_term_def)
  then show ?case using Cons.IH by (simp add: derive_bip32_def)
qed (simp add: derive_bip32_def)

lemma app_key_update:
  assumes "tweak_constant_term C" "root \<noteq> []"
  shows "(xpub_key (rootkey_to_master_appkey C (shared_key_tweakable C) (xpub_from_rootkey root)))[0 := shared_public_key root] = root"
proof -
  let ?k = "xpub_key (rootkey_to_master_appkey C (shared_key_tweakable C) (xpub_from_rootkey root))"
  have "?k \<noteq> [] \<and> tl ?k = tl root"
    using derive_constant_term [OF assms(1), of "xpub_from_rootkey root" "[0]"] assms(2)
    by (simp add: rootkey_to_master_appkey_def xpub_from_rootkey_def)
  then show ?thesis using assms(2) by (cases ?k) (auto simp: shared_public_key_def)
qed

lemma key_holds_root:
  assumes "crypto_ok C" "tweak_constant_term C" "root \<noteq> []" "valid_point C (shared_public_key root)"
    and "key_holds co asr (rootkey_to_master_appkey C (shared_key_tweakable C) (xpub_from_rootkey root))
      (fst (ct_encrypt C ek (shared_public_key root) rng)) f"
  shows "coord_root_shared_key C asr ek co = Some root"
  using assms(5)
  by (auto simp: key_holds_def coord_root_shared_key_def complete_root_shared_key_def
      ct_decrypt_point_encrypt [OF assms(1,4)] app_key_update [OF assms(2,3)])

lemma finalize_keygen_Ok:
  assumes "finalize_keygen E kid ek rng co = ((co', rng'), Ok f)"
  obtains fin where "bt_get (fc_pending_keygens co) kid = Some (NeedsFinalize fin)"
    "mutate_new_key E (knf_key_name fin) (knf_root_shared_key fin) (knf_device_to_share_index fin) ek
       (knf_purpose fin) rng (co\<lparr>fc_pending_keygens := bt_remove kid (fc_pending_keygens co)\<rparr>)
     = (Ok (fk_access_structure_ref f, co', rng') :: (action_error, _) result)"
    "fk_devices f = bt_keys (knf_device_to_share_index fin)"
  using assms
  by (auto simp: finalize_keygen_def take_keygen_def result_iff split: option.splits keygen_state.splits)

text \<open>Saving a key cannot fail: its mutations and those of a restoration are always applied.\<close>

definition always_applied :: "coord_mutation \<Rightarrow> bool" where
  "always_applied m \<longleftrightarrow>
     (case m of KeygenMutation (DeleteKey _) \<Rightarrow> False | SigningMutation _ \<Rightarrow> False | _ \<Rightarrow> True)"

lemma always_applied_Ok: "always_applied m \<Longrightarrow> \<exists>co'. coord_mutate E m co = (Ok co' :: ('e, _) result)"
  by (cases m) (auto simp: always_applied_def coord_mutate_def coord_apply_def apply_key_mutation_def
      split: key_mutation.splits prod.splits)

lemma always_applied_all:
  "list_all always_applied ms \<Longrightarrow> \<exists>co'. coord_mutate_all E ms co = (Ok co' :: ('e, _) result)"
proof (induction ms arbitrary: co)
  case (Cons m ms)
  then obtain co1 where "coord_mutate E m co = (Ok co1 :: ('e, _) result)" using always_applied_Ok by fastforce
  then show ?case using Cons by simp
qed simp

lemma mutate_new_key_total:
  "\<exists>asr co' rng'. mutate_new_key E name root indices ek p rng co = (Ok (asr, co', rng') :: ('e, _) result)"
proof -
  have "list_all always_applied (snd (new_key_mutations (ce_crypto E) name root indices ct p co))" for ct
    by (auto simp: new_key_mutations_def Let_def list_all_iff always_applied_def)
  then have "\<exists>co'. coord_mutate_all E (snd (new_key_mutations (ce_crypto E) name root indices ct p co)) co = (Ok co' :: ('e, _) result)"
    for ct
    by (rule always_applied_all)
  then obtain co' where "coord_mutate_all E (snd (new_key_mutations (ce_crypto E) name root indices
      (fst (ct_encrypt (ce_crypto E) ek (shared_public_key root) rng)) p co)) co = (Ok co' :: ('e, _) result)"
    by blast
  then show ?thesis by (simp add: mutate_new_key_def Let_def case_prod_unfold)
qed

definition demo_saved :: "((frost_coordinator \<times> rng) \<times> (action_error, finalized_keygen) result)" where
  "demo_saved = finalize_keygen demo_coord_env demo_kid [4] demo_rng demo_confirmed"

lemma demo_saved_Ok: "\<exists>co' rng' f. demo_saved = ((co', rng'), Ok f)"
proof -
  obtain asr co' rng' where "mutate_new_key demo_coord_env (knf_key_name demo_fin) (knf_root_shared_key demo_fin)
      (knf_device_to_share_index demo_fin) [4] (knf_purpose demo_fin) demo_rng
      (demo_confirmed\<lparr>fc_pending_keygens := bt_remove demo_kid (fc_pending_keygens demo_confirmed)\<rparr>)
    = (Ok (asr, co', rng') :: (action_error, _) result)"
    using mutate_new_key_total by blast
  then show ?thesis
    by (simp add: demo_saved_def finalize_keygen_def take_keygen_def demo_confirmed_pending bt_get_def)
qed

text \<open>What the coordinator recovers of a key that has just been saved.\<close>

lemma new_key_recovered:
  fixes E :: coord_env and root :: shared_key
  assumes C: "crypto_ok (ce_crypto E)" "tweak_constant_term (ce_crypto E)" "root \<noteq> []"
      "valid_point (ce_crypto E) (shared_public_key root)"
    and new: "mutate_new_key E name root indices ek p rng co = (Ok (asr, co', rng') :: ('e, _) result)"
    and "bt_wf indices" "bt_get (fc_keys co) (asr_key_id asr) = None"
  shows "coord_root_shared_key (ce_crypto E) asr ek co' = Some root \<and>
    (\<exists>k. bt_get (fc_keys co') (asr_key_id asr) = Some k \<and>
      (\<forall>d i. bt_get indices d = Some i \<longrightarrow>
         coord_decryption_contrib (ce_crypto E) (cfk_complete_key k) (asr_access_structure_id asr) d ek =
           Some (shared_public_key root, share_decryption_contrib (ce_crypto E) d i root)))"
proof -
  let ?C = "ce_crypto E"
  have h: "key_holds co' asr (rootkey_to_master_appkey ?C (shared_key_tweakable ?C) (xpub_from_rootkey root))
      (fst (ct_encrypt ?C ek (shared_public_key root) rng)) (bt_get indices)"
    using mutate_new_key_holds [OF new assms(6)] assms(7) by auto
  have root: "coord_root_shared_key ?C asr ek co' = Some root" by (rule key_holds_root [OF C h])
  obtain k a where k: "bt_get (fc_keys co') (asr_key_id asr) = Some k"
      "bt_get (ck_access_structures (cfk_complete_key k)) (asr_access_structure_id asr) = Some a"
      "bt_get (cas_device_to_share_index a) = bt_get indices"
    using h by (auto simp: key_holds_def)
  have "complete_root_shared_key ?C (cfk_complete_key k) (asr_access_structure_id asr) ek = Some root"
    using root k(1) by (simp add: coord_root_shared_key_def)
  then show ?thesis using root k by (simp add: coord_decryption_contrib_def)
qed

subsection \<open>The properties\<close>

text \<open>C37. No key generation is ready to be saved before every device that gets a share has
  confirmed it: in every run, each such device has sent an ack with the session hash of the
  certified key generation whose key will be saved, and its share index is the one the
  protocol gave to its public key.\<close>

theorem keygen_unanimous:
  assumes "tx_ops_ok (ce_tx_ops E)" "coord_run E fp received written co"
    and "bt_get (fc_pending_keygens co) kid = Some (NeedsFinalize fin)"
  shows "\<exists>certified. knf_root_shared_key fin = keygen_shared_key (ce_pedpop E) certified \<and>
    (\<forall>d i. bt_get (knf_device_to_share_index fin) d = Some i \<longrightarrow>
       acked E received kid certified d \<and>
       (i, device_pubkey (ce_crypto E) d) \<in> set (keygen_receiver_keys (ce_pedpop E) certified))"
proof -
  have "keygen_state_ok E received kid (NeedsFinalize fin)"
    by (rule keygens_okD [OF coord_run_keygens_ok [OF assms(1,2)] assms(3)])
  then show ?thesis by (simp add: keygen_state_ok_def)
qed

theorem keygen_unanimous_witness:
  "acked demo_coord_env demo_messages demo_kid (2 # replicate 32 7) demo_d"
proof -
  have "bt_get (fc_pending_keygens demo_confirmed) demo_kid = Some (NeedsFinalize demo_fin)"
    by (simp add: demo_confirmed_pending bt_get_def)
  from keygen_unanimous [OF _ demo_confirmed_run this] show ?thesis
    by (auto simp: demo_tx_ops_ok demo_fin_def bt_get_def demo_root_def demo_coord_pedpop_def)
qed

text \<open>Finalizing a key generation saves it: the access structure named by the identifiers
  of its root polynomial exists afterwards, knows each device's share index, and the key
  generation is no longer under way.\<close>

theorem finalize_keygen_saves:
  assumes "tx_ops_ok (ce_tx_ops E)" "coord_run E fp received written co"
    and "bt_get (fc_pending_keygens co) kid = Some (NeedsFinalize fin)"
    and "finalize_keygen E kid ek rng co = ((co', rng'), Ok f)"
  shows "fk_access_structure_ref f = access_structure_ref_of (ce_crypto E) (knf_root_shared_key fin) \<and>
    bt_get (fc_pending_keygens co') kid = None \<and>
    (\<exists>a. lookup_access_structure (fk_access_structure_ref f) co' = Some a \<and>
       (\<forall>d i. bt_get (knf_device_to_share_index fin) d = Some i \<longrightarrow> bt_get (cas_device_to_share_index a) d = Some i))"
proof -
  let ?co = "co\<lparr>fc_pending_keygens := bt_remove kid (fc_pending_keygens co)\<rparr>"
  have new: "mutate_new_key E (knf_key_name fin) (knf_root_shared_key fin) (knf_device_to_share_index fin) ek
      (knf_purpose fin) rng ?co = (Ok (fk_access_structure_ref f, co', rng') :: (action_error, _) result)"
    by (rule finalize_keygen_Ok [OF assms(4)]) (use assms(3) in simp)
  have wf: "bt_wf (knf_device_to_share_index fin)"
    using keygens_okD [OF coord_run_keygens_ok [OF assms(1,2)] assms(3)] by (simp add: keygen_state_ok_def)
  have gone: "bt_get (fc_pending_keygens co') kid = None"
    using steps_pending [OF mutate_new_key_steps [OF new]] by simp
  note saved = mutate_new_key_holds [OF new wf]
  then obtain xk ct g where "key_holds co' (fk_access_structure_ref f) xk ct (g ++ bt_get (knf_device_to_share_index fin))"
    by blast
  then obtain a where "lookup_access_structure (fk_access_structure_ref f) co' = Some a"
      "bt_get (cas_device_to_share_index a) = g ++ bt_get (knf_device_to_share_index fin)"
    by (rule key_holds_lookup)
  then show ?thesis using saved gone by simp
qed

theorem finalize_keygen_saves_witness:
  "\<exists>co' a. lookup_access_structure (access_structure_ref_of demo_crypto demo_root) co' = Some a \<and>
     bt_get (cas_device_to_share_index a) demo_d = Some 1"
proof -
  obtain co' rng' f where ok: "finalize_keygen demo_coord_env demo_kid [4] demo_rng demo_confirmed = ((co', rng'), Ok f)"
    using demo_saved_Ok by (auto simp: demo_saved_def)
  have "bt_get (fc_pending_keygens demo_confirmed) demo_kid = Some (NeedsFinalize demo_fin)"
    by (simp add: demo_confirmed_pending bt_get_def)
  from finalize_keygen_saves [OF _ demo_confirmed_run this ok] obtain a where
    "lookup_access_structure (access_structure_ref_of demo_crypto demo_root) co' = Some a"
    "\<forall>d i. bt_get (knf_device_to_share_index demo_fin) d = Some i \<longrightarrow> bt_get (cas_device_to_share_index a) d = Some i"
    by (auto simp: demo_tx_ops_ok demo_fin_def)
  then show ?thesis by (intro exI [of _ co'] exI [of _ a]) (simp add: demo_fin_def bt_get_def)
qed

text \<open>The root key survives storage: right after a new key is finalized the coordinator
  recovers from the encrypted root key and the application polynomial exactly the root
  polynomial of the key generation, and for each device the contribution to the decryption
  of its share that this polynomial determines.\<close>

theorem root_key_roundtrip:
  assumes "crypto_ok (ce_crypto E)" "tweak_constant_term (ce_crypto E)"
    and "tx_ops_ok (ce_tx_ops E)" "coord_run E fp received written co"
    and "bt_get (fc_pending_keygens co) kid = Some (NeedsFinalize fin)"
    and "knf_root_shared_key fin \<noteq> []" "valid_point (ce_crypto E) (shared_public_key (knf_root_shared_key fin))"
    and "finalize_keygen E kid ek rng co = ((co', rng'), Ok f)"
    and "bt_get (fc_keys co) (asr_key_id (fk_access_structure_ref f)) = None"
  shows "coord_root_shared_key (ce_crypto E) (fk_access_structure_ref f) ek co' = Some (knf_root_shared_key fin) \<and>
    (\<exists>k. bt_get (fc_keys co') (asr_key_id (fk_access_structure_ref f)) = Some k \<and>
      (\<forall>d i. bt_get (knf_device_to_share_index fin) d = Some i \<longrightarrow>
         coord_decryption_contrib (ce_crypto E) (cfk_complete_key k)
           (asr_access_structure_id (fk_access_structure_ref f)) d ek =
         Some (shared_public_key (knf_root_shared_key fin),
           share_decryption_contrib (ce_crypto E) d i (knf_root_shared_key fin))))"
proof -
  let ?co = "co\<lparr>fc_pending_keygens := bt_remove kid (fc_pending_keygens co)\<rparr>"
  have new: "mutate_new_key E (knf_key_name fin) (knf_root_shared_key fin) (knf_device_to_share_index fin) ek
      (knf_purpose fin) rng ?co = (Ok (fk_access_structure_ref f, co', rng') :: (action_error, _) result)"
    by (rule finalize_keygen_Ok [OF assms(8)]) (use assms(5) in simp)
  have wf: "bt_wf (knf_device_to_share_index fin)"
    using keygens_okD [OF coord_run_keygens_ok [OF assms(3,4)] assms(5)] by (simp add: keygen_state_ok_def)
  show ?thesis by (rule new_key_recovered [OF assms(1,2,6,7) new wf]) (use assms(9) in simp)
qed

theorem root_key_roundtrip_witness:
  "\<exists>co'. coord_root_shared_key demo_crypto (access_structure_ref_of demo_crypto demo_root) [4] co' = Some demo_root"
proof -
  obtain co' rng' f where ok: "finalize_keygen demo_coord_env demo_kid [4] demo_rng demo_confirmed = ((co', rng'), Ok f)"
    using demo_saved_Ok by (auto simp: demo_saved_def)
  have fin: "bt_get (fc_pending_keygens demo_confirmed) demo_kid = Some (NeedsFinalize demo_fin)"
    by (simp add: demo_confirmed_pending bt_get_def)
  have asr: "fk_access_structure_ref f = access_structure_ref_of demo_crypto demo_root"
    by (rule finalize_keygen_Ok [OF ok])
      (use fin in \<open>auto simp: mutate_new_key_def new_key_mutations_def Let_def access_structure_ref_of_def
         case_prod_unfold result_iff demo_fin_def\<close>)
  have root: "knf_root_shared_key demo_fin = demo_root" "demo_root \<noteq> []"
      "valid_point demo_crypto (shared_public_key demo_root)" "bt_get (fc_keys demo_confirmed) x = None" for x
    by (simp_all add: demo_fin_def demo_root_def shared_public_key_def demo_crypto_def demo_confirmed_keys)
  show ?thesis
    using root_key_roundtrip [OF _ _ _ demo_confirmed_run fin _ _ ok] asr root
    by (auto simp: demo_crypto_ok demo_tweak_constant_term demo_tx_ops_ok)
qed

end
