(* ===== verification/CoordSigningProps.thy ===== *)
theory CoordSigningProps
  imports CoordKeygenProps
begin

section \<open>Signing on the coordinator\<close>

text \<open>
  What a session is built from, that only verified shares are recorded and only verified
  signatures are given to the user, and what deleting shares and keys does to the sessions.
\<close>

subsection \<open>Starting\<close>

lemma new_progresses_items:
  "new_progresses E k nonces i items rng = (Ok (ps, rng') :: ('e, _) result) \<Longrightarrow> map sp_sign_item ps = items"
proof (induction items arbitrary: i rng ps)
  case (Cons item items)
  obtain indexed where indexed: "nth_nonces i nonces = (Ok indexed :: ('e, _) result)"
    using Cons.prems by (auto simp: result_iff)
  obtain p rng1 where p: "new_session_progress E k item indexed rng = (p, rng1)" by fastforce
  then obtain qs where qs: "new_progresses E k nonces (Suc i) items rng1 = (Ok (qs, rng') :: ('e, _) result)" "ps = p # qs"
    using Cons.prems indexed by (auto simp: result_iff)
  have "sp_sign_item p = item" using p by (auto simp: new_session_progress_def Let_def split: prod.splits)
  then show ?case using Cons.IH [OF qs(1)] qs(2) by simp
qed simp

lemma bt_in_map_values:
  "bt_get (map (\<lambda>(d, sub). (d, f sub)) m) d = Some v \<Longrightarrow> \<exists>sub. (d, sub) \<in> set m \<and> v = f sub"
  unfolding bt_get_map_values using bt_get_in by fastforce

text \<open>The nonces of a device in a session: the first of a cached segment of its own that no
  active session uses.\<close>

definition fresh_nonces ::
  "frost_coordinator \<Rightarrow> nat \<Rightarrow> device_id \<Rightarrow> coord_nonce_state \<Rightarrow> bool" where
  "fresh_nonces co n d ns \<longleftrightarrow>
     (\<exists>seg. cached_segment (fc_nonce_cache co) d (cns_stream_id ns) = Some seg \<and>
        cns_index ns = seg_index seg \<and> n \<le> length (seg_nonces seg) \<and>
        cns_remaining ns = length (seg_nonces seg) - n \<and>
        (\<forall>sid s. bt_get (fc_active_sessions co) sid = Some s \<longrightarrow> cns_stream_id ns \<notin> session_streams s))"

lemma coord_start_sign_Ok:
  assumes "coord_start_sign E asr task devices rng co = ((co', rng'), Ok sid)"
  obtains a items chosen session where "start_sign_checks E asr task devices co = Ok (a, items)"
    "new_signing_session (fc_nonce_cache co) devices (length items) (all_used_nonce_streams co) = Ok chosen"
    "build_session E (asr_key_id asr) (asr_access_structure_id asr) a task items chosen rng
      = (Ok (session, rng') :: (start_sign_error, _) result)"
    "coord_mutate E (SigningMutation (NewSigningSession session)) co = (Ok co' :: (start_sign_error, _) result)"
    "sid = as_session_id E session"
  by (rule coord_start_sign_mutates [OF assms]) (simp, rule that, simp_all)

lemma mutate_signing_Ok:
  assumes "coord_mutate E (SigningMutation k) co = (Ok co' :: ('e, _) result)"
  obtains co1 b where "apply_signing_mutation E k co = (Ok (co1, b) :: ('e, _) result)"
    "co' = (if b then coord_push (SigningMutation k) co1 else co1)"
  using assms by (auto simp: coord_mutate_def coord_apply_def result_iff staged_if_def)

lemma start_sign_session:
  assumes wf: "cache_wf (fc_nonce_cache co)" "bt_wf (fc_active_sessions co)" and ops: "tx_ops_ok (ce_tx_ops E)"
    and ok: "coord_start_sign E asr task devices rng co = ((co', rng'), Ok sid)"
  shows "\<exists>a s. lookup_access_structure asr co = Some a \<and>
    (\<forall>d\<in>set devices. bt_get (cas_device_to_share_index a) d \<noteq> None) \<and>
    shared_threshold (xpub_key (cas_app_shared_key a)) \<le> length devices \<and>
    bt_get (fc_active_sessions co') sid = Some s \<and> as_ref s = asr \<and>
    gsr_sign_task (ss_group_request (as_init s)) = task \<and> as_progress s \<noteq> [] \<and>
    (\<forall>d. d \<in> set devices \<longleftrightarrow> bt_get (ss_nonces (as_init s)) d \<noteq> None) \<and>
    (\<forall>d ns. bt_get (ss_nonces (as_init s)) d = Some ns \<longrightarrow> fresh_nonces co (length (as_progress s)) d ns)"
proof -
  obtain a items chosen s where s: "start_sign_checks E asr task devices co = Ok (a, items)"
    "new_signing_session (fc_nonce_cache co) devices (length items) (all_used_nonce_streams co) = Ok chosen"
    "build_session E (asr_key_id asr) (asr_access_structure_id asr) a task items chosen rng
      = (Ok (s, rng') :: (start_sign_error, _) result)"
    "coord_mutate E (SigningMutation (NewSigningSession s)) co = (Ok co' :: (start_sign_error, _) result)"
    "sid = as_session_id E s"
    by (rule coord_start_sign_Ok [OF ok])
  obtain k :: coord_frost_key and checked threshold where c: "lookup_access_structure asr co = Some a"
      "list_all (\<lambda>d. bt_get (cas_device_to_share_index a) d \<noteq> None) devices"
      "cas_threshold a = (Ok threshold :: (start_sign_error, _) result)" "threshold \<le> length devices"
      "check_sign_task (ce_crypto E) (ce_tx_ops E) task (ck_master_appkey (cfk_complete_key k)) (cfk_purpose k) = Ok checked"
      "items = sign_items (ce_crypto E) (ce_tx_ops E) checked"
    by (rule start_sign_checks_Ok [OF s(1)]) (rule that, assumption+)
  obtain ps sessions where built: "new_progresses E (cas_app_shared_key a) (bt_of_list ps) 0 items rng
      = (Ok (sessions, rng') :: (start_sign_error, _) result)" "as_progress s = sessions"
      "ss_nonces (as_init s) = map (\<lambda>(d, sub). (d, coord_nonce_state_of sub)) chosen"
      "as_ref s = asr" "gsr_sign_task (ss_group_request (as_init s)) = task"
    by (rule build_session_Ok [OF s(3)]) (simp add: as_ref_def)
  have items: "map sp_sign_item (as_progress s) = items" using new_progresses_items [OF built(1)] built(2) by simp
  then have len: "length (as_progress s) = length items" by auto
  have "bt_get (fc_active_sessions co') sid = Some s"
    by (rule mutate_signing_Ok [OF s(4)]) (use s(5) in \<open>auto simp: apply_signing_mutation_def\<close>)
  moreover have "shared_threshold (xpub_key (cas_app_shared_key a)) \<le> length devices"
    using c(3,4) by (auto simp: cas_threshold_def u16_try_from_def split: if_splits)
  moreover have "as_progress s \<noteq> []" using items c(6) sign_items_nonempty [OF ops c(5)] by auto
  moreover have "d \<in> set devices \<longleftrightarrow> bt_get (ss_nonces (as_init s)) d \<noteq> None" for d
    using new_signing_session_keys [OF s(2)] by (auto simp: built(3) bt_get_map_values)
  moreover have "fresh_nonces co (length (as_progress s)) d ns" if got: "bt_get (ss_nonces (as_init s)) d = Some ns" for d ns
  proof -
    obtain sub where sub: "(d, sub) \<in> set chosen" "ns = coord_nonce_state_of sub"
      using bt_in_map_values [OF got [unfolded built(3)]] by blast
    obtain seg where seg: "cached_segment (fc_nonce_cache co) d (seg_stream_id seg) = Some seg"
        "seg_stream_id seg \<notin> set (all_used_nonce_streams co)" "length items \<le> length (seg_nonces seg)"
        "sub = first_nonces (length items) seg"
      by (rule new_signing_session_cached [OF wf(1) s(2) sub(1)])
    then show ?thesis
      unfolding fresh_nonces_def sub(2) len using all_used_streams [OF wf(2)] by auto
  qed
  moreover have "\<forall>d\<in>set devices. bt_get (cas_device_to_share_index a) d \<noteq> None"
    using c(2) by (simp add: list_all_iff)
  ultimately show ?thesis using c(1) built(4,5) by blast
qed

subsection \<open>Signature shares\<close>

text \<open>A device's shares are good for a session: it holds the share of one of the parties, sent
  one share for each item, and each verifies under the key of the item.\<close>

definition shares_good ::
  "coord_env \<Rightarrow> frost_coordinator \<Rightarrow> device_id \<Rightarrow> active_session \<Rightarrow> sig_share list \<Rightarrow> bool" where
  "shares_good E co d s shares \<longleftrightarrow>
     (\<exists>a i. lookup_access_structure (as_ref s) co = Some a \<and> bt_get (cas_device_to_share_index a) d = Some i \<and>
        length shares = length (as_progress s) \<and>
        (\<forall>k<length shares. i \<in> set (session_parties (ce_sessions E) (sp_session (as_progress s ! k))) \<and>
           progress_accepts E i (as_progress s ! k) (shares ! k)))"

lemma check_signature_shares_Ok:
  "check_signature_shares E i ps ss = Ok () \<Longrightarrow> length ss = length ps \<Longrightarrow> k < length ss \<Longrightarrow>
   i \<in> set (session_parties (ce_sessions E) (sp_session (ps ! k))) \<and> progress_accepts E i (ps ! k) (ss ! k)"
proof (induction E i ps ss arbitrary: k rule: check_signature_shares.induct)
  case (1 E i p ps s ss)
  then show ?case by (cases k) (auto split: if_splits)
qed simp_all

lemma signature_share_checks_Ok:
  assumes "signature_share_checks E d sid shares co = Ok ()"
  obtains s where "bt_get (fc_active_sessions co) sid = Some s" "shares_good E co d s shares"
  using assms
  by (auto simp: signature_share_checks_def result_iff shares_good_def check_signature_shares_Ok split: if_splits)

text \<open>Applying a mutation may panic but never returns an error.\<close>

lemma and_then_Err_iff: "and_then r f = Err e \<longleftrightarrow> r = Err e \<or> (\<exists>a. r = Ok a \<and> f a = Err e)"
  by (cases r) auto

lemma expect_not_Err: "expect m x \<noteq> Err e"
  by (cases x) simp_all

lemma consume_not_Err: "consume c d sid k \<noteq> Err e"
  by (simp add: consume_def Let_def split: option.split prod.split)

lemma consume_sent_not_Err: "consume_sent sent n nonces c \<noteq> Err e"
proof (induction nonces arbitrary: c)
  case (Cons p nonces)
  then show ?case
    by (cases p) (auto simp: and_then_Err_iff expect_not_Err consume_not_Err split: prod.splits)
qed simp

lemma close_sign_session_not_Err: "close_sign_session sid fin co \<noteq> Err e"
  by (auto simp: close_sign_session_def expect_not_Err consume_sent_not_Err and_then_Err_iff)

lemma close_sign_sessions_not_Err: "close_sign_sessions sids co \<noteq> Err e"
  by (induction sids arbitrary: co) (auto simp: close_sign_session_not_Err and_then_Err_iff)

lemma coord_apply_not_Err: "coord_apply E m co \<noteq> Err e"
  unfolding coord_apply_def apply_key_mutation_def apply_signing_mutation_def apply_delete_key_def
    apply_new_nonces_def Let_def
  by (auto simp: and_then_Err_iff close_sign_sessions_not_Err close_sign_session_not_Err
      split: coord_mutation.split key_mutation.split signing_mutation.split prod.split option.split result.split)

lemma coord_mutate_not_Err: "coord_mutate E m co \<noteq> Err e"
  by (auto simp: coord_mutate_def coord_apply_not_Err and_then_Err_iff)

lemma coord_mutate_all_not_Err: "coord_mutate_all E ms co \<noteq> Err e"
  by (induction ms arbitrary: co) (auto simp: coord_mutate_not_Err and_then_Err_iff)

lemma combine_signatures_not_Err: "combine_signatures E ps \<noteq> Err e"
  by (induction ps) (auto simp: Let_def and_then_Err_iff)

lemma complete_not_Err: "complete_sign_session E sid co \<noteq> Err e"
  by (auto simp: complete_sign_session_def combine_signatures_not_Err coord_mutate_not_Err
      and_then_Err_iff split: option.split)

lemma handle_shares_Err:
  assumes "handle_signature_shares E d sid shares replenish co = (co', Err e)"
  shows "co' = co \<and> signature_share_checks E d sid shares co = Err e"
proof (cases "signature_share_checks E d sid shares co")
  case (Ok u)
  let ?ms = "SigningMutation (GotSignatureShares sid d shares) #
      (case replenish of None \<Rightarrow> [] | Some segment \<Rightarrow> [SigningMutation (NewNonces d segment)])"
  have False
  proof (cases "coord_mutate_all E ?ms co :: (core_error, _) result")
    case (Ok co1)
    then show False
      using assms \<open>signature_share_checks E d sid shares co = Ok u\<close>
      by (cases "complete_sign_session E sid co1 :: (core_error, _) result")
        (auto simp: handle_signature_shares_def complete_not_Err split: prod.splits simp del: coord_mutate_all.simps)
  qed (use assms Ok in \<open>auto simp: handle_signature_shares_def coord_mutate_all_not_Err simp del: coord_mutate_all.simps\<close>)
  then show ?thesis ..
qed (use assms in \<open>auto simp: handle_signature_shares_def\<close>)

lemma handle_shares_Ok:
  assumes "handle_signature_shares E d sid shares replenish co = (co', Ok sends)"
  obtains s co1 finished where "bt_get (fc_active_sessions co) sid = Some s" "shares_good E co d s shares"
    "coord_mutate_all E (SigningMutation (GotSignatureShares sid d shares) #
       (case replenish of None \<Rightarrow> [] | Some segment \<Rightarrow> [SigningMutation (NewNonces d segment)])) co
     = (Ok co1 :: (core_error, _) result)"
    "complete_sign_session E sid co1 = (Ok (co', finished) :: (core_error, _) result)"
    "sends = CoordToUser (UserSigning (GotShare sid d)) #
       (case finished of None \<Rightarrow> [] | Some signatures \<Rightarrow> [CoordToUser (UserSigning (Signed sid signatures))])"
proof -
  let ?ms = "SigningMutation (GotSignatureShares sid d shares) #
      (case replenish of None \<Rightarrow> [] | Some segment \<Rightarrow> [SigningMutation (NewNonces d segment)])"
  obtain co1 r where "signature_share_checks E d sid shares co = Ok ()"
      "coord_mutate_all E ?ms co = (Ok co1 :: (core_error, _) result)"
      "complete_sign_session E sid co1 = (Ok r :: (core_error, _) result)"
      "(case r of (co, finished) \<Rightarrow> (co, Ok (CoordToUser (UserSigning (GotShare sid d)) #
          (case finished of None \<Rightarrow> [] | Some signatures \<Rightarrow> [CoordToUser (UserSigning (Signed sid signatures))]))
          :: (core_error, _) result)) = (co', Ok sends)"
    using assms unfolding handle_signature_shares_def or_return_Ok_iff by auto
  then show ?thesis
    by (elim signature_share_checks_Ok) (auto split: prod.splits intro: that simp del: coord_mutate_all.simps)
qed

lemma combine_signatures_Ok:
  "combine_signatures E ps = (Ok sigs :: ('e, _) result) \<Longrightarrow> list_all2 (progress_verify_final E) ps sigs"
  by (induction ps arbitrary: sigs) (auto simp: Let_def result_iff split: if_splits)

lemma complete_sign_session_Some:
  assumes "complete_sign_session E sid co = (Ok (co', Some signatures) :: ('e, _) result)"
    and order: "sid \<in> set (fc_session_order co)"
  obtains s where "bt_get (fc_active_sessions co) sid = Some s"
    "list_all2 (progress_verify_final E) (as_progress s) signatures"
    "bt_get (fc_active_sessions co') sid = None"
    "bt_get (fc_finished_sessions co') sid = Some \<lparr>fin_init = as_init s, fin_signatures = signatures, fin_key_id = as_key_id s\<rparr>"
proof -
  obtain s where s: "bt_get (fc_active_sessions co) sid = Some s"
      "combine_signatures E (as_progress s) = (Ok signatures :: ('e, _) result)"
      "coord_mutate E (SigningMutation (CloseSignSession sid (Some signatures))) co = (Ok co' :: ('e, _) result)"
    using assms(1) by (auto simp: complete_sign_session_def result_iff split: option.splits if_splits)
  obtain co1 b where c: "apply_signing_mutation E (CloseSignSession sid (Some signatures)) co = (Ok (co1, b) :: ('e, _) result)"
      "co' = (if b then coord_push (SigningMutation (CloseSignSession sid (Some signatures))) co1 else co1)"
    by (rule mutate_signing_Ok [OF s(3)])
  have close: "bt_get (fc_active_sessions co1) sid = None \<and> bt_get (fc_finished_sessions co1) sid =
      Some \<lparr>fin_init = as_init s, fin_signatures = signatures, fin_key_id = as_key_id s\<rparr>"
    using c(1) s(1) order by (auto simp: apply_signing_mutation_def close_sign_session_def result_iff)
  show ?thesis by (rule that [OF s(1) combine_signatures_Ok [OF s(2)]]) (use close c(2) in auto)
qed

subsection \<open>Deleting\<close>

lemma close_sign_session_active:
  assumes "close_sign_session sid fin co = (Ok (co', b) :: ('e, _) result)" "sid \<in> set (fc_session_order co)"
  shows "bt_get (fc_active_sessions co') x = (if x = sid then None else bt_get (fc_active_sessions co) x) \<and>
    fc_session_order co' = remove1 sid (fc_session_order co) \<and> fc_keys co' = fc_keys co"
  using assms by (auto simp: close_sign_session_def result_iff)

lemma close_sign_sessions_active:
  "close_sign_sessions sids co = (Ok co' :: ('e, _) result) \<Longrightarrow> distinct sids \<Longrightarrow>
   set sids \<subseteq> set (fc_session_order co) \<Longrightarrow>
   bt_get (fc_active_sessions co') x = (if x \<in> set sids then None else bt_get (fc_active_sessions co) x) \<and>
   fc_keys co' = fc_keys co"
proof (induction sids arbitrary: co)
  case (Cons sid sids)
  from Cons.prems(1) obtain co1 b where co1: "close_sign_session sid None co = (Ok (co1, b) :: ('e, _) result)"
      "close_sign_sessions sids co1 = (Ok co' :: ('e, _) result)"
    by (rule close_sign_sessions_ConsE)
  have one: "bt_get (fc_active_sessions co1) x = (if x = sid then None else bt_get (fc_active_sessions co) x)"
      "fc_session_order co1 = remove1 sid (fc_session_order co)" "fc_keys co1 = fc_keys co"
    using close_sign_session_active [OF co1(1), of x] Cons.prems(3) by auto
  have "set sids \<subseteq> set (fc_session_order co1)"
  proof
    fix y assume "y \<in> set sids"
    then show "y \<in> set (fc_session_order co1)"
      using Cons.prems(2,3) by (cases "y = sid") (auto simp: one(2) in_set_remove1)
  qed
  then show ?case using Cons.IH [OF co1(2)] Cons.prems(2) one by auto
qed simp

lemma sessions_of_key_iff:
  assumes "bt_wf (fc_active_sessions co)"
  shows "sid \<in> set (sessions_of_key kid co) \<longleftrightarrow> (\<exists>s. bt_get (fc_active_sessions co) sid = Some s \<and> as_key_id s = kid)"
    and "distinct (sessions_of_key kid co)"
proof -
  show "sid \<in> set (sessions_of_key kid co) \<longleftrightarrow> (\<exists>s. bt_get (fc_active_sessions co) sid = Some s \<and> as_key_id s = kid)"
    using bt_in_iff [OF assms] by (force simp: sessions_of_key_def image_iff)
  have "distinct (map fst (fc_active_sessions co))"
    using assms bs_wf_distinct by (force simp: bt_wf_iff_keys bt_keys_def)
  then show "distinct (sessions_of_key kid co)" by (simp add: sessions_of_key_def distinct_map_filter)
qed

lemma lookup_push [simp]: "lookup_access_structure asr (coord_push m co) = lookup_access_structure asr co"
  by (simp add: lookup_access_structure_def)

lemma lookup_update:
  "lookup_access_structure asr' (update_access_structure asr f co) =
     (if asr' = asr then map_option f (lookup_access_structure asr co) else lookup_access_structure asr' co)"
proof (cases "bt_get (fc_keys co) (asr_key_id asr)")
  case (Some k)
  then show ?thesis
    by (cases asr; cases asr') (auto simp: lookup_access_structure_def update_access_structure_def)
qed (cases asr; cases asr'; auto simp: lookup_access_structure_def update_access_structure_def)

lemma coord_delete_key_effect:
  assumes wf: "coord_sessions_wf E co" and del: "coord_delete_key E kid co = (Ok co' :: ('e, _) result)"
  shows "bt_get (fc_keys co') k = (if k = kid then None else bt_get (fc_keys co) k) \<and>
    (bt_get (fc_active_sessions co') sid = Some s \<longleftrightarrow>
       bt_get (fc_active_sessions co) sid = Some s \<and> as_key_id s \<noteq> kid)"
proof (cases "bt_get (fc_keys co) kid")
  case None
  have "as_key_id s \<noteq> kid" if "bt_get (fc_active_sessions co) sid = Some s"
    using coord_sessionsD(6) [OF wf that] None by (auto simp: lookup_access_structure_def as_ref_def)
  then show ?thesis using del None by (auto simp: coord_delete_key_def)
next
  case (Some key)
  let ?co = "co\<lparr>fc_keys := bt_remove kid (fc_keys co), fc_key_order := filter (\<lambda>k. k \<noteq> kid) (fc_key_order co),
      fc_restoration := clear_up_key_deletion kid (fc_restoration co)\<rparr>"
  have "coord_mutate E (KeygenMutation (DeleteKey kid)) co = (Ok co' :: ('e, _) result)"
    using del Some by (simp add: coord_delete_key_def)
  then obtain co1 where co1: "close_sign_sessions (sessions_of_key kid ?co) ?co = (Ok co1 :: ('e, _) result)"
      "co' = coord_push (KeygenMutation (DeleteKey kid)) co1"
    using Some by (auto simp: mutate_keygen_Ok apply_key_mutation_def apply_delete_key_def Let_def result_iff)
  have act: "bt_wf (fc_active_sessions ?co)" using coord_sessionsD(1) [OF wf] by simp
  have "set (sessions_of_key kid ?co) \<subseteq> set (fc_session_order ?co)"
    using sessions_of_key_iff(1) [OF act] coord_sessionsD(3) [OF wf] btree.key_list_dom by fastforce
  from close_sign_sessions_active [OF co1(1) sessions_of_key_iff(2) [OF act] this, of sid]
  show ?thesis using sessions_of_key_iff(1) [OF act] co1(2) by (auto split: if_splits)
qed

subsection \<open>A concrete session\<close>

abbreviation (input) demo_asr :: access_structure_ref where
  "demo_asr \<equiv> access_structure_ref_of demo_crypto demo_root"

definition demo_app_key :: "shared_key xpub" where
  "demo_app_key = rootkey_to_master_appkey demo_crypto (shared_key_tweakable demo_crypto) (xpub_from_rootkey demo_root)"

definition demo_structure :: coord_access_structure where
  "demo_structure = \<lparr>cas_app_shared_key = demo_app_key, cas_device_to_share_index = [(demo_d, 1)], cas_kind = Master\<rparr>"

definition demo_key_co :: frost_coordinator where
  "demo_key_co = fst (fst demo_saved)"

definition demo_complete_key :: complete_key where
  "demo_complete_key =
     \<lparr>ck_master_appkey = from_xpub_unchecked (shared_key_tweakable demo_crypto) demo_app_key,
      ck_encrypted_rootkey = fst (ct_encrypt demo_crypto [4] (shared_public_key demo_root) demo_rng),
      ck_access_structures = [(asr_access_structure_id demo_asr, demo_structure)]\<rparr>"

lemma demo_asr_eq:
  "key_id_of_master_appkey demo_crypto (from_xpub_unchecked (shared_key_tweakable demo_crypto) demo_app_key) = asr_key_id demo_asr"
  "access_structure_id_of demo_crypto (xpub_key demo_app_key) = asr_access_structure_id demo_asr"
  by (simp_all add: access_structure_ref_of_def Let_def demo_app_key_def)

lemma demo_key_co_eq:
  "fc_keys demo_key_co = [(asr_key_id demo_asr, \<lparr>cfk_key_id = asr_key_id demo_asr,
     cfk_complete_key = demo_complete_key, cfk_key_name = ''k'', cfk_purpose = PurposeTest\<rparr>)]"
  "fc_nonce_cache demo_key_co = empty_nonce_cache" "fc_active_sessions demo_key_co = []"
  "fc_session_order demo_key_co = []"
  by (simp_all add: demo_key_co_def demo_saved_def finalize_keygen_def take_keygen_def demo_confirmed_pending
      demo_confirmed_keys bt_get_def demo_fin_def mutate_new_key_def new_key_mutations_def Let_def
      demo_app_key_def [symmetric] demo_asr_eq case_prod_unfold mutate_keygen_eq apply_key_mutation_def
      ensure_key_def apply_new_access_structure_def apply_new_share_def lookup_access_structure_def
      update_access_structure_def bt_modify_def demo_complete_key_def demo_structure_def)

definition demo_seg :: "byte \<Rightarrow> nonce_segment" where
  "demo_seg n = \<lparr>seg_stream_id = NonceStreamId [n], seg_nonces = [[9], [9]], seg_index = 0\<rparr>"

definition demo_nonces :: device_to_coordinator where
  "demo_nonces = DeviceSigning (NonceResponse [demo_seg 1, demo_seg 2])"

definition demo_ready :: frost_coordinator where
  "demo_ready = fst (recv_device_message demo_coord_env demo_d demo_nonces demo_key_co)"

abbreviation (input) demo_cache1 :: nonce_cache where
  "demo_cache1 \<equiv> \<lparr>by_device = [(demo_d, [(NonceStreamId [1], demo_seg 1)])]\<rparr>"

definition demo_cache2 :: nonce_cache where
  "demo_cache2 = \<lparr>by_device = [(demo_d, [(NonceStreamId [1], demo_seg 1), (NonceStreamId [2], demo_seg 2)])]\<rparr>"

lemma demo_ready_eq:
  "fc_keys demo_ready = fc_keys demo_key_co" "fc_active_sessions demo_ready = []" "fc_session_order demo_ready = []"
  "fc_nonce_cache demo_ready = demo_cache2"
proof -
  have ext: "extend_segment empty_nonce_cache demo_d (demo_seg 1) = (demo_cache1, Ok True)"
    "extend_segment demo_cache1 demo_d (demo_seg 2) = (demo_cache2, Ok True)"
    by (simp_all add: extend_segment_def Let_def cached_or_empty_def cached_segment_def device_streams_def demo_cache2_def
        empty_nonce_cache_def demo_seg_def segment_extend_def extend_aux_def put_segment_def bt_get_def
        index_after_last_def u32_simps less_nonce_stream_id_def)
  have check: "cache_check_can_extend empty_nonce_cache demo_d (demo_seg 1) = Ok ()"
    "cache_check_can_extend demo_cache1 demo_d (demo_seg 2) = Ok ()"
    by (simp_all add: cache_check_can_extend_def cached_segment_def device_streams_def empty_nonce_cache_def
        bt_get_def demo_seg_def)
  show "fc_keys demo_ready = fc_keys demo_key_co" "fc_active_sessions demo_ready = []" "fc_session_order demo_ready = []"
    "fc_nonce_cache demo_ready = demo_cache2"
    by (simp_all add: demo_ready_def demo_nonces_def recv_device_message_def handle_nonce_response_def demo_key_co_eq(2-) check
        coord_mutate_def coord_apply_def apply_signing_mutation_def apply_new_nonces_def ext staged_if_def)
qed

definition demo_item :: "string \<Rightarrow> sign_item" where
  "demo_item m = \<lparr>item_message = string_bytes m, item_tweak = TestMessage\<rparr>"

definition demo_session :: "string \<Rightarrow> byte \<Rightarrow> active_session" where
  "demo_session m n =
     \<lparr>as_progress = [\<lparr>sp_sign_item = demo_item m, sp_session = [1], sp_signature_shares = [],
        sp_app_shared_key = demo_app_key\<rparr>],
      as_init = \<lparr>ss_nonces = [(demo_d, \<lparr>cns_stream_id = NonceStreamId [n], cns_index = 0, cns_remaining = 1\<rparr>)],
        ss_group_request = \<lparr>gsr_parties = [1], gsr_agg_nonces = [[]], gsr_sign_task = WireTest m,
          gsr_access_structure_id = asr_access_structure_id demo_asr\<rparr>\<rparr>,
      as_key_id = asr_key_id demo_asr, as_sent_req = []\<rparr>"

lemma demo_threshold: "cas_threshold demo_structure = Ok 1"
proof -
  have "xpub_key demo_app_key \<noteq> [] \<and> tl (xpub_key demo_app_key) = []"
    using derive_constant_term [OF demo_tweak_constant_term, of "xpub_from_rootkey demo_root" "[0]"]
    by (simp add: demo_app_key_def rootkey_to_master_appkey_def xpub_from_rootkey_def demo_root_def)
  then have "length (xpub_key demo_app_key) = 1" by (cases "xpub_key demo_app_key") auto
  then show ?thesis by (simp add: cas_threshold_def demo_structure_def shared_threshold_def u16_try_from_def)
qed

text \<open>A test message signed with the nonces of the stream \<open>n\<close>, where that is the one picked.\<close>

lemma demo_start:
  assumes keys: "fc_keys co = fc_keys demo_key_co"
    and picks: "new_signing_session (fc_nonce_cache co) [demo_d] 1 (all_used_nonce_streams co) =
      Ok [(demo_d, first_nonces 1 (demo_seg n))]"
  shows "\<exists>co'. coord_start_sign demo_coord_env demo_asr (WireTest m) [demo_d] demo_rng co =
       ((co', demo_rng), Ok (SignSessionId (string_bytes m))) \<and>
     fc_active_sessions co' = bt_insert (SignSessionId (string_bytes m)) (demo_session m n) (fc_active_sessions co) \<and>
     fc_session_order co' = fc_session_order co @ [SignSessionId (string_bytes m)] \<and>
     fc_keys co' = fc_keys co \<and> fc_nonce_cache co' = fc_nonce_cache co"
proof -
  have checks: "start_sign_checks demo_coord_env demo_asr (WireTest m) [demo_d] co = Ok (demo_structure, [demo_item m])"
    by (simp add: start_sign_checks_def Let_def keys demo_key_co_eq demo_complete_key_def bt_get_def demo_item_def
        demo_structure_def [THEN arg_cong, of cas_device_to_share_index] demo_threshold check_sign_task_def sign_items_def)
  have built: "build_session demo_coord_env (asr_key_id demo_asr) (asr_access_structure_id demo_asr) demo_structure
      (WireTest m) [demo_item m] [(demo_d, first_nonces 1 (demo_seg n))] demo_rng
    = (Ok (demo_session m n, demo_rng) :: (start_sign_error, _) result)"
    by (simp add: build_session_def Let_def demo_structure_def bt_get_def bt_of_list_def new_session_progress_def
        demo_sessions_def first_nonces_def demo_seg_def demo_session_def bt_keys_def coord_nonce_state_of_def)
  have sid: "as_session_id demo_coord_env (demo_session m n) = SignSessionId (string_bytes m)"
    by (simp add: as_session_id_def session_id_of_def demo_coord_env_def demo_crypto_def demo_session_def)
  show ?thesis
    by (simp add: coord_start_sign_def checks picks [unfolded One_nat_def] built [unfolded One_nat_def]
        coord_mutate_def coord_apply_def apply_signing_mutation_def staged_if_def sid)
qed

definition demo_signing :: frost_coordinator where
  "demo_signing = fst (fst (coord_start_sign demo_coord_env demo_asr (WireTest ''hi'') [demo_d] demo_rng demo_ready))"

definition demo_signing2 :: frost_coordinator where
  "demo_signing2 = fst (fst (coord_start_sign demo_coord_env demo_asr (WireTest ''ho'') [demo_d] demo_rng demo_signing))"

abbreviation (input) demo_sid :: sign_session_id where
  "demo_sid \<equiv> SignSessionId (string_bytes ''hi'')"

abbreviation (input) demo_sid2 :: sign_session_id where
  "demo_sid2 \<equiv> SignSessionId (string_bytes ''ho'')"

lemma demo_signing_eq:
  "coord_start_sign demo_coord_env demo_asr (WireTest ''hi'') [demo_d] demo_rng demo_ready = ((demo_signing, demo_rng), Ok demo_sid)"
  "fc_active_sessions demo_signing = [(demo_sid, demo_session ''hi'' 1)]" "fc_session_order demo_signing = [demo_sid]"
  "fc_keys demo_signing = fc_keys demo_key_co" "fc_nonce_cache demo_signing = demo_cache2"
proof -
  have "new_signing_session (fc_nonce_cache demo_ready) [demo_d] 1 (all_used_nonce_streams demo_ready) =
      Ok [(demo_d, first_nonces 1 (demo_seg 1))]"
    by (simp add: new_signing_session_def demo_ready_eq device_streams_def bt_get_def all_used_nonce_streams_def demo_cache2_def
        index_after_last_def signing_req_sub_segment_def first_nonces_def demo_seg_def u32_simps bt_values_def bs_of_list_def)
  from demo_start [OF demo_ready_eq(1) this, of "''hi''"]
  show "coord_start_sign demo_coord_env demo_asr (WireTest ''hi'') [demo_d] demo_rng demo_ready = ((demo_signing, demo_rng), Ok demo_sid)"
    "fc_active_sessions demo_signing = [(demo_sid, demo_session ''hi'' 1)]" "fc_session_order demo_signing = [demo_sid]"
    "fc_keys demo_signing = fc_keys demo_key_co" "fc_nonce_cache demo_signing = demo_cache2"
    by (auto simp: demo_signing_def demo_ready_eq)
qed

lemma demo_sids: "string_bytes ''hi'' \<noteq> string_bytes ''ho''"
  by (simp add: string_bytes_def)

lemma demo_signing2_eq:
  "coord_start_sign demo_coord_env demo_asr (WireTest ''ho'') [demo_d] demo_rng demo_signing = ((demo_signing2, demo_rng), Ok demo_sid2)"
  "bt_get (fc_active_sessions demo_signing2) demo_sid = Some (demo_session ''hi'' 1)"
  "bt_get (fc_active_sessions demo_signing2) demo_sid2 = Some (demo_session ''ho'' 2)"
proof -
  have "new_signing_session (fc_nonce_cache demo_signing) [demo_d] 1 (all_used_nonce_streams demo_signing) =
      Ok [(demo_d, first_nonces 1 (demo_seg 2))]"
    by (simp add: new_signing_session_def demo_signing_eq device_streams_def bt_get_def all_used_nonce_streams_def demo_cache2_def
        index_after_last_def signing_req_sub_segment_def first_nonces_def demo_seg_def u32_simps bt_values_def bs_of_list_def
        demo_session_def)
  from demo_start [OF demo_signing_eq(4) this, of "''ho''"]
  show "coord_start_sign demo_coord_env demo_asr (WireTest ''ho'') [demo_d] demo_rng demo_signing = ((demo_signing2, demo_rng), Ok demo_sid2)"
    "bt_get (fc_active_sessions demo_signing2) demo_sid = Some (demo_session ''hi'' 1)"
    "bt_get (fc_active_sessions demo_signing2) demo_sid2 = Some (demo_session ''ho'' 2)"
    using demo_sids by (auto simp: demo_signing2_def demo_signing_eq bt_get_def)
qed

lemma demo_key_run: "coord_run demo_coord_env [] demo_messages [] demo_key_co"
  unfolding demo_key_co_def demo_saved_def
  by (rule run_op [OF demo_confirmed_run]) (rule op_finalize_keygen)

lemma demo_ready_run: "coord_run demo_coord_env [] (demo_messages @ [(demo_d, demo_nonces)]) [] demo_ready"
  unfolding demo_ready_def by (rule run_message [OF demo_key_run])

lemma demo_signing_run: "coord_run demo_coord_env [] (demo_messages @ [(demo_d, demo_nonces)]) [] demo_signing"
  by (rule run_op [OF demo_ready_run], rule op_start_sign [OF demo_signing_eq(1)]) (simp add: demo_ready_eq)

lemma demo_signing2_run: "coord_run demo_coord_env [] (demo_messages @ [(demo_d, demo_nonces)]) [] demo_signing2"
  by (rule run_op [OF demo_signing_run], rule op_start_sign [OF demo_signing2_eq(1)])
    (use demo_sids in \<open>auto simp: demo_signing_eq bt_get_def\<close>)

subsection \<open>What the shares leave unchanged\<close>

lemma record_shares_verify:
  "list_all2 (progress_verify_final E) (record_shares d ps ss) sigs = list_all2 (progress_verify_final E) ps sigs"
proof (induction d ps ss arbitrary: sigs rule: record_shares.induct)
  case (1 d p ps s ss)
  then show ?case by (cases sigs) (simp_all add: progress_verify_final_def)
qed simp_all

lemma got_shares_session:
  assumes "coord_mutate E (SigningMutation (GotSignatureShares sid d shares)) co = (Ok co1 :: ('e, _) result)"
    and "bt_get (fc_active_sessions co) sid = Some s"
  shows "bt_get (fc_active_sessions co1) sid = Some (s\<lparr>as_progress := record_shares d (as_progress s) shares\<rparr>) \<and>
    fc_session_order co1 = fc_session_order co"
  by (rule mutate_signing_Ok [OF assms(1)]) (use assms(2) in \<open>auto simp: apply_signing_mutation_def\<close>)

lemma new_nonces_sessions:
  assumes "coord_mutate E (SigningMutation (NewNonces d seg)) co = (Ok co1 :: ('e, _) result)"
  shows "fc_active_sessions co1 = fc_active_sessions co \<and> fc_session_order co1 = fc_session_order co"
  by (rule mutate_signing_Ok [OF assms])
    (auto simp: apply_signing_mutation_def apply_new_nonces_def split: prod.splits result.splits)

lemma recorded_session:
  assumes "coord_mutate_all E (SigningMutation (GotSignatureShares sid d shares) #
       (case replenish of None \<Rightarrow> [] | Some segment \<Rightarrow> [SigningMutation (NewNonces d segment)])) co
     = (Ok co1 :: ('e, _) result)"
    and "bt_get (fc_active_sessions co) sid = Some s"
  shows "bt_get (fc_active_sessions co1) sid = Some (s\<lparr>as_progress := record_shares d (as_progress s) shares\<rparr>) \<and>
    fc_session_order co1 = fc_session_order co"
proof -
  obtain co2 where co2: "coord_mutate E (SigningMutation (GotSignatureShares sid d shares)) co = (Ok co2 :: ('e, _) result)"
      "coord_mutate_all E (case replenish of None \<Rightarrow> [] | Some segment \<Rightarrow> [SigningMutation (NewNonces d segment)]) co2
     = (Ok co1 :: ('e, _) result)"
    using assms(1) by (auto simp: result_iff)
  note got = got_shares_session [OF co2(1) assms(2)]
  show ?thesis
  proof (cases replenish)
    case None
    then show ?thesis using co2(2) got by simp
  next
    case (Some segment)
    then have "coord_mutate E (SigningMutation (NewNonces d segment)) co2 = (Ok co1 :: ('e, _) result)"
      using co2(2) by (auto simp: result_iff)
    from new_nonces_sessions [OF this] got show ?thesis by simp
  qed
qed

subsection \<open>The properties\<close>

lemma coord_run_wf:
  assumes "tx_ops_ok (ce_tx_ops E)" "coord_run E fp received written co"
  shows "coord_sessions_wf E co" "coord_keys_wf (ce_crypto E) co" "coord_restorations_wf E co" "cache_wf (fc_nonce_cache co)"
  using coord_run_good [OF assms] by (simp_all add: coord_good_def coord_wf_def)

lemma ordered_entries:
  fixes m :: "('k::linorder, 'v) btree"
  assumes "set order = set (bt_keys m)" "\<And>k v. bt_get m k = Some v \<Longrightarrow> f v = k"
  obtains vs where "collect_results (map (\<lambda>k. expect msg (bt_get m k)) order) = (Ok vs :: ('e, _) result)"
    "map f vs = order" "\<forall>v\<in>set vs. \<exists>k. bt_get m k = Some v"
proof -
  have "\<forall>k\<in>set order. \<exists>v. bt_get m k = Some v" using assms(1) btree.key_list_dom [of _ m] by simp
  then have "\<exists>vs. collect_results (map (\<lambda>k. expect msg (bt_get m k)) order) = (Ok vs :: ('e, _) result) \<and>
      map f vs = order \<and> (\<forall>v\<in>set vs. \<exists>k. bt_get m k = Some v)"
  proof (induction order)
    case (Cons k order)
    obtain v where v: "bt_get m k = Some v" using Cons.prems by (meson list.set_intros(1))
    obtain vs where vs: "collect_results (map (\<lambda>k. expect msg (bt_get m k)) order) = (Ok vs :: ('e, _) result)"
        "map f vs = order" "\<forall>v\<in>set vs. \<exists>k. bt_get m k = Some v"
      using Cons.IH Cons.prems by (meson list.set_intros(2))
    show ?case using v vs assms(2) [OF v] by (intro exI [of _ "v # vs"]) auto
  qed simp
  then show ?thesis by (elim exE conjE) (rule that)
qed

text \<open>C33. Nothing durable of the coordinator is lost or invented: in every run, replaying the
  mutations written out so far and those still staged on an empty coordinator applies them
  all without a panic and gives the same keys, sessions, restorations and cached nonces.\<close>

theorem coordinator_recoverable:
  assumes "tx_ops_ok (ce_tx_ops E)" "coord_run E fp received written co"
  shows "\<exists>t. replay_all (coord_apply E :: _ \<Rightarrow> _ \<Rightarrow> (unit, applied) result) (written @ fc_mutations co)
      (new_coordinator fp) = Ok t \<and> coord_core t = coord_core co \<and>
    (\<forall>d sid. cached_or_empty (fc_nonce_cache t) d sid = cached_or_empty (fc_nonce_cache co) d sid)"
  using coord_run_good [OF assms]
  by (auto simp: coord_good_def recoverable_def coord_sim_def cache_sim_def)

theorem coordinator_recoverable_witness:
  "\<exists>t. replay_all (coord_apply demo_coord_env :: _ \<Rightarrow> _ \<Rightarrow> (unit, applied) result) (fc_mutations demo_signing)
      (new_coordinator []) = Ok t \<and> coord_core t = coord_core demo_signing"
  using coordinator_recoverable [OF _ demo_signing_run] by (auto simp: demo_tx_ops_ok)

text \<open>The orders in which keys and sessions are listed never go out of step with the maps:
  in every run the iteration over the keys and over the active sessions finds every entry
  (the code would panic otherwise), lists each once under its own identifier, and each
  active session's access structure exists.\<close>

theorem coordinator_orders_agree:
  assumes "tx_ops_ok (ce_tx_ops E)" "coord_run E fp received written co"
  shows "\<exists>keys sessions. iter_keys co = (Ok keys :: ('e, _) result) \<and>
    map cfk_key_id keys = fc_key_order co \<and> distinct (map cfk_key_id keys) \<and>
    active_signing_sessions co = (Ok sessions :: ('f, _) result) \<and>
    map (as_session_id E) sessions = fc_session_order co \<and> distinct (map (as_session_id E) sessions) \<and>
    (\<forall>s\<in>set sessions. lookup_access_structure (as_ref s) co \<noteq> None)"
proof -
  note wf = coord_run_wf [OF assms]
  obtain keys where keys: "iter_keys co = (Ok keys :: ('e, _) result)" "map cfk_key_id keys = fc_key_order co"
    unfolding iter_keys_def
    by (rule ordered_entries [where m = "fc_keys co" and order = "fc_key_order co" and f = cfk_key_id])
      (use wf(2) in \<open>simp_all add: coord_keys_wf_def frost_key_wf_def\<close>)
  obtain sessions where sessions: "active_signing_sessions co = (Ok sessions :: ('f, _) result)"
      "map (as_session_id E) sessions = fc_session_order co"
      "\<forall>s\<in>set sessions. \<exists>sid. bt_get (fc_active_sessions co) sid = Some s"
    unfolding active_signing_sessions_def
    by (rule ordered_entries [where m = "fc_active_sessions co" and order = "fc_session_order co" and f = "as_session_id E"])
      (use coord_sessionsD(3,4) [OF wf(1)] in simp_all)
  have "distinct (fc_key_order co)" using wf(2) by (simp add: coord_keys_wf_def)
  moreover have "\<forall>s\<in>set sessions. lookup_access_structure (as_ref s) co \<noteq> None"
    using sessions(3) coord_sessionsD(6) [OF wf(1)] by blast
  ultimately show ?thesis
    using keys sessions(1,2) coord_sessionsD(2) [OF wf(1)] by (intro exI [of _ keys] exI [of _ sessions]) simp
qed

theorem coordinator_orders_agree_witness:
  "\<exists>sessions. active_signing_sessions demo_signing = (Ok sessions :: (core_error, _) result) \<and>
     map (as_session_id demo_coord_env) sessions = fc_session_order demo_signing"
proof -
  have "tx_ops_ok (ce_tx_ops demo_coord_env)" by (simp add: demo_tx_ops_ok)
  from coordinator_orders_agree [OF this demo_signing_run] show ?thesis by blast
qed



text \<open>C36. No nonce is at the disposal of two signing sessions: in every run, two different active
  sessions draw on disjoint sets of nonce streams.\<close>

theorem sessions_use_distinct_streams:
  assumes "tx_ops_ok (ce_tx_ops E)" "coord_run E fp received written co"
    and "bt_get (fc_active_sessions co) sid = Some s" "bt_get (fc_active_sessions co) sid' = Some s'" "sid \<noteq> sid'"
  shows "session_streams s \<inter> session_streams s' = {}"
  by (rule coord_sessionsD(7) [OF coord_run_wf(1) [OF assms(1,2)] assms(3,4,5)])

theorem sessions_use_distinct_streams_witness:
  "session_streams (demo_session ''hi'' 1) \<inter> session_streams (demo_session ''ho'' 2) = {}"
  by (rule sessions_use_distinct_streams [OF _ demo_signing2_run demo_signing2_eq(2,3)])
    (use demo_sids in \<open>simp_all add: demo_tx_ops_ok\<close>)

text \<open>A session that starts is for a known access structure, with at least a threshold of
  devices that all hold a share of it, for exactly the task asked for and with something to
  sign; it is active under the id returned, and for each device asked and no other it has
  the first nonces of one of that device's cached segments, as many as there are items, from
  a stream no active session uses.\<close>

theorem start_sign_sound:
  assumes "tx_ops_ok (ce_tx_ops E)" "coord_run E fp received written co"
    and "coord_start_sign E asr task devices rng co = ((co', rng'), Ok sid)"
  shows "\<exists>a s. lookup_access_structure asr co = Some a \<and>
    (\<forall>d\<in>set devices. bt_get (cas_device_to_share_index a) d \<noteq> None) \<and>
    shared_threshold (xpub_key (cas_app_shared_key a)) \<le> length devices \<and>
    bt_get (fc_active_sessions co') sid = Some s \<and> as_ref s = asr \<and>
    gsr_sign_task (ss_group_request (as_init s)) = task \<and> as_progress s \<noteq> [] \<and>
    (\<forall>d. d \<in> set devices \<longleftrightarrow> bt_get (ss_nonces (as_init s)) d \<noteq> None) \<and>
    (\<forall>d ns. bt_get (ss_nonces (as_init s)) d = Some ns \<longrightarrow> fresh_nonces co (length (as_progress s)) d ns)"
  using start_sign_session [OF coord_run_wf(4) [OF assms(1,2)] coord_sessionsD(1) [OF coord_run_wf(1) [OF assms(1,2)]]
      assms(1,3)] .

theorem start_sign_sound_witness:
  "\<exists>(s :: active_session) ns. bt_get (ss_nonces (as_init s)) demo_d = Some ns \<and> fresh_nonces demo_ready (length (as_progress s)) demo_d ns"
proof -
  have "tx_ops_ok (ce_tx_ops demo_coord_env)" by (simp add: demo_tx_ops_ok)
  from start_sign_sound [OF this demo_ready_run demo_signing_eq(1)] obtain s :: active_session where
    "\<forall>d. d \<in> set [demo_d] \<longleftrightarrow> bt_get (ss_nonces (as_init s)) d \<noteq> None"
    "\<forall>d ns. bt_get (ss_nonces (as_init s)) d = Some ns \<longrightarrow> fresh_nonces demo_ready (length (as_progress s)) d ns"
    by blast
  then show ?thesis by (meson list.set_intros(1) not_None_eq)
qed

text \<open>C34. Only verified signature shares are recorded: a message with shares is either refused
  without any change, or the device holds the share of a party of the session, sent one
  share for each item, every one of which verifies under the key of the item.\<close>

theorem signature_shares_verified:
  assumes "handle_signature_shares E d sid shares replenish co = (co', r)" "\<not> panics r"
  shows "co' = co \<and> (\<exists>e. r = Err e) \<or>
    (\<exists>s. bt_get (fc_active_sessions co) sid = Some s \<and> shares_good E co d s shares)"
proof (cases r)
  case (Ok sends)
  then show ?thesis using handle_shares_Ok [OF assms(1) [unfolded Ok]] by metis
next
  case (Err e)
  then show ?thesis using handle_shares_Err [OF assms(1) [unfolded Err]] by simp
qed (use assms(2) in simp)

lemma demo_lookup: "lookup_access_structure demo_asr demo_signing = Some demo_structure"
  by (simp add: lookup_access_structure_def demo_signing_eq demo_key_co_eq demo_complete_key_def bt_get_def)

lemma demo_as_ref: "as_ref (demo_session m n) = demo_asr"
  by (simp add: as_ref_def demo_session_def access_structure_ref_of_def Let_def)

definition demo_signed :: "frost_coordinator \<times> (core_error, coord_send list) result" where
  "demo_signed = handle_signature_shares demo_coord_env demo_d demo_sid [[1]] None demo_signing"

lemma demo_signed_eq:
  "\<exists>co'. demo_signed = (co', Ok [CoordToUser (UserSigning (GotShare demo_sid demo_d)),
     CoordToUser (UserSigning (Signed demo_sid [[1]]))])"
proof -
  have checks: "signature_share_checks demo_coord_env demo_d demo_sid [[1]] demo_signing = Ok ()"
    by (simp add: signature_share_checks_def demo_signing_eq bt_get_def demo_as_ref demo_lookup demo_structure_def)
      (simp add: demo_session_def progress_accepts_def demo_sessions_def)
  have verify: "progress_verify_final demo_coord_env p x" for p x
    by (simp add: progress_verify_final_def verify_final_signature_def demo_coord_env_def)
  show ?thesis
    by (simp add: demo_signed_def handle_signature_shares_def checks coord_mutate_def coord_apply_def
        apply_signing_mutation_def staged_if_def complete_sign_session_def verify close_sign_session_def
        demo_signing_eq bt_modify_def bt_get_def coord_push_def)
      (simp add: demo_session_def demo_sessions_def verify bt_values_def close_sign_session_def bt_get_def staged_if_def
        demo_signing_eq coord_push_def)
qed

theorem signature_shares_verified_witness:
  "\<exists>s. bt_get (fc_active_sessions demo_signing) demo_sid = Some s \<and> shares_good demo_coord_env demo_signing demo_d s [[1]]"
proof -
  obtain co' sends where "handle_signature_shares demo_coord_env demo_d demo_sid [[1]] None demo_signing = (co', Ok sends)"
    using demo_signed_eq unfolding demo_signed_def by blast
  from signature_shares_verified [OF this] show ?thesis by simp
qed

text \<open>C35. What the user is given as the signatures of a session are signatures: when the last share
  completes a session, each signature returned verifies under the item it is for, the session
  is active no more and is kept as finished with exactly these signatures.\<close>

theorem completed_signatures_verify:
  assumes "tx_ops_ok (ce_tx_ops E)" "coord_run E fp received written co"
    and "handle_signature_shares E d sid shares replenish co = (co', Ok sends)"
    and "CoordToUser (UserSigning (Signed sid signatures)) \<in> set sends"
  shows "\<exists>s f. bt_get (fc_active_sessions co) sid = Some s \<and>
    list_all2 (progress_verify_final E) (as_progress s) signatures \<and>
    bt_get (fc_active_sessions co') sid = None \<and>
    bt_get (fc_finished_sessions co') sid = Some f \<and> fin_signatures f = signatures \<and> fin_init f = as_init s"
proof -
  let ?ms = "\<lambda>replenish. case replenish of None \<Rightarrow> [] | Some segment \<Rightarrow> [SigningMutation (NewNonces d segment)]"
  obtain s co1 finished where s: "bt_get (fc_active_sessions co) sid = Some s"
      "coord_mutate_all E (SigningMutation (GotSignatureShares sid d shares) # ?ms replenish) co = (Ok co1 :: (core_error, _) result)"
      "complete_sign_session E sid co1 = (Ok (co', finished) :: (core_error, _) result)"
      "sends = CoordToUser (UserSigning (GotShare sid d)) #
         (case finished of None \<Rightarrow> [] | Some signatures \<Rightarrow> [CoordToUser (UserSigning (Signed sid signatures))])"
    by (rule handle_shares_Ok [OF assms(3)])
  have fin: "finished = Some signatures" using assms(4) s(4) by (cases finished) auto
  note rec = recorded_session [OF s(2,1)]
  have "sid \<in> set (fc_session_order co)"
    using coord_sessionsD(3) [OF coord_run_wf(1) [OF assms(1,2)]] s(1) btree.key_list_dom [of sid "fc_active_sessions co"] by simp
  then have "sid \<in> set (fc_session_order co1)" using rec by simp
  from complete_sign_session_Some [OF s(3) [unfolded fin] this] obtain s1 where s1:
    "bt_get (fc_active_sessions co1) sid = Some s1" "list_all2 (progress_verify_final E) (as_progress s1) signatures"
    "bt_get (fc_active_sessions co') sid = None"
    "bt_get (fc_finished_sessions co') sid = Some \<lparr>fin_init = as_init s1, fin_signatures = signatures, fin_key_id = as_key_id s1\<rparr>"
    .
  have "s1 = s\<lparr>as_progress := record_shares d (as_progress s) shares\<rparr>" using rec s1(1) by simp
  then show ?thesis using s(1) s1 by (simp add: record_shares_verify)
qed

theorem completed_signatures_verify_witness:
  "\<exists>s. bt_get (fc_active_sessions demo_signing) demo_sid = Some s \<and>
     list_all2 (progress_verify_final demo_coord_env) (as_progress s) [[1]]"
proof -
  obtain co' where signed: "handle_signature_shares demo_coord_env demo_d demo_sid [[1]] None demo_signing =
      (co', Ok [CoordToUser (UserSigning (GotShare demo_sid demo_d)), CoordToUser (UserSigning (Signed demo_sid [[1]]))])"
    using demo_signed_eq unfolding demo_signed_def by blast
  have "tx_ops_ok (ce_tx_ops demo_coord_env)" by (simp add: demo_tx_ops_ok)
  from completed_signatures_verify [OF this demo_signing_run signed] show ?thesis by auto
qed

text \<open>A share cannot be taken from a session that relies on it: deleting the share of a device
  is refused, changing nothing, exactly when an active session of the access structure has
  been sent to the device or has its shares; otherwise the share is gone and every other
  share of every key is where it was.\<close>

theorem delete_share_guarded:
  assumes "tx_ops_ok (ce_tx_ops E)" "coord_run E fp received written co"
    and "coord_delete_share E asr d co = (co', r)"
  shows "if \<exists>sid s. bt_get (fc_active_sessions co) sid = Some s \<and> device_involved asr d s
    then r = Err DeviceInActiveSignSession \<and> co' = co
    else r = Ok () \<and> (\<forall>asr' d'. map_option (\<lambda>a. bt_get (cas_device_to_share_index a) d') (lookup_access_structure asr' co') =
      map_option (\<lambda>a. if asr' = asr \<and> d' = d then None else bt_get (cas_device_to_share_index a) d')
        (lookup_access_structure asr' co))"
proof (cases "\<exists>sid s. bt_get (fc_active_sessions co) sid = Some s \<and> device_involved asr d s")
  case True
  then have "list_ex (device_involved asr d) (bt_values (fc_active_sessions co))"
    using bt_values_get [OF coord_sessionsD(1) [OF coord_run_wf(1) [OF assms(1,2)]]] by (auto simp: list_ex_iff)
  then show ?thesis using assms(3) True by (simp add: coord_delete_share_def)
next
  case False
  then have free: "\<not> list_ex (device_involved asr d) (bt_values (fc_active_sessions co))"
    using bt_values_get [OF coord_sessionsD(1) [OF coord_run_wf(1) [OF assms(1,2)]]] by (auto simp: list_ex_iff)
  show ?thesis
  proof (cases "case lookup_access_structure asr co of None \<Rightarrow> False | Some a \<Rightarrow> bt_get (cas_device_to_share_index a) d \<noteq> None")
    case True
    let ?f = "\<lambda>a. a\<lparr>cas_device_to_share_index := bt_remove d (cas_device_to_share_index a)\<rparr>"
    have eq: "co' = coord_push (KeygenMutation (DeleteShare asr d)) (update_access_structure asr ?f co)" "r = Ok ()"
      using assms(3) free True
      by (auto simp: coord_delete_share_def mutate_keygen_eq apply_key_mutation_def apply_delete_share_def
          split: option.splits)
    have "lookup_access_structure asr' co' = (if asr' = asr then map_option ?f (lookup_access_structure asr co)
        else lookup_access_structure asr' co)" for asr'
      unfolding eq(1) lookup_push by (rule lookup_update)
    then show ?thesis using \<open>\<nexists>sid s. _ sid s\<close> eq(2) by (auto simp: option.map_comp comp_def)
  next
    case gone: False
    then have "co' = co" "r = Ok ()" using assms(3) free by (simp_all add: coord_delete_share_def)
    moreover have "map_option (\<lambda>a. bt_get (cas_device_to_share_index a) d') (lookup_access_structure asr' co) =
        map_option (\<lambda>a. if asr' = asr \<and> d' = d then None else bt_get (cas_device_to_share_index a) d')
          (lookup_access_structure asr' co)" for asr' d'
      using gone by (cases "asr' = asr"; cases "lookup_access_structure asr' co") auto
    ultimately show ?thesis using False by auto
  qed
qed

theorem delete_share_guarded_witness:
  "snd (coord_delete_share demo_coord_env demo_asr demo_d demo_signing) = Ok ()"
proof -
  have free: "\<not> (\<exists>sid s. bt_get (fc_active_sessions demo_signing) sid = Some s \<and> device_involved demo_asr demo_d s)"
    by (auto simp: demo_signing_eq bt_get_def device_involved_def demo_session_def has_received_from_def split: if_splits)
  obtain co' r where del: "coord_delete_share demo_coord_env demo_asr demo_d demo_signing = (co', r)" by fastforce
  have "tx_ops_ok (ce_tx_ops demo_coord_env)" by (simp add: demo_tx_ops_ok)
  from delete_share_guarded [OF this demo_signing_run del] show ?thesis using free del by simp
qed

text \<open>Deleting a key takes its signing sessions with it and nothing else: afterwards the key
  is unknown and no active session is for it, every other key is unchanged and every session
  of another key is still active.\<close>

theorem delete_key_effect:
  assumes "tx_ops_ok (ce_tx_ops E)" "coord_run E fp received written co"
    and "coord_delete_key E kid co = (Ok co' :: ('e, _) result)"
  shows "bt_get (fc_keys co') k = (if k = kid then None else bt_get (fc_keys co) k) \<and>
    (bt_get (fc_active_sessions co') sid = Some s \<longleftrightarrow>
       bt_get (fc_active_sessions co) sid = Some s \<and> as_key_id s \<noteq> kid)"
  by (rule coord_delete_key_effect [OF coord_run_wf(1) [OF assms(1,2)] assms(3)])

theorem delete_key_effect_witness:
  "\<exists>co'. coord_delete_key demo_coord_env (asr_key_id demo_asr) demo_signing = (Ok co' :: (core_error, _) result) \<and>
     bt_get (fc_active_sessions co') demo_sid = None"
proof -
  have "\<exists>co'. coord_delete_key demo_coord_env (asr_key_id demo_asr) demo_signing = (Ok co' :: (core_error, _) result)"
    by (simp add: coord_delete_key_def demo_signing_eq demo_key_co_eq bt_get_def mutate_keygen_eq apply_key_mutation_def
        apply_delete_key_def Let_def sessions_of_key_def demo_session_def close_sign_session_def)
  then obtain co' where del: "coord_delete_key demo_coord_env (asr_key_id demo_asr) demo_signing = (Ok co' :: (core_error, _) result)"
    by blast
  have "tx_ops_ok (ce_tx_ops demo_coord_env)" by (simp add: demo_tx_ops_ok)
  note effect = delete_key_effect [OF this demo_signing_run del]
  have "bt_get (fc_active_sessions co') demo_sid \<noteq> Some s" for s
    using effect [of _ demo_sid s] by (auto simp: demo_signing_eq bt_get_def demo_session_def)
  then show ?thesis using del by (metis not_None_eq)
qed

end
