(* ===== verification/CoordRestoreProps.thy ===== *)
theory CoordRestoreProps
  imports CoordSigningProps
begin

section \<open>Restorations on the coordinator\<close>

text \<open>
  A share the coordinator accepts into a restoration is recorded and known nowhere else; a
  restoration can be finished as soon as a key was found among its shares, and what is then
  saved is that key, with every device that holds a share of it.
\<close>

subsection \<open>The mutations of a restoration\<close>

lemma mutate_restoration_eq:
  "\<exists>co'. coord_mutate E (RestorationMutation m) co = (Ok co' :: ('e, _) result) \<and>
     fc_restoration co' = fst (coord_apply_restoration (ce_crypto E) (ce_frost_ops E) m (fc_fingerprint co)
       (fc_restoration co)) \<and>
     fc_keys co' = fc_keys co \<and> fc_fingerprint co' = fc_fingerprint co"
  by (auto simp: coord_mutate_def coord_apply_def coord_push_def split: prod.split option.split)

lemma mutate_restorationD:
  assumes "coord_mutate E (RestorationMutation m) co = (Ok co' :: ('e, _) result)"
  shows "fc_restoration co' = fst (coord_apply_restoration (ce_crypto E) (ce_frost_ops E) m (fc_fingerprint co)
       (fc_restoration co))"
    and "fc_keys co' = fc_keys co" and "fc_fingerprint co' = fc_fingerprint co"
  using mutate_restoration_eq [of E m co, where 'e = 'e] assms by auto

lemma coord_run_restorations:
  assumes "tx_ops_ok (ce_tx_ops E)" "coord_run E fp received written co"
  shows "coord_restorations_wf E co"
  using coord_run_good [OF assms] by (simp add: coord_good_def coord_wf_def)

lemma coord_run_restoration:
  assumes "tx_ops_ok (ce_tx_ops E)" "coord_run E fp received written co" "get_restoration_state rid co = Some st"
  shows "restoration_wf E (fc_fingerprint co) rid st"
  using coord_run_restorations [OF assms(1,2)] assms(3)
  by (simp add: coord_restorations_wf_def get_restoration_state_def restoring_def)

subsection \<open>Where a share is found\<close>

lemma fold_push_get:
  "bt_wf m \<Longrightarrow> bt_get (fold (\<lambda>r. bt_push (f r) (g r)) rs m) k =
     (case map g (filter (\<lambda>r. f r = k) rs) of
        [] \<Rightarrow> bt_get m k
      | vs \<Rightarrow> Some ((case bt_get m k of None \<Rightarrow> [] | Some ws \<Rightarrow> ws) @ vs))"
  by (induction rs arbitrary: m) (auto split: list.splits option.splits)

lemma share_image_to_devices_get:
  "bt_get (share_image_to_devices a) im =
     (if \<exists>r\<in>set (rec_held_shares a). rcs_image r = im
      then Some (map rcs_held_by (filter (\<lambda>r. rcs_image r = im) (rec_held_shares a))) else None)"
proof -
  let ?ds = "map rcs_held_by (filter (\<lambda>r. rcs_image r = im) (rec_held_shares a))"
  have "bt_get (share_image_to_devices a) im = (case ?ds of [] \<Rightarrow> None | ds \<Rightarrow> Some ds)"
    by (simp add: share_image_to_devices_def fold_push_get split: list.split)
  also have "\<dots> = (if ?ds = [] then None else Some ?ds)" by (simp split: list.split)
  also have "?ds = [] \<longleftrightarrow> \<not> (\<exists>r\<in>set (rec_held_shares a). rcs_image r = im)" by (simp add: filter_empty_conv)
  finally show ?thesis by simp
qed

text \<open>A restoration that holds the image, or whose key the image lies on, is one in which the share
  is found.\<close>

definition restoration_has :: "crypto \<Rightarrow> share_image \<Rightarrow> restoration_state \<Rightarrow> bool" where
  "restoration_has C im st \<longleftrightarrow>
     (\<exists>r\<in>set (rec_held_shares (rst_access_structure st)). rcs_image r = im) \<or>
     compatibility C (rst_access_structure st) im = Compatible"

lemma restoration_has_iff:
  "restoration_has C im st \<longleftrightarrow>
     bt_get (share_image_to_devices (rst_access_structure st)) im \<noteq> None \<or>
     (\<exists>k. rec_shared_key (rst_access_structure st) = Some k \<and> shared_share_image C k (image_index im) = im)"
  by (auto simp: restoration_has_def share_image_to_devices_get compatibility_def
      split: option.splits if_splits)

lemma find_in_restorations_None:
  "find_in_restorations C im rs = None \<longleftrightarrow> (\<forall>st\<in>set rs. \<not> restoration_has C im st)"
  by (induction rs) (auto simp: restoration_has_iff Let_def split: option.splits)

lemma find_in_restorations_Some:
  "find_in_restorations C im rs = Some loc \<Longrightarrow>
   \<exists>st\<in>set rs. loc_key_state loc = LocationRestoring (rst_restoration_id st) \<and> restoration_has C im st \<and>
     set (loc_device_ids loc) = {d. has_got_share (rst_access_structure st) d im}"
proof (induction rs)
  case (Cons st rs)
  show ?case
  proof (cases "restoration_has C im st")
    case True
    have "set (case bt_get (share_image_to_devices (rst_access_structure st)) im of None \<Rightarrow> [] | Some ds \<Rightarrow> ds)
        = {d. has_got_share (rst_access_structure st) d im}"
      by (auto simp: share_image_to_devices_get has_got_share_def list_ex_iff is_share_of_def)
    then show ?thesis using Cons.prems True
      by (intro bexI [of _ st]) (auto simp: restoration_has_iff Let_def split: option.splits)
  next
    case False
    then have "find_in_restorations C im rs = Some loc"
      using Cons.prems by (auto simp: restoration_has_iff Let_def split: option.splits)
    then show ?thesis using Cons.IH by auto
  qed
qed simp

lemma known_access_structure:
  assumes "coord_keys_wf C co" "a \<in> set (coord_access_structures co)"
  shows "\<exists>k. bt_get (fc_keys co) (asr_key_id (cas_ref C a)) = Some k"
proof -
  obtain k where "k \<in> set (bt_values (fc_keys co))" and a: "a \<in> set (bt_values (ck_access_structures (cfk_complete_key k)))"
    using assms(2) by (auto simp: coord_access_structures_def)
  then obtain kid where k: "bt_get (fc_keys co) kid = Some k"
    using bt_values_get assms(1) by (metis coord_keys_wf_def)
  then have wf: "frost_key_wf C kid k" using assms(1) by (simp add: coord_keys_wf_def)
  then obtain asid where "bt_get (ck_access_structures (cfk_complete_key k)) asid = Some a"
    using bt_values_get a by (metis frost_key_wf_def)
  then have "cas_ref C a = AccessStructureRef kid asid" using wf by (simp add: frost_key_wf_def)
  then show ?thesis using k by simp
qed

text \<open>The search of the known shares cannot panic, and it finds every place the share is in.\<close>

lemma find_share_spec:
  assumes "coord_keys_wf (ce_crypto E) co" "bt_wf (restoring co)"
  obtains found where "find_share (ce_crypto E) im ek co = (Ok found :: ('e, _) result)"
    "found = None \<longleftrightarrow> (\<forall>a\<in>set (coord_access_structures co). \<not> on_access_structure (ce_crypto E) im ek co a) \<and>
       (\<forall>rid st. get_restoration_state rid co = Some st \<longrightarrow> \<not> restoration_has (ce_crypto E) im st)"
    "\<And>loc rid. found = Some loc \<Longrightarrow> loc_key_state loc = LocationRestoring rid \<Longrightarrow>
       (\<forall>a\<in>set (coord_access_structures co). \<not> on_access_structure (ce_crypto E) im ek co a) \<and>
       (\<exists>rid' st. get_restoration_state rid' co = Some st \<and> rid = rst_restoration_id st \<and>
          restoration_has (ce_crypto E) im st \<and>
          set (loc_device_ids loc) = {d. has_got_share (rst_access_structure st) d im})"
proof (cases "find (on_access_structure (ce_crypto E) im ek co) (coord_access_structures co)")
  case None
  then have none: "\<forall>a\<in>set (coord_access_structures co). \<not> on_access_structure (ce_crypto E) im ek co a"
    by (simp add: find_None_iff)
  have ok: "find_share (ce_crypto E) im ek co =
      (Ok (find_in_restorations (ce_crypto E) im (bt_values (restoring co))) :: ('e, _) result)"
    using None by (simp add: find_share_def restoring_def)
  have "\<exists>rid' st. get_restoration_state rid' co = Some st \<and> rid = rst_restoration_id st \<and>
      restoration_has (ce_crypto E) im st \<and>
      set (loc_device_ids loc) = {d. has_got_share (rst_access_structure st) d im}"
    if found: "find_in_restorations (ce_crypto E) im (bt_values (restoring co)) = Some loc"
      and key: "loc_key_state loc = LocationRestoring rid" for loc rid
  proof -
    obtain st where st: "st \<in> set (bt_values (restoring co))"
        "loc_key_state loc = LocationRestoring (rst_restoration_id st)" "restoration_has (ce_crypto E) im st"
        "set (loc_device_ids loc) = {d. has_got_share (rst_access_structure st) d im}"
      using find_in_restorations_Some [OF found] by blast
    then obtain rid' where "get_restoration_state rid' co = Some st"
      using bt_values_get [OF assms(2)] by (auto simp: get_restoration_state_def)
    then show ?thesis using st(2-4) key by (intro exI [of _ rid'] exI [of _ st]) simp
  qed
  moreover have "find_in_restorations (ce_crypto E) im (bt_values (restoring co)) = None \<longleftrightarrow>
      (\<forall>rid st. get_restoration_state rid co = Some st \<longrightarrow> \<not> restoration_has (ce_crypto E) im st)"
    by (auto simp: find_in_restorations_None bt_values_get [OF assms(2)] get_restoration_state_def Ball_def)
  ultimately show ?thesis using none by (intro that [OF ok]) blast+
next
  case (Some a)
  then have a: "a \<in> set (coord_access_structures co)" "on_access_structure (ce_crypto E) im ek co a"
    by (auto simp: find_Some_iff)
  then obtain k where "bt_get (fc_keys co) (asr_key_id (cas_ref (ce_crypto E) a)) = Some k"
    using known_access_structure [OF assms(1)] by blast
  then show ?thesis using that Some a by (fastforce simp: find_share_def)
qed

subsection \<open>Accepting a share\<close>

lemma accepted_share:
  assumes "check_share_compatible E rid r ek co = (Ok () :: (restore_share_error, unit) result)"
    and wf: "coord_keys_wf (ce_crypto E) co" "coord_restorations_wf E co"
    and st: "get_restoration_state rid co = Some st"
  shows "\<not> has_got_share (rst_access_structure st) (rcs_held_by r) (rcs_image r) \<and>
    (case (hs_access_structure_ref (rcs_held_share r), recovering_ref (ce_crypto E) (rst_access_structure st)) of
       (Some new, Some existing) \<Rightarrow> existing = new | _ \<Rightarrow> True) \<and>
    (\<forall>a\<in>set (coord_access_structures co). \<not> on_access_structure (ce_crypto E) (rcs_image r) ek co a) \<and>
    (\<not> restoration_has (ce_crypto E) (rcs_image r) st \<longrightarrow>
       (\<forall>rid st. get_restoration_state rid co = Some st \<longrightarrow> \<not> restoration_has (ce_crypto E) (rcs_image r) st))"
proof -
  let ?im = "rcs_image r" and ?d = "rcs_held_by r"
  have ids: "rst_restoration_id st' = rid'" if "get_restoration_state rid' co = Some st'" for rid' st'
    using wf(2) that by (simp add: coord_restorations_wf_def get_restoration_state_def restoring_def restoration_wf_def)
  have "bt_wf (restoring co)" using wf(2) by (simp add: coord_restorations_wf_def restoring_def)
  then obtain found where found: "find_share (ce_crypto E) ?im ek co = (Ok found :: (restore_share_error, _) result)"
      and none: "found = None \<longleftrightarrow> (\<forall>a\<in>set (coord_access_structures co). \<not> on_access_structure (ce_crypto E) ?im ek co a) \<and>
         (\<forall>rid st. get_restoration_state rid co = Some st \<longrightarrow> \<not> restoration_has (ce_crypto E) ?im st)"
      and here: "\<And>loc rid. found = Some loc \<Longrightarrow> loc_key_state loc = LocationRestoring rid \<Longrightarrow>
         (\<forall>a\<in>set (coord_access_structures co). \<not> on_access_structure (ce_crypto E) ?im ek co a) \<and>
         (\<exists>rid' st. get_restoration_state rid' co = Some st \<and> rid = rst_restoration_id st \<and>
            restoration_has (ce_crypto E) ?im st \<and>
            set (loc_device_ids loc) = {d. has_got_share (rst_access_structure st) d ?im})"
    by (rule find_share_spec [OF wf(1), where im = ?im and ek = ek and 'e = restore_share_error]) blast
  have loc: "location_allows rid ?d RestoreAlreadyGot RestoreBelongsElsewhere found = Ok ()"
    and refs: "case (hs_access_structure_ref (rcs_held_share r), recovering_ref (ce_crypto E) (rst_access_structure st)) of
       (Some new, Some existing) \<Rightarrow> existing = new | _ \<Rightarrow> True"
    using assms(1) st found by (auto simp: check_share_compatible_def result_iff split: option.splits if_splits)
  show ?thesis
  proof (cases found)
    case None
    then have "\<not> restoration_has (ce_crypto E) ?im st" using none st by blast
    then have "\<not> has_got_share (rst_access_structure st) ?d ?im"
      by (auto simp: restoration_has_def has_got_share_def list_ex_iff is_share_of_def)
    then show ?thesis using None none refs by blast
  next
    case (Some l)
    then have l: "loc_key_state l = LocationRestoring rid" "?d \<notin> set (loc_device_ids l)"
      using loc by (simp_all add: location_allows_def split: if_splits)
    obtain rid' st' where st': "get_restoration_state rid' co = Some st'" "rid = rst_restoration_id st'"
        "restoration_has (ce_crypto E) ?im st'"
        "set (loc_device_ids l) = {d. has_got_share (rst_access_structure st') d ?im}"
      and none_on: "\<forall>a\<in>set (coord_access_structures co). \<not> on_access_structure (ce_crypto E) ?im ek co a"
      using here [OF Some l(1)] by blast
    have "rid' = rid" using ids [OF st'(1)] st'(2) by simp
    then have "st' = st" using st'(1) st by simp
    then have "restoration_has (ce_crypto E) ?im st" "\<not> has_got_share (rst_access_structure st) ?d ?im"
      using st'(3,4) l(2) by simp_all
    then show ?thesis using none_on refs by blast
  qed
qed

lemma check_share_total:
  assumes "coord_keys_wf (ce_crypto E) co" "coord_restorations_wf E co"
  shows "\<not> panics (check_share_compatible E rid r ek co)"
proof -
  have "bt_wf (restoring co)" using assms(2) by (simp add: coord_restorations_wf_def restoring_def)
  then obtain found where "find_share (ce_crypto E) (rcs_image r) ek co = (Ok found :: (restore_share_error, _) result)"
    by (rule find_share_spec [OF assms(1)])
  then show ?thesis
    by (cases "get_restoration_state rid co")
      (auto simp: check_share_compatible_def location_allows_def split: option.split)
qed

text \<open>What recording it does to the restoration.\<close>

lemma recorded_share:
  assumes "coord_mutate E (RestorationMutation (RestorationProgress2 rid d h)) co = (Ok co' :: ('e, _) result)"
    and st: "get_restoration_state rid co = Some st"
    and new: "\<not> has_got_share (rst_access_structure st) d (hs_share_image h)"
      "case (hs_access_structure_ref h, recovering_ref (ce_crypto E) (rst_access_structure st)) of
         (Some new, Some existing) \<Rightarrow> existing = new | _ \<Rightarrow> True"
  shows "get_restoration_state rid' co' =
    (if rid' = rid
     then Some (st\<lparr>rst_access_structure := add_share (ce_crypto E) (ce_frost_ops E)
       \<lparr>rcs_held_by = d, rcs_held_share = h\<rparr> (fc_fingerprint co) (rst_access_structure st)\<rparr>)
     else get_restoration_state rid' co)"
proof -
  have "\<not> (case (hs_access_structure_ref h, recovering_ref (ce_crypto E) (rst_access_structure st)) of
      (Some new_ref, Some existing_ref) \<Rightarrow> existing_ref \<noteq> new_ref | _ \<Rightarrow> False)"
    using new(2) by (auto split: option.splits)
  then show ?thesis
    using st new(1) mutate_restorationD(1) [OF assms(1)]
    by (simp add: get_restoration_state_def restoring_def coord_apply_restoration_def apply_progress_def Let_def)
qed

subsection \<open>Finishing a restoration\<close>

lemma bt_of_list_has: "k \<in> fst ` set kvs \<Longrightarrow> \<exists>v. bt_get (bt_of_list kvs) k = Some v"
proof -
  have "bt_get m k \<noteq> None \<or> k \<in> fst ` set kvs \<Longrightarrow> bt_get (fold (\<lambda>(k, v). bt_insert k v) kvs m) k \<noteq> None" for m
    by (induction kvs arbitrary: m) (auto split: if_splits)
  then show "k \<in> fst ` set kvs \<Longrightarrow> \<exists>v. bt_get (bt_of_list kvs) k = Some v" by (auto simp: bt_of_list_def)
qed

definition compatible_share :: "crypto \<Rightarrow> shared_key \<Rightarrow> recover_share \<Rightarrow> bool" where
  "compatible_share C root r \<longleftrightarrow> shared_share_image C root (image_index (rcs_image r)) = rcs_image r"

lemma compatibility_found:
  "rec_shared_key a = Some root \<Longrightarrow> compatibility C a (rcs_image r) = Compatible \<longleftrightarrow> compatible_share C root r"
  by (simp add: compatibility_def compatible_share_def)

text \<open>The index filed for a device is the index of a compatible share it holds.\<close>

lemma compatible_indices:
  assumes "rec_shared_key a = Some root"
  obtains indices where "compatible_device_to_share_index C a = Some indices" "bt_wf indices"
    "\<And>r. r \<in> set (rec_held_shares a) \<Longrightarrow> compatible_share C root r \<Longrightarrow> \<exists>i. bt_get indices (rcs_held_by r) = Some i"
    "\<And>d i. bt_get indices d = Some i \<Longrightarrow> has_got_share a d (shared_share_image C root i)"
proof -
  let ?kvs = "map (\<lambda>r. (rcs_held_by r, image_index (rcs_image r)))
    (filter (\<lambda>r. compatibility C a (rcs_image r) = Compatible) (rec_held_shares a))"
  have "has_got_share a d (shared_share_image C root i)" if "bt_get (bt_of_list ?kvs) d = Some i" for d i
    using bt_of_list_in [OF that]
    by (auto simp: compatibility_found [OF assms] compatible_share_def has_got_share_def list_ex_iff is_share_of_def)
  moreover have "\<exists>i. bt_get (bt_of_list ?kvs) (rcs_held_by r) = Some i"
    if "r \<in> set (rec_held_shares a)" "compatible_share C root r" for r
    by (rule bt_of_list_has) (use that in \<open>force simp: compatibility_found [OF assms]\<close>)
  ultimately show ?thesis
    by (intro that [of "bt_of_list ?kvs"]) (simp_all add: compatible_device_to_share_index_def assms)
qed

lemma needs_consolidation_total:
  "\<forall>d\<in>set ds. bt_get indices d \<noteq> None \<Longrightarrow>
   needs_consolidation_mutations indices asr ds =
     (Ok (map (\<lambda>d. RestorationMutation (DeviceNeedsConsolidation (PendingConsolidation d asr (the (bt_get indices d))))) ds)
       :: ('e, _) result)"
  by (induction ds) auto

lemma mutate_needs_consolidation:
  assumes "coord_mutate_all E (map (\<lambda>d. RestorationMutation (DeviceNeedsConsolidation (c d))) ds) co = (Ok co' :: ('e, _) result)"
  shows "set (rs_pending (fc_restoration co')) = set (rs_pending (fc_restoration co)) \<union> c ` set ds \<and>
    restoring co' = restoring co \<and> fc_keys co' = fc_keys co"
  using assms
proof (induction ds arbitrary: co)
  case (Cons d ds)
  then obtain co1 where co1: "coord_mutate E (RestorationMutation (DeviceNeedsConsolidation (c d))) co = (Ok co1 :: ('e, _) result)"
      "coord_mutate_all E (map (\<lambda>d. RestorationMutation (DeviceNeedsConsolidation (c d))) ds) co1 = (Ok co' :: ('e, _) result)"
    by (auto simp: result_iff)
  have "set (rs_pending (fc_restoration co1)) = insert (c d) (set (rs_pending (fc_restoration co))) \<and>
      restoring co1 = restoring co \<and> fc_keys co1 = fc_keys co"
    using mutate_restorationD [OF co1(1)] by (auto simp: coord_apply_restoration_def restoring_def)
  then show ?case using Cons.IH [OF co1(2)] by auto
qed simp

text \<open>Saving a key does not touch the restorations.\<close>

definition key_added :: "coord_mutation \<Rightarrow> bool" where
  "key_added m \<longleftrightarrow> (case m of KeygenMutation (DeleteKey _) \<Rightarrow> False | KeygenMutation _ \<Rightarrow> True | _ \<Rightarrow> False)"

lemma key_added_restoration:
  assumes "key_added m" "coord_mutate E m co = (Ok co' :: ('e, _) result)"
  shows "fc_restoration co' = fc_restoration co"
  using assms
  by (cases m) (auto simp: key_added_def mutate_keygen_Ok apply_key_mutation_def ensure_key_def Let_def
      apply_new_access_structure_def apply_new_share_def apply_delete_share_def update_access_structure_def
      split: key_mutation.splits option.splits if_splits)

lemma keys_added_restoration:
  "list_all key_added ms \<Longrightarrow> coord_mutate_all E ms co = (Ok co' :: ('e, _) result) \<Longrightarrow>
   fc_restoration co' = fc_restoration co"
proof (induction ms arbitrary: co)
  case (Cons m ms)
  then obtain co1 where "coord_mutate E m co = (Ok co1 :: ('e, _) result)" "coord_mutate_all E ms co1 = (Ok co' :: ('e, _) result)"
    by (auto simp: result_iff)
  then show ?case using Cons key_added_restoration by fastforce
qed simp

lemma mutate_new_key_restoration:
  assumes "mutate_new_key E name root indices ek p rng co = (Ok (asr, co', rng') :: ('e, _) result)"
  shows "fc_restoration co' = fc_restoration co"
proof -
  obtain ct where "coord_mutate_all E (snd (new_key_mutations (ce_crypto E) name root indices ct p co)) co
      = (Ok co' :: ('e, _) result)"
    using assms by (auto simp: mutate_new_key_def Let_def case_prod_unfold result_iff)
  then show ?thesis
    by (rule keys_added_restoration [rotated]) (auto simp: new_key_mutations_def Let_def list_all_iff key_added_def)
qed

lemma found_selection:
  assumes "find_valid_subset C F images fp t = Some (found, key)"
  shows "\<exists>c b. selection images t c \<and> key = interpolate F c \<and> accepted F fp t key b"
proof -
  obtain b where "try_candidates F fp t None (candidates images t) = Some (key, b)"
    using assms by (auto simp: find_valid_subset_def split: option.splits if_splits)
  from try_candidates_Some [OF this] show ?thesis
    using assms by (auto simp: candidates_iff [symmetric] find_valid_subset_def split: if_splits)
qed

text \<open>The steps of \<^verbatim>\<open>finish_restoring\<close>, none of which can fail.\<close>

lemma finish_restoring_total:
  assumes wf: "coord_restorations_wf E co" and st: "get_restoration_state rid co = Some st"
    and root: "rec_shared_key (rst_access_structure st) = Some root"
    and indices: "compatible_device_to_share_index (ce_crypto E) (rst_access_structure st) = Some indices"
      "\<forall>r\<in>set (rec_held_shares (rst_access_structure st)). compatible_share (ce_crypto E) root r \<longrightarrow>
         (\<exists>i. bt_get indices (rcs_held_by r) = Some i)"
  obtains asr co1 co' rng' where
    "mutate_new_key E (rst_key_name st) root indices ek (rst_key_purpose st) rng co =
       (Ok (asr, co1, rng') :: (restoration_error, _) result)"
    "finish_restoring E rid ek rng co = ((co', rng'), Ok (access_structure_ref_of (ce_crypto E) root))"
    "get_restoration_state rid co' = None" "fc_keys co' = fc_keys co1"
    "\<forall>r\<in>set (rec_held_shares (rst_access_structure st)). compatible_share (ce_crypto E) root r \<longrightarrow>
       hs_needs_consolidation (rcs_held_share r) \<longrightarrow>
       PendingConsolidation (rcs_held_by r) (access_structure_ref_of (ce_crypto E) root)
         (the (bt_get indices (rcs_held_by r))) \<in> set (rs_pending (fc_restoration co'))"
proof -
  let ?a = "rst_access_structure st" and ?asr = "access_structure_ref_of (ce_crypto E) root"
  let ?ds = "needs_to_consolidate (ce_crypto E) ?a"
  let ?c = "\<lambda>d. PendingConsolidation d ?asr (the (bt_get indices d))"
  let ?ms = "map (\<lambda>d. RestorationMutation (DeviceNeedsConsolidation (?c d))) ?ds"
  have ds: "d \<in> set ?ds \<longleftrightarrow> (\<exists>r\<in>set (rec_held_shares ?a). hs_needs_consolidation (rcs_held_share r) \<and>
      compatible_share (ce_crypto E) root r \<and> rcs_held_by r = d)" for d
    by (auto simp: needs_to_consolidate_def compatibility_found [OF root])
  then have ms: "needs_consolidation_mutations indices ?asr ?ds = (Ok ?ms :: (restoration_error, _) result)"
    using indices(2) by (intro needs_consolidation_total) fastforce
  obtain asr co1 rng' where new: "mutate_new_key E (rst_key_name st) root indices ek (rst_key_purpose st) rng co
      = (Ok (asr, co1, rng') :: (restoration_error, _) result)"
    using mutate_new_key_total by blast
  have "list_all always_applied ?ms" by (simp add: list_all_iff always_applied_def)
  then obtain co2 where co2: "coord_mutate_all E ?ms co1 = (Ok co2 :: (restoration_error, _) result)"
    using always_applied_all by blast
  obtain co3 where co3: "coord_mutate E (RestorationMutation (DeleteRestoration rid)) co2 = (Ok co3 :: (restoration_error, _) result)"
    using mutate_restoration_eq by blast
  note pending = mutate_needs_consolidation [OF co2]
  have wf2: "bt_wf (restoring co2)"
    using wf pending mutate_new_key_restoration [OF new] by (simp add: coord_restorations_wf_def restoring_def)
  have "get_restoration_state rid co3 = None" "set (rs_pending (fc_restoration co3)) = set (rs_pending (fc_restoration co2))"
    using mutate_restorationD(1) [OF co3] wf2
    by (auto simp: coord_apply_restoration_def get_restoration_state_def restoring_def bt_get_remove)
  moreover have "finish_restoring E rid ek rng co = ((co3, rng'), Ok ?asr)"
    using st root indices(1) new ms co2 co3 by (simp add: finish_restoring_def Let_def)
  moreover have "fc_keys co3 = fc_keys co1" using mutate_restorationD(2) [OF co3] pending by simp
  ultimately show ?thesis using pending ds by (intro that [OF new, of co3]) auto
qed

subsection \<open>A concrete restoration\<close>

definition demo_rid :: restoration_id where
  "demo_rid = RestorationId [1]"

definition demo_recover :: "byte \<Rightarrow> share_index \<Rightarrow> recover_share" where
  "demo_recover b i = \<lparr>rcs_held_by = DeviceId [b], rcs_held_share =
     \<lparr>hs_access_structure_ref = None, hs_share_image = ShareImage i [b], hs_threshold = None,
      hs_key_name = None, hs_purpose = None, hs_needs_consolidation = True\<rparr>\<rparr>"

definition demo_restoration :: "recover_share list \<Rightarrow> shared_key option \<Rightarrow> restoration_state" where
  "demo_restoration shares k = \<lparr>rst_restoration_id = demo_rid, rst_key_name = ''k'',
     rst_access_structure = \<lparr>rec_starting_threshold = None, rec_held_shares = shares, rec_shared_key = k\<rparr>,
     rst_key_purpose = PurposeTest, rst_fingerprint = []\<rparr>"

definition demo_restoring :: "frost_coordinator \<Rightarrow> restoration_state \<Rightarrow> bool" where
  "demo_restoring co st \<longleftrightarrow> coord_run demo_coord_env [] [] [] co \<and> fc_keys co = [] \<and>
     fc_fingerprint co = [] \<and> restoring co = [(demo_rid, st)]"

lemma demo_restoring_lookup: "demo_restoring co st \<Longrightarrow> get_restoration_state demo_rid co = Some st"
  by (simp add: demo_restoring_def get_restoration_state_def bt_get_def)

lemma demo_restoring_start: "\<exists>co. demo_restoring co (demo_restoration [] None)"
proof -
  obtain co where co: "start_restoring_key demo_coord_env ''k'' None PurposeTest demo_rid (new_coordinator []) =
      (Ok co :: (core_error, _) result)" "restoring co = [(demo_rid, demo_restoration [] None)]" "fc_keys co = []" "fc_fingerprint co = []"
    by (auto simp: start_restoring_key_def get_restoration_state_def restoring_def coord_mutate_def coord_apply_def
        coord_apply_restoration_def apply_new_restoration_def coord_push_def new_coordinator_def empty_restorations_def
        demo_restoration_def bt_get_def)
  have "coord_run demo_coord_env [] [] [] co" by (rule run_op [OF run_start op_start_restoring [OF co(1)]])
  then show ?thesis using co by (auto simp: demo_restoring_def)
qed

text \<open>A share that is checked goes in.\<close>

lemma demo_restoring_add:
  assumes "demo_restoring co (demo_restoration shares None)"
    and "\<forall>r'\<in>set shares. rcs_image r' \<noteq> rcs_image r" "hs_access_structure_ref (rcs_held_share r) = None"
  shows "\<exists>co'. add_recovery_share demo_coord_env demo_rid r ek co = (co', Ok ()) \<and>
    demo_restoring co' (demo_restoration (shares @ [r]) (rec_shared_key (add_share demo_crypto demo_frost_ops r []
      (rst_access_structure (demo_restoration shares None)))))"
proof -
  let ?st = "demo_restoration shares None"
  have co: "coord_run demo_coord_env [] [] [] co" "fc_keys co = []" "fc_fingerprint co = []" "restoring co = [(demo_rid, ?st)]"
    using assms(1) by (simp_all add: demo_restoring_def)
  have new: "bt_get (share_image_to_devices (rst_access_structure ?st)) (rcs_image r) = None"
    using assms(2) by (auto simp: share_image_to_devices_get demo_restoration_def)
  have "check_share_compatible demo_coord_env demo_rid r ek co = Ok ()"
    using co(2,4) assms(3) demo_restoring_lookup [OF assms(1)] new
    by (simp add: check_share_compatible_def find_share_def coord_access_structures_def
        bt_values_def restoring_def [symmetric] demo_restoration_def location_allows_def)
  moreover obtain co' where co': "coord_mutate demo_coord_env (RestorationMutation (RestorationProgress2 demo_rid (rcs_held_by r) (rcs_held_share r))) co
      = (Ok co' :: (restore_share_error, _) result)"
    using mutate_restoration_eq by blast
  ultimately have add: "add_recovery_share demo_coord_env demo_rid r ek co = (co', Ok ())"
    by (simp add: add_recovery_share_def)
  have run: "coord_run demo_coord_env [] [] [] co'"
    using run_op [OF co(1) op_add_recovery_share [of demo_coord_env co demo_rid r ek]] by (simp add: add)
  have r: "\<lparr>rcs_held_by = rcs_held_by r, rcs_held_share = rcs_held_share r\<rparr> = r" by simp
  have "\<not> list_ex (is_share_of (rcs_held_by r) (rcs_image r)) shares"
    using assms(2) by (auto simp: list_ex_iff is_share_of_def)
  then have "restoring co' = [(demo_rid, demo_restoration (shares @ [r]) (rec_shared_key (add_share demo_crypto demo_frost_ops r []
      (rst_access_structure ?st))))]"
    using mutate_restorationD(1) [OF co'] co(3,4) assms(3)
    by (simp add: restoring_def coord_apply_restoration_def apply_progress_def bt_get_def Let_def has_got_share_def
        demo_restoration_def add_share_def r)
  then show ?thesis
    using add run mutate_restorationD(2,3) [OF co'] co(2,3) by (auto simp: demo_restoring_def)
qed

lemma demo_first_share:
  "\<exists>co. demo_restoring co (demo_restoration [demo_recover 1 1] None)"
proof -
  obtain co where co: "demo_restoring co (demo_restoration [] None)" using demo_restoring_start by blast
  have "rec_shared_key (add_share demo_crypto demo_frost_ops (demo_recover 1 1) []
      (rst_access_structure (demo_restoration [] None))) = None" by code_simp
  then show ?thesis using demo_restoring_add [OF co, of "demo_recover 1 1"] by (auto simp: demo_recover_def)
qed

lemma demo_second_share:
  "\<exists>co. demo_restoring co (demo_restoration [demo_recover 1 1, demo_recover 2 2] (Some [[1], [2]]))"
proof -
  obtain co where co: "demo_restoring co (demo_restoration [demo_recover 1 1] None)" using demo_first_share by blast
  have "rec_shared_key (add_share demo_crypto demo_frost_ops (demo_recover 2 2) []
      (rst_access_structure (demo_restoration [demo_recover 1 1] None))) = Some [[1], [2]]" by code_simp
  then show ?thesis using demo_restoring_add [OF co, of "demo_recover 2 2"] by (auto simp: demo_recover_def)
qed

subsection \<open>The properties\<close>

text \<open>A share that is offered to a restoration is either refused, with nothing changed, or it is
  recorded: then the restoration has exactly that share more and its key is searched again among
  all of them, no access structure whose root key can be decrypted has the share, and unless
  the restoration knew the share already no other restoration does; the other restorations and
  the keys stay as they are. The operation does not panic.\<close>

theorem offered_share_recorded:
  assumes "tx_ops_ok (ce_tx_ops E)" "coord_run E fp received written co"
    and "add_recovery_share E rid r ek co = (co', res)"
    and "get_restoration_state rid co = Some st"
  shows "(\<exists>e. res = Err e) \<and> co' = co \<or>
    res = Ok () \<and> fc_keys co' = fc_keys co \<and>
    get_restoration_state rid co' = Some (st\<lparr>rst_access_structure :=
      add_share (ce_crypto E) (ce_frost_ops E) r (fc_fingerprint co) (rst_access_structure st)\<rparr>) \<and>
    (\<forall>rid'. rid' \<noteq> rid \<longrightarrow> get_restoration_state rid' co' = get_restoration_state rid' co) \<and>
    (\<forall>a\<in>set (coord_access_structures co). \<not> on_access_structure (ce_crypto E) (rcs_image r) ek co a) \<and>
    (\<forall>rid' st'. rid' \<noteq> rid \<longrightarrow> get_restoration_state rid' co = Some st' \<longrightarrow>
       restoration_has (ce_crypto E) (rcs_image r) st' \<longrightarrow> restoration_has (ce_crypto E) (rcs_image r) st)"
proof (cases "check_share_compatible E rid r ek co")
  case (Ok u)
  have wf: "coord_keys_wf (ce_crypto E) co" "coord_restorations_wf E co"
    using coord_run_good [OF assms(1,2)] by (simp_all add: coord_good_def coord_wf_def)
  have ok: "check_share_compatible E rid r ek co = Ok ()" using Ok by simp
  note accepted = accepted_share [OF ok wf assms(4)]
  obtain co1 where co1: "coord_mutate E (RestorationMutation (RestorationProgress2 rid (rcs_held_by r) (rcs_held_share r))) co
      = (Ok co1 :: (restore_share_error, _) result)"
    using mutate_restoration_eq by blast
  have r: "r = \<lparr>rcs_held_by = rcs_held_by r, rcs_held_share = rcs_held_share r\<rparr>" by simp
  have "co' = co1" "res = Ok ()" using assms(3) ok co1 by (simp_all add: add_recovery_share_def)
  then show ?thesis
    using accepted mutate_restorationD(2) [OF co1] recorded_share [OF co1 assms(4)] by (subst r) auto
next
  case (Err e)
  then have "res = Err e" "co' = co" using assms(3) by (simp_all add: add_recovery_share_def)
  then show ?thesis by blast
next
  case (Panic m)
  have "coord_keys_wf (ce_crypto E) co" "coord_restorations_wf E co"
    using coord_run_good [OF assms(1,2)] by (simp_all add: coord_good_def coord_wf_def)
  then show ?thesis using Panic check_share_total [of E co rid r ek] by simp
qed

theorem offered_share_recorded_witness:
  "\<exists>co co'. add_recovery_share demo_coord_env demo_rid (demo_recover 2 2) [] co = (co', Ok ()) \<and>
     get_restoration_state demo_rid co' = Some (demo_restoration [demo_recover 1 1, demo_recover 2 2] (Some [[1], [2]]))"
proof -
  let ?st = "demo_restoration [demo_recover 1 1] None" and ?r = "demo_recover 2 2"
  obtain co where co: "demo_restoring co ?st" using demo_first_share by blast
  obtain co' where add: "add_recovery_share demo_coord_env demo_rid ?r [] co = (co', Ok ())"
    using demo_restoring_add [OF co, of ?r "[]"] by (auto simp: demo_recover_def)
  have "?st\<lparr>rst_access_structure := add_share demo_crypto demo_frost_ops ?r [] (rst_access_structure ?st)\<rparr> =
      demo_restoration [demo_recover 1 1, ?r] (Some [[1], [2]])" by code_simp
  then show ?thesis
    using offered_share_recorded [of demo_coord_env, OF _ _ add demo_restoring_lookup [OF co]] co add demo_tx_ops_ok
    unfolding demo_restoring_def by (intro exI [of _ co] exI [of _ co']) auto
qed

text \<open>C38. A restoration whose key has been found can always be finished: \<^verbatim>\<open>finish_restoring\<close> then neither
  fails nor panics. The key is the interpolation of collected shares at different indices that
  passes the fingerprint check; the restoration is gone afterwards, the access structure of the key
  exists, knows every device that gave a share on the key under the index of such a share of it,
  and each of those that need it is waiting to consolidate; if the key was not known before, the
  coordinator can decrypt its root key again.\<close>

theorem restoration_finishes:
  assumes "tx_ops_ok (ce_tx_ops E)" "coord_run E fp received written co"
    and "get_restoration_state rid co = Some st"
    and "rec_shared_key (rst_access_structure st) = Some root"
  shows "\<exists>co' rng' a t c b. let asr = access_structure_ref_of (ce_crypto E) root in
    finish_restoring E rid ek rng co = ((co', rng'), Ok asr) \<and>
    selection (map rcs_image (rec_held_shares (rst_access_structure st))) t c \<and>
    root = interpolate (ce_frost_ops E) c \<and> accepted (ce_frost_ops E) (fc_fingerprint co) t root b \<and>
    get_restoration_state rid co' = None \<and> lookup_access_structure asr co' = Some a \<and>
    (\<forall>r\<in>set (rec_held_shares (rst_access_structure st)). compatible_share (ce_crypto E) root r \<longrightarrow>
       (\<exists>i. bt_get (cas_device_to_share_index a) (rcs_held_by r) = Some i \<and>
          has_got_share (rst_access_structure st) (rcs_held_by r) (shared_share_image (ce_crypto E) root i) \<and>
          (hs_needs_consolidation (rcs_held_share r) \<longrightarrow>
             PendingConsolidation (rcs_held_by r) asr i \<in> set (rs_pending (fc_restoration co'))))) \<and>
    (crypto_ok (ce_crypto E) \<and> tweak_constant_term (ce_crypto E) \<and> root \<noteq> [] \<and>
       valid_point (ce_crypto E) (shared_public_key root) \<and> bt_get (fc_keys co) (asr_key_id asr) = None \<longrightarrow>
       coord_root_shared_key (ce_crypto E) asr ek co' = Some root)"
proof -
  let ?C = "ce_crypto E" and ?a = "rst_access_structure st"
  let ?asr = "access_structure_ref_of ?C root"
  obtain indices where i: "compatible_device_to_share_index ?C ?a = Some indices" "bt_wf indices"
      "\<forall>r\<in>set (rec_held_shares ?a). compatible_share ?C root r \<longrightarrow> (\<exists>i. bt_get indices (rcs_held_by r) = Some i)"
      "\<And>d i. bt_get indices d = Some i \<Longrightarrow> has_got_share ?a d (shared_share_image ?C root i)"
    by (rule compatible_indices [OF assms(4), of ?C]) blast
  obtain asr co1 co' rng' where new: "mutate_new_key E (rst_key_name st) root indices ek (rst_key_purpose st) rng co =
        (Ok (asr, co1, rng') :: (restoration_error, _) result)"
    and fin: "finish_restoring E rid ek rng co = ((co', rng'), Ok ?asr)" "get_restoration_state rid co' = None"
      "fc_keys co' = fc_keys co1"
    and pending: "\<forall>r\<in>set (rec_held_shares ?a). compatible_share ?C root r \<longrightarrow>
       hs_needs_consolidation (rcs_held_share r) \<longrightarrow>
       PendingConsolidation (rcs_held_by r) ?asr (the (bt_get indices (rcs_held_by r))) \<in> set (rs_pending (fc_restoration co'))"
    by (rule finish_restoring_total [OF coord_run_restorations [OF assms(1,2)] assms(3,4) i(1,3), where ek = ek and rng = rng]) (rule that, assumption+)
  have asr: "asr = ?asr" using mutate_new_key_holds [OF new i(2)] by blast
  obtain xk ct f where "key_holds co1 ?asr xk ct (f ++ bt_get indices)"
    using mutate_new_key_holds [OF new i(2)] asr by blast
  then obtain a where a: "lookup_access_structure ?asr co1 = Some a" "bt_get (cas_device_to_share_index a) = f ++ bt_get indices"
    by (rule key_holds_lookup)
  obtain t found where "find_valid_subset ?C (ce_frost_ops E) (map rcs_image (rec_held_shares ?a)) (fc_fingerprint co) t = Some (found, root)"
    using coord_run_restoration [OF assms(1-3)] assms(4) unfolding restoration_wf_def by blast
  from found_selection [OF this] obtain c b where c: "selection (map rcs_image (rec_held_shares ?a)) t c"
      "root = interpolate (ce_frost_ops E) c" "accepted (ce_frost_ops E) (fc_fingerprint co) t root b"
    by blast
  have shares: "\<exists>i. bt_get (cas_device_to_share_index a) (rcs_held_by r) = Some i \<and>
      has_got_share ?a (rcs_held_by r) (shared_share_image ?C root i) \<and>
      (hs_needs_consolidation (rcs_held_share r) \<longrightarrow> PendingConsolidation (rcs_held_by r) ?asr i \<in> set (rs_pending (fc_restoration co')))"
    if "r \<in> set (rec_held_shares ?a)" "compatible_share ?C root r" for r
    using i(3,4) pending a(2) that by fastforce
  have "coord_root_shared_key ?C ?asr ek co' = Some root"
    if "crypto_ok ?C" "tweak_constant_term ?C" "root \<noteq> []" "valid_point ?C (shared_public_key root)"
      "bt_get (fc_keys co) (asr_key_id ?asr) = None"
    using new_key_recovered [OF that(1-4) new i(2)] that(5) fin(3) by (simp add: asr coord_root_shared_key_def)
  moreover have "lookup_access_structure ?asr co' = Some a" using a(1) fin(3) by (simp add: lookup_access_structure_def)
  ultimately show ?thesis
    unfolding Let_def using fin(1,2) c shares
    by (intro exI [of _ co'] exI [of _ rng'] exI [of _ a] exI [of _ t] exI [of _ c] exI [of _ b]) blast
qed

theorem restoration_finishes_witness:
  "\<exists>co co' rng' a i. finish_restoring demo_coord_env demo_rid [4] demo_rng co =
       ((co', rng'), Ok (access_structure_ref_of demo_crypto [[1], [2]])) \<and>
     lookup_access_structure (access_structure_ref_of demo_crypto [[1], [2]]) co' = Some a \<and>
     bt_get (cas_device_to_share_index a) (DeviceId [1]) = Some i \<and>
     PendingConsolidation (DeviceId [1]) (access_structure_ref_of demo_crypto [[1], [2]]) i
       \<in> set (rs_pending (fc_restoration co'))"
proof -
  let ?st = "demo_restoration [demo_recover 1 1, demo_recover 2 2] (Some [[1], [2]])"
  obtain co where co: "demo_restoring co ?st" using demo_second_share by blast
  have r: "demo_recover 1 1 \<in> set (rec_held_shares (rst_access_structure ?st))"
      "compatible_share demo_crypto [[1], [2]] (demo_recover 1 1)"
      "rcs_held_by (demo_recover 1 1) = DeviceId [1]" "hs_needs_consolidation (rcs_held_share (demo_recover 1 1))"
    by (simp_all add: demo_restoration_def compatible_share_def demo_recover_def shared_share_image_def demo_crypto_def)
  have key: "rec_shared_key (rst_access_structure ?st) = Some [[1], [2]]" by (simp add: demo_restoration_def)
  have run: "coord_run demo_coord_env [] [] [] co" using co by (simp add: demo_restoring_def)
  have tx: "tx_ops_ok (ce_tx_ops demo_coord_env)" by (simp add: demo_tx_ops_ok)
  from restoration_finishes [OF tx run demo_restoring_lookup [OF co] key, of "[4]" demo_rng] r show ?thesis
    unfolding Let_def demo_coord_env_simps by (metis (no_types, lifting))
qed

end
