(* ===== verification/DeviceState.thy ===== *)
theory DeviceState
  imports Messages StagedMutations
begin

section \<open>The state of a device\<close>

text \<open>
  Models the data of \<^verbatim>\<open>frostsnap_core/src/device.rs\<close>, \<^verbatim>\<open>device/keys.rs\<close>,
  and the states of \<^verbatim>\<open>device/keygen.rs\<close> and
  \<^verbatim>\<open>device/restoration.rs\<close>: what a device keeps of the keys it holds shares of, the phases
  between a message and the user's confirmation, and the mutations through which everything
  durable is changed. The locale \<open>mutation_log\<close> states what staging mutations promises: that
  replaying them on the state they started from gives the durable state.
\<close>

subsection \<open>Encrypted shares\<close>

record encrypted_share =
  es_share_image :: share_image
  es_ciphertext :: ciphertext

definition es_encrypt ::
  "crypto \<Rightarrow> device_prf \<Rightarrow> secret_share \<Rightarrow> access_structure_ref \<Rightarrow> bytes \<Rightarrow> rng \<Rightarrow>
    encrypted_share \<times> rng" where
  "es_encrypt C prf s asr contrib rng =
     (let key = get_share_encryption_key prf (index_to_bytes C) asr (sh_index s) contrib;
          (ct, rng) = ct_encrypt C key (sh_scalar s) rng
      in (\<lparr>es_share_image = secret_share_image C s, es_ciphertext = ct\<rparr>, rng))"

definition es_decrypt ::
  "crypto \<Rightarrow> device_prf \<Rightarrow> encrypted_share \<Rightarrow> access_structure_ref \<Rightarrow> bytes \<Rightarrow> secret_share option" where
  "es_decrypt C prf es asr contrib =
     (let i = image_index (es_share_image es);
          key = get_share_encryption_key prf (index_to_bytes C) asr i contrib
      in map_option (\<lambda>v. \<lparr>sh_index = i, sh_scalar = v\<rparr>) (ct_decrypt C key (es_ciphertext es)))"

lemma es_decrypt_encrypt:
  assumes "crypto_ok C"
  shows "es_decrypt C prf (fst (es_encrypt C prf s asr contrib rng)) asr contrib = Some s \<and>
    es_share_image (fst (es_encrypt C prf s asr contrib rng)) = secret_share_image C s"
  using assms
  by (auto simp: es_decrypt_def es_encrypt_def ct_decrypt_def ct_encrypt_def Let_def rng_draw_def
      secret_share_image_def crypto_ok_def split: prod.splits)

subsection \<open>Keys\<close>

record access_structure_data =
  asd_kind :: access_structure_kind
  asd_threshold :: nat
  asd_shares :: "(share_index, encrypted_share) btree"

record key_data =
  kd_access_structures :: "(access_structure_id, access_structure_data) btree"
  kd_purpose :: key_purpose
  kd_key_name :: string
  kd_verified :: bool

definition bitcoin_network :: "key_purpose \<Rightarrow> network option" where
  "bitcoin_network p = (case p of PurposeBitcoin n \<Rightarrow> Some n | _ \<Rightarrow> None)"

definition key_type_noun :: "key_purpose \<Rightarrow> string" where
  "key_type_noun p =
     (case p of
        PurposeBitcoin _ \<Rightarrow> ''wallet''
      | PurposeNostr \<Rightarrow> ''Nostr account''
      | PurposeTest \<Rightarrow> ''test key'')"

subsection \<open>Key generation phases\<close>

text \<open>The participant's states of the protocol are opaque, and the protocol's operations are
  parameters, gathered in \<open>pedpop\<close>. Its errors are reported in the error's text only.\<close>

type_synonym contributor = bytes
type_synonym share_receiver = bytes

record pedpop =
  gen_keygen_input ::
    "nat \<Rightarrow> point list \<Rightarrow> point list \<Rightarrow> nat \<Rightarrow> rng \<Rightarrow> (contributor \<times> keygen_input) option \<times> rng"
  verify_agg_input ::
    "contributor \<Rightarrow> agg_keygen_input \<Rightarrow> keypair \<Rightarrow> (share_receiver \<times> vrf_proof) option"
  receiver_shared_key :: "share_receiver \<Rightarrow> shared_key"
  check_fingerprint :: "fingerprint \<Rightarrow> shared_key \<Rightarrow> bool"
  finalize_receiver ::
    "share_receiver \<Rightarrow> certificate \<Rightarrow> (certified_keygen \<times> paired_share) option"
  certified_n_receivers :: "certified_keygen \<Rightarrow> nat"
  certified_shared_key :: "certified_keygen \<Rightarrow> shared_key"
  session_hash_of :: "certified_keygen \<Rightarrow> session_hash"

record keygen_phase1 =
  kp1_input_state :: contributor
  kp1_threshold :: nat
  kp1_key_name :: string
  kp1_key_purpose :: key_purpose

record keygen_phase2 =
  kp2_keygen_id :: keygen_id
  kp2_share_receiver :: share_receiver
  kp2_key_name :: string
  kp2_key_purpose :: key_purpose

record keygen_phase3 =
  kp3_keygen_id :: keygen_id
  kp3_session_hash :: session_hash
  kp3_key_name :: string
  kp3_key_purpose :: key_purpose
  kp3_n_receivers :: nat
  kp3_shared_key :: shared_key
  kp3_secret_share :: paired_share

record keygen_phase4 =
  kp4_key_name :: string
  kp4_key_purpose :: key_purpose
  kp4_access_structure_ref :: access_structure_ref
  kp4_access_structure_kind :: access_structure_kind
  kp4_encrypted_share :: encrypted_share
  kp4_threshold :: nat

record keygen_state =
  tmp_phase1 :: "(keygen_id, keygen_phase1) btree"
  tmp_phase2 :: "(keygen_id, keygen_phase2) btree"
  tmp_pending_finalize :: "(keygen_id, session_hash \<times> keygen_phase4) btree"

definition empty_keygen_state :: keygen_state where
  "empty_keygen_state = \<lparr>tmp_phase1 = [], tmp_phase2 = [], tmp_pending_finalize = []\<rparr>"

subsection \<open>Restoration\<close>

record saved_backup =
  svb1_share_backup :: share_backup
  svb1_threshold :: nat
  svb1_purpose :: key_purpose
  svb1_key_name :: string

record saved_backup2 =
  svb_share_backup :: share_backup
  svb_threshold :: "nat option"
  svb_purpose :: "key_purpose option"
  svb_key_name :: "string option"

definition saved_backup2_of :: "saved_backup \<Rightarrow> saved_backup2" where
  "saved_backup2_of b =
     \<lparr>svb_share_backup = svb1_share_backup b, svb_threshold = Some (svb1_threshold b),
      svb_purpose = Some (svb1_purpose b), svb_key_name = Some (svb1_key_name b)\<rparr>"

record device_restoration_state =
  tmp_loaded_backups :: "(share_image, share_backup) btree"
  saved_backups :: "(share_image, saved_backup2) btree"

datatype restoration_mutation =
    DrSave saved_backup
  | DrUnSave share_image
  | DrSave2 saved_backup2

text \<open>The legacy form is converted and applied in its new form, which is what is returned.\<close>

function apply_mutation_restoration ::
  "crypto \<Rightarrow> restoration_mutation \<Rightarrow> device_restoration_state \<Rightarrow>
    device_restoration_state \<times> restoration_mutation option" where
  "apply_mutation_restoration C (DrSave b) r =
     apply_mutation_restoration C (DrSave2 (saved_backup2_of b)) r"
| "apply_mutation_restoration C (DrUnSave im) r = (r, Some (DrUnSave im))"
| "apply_mutation_restoration C (DrSave2 b) r =
     (r\<lparr>saved_backups := bt_insert (backup_share_image C (svb_share_backup b)) b (saved_backups r)\<rparr>,
      Some (DrSave2 b))"
  by pat_completeness auto
termination
  by (relation "measure (\<lambda>(C, m, r). case m of DrSave b \<Rightarrow> 1 | _ \<Rightarrow> 0)") auto

definition remove_backups_with_share_image ::
  "share_image \<Rightarrow> device_restoration_state \<Rightarrow> device_restoration_state" where
  "remove_backups_with_share_image im r =
     \<lparr>tmp_loaded_backups = bt_remove im (tmp_loaded_backups r),
      saved_backups = bt_remove im (saved_backups r)\<rparr>"

record complete_share =
  cs_access_structure_ref :: access_structure_ref
  cs_key_name :: string
  cs_purpose :: key_purpose
  cs_threshold :: nat
  cs_secret_share :: secret_share

record consolidate_phase =
  cp_complete_share :: complete_share
  cp_coord_contrib :: bytes

record backup_display_phase =
  bdp_access_structure_ref :: access_structure_ref
  bdp_share_index :: share_index
  bdp_ciphertext :: ciphertext
  bdp_contrib :: bytes
  bdp_key_name :: string
  bdp_root_shared_key :: shared_key

datatype to_user_restoration =
    EnterBackup enter_physical_id
  | BackupSaved share_image "string option" "key_purpose option" "nat option"
  | ConsolidateBackupPhase consolidate_phase
  | DisplayBackupPhase string access_structure_ref backup_display_phase
  | CheckBackupPhase string access_structure_ref backup_display_phase

subsection \<open>What a device sends\<close>

record sign_phase1 =
  sp1_group_sign_req :: "checked_sign_task group_sign_req"
  sp1_device_sign_req :: device_sign_req
  sp1_encrypted_share :: encrypted_share
  sp1_session_id :: sign_session_id

datatype device_to_user =
    FinalizeKeyGen string
  | CheckKeyGen keygen_phase3
  | SignatureRequest sign_phase1
  | VerifyAddress bytes bip32_path
  | ToUserRestoration to_user_restoration
  | NonceJobs nonce_job_batch

datatype device_send =
    ToUser device_to_user
  | ToCoordinator device_to_coordinator

subsection \<open>The device\<close>

record save_share_mutation =
  ssm_access_structure_ref :: access_structure_ref
  ssm_encrypted_share :: encrypted_share

datatype device_key_mutation =
    DkNewKey key_id string key_purpose
  | DkNewAccessStructure access_structure_ref nat access_structure_kind
  | DkSaveShare save_share_mutation

datatype device_mutation =
    DmKeygen device_key_mutation
  | DmRestoration restoration_mutation

record 's frost_signer =
  fs_keypair :: keypair
  fs_keys :: "(key_id, key_data) btree"
  fs_nonce_slots :: "'s ab_slots"
  fs_mutations :: "device_mutation list"
  fs_keygen :: keygen_state
  fs_restoration :: device_restoration_state
  fs_keygen_fingerprint :: fingerprint
  fs_nonce_batch_size :: nat

definition NONCE_BATCH_SIZE :: nat where
  "NONCE_BATCH_SIZE = 30"

definition new_signer :: "fingerprint \<Rightarrow> keypair \<Rightarrow> 's ab_slots \<Rightarrow> 's frost_signer" where
  "new_signer frost_v0 keypair slots =
     \<lparr>fs_keypair = keypair, fs_keys = [], fs_nonce_slots = slots, fs_mutations = [],
      fs_keygen = empty_keygen_state,
      fs_restoration = \<lparr>tmp_loaded_backups = [], saved_backups = []\<rparr>,
      fs_keygen_fingerprint = frost_v0, fs_nonce_batch_size = NONCE_BATCH_SIZE\<rparr>"

definition signer_device_id :: "'s frost_signer \<Rightarrow> device_id" where
  "signer_device_id d = DeviceId (kp_public (fs_keypair d))"

definition apply_new_key :: "key_id \<Rightarrow> string \<Rightarrow> key_purpose \<Rightarrow> 's frost_signer \<Rightarrow> 's frost_signer" where
  "apply_new_key key_id key_name purpose d =
     d\<lparr>fs_keys := bt_insert key_id \<lparr>kd_access_structures = [], kd_purpose = purpose,
        kd_key_name = key_name, kd_verified = False\<rparr> (fs_keys d)\<rparr>"

definition apply_new_access_structure ::
  "access_structure_ref \<Rightarrow> nat \<Rightarrow> access_structure_kind \<Rightarrow> 's frost_signer \<Rightarrow> 's frost_signer" where
  "apply_new_access_structure asr threshold kind d =
     d\<lparr>fs_keys := bt_modify (asr_key_id asr) (\<lambda>kd. kd\<lparr>kd_access_structures :=
        bt_insert (asr_access_structure_id asr)
          \<lparr>asd_kind = kind, asd_threshold = threshold, asd_shares = []\<rparr>
          (kd_access_structures kd)\<rparr>) (fs_keys d)\<rparr>"

definition apply_save_share :: "save_share_mutation \<Rightarrow> 's frost_signer \<Rightarrow> 's frost_signer" where
  "apply_save_share m d =
     (let asr = ssm_access_structure_ref m; es = ssm_encrypted_share m in
      d\<lparr>fs_keys := bt_modify (asr_key_id asr) (\<lambda>kd. kd\<lparr>kd_access_structures :=
          bt_modify (asr_access_structure_id asr)
            (\<lambda>asd. asd\<lparr>asd_shares := bt_insert (image_index (es_share_image es)) es (asd_shares asd)\<rparr>)
            (kd_access_structures kd)\<rparr>) (fs_keys d),
        fs_restoration := remove_backups_with_share_image (es_share_image es) (fs_restoration d)\<rparr>)"

definition device_apply_mutation ::
  "crypto \<Rightarrow> device_mutation \<Rightarrow> 's frost_signer \<Rightarrow> 's frost_signer \<times> device_mutation option" where
  "device_apply_mutation C m d =
     (case m of
        DmKeygen (DkNewKey key_id key_name purpose) \<Rightarrow> (apply_new_key key_id key_name purpose d, Some m)
      | DmKeygen (DkNewAccessStructure asr threshold kind) \<Rightarrow>
          (apply_new_access_structure asr threshold kind d, Some m)
      | DmKeygen (DkSaveShare s) \<Rightarrow> (apply_save_share s d, Some m)
      | DmRestoration rm \<Rightarrow>
          (let (r, m') = apply_mutation_restoration C rm (fs_restoration d)
           in (d\<lparr>fs_restoration := r\<rparr>, map_option DmRestoration m')))"

definition device_push :: "device_mutation \<Rightarrow> 's frost_signer \<Rightarrow> 's frost_signer" where
  "device_push m d = d\<lparr>fs_mutations := fs_mutations d @ [m]\<rparr>"

definition device_mutate :: "crypto \<Rightarrow> device_mutation \<Rightarrow> 's frost_signer \<Rightarrow> 's frost_signer" where
  "device_mutate C m d =
     (case device_apply_mutation C m d of
        (d', Some m') \<Rightarrow> device_push m' d'
      | (d', None) \<Rightarrow> d')"

definition clear_unfinished_keygens :: "'s frost_signer \<Rightarrow> 's frost_signer" where
  "clear_unfinished_keygens d = d\<lparr>fs_keygen := empty_keygen_state\<rparr>"

definition device_clear_tmp_data :: "'s frost_signer \<Rightarrow> 's frost_signer" where
  "device_clear_tmp_data d =
     (let d = clear_unfinished_keygens d
      in d\<lparr>fs_restoration := (fs_restoration d)\<lparr>tmp_loaded_backups := []\<rparr>\<rparr>)"

definition save_complete_share :: "crypto \<Rightarrow> keygen_phase4 \<Rightarrow> 's frost_signer \<Rightarrow> 's frost_signer" where
  "save_complete_share C p d =
     (let asr = kp4_access_structure_ref p;
          d = device_mutate C (DmKeygen (DkNewKey (asr_key_id asr) (kp4_key_name p) (kp4_key_purpose p))) d;
          d = device_mutate C (DmKeygen (DkNewAccessStructure asr (kp4_threshold p)
                (kp4_access_structure_kind p))) d
      in device_mutate C (DmKeygen (DkSaveShare
           \<lparr>ssm_access_structure_ref = asr, ssm_encrypted_share = kp4_encrypted_share p\<rparr>)) d)"

definition wallet_network :: "'s frost_signer \<Rightarrow> key_id \<Rightarrow> network option" where
  "wallet_network d key_id =
     Option.bind (bt_get (fs_keys d) key_id) (\<lambda>kd. bitcoin_network (kd_purpose kd))"

definition get_access_structure ::
  "'s frost_signer \<Rightarrow> access_structure_ref \<Rightarrow> access_structure_data option" where
  "get_access_structure d asr =
     Option.bind (bt_get (fs_keys d) (asr_key_id asr)) (\<lambda>kd.
       bt_get (kd_access_structures kd) (asr_access_structure_id asr))"

definition get_encrypted_share ::
  "'s frost_signer \<Rightarrow> access_structure_ref \<Rightarrow> share_index \<Rightarrow> encrypted_share option" where
  "get_encrypted_share d asr i =
     Option.bind (get_access_structure d asr) (\<lambda>asd. bt_get (asd_shares asd) i)"

subsection \<open>Staging keeps the state recoverable\<close>

text \<open>What a device keeps across a restart, apart from the nonce slots.\<close>

definition device_durable :: "'s frost_signer \<Rightarrow> (key_id, key_data) btree \<times> (share_image, saved_backup2) btree" where
  "device_durable d = (fs_keys d, saved_backups (fs_restoration d))"

lemma restoration_mutation_log:
  "snd (apply_mutation_restoration C m r) = Some m' \<Longrightarrow>
     saved_backups (fst (apply_mutation_restoration C m' r)) =
     saved_backups (fst (apply_mutation_restoration C m r))"
  by (induction C m r rule: apply_mutation_restoration.induct) auto

lemma restoration_mutation_staged: "snd (apply_mutation_restoration C m r) \<noteq> None"
  by (induction C m r rule: apply_mutation_restoration.induct) auto

lemma restoration_mutation_durable:
  "saved_backups r = saved_backups t \<Longrightarrow>
   saved_backups (fst (apply_mutation_restoration C m r)) =
   saved_backups (fst (apply_mutation_restoration C m t)) \<and>
   snd (apply_mutation_restoration C m r) = snd (apply_mutation_restoration C m t)"
  by (induction C m r rule: apply_mutation_restoration.induct) auto

lemma device_apply_mutation_simps:
  "device_apply_mutation C (DmKeygen (DkNewKey k n p)) d = (apply_new_key k n p d, Some (DmKeygen (DkNewKey k n p)))"
  "device_apply_mutation C (DmKeygen (DkNewAccessStructure a t kind)) d =
     (apply_new_access_structure a t kind d, Some (DmKeygen (DkNewAccessStructure a t kind)))"
  "device_apply_mutation C (DmKeygen (DkSaveShare s)) d = (apply_save_share s d, Some (DmKeygen (DkSaveShare s)))"
  "device_apply_mutation C (DmRestoration rm) d =
     (d\<lparr>fs_restoration := fst (apply_mutation_restoration C rm (fs_restoration d))\<rparr>,
      map_option DmRestoration (snd (apply_mutation_restoration C rm (fs_restoration d))))"
  by (simp_all add: device_apply_mutation_def split_beta)

lemma device_mutation_cases:
  obtains k n p where "m = DmKeygen (DkNewKey k n p)"
  | a t kind where "m = DmKeygen (DkNewAccessStructure a t kind)"
  | s where "m = DmKeygen (DkSaveShare s)"
  | rm where "m = DmRestoration rm"
  by (metis device_key_mutation.exhaust device_mutation.exhaust)

lemma device_durable_apply:
  assumes "device_durable s = device_durable t"
  shows "device_durable (fst (device_apply_mutation C m s)) = device_durable (fst (device_apply_mutation C m t))"
  using assms restoration_mutation_durable [of "fs_restoration s" "fs_restoration t" C]
  by (cases m rule: device_mutation_cases)
    (auto simp: device_apply_mutation_simps device_durable_def apply_new_key_def
      apply_new_access_structure_def apply_save_share_def remove_backups_with_share_image_def Let_def)

lemma device_staged_same:
  assumes "snd (device_apply_mutation C m s) = Some m'"
  shows "device_durable (fst (device_apply_mutation C m' s)) = device_durable (fst (device_apply_mutation C m s))"
proof (cases m rule: device_mutation_cases)
  case (4 rm)
  then obtain rm' where rm': "snd (apply_mutation_restoration C rm (fs_restoration s)) = Some rm'"
      "m' = DmRestoration rm'"
    using assms by (auto simp: device_apply_mutation_simps)
  show ?thesis
    using restoration_mutation_log [OF rm'(1)] 4 rm'(2)
    by (simp add: device_apply_mutation_simps device_durable_def)
qed (use assms in \<open>auto simp: device_apply_mutation_simps\<close>)

lemma device_apply_staged: "snd (device_apply_mutation C m s) \<noteq> None"
  by (cases m rule: device_mutation_cases)
    (auto simp: device_apply_mutation_simps restoration_mutation_staged)

lemma device_apply_mutations: "fs_mutations (fst (device_apply_mutation C m s)) = fs_mutations s"
  by (cases m rule: device_mutation_cases)
    (auto simp: device_apply_mutation_simps apply_new_key_def apply_new_access_structure_def
      apply_save_share_def Let_def)

interpretation dev: mutation_log "device_apply_mutation C" "device_mutate C" device_push
  fs_mutations device_durable for C
proof (unfold_locales, goal_cases)
  case (1 m s)
  show ?case by (rule device_mutate_def)
next
  case (2 m s)
  show ?case by (rule device_apply_mutations)
next
  case (3 m s)
  show ?case by (simp add: device_push_def)
next
  case (4 m s)
  show ?case by (simp add: device_push_def device_durable_def)
next
  case (5 m s)
  then show ?case using device_apply_staged by metis
next
  case (6 s t m)
  then show ?case by (rule device_durable_apply)
next
  case (7 m s m')
  then show ?case by (rule device_staged_same)
qed

end
