(* ===== verification/DeviceKeygen.thy ===== *)
theory DeviceKeygen
  imports DeviceState
begin

section \<open>Key generation on the device\<close>

text \<open>
  Models the handlers of \<^verbatim>\<open>frostsnap_core/src/device/keygen.rs\<close>. A key generation goes through
  its phases by taking its entry out of one temporary map and putting the next one into another;
  phase 3 waits with the user, and the key is saved only by \<^verbatim>\<open>Finalize\<close>. A handler returns the
  device, the generator and the result; what it changed before an error stays changed.
\<close>

record 's device_env =
  de_crypto :: crypto
  de_tx_ops :: tx_ops
  de_nonce_ops :: nonce_ops
  de_slot_ops :: "'s slot_ops"
  de_prf :: device_prf
  de_pedpop :: pedpop
  de_party_session :: "point \<Rightarrow> share_index list \<Rightarrow> pub_nonce \<Rightarrow> schnorr_message \<Rightarrow> bytes"
  de_encode_request :: encode_request

type_synonym 's handled =
  "('s frost_signer \<times> rng) \<times> (core_error, device_send list) result"

definition signer_invalid_message :: "coordinator_to_device \<Rightarrow> string \<Rightarrow> core_error" where
  "signer_invalid_message m reason = InvalidMessage (to_device_kind m) reason"

definition t_of_n :: "keygen_phase3 \<Rightarrow> ('e, nat \<times> nat) result" where
  "t_of_n p =
     and_then (expect ''threshold fits in u16'' (u16_try_from (shared_threshold (kp3_shared_key p))))
       (\<lambda>threshold. Ok (threshold, kp3_n_receivers p))"

definition handle_keygen_begin ::
  "'s device_env \<Rightarrow> keygen_begin \<Rightarrow> coordinator_to_device \<Rightarrow> rng \<Rightarrow> 's frost_signer \<Rightarrow> 's handled" where
  "handle_keygen_begin E b message rng d =
     (let C = de_crypto E in
      or_return (ok_or (signer_invalid_message message ''my device id was not part of the keygen'')
        (position (\<lambda>i. i = signer_device_id d) (kb_devices b))) (d, rng) (\<lambda>my_slot.
      let receiver_keys = map (device_pubkey C) (kb_devices b);
          (generated, rng) = gen_keygen_input (de_pedpop E) (kb_threshold b)
            (kb_coordinator_public_keys b) receiver_keys (u32_of_usize my_slot) rng
      in or_return (ok_or (signer_invalid_message message ''invalid keygen begin'') generated) (d, rng)
        (\<lambda>(input_state, keygen_input).
          ((d\<lparr>fs_keygen := (fs_keygen d)\<lparr>tmp_phase1 := bt_insert (kb_keygen_id b)
              \<lparr>kp1_input_state = input_state, kp1_threshold = kb_threshold b,
               kp1_key_name = kb_key_name b, kp1_key_purpose = kb_purpose b\<rparr>
              (tmp_phase1 (fs_keygen d))\<rparr>\<rparr>, rng),
           Ok [ToCoordinator (DeviceKeyGen (KgResponse (kb_keygen_id b) keygen_input))]))))"

definition handle_keygen_certify_please ::
  "'s device_env \<Rightarrow> keygen_id \<Rightarrow> agg_keygen_input \<Rightarrow> coordinator_to_device \<Rightarrow> rng \<Rightarrow>
    's frost_signer \<Rightarrow> 's handled" where
  "handle_keygen_certify_please E kid agg_input message rng d =
     or_return (ok_or (signer_invalid_message message ''no keygen state for provided keygen_id'')
       (bt_get (tmp_phase1 (fs_keygen d)) kid)) (d, rng) (\<lambda>phase1.
     let d = d\<lparr>fs_keygen := (fs_keygen d)\<lparr>tmp_phase1 := bt_remove kid (tmp_phase1 (fs_keygen d))\<rparr>\<rparr>
     in or_return (ok_or (signer_invalid_message message ''Failed to verify and receive share'')
          (verify_agg_input (de_pedpop E) (kp1_input_state phase1) agg_input (fs_keypair d)))
          (d, rng) (\<lambda>(receiver, vrf_cert).
        if \<not> check_fingerprint (de_pedpop E) (fs_keygen_fingerprint d)
               (receiver_shared_key (de_pedpop E) receiver)
        then ((d, rng), Err (signer_invalid_message message
               ''key generation did not match the fingerprint''))
        else
          ((d\<lparr>fs_keygen := (fs_keygen d)\<lparr>tmp_phase2 := bt_insert kid
              \<lparr>kp2_keygen_id = kid, kp2_share_receiver = receiver,
               kp2_key_name = kp1_key_name phase1, kp2_key_purpose = kp1_key_purpose phase1\<rparr>
              (tmp_phase2 (fs_keygen d))\<rparr>\<rparr>, rng),
           Ok [ToCoordinator (DeviceKeyGen (KgCertify kid vrf_cert))])))"

definition handle_keygen_check ::
  "'s device_env \<Rightarrow> keygen_id \<Rightarrow> certificate \<Rightarrow> coordinator_to_device \<Rightarrow> rng \<Rightarrow>
    's frost_signer \<Rightarrow> 's handled" where
  "handle_keygen_check E kid certificate message rng d =
     or_return (ok_or (signer_invalid_message message ''no keygen state for provided keygen_id'')
       (bt_get (tmp_phase2 (fs_keygen d)) kid)) (d, rng) (\<lambda>phase2.
     let d = d\<lparr>fs_keygen := (fs_keygen d)\<lparr>tmp_phase2 := bt_remove kid (tmp_phase2 (fs_keygen d))\<rparr>\<rparr>
     in or_return (ok_or (signer_invalid_message message ''certification failed'')
          (finalize_receiver (de_pedpop E) (kp2_share_receiver phase2) certificate))
          (d, rng) (\<lambda>(certified, secret_share).
        or_return (expect ''n_receivers fits in u16''
            (u16_try_from (certified_n_receivers (de_pedpop E) certified))) (d, rng) (\<lambda>n_receivers.
          ((d, rng),
           Ok [ToUser (CheckKeyGen
             \<lparr>kp3_keygen_id = kid, kp3_session_hash = session_hash_of (de_pedpop E) certified,
              kp3_key_name = kp2_key_name phase2, kp3_key_purpose = kp2_key_purpose phase2,
              kp3_n_receivers = n_receivers,
              kp3_shared_key = certified_shared_key (de_pedpop E) certified,
              kp3_secret_share = secret_share\<rparr>)]))))"

definition handle_keygen_finalize ::
  "'s device_env \<Rightarrow> keygen_id \<Rightarrow> coordinator_to_device \<Rightarrow> rng \<Rightarrow> 's frost_signer \<Rightarrow> 's handled" where
  "handle_keygen_finalize E kid message rng d =
     or_return (ok_or (signer_invalid_message message ''device doesn't have keygen'')
       (bt_get (tmp_pending_finalize (fs_keygen d)) kid)) (d, rng) (\<lambda>(session_hash, phase4).
     let d = d\<lparr>fs_keygen := (fs_keygen d)\<lparr>tmp_pending_finalize :=
               bt_remove kid (tmp_pending_finalize (fs_keygen d))\<rparr>\<rparr>
     in ((save_complete_share (de_crypto E) phase4 d, rng),
         Ok [ToUser (FinalizeKeyGen (kp4_key_name phase4))]))"

definition recv_keygen_message ::
  "'s device_env \<Rightarrow> keygen_msg \<Rightarrow> coordinator_to_device \<Rightarrow> rng \<Rightarrow> 's frost_signer \<Rightarrow> 's handled" where
  "recv_keygen_message E m message rng d =
     (case m of
        KgBegin b \<Rightarrow> handle_keygen_begin E b message rng d
      | KgCertifyPlease kid agg_input \<Rightarrow> handle_keygen_certify_please E kid agg_input message rng d
      | KgCheck kid certificate \<Rightarrow> handle_keygen_check E kid certificate message rng d
      | KgFinalize kid \<Rightarrow> handle_keygen_finalize E kid message rng d)"

text \<open>\<^verbatim>\<open>keygen_ack\<close>: the user has confirmed phase 3. The share is encrypted here, with the
  contribution the coordinator will have to give, and the key waits for \<^verbatim>\<open>Finalize\<close>.\<close>

definition keygen_ack_phase4 ::
  "'s device_env \<Rightarrow> keygen_phase3 \<Rightarrow> rng \<Rightarrow> 's frost_signer \<Rightarrow> ('e, keygen_phase4 \<times> rng) result" where
  "keygen_ack_phase4 E p rng d =
     (let C = de_crypto E;
          secret_share = kp3_secret_share p;
          key_id = key_id_of_rootkey C (ps_public_key secret_share);
          root_shared_key = xpub_from_rootkey (kp3_shared_key p);
          app_shared_key = rootkey_to_master_appkey C (shared_key_tweakable C) root_shared_key;
          asr = AccessStructureRef key_id (access_structure_id_of C (xpub_key app_shared_key));
          contrib = share_decryption_contrib C (signer_device_id d)
            (sh_index (ps_share secret_share)) (xpub_key root_shared_key)
      in and_then (expect ''threshold was too large''
            (u16_try_from (shared_threshold (xpub_key app_shared_key)))) (\<lambda>threshold.
          let (es, rng) = es_encrypt C (de_prf E) (ps_share secret_share) asr contrib rng
          in Ok (\<lparr>kp4_key_name = kp3_key_name p, kp4_key_purpose = kp3_key_purpose p,
                  kp4_access_structure_ref = asr, kp4_access_structure_kind = Master,
                  kp4_encrypted_share = es, kp4_threshold = threshold\<rparr>, rng)))"

definition device_keygen_ack ::
  "'s device_env \<Rightarrow> keygen_phase3 \<Rightarrow> rng \<Rightarrow> 's frost_signer \<Rightarrow>
    ('s frost_signer \<times> rng) \<times> (action_error, keygen_ack) result" where
  "device_keygen_ack E p rng d =
     or_return (keygen_ack_phase4 E p rng d) (d, rng) (\<lambda>(phase4, rng).
       ((d\<lparr>fs_keygen := (fs_keygen d)\<lparr>tmp_pending_finalize := bt_insert (kp3_keygen_id p)
            (kp3_session_hash p, phase4) (tmp_pending_finalize (fs_keygen d))\<rparr>\<rparr>, rng),
        Ok \<lparr>ack_session_hash = kp3_session_hash p, ack_keygen_id = kp3_keygen_id p\<rparr>))"

end
