(* ===== verification/DeviceRestoration.thy ===== *)
theory DeviceRestoration
  imports DeviceKeygen
begin

section \<open>Backups and restoration on the device\<close>

text \<open>
  Models the handlers of \<^verbatim>\<open>frostsnap_core/src/device/restoration.rs\<close>: backups typed in by the
  user, saved until the coordinator knows the whole polynomial, then consolidated into an
  encrypted share; and the display of a backup of a share the device holds.
\<close>

definition restoration_invalid :: "coordinator_restoration \<Rightarrow> string \<Rightarrow> core_error" where
  "restoration_invalid m reason = InvalidMessage (restoration_kind m) reason"

definition handle_save_physical_backup2 ::
  "'s device_env \<Rightarrow> held_share2 \<Rightarrow> coordinator_restoration \<Rightarrow> rng \<Rightarrow> 's frost_signer \<Rightarrow> 's handled" where
  "handle_save_physical_backup2 E h message rng d =
     (let r = fs_restoration d; im = hs_share_image h in
      case bt_get (tmp_loaded_backups r) im of
        None \<Rightarrow> ((d, rng), Err (restoration_invalid message
                  ''couldn't find secret share saved for that restoration''))
      | Some backup \<Rightarrow>
          (let d = d\<lparr>fs_restoration := r\<lparr>tmp_loaded_backups := bt_remove im (tmp_loaded_backups r)\<rparr>\<rparr>;
               d = device_mutate (de_crypto E) (DmRestoration (DrSave2
                     \<lparr>svb_share_backup = backup, svb_threshold = hs_threshold h,
                      svb_purpose = hs_purpose h, svb_key_name = hs_key_name h\<rparr>)) d
           in ((d, rng),
               Ok [ToUser (ToUserRestoration (BackupSaved im (hs_key_name h) (hs_purpose h) (hs_threshold h))),
                   ToCoordinator (DeviceRestoration (PhysicalSaved im))])))"

definition loaded_backup :: "'s frost_signer \<Rightarrow> share_image \<Rightarrow> share_backup option" where
  "loaded_backup d im =
     (case bt_get (saved_backups (fs_restoration d)) im of
        Some b \<Rightarrow> Some (svb_share_backup b)
      | None \<Rightarrow> bt_get (tmp_loaded_backups (fs_restoration d)) im)"

definition handle_consolidate ::
  "'s device_env \<Rightarrow> consolidate_backup \<Rightarrow> coordinator_restoration \<Rightarrow> 's frost_signer \<Rightarrow>
    (core_error, device_send list) result" where
  "handle_consolidate E c message d =
     (let C = de_crypto E;
          key = cb_root_shared_key c;
          asr = access_structure_ref_of C key;
          im = shared_share_image C key (cb_share_index c)
      in case loaded_backup d im of
           Some backup \<Rightarrow>
             and_then (map_err (\<lambda>_. restoration_invalid message ''polynomial checksum validation failed'')
               (extract_secret C key backup)) (\<lambda>s.
             if shared_share_image C key (sh_index s) \<noteq> secret_share_image C s
                \<or> sh_index s \<noteq> cb_share_index c
             then Err (restoration_invalid message ''the image didn't match for consolidation'')
             else Ok [ToUser (ToUserRestoration (ConsolidateBackupPhase
               \<lparr>cp_complete_share =
                  \<lparr>cs_access_structure_ref = asr, cs_key_name = cb_key_name c,
                   cs_purpose = cb_purpose c, cs_threshold = shared_threshold key mod 65536,
                   cs_secret_share = s\<rparr>,
                cp_coord_contrib =
                  share_decryption_contrib C (signer_device_id d) (cb_share_index c) key\<rparr>))])
         | None \<Rightarrow>
             if get_encrypted_share d asr (cb_share_index c) = None
             then Err (restoration_invalid message ''we can't consolidate a share we don't know about'')
             else Ok [ToCoordinator (DeviceRestoration (FinishedConsolidation asr (cb_share_index c)))])"

text \<open>Displaying and checking a backup look the share up in the same way.\<close>

definition backup_phase ::
  "'s device_env \<Rightarrow> bytes \<Rightarrow> share_index \<Rightarrow> shared_key \<Rightarrow> coordinator_restoration \<Rightarrow> 's frost_signer \<Rightarrow>
    (core_error, backup_display_phase) result" where
  "backup_phase E contrib i key message d =
     (let asr = access_structure_ref_of (de_crypto E) key in
      and_then (ok_or (restoration_invalid message ''signer doesn't have a share for this key'')
        (bt_get (fs_keys d) (asr_key_id asr))) (\<lambda>kd.
      and_then (ok_or (restoration_invalid message ''no such access structure on this device'')
        (bt_get (kd_access_structures kd) (asr_access_structure_id asr))) (\<lambda>asd.
      and_then (ok_or (restoration_invalid message
          ''access structure exists but this device doesn't have that share'')
        (bt_get (asd_shares asd) i)) (\<lambda>es.
        Ok \<lparr>bdp_access_structure_ref = asr, bdp_share_index = i, bdp_ciphertext = es_ciphertext es,
            bdp_contrib = contrib, bdp_key_name = kd_key_name kd, bdp_root_shared_key = key\<rparr>))))"

definition access_structure_held_shares ::
  "key_id \<Rightarrow> key_data \<Rightarrow> access_structure_id \<Rightarrow> access_structure_data \<Rightarrow> held_share2 list" where
  "access_structure_held_shares kid kd aid asd =
     List.map_filter (\<lambda>es.
       if asd_kind asd = Master
       then Some \<lparr>hs_access_structure_ref = Some (AccessStructureRef kid aid),
                  hs_share_image = es_share_image es, hs_threshold = Some (asd_threshold asd),
                  hs_key_name = Some (kd_key_name kd), hs_purpose = Some (kd_purpose kd),
                  hs_needs_consolidation = False\<rparr>
       else None) (bt_values (asd_shares asd))"

definition held_shares :: "'s frost_signer \<Rightarrow> held_share2 list" where
  "held_shares d =
     concat (map (\<lambda>(kid, kd).
       concat (map (\<lambda>(aid, asd). access_structure_held_shares kid kd aid asd)
         (kd_access_structures kd))) (fs_keys d)) @
     map (\<lambda>(im, b).
       \<lparr>hs_access_structure_ref = None, hs_share_image = im, hs_threshold = svb_threshold b,
        hs_key_name = svb_key_name b, hs_purpose = svb_purpose b, hs_needs_consolidation = True\<rparr>)
       (saved_backups (fs_restoration d))"

text \<open>The legacy \<^verbatim>\<open>SavePhysicalBackup\<close> is handled as its new form.\<close>

function recv_restoration_message ::
  "'s device_env \<Rightarrow> coordinator_restoration \<Rightarrow> rng \<Rightarrow> 's frost_signer \<Rightarrow> 's handled" where
  "recv_restoration_message E (EnterPhysicalBackup eid) rng d =
     ((d, rng), Ok [ToUser (ToUserRestoration (EnterBackup eid))])"
| "recv_restoration_message E (SavePhysicalBackup im key_name purpose threshold) rng d =
     recv_restoration_message E (SavePhysicalBackup2
       \<lparr>hs_access_structure_ref = None, hs_share_image = im, hs_threshold = Some threshold,
        hs_key_name = Some key_name, hs_purpose = Some purpose, hs_needs_consolidation = True\<rparr>) rng d"
| "recv_restoration_message E (SavePhysicalBackup2 h) rng d =
     handle_save_physical_backup2 E h (SavePhysicalBackup2 h) rng d"
| "recv_restoration_message E (Consolidate c) rng d =
     ((d, rng), handle_consolidate E c (Consolidate c) d)"
| "recv_restoration_message E (DisplayBackup asr contrib i key) rng d =
     ((d, rng),
      and_then (backup_phase E contrib i key (DisplayBackup asr contrib i key) d) (\<lambda>p.
        Ok [ToUser (ToUserRestoration (DisplayBackupPhase (bdp_key_name p) (bdp_access_structure_ref p) p))]))"
| "recv_restoration_message E (CheckBackup contrib i key) rng d =
     ((d, rng),
      and_then (backup_phase E contrib i key (CheckBackup contrib i key) d) (\<lambda>p.
        Ok [ToUser (ToUserRestoration (CheckBackupPhase (bdp_key_name p) (bdp_access_structure_ref p) p))]))"
| "recv_restoration_message E RequestHeldShares rng d =
     ((d, rng), Ok [ToCoordinator (DeviceRestoration (HeldShares2 (held_shares d)))])"
  by pat_completeness auto
termination
  by (relation "measure (\<lambda>(E, m, rng, d). case m of SavePhysicalBackup _ _ _ _ \<Rightarrow> 1 | _ \<Rightarrow> 0)") auto

text \<open>The user's confirmations.\<close>

definition tell_coordinator_about_backup_load_result ::
  "crypto \<Rightarrow> enter_physical_id \<Rightarrow> share_backup \<Rightarrow> 's frost_signer \<Rightarrow> 's frost_signer \<times> device_send list" where
  "tell_coordinator_about_backup_load_result C eid backup d =
     (let im = backup_share_image C backup; r = fs_restoration d
      in (d\<lparr>fs_restoration := r\<lparr>tmp_loaded_backups := bt_insert im backup (tmp_loaded_backups r)\<rparr>\<rparr>,
          [ToCoordinator (DeviceRestoration (PhysicalEntered
             \<lparr>epb_enter_physical_id = eid, epb_share_image = im\<rparr>))]))"

definition finish_consolidation ::
  "'s device_env \<Rightarrow> consolidate_phase \<Rightarrow> rng \<Rightarrow> 's frost_signer \<Rightarrow>
    ('s frost_signer \<times> rng) \<times> device_send list" where
  "finish_consolidation E p rng d =
     (let C = de_crypto E;
          cs = cp_complete_share p;
          im = secret_share_image C (cs_secret_share cs);
          asr = cs_access_structure_ref cs;
          (es, rng) = es_encrypt C (de_prf E) (cs_secret_share cs) asr (cp_coord_contrib p) rng;
          d = save_complete_share C
                \<lparr>kp4_key_name = cs_key_name cs, kp4_key_purpose = cs_purpose cs,
                 kp4_access_structure_ref = asr, kp4_access_structure_kind = Master,
                 kp4_encrypted_share = es, kp4_threshold = cs_threshold cs\<rparr> d
      in ((d, rng),
          [ToCoordinator (DeviceRestoration (FinishedConsolidation asr (image_index im)))]))"

definition decrypt_to_backup ::
  "crypto \<Rightarrow> device_prf \<Rightarrow> backup_display_phase \<Rightarrow> (action_error, share_backup) result" where
  "decrypt_to_backup C prf p =
     (let key = get_share_encryption_key prf (index_to_bytes C) (bdp_access_structure_ref p)
                  (bdp_share_index p) (bdp_contrib p)
      in and_then (ok_or (StateInconsistent ''could not decrypt secret share'')
           (ct_decrypt C key (bdp_ciphertext p))) (\<lambda>v.
         Ok (backup_of_secret_share C \<lparr>sh_index = bdp_share_index p, sh_scalar = v\<rparr>
               (bdp_root_shared_key p))))"

end
