(* ===== verification/Device.thy ===== *)
theory Device
  imports DeviceRestoration
begin

section \<open>The device\<close>

text \<open>
  Models the handlers of \<^verbatim>\<open>FrostSigner\<close> in \<^verbatim>\<open>frostsnap_core/src/device.rs\<close>: opening nonce
  streams, preparing a signature request for the user, verifying an address, and signing once
  the user has confirmed.
\<close>

subsection \<open>Opening nonce streams\<close>

text \<open>Existing streams first, and never more than there are slots.\<close>

definition order_streams ::
  "'s slot_ops \<Rightarrow> 's ab_slots \<Rightarrow> coord_nonce_state list \<Rightarrow> coord_nonce_state list" where
  "order_streams S ab streams =
     (let (existing, new) = partition (\<lambda>st. ab_get S ab (cns_stream_id st) \<noteq> None) streams
      in take (ab_total_slots ab) (existing @ new))"

fun open_streams ::
  "'s slot_ops \<Rightarrow> nat \<Rightarrow> coord_nonce_state list \<Rightarrow> nonce_job list \<Rightarrow> rng \<Rightarrow> 's ab_slots \<Rightarrow>
    ('s ab_slots \<times> rng) \<times> (core_error, nonce_job list) result" where
  "open_streams S batch_size [] tasks rng ab = ((ab, rng), Ok tasks)"
| "open_streams S batch_size (st # streams) tasks rng ab =
     (case ab_get_or_create S (cns_stream_id st) rng ab of
        (Ok (ab', i), rng') \<Rightarrow>
          or_return (reconcile S (ab_slots ab' ! i) st batch_size) (ab', rng') (\<lambda>task.
            open_streams S batch_size streams
              (case task of None \<Rightarrow> tasks | Some t \<Rightarrow> tasks @ [t]) rng' ab')
      | (Err e, rng') \<Rightarrow> ((ab, rng'), Err e)
      | (Panic m, rng') \<Rightarrow> ((ab, rng'), Panic m))"

definition handle_open_nonce_streams ::
  "'s device_env \<Rightarrow> coord_nonce_state list \<Rightarrow> rng \<Rightarrow> 's frost_signer \<Rightarrow> 's handled" where
  "handle_open_nonce_streams E streams rng d =
     (let S = de_slot_ops E;
          ((ab, rng), r) = open_streams S (fs_nonce_batch_size d)
            (order_streams S (fs_nonce_slots d) streams) [] rng (fs_nonce_slots d)
      in ((d\<lparr>fs_nonce_slots := ab\<rparr>, rng),
          and_then r (\<lambda>tasks.
            if tasks = [] then Ok [ToCoordinator (DeviceSigning (NonceResponse []))]
            else Ok [ToUser (NonceJobs (new_batch tasks))])))"

subsection \<open>A signature request\<close>

text \<open>The \<^verbatim>\<open>Display\<close> of the errors of \<^verbatim>\<open>check\<close>.\<close>

definition sign_task_error_text :: "sign_task_error \<Rightarrow> string" where
  "sign_task_error_text e =
     (case e of
        UnwatchedAccount _ \<Rightarrow> ''sign task has an output in an account this wallet doesn't use''
      | OutputIndexOutOfRange _ \<Rightarrow> ''sign task has an output at index past the limit''
      | InvalidBitcoinTransaction \<Rightarrow> ''Bitcoin transaction input value was less than outputs''
      | NothingToSign \<Rightarrow> ''Transaction has no inputs that belong to this wallet''
      | WrongPurpose \<Rightarrow> ''Coordinator tried to use key for something other than its intended purpose'')"

definition handle_request_sign ::
  "'s device_env \<Rightarrow> request_sign \<Rightarrow> coordinator_to_device \<Rightarrow> 's frost_signer \<Rightarrow>
    (core_error, device_send list) result" where
  "handle_request_sign E rs message d =
     (let C = de_crypto E;
          session_id = session_id_of C (de_encode_request E) (rs_group rs);
          req = rs_device rs;
          key_id = key_id_of_rootkey C (dsr_rootkey req)
      in and_then (ok_or (signer_invalid_message message ''device doesn't have key'')
           (bt_get (fs_keys d) key_id)) (\<lambda>kd.
         and_then (map_err (\<lambda>e. signer_invalid_message message (sign_task_error_text e))
           (check_group_sign_req C (de_tx_ops E) (rs_group rs) (dsr_rootkey req) (kd_purpose kd)))
           (\<lambda>gsr.
         and_then (ok_or (signer_invalid_message message
             ''this device is not part of that access structure'')
           (bt_get (kd_access_structures kd) (gsr_access_structure_id gsr))) (\<lambda>asd.
         and_then (ok_or (signer_invalid_message message
             ''device doesn't have any of the shares requested'')
           (find_map (bt_get (asd_shares asd)) (gsr_parties gsr))) (\<lambda>es.
         and_then (ok_or (signer_invalid_message message ''device did not have that nonce stream id'')
           (Option.bind (ab_get (de_slot_ops E) (fs_nonce_slots d) (cns_stream_id (dsr_nonces req)))
             (\<lambda>i. read_slot (de_slot_ops E) (ab_slots (fs_nonce_slots d) ! i)))) (\<lambda>_.
           Ok [ToUser (SignatureRequest
             \<lparr>sp1_group_sign_req = gsr, sp1_device_sign_req = req, sp1_encrypted_share = es,
              sp1_session_id = session_id\<rparr>)]))))))"

subsection \<open>Verifying an address\<close>

definition handle_verify_address ::
  "'s device_env \<Rightarrow> master_appkey \<Rightarrow> normal_index \<Rightarrow> coordinator_to_device \<Rightarrow> 's frost_signer \<Rightarrow>
    (core_error, device_send list) result" where
  "handle_verify_address E appkey i message d =
     (let C = de_crypto E;
          key_id = key_id_of_master_appkey C appkey
      in and_then (ok_or (signer_invalid_message message ''device doesn't have key'')
           (bt_get (fs_keys d) key_id)) (\<lambda>_.
         let path = external_path i;
             spk = \<lparr>lspk_appkey = appkey, lspk_path = path\<rparr>
         in and_then (expect ''cannot verify address on key that doesn't support bitcoin''
              (wallet_network d key_id)) (\<lambda>network.
            and_then (expect ''has address form''
              (address_of_script (de_tx_ops E) (local_spk_script C (de_tx_ops E) spk) network))
              (\<lambda>address. Ok [ToUser (VerifyAddress address path)]))))"

definition recv_coordinator_message ::
  "'s device_env \<Rightarrow> coordinator_to_device \<Rightarrow> rng \<Rightarrow> 's frost_signer \<Rightarrow> 's handled" where
  "recv_coordinator_message E message rng d =
     (case message of
        SigningMsg (OpenNonceStreams streams) \<Rightarrow> handle_open_nonce_streams E streams rng d
      | KeyGenMsg m \<Rightarrow> recv_keygen_message E m message rng d
      | SigningMsg (RequestSign rs) \<Rightarrow> ((d, rng), handle_request_sign E rs message d)
      | VerifyAddressMsg appkey i \<Rightarrow> ((d, rng), handle_verify_address E appkey i message d)
      | RestorationMsg m \<Rightarrow> recv_restoration_message E m rng d)"

subsection \<open>Signing\<close>

text \<open>The session of each item, while there is an aggregated nonce for it: indexing past them
  panics, which the lazy iterator only reaches in a session that is not cached.\<close>

definition device_sign_sessions ::
  "'s device_env \<Rightarrow> checked_sign_task group_sign_req \<Rightarrow> paired_share xpub \<Rightarrow> party_session list option" where
  "device_sign_sessions E gsr app_share =
     (let C = de_crypto E; items = sign_items C (de_tx_ops E) (gsr_sign_task gsr) in
      if length (gsr_agg_nonces gsr) < length items then None
      else Some (map (\<lambda>(item, agg_nonce).
        let share = derive_xonly_key C (paired_share_tweakable C) (item_tweak item) app_share
        in (share, de_party_session E (ps_public_key share) (gsr_parties gsr) agg_nonce
                     (schnorr_fun_message item)))
        (zip items (gsr_agg_nonces gsr))))"

definition nonces_unavailable_text :: "nonces_unavailable \<Rightarrow> string" where
  "nonces_unavailable_text e =
     (case e of
        IndexUsed _ _ \<Rightarrow> ''Attempt to reuse nonces''
      | Overflow \<Rightarrow> ''nonces were requested beyond the final index'')"

definition sign_ack ::
  "'s device_env \<Rightarrow> sign_phase1 \<Rightarrow> 's frost_signer \<Rightarrow>
    's frost_signer \<times> (action_error, device_send list) result" where
  "sign_ack E phase d =
     (let C = de_crypto E;
          gsr = sp1_group_sign_req phase;
          req = sp1_device_sign_req phase;
          es = sp1_encrypted_share phase;
          key_id = key_id_of_rootkey C (dsr_rootkey req);
          asr = AccessStructureRef key_id (gsr_access_structure_id gsr)
      in or_return (ok_or (StateInconsistent ''couldn't decrypt secret share'')
           (es_decrypt C (de_prf E) es asr (dsr_contrib req))) d (\<lambda>secret_share.
         let root_share = xpub_from_rootkey
               \<lparr>ps_share = secret_share, ps_public_key = dsr_rootkey req\<rparr>;
             app_share = rootkey_to_master_appkey C (paired_share_tweakable C) root_share;
             sessions = device_sign_sessions E gsr app_share;
             (ab, r) = ab_sign (de_slot_ops E) (de_nonce_ops E) (derive_nonce_seed (de_prf E))
               (fs_nonce_batch_size d) (sp1_session_id phase) (dsr_nonces req)
               (case sessions of Some ss \<Rightarrow> ss | None \<Rightarrow> []) (fs_nonce_slots d);
             d = d\<lparr>fs_nonce_slots := ab\<rparr>
         in or_return (map_err (\<lambda>e. StateInconsistent (nonces_unavailable_text e)) r) d
              (\<lambda>(shares, replenish_task).
            or_return
              (case replenish_task of
                 None \<Rightarrow> Ok None
               | Some task \<Rightarrow>
                   and_then (job_run (de_nonce_ops E) (derive_nonce_seed (de_prf E)) task) (\<lambda>task.
                   and_then (job_into_segment task) (\<lambda>segment. Ok (Some segment)))) d
              (\<lambda>replenish_nonces.
                (d, Ok [ToCoordinator (DeviceSigning
                  (SignatureShares (sp1_session_id phase) shares replenish_nonces))])))))"

end
