(* ===== verification/DeviceSafety.thy ===== *)
theory DeviceSafety
  imports Device
begin

section \<open>What a device guarantees about its keys\<close>

text \<open>
  Runs of a device over any messages of the coordinator and any confirmations of the user, with
  its mutations being written out and power being lost in between. The state is always
  recovered from what was written and staged; a coordinator message alone saves no key; every
  share stored can be decrypted again by whoever knows its polynomial; consolidating and
  displaying a backup give the right share.
\<close>

subsection \<open>The effect of an operation\<close>

text \<open>Everything durable, the staged mutations and the identity are as before.\<close>

definition device_frame :: "'s frost_signer \<Rightarrow> 's frost_signer \<Rightarrow> bool" where
  "device_frame d d' \<longleftrightarrow> device_durable d' = device_durable d \<and> fs_mutations d' = fs_mutations d \<and>
     fs_keypair d' = fs_keypair d"

definition device_mutates :: "crypto \<Rightarrow> device_mutation list \<Rightarrow> 's frost_signer \<Rightarrow> 's frost_signer" where
  "device_mutates C ms d = fold (device_mutate C) ms d"

lemma device_mutates_simps [simp]:
  "device_mutates C [] d = d"
  "device_mutates C (m # ms) d = device_mutates C ms (device_mutate C m d)"
  by (simp_all add: device_mutates_def)

lemma device_frame_refl [simp]: "device_frame d d"
  by (simp add: device_frame_def)

lemma device_mutate_keypair [simp]: "fs_keypair (device_mutate C m d) = fs_keypair d"
  by (cases m rule: device_mutation_cases)
    (auto simp: device_mutate_def device_apply_mutation_simps apply_new_key_def device_push_def
      apply_new_access_structure_def apply_save_share_def Let_def split: option.splits)

lemma device_mutates_keypair [simp]: "fs_keypair (device_mutates C ms d) = fs_keypair d"
  by (induction ms arbitrary: d) simp_all

text \<open>A phase waiting for \<^verbatim>\<open>Finalize\<close>, and the mutations that save it.\<close>

definition pending_phases :: "'s frost_signer \<Rightarrow> keygen_phase4 set" where
  "pending_phases d = {p. \<exists>kid h. bt_get (tmp_pending_finalize (fs_keygen d)) kid = Some (h, p)}"

definition save_mutations :: "keygen_phase4 \<Rightarrow> device_mutation list" where
  "save_mutations p =
     (let asr = kp4_access_structure_ref p in
      [DmKeygen (DkNewKey (asr_key_id asr) (kp4_key_name p) (kp4_key_purpose p)),
       DmKeygen (DkNewAccessStructure asr (kp4_threshold p) (kp4_access_structure_kind p)),
       DmKeygen (DkSaveShare \<lparr>ssm_access_structure_ref = asr, ssm_encrypted_share = kp4_encrypted_share p\<rparr>)])"

lemma save_complete_share_mutates: "save_complete_share C p d = device_mutates C (save_mutations p) d"
  by (simp add: save_complete_share_def save_mutations_def Let_def)

text \<open>What a coordinator message does: it stages the mutations that save a key only for a
  \<^verbatim>\<open>Finalize\<close> of a phase the user has confirmed, and otherwise at most a backup.\<close>

definition message_effect :: "crypto \<Rightarrow> coordinator_to_device \<Rightarrow> 's frost_signer \<Rightarrow> 's frost_signer \<Rightarrow> bool" where
  "message_effect C m d d' \<longleftrightarrow>
     (\<exists>ms d1. device_frame d d1 \<and> d' = device_mutates C ms d1 \<and> pending_phases d1 \<subseteq> pending_phases d \<and>
       (ms = [] \<or> (\<exists>b. ms = [DmRestoration (DrSave2 b)]) \<or>
        (\<exists>kid h p. m = KeyGenMsg (KgFinalize kid) \<and>
          bt_get (tmp_pending_finalize (fs_keygen d)) kid = Some (h, p) \<and> ms = save_mutations p)))"

lemma message_effect_frame:
  "device_frame d d' \<Longrightarrow> pending_phases d' \<subseteq> pending_phases d \<Longrightarrow> message_effect C m d d'"
  unfolding message_effect_def by (rule exI [of _ "[]"]) auto

lemma keygen_begin_effect:
  "message_effect C m d (fst (fst (handle_keygen_begin E b message rng d)))"
  unfolding handle_keygen_begin_def
  by (auto simp: device_frame_def device_durable_def pending_phases_def Let_def or_return_def
      split: result.splits prod.splits intro!: message_effect_frame)

lemma keygen_certify_please_effect:
  "message_effect C m d (fst (fst (handle_keygen_certify_please E kid agg message rng d)))"
  unfolding handle_keygen_certify_please_def
  by (auto simp: device_frame_def device_durable_def pending_phases_def Let_def or_return_def
      split: result.splits prod.splits intro!: message_effect_frame)

lemma keygen_check_effect:
  "message_effect C m d (fst (fst (handle_keygen_check E kid cert message rng d)))"
  unfolding handle_keygen_check_def
  by (auto simp: device_frame_def device_durable_def pending_phases_def Let_def or_return_def
      split: result.splits prod.splits intro!: message_effect_frame)

lemma keygen_finalize_effect:
  "message_effect (de_crypto E) (KeyGenMsg (KgFinalize kid)) d
     (fst (fst (handle_keygen_finalize E kid message rng d)))"
proof (cases "bt_get (tmp_pending_finalize (fs_keygen d)) kid")
  case None
  then show ?thesis
    by (auto simp: handle_keygen_finalize_def or_return_def intro!: message_effect_frame)
next
  case (Some hp)
  obtain h p where hp: "hp = (h, p)" by (cases hp)
  let ?d1 = "d\<lparr>fs_keygen := (fs_keygen d)\<lparr>tmp_pending_finalize :=
               bt_remove kid (tmp_pending_finalize (fs_keygen d))\<rparr>\<rparr>"
  have "device_frame d ?d1" "pending_phases ?d1 \<subseteq> pending_phases d"
    by (auto simp: device_frame_def device_durable_def pending_phases_def split: if_splits)
  then show ?thesis
    using Some hp unfolding message_effect_def
    by (intro exI [of _ "save_mutations p"] exI [of _ ?d1])
      (auto simp: handle_keygen_finalize_def save_complete_share_mutates Let_def)
qed

lemma save_physical_effect:
  "message_effect (de_crypto E) m d (fst (fst (handle_save_physical_backup2 E h message rng d)))"
proof (cases "bt_get (tmp_loaded_backups (fs_restoration d)) (hs_share_image h)")
  case None
  then show ?thesis
    by (auto simp: handle_save_physical_backup2_def Let_def intro!: message_effect_frame)
next
  case (Some b)
  let ?d1 = "d\<lparr>fs_restoration := (fs_restoration d)\<lparr>tmp_loaded_backups :=
               bt_remove (hs_share_image h) (tmp_loaded_backups (fs_restoration d))\<rparr>\<rparr>"
  let ?m = "DmRestoration (DrSave2 \<lparr>svb_share_backup = b, svb_threshold = hs_threshold h,
                      svb_purpose = hs_purpose h, svb_key_name = hs_key_name h\<rparr>)"
  have "device_frame d ?d1" "pending_phases ?d1 \<subseteq> pending_phases d"
    by (auto simp: device_frame_def device_durable_def pending_phases_def)
  then show ?thesis
    using Some unfolding message_effect_def
    by (intro exI [of _ "[?m]"] exI [of _ ?d1]) (auto simp: handle_save_physical_backup2_def Let_def)
qed

lemma recv_restoration_effect:
  "message_effect (de_crypto E) message d (fst (fst (recv_restoration_message E m rng d)))"
  by (induction E m rng d rule: recv_restoration_message.induct)
    (auto simp: save_physical_effect intro!: message_effect_frame)

lemma recv_effect:
  "message_effect (de_crypto E) m d (fst (fst (recv_coordinator_message E m rng d)))"
proof (cases m)
  case (KeyGenMsg k)
  then show ?thesis
    by (cases k) (simp_all add: recv_coordinator_message_def recv_keygen_message_def keygen_begin_effect
        keygen_certify_please_effect keygen_check_effect keygen_finalize_effect)
next
  case (SigningMsg s)
  then show ?thesis
    by (cases s) (auto simp: recv_coordinator_message_def handle_open_nonce_streams_def
        device_frame_def device_durable_def pending_phases_def split_beta Let_def
        intro!: message_effect_frame)
qed (auto simp: recv_coordinator_message_def recv_restoration_effect intro!: message_effect_frame)

subsection \<open>Runs\<close>

abbreviation device_recovers ::
  "'s device_env \<Rightarrow> 's frost_signer \<Rightarrow> device_mutation list \<Rightarrow> 's frost_signer \<Rightarrow> bool" where
  "device_recovers E \<equiv> recovers (device_apply_mutation (de_crypto E)) fs_mutations device_durable"

abbreviation device_replay ::
  "'s device_env \<Rightarrow> device_mutation list \<Rightarrow> 's frost_signer \<Rightarrow> 's frost_signer" where
  "device_replay E \<equiv> replay (device_apply_mutation (de_crypto E))"

definition prompts :: "('e, device_send list) result \<Rightarrow> device_to_user set" where
  "prompts r = (case r of Ok sends \<Rightarrow> {u. ToUser u \<in> set sends} | _ \<Rightarrow> {})"

text \<open>\<open>device_run E d0 written shown d\<close>: the device \<open>d\<close> is reached from \<open>d0\<close>, \<open>written\<close> are the
  mutations written out, and \<open>shown\<close> is what the user can confirm. A restart loads what was
  written; the nonce slots are on flash and stay.\<close>

inductive device_run ::
  "'s device_env \<Rightarrow> 's frost_signer \<Rightarrow> device_mutation list \<Rightarrow> device_to_user set \<Rightarrow>
    's frost_signer \<Rightarrow> bool" for E d0 where
  start: "device_run E d0 [] {} d0"
| message: "device_run E d0 w shown d \<Longrightarrow>
    recv_coordinator_message E m rng d = ((d', rng'), r) \<Longrightarrow>
    device_run E d0 w (shown \<union> prompts r) d'"
| keygen_confirmed: "device_run E d0 w shown d \<Longrightarrow> CheckKeyGen p \<in> shown \<Longrightarrow>
    device_keygen_ack E p rng d = ((d', rng'), r) \<Longrightarrow> device_run E d0 w shown d'"
| sign_confirmed: "device_run E d0 w shown d \<Longrightarrow> SignatureRequest sp \<in> shown \<Longrightarrow>
    sign_ack E sp d = (d', r) \<Longrightarrow> device_run E d0 w shown d'"
| backup_entered: "device_run E d0 w shown d \<Longrightarrow> ToUserRestoration (EnterBackup eid) \<in> shown \<Longrightarrow>
    tell_coordinator_about_backup_load_result (de_crypto E) eid b d = (d', sends) \<Longrightarrow>
    device_run E d0 w shown d'"
| consolidation_confirmed: "device_run E d0 w shown d \<Longrightarrow>
    ToUserRestoration (ConsolidateBackupPhase cp) \<in> shown \<Longrightarrow>
    finish_consolidation E cp rng d = ((d', rng'), sends) \<Longrightarrow> device_run E d0 w shown d'"
| cleared: "device_run E d0 w shown d \<Longrightarrow> device_run E d0 w shown (device_clear_tmp_data d)"
| written: "device_run E d0 w shown d \<Longrightarrow> fs_mutations d = m # ms \<Longrightarrow>
    device_run E d0 (w @ [m]) shown (d\<lparr>fs_mutations := ms\<rparr>)"
| restarted: "device_run E d0 w shown d \<Longrightarrow>
    device_run E d0 w {} ((device_replay E w d0)\<lparr>fs_nonce_slots :=
      ab_new (de_slot_ops E) (ab_slots (fs_nonce_slots d))\<rparr>)"

lemma frame_recovers:
  "device_recovers E d0 w d \<Longrightarrow> device_frame d d' \<Longrightarrow> device_recovers E d0 w d'"
  by (rule dev.recovers_cong) (simp_all add: device_frame_def)

lemma mutates_recovers:
  "device_recovers E d0 w d \<Longrightarrow> device_recovers E d0 w (device_mutates (de_crypto E) ms d)"
  by (induction ms arbitrary: d) (simp_all add: dev.recovers_mutate)

lemma mutates_durable:
  "device_durable d = device_durable e \<Longrightarrow>
   device_durable (device_mutates C ms d) = device_durable (device_mutates C ms e)"
proof (induction ms arbitrary: d e)
  case (Cons m ms)
  have "device_durable (device_mutate C m d) = device_durable (device_mutate C m e)"
    unfolding dev.durable_mutate by (rule device_durable_apply [OF Cons.prems])
  then show ?case using Cons.IH by simp
qed simp

text \<open>The effect of the user's confirmations.\<close>

lemma keygen_ack_frame: "device_frame d (fst (fst (device_keygen_ack E p rng d)))"
  by (auto simp: device_keygen_ack_def or_return_def device_frame_def device_durable_def
      split: result.splits prod.splits)

lemma sign_ack_frame: "device_frame d (fst (sign_ack E p d))"
  by (auto simp: sign_ack_def or_return_def device_frame_def device_durable_def Let_def
      split: result.splits prod.splits)

lemma backup_entered_frame:
  "device_frame d (fst (tell_coordinator_about_backup_load_result C eid b d))"
  by (simp add: tell_coordinator_about_backup_load_result_def device_frame_def device_durable_def Let_def)

definition consolidation_phase4 :: "'s device_env \<Rightarrow> consolidate_phase \<Rightarrow> rng \<Rightarrow> keygen_phase4" where
  "consolidation_phase4 E p rng =
     (let cs = cp_complete_share p in
      \<lparr>kp4_key_name = cs_key_name cs, kp4_key_purpose = cs_purpose cs,
       kp4_access_structure_ref = cs_access_structure_ref cs, kp4_access_structure_kind = Master,
       kp4_encrypted_share = fst (es_encrypt (de_crypto E) (de_prf E) (cs_secret_share cs)
         (cs_access_structure_ref cs) (cp_coord_contrib p) rng),
       kp4_threshold = cs_threshold cs\<rparr>)"

lemma finish_consolidation_mutates:
  "fst (fst (finish_consolidation E p rng d)) =
     device_mutates (de_crypto E) (save_mutations (consolidation_phase4 E p rng)) d"
  by (simp add: finish_consolidation_def consolidation_phase4_def save_complete_share_mutates
      split_beta Let_def)

lemma cleared_frame: "device_frame d (device_clear_tmp_data d)"
  by (simp add: device_clear_tmp_data_def clear_unfinished_keygens_def device_frame_def
      device_durable_def Let_def)

lemma message_recovers:
  "device_recovers E d0 w d \<Longrightarrow> message_effect (de_crypto E) m d d' \<Longrightarrow> device_recovers E d0 w d'"
  unfolding message_effect_def by (auto intro: mutates_recovers frame_recovers)

lemma replay_mutations: "fs_mutations (device_replay E ms d) = fs_mutations d"
  by (induction ms arbitrary: d) (simp_all add: device_apply_mutations)

lemma device_run_recovers:
  assumes "device_run E d0 w shown d" and d0: "fs_mutations d0 = []"
  shows "device_recovers E d0 w d"
  using assms(1)
proof (induction rule: device_run.induct)
  case start
  show ?case by (rule dev.recovers_start) (simp_all add: d0)
next
  case (message w shown d m rng d' rng' r)
  then show ?case using message_recovers recv_effect by (metis fst_conv)
next
  case (keygen_confirmed w shown d p rng d' rng' r)
  then show ?case using frame_recovers keygen_ack_frame by (metis fst_conv)
next
  case (sign_confirmed w shown d sp d' r)
  then show ?case using frame_recovers sign_ack_frame by (metis fst_conv)
next
  case (backup_entered w shown d eid b d' sends)
  then show ?case using frame_recovers backup_entered_frame by (metis fst_conv)
next
  case (consolidation_confirmed w shown d cp rng d' rng' sends)
  then show ?case using mutates_recovers finish_consolidation_mutates by (metis fst_conv)
next
  case (cleared w shown d)
  then show ?case using frame_recovers cleared_frame by metis
next
  case (written w shown d m ms)
  have "device_durable (d\<lparr>fs_mutations := ms\<rparr>) = device_durable d" by (simp add: device_durable_def)
  then show ?case using dev.recovers_write [OF written.IH] written.hyps(2) by simp
next
  case (restarted w shown d)
  show ?case
    by (simp add: recovers_def device_durable_def replay_mutations d0)
qed

subsection \<open>Every share can be decrypted again\<close>

text \<open>Whoever knows a polynomial of the access structure can make the contribution that lets the
  device decrypt the share whose image it keeps.\<close>

definition share_recoverable ::
  "'s device_env \<Rightarrow> device_id \<Rightarrow> access_structure_ref \<Rightarrow> encrypted_share \<Rightarrow> bool" where
  "share_recoverable E dev asr es \<longleftrightarrow>
     (\<exists>k s. asr = access_structure_ref_of (de_crypto E) k \<and>
        es_share_image es = secret_share_image (de_crypto E) s \<and>
        es_decrypt (de_crypto E) (de_prf E) es asr
          (share_decryption_contrib (de_crypto E) dev (sh_index s) k) = Some s)"

text \<open>The documented promise of the protocol: the share it ends with is paired with the public key
  of the polynomial it certifies.\<close>

definition pedpop_ok :: "pedpop \<Rightarrow> bool" where
  "pedpop_ok P \<longleftrightarrow>
     (\<forall>rc cert ck s. finalize_receiver P rc cert = Some (ck, s) \<longrightarrow>
        certified_shared_key P ck \<noteq> [] \<and>
        ps_public_key s = shared_public_key (certified_shared_key P ck))"

definition good_prompt :: "'s device_env \<Rightarrow> device_id \<Rightarrow> device_to_user \<Rightarrow> bool" where
  "good_prompt E dev u =
     (case u of
        CheckKeyGen p \<Rightarrow> kp3_shared_key p \<noteq> [] \<and>
          ps_public_key (kp3_secret_share p) = shared_public_key (kp3_shared_key p)
      | ToUserRestoration (ConsolidateBackupPhase p) \<Rightarrow>
          (\<exists>k. cs_access_structure_ref (cp_complete_share p) = access_structure_ref_of (de_crypto E) k \<and>
            cp_coord_contrib p = share_decryption_contrib (de_crypto E) dev
              (sh_index (cs_secret_share (cp_complete_share p))) k)
      | _ \<Rightarrow> True)"

definition good_phase4 :: "'s device_env \<Rightarrow> device_id \<Rightarrow> keygen_phase4 \<Rightarrow> bool" where
  "good_phase4 E dev p \<longleftrightarrow> share_recoverable E dev (kp4_access_structure_ref p) (kp4_encrypted_share p)"

definition good_mutation :: "'s device_env \<Rightarrow> device_id \<Rightarrow> device_mutation \<Rightarrow> bool" where
  "good_mutation E dev m =
     (case m of
        DmKeygen (DkSaveShare s) \<Rightarrow>
          share_recoverable E dev (ssm_access_structure_ref s) (ssm_encrypted_share s)
      | _ \<Rightarrow> True)"

lemma good_mutation_simps [simp]:
  "good_mutation E dev (DmKeygen (DkSaveShare s)) =
     share_recoverable E dev (ssm_access_structure_ref s) (ssm_encrypted_share s)"
  "good_mutation E dev (DmKeygen (DkNewKey k n p))"
  "good_mutation E dev (DmKeygen (DkNewAccessStructure a t kind))"
  "good_mutation E dev (DmRestoration rm)"
  by (simp_all add: good_mutation_def)

lemma xpub_key_from_rootkey: "xpub_key (xpub_from_rootkey k) = k"
  by (simp add: xpub_from_rootkey_def)

lemma share_recoverable_encrypt:
  assumes "crypto_ok (de_crypto E)"
    and "contrib = share_decryption_contrib (de_crypto E) dev (sh_index s) k"
  shows "share_recoverable E dev (access_structure_ref_of (de_crypto E) k)
    (fst (es_encrypt (de_crypto E) (de_prf E) s (access_structure_ref_of (de_crypto E) k) contrib rng))"
  unfolding share_recoverable_def using es_decrypt_encrypt [OF assms(1)] assms(2) by blast

text \<open>The access structure a share is encrypted for after key generation.\<close>

lemma keygen_access_structure:
  assumes C: "crypto_ok (de_crypto E)" and ne: "kp3_shared_key p \<noteq> []"
    and pub: "ps_public_key (kp3_secret_share p) = shared_public_key (kp3_shared_key p)"
  shows "AccessStructureRef (key_id_of_rootkey (de_crypto E) (ps_public_key (kp3_secret_share p)))
      (access_structure_id_of (de_crypto E) (xpub_key (rootkey_to_master_appkey (de_crypto E)
        (shared_key_tweakable (de_crypto E)) (xpub_from_rootkey (kp3_shared_key p))))) =
      access_structure_ref_of (de_crypto E) (kp3_shared_key p)"
  using key_id_of_ref [OF C ne] pub by (simp add: access_structure_ref_of_def Let_def)

lemma keygen_ack_good:
  assumes C: "crypto_ok (de_crypto E)" and p: "good_prompt E (signer_device_id d) (CheckKeyGen p)"
    and ack: "keygen_ack_phase4 E p rng d = Ok (p4, rng')"
  shows "good_phase4 E (signer_device_id d) p4"
proof -
  have p': "kp3_shared_key p \<noteq> []" "ps_public_key (kp3_secret_share p) = shared_public_key (kp3_shared_key p)"
    using p by (simp_all add: good_prompt_def)
  show ?thesis
    using ack share_recoverable_encrypt [OF C]
    by (auto simp: keygen_ack_phase4_def Let_def result_iff good_phase4_def
        keygen_access_structure [OF C p'] xpub_key_from_rootkey split_beta)
qed

lemma consolidation_good:
  assumes "crypto_ok (de_crypto E)"
    and "good_prompt E dev (ToUserRestoration (ConsolidateBackupPhase p))"
  shows "good_phase4 E dev (consolidation_phase4 E p rng)"
  using assms share_recoverable_encrypt [OF assms(1)]
  by (auto simp: good_prompt_def good_phase4_def consolidation_phase4_def Let_def)

lemma save_mutations_good: "good_phase4 E dev p \<Longrightarrow> m \<in> set (save_mutations p) \<Longrightarrow> good_mutation E dev m"
  by (auto simp: save_mutations_def good_phase4_def Let_def)

text \<open>What a mutation does to the shares.\<close>

lemma get_access_structure_eq:
  "get_access_structure d (AccessStructureRef k a) =
     (case bt_get (fs_keys d) k of None \<Rightarrow> None | Some kd \<Rightarrow> bt_get (kd_access_structures kd) a)"
  by (simp add: get_access_structure_def split: option.split)

lemma get_access_structure_new_key:
  "get_access_structure (apply_new_key k n p d) asr =
     (if asr_key_id asr = k then None else get_access_structure d asr)"
  by (cases asr) (simp add: get_access_structure_eq apply_new_key_def)

lemma get_access_structure_new_access_structure:
  "get_access_structure (apply_new_access_structure a t kind d) asr =
     (if asr = a \<and> bt_get (fs_keys d) (asr_key_id a) \<noteq> None
      then Some \<lparr>asd_kind = kind, asd_threshold = t, asd_shares = []\<rparr>
      else get_access_structure d asr)"
  by (cases asr; cases a; cases "bt_get (fs_keys d) (asr_key_id a)")
    (simp_all add: get_access_structure_eq apply_new_access_structure_def)

lemma get_access_structure_save_share:
  "get_access_structure (apply_save_share s d) asr =
     (if asr = ssm_access_structure_ref s
      then map_option (\<lambda>asd. asd\<lparr>asd_shares := bt_insert
          (image_index (es_share_image (ssm_encrypted_share s))) (ssm_encrypted_share s) (asd_shares asd)\<rparr>)
        (get_access_structure d asr)
      else get_access_structure d asr)"
  by (cases asr; cases "ssm_access_structure_ref s"; cases "bt_get (fs_keys d) (asr_key_id asr)")
    (auto simp: get_access_structure_eq apply_save_share_def Let_def split: option.split)

lemma get_encrypted_share_apply:
  "get_encrypted_share (apply_new_key k n p d) asr i =
     (if asr_key_id asr = k then None else get_encrypted_share d asr i)"
  "get_encrypted_share (apply_new_access_structure a t kind d) asr i =
     (if asr = a \<and> bt_get (fs_keys d) (asr_key_id a) \<noteq> None then None else get_encrypted_share d asr i)"
  "get_encrypted_share (apply_save_share s d) asr i =
     (if asr = ssm_access_structure_ref s \<and> i = image_index (es_share_image (ssm_encrypted_share s)) \<and>
         get_access_structure d asr \<noteq> None
      then Some (ssm_encrypted_share s) else get_encrypted_share d asr i)"
proof -
  show "get_encrypted_share (apply_new_key k n p d) asr i =
     (if asr_key_id asr = k then None else get_encrypted_share d asr i)"
    by (simp add: get_encrypted_share_def get_access_structure_new_key)
  show "get_encrypted_share (apply_new_access_structure a t kind d) asr i =
     (if asr = a \<and> bt_get (fs_keys d) (asr_key_id a) \<noteq> None then None else get_encrypted_share d asr i)"
    by (auto simp: get_encrypted_share_def get_access_structure_new_access_structure)
  show "get_encrypted_share (apply_save_share s d) asr i =
     (if asr = ssm_access_structure_ref s \<and> i = image_index (es_share_image (ssm_encrypted_share s)) \<and>
         get_access_structure d asr \<noteq> None
      then Some (ssm_encrypted_share s) else get_encrypted_share d asr i)"
    by (cases "get_access_structure d asr")
      (auto simp: get_encrypted_share_def get_access_structure_save_share)
qed

lemma get_encrypted_share_restoration [simp]:
  "get_encrypted_share (d\<lparr>fs_restoration := r\<rparr>) asr i = get_encrypted_share d asr i"
  by (simp add: get_encrypted_share_def get_access_structure_def)

lemma apply_good:
  assumes "good_mutation E dev m"
    and "\<And>asr i es. get_encrypted_share d asr i = Some es \<Longrightarrow>
      share_recoverable E dev asr es \<and> image_index (es_share_image es) = i"
    and "get_encrypted_share (fst (device_apply_mutation C m d)) asr i = Some es"
  shows "share_recoverable E dev asr es \<and> image_index (es_share_image es) = i"
  using assms
  by (cases m rule: device_mutation_cases)
    (auto simp: device_apply_mutation_simps get_encrypted_share_apply get_encrypted_share_restoration
      split: if_splits)

lemma replay_good:
  assumes "\<forall>m\<in>set ms. good_mutation E dev m" and "fs_keys d0 = []"
    and "get_encrypted_share (device_replay E ms d0) asr i = Some es"
  shows "share_recoverable E dev asr es \<and> image_index (es_share_image es) = i"
  using assms(1,3)
proof (induction ms arbitrary: asr i es rule: rev_induct)
  case Nil
  then show ?case using assms(2) by (simp add: get_encrypted_share_def get_access_structure_def)
next
  case (snoc m ms)
  show ?case by (rule apply_good [of E dev m "device_replay E ms d0"]) (use snoc in auto)
qed

subsection \<open>The invariant of a run\<close>

definition device_inv ::
  "'s device_env \<Rightarrow> 's frost_signer \<Rightarrow> device_mutation list \<Rightarrow> device_to_user set \<Rightarrow> 's frost_signer \<Rightarrow> bool" where
  "device_inv E d0 w shown d \<longleftrightarrow>
     (let dev = signer_device_id d0 in
      fs_keypair d = fs_keypair d0 \<and> (\<forall>u\<in>shown. good_prompt E dev u) \<and>
      (\<forall>p\<in>pending_phases d. good_phase4 E dev p) \<and>
      (\<forall>m\<in>set w \<union> set (fs_mutations d). good_mutation E dev m))"

lemma inv_frame:
  "device_inv E d0 w shown d \<Longrightarrow> device_frame d d' \<Longrightarrow> pending_phases d' \<subseteq> pending_phases d \<Longrightarrow>
   device_inv E d0 w shown d'"
  by (auto simp: device_inv_def device_frame_def Let_def)

lemma device_apply_keypair [simp]:
  "fs_keypair (fst (device_apply_mutation C m d)) = fs_keypair d \<and>
   fs_keygen (fst (device_apply_mutation C m d)) = fs_keygen d"
  by (cases m rule: device_mutation_cases)
    (auto simp: device_apply_mutation_simps apply_new_key_def apply_new_access_structure_def
      apply_save_share_def Let_def)

lemma good_staged:
  "good_mutation E dev m \<Longrightarrow> snd (device_apply_mutation C m d) = Some m' \<Longrightarrow> good_mutation E dev m'"
  by (cases m rule: device_mutation_cases) (auto simp: device_apply_mutation_simps)

lemma mutate_pending [simp]: "pending_phases (device_mutate C m d) = pending_phases d"
  by (cases m rule: device_mutation_cases)
    (auto simp: device_mutate_def device_apply_mutation_simps apply_new_key_def device_push_def
      apply_new_access_structure_def apply_save_share_def pending_phases_def Let_def split: option.splits)

lemma inv_mutate:
  assumes "device_inv E d0 w shown d" "good_mutation E (signer_device_id d0) m"
  shows "device_inv E d0 w shown (device_mutate C m d)"
proof -
  have "set (fs_mutations (device_mutate C m d)) \<subseteq>
      set (fs_mutations d) \<union> {m'. snd (device_apply_mutation C m d) = Some m'}"
    using device_apply_mutations [of C m d]
    by (auto simp: device_mutate_def device_push_def split: prod.splits option.splits)
  then show ?thesis
    using assms good_staged [OF assms(2)] by (fastforce simp: device_inv_def Let_def)
qed

lemma inv_mutates:
  "device_inv E d0 w shown d \<Longrightarrow> \<forall>m\<in>set ms. good_mutation E (signer_device_id d0) m \<Longrightarrow>
   device_inv E d0 w shown (device_mutates C ms d)"
  by (induction ms arbitrary: d) (simp_all add: inv_mutate)

lemma inv_message:
  assumes "device_inv E d0 w shown d" "message_effect C m d d'"
  shows "device_inv E d0 w shown d'"
proof -
  obtain ms d1 where ms: "device_frame d d1" "d' = device_mutates C ms d1"
      "pending_phases d1 \<subseteq> pending_phases d"
      "ms = [] \<or> (\<exists>b. ms = [DmRestoration (DrSave2 b)]) \<or>
        (\<exists>p. p \<in> pending_phases d \<and> ms = save_mutations p)"
    using assms(2) unfolding message_effect_def pending_phases_def by blast
  have "\<forall>m\<in>set ms. good_mutation E (signer_device_id d0) m"
    using ms(4) assms(1) save_mutations_good by (auto simp: device_inv_def Let_def) blast
  then show ?thesis
    using inv_mutates inv_frame [OF assms(1) ms(1,3)] ms(2) by blast
qed

text \<open>What \<^verbatim>\<open>Consolidate\<close> checks before it asks the user.\<close>

lemma handle_consolidate_Ok:
  assumes "handle_consolidate E c m d = Ok sends"
  shows "(\<exists>backup s. loaded_backup d (shared_share_image (de_crypto E) (cb_root_shared_key c) (cb_share_index c)) = Some backup \<and>
      extract_secret (de_crypto E) (cb_root_shared_key c) backup = Ok s \<and>
      secret_share_image (de_crypto E) s = shared_share_image (de_crypto E) (cb_root_shared_key c) (sh_index s) \<and>
      sh_index s = cb_share_index c \<and>
      sends = [ToUser (ToUserRestoration (ConsolidateBackupPhase
        \<lparr>cp_complete_share = \<lparr>cs_access_structure_ref = access_structure_ref_of (de_crypto E) (cb_root_shared_key c),
           cs_key_name = cb_key_name c, cs_purpose = cb_purpose c,
           cs_threshold = shared_threshold (cb_root_shared_key c) mod 65536, cs_secret_share = s\<rparr>,
         cp_coord_contrib = share_decryption_contrib (de_crypto E) (signer_device_id d)
           (cb_share_index c) (cb_root_shared_key c)\<rparr>))]) \<or>
    (\<exists>es. get_encrypted_share d (access_structure_ref_of (de_crypto E) (cb_root_shared_key c)) (cb_share_index c) = Some es \<and>
      sends = [ToCoordinator (DeviceRestoration (FinishedConsolidation
        (access_structure_ref_of (de_crypto E) (cb_root_shared_key c)) (cb_share_index c)))])"
proof (cases "loaded_backup d (shared_share_image (de_crypto E) (cb_root_shared_key c) (cb_share_index c))")
  case None
  then show ?thesis using assms by (auto simp: handle_consolidate_def Let_def split: if_splits)
next
  case (Some backup)
  then obtain s where s: "extract_secret (de_crypto E) (cb_root_shared_key c) backup = Ok s"
      "\<not> (shared_share_image (de_crypto E) (cb_root_shared_key c) (sh_index s) \<noteq> secret_share_image (de_crypto E) s
        \<or> sh_index s \<noteq> cb_share_index c)"
    using assms by (auto simp: handle_consolidate_def Let_def result_iff split: if_splits)
  then show ?thesis
    using assms Some by (intro disjI1 exI [of _ backup] exI [of _ s])
      (auto simp: handle_consolidate_def Let_def simp del: extract_secret_Ok)
qed

lemma consolidate_prompt_good:
  assumes "u \<in> prompts (handle_consolidate E c m d)"
  shows "good_prompt E (signer_device_id d) u"
proof (cases "handle_consolidate E c m d")
  case (Ok sends)
  with handle_consolidate_Ok [OF this] assms show ?thesis
    by (auto simp: prompts_def good_prompt_def)
qed (use assms in \<open>auto simp: prompts_def\<close>)

lemma restoration_prompt_good:
  "u \<in> prompts (snd (recv_restoration_message E rm rng d)) \<Longrightarrow> good_prompt E (signer_device_id d) u"
proof (induction E rm rng d rule: recv_restoration_message.induct)
  case (4 E c rng d)
  then show ?case by (simp add: consolidate_prompt_good)
qed (auto simp: prompts_def good_prompt_def handle_save_physical_backup2_def Let_def result_iff
    split: result.splits option.splits)

lemma keygen_prompt_good:
  assumes "pedpop_ok (de_pedpop E)" "u \<in> prompts (snd (recv_keygen_message E km m rng d))"
  shows "good_prompt E dev u"
proof (cases km)
  case (KgCheck kid cert)
  then show ?thesis
    using assms
    by (auto simp: recv_keygen_message_def handle_keygen_check_def prompts_def good_prompt_def
        pedpop_ok_def or_return_def Let_def result_iff split: result.splits)
qed (use assms in \<open>auto simp: recv_keygen_message_def handle_keygen_begin_def prompts_def good_prompt_def
      handle_keygen_certify_please_def handle_keygen_finalize_def or_return_def Let_def split_beta
      split: result.splits if_splits\<close>)

lemma shown_good:
  assumes "pedpop_ok (de_pedpop E)" "u \<in> prompts (snd (recv_coordinator_message E m rng d))"
  shows "good_prompt E (signer_device_id d) u"
proof (cases m)
  case (KeyGenMsg km)
  then show ?thesis using assms keygen_prompt_good by (simp add: recv_coordinator_message_def)
next
  case (RestorationMsg rm)
  then show ?thesis using assms restoration_prompt_good by (simp add: recv_coordinator_message_def)
next
  case (SigningMsg sm)
  then show ?thesis
    using assms(2) by (cases sm) (auto simp: recv_coordinator_message_def prompts_def good_prompt_def
        handle_request_sign_def handle_open_nonce_streams_def Let_def split_beta result_iff
        split: result.splits if_splits)
next
  case (VerifyAddressMsg a i)
  then show ?thesis
    using assms(2) by (auto simp: recv_coordinator_message_def prompts_def good_prompt_def
        handle_verify_address_def Let_def result_iff split: result.splits)
qed

lemma keygen_ack_pending:
  "q \<in> pending_phases (fst (fst (device_keygen_ack E p rng d))) \<Longrightarrow>
   q \<in> pending_phases d \<or> (\<exists>rng'. keygen_ack_phase4 E p rng d =
     (Ok (q, rng') :: (action_error, keygen_phase4 \<times> rng) result))"
  by (auto simp: device_keygen_ack_def or_return_def pending_phases_def
      split: result.splits prod.splits if_splits) 

lemma device_run_inv:
  assumes "device_run E d0 w shown d" and C: "crypto_ok (de_crypto E)" and P: "pedpop_ok (de_pedpop E)"
    and d0: "fs_mutations d0 = []" "fs_keygen d0 = empty_keygen_state"
  shows "device_inv E d0 w shown d"
  using assms(1)
proof (induction rule: device_run.induct)
  case start
  show ?case by (simp add: device_inv_def pending_phases_def d0 empty_keygen_state_def Let_def)
next
  case (message w shown d m rng d' rng' r)
  have "device_inv E d0 w shown d'"
    using inv_message [OF message.IH recv_effect [of E m d rng]] message.hyps by simp
  moreover have "good_prompt E (signer_device_id d0) u" if "u \<in> prompts r" for u
    using shown_good [OF P, of u m rng d] that message.hyps message.IH
    by (simp add: device_inv_def Let_def signer_device_id_def)
  ultimately show ?case by (auto simp: device_inv_def Let_def)
next
  case (keygen_confirmed w shown d p rng d' rng' r)
  have dev: "signer_device_id d = signer_device_id d0"
    using keygen_confirmed.IH by (simp add: device_inv_def Let_def signer_device_id_def)
  have p: "good_prompt E (signer_device_id d) (CheckKeyGen p)"
    using keygen_confirmed dev by (auto simp: device_inv_def Let_def)
  have "good_phase4 E (signer_device_id d0) q" if "q \<in> pending_phases d'" for q
  proof -
    have "q \<in> pending_phases d \<or> (\<exists>rng'. keygen_ack_phase4 E p rng d =
        (Ok (q, rng') :: (action_error, keygen_phase4 \<times> rng) result))"
      using keygen_ack_pending [of q E p rng d] that keygen_confirmed.hyps by simp
    moreover have "\<forall>q\<in>pending_phases d. good_phase4 E (signer_device_id d0) q"
      using keygen_confirmed.IH by (simp add: device_inv_def Let_def)
    ultimately show ?thesis using keygen_ack_good [OF C p] dev by auto
  qed
  then show ?case
    using keygen_confirmed.IH keygen_ack_frame [of d E p rng] keygen_confirmed.hyps
    by (auto simp: device_inv_def Let_def device_frame_def)
next
  case (sign_confirmed w shown d sp d' r)
  have "pending_phases (fst (sign_ack E sp d)) \<subseteq> pending_phases d"
    by (auto simp: sign_ack_def or_return_def pending_phases_def Let_def split: result.splits prod.splits)
  then show ?case
    using inv_frame [OF sign_confirmed.IH sign_ack_frame [of d E sp]] sign_confirmed.hyps by simp
next
  case (backup_entered w shown d eid b d' sends)
  have "pending_phases (fst (tell_coordinator_about_backup_load_result (de_crypto E) eid b d)) \<subseteq> pending_phases d"
    by (auto simp: tell_coordinator_about_backup_load_result_def pending_phases_def Let_def)
  then show ?case
    using inv_frame [OF backup_entered.IH backup_entered_frame [of d "de_crypto E" eid b]]
      backup_entered.hyps by simp
next
  case (consolidation_confirmed w shown d cp rng d' rng' sends)
  have "good_phase4 E (signer_device_id d0) (consolidation_phase4 E cp rng)"
    using consolidation_good [OF C] consolidation_confirmed by (auto simp: device_inv_def Let_def)
  then have "\<forall>m\<in>set (save_mutations (consolidation_phase4 E cp rng)). good_mutation E (signer_device_id d0) m"
    using save_mutations_good by blast
  then show ?case
    using inv_mutates [OF consolidation_confirmed.IH]
      finish_consolidation_mutates [of E cp rng d] consolidation_confirmed.hyps by simp
next
  case (cleared w shown d)
  have "pending_phases (device_clear_tmp_data d) \<subseteq> pending_phases d"
    by (auto simp: device_clear_tmp_data_def clear_unfinished_keygens_def empty_keygen_state_def
        pending_phases_def Let_def)
  then show ?case using inv_frame [OF cleared.IH cleared_frame] by simp
next
  case (written w shown d m ms)
  then show ?case by (auto simp: device_inv_def Let_def pending_phases_def)
next
  case (restarted w shown d)
  have "fs_keypair (device_replay E w d0) = fs_keypair d0 \<and> fs_keygen (device_replay E w d0) = fs_keygen d0"
    for w by (induction w rule: rev_induct) (simp_all add: device_apply_keypair)
  then show ?case
    using restarted.IH by (auto simp: device_inv_def Let_def pending_phases_def replay_mutations d0
        empty_keygen_state_def)
qed

lemma run_shares_good:
  assumes "device_run E (new_signer fp kp slots) w shown d"
    and "crypto_ok (de_crypto E)" "pedpop_ok (de_pedpop E)" and "get_encrypted_share d asr i = Some es"
  shows "share_recoverable E (DeviceId (kp_public kp)) asr es \<and> image_index (es_share_image es) = i"
proof -
  let ?d0 = "new_signer fp kp slots :: 'a frost_signer"
  have d0: "fs_mutations ?d0 = []" "fs_keygen ?d0 = empty_keygen_state" "fs_keys ?d0 = []"
      "signer_device_id ?d0 = DeviceId (kp_public kp)"
    by (simp_all add: new_signer_def signer_device_id_def)
  have good: "\<forall>m\<in>set (w @ fs_mutations d). good_mutation E (DeviceId (kp_public kp)) m"
    using device_run_inv [OF assms(1-3) d0(1,2)] d0(4) by (auto simp: device_inv_def Let_def)
  have "fs_keys (device_replay E (w @ fs_mutations d) ?d0) = fs_keys d"
    using device_run_recovers [OF assms(1) d0(1)] by (simp add: recovers_def device_durable_def)
  then have "get_encrypted_share (device_replay E (w @ fs_mutations d) ?d0) asr i = Some es"
    using assms(4) by (simp add: get_encrypted_share_def get_access_structure_def)
  from replay_good [OF good d0(3) this] show ?thesis .
qed

end
