(* ===== verification/DeviceProps.thy ===== *)
theory DeviceProps
  imports DeviceSafety
begin

section \<open>The properties of a device\<close>

text \<open>
  The theorems about \<^verbatim>\<open>FrostSigner\<close> that rest on the runs and effects of \<open>DeviceSafety\<close>, with a
  concrete device and key on which each applies.
\<close>

subsection \<open>Saving a key\<close>

lemma mutate_keygen_simps:
  "device_mutate C (DmKeygen (DkNewKey k n p)) d =
     device_push (DmKeygen (DkNewKey k n p)) (apply_new_key k n p d)"
  "device_mutate C (DmKeygen (DkNewAccessStructure a t kind)) d =
     device_push (DmKeygen (DkNewAccessStructure a t kind)) (apply_new_access_structure a t kind d)"
  "device_mutate C (DmKeygen (DkSaveShare s)) d =
     device_push (DmKeygen (DkSaveShare s)) (apply_save_share s d)"
  by (simp_all add: device_mutate_def device_apply_mutation_simps)

lemma push_keys [simp]:
  "fs_keys (device_push m d) = fs_keys d" "fs_restoration (device_push m d) = fs_restoration d"
  "get_access_structure (device_push m d) asr = get_access_structure d asr"
  "get_encrypted_share (device_push m d) asr i = get_encrypted_share d asr i"
  by (simp_all add: device_push_def get_encrypted_share_def get_access_structure_def)

text \<open>The shares after a key has been saved: its own, and nothing else of the same key.\<close>

lemma saved_share:
  "get_encrypted_share (device_mutates C (save_mutations p) d) asr i =
     (if asr_key_id asr = asr_key_id (kp4_access_structure_ref p)
      then (if asr = kp4_access_structure_ref p \<and> i = image_index (es_share_image (kp4_encrypted_share p))
            then Some (kp4_encrypted_share p) else None)
      else get_encrypted_share d asr i)"
proof -
  have new: "bt_get (fs_keys (apply_new_key k n q d)) k \<noteq> None" for k n q
    by (simp add: apply_new_key_def)
  show ?thesis
    using new by (auto simp: save_mutations_def mutate_keygen_simps get_encrypted_share_apply Let_def
        get_access_structure_new_access_structure)
qed

lemma saved_key:
  "bt_get (fs_keys (device_mutates C (save_mutations p) d)) (asr_key_id (kp4_access_structure_ref p)) =
     Some \<lparr>kd_access_structures = [(asr_access_structure_id (kp4_access_structure_ref p),
        \<lparr>asd_kind = kp4_access_structure_kind p, asd_threshold = kp4_threshold p,
         asd_shares = [(image_index (es_share_image (kp4_encrypted_share p)), kp4_encrypted_share p)]\<rparr>)],
       kd_purpose = kp4_key_purpose p, kd_key_name = kp4_key_name p, kd_verified = False\<rparr>"
  by (simp add: save_mutations_def mutate_keygen_simps Let_def apply_new_key_def
      apply_new_access_structure_def apply_save_share_def bt_modify_def)
    (simp add: bt_get_def)

lemma saved_backups_removed:
  "loaded_backup (device_mutates C (save_mutations p) d) im =
     (if im = es_share_image (kp4_encrypted_share p) then None else loaded_backup d im)"
  by (simp add: save_mutations_def mutate_keygen_simps Let_def apply_new_key_def loaded_backup_def
      apply_new_access_structure_def apply_save_share_def remove_backups_with_share_image_def device_push_def
      split: option.split)

lemma mutate_restoration_keys: "fs_keys (device_mutate C (DmRestoration rm) d) = fs_keys d"
  by (simp add: device_mutate_def device_apply_mutation_simps device_push_def split: option.split)

text \<open>The phase that waits for \<^verbatim>\<open>Finalize\<close> after the user's confirmation.\<close>

lemma keygen_ack_phase4_Ok:
  assumes C: "crypto_ok (de_crypto E)" and ne: "kp3_shared_key p \<noteq> []"
    and pub: "ps_public_key (kp3_secret_share p) = shared_public_key (kp3_shared_key p)"
    and ack: "keygen_ack_phase4 E p rng d = (Ok (p4, rng') :: ('e, keygen_phase4 \<times> rng) result)"
  shows "kp4_access_structure_ref p4 = access_structure_ref_of (de_crypto E) (kp3_shared_key p) \<and>
    kp4_key_name p4 = kp3_key_name p \<and> kp4_key_purpose p4 = kp3_key_purpose p \<and>
    image_index (es_share_image (kp4_encrypted_share p4)) = sh_index (ps_share (kp3_secret_share p)) \<and>
    es_decrypt (de_crypto E) (de_prf E) (kp4_encrypted_share p4)
      (access_structure_ref_of (de_crypto E) (kp3_shared_key p))
      (share_decryption_contrib (de_crypto E) (signer_device_id d) (sh_index (ps_share (kp3_secret_share p)))
        (kp3_shared_key p)) = Some (ps_share (kp3_secret_share p))"
  using ack es_decrypt_encrypt [OF C]
  by (auto simp: keygen_ack_phase4_def Let_def result_iff keygen_access_structure [OF C ne pub]
      xpub_key_from_rootkey split_beta secret_share_image_def)

subsection \<open>A concrete device\<close>

definition demo_pedpop :: pedpop where
  "demo_pedpop =
     \<lparr>gen_keygen_input = (\<lambda>t ck rk i rng. (Some ([of_nat i], [1]), rng)),
      verify_agg_input = (\<lambda>c agg kp. Some (agg, [2])),
      receiver_shared_key = (\<lambda>r. [r]),
      check_fingerprint = (\<lambda>f k. True),
      finalize_receiver = (\<lambda>r cert. Some (r, \<lparr>ps_share = \<lparr>sh_index = 1, sh_scalar = r\<rparr>, ps_public_key = r\<rparr>)),
      certified_n_receivers = (\<lambda>c. 1),
      certified_shared_key = (\<lambda>c. [c]),
      session_hash_of = SessionHash\<rparr>"

definition demo_device_env :: "memory_nonce_slot device_env" where
  "demo_device_env =
     \<lparr>de_crypto = demo_crypto, de_tx_ops = demo_tx_ops, de_nonce_ops = demo_nonce_ops,
      de_slot_ops = memory_slot_ops, de_prf = (\<lambda>b. b), de_pedpop = demo_pedpop,
      de_party_session = (\<lambda>p i n m. p), de_encode_request = (\<lambda>r. [])\<rparr>"

definition demo_keypair :: keypair where
  "demo_keypair = \<lparr>kp_secret = [5], kp_public = 2 # replicate 32 5\<rparr>"

definition demo_device :: "memory_nonce_slot frost_signer" where
  "demo_device = new_signer [] demo_keypair (ab_new memory_slot_ops [])"

definition demo_key :: shared_key where
  "demo_key = [2 # replicate 32 7]"

definition demo_secret :: secret_share where
  "demo_secret = \<lparr>sh_index = 1, sh_scalar = 2 # replicate 32 7\<rparr>"

definition demo_backup :: share_backup where
  "demo_backup = backup_of_secret_share demo_crypto demo_secret demo_key"

definition demo_consolidate :: consolidate_backup where
  "demo_consolidate = \<lparr>cb_share_index = 1, cb_root_shared_key = demo_key, cb_key_name = ''k'',
     cb_purpose = PurposeTest\<rparr>"

definition demo_consolidate_phase :: consolidate_phase where
  "demo_consolidate_phase =
     \<lparr>cp_complete_share = \<lparr>cs_access_structure_ref = access_structure_ref_of demo_crypto demo_key,
        cs_key_name = ''k'', cs_purpose = PurposeTest, cs_threshold = 1, cs_secret_share = demo_secret\<rparr>,
      cp_coord_contrib = share_decryption_contrib demo_crypto (DeviceId (kp_public demo_keypair)) 1 demo_key\<rparr>"

definition demo_entered :: "memory_nonce_slot frost_signer" where
  "demo_entered = fst (tell_coordinator_about_backup_load_result demo_crypto (EnterPhysicalId []) demo_backup demo_device)"

lemma demo_device_env_simps [simp]:
  "de_crypto demo_device_env = demo_crypto" "de_pedpop demo_device_env = demo_pedpop"
  by (simp_all add: demo_device_env_def)

lemma demo_pedpop_ok: "pedpop_ok demo_pedpop"
  by (auto simp: pedpop_ok_def demo_pedpop_def shared_public_key_def)

lemma demo_images:
  "secret_share_image demo_crypto demo_secret = shared_share_image demo_crypto demo_key 1"
  "sh_index demo_secret = 1"
  by (simp_all add: secret_share_image_def shared_share_image_def demo_secret_def demo_key_def demo_crypto_def)

lemma demo_entered_loaded:
  "loaded_backup demo_entered (shared_share_image demo_crypto demo_key 1) = Some demo_backup"
  "signer_device_id demo_entered = DeviceId (kp_public demo_keypair)"
  by (simp_all add: demo_entered_def tell_coordinator_about_backup_load_result_def loaded_backup_def Let_def
      demo_device_def new_signer_def demo_backup_def backup_share_image_def backup_of_secret_share_def
      demo_images signer_device_id_def bt_get_def del: One_nat_def)

lemma demo_consolidates:
  "handle_consolidate demo_device_env demo_consolidate m demo_entered =
     Ok [ToUser (ToUserRestoration (ConsolidateBackupPhase demo_consolidate_phase))]"
proof -
  have "extract_secret demo_crypto demo_key demo_backup =
      (Ok demo_secret :: (share_backup_error, secret_share) result)"
    unfolding demo_backup_def by (rule extract_secret_roundtrip)
  moreover have "shared_threshold demo_key = 1" by (simp add: shared_threshold_def demo_key_def)
  ultimately show ?thesis
    by (simp add: handle_consolidate_def demo_consolidate_def demo_entered_loaded demo_images
        demo_consolidate_phase_def Let_def del: extract_secret_Ok One_nat_def)
qed

text \<open>The run in which the user types in the backup and confirms its consolidation.\<close>

definition demo_restored :: "memory_nonce_slot frost_signer" where
  "demo_restored = fst (fst (finish_consolidation demo_device_env demo_consolidate_phase (\<lambda>n. []) demo_entered))"

lemma demo_run:
  "\<exists>w shown. device_run demo_device_env (new_signer [] demo_keypair (ab_new memory_slot_ops [])) w shown demo_restored"
proof -
  let ?E = demo_device_env and ?d0 = "new_signer [] demo_keypair (ab_new memory_slot_ops [])"
  let ?rng = "\<lambda>n. [] :: bytes" and ?eid = "EnterPhysicalId []"
  have "device_run ?E ?d0 [] ({} \<union> prompts (Ok [ToUser (ToUserRestoration (EnterBackup ?eid))]
      :: (core_error, device_send list) result)) ?d0"
    by (rule device_run.message [OF device_run.start, where m = "RestorationMsg (EnterPhysicalBackup ?eid)"
          and rng = ?rng and rng' = ?rng]) (simp add: recv_coordinator_message_def)
  then have "device_run ?E ?d0 [] {ToUserRestoration (EnterBackup ?eid)} ?d0"
    by (simp add: prompts_def)
  then have e: "device_run ?E ?d0 [] {ToUserRestoration (EnterBackup ?eid)} demo_entered"
    by (rule device_run.backup_entered [where eid = ?eid and b = demo_backup and
          sends = "snd (tell_coordinator_about_backup_load_result demo_crypto ?eid demo_backup demo_device)"])
      (simp_all add: demo_entered_def demo_device_def)
  have "device_run ?E ?d0 [] ({ToUserRestoration (EnterBackup ?eid)} \<union>
      prompts (Ok [ToUser (ToUserRestoration (ConsolidateBackupPhase demo_consolidate_phase))]
        :: (core_error, device_send list) result)) demo_entered"
    by (rule device_run.message [OF e, where m = "RestorationMsg (Consolidate demo_consolidate)"
          and rng = ?rng and rng' = ?rng])
      (simp add: recv_coordinator_message_def demo_consolidates)
  then have "device_run ?E ?d0 [] ({ToUserRestoration (EnterBackup ?eid)} \<union>
      prompts (Ok [ToUser (ToUserRestoration (ConsolidateBackupPhase demo_consolidate_phase))]
        :: (core_error, device_send list) result)) demo_restored"
    by (rule device_run.consolidation_confirmed [where cp = demo_consolidate_phase and rng = ?rng and
          rng' = "snd (fst (finish_consolidation ?E demo_consolidate_phase ?rng demo_entered))" and
          sends = "snd (finish_consolidation ?E demo_consolidate_phase ?rng demo_entered)"])
      (simp_all add: prompts_def demo_restored_def)
  then show ?thesis by blast
qed

lemma demo_restored_share:
  "\<exists>es. get_encrypted_share demo_restored (access_structure_ref_of demo_crypto demo_key) 1 = Some es \<and>
     image_index (es_share_image es) = 1 \<and>
     es_decrypt demo_crypto (de_prf demo_device_env) es (access_structure_ref_of demo_crypto demo_key)
       (share_decryption_contrib demo_crypto (DeviceId (kp_public demo_keypair)) 1 demo_key) = Some demo_secret"
  using finish_consolidation_mutates [of demo_device_env demo_consolidate_phase "\<lambda>n. []" demo_entered]
    es_decrypt_encrypt [OF demo_crypto_ok, of _ demo_secret]
  by (simp add: demo_restored_def saved_share consolidation_phase4_def demo_consolidate_phase_def
      demo_images shared_share_image_def del: One_nat_def)

subsection \<open>The properties\<close>

text \<open>C28. Nothing durable is lost or invented: in every run of a device, replaying the mutations
  written out and then the staged ones on a new device gives the keys, shares and saved backups
  it holds in memory.\<close>

theorem device_state_recoverable:
  assumes "device_run E (new_signer fp kp slots) w shown d"
  shows "device_durable (replay (device_apply_mutation (de_crypto E)) (w @ fs_mutations d)
      (new_signer fp kp slots)) = device_durable d"
  using device_run_recovers [OF assms] by (simp add: recovers_def new_signer_def)

theorem device_state_recoverable_witness:
  "\<exists>w. device_durable (replay (device_apply_mutation demo_crypto) (w @ fs_mutations demo_restored)
      (new_signer [] demo_keypair (ab_new memory_slot_ops []))) = device_durable demo_restored"
  using demo_run device_state_recoverable [of demo_device_env "[]" demo_keypair "ab_new memory_slot_ops []"]
  by fastforce

text \<open>C29. Whatever the coordinator sends and the user confirms, every share the device stores can be
  decrypted again: with the contribution that anyone who knows a polynomial of the access
  structure can make, it decrypts to the share whose image and index it is stored under.\<close>

theorem stored_shares_decrypt:
  assumes "crypto_ok (de_crypto E)" "pedpop_ok (de_pedpop E)"
    and "device_run E (new_signer fp kp slots) w shown d" "get_encrypted_share d asr i = Some es"
  shows "\<exists>k s. asr = access_structure_ref_of (de_crypto E) k \<and> sh_index s = i \<and>
    es_share_image es = secret_share_image (de_crypto E) s \<and>
    es_decrypt (de_crypto E) (de_prf E) es asr
      (share_decryption_contrib (de_crypto E) (DeviceId (kp_public kp)) i k) = Some s"
  using run_shares_good [OF assms(3,1,2,4)]
  by (auto simp: share_recoverable_def secret_share_image_def)

theorem stored_shares_decrypt_witness:
  "\<exists>es k s. get_encrypted_share demo_restored (access_structure_ref_of demo_crypto demo_key) 1 = Some es \<and>
     access_structure_ref_of demo_crypto demo_key = access_structure_ref_of demo_crypto k \<and> sh_index s = 1 \<and>
     es_decrypt demo_crypto (de_prf demo_device_env) es (access_structure_ref_of demo_crypto demo_key)
       (share_decryption_contrib demo_crypto (DeviceId (kp_public demo_keypair)) 1 k) = Some s"
proof -
  obtain w shown where r: "device_run demo_device_env (new_signer [] demo_keypair (ab_new memory_slot_ops [])) w shown demo_restored"
    using demo_run by blast
  obtain es where es: "get_encrypted_share demo_restored (access_structure_ref_of demo_crypto demo_key) 1 = Some es"
    using demo_restored_share by blast
  show ?thesis
    using stored_shares_decrypt [OF _ _ r es] es demo_crypto_ok demo_pedpop_ok by auto
qed

text \<open>C30. A coordinator message alone saves no key: the keys change only by a \<^verbatim>\<open>Finalize\<close> of a key
  generation whose phase the user has confirmed on this device, then by saving exactly that
  phase, and no message adds a confirmed phase.\<close>

theorem messages_alone_save_no_key:
  "(let d' = fst (fst (recv_coordinator_message E m rng d)) in
     pending_phases d' \<subseteq> pending_phases d \<and>
     (fs_keys d' = fs_keys d \<or>
      (\<exists>kid h p. m = KeyGenMsg (KgFinalize kid) \<and>
         bt_get (tmp_pending_finalize (fs_keygen d)) kid = Some (h, p) \<and>
         fs_keys d' = fs_keys (save_complete_share (de_crypto E) p d))))"
proof -
  let ?C = "de_crypto E" and ?d' = "fst (fst (recv_coordinator_message E m rng d))"
  obtain ms d1 where ms: "device_frame d d1" "?d' = device_mutates ?C ms d1"
      "pending_phases d1 \<subseteq> pending_phases d"
      "ms = [] \<or> (\<exists>b. ms = [DmRestoration (DrSave2 b)]) \<or>
        (\<exists>kid h p. m = KeyGenMsg (KgFinalize kid) \<and>
          bt_get (tmp_pending_finalize (fs_keygen d)) kid = Some (h, p) \<and> ms = save_mutations p)"
    using recv_effect [of E m d rng] unfolding message_effect_def by blast
  have "device_durable ?d' = device_durable (device_mutates ?C ms d)"
    using mutates_durable [of d1 d ?C ms] ms(1,2) by (simp add: device_frame_def)
  then have "fs_keys ?d' = fs_keys (device_mutates ?C ms d)" by (simp add: device_durable_def)
  moreover have "pending_phases (device_mutates ?C ms d1) = pending_phases d1"
    by (induction ms arbitrary: d1) simp_all
  ultimately show ?thesis
    using ms by (auto simp: Let_def mutate_restoration_keys save_complete_share_mutates)
qed

text \<open>The phase the user confirms is the one \<^verbatim>\<open>Finalize\<close> saves.\<close>

lemma acknowledged_finalized:
  assumes ack: "device_keygen_ack E p rng d = ((d1, rng1), Ok a)"
    and fin: "recv_coordinator_message E (KeyGenMsg (KgFinalize (kp3_keygen_id p))) rng1 d1 = ((d2, rng2), r)"
  obtains p4 d0 where
    "keygen_ack_phase4 E p rng d = (Ok (p4, rng1) :: (action_error, keygen_phase4 \<times> rng) result)"
    "a = \<lparr>ack_session_hash = kp3_session_hash p, ack_keygen_id = kp3_keygen_id p\<rparr>"
    "r = Ok [ToUser (FinalizeKeyGen (kp4_key_name p4))]"
    "d2 = device_mutates (de_crypto E) (save_mutations p4) d0"
proof -
  obtain p4 where p4: "keygen_ack_phase4 E p rng d = (Ok (p4, rng1) :: (action_error, keygen_phase4 \<times> rng) result)"
      "d1 = d\<lparr>fs_keygen := (fs_keygen d)\<lparr>tmp_pending_finalize := bt_insert (kp3_keygen_id p)
            (kp3_session_hash p, p4) (tmp_pending_finalize (fs_keygen d))\<rparr>\<rparr>"
      "a = \<lparr>ack_session_hash = kp3_session_hash p, ack_keygen_id = kp3_keygen_id p\<rparr>"
    using ack by (auto simp: device_keygen_ack_def result_iff)
  have "r = Ok [ToUser (FinalizeKeyGen (kp4_key_name p4))]"
      "\<exists>d0. d2 = device_mutates (de_crypto E) (save_mutations p4) d0"
    using fin p4(2) by (auto simp: recv_coordinator_message_def recv_keygen_message_def
        handle_keygen_finalize_def save_complete_share_mutates Let_def)
  then show ?thesis using that p4(1,3) by blast
qed

text \<open>Key generation end to end on a device: the phase the user confirms, with a share paired with
  the polynomial's public key, is acknowledged with its session hash, and \<^verbatim>\<open>Finalize\<close> then saves
  the share under the reference of the polynomial, decryptable, with the purpose that was
  agreed on.\<close>

theorem keygen_saves_share:
  assumes "crypto_ok (de_crypto E)" and k: "kp3_shared_key p \<noteq> []"
      "ps_public_key (kp3_secret_share p) = shared_public_key (kp3_shared_key p)"
    and ack: "device_keygen_ack E p rng d = ((d1, rng1), Ok a)"
    and fin: "recv_coordinator_message E (KeyGenMsg (KgFinalize (kp3_keygen_id p))) rng1 d1 = ((d2, rng2), r)"
  shows "a = \<lparr>ack_session_hash = kp3_session_hash p, ack_keygen_id = kp3_keygen_id p\<rparr> \<and>
    r = Ok [ToUser (FinalizeKeyGen (kp3_key_name p))] \<and>
    (let asr = access_structure_ref_of (de_crypto E) (kp3_shared_key p); s = ps_share (kp3_secret_share p) in
     wallet_network d2 (asr_key_id asr) = bitcoin_network (kp3_key_purpose p) \<and>
     (\<exists>es. get_encrypted_share d2 asr (sh_index s) = Some es \<and>
       es_decrypt (de_crypto E) (de_prf E) es asr
         (share_decryption_contrib (de_crypto E) (signer_device_id d) (sh_index s) (kp3_shared_key p)) = Some s))"
proof -
  obtain p4 d0 where p4: "keygen_ack_phase4 E p rng d = (Ok (p4, rng1) :: (action_error, keygen_phase4 \<times> rng) result)"
      "a = \<lparr>ack_session_hash = kp3_session_hash p, ack_keygen_id = kp3_keygen_id p\<rparr>"
      "r = Ok [ToUser (FinalizeKeyGen (kp4_key_name p4))]" "d2 = device_mutates (de_crypto E) (save_mutations p4) d0"
    by (rule acknowledged_finalized [OF ack fin])
  note p4' = keygen_ack_phase4_Ok [OF assms(1) k p4(1)]
  show ?thesis
    using p4 p4' saved_key [of "de_crypto E" p4 d0] by (auto simp: saved_share wallet_network_def Let_def)
qed

definition demo_phase3 :: keygen_phase3 where
  "demo_phase3 = \<lparr>kp3_keygen_id = KeygenId [], kp3_session_hash = SessionHash [], kp3_key_name = ''k'',
     kp3_key_purpose = PurposeTest, kp3_n_receivers = 1, kp3_shared_key = demo_key,
     kp3_secret_share = \<lparr>ps_share = demo_secret, ps_public_key = hd demo_key\<rparr>\<rparr>"

lemma demo_shared_key_threshold:
  "shared_threshold (xpub_key (rootkey_to_master_appkey demo_crypto (shared_key_tweakable demo_crypto)
     (xpub_from_rootkey demo_key))) = 1"
  by (simp add: rootkey_to_master_appkey_def derive_bip32_def derive_step_def Let_def xpub_from_rootkey_def
      shared_key_tweakable_def demo_crypto_def demo_key_def shared_threshold_def)

theorem keygen_saves_share_witness:
  "\<exists>d1 rng1 a d2 rng2 r. device_keygen_ack demo_device_env demo_phase3 (\<lambda>n. []) demo_device = ((d1, rng1), Ok a) \<and>
     recv_coordinator_message demo_device_env (KeyGenMsg (KgFinalize (KeygenId []))) rng1 d1 = ((d2, rng2), r) \<and>
     r = Ok [ToUser (FinalizeKeyGen ''k'')] \<and>
     wallet_network d2 (asr_key_id (access_structure_ref_of demo_crypto demo_key)) = None"
proof -
  obtain d1 rng1 a where ack: "device_keygen_ack demo_device_env demo_phase3 (\<lambda>n. []) demo_device = ((d1, rng1), Ok a)"
    using demo_shared_key_threshold
    by (auto simp: device_keygen_ack_def keygen_ack_phase4_def demo_phase3_def u16_try_from_def Let_def split_beta)
  obtain d2 rng2 r where fin: "recv_coordinator_message demo_device_env
      (KeyGenMsg (KgFinalize (kp3_keygen_id demo_phase3))) rng1 d1 = ((d2, rng2), r)"
    by (metis surj_pair)
  have k: "kp3_shared_key demo_phase3 \<noteq> []"
      "ps_public_key (kp3_secret_share demo_phase3) = shared_public_key (kp3_shared_key demo_phase3)"
    by (simp_all add: demo_phase3_def demo_key_def shared_public_key_def)
  show ?thesis
    using keygen_saves_share [OF _ k ack fin] ack fin demo_crypto_ok
    by (auto simp: demo_phase3_def Let_def bitcoin_network_def)
qed

text \<open>C31. Consolidation is sound: the device asks its user only about a backup it has loaded, whose
  checksum fits the polynomial and whose image is the polynomial's at the index named; when
  the user confirms, exactly that share is stored, decryptable by whoever knows the polynomial,
  the backup is forgotten, and the coordinator is told so.\<close>

theorem consolidation_sound:
  assumes "crypto_ok (de_crypto E)"
    and ask: "handle_consolidate E c m d = Ok [ToUser (ToUserRestoration (ConsolidateBackupPhase p))]"
    and fin: "finish_consolidation E p rng d1 = ((d2, rng'), sends)"
  shows "(let C = de_crypto E; k = cb_root_shared_key c; i = cb_share_index c;
      asr = access_structure_ref_of C k; s = cs_secret_share (cp_complete_share p) in
     (\<exists>b. loaded_backup d (shared_share_image C k i) = Some b \<and> extract_secret C k b = Ok s) \<and>
     secret_share_image C s = shared_share_image C k i \<and>
     (\<exists>es. get_encrypted_share d2 asr i = Some es \<and>
        es_decrypt C (de_prf E) es asr (share_decryption_contrib C (signer_device_id d) i k) = Some s) \<and>
     loaded_backup d2 (shared_share_image C k i) = None \<and>
     sends = [ToCoordinator (DeviceRestoration (FinishedConsolidation asr i))])"
proof -
  have d2: "d2 = device_mutates (de_crypto E) (save_mutations (consolidation_phase4 E p rng)) d1"
      "sends = [ToCoordinator (DeviceRestoration (FinishedConsolidation
        (cs_access_structure_ref (cp_complete_share p))
        (sh_index (cs_secret_share (cp_complete_share p)))))]"
    using fin finish_consolidation_mutates [of E p rng d1]
    by (auto simp: finish_consolidation_def Let_def split_beta secret_share_image_def)
  from handle_consolidate_Ok [OF ask] show ?thesis
    using es_decrypt_encrypt [OF assms(1)] unfolding d2
    by (auto simp: Let_def saved_share saved_backups_removed consolidation_phase4_def
        secret_share_image_def shared_share_image_def)
qed

theorem consolidation_sound_witness:
  "loaded_backup demo_restored (shared_share_image demo_crypto demo_key 1) = None"
proof -
  obtain d2 rng' sends where fin:
      "finish_consolidation demo_device_env demo_consolidate_phase (\<lambda>n. []) demo_entered = ((d2, rng'), sends)"
    by (metis surj_pair)
  then show ?thesis
    using consolidation_sound [OF _ demo_consolidates fin] demo_crypto_ok
    by (simp add: Let_def demo_consolidate_def demo_restored_def del: One_nat_def)
qed

lemma display_backup_reply:
  assumes "get_encrypted_share d (access_structure_ref_of (de_crypto E) k) i = Some es"
    and "image_index (es_share_image es) = i"
    and "es_decrypt (de_crypto E) (de_prf E) es (access_structure_ref_of (de_crypto E) k) contrib = Some s"
  shows "\<exists>n p b. recv_coordinator_message E (RestorationMsg (DisplayBackup asr contrib i k)) rng d =
      ((d, rng), Ok [ToUser (ToUserRestoration (DisplayBackupPhase n
        (access_structure_ref_of (de_crypto E) k) p))]) \<and>
    decrypt_to_backup (de_crypto E) (de_prf E) p = Ok b \<and> extract_secret (de_crypto E) k b = Ok s"
proof -
  obtain kd asd where look: "bt_get (fs_keys d) (asr_key_id (access_structure_ref_of (de_crypto E) k)) = Some kd"
      "bt_get (kd_access_structures kd) (asr_access_structure_id (access_structure_ref_of (de_crypto E) k)) = Some asd"
      "bt_get (asd_shares asd) i = Some es"
    using assms(1) by (auto simp: get_encrypted_share_def get_access_structure_def split: Option.bind_splits)
  have dec: "\<exists>v. ct_decrypt (de_crypto E) (get_share_encryption_key (de_prf E) (index_to_bytes (de_crypto E))
      (access_structure_ref_of (de_crypto E) k) i contrib)
      (es_ciphertext es) = Some v \<and> s = \<lparr>sh_index = i, sh_scalar = v\<rparr>"
    using assms(2,3) by (auto simp: es_decrypt_def Let_def)
  then show ?thesis
    using look by (auto simp: recv_coordinator_message_def backup_phase_def decrypt_to_backup_def Let_def
        backup_of_secret_share_def)
qed

text \<open>C32. A backup shown on the screen is the right one: for a share that decrypts with the
  polynomial's contribution, displaying it gives a backup from which the polynomial extracts
  exactly that share.\<close>

theorem displayed_backup_roundtrip:
  assumes "get_encrypted_share d (access_structure_ref_of (de_crypto E) k) i = Some es"
    and "image_index (es_share_image es) = i"
    and "es_decrypt (de_crypto E) (de_prf E) es (access_structure_ref_of (de_crypto E) k)
      (share_decryption_contrib (de_crypto E) dev i k) = Some s"
  shows "\<exists>n p b. recv_coordinator_message E (RestorationMsg (DisplayBackup asr
        (share_decryption_contrib (de_crypto E) dev i k) i k)) rng d =
      ((d, rng), Ok [ToUser (ToUserRestoration (DisplayBackupPhase n
        (access_structure_ref_of (de_crypto E) k) p))]) \<and>
    decrypt_to_backup (de_crypto E) (de_prf E) p = Ok b \<and> extract_secret (de_crypto E) k b = Ok s"
  by (rule display_backup_reply [OF assms])

theorem displayed_backup_roundtrip_witness:
  "\<exists>n p b. recv_coordinator_message demo_device_env (RestorationMsg (DisplayBackup
        (AccessStructureRef (KeyId []) (AccessStructureId []))
        (share_decryption_contrib demo_crypto (DeviceId (kp_public demo_keypair)) 1 demo_key) 1 demo_key))
        (\<lambda>n. []) demo_restored =
      ((demo_restored, \<lambda>n. []), Ok [ToUser (ToUserRestoration (DisplayBackupPhase n
        (access_structure_ref_of demo_crypto demo_key) p))]) \<and>
    decrypt_to_backup demo_crypto (de_prf demo_device_env) p = Ok b \<and>
    extract_secret demo_crypto demo_key b = Ok demo_secret"
proof -
  obtain es where es: "get_encrypted_share demo_restored (access_structure_ref_of (de_crypto demo_device_env) demo_key) 1 = Some es"
      "image_index (es_share_image es) = 1"
      "es_decrypt (de_crypto demo_device_env) (de_prf demo_device_env) es
         (access_structure_ref_of (de_crypto demo_device_env) demo_key)
         (share_decryption_contrib (de_crypto demo_device_env) (DeviceId (kp_public demo_keypair)) 1 demo_key) = Some demo_secret"
    using demo_restored_share by auto
  show ?thesis using displayed_backup_roundtrip [OF es] unfolding demo_device_env_simps .
qed

subsection \<open>Where it goes wrong\<close>

text \<open>Consolidating a second share of a key makes the device forget the first: the mutation that
  announces the key replaces the whole entry, also when the device holds shares of it.\<close>

theorem second_share_forgets_first:
  "let asr = cs_access_structure_ref (cp_complete_share p);
       d' = fst (fst (finish_consolidation E p rng d)) in
   get_encrypted_share d' asr i =
     (if i = sh_index (cs_secret_share (cp_complete_share p))
      then Some (kp4_encrypted_share (consolidation_phase4 E p rng)) else None)"
  by (simp add: finish_consolidation_mutates saved_share consolidation_phase4_def Let_def
      es_encrypt_def split_beta secret_share_image_def)

text \<open>Opening streams can evict one of the streams asked for: a table of two slots that hold
  streams \<open>a\<close> and \<open>b\<close>, asked for the existing \<open>a\<close> and a new stream \<open>c\<close>, loses \<open>a\<close>, because
  finding a stream does not renew its slot's \<^verbatim>\<open>last_used\<close>; yet no more streams were opened than
  there are slots.\<close>

theorem opening_evicts_requested_stream:
  "let slot = (\<lambda>sid lu. \<lparr>mem_inner = Some (V0 \<lparr>slot_index = 0, slot_stream_id = NonceStreamId [sid],
         slot_material = [], slot_last_used = lu, slot_signing_state = None\<rparr>)\<rparr>);
       ab = ab_new memory_slot_ops [slot 1 1, slot 2 2];
       req = (\<lambda>sid. \<lparr>cns_stream_id = NonceStreamId [sid], cns_index = 0, cns_remaining = 0\<rparr>);
       streams = order_streams memory_slot_ops ab [req 1, req 3];
       ab' = fst (fst (open_streams memory_slot_ops 30 streams [] (\<lambda>n. []) ab))
   in streams = [req 1, req 3] \<and> length streams = ab_total_slots ab \<and>
      ab_get memory_slot_ops ab' (NonceStreamId [1]) = None \<and>
      ab_all_stream_ids memory_slot_ops ab' = [NonceStreamId [3], NonceStreamId [2]]"
  by (simp add: ab_new_def order_streams_def ab_get_def slot_stream_id_of_def read_slot_def
      memory_slot_ops_def ab_total_slots_def ab_get_or_create_def ab_initialize_def initialize_slot_def
      write_slot_def rng_draw_def reconcile_def nonce_task_def ab_all_stream_ids_def u32_simps
      List.map_filter_simps Let_def)

end
