(* ===== verification/WordTable.thy ===== *)
theory WordTable
  imports Prelude "HOL-Library.Char_ord"
begin

section \<open>The words of a backup\<close>

text \<open>
  The table of 2048 words of \<^verbatim>\<open>frost_backup/src/bip39_words.rs\<close>, cut by first letter, and that it is
  in the order of \<^verbatim>\<open>&str\<close>, which is that of \<open>HOL-Library.List_Lexorder\<close> on characters. The order is
  computed on the bits of the characters, letter by letter.
\<close>

subsection \<open>The table\<close>

definition words_A :: "string list" where
  "words_A =
    [''ABANDON'', ''ABILITY'', ''ABLE'', ''ABOUT'', ''ABOVE'', ''ABSENT'', ''ABSORB'',
     ''ABSTRACT'', ''ABSURD'', ''ABUSE'', ''ACCESS'', ''ACCIDENT'', ''ACCOUNT'', ''ACCUSE'',
     ''ACHIEVE'', ''ACID'', ''ACOUSTIC'', ''ACQUIRE'', ''ACROSS'', ''ACT'', ''ACTION'', ''ACTOR'',
     ''ACTRESS'', ''ACTUAL'', ''ADAPT'', ''ADD'', ''ADDICT'', ''ADDRESS'', ''ADJUST'', ''ADMIT'',
     ''ADULT'', ''ADVANCE'', ''ADVICE'', ''AEROBIC'', ''AFFAIR'', ''AFFORD'', ''AFRAID'',
     ''AGAIN'', ''AGE'', ''AGENT'', ''AGREE'', ''AHEAD'', ''AIM'', ''AIR'', ''AIRPORT'',
     ''AISLE'', ''ALARM'', ''ALBUM'', ''ALCOHOL'', ''ALERT'', ''ALIEN'', ''ALL'', ''ALLEY'',
     ''ALLOW'', ''ALMOST'', ''ALONE'', ''ALPHA'', ''ALREADY'', ''ALSO'', ''ALTER'', ''ALWAYS'',
     ''AMATEUR'', ''AMAZING'', ''AMONG'', ''AMOUNT'', ''AMUSED'', ''ANALYST'', ''ANCHOR'',
     ''ANCIENT'', ''ANGER'', ''ANGLE'', ''ANGRY'', ''ANIMAL'', ''ANKLE'', ''ANNOUNCE'',
     ''ANNUAL'', ''ANOTHER'', ''ANSWER'', ''ANTENNA'', ''ANTIQUE'', ''ANXIETY'', ''ANY'',
     ''APART'', ''APOLOGY'', ''APPEAR'', ''APPLE'', ''APPROVE'', ''APRIL'', ''ARCH'', ''ARCTIC'',
     ''AREA'', ''ARENA'', ''ARGUE'', ''ARM'', ''ARMED'', ''ARMOR'', ''ARMY'', ''AROUND'',
     ''ARRANGE'', ''ARREST'', ''ARRIVE'', ''ARROW'', ''ART'', ''ARTEFACT'', ''ARTIST'',
     ''ARTWORK'', ''ASK'', ''ASPECT'', ''ASSAULT'', ''ASSET'', ''ASSIST'', ''ASSUME'', ''ASTHMA'',
     ''ATHLETE'', ''ATOM'', ''ATTACK'', ''ATTEND'', ''ATTITUDE'', ''ATTRACT'', ''AUCTION'',
     ''AUDIT'', ''AUGUST'', ''AUNT'', ''AUTHOR'', ''AUTO'', ''AUTUMN'', ''AVERAGE'', ''AVOCADO'',
     ''AVOID'', ''AWAKE'', ''AWARE'', ''AWAY'', ''AWESOME'', ''AWFUL'', ''AWKWARD'', ''AXIS'']"

definition words_B :: "string list" where
  "words_B =
    [''BABY'', ''BACHELOR'', ''BACON'', ''BADGE'', ''BAG'', ''BALANCE'', ''BALCONY'', ''BALL'',
     ''BAMBOO'', ''BANANA'', ''BANNER'', ''BAR'', ''BARELY'', ''BARGAIN'', ''BARREL'', ''BASE'',
     ''BASIC'', ''BASKET'', ''BATTLE'', ''BEACH'', ''BEAN'', ''BEAUTY'', ''BECAUSE'', ''BECOME'',
     ''BEEF'', ''BEFORE'', ''BEGIN'', ''BEHAVE'', ''BEHIND'', ''BELIEVE'', ''BELOW'', ''BELT'',
     ''BENCH'', ''BENEFIT'', ''BEST'', ''BETRAY'', ''BETTER'', ''BETWEEN'', ''BEYOND'',
     ''BICYCLE'', ''BID'', ''BIKE'', ''BIND'', ''BIOLOGY'', ''BIRD'', ''BIRTH'', ''BITTER'',
     ''BLACK'', ''BLADE'', ''BLAME'', ''BLANKET'', ''BLAST'', ''BLEAK'', ''BLESS'', ''BLIND'',
     ''BLOOD'', ''BLOSSOM'', ''BLOUSE'', ''BLUE'', ''BLUR'', ''BLUSH'', ''BOARD'', ''BOAT'',
     ''BODY'', ''BOIL'', ''BOMB'', ''BONE'', ''BONUS'', ''BOOK'', ''BOOST'', ''BORDER'',
     ''BORING'', ''BORROW'', ''BOSS'', ''BOTTOM'', ''BOUNCE'', ''BOX'', ''BOY'', ''BRACKET'',
     ''BRAIN'', ''BRAND'', ''BRASS'', ''BRAVE'', ''BREAD'', ''BREEZE'', ''BRICK'', ''BRIDGE'',
     ''BRIEF'', ''BRIGHT'', ''BRING'', ''BRISK'', ''BROCCOLI'', ''BROKEN'', ''BRONZE'', ''BROOM'',
     ''BROTHER'', ''BROWN'', ''BRUSH'', ''BUBBLE'', ''BUDDY'', ''BUDGET'', ''BUFFALO'', ''BUILD'',
     ''BULB'', ''BULK'', ''BULLET'', ''BUNDLE'', ''BUNKER'', ''BURDEN'', ''BURGER'', ''BURST'',
     ''BUS'', ''BUSINESS'', ''BUSY'', ''BUTTER'', ''BUYER'', ''BUZZ'']"

definition words_C :: "string list" where
  "words_C =
    [''CABBAGE'', ''CABIN'', ''CABLE'', ''CACTUS'', ''CAGE'', ''CAKE'', ''CALL'', ''CALM'',
     ''CAMERA'', ''CAMP'', ''CAN'', ''CANAL'', ''CANCEL'', ''CANDY'', ''CANNON'', ''CANOE'',
     ''CANVAS'', ''CANYON'', ''CAPABLE'', ''CAPITAL'', ''CAPTAIN'', ''CAR'', ''CARBON'', ''CARD'',
     ''CARGO'', ''CARPET'', ''CARRY'', ''CART'', ''CASE'', ''CASH'', ''CASINO'', ''CASTLE'',
     ''CASUAL'', ''CAT'', ''CATALOG'', ''CATCH'', ''CATEGORY'', ''CATTLE'', ''CAUGHT'', ''CAUSE'',
     ''CAUTION'', ''CAVE'', ''CEILING'', ''CELERY'', ''CEMENT'', ''CENSUS'', ''CENTURY'',
     ''CEREAL'', ''CERTAIN'', ''CHAIR'', ''CHALK'', ''CHAMPION'', ''CHANGE'', ''CHAOS'',
     ''CHAPTER'', ''CHARGE'', ''CHASE'', ''CHAT'', ''CHEAP'', ''CHECK'', ''CHEESE'', ''CHEF'',
     ''CHERRY'', ''CHEST'', ''CHICKEN'', ''CHIEF'', ''CHILD'', ''CHIMNEY'', ''CHOICE'',
     ''CHOOSE'', ''CHRONIC'', ''CHUCKLE'', ''CHUNK'', ''CHURN'', ''CIGAR'', ''CINNAMON'',
     ''CIRCLE'', ''CITIZEN'', ''CITY'', ''CIVIL'', ''CLAIM'', ''CLAP'', ''CLARIFY'', ''CLAW'',
     ''CLAY'', ''CLEAN'', ''CLERK'', ''CLEVER'', ''CLICK'', ''CLIENT'', ''CLIFF'', ''CLIMB'',
     ''CLINIC'', ''CLIP'', ''CLOCK'', ''CLOG'', ''CLOSE'', ''CLOTH'', ''CLOUD'', ''CLOWN'',
     ''CLUB'', ''CLUMP'', ''CLUSTER'', ''CLUTCH'', ''COACH'', ''COAST'', ''COCONUT'', ''CODE'',
     ''COFFEE'', ''COIL'', ''COIN'', ''COLLECT'', ''COLOR'', ''COLUMN'', ''COMBINE'', ''COME'',
     ''COMFORT'', ''COMIC'', ''COMMON'', ''COMPANY'', ''CONCERT'', ''CONDUCT'', ''CONFIRM'',
     ''CONGRESS'', ''CONNECT'', ''CONSIDER'', ''CONTROL'', ''CONVINCE'', ''COOK'', ''COOL'',
     ''COPPER'', ''COPY'', ''CORAL'', ''CORE'', ''CORN'', ''CORRECT'', ''COST'', ''COTTON'',
     ''COUCH'', ''COUNTRY'', ''COUPLE'', ''COURSE'', ''COUSIN'', ''COVER'', ''COYOTE'', ''CRACK'',
     ''CRADLE'', ''CRAFT'', ''CRAM'', ''CRANE'', ''CRASH'', ''CRATER'', ''CRAWL'', ''CRAZY'',
     ''CREAM'', ''CREDIT'', ''CREEK'', ''CREW'', ''CRICKET'', ''CRIME'', ''CRISP'', ''CRITIC'',
     ''CROP'', ''CROSS'', ''CROUCH'', ''CROWD'', ''CRUCIAL'', ''CRUEL'', ''CRUISE'', ''CRUMBLE'',
     ''CRUNCH'', ''CRUSH'', ''CRY'', ''CRYSTAL'', ''CUBE'', ''CULTURE'', ''CUP'', ''CUPBOARD'',
     ''CURIOUS'', ''CURRENT'', ''CURTAIN'', ''CURVE'', ''CUSHION'', ''CUSTOM'', ''CUTE'',
     ''CYCLE'']"

definition words_D :: "string list" where
  "words_D =
    [''DAD'', ''DAMAGE'', ''DAMP'', ''DANCE'', ''DANGER'', ''DARING'', ''DASH'', ''DAUGHTER'',
     ''DAWN'', ''DAY'', ''DEAL'', ''DEBATE'', ''DEBRIS'', ''DECADE'', ''DECEMBER'', ''DECIDE'',
     ''DECLINE'', ''DECORATE'', ''DECREASE'', ''DEER'', ''DEFENSE'', ''DEFINE'', ''DEFY'',
     ''DEGREE'', ''DELAY'', ''DELIVER'', ''DEMAND'', ''DEMISE'', ''DENIAL'', ''DENTIST'',
     ''DENY'', ''DEPART'', ''DEPEND'', ''DEPOSIT'', ''DEPTH'', ''DEPUTY'', ''DERIVE'',
     ''DESCRIBE'', ''DESERT'', ''DESIGN'', ''DESK'', ''DESPAIR'', ''DESTROY'', ''DETAIL'',
     ''DETECT'', ''DEVELOP'', ''DEVICE'', ''DEVOTE'', ''DIAGRAM'', ''DIAL'', ''DIAMOND'',
     ''DIARY'', ''DICE'', ''DIESEL'', ''DIET'', ''DIFFER'', ''DIGITAL'', ''DIGNITY'', ''DILEMMA'',
     ''DINNER'', ''DINOSAUR'', ''DIRECT'', ''DIRT'', ''DISAGREE'', ''DISCOVER'', ''DISEASE'',
     ''DISH'', ''DISMISS'', ''DISORDER'', ''DISPLAY'', ''DISTANCE'', ''DIVERT'', ''DIVIDE'',
     ''DIVORCE'', ''DIZZY'', ''DOCTOR'', ''DOCUMENT'', ''DOG'', ''DOLL'', ''DOLPHIN'', ''DOMAIN'',
     ''DONATE'', ''DONKEY'', ''DONOR'', ''DOOR'', ''DOSE'', ''DOUBLE'', ''DOVE'', ''DRAFT'',
     ''DRAGON'', ''DRAMA'', ''DRASTIC'', ''DRAW'', ''DREAM'', ''DRESS'', ''DRIFT'', ''DRILL'',
     ''DRINK'', ''DRIP'', ''DRIVE'', ''DROP'', ''DRUM'', ''DRY'', ''DUCK'', ''DUMB'', ''DUNE'',
     ''DURING'', ''DUST'', ''DUTCH'', ''DUTY'', ''DWARF'', ''DYNAMIC'']"

definition words_E :: "string list" where
  "words_E =
    [''EAGER'', ''EAGLE'', ''EARLY'', ''EARN'', ''EARTH'', ''EASILY'', ''EAST'', ''EASY'',
     ''ECHO'', ''ECOLOGY'', ''ECONOMY'', ''EDGE'', ''EDIT'', ''EDUCATE'', ''EFFORT'', ''EGG'',
     ''EIGHT'', ''EITHER'', ''ELBOW'', ''ELDER'', ''ELECTRIC'', ''ELEGANT'', ''ELEMENT'',
     ''ELEPHANT'', ''ELEVATOR'', ''ELITE'', ''ELSE'', ''EMBARK'', ''EMBODY'', ''EMBRACE'',
     ''EMERGE'', ''EMOTION'', ''EMPLOY'', ''EMPOWER'', ''EMPTY'', ''ENABLE'', ''ENACT'', ''END'',
     ''ENDLESS'', ''ENDORSE'', ''ENEMY'', ''ENERGY'', ''ENFORCE'', ''ENGAGE'', ''ENGINE'',
     ''ENHANCE'', ''ENJOY'', ''ENLIST'', ''ENOUGH'', ''ENRICH'', ''ENROLL'', ''ENSURE'',
     ''ENTER'', ''ENTIRE'', ''ENTRY'', ''ENVELOPE'', ''EPISODE'', ''EQUAL'', ''EQUIP'', ''ERA'',
     ''ERASE'', ''ERODE'', ''EROSION'', ''ERROR'', ''ERUPT'', ''ESCAPE'', ''ESSAY'', ''ESSENCE'',
     ''ESTATE'', ''ETERNAL'', ''ETHICS'', ''EVIDENCE'', ''EVIL'', ''EVOKE'', ''EVOLVE'',
     ''EXACT'', ''EXAMPLE'', ''EXCESS'', ''EXCHANGE'', ''EXCITE'', ''EXCLUDE'', ''EXCUSE'',
     ''EXECUTE'', ''EXERCISE'', ''EXHAUST'', ''EXHIBIT'', ''EXILE'', ''EXIST'', ''EXIT'',
     ''EXOTIC'', ''EXPAND'', ''EXPECT'', ''EXPIRE'', ''EXPLAIN'', ''EXPOSE'', ''EXPRESS'',
     ''EXTEND'', ''EXTRA'', ''EYE'', ''EYEBROW'']"

definition words_F :: "string list" where
  "words_F =
    [''FABRIC'', ''FACE'', ''FACULTY'', ''FADE'', ''FAINT'', ''FAITH'', ''FALL'', ''FALSE'',
     ''FAME'', ''FAMILY'', ''FAMOUS'', ''FAN'', ''FANCY'', ''FANTASY'', ''FARM'', ''FASHION'',
     ''FAT'', ''FATAL'', ''FATHER'', ''FATIGUE'', ''FAULT'', ''FAVORITE'', ''FEATURE'',
     ''FEBRUARY'', ''FEDERAL'', ''FEE'', ''FEED'', ''FEEL'', ''FEMALE'', ''FENCE'', ''FESTIVAL'',
     ''FETCH'', ''FEVER'', ''FEW'', ''FIBER'', ''FICTION'', ''FIELD'', ''FIGURE'', ''FILE'',
     ''FILM'', ''FILTER'', ''FINAL'', ''FIND'', ''FINE'', ''FINGER'', ''FINISH'', ''FIRE'',
     ''FIRM'', ''FIRST'', ''FISCAL'', ''FISH'', ''FIT'', ''FITNESS'', ''FIX'', ''FLAG'',
     ''FLAME'', ''FLASH'', ''FLAT'', ''FLAVOR'', ''FLEE'', ''FLIGHT'', ''FLIP'', ''FLOAT'',
     ''FLOCK'', ''FLOOR'', ''FLOWER'', ''FLUID'', ''FLUSH'', ''FLY'', ''FOAM'', ''FOCUS'',
     ''FOG'', ''FOIL'', ''FOLD'', ''FOLLOW'', ''FOOD'', ''FOOT'', ''FORCE'', ''FOREST'',
     ''FORGET'', ''FORK'', ''FORTUNE'', ''FORUM'', ''FORWARD'', ''FOSSIL'', ''FOSTER'', ''FOUND'',
     ''FOX'', ''FRAGILE'', ''FRAME'', ''FREQUENT'', ''FRESH'', ''FRIEND'', ''FRINGE'', ''FROG'',
     ''FRONT'', ''FROST'', ''FROWN'', ''FROZEN'', ''FRUIT'', ''FUEL'', ''FUN'', ''FUNNY'',
     ''FURNACE'', ''FURY'', ''FUTURE'']"

definition words_G :: "string list" where
  "words_G =
    [''GADGET'', ''GAIN'', ''GALAXY'', ''GALLERY'', ''GAME'', ''GAP'', ''GARAGE'', ''GARBAGE'',
     ''GARDEN'', ''GARLIC'', ''GARMENT'', ''GAS'', ''GASP'', ''GATE'', ''GATHER'', ''GAUGE'',
     ''GAZE'', ''GENERAL'', ''GENIUS'', ''GENRE'', ''GENTLE'', ''GENUINE'', ''GESTURE'',
     ''GHOST'', ''GIANT'', ''GIFT'', ''GIGGLE'', ''GINGER'', ''GIRAFFE'', ''GIRL'', ''GIVE'',
     ''GLAD'', ''GLANCE'', ''GLARE'', ''GLASS'', ''GLIDE'', ''GLIMPSE'', ''GLOBE'', ''GLOOM'',
     ''GLORY'', ''GLOVE'', ''GLOW'', ''GLUE'', ''GOAT'', ''GODDESS'', ''GOLD'', ''GOOD'',
     ''GOOSE'', ''GORILLA'', ''GOSPEL'', ''GOSSIP'', ''GOVERN'', ''GOWN'', ''GRAB'', ''GRACE'',
     ''GRAIN'', ''GRANT'', ''GRAPE'', ''GRASS'', ''GRAVITY'', ''GREAT'', ''GREEN'', ''GRID'',
     ''GRIEF'', ''GRIT'', ''GROCERY'', ''GROUP'', ''GROW'', ''GRUNT'', ''GUARD'', ''GUESS'',
     ''GUIDE'', ''GUILT'', ''GUITAR'', ''GUN'', ''GYM'']"

definition words_H :: "string list" where
  "words_H =
    [''HABIT'', ''HAIR'', ''HALF'', ''HAMMER'', ''HAMSTER'', ''HAND'', ''HAPPY'', ''HARBOR'',
     ''HARD'', ''HARSH'', ''HARVEST'', ''HAT'', ''HAVE'', ''HAWK'', ''HAZARD'', ''HEAD'',
     ''HEALTH'', ''HEART'', ''HEAVY'', ''HEDGEHOG'', ''HEIGHT'', ''HELLO'', ''HELMET'', ''HELP'',
     ''HEN'', ''HERO'', ''HIDDEN'', ''HIGH'', ''HILL'', ''HINT'', ''HIP'', ''HIRE'', ''HISTORY'',
     ''HOBBY'', ''HOCKEY'', ''HOLD'', ''HOLE'', ''HOLIDAY'', ''HOLLOW'', ''HOME'', ''HONEY'',
     ''HOOD'', ''HOPE'', ''HORN'', ''HORROR'', ''HORSE'', ''HOSPITAL'', ''HOST'', ''HOTEL'',
     ''HOUR'', ''HOVER'', ''HUB'', ''HUGE'', ''HUMAN'', ''HUMBLE'', ''HUMOR'', ''HUNDRED'',
     ''HUNGRY'', ''HUNT'', ''HURDLE'', ''HURRY'', ''HURT'', ''HUSBAND'', ''HYBRID'']"

definition words_I :: "string list" where
  "words_I =
    [''ICE'', ''ICON'', ''IDEA'', ''IDENTIFY'', ''IDLE'', ''IGNORE'', ''ILL'', ''ILLEGAL'',
     ''ILLNESS'', ''IMAGE'', ''IMITATE'', ''IMMENSE'', ''IMMUNE'', ''IMPACT'', ''IMPOSE'',
     ''IMPROVE'', ''IMPULSE'', ''INCH'', ''INCLUDE'', ''INCOME'', ''INCREASE'', ''INDEX'',
     ''INDICATE'', ''INDOOR'', ''INDUSTRY'', ''INFANT'', ''INFLICT'', ''INFORM'', ''INHALE'',
     ''INHERIT'', ''INITIAL'', ''INJECT'', ''INJURY'', ''INMATE'', ''INNER'', ''INNOCENT'',
     ''INPUT'', ''INQUIRY'', ''INSANE'', ''INSECT'', ''INSIDE'', ''INSPIRE'', ''INSTALL'',
     ''INTACT'', ''INTEREST'', ''INTO'', ''INVEST'', ''INVITE'', ''INVOLVE'', ''IRON'',
     ''ISLAND'', ''ISOLATE'', ''ISSUE'', ''ITEM'', ''IVORY'']"

definition words_J :: "string list" where
  "words_J =
    [''JACKET'', ''JAGUAR'', ''JAR'', ''JAZZ'', ''JEALOUS'', ''JEANS'', ''JELLY'', ''JEWEL'',
     ''JOB'', ''JOIN'', ''JOKE'', ''JOURNEY'', ''JOY'', ''JUDGE'', ''JUICE'', ''JUMP'',
     ''JUNGLE'', ''JUNIOR'', ''JUNK'', ''JUST'']"

definition words_K :: "string list" where
  "words_K =
    [''KANGAROO'', ''KEEN'', ''KEEP'', ''KETCHUP'', ''KEY'', ''KICK'', ''KID'', ''KIDNEY'',
     ''KIND'', ''KINGDOM'', ''KISS'', ''KIT'', ''KITCHEN'', ''KITE'', ''KITTEN'', ''KIWI'',
     ''KNEE'', ''KNIFE'', ''KNOCK'', ''KNOW'']"

definition words_L :: "string list" where
  "words_L =
    [''LAB'', ''LABEL'', ''LABOR'', ''LADDER'', ''LADY'', ''LAKE'', ''LAMP'', ''LANGUAGE'',
     ''LAPTOP'', ''LARGE'', ''LATER'', ''LATIN'', ''LAUGH'', ''LAUNDRY'', ''LAVA'', ''LAW'',
     ''LAWN'', ''LAWSUIT'', ''LAYER'', ''LAZY'', ''LEADER'', ''LEAF'', ''LEARN'', ''LEAVE'',
     ''LECTURE'', ''LEFT'', ''LEG'', ''LEGAL'', ''LEGEND'', ''LEISURE'', ''LEMON'', ''LEND'',
     ''LENGTH'', ''LENS'', ''LEOPARD'', ''LESSON'', ''LETTER'', ''LEVEL'', ''LIAR'', ''LIBERTY'',
     ''LIBRARY'', ''LICENSE'', ''LIFE'', ''LIFT'', ''LIGHT'', ''LIKE'', ''LIMB'', ''LIMIT'',
     ''LINK'', ''LION'', ''LIQUID'', ''LIST'', ''LITTLE'', ''LIVE'', ''LIZARD'', ''LOAD'',
     ''LOAN'', ''LOBSTER'', ''LOCAL'', ''LOCK'', ''LOGIC'', ''LONELY'', ''LONG'', ''LOOP'',
     ''LOTTERY'', ''LOUD'', ''LOUNGE'', ''LOVE'', ''LOYAL'', ''LUCKY'', ''LUGGAGE'', ''LUMBER'',
     ''LUNAR'', ''LUNCH'', ''LUXURY'', ''LYRICS'']"

definition words_M :: "string list" where
  "words_M =
    [''MACHINE'', ''MAD'', ''MAGIC'', ''MAGNET'', ''MAID'', ''MAIL'', ''MAIN'', ''MAJOR'',
     ''MAKE'', ''MAMMAL'', ''MAN'', ''MANAGE'', ''MANDATE'', ''MANGO'', ''MANSION'', ''MANUAL'',
     ''MAPLE'', ''MARBLE'', ''MARCH'', ''MARGIN'', ''MARINE'', ''MARKET'', ''MARRIAGE'', ''MASK'',
     ''MASS'', ''MASTER'', ''MATCH'', ''MATERIAL'', ''MATH'', ''MATRIX'', ''MATTER'', ''MAXIMUM'',
     ''MAZE'', ''MEADOW'', ''MEAN'', ''MEASURE'', ''MEAT'', ''MECHANIC'', ''MEDAL'', ''MEDIA'',
     ''MELODY'', ''MELT'', ''MEMBER'', ''MEMORY'', ''MENTION'', ''MENU'', ''MERCY'', ''MERGE'',
     ''MERIT'', ''MERRY'', ''MESH'', ''MESSAGE'', ''METAL'', ''METHOD'', ''MIDDLE'', ''MIDNIGHT'',
     ''MILK'', ''MILLION'', ''MIMIC'', ''MIND'', ''MINIMUM'', ''MINOR'', ''MINUTE'', ''MIRACLE'',
     ''MIRROR'', ''MISERY'', ''MISS'', ''MISTAKE'', ''MIX'', ''MIXED'', ''MIXTURE'', ''MOBILE'',
     ''MODEL'', ''MODIFY'', ''MOM'', ''MOMENT'', ''MONITOR'', ''MONKEY'', ''MONSTER'', ''MONTH'',
     ''MOON'', ''MORAL'', ''MORE'', ''MORNING'', ''MOSQUITO'', ''MOTHER'', ''MOTION'', ''MOTOR'',
     ''MOUNTAIN'', ''MOUSE'', ''MOVE'', ''MOVIE'', ''MUCH'', ''MUFFIN'', ''MULE'', ''MULTIPLY'',
     ''MUSCLE'', ''MUSEUM'', ''MUSHROOM'', ''MUSIC'', ''MUST'', ''MUTUAL'', ''MYSELF'',
     ''MYSTERY'', ''MYTH'']"

definition words_N :: "string list" where
  "words_N =
    [''NAIVE'', ''NAME'', ''NAPKIN'', ''NARROW'', ''NASTY'', ''NATION'', ''NATURE'', ''NEAR'',
     ''NECK'', ''NEED'', ''NEGATIVE'', ''NEGLECT'', ''NEITHER'', ''NEPHEW'', ''NERVE'', ''NEST'',
     ''NET'', ''NETWORK'', ''NEUTRAL'', ''NEVER'', ''NEWS'', ''NEXT'', ''NICE'', ''NIGHT'',
     ''NOBLE'', ''NOISE'', ''NOMINEE'', ''NOODLE'', ''NORMAL'', ''NORTH'', ''NOSE'', ''NOTABLE'',
     ''NOTE'', ''NOTHING'', ''NOTICE'', ''NOVEL'', ''NOW'', ''NUCLEAR'', ''NUMBER'', ''NURSE'',
     ''NUT'']"

definition words_O :: "string list" where
  "words_O =
    [''OAK'', ''OBEY'', ''OBJECT'', ''OBLIGE'', ''OBSCURE'', ''OBSERVE'', ''OBTAIN'', ''OBVIOUS'',
     ''OCCUR'', ''OCEAN'', ''OCTOBER'', ''ODOR'', ''OFF'', ''OFFER'', ''OFFICE'', ''OFTEN'',
     ''OIL'', ''OKAY'', ''OLD'', ''OLIVE'', ''OLYMPIC'', ''OMIT'', ''ONCE'', ''ONE'', ''ONION'',
     ''ONLINE'', ''ONLY'', ''OPEN'', ''OPERA'', ''OPINION'', ''OPPOSE'', ''OPTION'', ''ORANGE'',
     ''ORBIT'', ''ORCHARD'', ''ORDER'', ''ORDINARY'', ''ORGAN'', ''ORIENT'', ''ORIGINAL'',
     ''ORPHAN'', ''OSTRICH'', ''OTHER'', ''OUTDOOR'', ''OUTER'', ''OUTPUT'', ''OUTSIDE'',
     ''OVAL'', ''OVEN'', ''OVER'', ''OWN'', ''OWNER'', ''OXYGEN'', ''OYSTER'', ''OZONE'']"

definition words_P :: "string list" where
  "words_P =
    [''PACT'', ''PADDLE'', ''PAGE'', ''PAIR'', ''PALACE'', ''PALM'', ''PANDA'', ''PANEL'',
     ''PANIC'', ''PANTHER'', ''PAPER'', ''PARADE'', ''PARENT'', ''PARK'', ''PARROT'', ''PARTY'',
     ''PASS'', ''PATCH'', ''PATH'', ''PATIENT'', ''PATROL'', ''PATTERN'', ''PAUSE'', ''PAVE'',
     ''PAYMENT'', ''PEACE'', ''PEANUT'', ''PEAR'', ''PEASANT'', ''PELICAN'', ''PEN'', ''PENALTY'',
     ''PENCIL'', ''PEOPLE'', ''PEPPER'', ''PERFECT'', ''PERMIT'', ''PERSON'', ''PET'', ''PHONE'',
     ''PHOTO'', ''PHRASE'', ''PHYSICAL'', ''PIANO'', ''PICNIC'', ''PICTURE'', ''PIECE'', ''PIG'',
     ''PIGEON'', ''PILL'', ''PILOT'', ''PINK'', ''PIONEER'', ''PIPE'', ''PISTOL'', ''PITCH'',
     ''PIZZA'', ''PLACE'', ''PLANET'', ''PLASTIC'', ''PLATE'', ''PLAY'', ''PLEASE'', ''PLEDGE'',
     ''PLUCK'', ''PLUG'', ''PLUNGE'', ''POEM'', ''POET'', ''POINT'', ''POLAR'', ''POLE'',
     ''POLICE'', ''POND'', ''PONY'', ''POOL'', ''POPULAR'', ''PORTION'', ''POSITION'',
     ''POSSIBLE'', ''POST'', ''POTATO'', ''POTTERY'', ''POVERTY'', ''POWDER'', ''POWER'',
     ''PRACTICE'', ''PRAISE'', ''PREDICT'', ''PREFER'', ''PREPARE'', ''PRESENT'', ''PRETTY'',
     ''PREVENT'', ''PRICE'', ''PRIDE'', ''PRIMARY'', ''PRINT'', ''PRIORITY'', ''PRISON'',
     ''PRIVATE'', ''PRIZE'', ''PROBLEM'', ''PROCESS'', ''PRODUCE'', ''PROFIT'', ''PROGRAM'',
     ''PROJECT'', ''PROMOTE'', ''PROOF'', ''PROPERTY'', ''PROSPER'', ''PROTECT'', ''PROUD'',
     ''PROVIDE'', ''PUBLIC'', ''PUDDING'', ''PULL'', ''PULP'', ''PULSE'', ''PUMPKIN'', ''PUNCH'',
     ''PUPIL'', ''PUPPY'', ''PURCHASE'', ''PURITY'', ''PURPOSE'', ''PURSE'', ''PUSH'', ''PUT'',
     ''PUZZLE'', ''PYRAMID'']"

definition words_Q :: "string list" where
  "words_Q =
    [''QUALITY'', ''QUANTUM'', ''QUARTER'', ''QUESTION'', ''QUICK'', ''QUIT'', ''QUIZ'',
     ''QUOTE'']"

definition words_R :: "string list" where
  "words_R =
    [''RABBIT'', ''RACCOON'', ''RACE'', ''RACK'', ''RADAR'', ''RADIO'', ''RAIL'', ''RAIN'',
     ''RAISE'', ''RALLY'', ''RAMP'', ''RANCH'', ''RANDOM'', ''RANGE'', ''RAPID'', ''RARE'',
     ''RATE'', ''RATHER'', ''RAVEN'', ''RAW'', ''RAZOR'', ''READY'', ''REAL'', ''REASON'',
     ''REBEL'', ''REBUILD'', ''RECALL'', ''RECEIVE'', ''RECIPE'', ''RECORD'', ''RECYCLE'',
     ''REDUCE'', ''REFLECT'', ''REFORM'', ''REFUSE'', ''REGION'', ''REGRET'', ''REGULAR'',
     ''REJECT'', ''RELAX'', ''RELEASE'', ''RELIEF'', ''RELY'', ''REMAIN'', ''REMEMBER'',
     ''REMIND'', ''REMOVE'', ''RENDER'', ''RENEW'', ''RENT'', ''REOPEN'', ''REPAIR'', ''REPEAT'',
     ''REPLACE'', ''REPORT'', ''REQUIRE'', ''RESCUE'', ''RESEMBLE'', ''RESIST'', ''RESOURCE'',
     ''RESPONSE'', ''RESULT'', ''RETIRE'', ''RETREAT'', ''RETURN'', ''REUNION'', ''REVEAL'',
     ''REVIEW'', ''REWARD'', ''RHYTHM'', ''RIB'', ''RIBBON'', ''RICE'', ''RICH'', ''RIDE'',
     ''RIDGE'', ''RIFLE'', ''RIGHT'', ''RIGID'', ''RING'', ''RIOT'', ''RIPPLE'', ''RISK'',
     ''RITUAL'', ''RIVAL'', ''RIVER'', ''ROAD'', ''ROAST'', ''ROBOT'', ''ROBUST'', ''ROCKET'',
     ''ROMANCE'', ''ROOF'', ''ROOKIE'', ''ROOM'', ''ROSE'', ''ROTATE'', ''ROUGH'', ''ROUND'',
     ''ROUTE'', ''ROYAL'', ''RUBBER'', ''RUDE'', ''RUG'', ''RULE'', ''RUN'', ''RUNWAY'',
     ''RURAL'']"

definition words_S :: "string list" where
  "words_S =
    [''SAD'', ''SADDLE'', ''SADNESS'', ''SAFE'', ''SAIL'', ''SALAD'', ''SALMON'', ''SALON'',
     ''SALT'', ''SALUTE'', ''SAME'', ''SAMPLE'', ''SAND'', ''SATISFY'', ''SATOSHI'', ''SAUCE'',
     ''SAUSAGE'', ''SAVE'', ''SAY'', ''SCALE'', ''SCAN'', ''SCARE'', ''SCATTER'', ''SCENE'',
     ''SCHEME'', ''SCHOOL'', ''SCIENCE'', ''SCISSORS'', ''SCORPION'', ''SCOUT'', ''SCRAP'',
     ''SCREEN'', ''SCRIPT'', ''SCRUB'', ''SEA'', ''SEARCH'', ''SEASON'', ''SEAT'', ''SECOND'',
     ''SECRET'', ''SECTION'', ''SECURITY'', ''SEED'', ''SEEK'', ''SEGMENT'', ''SELECT'', ''SELL'',
     ''SEMINAR'', ''SENIOR'', ''SENSE'', ''SENTENCE'', ''SERIES'', ''SERVICE'', ''SESSION'',
     ''SETTLE'', ''SETUP'', ''SEVEN'', ''SHADOW'', ''SHAFT'', ''SHALLOW'', ''SHARE'', ''SHED'',
     ''SHELL'', ''SHERIFF'', ''SHIELD'', ''SHIFT'', ''SHINE'', ''SHIP'', ''SHIVER'', ''SHOCK'',
     ''SHOE'', ''SHOOT'', ''SHOP'', ''SHORT'', ''SHOULDER'', ''SHOVE'', ''SHRIMP'', ''SHRUG'',
     ''SHUFFLE'', ''SHY'', ''SIBLING'', ''SICK'', ''SIDE'', ''SIEGE'', ''SIGHT'', ''SIGN'',
     ''SILENT'', ''SILK'', ''SILLY'', ''SILVER'', ''SIMILAR'', ''SIMPLE'', ''SINCE'', ''SING'',
     ''SIREN'', ''SISTER'', ''SITUATE'', ''SIX'', ''SIZE'', ''SKATE'', ''SKETCH'', ''SKI'',
     ''SKILL'', ''SKIN'', ''SKIRT'', ''SKULL'', ''SLAB'', ''SLAM'', ''SLEEP'', ''SLENDER'',
     ''SLICE'', ''SLIDE'', ''SLIGHT'', ''SLIM'', ''SLOGAN'', ''SLOT'', ''SLOW'', ''SLUSH'',
     ''SMALL'', ''SMART'', ''SMILE'', ''SMOKE'', ''SMOOTH'', ''SNACK'', ''SNAKE'', ''SNAP'',
     ''SNIFF'', ''SNOW'', ''SOAP'', ''SOCCER'', ''SOCIAL'', ''SOCK'', ''SODA'', ''SOFT'',
     ''SOLAR'', ''SOLDIER'', ''SOLID'', ''SOLUTION'', ''SOLVE'', ''SOMEONE'', ''SONG'', ''SOON'',
     ''SORRY'', ''SORT'', ''SOUL'', ''SOUND'', ''SOUP'', ''SOURCE'', ''SOUTH'', ''SPACE'',
     ''SPARE'', ''SPATIAL'', ''SPAWN'', ''SPEAK'', ''SPECIAL'', ''SPEED'', ''SPELL'', ''SPEND'',
     ''SPHERE'', ''SPICE'', ''SPIDER'', ''SPIKE'', ''SPIN'', ''SPIRIT'', ''SPLIT'', ''SPOIL'',
     ''SPONSOR'', ''SPOON'', ''SPORT'', ''SPOT'', ''SPRAY'', ''SPREAD'', ''SPRING'', ''SPY'',
     ''SQUARE'', ''SQUEEZE'', ''SQUIRREL'', ''STABLE'', ''STADIUM'', ''STAFF'', ''STAGE'',
     ''STAIRS'', ''STAMP'', ''STAND'', ''START'', ''STATE'', ''STAY'', ''STEAK'', ''STEEL'',
     ''STEM'', ''STEP'', ''STEREO'', ''STICK'', ''STILL'', ''STING'', ''STOCK'', ''STOMACH'',
     ''STONE'', ''STOOL'', ''STORY'', ''STOVE'', ''STRATEGY'', ''STREET'', ''STRIKE'', ''STRONG'',
     ''STRUGGLE'', ''STUDENT'', ''STUFF'', ''STUMBLE'', ''STYLE'', ''SUBJECT'', ''SUBMIT'',
     ''SUBWAY'', ''SUCCESS'', ''SUCH'', ''SUDDEN'', ''SUFFER'', ''SUGAR'', ''SUGGEST'', ''SUIT'',
     ''SUMMER'', ''SUN'', ''SUNNY'', ''SUNSET'', ''SUPER'', ''SUPPLY'', ''SUPREME'', ''SURE'',
     ''SURFACE'', ''SURGE'', ''SURPRISE'', ''SURROUND'', ''SURVEY'', ''SUSPECT'', ''SUSTAIN'',
     ''SWALLOW'', ''SWAMP'', ''SWAP'', ''SWARM'', ''SWEAR'', ''SWEET'', ''SWIFT'', ''SWIM'',
     ''SWING'', ''SWITCH'', ''SWORD'', ''SYMBOL'', ''SYMPTOM'', ''SYRUP'', ''SYSTEM'']"

definition words_T :: "string list" where
  "words_T =
    [''TABLE'', ''TACKLE'', ''TAG'', ''TAIL'', ''TALENT'', ''TALK'', ''TANK'', ''TAPE'',
     ''TARGET'', ''TASK'', ''TASTE'', ''TATTOO'', ''TAXI'', ''TEACH'', ''TEAM'', ''TELL'',
     ''TEN'', ''TENANT'', ''TENNIS'', ''TENT'', ''TERM'', ''TEST'', ''TEXT'', ''THANK'', ''THAT'',
     ''THEME'', ''THEN'', ''THEORY'', ''THERE'', ''THEY'', ''THING'', ''THIS'', ''THOUGHT'',
     ''THREE'', ''THRIVE'', ''THROW'', ''THUMB'', ''THUNDER'', ''TICKET'', ''TIDE'', ''TIGER'',
     ''TILT'', ''TIMBER'', ''TIME'', ''TINY'', ''TIP'', ''TIRED'', ''TISSUE'', ''TITLE'',
     ''TOAST'', ''TOBACCO'', ''TODAY'', ''TODDLER'', ''TOE'', ''TOGETHER'', ''TOILET'', ''TOKEN'',
     ''TOMATO'', ''TOMORROW'', ''TONE'', ''TONGUE'', ''TONIGHT'', ''TOOL'', ''TOOTH'', ''TOP'',
     ''TOPIC'', ''TOPPLE'', ''TORCH'', ''TORNADO'', ''TORTOISE'', ''TOSS'', ''TOTAL'',
     ''TOURIST'', ''TOWARD'', ''TOWER'', ''TOWN'', ''TOY'', ''TRACK'', ''TRADE'', ''TRAFFIC'',
     ''TRAGIC'', ''TRAIN'', ''TRANSFER'', ''TRAP'', ''TRASH'', ''TRAVEL'', ''TRAY'', ''TREAT'',
     ''TREE'', ''TREND'', ''TRIAL'', ''TRIBE'', ''TRICK'', ''TRIGGER'', ''TRIM'', ''TRIP'',
     ''TROPHY'', ''TROUBLE'', ''TRUCK'', ''TRUE'', ''TRULY'', ''TRUMPET'', ''TRUST'', ''TRUTH'',
     ''TRY'', ''TUBE'', ''TUITION'', ''TUMBLE'', ''TUNA'', ''TUNNEL'', ''TURKEY'', ''TURN'',
     ''TURTLE'', ''TWELVE'', ''TWENTY'', ''TWICE'', ''TWIN'', ''TWIST'', ''TWO'', ''TYPE'',
     ''TYPICAL'']"

definition words_U :: "string list" where
  "words_U =
    [''UGLY'', ''UMBRELLA'', ''UNABLE'', ''UNAWARE'', ''UNCLE'', ''UNCOVER'', ''UNDER'', ''UNDO'',
     ''UNFAIR'', ''UNFOLD'', ''UNHAPPY'', ''UNIFORM'', ''UNIQUE'', ''UNIT'', ''UNIVERSE'',
     ''UNKNOWN'', ''UNLOCK'', ''UNTIL'', ''UNUSUAL'', ''UNVEIL'', ''UPDATE'', ''UPGRADE'',
     ''UPHOLD'', ''UPON'', ''UPPER'', ''UPSET'', ''URBAN'', ''URGE'', ''USAGE'', ''USE'',
     ''USED'', ''USEFUL'', ''USELESS'', ''USUAL'', ''UTILITY'']"

definition words_V :: "string list" where
  "words_V =
    [''VACANT'', ''VACUUM'', ''VAGUE'', ''VALID'', ''VALLEY'', ''VALVE'', ''VAN'', ''VANISH'',
     ''VAPOR'', ''VARIOUS'', ''VAST'', ''VAULT'', ''VEHICLE'', ''VELVET'', ''VENDOR'',
     ''VENTURE'', ''VENUE'', ''VERB'', ''VERIFY'', ''VERSION'', ''VERY'', ''VESSEL'', ''VETERAN'',
     ''VIABLE'', ''VIBRANT'', ''VICIOUS'', ''VICTORY'', ''VIDEO'', ''VIEW'', ''VILLAGE'',
     ''VINTAGE'', ''VIOLIN'', ''VIRTUAL'', ''VIRUS'', ''VISA'', ''VISIT'', ''VISUAL'', ''VITAL'',
     ''VIVID'', ''VOCAL'', ''VOICE'', ''VOID'', ''VOLCANO'', ''VOLUME'', ''VOTE'', ''VOYAGE'']"

definition words_W :: "string list" where
  "words_W =
    [''WAGE'', ''WAGON'', ''WAIT'', ''WALK'', ''WALL'', ''WALNUT'', ''WANT'', ''WARFARE'',
     ''WARM'', ''WARRIOR'', ''WASH'', ''WASP'', ''WASTE'', ''WATER'', ''WAVE'', ''WAY'',
     ''WEALTH'', ''WEAPON'', ''WEAR'', ''WEASEL'', ''WEATHER'', ''WEB'', ''WEDDING'', ''WEEKEND'',
     ''WEIRD'', ''WELCOME'', ''WEST'', ''WET'', ''WHALE'', ''WHAT'', ''WHEAT'', ''WHEEL'',
     ''WHEN'', ''WHERE'', ''WHIP'', ''WHISPER'', ''WIDE'', ''WIDTH'', ''WIFE'', ''WILD'',
     ''WILL'', ''WIN'', ''WINDOW'', ''WINE'', ''WING'', ''WINK'', ''WINNER'', ''WINTER'',
     ''WIRE'', ''WISDOM'', ''WISE'', ''WISH'', ''WITNESS'', ''WOLF'', ''WOMAN'', ''WONDER'',
     ''WOOD'', ''WOOL'', ''WORD'', ''WORK'', ''WORLD'', ''WORRY'', ''WORTH'', ''WRAP'', ''WRECK'',
     ''WRESTLE'', ''WRIST'', ''WRITE'', ''WRONG'']"

definition words_Y :: "string list" where
  "words_Y =
    [''YARD'', ''YEAR'', ''YELLOW'', ''YOU'', ''YOUNG'', ''YOUTH'']"

definition words_Z :: "string list" where
  "words_Z =
    [''ZEBRA'', ''ZERO'', ''ZONE'', ''ZOO'']"

definition BIP39_WORDS :: "string list" where
  "BIP39_WORDS =
     concat [words_A, words_B, words_C, words_D, words_E, words_F, words_G, words_H,
       words_I, words_J, words_K, words_L, words_M, words_N, words_O, words_P,
       words_Q, words_R, words_S, words_T, words_U, words_V, words_W, words_Y,
       words_Z]"

subsection \<open>The table is in ascending order\<close>

text \<open>The order of strings, computed on the bits of the characters.\<close>

fun char_less :: "char \<Rightarrow> char \<Rightarrow> bool" where
  "char_less (Char a0 a1 a2 a3 a4 a5 a6 a7) (Char b0 b1 b2 b3 b4 b5 b6 b7) =
     (if a7 = b7 then if a6 = b6 then if a5 = b5 then if a4 = b4 then if a3 = b3 then if a2 = b2
      then if a1 = b1 then \<not> a0 \<and> b0 else b1 else b2 else b3 else b4 else b5 else b6 else b7)"

fun string_less :: "string \<Rightarrow> string \<Rightarrow> bool" where
  "string_less _ [] = False"
| "string_less [] (y # ys) = True"
| "string_less (x # xs) (y # ys) = (if x = y then string_less xs ys else char_less x y)"

lemma bit_less: "of_bool a + 2 * m < of_bool b + 2 * n \<longleftrightarrow> m < n \<or> m = n \<and> \<not> a \<and> b" for m n :: nat
  by (cases a; cases b) auto

lemma bit_eq: "of_bool a + 2 * m = of_bool b + 2 * n \<longleftrightarrow> a = b \<and> m = n" for m n :: nat
proof (cases a; cases b)
  assume ab: "a" "\<not> b"
  have "Suc (2 * m) \<noteq> 2 * n" by presburger
  then show ?thesis using ab by simp
next
  assume ab: "\<not> a" "b"
  have "2 * m \<noteq> Suc (2 * n)" by presburger
  then show ?thesis using ab by simp
qed auto

lemma bit_less_top: "of_bool a < (of_bool b :: nat) \<longleftrightarrow> \<not> a \<and> b" and bit_eq_top: "of_bool a = (of_bool b :: nat) \<longleftrightarrow> a = b"
  by (cases a; cases b; simp)+

lemma char_less_iff: "char_less c d \<longleftrightarrow> c < d"
proof (cases c, cases d)
  fix a0 a1 a2 a3 a4 a5 a6 a7 b0 b1 b2 b3 b4 b5 b6 b7
  assume c: "c = Char a0 a1 a2 a3 a4 a5 a6 a7" "d = Char b0 b1 b2 b3 b4 b5 b6 b7"
  have code: "of_char (Char x0 x1 x2 x3 x4 x5 x6 x7) = of_bool x0 + 2 * (of_bool x1 + 2 * (of_bool x2 + 2 *
      (of_bool x3 + 2 * (of_bool x4 + 2 * (of_bool x5 + 2 * (of_bool x6 + 2 * of_bool x7))))))"
    for x0 x1 x2 x3 x4 x5 x6 x7 by (simp add: of_char_def)
  have "c < d \<longleftrightarrow> (of_char c :: nat) < of_char d" by (simp add: less_char_def)
  then show ?thesis
    unfolding c code bit_less bit_eq bit_less_top bit_eq_top char_less.simps
    by (cases "a7 = b7", cases "a6 = b6", cases "a5 = b5", cases "a4 = b4", cases "a3 = b3", cases "a2 = b2",
        cases "a1 = b1", cases "a0 = b0") simp_all
qed

lemma string_less_iff: "string_less s t \<longleftrightarrow> s < t"
  by (induction s t rule: string_less.induct) (auto simp: char_less_iff)

fun ascending :: "string list \<Rightarrow> bool" where
  "ascending (x # y # zs) = (if string_less x y then ascending (y # zs) else False)"
| "ascending zs = True"

lemma ascending_iff: "ascending ws \<longleftrightarrow> sorted_wrt (<) ws"
proof (induction ws rule: ascending.induct)
  case (1 x y zs)
  have "x < z" if "x < y" "\<forall>w\<in>set zs. y < w" "z \<in> set zs" for z using that by (meson order.strict_trans)
  then show ?case using 1 by (auto simp: string_less_iff)
qed simp_all

text \<open>The capital letters, on the bits.\<close>

fun capital :: "char \<Rightarrow> bool" where
  "capital (Char b0 b1 b2 b3 b4 b5 b6 b7) \<longleftrightarrow>
     \<not> b7 \<and> b6 \<and> \<not> b5 \<and> (b0 \<or> b1 \<or> b2 \<or> b3 \<or> b4) \<and> \<not> (b4 \<and> b3 \<and> (b2 \<or> b1 \<and> b0))"

lemma capital_iff: "capital c \<longleftrightarrow> CHR ''A'' \<le> c \<and> c \<le> CHR ''Z''"
  unfolding not_less [symmetric] char_less_iff [symmetric] by (cases c) auto

definition letter_words :: "char \<Rightarrow> string list \<Rightarrow> bool" where
  "letter_words c ws \<longleftrightarrow> ws \<noteq> [] \<and> list_all (\<lambda>w. w \<noteq> [] \<and> hd w = c \<and> list_all capital w) ws \<and> ascending ws"

lemma words_A_ok [simp]: "letter_words CHR ''A'' words_A"
  by (simp add: letter_words_def words_A_def)

lemma words_B_ok [simp]: "letter_words CHR ''B'' words_B"
  by (simp add: letter_words_def words_B_def)

lemma words_C_ok [simp]: "letter_words CHR ''C'' words_C"
  by (simp add: letter_words_def words_C_def)

lemma words_D_ok [simp]: "letter_words CHR ''D'' words_D"
  by (simp add: letter_words_def words_D_def)

lemma words_E_ok [simp]: "letter_words CHR ''E'' words_E"
  by (simp add: letter_words_def words_E_def)

lemma words_F_ok [simp]: "letter_words CHR ''F'' words_F"
  by (simp add: letter_words_def words_F_def)

lemma words_G_ok [simp]: "letter_words CHR ''G'' words_G"
  by (simp add: letter_words_def words_G_def)

lemma words_H_ok [simp]: "letter_words CHR ''H'' words_H"
  by (simp add: letter_words_def words_H_def)

lemma words_I_ok [simp]: "letter_words CHR ''I'' words_I"
  by (simp add: letter_words_def words_I_def)

lemma words_J_ok [simp]: "letter_words CHR ''J'' words_J"
  by (simp add: letter_words_def words_J_def)

lemma words_K_ok [simp]: "letter_words CHR ''K'' words_K"
  by (simp add: letter_words_def words_K_def)

lemma words_L_ok [simp]: "letter_words CHR ''L'' words_L"
  by (simp add: letter_words_def words_L_def)

lemma words_M_ok [simp]: "letter_words CHR ''M'' words_M"
  by (simp add: letter_words_def words_M_def)

lemma words_N_ok [simp]: "letter_words CHR ''N'' words_N"
  by (simp add: letter_words_def words_N_def)

lemma words_O_ok [simp]: "letter_words CHR ''O'' words_O"
  by (simp add: letter_words_def words_O_def)

lemma words_P_ok [simp]: "letter_words CHR ''P'' words_P"
  by (simp add: letter_words_def words_P_def)

lemma words_Q_ok [simp]: "letter_words CHR ''Q'' words_Q"
  by (simp add: letter_words_def words_Q_def)

lemma words_R_ok [simp]: "letter_words CHR ''R'' words_R"
  by (simp add: letter_words_def words_R_def)

lemma words_S_ok [simp]: "letter_words CHR ''S'' words_S"
  by (simp add: letter_words_def words_S_def)

lemma words_T_ok [simp]: "letter_words CHR ''T'' words_T"
  by (simp add: letter_words_def words_T_def)

lemma words_U_ok [simp]: "letter_words CHR ''U'' words_U"
  by (simp add: letter_words_def words_U_def)

lemma words_V_ok [simp]: "letter_words CHR ''V'' words_V"
  by (simp add: letter_words_def words_V_def)

lemma words_W_ok [simp]: "letter_words CHR ''W'' words_W"
  by (simp add: letter_words_def words_W_def)

lemma words_Y_ok [simp]: "letter_words CHR ''Y'' words_Y"
  by (simp add: letter_words_def words_Y_def)

lemma words_Z_ok [simp]: "letter_words CHR ''Z'' words_Z"
  by (simp add: letter_words_def words_Z_def)

lemma letter_words_less:
  assumes "letter_words c xs" "letter_words d ys" "c < d"
  shows "\<forall>x\<in>set xs. \<forall>y\<in>set ys. x < y"
proof (intro ballI)
  fix x y assume "x \<in> set xs" "y \<in> set ys"
  then have "x \<noteq> []" "hd x = c" "y \<noteq> []" "hd y = d" using assms by (auto simp: letter_words_def list_all_iff)
  then show "x < y" using assms(3) by (cases x; cases y) auto
qed

lemma concat_letter_words:
  "list_all2 letter_words cs wss \<Longrightarrow> sorted_wrt (<) cs \<Longrightarrow> sorted_wrt (<) (concat wss)"
proof (induction cs wss rule: list_all2_induct)
  case (Cons c cs ws wss)
  have "sorted_wrt (<) ws" using Cons.hyps(1) by (simp add: letter_words_def ascending_iff)
  moreover have "x < y" if x: "x \<in> set ws" and y: "y \<in> set (concat wss)" for x y
  proof -
    obtain vs where vs: "vs \<in> set wss" "y \<in> set vs" using y by auto
    then obtain d where "d \<in> set cs" "letter_words d vs" using Cons.hyps(2) by (metis list_all2_conv_all_nth in_set_conv_nth)
    then show ?thesis using letter_words_less [OF Cons.hyps(1)] Cons.prems x vs(2) by auto
  qed
  ultimately show ?case using Cons.IH Cons.prems by (simp add: sorted_wrt_append)
qed simp

definition first_letters :: string where
  "first_letters = ''ABCDEFGHIJKLMNOPQRSTUVWYZ''"

lemma first_letters_sorted: "sorted_wrt (<) first_letters"
  unfolding first_letters_def by code_simp

lemma BIP39_blocks: "\<exists>wss. BIP39_WORDS = concat wss \<and> list_all2 letter_words first_letters wss"
  unfolding BIP39_WORDS_def first_letters_def by (rule exI, rule conjI, rule refl) (simp del: concat.simps)

lemma BIP39_sorted: "sorted_wrt (<) BIP39_WORDS"
  using BIP39_blocks concat_letter_words [OF _ first_letters_sorted] by metis

lemma BIP39_distinct: "distinct BIP39_WORDS"
  using BIP39_sorted strict_sorted_iff by blast

lemma letter_block:
  assumes "list_all2 letter_words cs wss"
  shows "w \<in> set (concat wss) \<Longrightarrow> w \<noteq> [] \<and> hd w \<in> set cs \<and> list_all capital w"
    and "c \<in> set cs \<Longrightarrow> \<exists>w\<in>set (concat wss). w \<noteq> [] \<and> hd w = c"
  using assms
proof (induction rule: list_all2_induct)
  case (Cons d cs ws wss)
  {
    case 1
    then show ?case using Cons by (auto simp: letter_words_def list_all_iff)
  next
    case 2
    obtain w ws' where "ws = w # ws'" "w \<noteq> []" "hd w = d"
      using Cons.hyps(1) by (cases ws) (auto simp: letter_words_def)
    then show ?case using Cons.IH(2) 2 by auto
  }
qed simp_all

lemma BIP39_letters: "w \<in> set BIP39_WORDS \<Longrightarrow> w \<noteq> [] \<and> hd w \<in> set first_letters \<and> list_all capital w"
  using BIP39_blocks letter_block(1) by metis

lemma BIP39_starts: "c \<in> set first_letters \<Longrightarrow> \<exists>w\<in>set BIP39_WORDS. w \<noteq> [] \<and> hd w = c"
  using BIP39_blocks letter_block(2) by metis

lemma BIP39_length: "length BIP39_WORDS = 2048"
  unfolding BIP39_WORDS_def by code_simp

end
