(* ===== verification/Bisection.thy ===== *)
theory Bisection
  imports Prelude
begin

section \<open>Searching sorted slices\<close>

text \<open>
  \<^verbatim>\<open>partition_point\<close> and \<^verbatim>\<open>binary_search\<close> of the Rust library on slices, by bisection, and what
  they find when the slice falls into two parts and when it is sorted.
\<close>

function bisect :: "('a \<Rightarrow> bool) \<Rightarrow> 'a list \<Rightarrow> nat \<Rightarrow> nat \<Rightarrow> nat" where
  "bisect p xs lo hi =
     (if lo < hi
      then let mid = (lo + hi) div 2 in
           (if p (xs ! mid) then bisect p xs (mid + 1) hi else bisect p xs lo mid)
      else lo)"
  by pat_completeness auto
termination by (relation "measure (\<lambda>(p, xs, lo, hi). hi - lo)") auto

declare bisect.simps [simp del]

definition partition_point :: "('a \<Rightarrow> bool) \<Rightarrow> 'a list \<Rightarrow> nat" where
  "partition_point p xs = bisect p xs 0 (length xs)"

definition binary_search :: "'a::linorder list \<Rightarrow> 'a \<Rightarrow> nat option" where
  "binary_search xs x =
     (let i = partition_point (\<lambda>w. w < x) xs in if i < length xs \<and> xs ! i = x then Some i else None)"

definition splits_at :: "('a \<Rightarrow> bool) \<Rightarrow> 'a list \<Rightarrow> nat \<Rightarrow> bool" where
  "splits_at p xs n \<longleftrightarrow> n \<le> length xs \<and> (\<forall>i<length xs. p (xs ! i) \<longleftrightarrow> i < n)"

lemma bisect_step:
  "lo < hi \<Longrightarrow> bisect p xs lo hi =
     (if p (xs ! ((lo + hi) div 2)) then bisect p xs ((lo + hi) div 2 + 1) hi else bisect p xs lo ((lo + hi) div 2))"
  by (subst bisect.simps) (simp add: Let_def)

lemma bisect_spec:
  assumes "splits_at p xs n" "lo \<le> n" "n \<le> hi" "hi \<le> length xs"
  shows "bisect p xs lo hi = n"
  using assms
proof (induction p xs lo hi rule: bisect.induct)
  case (1 p xs lo hi)
  let ?mid = "(lo + hi) div 2"
  show ?case
  proof (cases "lo < hi")
    case True
    then have mid: "lo \<le> ?mid" "?mid < hi" "?mid < length xs" using "1.prems"(4) by auto
    have p: "p (xs ! ?mid) \<longleftrightarrow> ?mid < n" using "1.prems"(1) mid(3) by (simp add: splits_at_def)
    show ?thesis
    proof (cases "p (xs ! ?mid)")
      case yes: True
      then have "?mid + 1 \<le> n" using p by simp
      from "1.IH"(1) [OF True refl yes "1.prems"(1) this "1.prems"(3,4)] show ?thesis
        by (simp add: bisect_step [OF True] yes)
    next
      case no: False
      then have "n \<le> ?mid" "?mid \<le> length xs" using p mid(3) by simp_all
      from "1.IH"(2) [OF True refl no "1.prems"(1,2) this] show ?thesis
        by (simp add: bisect_step [OF True] no)
    qed
  next
    case False
    then have "bisect p xs lo hi = lo" by (subst bisect.simps) simp
    then show ?thesis using "1.prems"(2,3) False by simp
  qed
qed

text \<open>A list that falls into those that satisfy the predicate and those that do not.\<close>

lemma splits_at_takeWhile:
  assumes "\<forall>i j. i < j \<longrightarrow> j < length xs \<longrightarrow> p (xs ! j) \<longrightarrow> p (xs ! i)"
  shows "splits_at p xs (length (takeWhile p xs))"
proof -
  let ?n = "length (takeWhile p xs)"
  have "p (xs ! i)" if "i < ?n" for i using that by (metis nth_mem set_takeWhileD takeWhile_nth)
  moreover have "\<not> p (xs ! i)" if i: "i < length xs" "\<not> i < ?n" for i
  proof
    assume "p (xs ! i)"
    then have "p (xs ! ?n)" using assms i by (metis linorder_neqE_nat)
    then show False using nth_length_takeWhile [of p xs] i by simp
  qed
  ultimately show ?thesis by (auto simp: splits_at_def length_takeWhile_le)
qed

lemma partition_point_eq:
  assumes "\<forall>i j. i < j \<longrightarrow> j < length xs \<longrightarrow> p (xs ! j) \<longrightarrow> p (xs ! i)"
  shows "splits_at p xs (partition_point p xs)" "drop (partition_point p xs) xs = filter (\<lambda>x. \<not> p x) xs"
proof -
  let ?n = "partition_point p xs"
  have "?n = length (takeWhile p xs)"
    unfolding partition_point_def
    by (rule bisect_spec [OF splits_at_takeWhile [OF assms]]) (simp_all add: length_takeWhile_le)
  then show n: "splits_at p xs ?n" using splits_at_takeWhile [OF assms] by simp
  have "\<forall>x\<in>set (take ?n xs). p x" "\<forall>x\<in>set (drop ?n xs). \<not> p x"
    using n by (auto simp: splits_at_def in_set_conv_nth)
  then have "filter (\<lambda>x. \<not> p x) (take ?n xs) @ filter (\<lambda>x. \<not> p x) (drop ?n xs) = drop ?n xs"
    by (simp add: filter_empty_conv filter_id_conv)
  then show "drop ?n xs = filter (\<lambda>x. \<not> p x) xs" unfolding filter_append [symmetric] append_take_drop_id by simp
qed

lemma binary_search_iff:
  assumes "sorted_wrt (<) xs"
  shows "binary_search xs x = Some i \<longleftrightarrow> i < length xs \<and> xs ! i = x"
proof -
  have less: "xs ! i < xs ! j" if "i < j" "j < length xs" for i j using assms that by (simp add: sorted_wrt_iff_nth_less)
  have "\<forall>i j. i < j \<longrightarrow> j < length xs \<longrightarrow> xs ! j < x \<longrightarrow> xs ! i < x" using less by (meson order.strict_trans)
  note n = partition_point_eq(1) [OF this, unfolded splits_at_def]
  let ?n = "partition_point (\<lambda>w. w < x) xs"
  have "?n = i" if i: "i < length xs" "xs ! i = x"
  proof (rule linorder_cases)
    assume "?n < i"
    then have "xs ! ?n < x" using less i by blast
    then show "?n = i" using n \<open>?n < i\<close> i(1) by auto
  next
    assume "i < ?n"
    then have "xs ! i < x" using n i(1) by blast
    then show "?n = i" using i(2) by simp
  qed
  then show ?thesis by (auto simp: binary_search_def Let_def)
qed

end
