(* ===== verification/Bip39.thy ===== *)
theory Bip39
  imports WordTable Bisection "HOL-Library.Sublist"
begin

section \<open>Looking up words\<close>

text \<open>
  Models the searches of \<^verbatim>\<open>frost_backup/src/bip39_words.rs\<close> in the table of words, and the letters
  that can follow what has been typed, and proves that the bisections find exactly the words with
  a prefix and the letters that some word continues with.
\<close>

definition BITS_PER_WORD :: nat where
  "BITS_PER_WORD = 11"

subsection \<open>Searching it\<close>

definition word_to_index :: "string \<Rightarrow> nat option" where
  "word_to_index word = binary_search BIP39_WORDS word"

definition is_valid_bip39_word :: "string \<Rightarrow> bool" where
  "is_valid_bip39_word word \<longleftrightarrow> word_to_index word \<noteq> None"

definition words_with_prefix :: "string \<Rightarrow> string list" where
  "words_with_prefix p =
     (if p = [] then BIP39_WORDS
      else takeWhile (prefix p) (drop (partition_point (\<lambda>w. w < p) BIP39_WORDS) BIP39_WORDS))"

subsection \<open>The letters that can follow\<close>

record valid_letters =
  vl_letters :: "bool list"
  vl_count :: nat

definition letter_to_index :: "char \<Rightarrow> nat option" where
  "letter_to_index c = (if CHR ''A'' \<le> c \<and> c \<le> CHR ''Z'' then Some (of_char c - 65) else None)"

definition default_letters :: valid_letters where
  "default_letters =
     (let letters = replicate 23 True @ [False, True, True]
      in \<lparr>vl_letters = letters, vl_count = length (filter (\<lambda>b. b) letters)\<rparr>)"

definition all_false :: valid_letters where
  "all_false = \<lparr>vl_letters = replicate 26 False, vl_count = 0\<rparr>"

definition all_valid :: valid_letters where
  "all_valid = \<lparr>vl_letters = replicate 26 True, vl_count = 26\<rparr>"

definition set_letter :: "char \<Rightarrow> valid_letters \<Rightarrow> valid_letters" where
  "set_letter c v =
     (case letter_to_index c of
        None \<Rightarrow> v
      | Some i \<Rightarrow>
          (if vl_letters v ! i then v
           else \<lparr>vl_letters = (vl_letters v)[i := True], vl_count = vl_count v + 1\<rparr>))"

definition is_valid_letter :: "valid_letters \<Rightarrow> char \<Rightarrow> bool" where
  "is_valid_letter v c = (case letter_to_index c of None \<Rightarrow> False | Some i \<Rightarrow> vl_letters v ! i)"

definition iter_valid :: "valid_letters \<Rightarrow> char list" where
  "iter_valid v = map (\<lambda>i. char_of (65 + i)) (filter (\<lambda>i. vl_letters v ! i) [0..<26])"

fun nth_enabled_from :: "nat \<Rightarrow> bool list \<Rightarrow> nat \<Rightarrow> nat \<Rightarrow> char option" where
  "nth_enabled_from n [] idx cnt = None"
| "nth_enabled_from n (b # bs) idx cnt =
     (if b
      then (if cnt = n then Some (char_of (65 + idx)) else nth_enabled_from n bs (idx + 1) (cnt + 1))
      else nth_enabled_from n bs (idx + 1) cnt)"

definition nth_enabled :: "valid_letters \<Rightarrow> nat \<Rightarrow> char option" where
  "nth_enabled v n = nth_enabled_from n (vl_letters v) 0 0"

text \<open>The walk over the words from the lower bound on, until one does not have the prefix.\<close>

fun letters_after :: "string \<Rightarrow> string list \<Rightarrow> valid_letters \<Rightarrow> valid_letters" where
  "letters_after p [] v = v"
| "letters_after p (w # ws) v =
     (if prefix p w
      then letters_after p ws (case drop (length p) w of [] \<Rightarrow> v | c # _ \<Rightarrow> set_letter c v)
      else v)"

definition get_valid_next_letters :: "string \<Rightarrow> valid_letters" where
  "get_valid_next_letters p =
     (if p = [] then default_letters
      else letters_after p
             (drop (partition_point (\<lambda>w. take (min (length p) (length w)) w < p) BIP39_WORDS) BIP39_WORDS)
             all_false)"

subsection \<open>The searches\<close>

lemma word_to_index_iff: "word_to_index w = Some i \<longleftrightarrow> i < 2048 \<and> BIP39_WORDS ! i = w"
  by (simp add: word_to_index_def binary_search_iff [OF BIP39_sorted] BIP39_length)

lemma word_to_index_None: "word_to_index w = None \<longleftrightarrow> w \<notin> set BIP39_WORDS"
  using word_to_index_iff [of w] by (cases "word_to_index w") (auto simp: in_set_conv_nth BIP39_length)

subsection \<open>Words with a prefix\<close>

lemma append_not_less: "\<not> p @ s < (p :: string)"
  by (induction p) auto

lemma prefix_not_less: "prefix p w \<Longrightarrow> \<not> w < (p :: string)"
  by (auto simp: prefix_def append_not_less)

lemma take_less_mono: "v < (w :: string) \<Longrightarrow> take k v \<le> take k w"
proof (induction k arbitrary: v w)
  case (Suc k)
  then show ?case by (cases v; cases w) auto
qed simp

lemma prefix_take: "prefix p w \<longleftrightarrow> take (length p) w = p"
  by (metis append_eq_conv_conj append_take_drop_id prefix_def)

lemma prefix_block:
  assumes "p \<le> take (length p) v" "\<not> prefix p v" "v < w"
  shows "\<not> prefix p (w :: string)"
proof -
  have "p < take (length p) v" using assms(1,2) by (auto simp: prefix_take order.order_iff_strict)
  then show ?thesis using take_less_mono [OF assms(3), of "length p"] by (auto simp: prefix_take)
qed

lemma le_take: "p \<le> w \<Longrightarrow> p \<le> take (length p) (w :: string)"
proof (induction p arbitrary: w)
  case (Cons c p)
  then show ?case by (cases w) auto
qed simp

text \<open>In ascending order, the words with a prefix are next to each other from the lower bound on.\<close>

lemma takeWhile_prefix:
  "sorted_wrt (<) ws \<Longrightarrow> \<forall>w\<in>set ws. p \<le> take (length p) w \<Longrightarrow>
   takeWhile (prefix p) ws = filter (prefix p) (ws :: string list)"
proof (induction ws)
  case (Cons w ws)
  show ?case
  proof (cases "prefix p w")
    case False
    then have "\<not> prefix p v" if "v \<in> set ws" for v
      using prefix_block [of p w v] Cons.prems that by auto
    then show ?thesis using False by (simp add: filter_empty_conv)
  qed (use Cons in simp)
qed simp

lemma sorted_downward:
  assumes "sorted_wrt (<) (xs :: string list)" "\<And>v w. v < w \<Longrightarrow> q w \<Longrightarrow> q v"
  shows "\<forall>i j. i < j \<longrightarrow> j < length xs \<longrightarrow> q (xs ! j) \<longrightarrow> q (xs ! i)"
  using assms by (meson sorted_wrt_nth_less)

lemma words_with_prefix_eq: "words_with_prefix p = filter (prefix p) BIP39_WORDS"
proof (cases "p = []")
  case False
  have "\<forall>i j. i < j \<longrightarrow> j < length BIP39_WORDS \<longrightarrow> BIP39_WORDS ! j < p \<longrightarrow> BIP39_WORDS ! i < p"
    by (rule sorted_downward [OF BIP39_sorted]) (rule order.strict_trans)
  from partition_point_eq(2) [OF this]
  have rest: "drop (partition_point (\<lambda>w. w < p) BIP39_WORDS) BIP39_WORDS = filter (\<lambda>w. \<not> w < p) BIP39_WORDS" .
  have "takeWhile (prefix p) (filter (\<lambda>w. \<not> w < p) BIP39_WORDS) = filter (prefix p) (filter (\<lambda>w. \<not> w < p) BIP39_WORDS)"
    by (rule takeWhile_prefix) (auto simp: BIP39_sorted sorted_wrt_filter intro: le_take)
  also have "\<dots> = filter (prefix p) BIP39_WORDS"
    by (auto simp: prefix_not_less intro: filter_cong)
  finally show ?thesis using False by (simp add: words_with_prefix_def rest)
qed (simp add: words_with_prefix_def)

subsection \<open>The letters that can follow\<close>

lemma letter_to_index_Some: "letter_to_index c = Some i \<Longrightarrow> i < 26 \<and> c = char_of (65 + i)"
proof -
  assume "letter_to_index c = Some i"
  then have c: "(65 :: nat) \<le> of_char c" "of_char c \<le> (90 :: nat)" "i = of_char c - 65"
    by (auto simp: letter_to_index_def less_eq_char_def split: if_splits)
  have "char_of (of_char c :: nat) = c" by simp
  then show ?thesis using c by simp
qed

lemma letter_to_index_capital: "letter_to_index c = None \<longleftrightarrow> \<not> capital c"
  by (simp add: letter_to_index_def capital_iff)

lemma letter_to_index_inj: "letter_to_index c = Some i \<Longrightarrow> letter_to_index d = Some i \<longleftrightarrow> d = c"
  using letter_to_index_Some by metis

definition letters_ok :: "valid_letters \<Rightarrow> bool" where
  "letters_ok v \<longleftrightarrow> length (vl_letters v) = 26 \<and> vl_count v = length (filter (\<lambda>b. b) (vl_letters v))"

lemma count_update:
  "i < length bs \<Longrightarrow> \<not> bs ! i \<Longrightarrow> length (filter (\<lambda>b. b) (bs[i := True])) = Suc (length (filter (\<lambda>b. b) bs))"
proof (induction bs arbitrary: i)
  case (Cons b bs)
  then show ?case by (cases i) auto
qed simp

lemma letters_ok_simps [simp]: "letters_ok default_letters" "letters_ok all_false" "letters_ok all_valid"
  by (simp_all add: letters_ok_def default_letters_def all_false_def all_valid_def Let_def)

lemma set_letter_ok [simp]: "letters_ok v \<Longrightarrow> letters_ok (set_letter c v)"
  using letter_to_index_Some [of c] by (auto simp: letters_ok_def set_letter_def count_update split: option.split)

lemma set_letter_valid:
  assumes "letters_ok v"
  shows "is_valid_letter (set_letter c v) d \<longleftrightarrow> (d = c \<and> capital c) \<or> is_valid_letter v d"
proof (cases "letter_to_index c")
  case None
  then show ?thesis using letter_to_index_capital [of c] by (simp add: set_letter_def)
next
  case (Some i)
  then have c: "capital c" "i < length (vl_letters v)"
    using letter_to_index_capital [of c] letter_to_index_Some [OF Some] assms by (simp_all add: letters_ok_def)
  show ?thesis
  proof (cases "letter_to_index d")
    case None
    then show ?thesis using Some c(1) by (auto simp: is_valid_letter_def)
  next
    case (Some j)
    have "j = i \<longleftrightarrow> d = c" using letter_to_index_inj [OF \<open>letter_to_index c = Some i\<close>, of d] Some by auto
    then show ?thesis
      using Some \<open>letter_to_index c = Some i\<close> c by (auto simp: is_valid_letter_def set_letter_def nth_list_update)
  qed
qed

lemma all_false_valid [simp]: "\<not> is_valid_letter all_false d"
  using letter_to_index_Some [of d] by (auto simp: is_valid_letter_def all_false_def split: option.split)

lemma letters_after_valid:
  "letters_ok v \<Longrightarrow> letters_ok (letters_after p ws v) \<and>
   (is_valid_letter (letters_after p ws v) d \<longleftrightarrow>
      is_valid_letter v d \<or> capital d \<and> (\<exists>w\<in>set (takeWhile (prefix p) ws). \<exists>rest. w = p @ d # rest))"
proof (induction p ws v rule: letters_after.induct)
  case (2 p w ws v)
  show ?case
  proof (cases "prefix p w")
    case True
    then obtain rest where w: "w = p @ rest" by (auto simp: prefix_def)
    then show ?thesis using 2 True by (cases rest) (auto simp: set_letter_valid)
  qed (use 2 in simp)
qed simp

text \<open>No word starts with X, every other letter starts one.\<close>

lemma default_letters_valid: "is_valid_letter default_letters d \<longleftrightarrow> d \<in> set first_letters"
proof (cases "letter_to_index d")
  case None
  then have "\<not> capital d" by (simp add: letter_to_index_capital)
  moreover have "\<forall>c\<in>set first_letters. capital c" unfolding first_letters_def by simp
  ultimately show ?thesis using None by (auto simp: is_valid_letter_def)
next
  case (Some i)
  then have d: "i < 26" "d = char_of (65 + i)" using letter_to_index_Some by blast+
  have "\<forall>i<26. (replicate 23 True @ [False, True, True]) ! i \<longleftrightarrow> char_of (65 + i) \<in> set first_letters"
    unfolding first_letters_def by code_simp
  then show ?thesis using Some d by (simp add: is_valid_letter_def default_letters_def Let_def)
qed

lemma next_letters:
  "letters_ok (get_valid_next_letters p) \<and>
   (is_valid_letter (get_valid_next_letters p) c \<longleftrightarrow> (\<exists>rest. p @ c # rest \<in> set BIP39_WORDS))"
proof (cases "p = []")
  case True
  have "c \<in> set first_letters \<longleftrightarrow> (\<exists>rest. c # rest \<in> set BIP39_WORDS)"
    using BIP39_letters BIP39_starts [of c] by (metis list.collapse list.sel(1))
  then show ?thesis using True by (simp add: get_valid_next_letters_def default_letters_valid)
next
  case False
  let ?q = "\<lambda>w. take (min (length p) (length w)) w < p"
  have q: "?q w \<longleftrightarrow> take (length p) w < p" for w by (simp add: min_def)
  have "\<forall>i j. i < j \<longrightarrow> j < length BIP39_WORDS \<longrightarrow> ?q (BIP39_WORDS ! j) \<longrightarrow> ?q (BIP39_WORDS ! i)"
    by (rule sorted_downward [OF BIP39_sorted]) (metis q take_less_mono order.strict_trans1)
  from partition_point_eq(2) [OF this]
  have rest: "drop (partition_point ?q BIP39_WORDS) BIP39_WORDS = filter (\<lambda>w. \<not> ?q w) BIP39_WORDS" .
  have "takeWhile (prefix p) (filter (\<lambda>w. \<not> ?q w) BIP39_WORDS) = filter (prefix p) (filter (\<lambda>w. \<not> ?q w) BIP39_WORDS)"
    by (rule takeWhile_prefix) (auto simp: BIP39_sorted sorted_wrt_filter q)
  then have "set (takeWhile (prefix p) (filter (\<lambda>w. \<not> ?q w) BIP39_WORDS)) = {w \<in> set BIP39_WORDS. prefix p w}"
    by (auto simp: q prefix_take)
  moreover have "capital c" if "p @ c # rest \<in> set BIP39_WORDS" for rest
    using BIP39_letters [OF that] by simp
  ultimately show ?thesis
    using False letters_after_valid [of all_false p "filter (\<lambda>w. \<not> ?q w) BIP39_WORDS" c]
    by (auto simp: get_valid_next_letters_def rest)
qed

lemma filter_nth_Cons:
  "filter (\<lambda>i. (b # bs) ! i) [0..<length (b # bs)] =
     (if b then [0] else []) @ map Suc (filter (\<lambda>i. bs ! i) [0..<length bs])"
proof -
  have "[0..<length (b # bs)] = 0 # map Suc [0..<length bs]" by (simp add: upt_conv_Cons map_Suc_upt del: upt_Suc)
  then show ?thesis by (simp add: filter_map comp_def)
qed

lemma nth_enabled_from_eq:
  "cnt \<le> n \<Longrightarrow> nth_enabled_from n bs idx cnt =
     (let ks = filter (\<lambda>i. bs ! i) [0..<length bs]
      in if n - cnt < length ks then Some (char_of (65 + (idx + ks ! (n - cnt)))) else None)"
proof (induction bs arbitrary: idx cnt)
  case (Cons b bs)
  show ?case
  proof (cases "b \<and> cnt \<noteq> n")
    case True
    then have "cnt < n" using Cons.prems by simp
    then have "n - cnt = Suc (n - Suc cnt)" by (rule Suc_diff_Suc [symmetric])
    then show ?thesis
      using True Cons.prems Cons.IH [of "cnt + 1" "idx + 1"] unfolding filter_nth_Cons by (simp add: Let_def)
  next
    case False
    then show ?thesis
      using Cons.prems Cons.IH [of cnt "idx + 1"] unfolding filter_nth_Cons by (auto simp: Let_def)
  qed
qed simp

lemma count_iter_valid: "letters_ok v \<Longrightarrow> length (iter_valid v) = vl_count v"
proof -
  assume v: "letters_ok v"
  then have "map (nth (vl_letters v)) [0..<26] = vl_letters v" using map_nth [of "vl_letters v"] by (simp add: letters_ok_def)
  then have "length (filter (\<lambda>b. b) (vl_letters v)) = length (filter (\<lambda>i. vl_letters v ! i) [0..<26])"
    by (metis (mono_tags, lifting) comp_apply filter_cong filter_map length_map)
  then show ?thesis using v by (simp add: iter_valid_def letters_ok_def)
qed

lemma nth_enabled_eq:
  "letters_ok v \<Longrightarrow> nth_enabled v n = (if n < vl_count v then Some (iter_valid v ! n) else None)"
  using nth_enabled_from_eq [of 0 n "vl_letters v" 0] count_iter_valid [of v]
  by (simp add: nth_enabled_def iter_valid_def letters_ok_def Let_def)

lemma set_iter_valid: "letters_ok v \<Longrightarrow> c \<in> set (iter_valid v) \<longleftrightarrow> is_valid_letter v c"
proof (cases "letter_to_index c")
  case (Some i)
  then have "i < 26" "c = char_of (65 + i)" using letter_to_index_Some by blast+
  moreover have "j = i" if "j < 26" "char_of (65 + i) = (char_of (65 + j) :: char)" for j
    using that \<open>i < 26\<close> by (simp add: char_of_eq_iff take_bit_nat_eq_self)
  ultimately show ?thesis using Some by (auto simp: iter_valid_def is_valid_letter_def)
next
  case None
  have "letter_to_index (char_of (65 + j)) = Some j" if "j < 26" for j
    using that by (simp add: letter_to_index_def less_eq_char_def)
  then show ?thesis using None by (auto simp: iter_valid_def is_valid_letter_def)
qed

text \<open>C11. The searches behind the entry of words are exact: the words offered for a prefix are the
  words of the table with that prefix, in the table's order; the keyboard enables a letter exactly if
  some word goes on with it; and the letters it lists, and their cached number, are the enabled ones.\<close>

theorem prefix_lookups_exact:
  "words_with_prefix p = filter (prefix p) BIP39_WORDS \<and>
   (let v = get_valid_next_letters p
    in (is_valid_letter v c \<longleftrightarrow> (\<exists>rest. p @ c # rest \<in> set BIP39_WORDS)) \<and>
       (c \<in> set (iter_valid v) \<longleftrightarrow> is_valid_letter v c) \<and>
       vl_count v = length (iter_valid v) \<and>
       nth_enabled v n = (if n < vl_count v then Some (iter_valid v ! n) else None))"
  using next_letters [of p c] by (simp add: words_with_prefix_eq set_iter_valid count_iter_valid nth_enabled_eq Let_def)

end
