(* ===== verification/BackupWords.thy ===== *)
theory BackupWords
  imports ShareBackup SecretDerivation Bip39
begin

unbundle bit_operations_syntax

section \<open>A backup as words\<close>

text \<open>
  Models the encoding of \<^verbatim>\<open>frost_backup/src/share_backup.rs\<close>: 25 words of 11 bits, for the 256 bits
  of the share, 8 bits of the checksum over the polynomial and 11 bits of one over the rest; and
  the text form with the share index in front. The encoder shifts bytes through a \<open>u32\<close>, the
  decoder sets bit by bit; both are proved to agree with the one sequence of bits.
\<close>

definition NUM_WORDS :: nat where "NUM_WORDS = 25"
definition SCALAR_BITS :: nat where "SCALAR_BITS = 256"
definition POLY_CHECKSUM_BITS :: nat where "POLY_CHECKSUM_BITS = 8"
definition WORDS_CHECKSUM_BITS :: nat where "WORDS_CHECKSUM_BITS = 11"
definition POLY_CHECKSUM_START :: nat where "POLY_CHECKSUM_START = SCALAR_BITS"
definition WORDS_CHECKSUM_START :: nat where "WORDS_CHECKSUM_START = SCALAR_BITS + POLY_CHECKSUM_BITS"
definition TOTAL_BITS :: nat where "TOTAL_BITS = SCALAR_BITS + POLY_CHECKSUM_BITS + WORDS_CHECKSUM_BITS"

lemmas layout_defs = NUM_WORDS_def SCALAR_BITS_def POLY_CHECKSUM_BITS_def WORDS_CHECKSUM_BITS_def
  POLY_CHECKSUM_START_def WORDS_CHECKSUM_START_def TOTAL_BITS_def BITS_PER_WORD_def

definition u16_to_be_bytes :: "nat \<Rightarrow> bytes" where
  "u16_to_be_bytes n = [of_nat (n div 256), of_nat n]"

definition compute_words_checksum :: "crypto \<Rightarrow> nat \<Rightarrow> scalar \<Rightarrow> nat \<Rightarrow> nat" where
  "compute_words_checksum C index s poly_checksum =
     hash_u16 (sha256 C (u32_to_be_bytes index @ s @ u16_to_be_bytes poly_checksum)) div
       2 ^ (16 - WORDS_CHECKSUM_BITS)"

subsection \<open>Decoding\<close>

text \<open>\<^verbatim>\<open>set_bit\<close>: bit \<open>index\<close> counted from the most significant of \<open>len\<close>.\<close>

definition set_bit_be :: "'a::semiring_bit_operations \<Rightarrow> nat \<Rightarrow> nat \<Rightarrow> 'a" where
  "set_bit_be target len index = target OR push_bit (len - 1 - index) 1"

record decoded_words =
  dw_scalar :: bytes
  dw_poly_checksum :: nat
  dw_words_checksum :: nat

definition place_bit :: "nat \<Rightarrow> bool \<Rightarrow> decoded_words \<Rightarrow> decoded_words" where
  "place_bit pos b w =
     (if \<not> b then w
      else if pos < SCALAR_BITS
      then w\<lparr>dw_scalar := (dw_scalar w)[pos div 8 := set_bit_be (dw_scalar w ! (pos div 8)) 8 (pos mod 8)]\<rparr>
      else if pos < WORDS_CHECKSUM_START
      then w\<lparr>dw_poly_checksum := set_bit_be (dw_poly_checksum w) POLY_CHECKSUM_BITS (pos - POLY_CHECKSUM_START)\<rparr>
      else if pos < TOTAL_BITS
      then w\<lparr>dw_words_checksum := set_bit_be (dw_words_checksum w) WORDS_CHECKSUM_BITS (pos - WORDS_CHECKSUM_START)\<rparr>
      else w)"

fun place_bits :: "nat \<Rightarrow> bool list \<Rightarrow> decoded_words \<Rightarrow> decoded_words" where
  "place_bits pos [] w = w"
| "place_bits pos (b # bs) w = place_bits (pos + 1) bs (place_bit pos b w)"

text \<open>The bits of a word, from the highest on.\<close>

definition word_bits :: "nat \<Rightarrow> nat \<Rightarrow> bool list" where
  "word_bits len w = map (bit w) (rev [0..<len])"

fun words_to_indices :: "nat \<Rightarrow> string list \<Rightarrow> (share_backup_error, nat list) result" where
  "words_to_indices i [] = Ok []"
| "words_to_indices i (w # ws) =
     and_then (ok_or (InvalidBip39Word i w) (word_to_index w)) (\<lambda>idx.
     and_then (words_to_indices (i + 1) ws) (\<lambda>rest. Ok (idx # rest)))"

definition from_words :: "crypto \<Rightarrow> nat \<Rightarrow> string list \<Rightarrow> (share_backup_error, share_backup) result" where
  "from_words C index words =
     and_then (words_to_indices 0 words) (\<lambda>word_indices.
     let w = place_bits 0 (concat (map (word_bits BITS_PER_WORD) word_indices))
               \<lparr>dw_scalar = replicate 32 0, dw_poly_checksum = 0, dw_words_checksum = 0\<rparr>;
         s = scalar_mod_order C (dw_scalar w)
     in if compute_words_checksum C index s (dw_poly_checksum w) \<noteq> dw_words_checksum w
        then Err WordsChecksumFailed
        else if index = 0 then Err InvalidShareIndex
        else Ok \<lparr>sb_share = \<lparr>sh_index = index, sh_scalar = s\<rparr>, sb_poly_checksum = dw_poly_checksum w\<rparr>)"

subsection \<open>Encoding\<close>

record packing =
  pk_words :: "nat list"
  pk_word_idx :: nat
  pk_acc :: nat
  pk_bits :: nat

function drain_words :: "packing \<Rightarrow> packing" where
  "drain_words p =
     (if BITS_PER_WORD \<le> pk_bits p \<and> pk_word_idx p < NUM_WORDS
      then let shift = pk_bits p - BITS_PER_WORD in
           drain_words (p\<lparr>pk_words := (pk_words p)[pk_word_idx p := drop_bit shift (pk_acc p) mod 65536],
             pk_acc := pk_acc p AND (2 ^ shift - 1), pk_bits := shift, pk_word_idx := pk_word_idx p + 1\<rparr>)
      else p)"
  by pat_completeness auto
termination by (relation "measure pk_bits") (auto simp: BITS_PER_WORD_def)

declare drain_words.simps [simp del]

definition pack_byte :: "byte \<Rightarrow> packing \<Rightarrow> packing" where
  "pack_byte b p =
     drain_words (p\<lparr>pk_acc := (push_bit 8 (pk_acc p) mod 4294967296) OR unat b, pk_bits := pk_bits p + 8\<rparr>)"

definition to_word_indices :: "crypto \<Rightarrow> share_backup \<Rightarrow> ('e, nat list) result" where
  "to_word_indices C b =
     and_then (expect ''Share index should fit in u32'' (u32_try_from (sh_index (sb_share b)))) (\<lambda>index.
     let words_checksum = compute_words_checksum C index (sh_scalar (sb_share b)) (sb_poly_checksum b);
         p = fold pack_byte (sh_scalar (sb_share b))
               \<lparr>pk_words = replicate NUM_WORDS 0, pk_word_idx = 0, pk_acc = 0, pk_bits = 0\<rparr>;
         acc = (push_bit 8 (pk_acc p) mod 4294967296) OR sb_poly_checksum b
     in Ok ((pk_words p)[23 := acc mod 65536, 24 := words_checksum]))"

definition to_words :: "crypto \<Rightarrow> share_backup \<Rightarrow> ('e, string list) result" where
  "to_words C b = and_then (to_word_indices C b) (\<lambda>idx. Ok (map (nth BIP39_WORDS) idx))"

subsection \<open>Numbers as sequences of bits\<close>

definition bits_val :: "bool list \<Rightarrow> nat" where
  "bits_val bs = foldl (\<lambda>n b. 2 * n + of_bool b) 0 bs"

lemma bits_val_from: "foldl (\<lambda>n b. 2 * n + of_bool b) m bs = m * 2 ^ length bs + bits_val bs"
proof (induction bs arbitrary: m)
  case (Cons b bs)
  have "foldl (\<lambda>n b. 2 * n + of_bool b) m (b # bs) = (2 * m + of_bool b) * 2 ^ length bs + bits_val bs"
    using Cons [of "2 * m + of_bool b"] by simp
  moreover have "bits_val (b # bs) = of_bool b * 2 ^ length bs + bits_val bs"
    using Cons [of "of_bool b"] by (simp add: bits_val_def)
  ultimately show ?case by (simp add: distrib_right)
qed (simp add: bits_val_def)

lemma bits_val_append: "bits_val (xs @ ys) = bits_val xs * 2 ^ length ys + bits_val ys"
  using bits_val_from [of "bits_val xs" ys] by (simp add: bits_val_def)

lemma bits_val_simps [simp]: "bits_val [] = 0" "bits_val [b] = of_bool b"
  by (simp_all add: bits_val_def)

lemma bits_val_less: "bits_val bs < 2 ^ length bs"
proof (induction bs rule: rev_induct)
  case (snoc b bs)
  then show ?case by (cases b) (auto simp: bits_val_append)
qed simp

lemma length_word_bits [simp]: "length (word_bits k n) = k"
  by (simp add: word_bits_def)

lemma word_bits_Suc: "word_bits (Suc k) n = word_bits k (n div 2) @ [odd n]"
proof -
  have "rev [0..<Suc k] = map Suc (rev [0..<k]) @ [0]"
    by (simp add: upt_conv_Cons map_Suc_upt [symmetric] rev_map [symmetric] del: upt_Suc)
  then show ?thesis by (simp add: word_bits_def bit_Suc bit_0 comp_def)
qed

lemma bits_val_word_bits: "bits_val (word_bits k n) = n mod 2 ^ k"
proof (induction k arbitrary: n)
  case (Suc k)
  have "n mod (2 * 2 ^ k) = 2 * (n div 2 mod 2 ^ k) + n mod 2" by (rule mod_mult2_eq)
  then show ?case by (simp add: word_bits_Suc bits_val_append Suc mod_2_eq_odd)
qed (simp add: word_bits_def)

lemma word_bits_val: "word_bits (length bs) (bits_val bs) = bs"
proof (induction bs rule: rev_induct)
  case (snoc b bs)
  have "bits_val (bs @ [b]) div 2 = bits_val bs" "odd (bits_val (bs @ [b])) = b"
    by (cases b; simp add: bits_val_append)+
  then show ?case using snoc by (simp add: word_bits_Suc)
qed (simp add: word_bits_def)

lemma drop_bit_val: "drop_bit (length ys) (bits_val (xs @ ys)) = bits_val xs"
  using bits_val_less [of ys] by (simp add: bits_val_append drop_bit_eq_div)

lemma mask_val: "bits_val (xs @ ys) AND (2 ^ length ys - 1) = bits_val ys"
proof -
  have "bits_val (xs @ ys) AND (2 ^ length ys - 1) = take_bit (length ys) (bits_val (xs @ ys))"
    by (simp add: take_bit_eq_mask mask_eq_exp_minus_1)
  then show ?thesis using bits_val_less [of ys] by (simp add: take_bit_eq_mod bits_val_append)
qed

lemma or_disjoint: "b < 2 ^ k \<Longrightarrow> push_bit k a OR b = a * 2 ^ k + b" for a b :: nat
proof -
  assume "b < 2 ^ k"
  then have "\<not> bit (push_bit k a) n \<or> \<not> bit b n" for n
    by (metis bit_push_bit_iff bit_take_bit_iff take_bit_nat_eq_self_iff not_le)
  then have "push_bit k a + b = push_bit k a OR b" by (intro disjunctive_add_eq_or) (simp add: bit_eq_iff bit_and_iff)
  then show ?thesis by (simp add: push_bit_eq_mult)
qed

lemma shift_in:
  assumes "length bs + 8 \<le> 32" "x < 256"
  shows "(push_bit 8 (bits_val bs) mod 4294967296) OR x = bits_val (bs @ word_bits 8 x)"
proof -
  have "bits_val bs < 2 ^ 24" using bits_val_less [of bs] assms(1) power_increasing [of "length bs" 24 "2 :: nat"] by simp
  then have "push_bit 8 (bits_val bs) mod 4294967296 = push_bit 8 (bits_val bs)" by (simp add: push_bit_eq_mult)
  then show ?thesis using assms(2) by (simp add: or_disjoint bits_val_append bits_val_word_bits)
qed

subsection \<open>The encoder cuts the bits into words\<close>

fun cut_words :: "bool list \<Rightarrow> nat list" where
  "cut_words bs = (if length bs < 11 then [] else bits_val (take 11 bs) # cut_words (drop 11 bs))"

fun cut_rest :: "bool list \<Rightarrow> bool list" where
  "cut_rest bs = (if length bs < 11 then bs else cut_rest (drop 11 bs))"

declare cut_words.simps [simp del] cut_rest.simps [simp del]

lemma length_cut_words: "length (cut_words bs) = length bs div 11"
proof (induction bs rule: cut_words.induct)
  case (1 bs)
  then show ?case by (subst cut_words.simps) (auto simp: le_div_geq)
qed

lemma length_cut_rest: "length (cut_rest bs) = length bs mod 11"
proof (induction bs rule: cut_rest.induct)
  case (1 bs)
  then show ?case by (subst cut_rest.simps) (auto simp: le_mod_geq)
qed

lemma cut_append:
  "cut_words (xs @ ys) = cut_words xs @ cut_words (cut_rest xs @ ys) \<and> cut_rest (xs @ ys) = cut_rest (cut_rest xs @ ys)"
proof (induction xs rule: cut_words.induct)
  case (1 xs)
  show ?case
  proof (cases "length xs < 11")
    case False
    then have "cut_words (xs @ ys) = bits_val (take 11 xs) # cut_words (drop 11 xs @ ys)"
      "cut_rest (xs @ ys) = cut_rest (drop 11 xs @ ys)"
      by (simp_all add: cut_words.simps [of "xs @ ys"] cut_rest.simps [of "xs @ ys"])
    then show ?thesis
      using 1 [OF False] False by (simp add: cut_words.simps [of xs] cut_rest.simps [of xs])
  qed (simp add: cut_words.simps [of xs] cut_rest.simps [of xs])
qed

lemma cut_words_inverse: "concat (map (word_bits 11) (cut_words bs)) @ cut_rest bs = bs"
proof (induction bs rule: cut_words.induct)
  case (1 bs)
  show ?case
  proof (cases "length bs < 11")
    case False
    then have "word_bits 11 (bits_val (take 11 bs)) = take 11 bs" using word_bits_val [of "take 11 bs"] by simp
    then show ?thesis
      using 1 [OF False] False by (simp add: cut_words.simps [of bs] cut_rest.simps [of bs])
  qed (simp add: cut_words.simps [of bs] cut_rest.simps [of bs])
qed

lemma bits_val_word: "bits_val (take 11 bs) < 2048"
  using bits_val_less [of "take 11 bs"] power_increasing [of "length (take 11 bs)" 11 "2 :: nat"] by simp

text \<open>The state of the encoder after the bits \<open>bs\<close>.\<close>

definition packed :: "bool list \<Rightarrow> packing" where
  "packed bs = \<lparr>pk_words = cut_words bs @ replicate (25 - length (cut_words bs)) 0,
     pk_word_idx = length (cut_words bs), pk_acc = bits_val (cut_rest bs), pk_bits = length (cut_rest bs)\<rparr>"

lemma drain_few: "pk_bits p < 11 \<Longrightarrow> drain_words p = p"
  by (subst drain_words.simps) (simp add: BITS_PER_WORD_def)

lemma drain_one:
  assumes "11 \<le> length bs" "length bs < 22" "length ws < 25"
  shows "drain_words \<lparr>pk_words = ws @ replicate (25 - length ws) 0, pk_word_idx = length ws, pk_acc = bits_val bs,
      pk_bits = length bs\<rparr> =
    \<lparr>pk_words = (ws @ [bits_val (take 11 bs)]) @ replicate (25 - Suc (length ws)) 0, pk_word_idx = Suc (length ws),
      pk_acc = bits_val (drop 11 bs), pk_bits = length (drop 11 bs)\<rparr>"
proof -
  have "length (drop 11 bs) = length bs - 11" by simp
  then have cut: "drop_bit (length bs - 11) (bits_val bs) = bits_val (take 11 bs)"
      "bits_val bs AND (2 ^ (length bs - 11) - 1) = bits_val (drop 11 bs)"
    using drop_bit_val [of "drop 11 bs" "take 11 bs"] mask_val [of "take 11 bs" "drop 11 bs"] by simp_all
  have "replicate (25 - length ws) 0 = (0 :: nat) # replicate (25 - Suc (length ws)) 0"
    using assms(3) by (metis Suc_diff_Suc replicate_Suc)
  then have "(ws @ replicate (25 - length ws) 0)[length ws := v] = (ws @ [v]) @ replicate (25 - Suc (length ws)) 0" for v :: nat
    by simp
  then show ?thesis
    using assms bits_val_word [of bs]
    by (subst drain_words.simps) (simp add: layout_defs cut [unfolded One_nat_def] drain_few Let_def)
qed

lemma pack_byte_packed:
  assumes "length bs + 8 < 275"
  shows "pack_byte b (packed bs) = packed (bs @ word_bits 8 (unat b))"
proof -
  note cut = cut_append [of bs "word_bits 8 (unat b)"]
  let ?r = "cut_rest bs @ word_bits 8 (unat b)"
  have b: "unat b < 256" using unsigned_less [of b, where ?'a = nat] by simp
  have len: "length (cut_rest bs) < 11" by (simp add: length_cut_rest)
  then have acc: "(push_bit 8 (bits_val (cut_rest bs)) mod 4294967296) OR unat b = bits_val ?r"
    by (intro shift_in) (simp_all add: b)
  have few: "length (cut_words bs) < 25" using assms by (simp add: length_cut_words)
  show ?thesis
  proof (cases "length ?r < 11")
    case True
    then have "cut_words ?r = []" "cut_rest ?r = ?r" by (simp_all add: cut_words.simps cut_rest.simps)
    then show ?thesis using True acc by (simp add: pack_byte_def packed_def cut drain_few)
  next
    case False
    have "length (drop 11 ?r) < 11" using len by simp
    then have "cut_words (drop 11 ?r) = []" "cut_rest (drop 11 ?r) = drop 11 ?r"
      by (subst cut_words.simps cut_rest.simps, simp)+
    then have r: "cut_words ?r = [bits_val (take 11 ?r)]" "cut_rest ?r = drop 11 ?r"
      using False by (simp_all only: cut_words.simps [of ?r] cut_rest.simps [of ?r] if_False)
    have "pack_byte b (packed bs) = drain_words \<lparr>pk_words = cut_words bs @ replicate (25 - length (cut_words bs)) 0,
        pk_word_idx = length (cut_words bs), pk_acc = bits_val ?r, pk_bits = length ?r\<rparr>"
      by (simp add: pack_byte_def packed_def acc)
    also have "\<dots> = packed (bs @ word_bits 8 (unat b))"
      using drain_one [of ?r "cut_words bs"] False len few by (simp add: packed_def cut r del: append_assoc)
    finally show ?thesis .
  qed
qed

definition scalar_bits :: "bytes \<Rightarrow> bool list" where
  "scalar_bits s = concat (map (\<lambda>b. word_bits 8 (unat b)) s)"

lemma length_scalar_bits [simp]: "length (scalar_bits s) = 8 * length s"
  by (induction s) (simp_all add: scalar_bits_def)

lemma fold_pack_byte: "length bs + 8 * length s < 275 \<Longrightarrow> fold pack_byte s (packed bs) = packed (bs @ scalar_bits s)"
  by (induction s arbitrary: bs) (simp_all add: scalar_bits_def pack_byte_packed)

subsection \<open>The decoder puts the bits back\<close>

lemma word_bits_msb: "word_bits (Suc k) n = bit n k # word_bits k n"
  by (simp add: word_bits_def)

lemma place_bits_append: "place_bits pos (xs @ ys) w = place_bits (pos + length xs) ys (place_bits pos xs w)"
  by (induction xs arbitrary: pos w) simp_all

lemma or_take_bit_Suc:
  "(if bit n k then x OR push_bit k 1 else x) OR take_bit k n = x OR take_bit (Suc k) (n :: 'a::semiring_bit_operations)"
  if "possible_bit TYPE('a) k"
  by (rule bit_eqI) (use that in \<open>auto simp: bit_or_iff bit_take_bit_iff bit_exp_iff less_Suc_eq\<close>)

lemma place_poly_bits:
  "k \<le> 8 \<Longrightarrow> place_bits (264 - k) (word_bits k n) w = w\<lparr>dw_poly_checksum := dw_poly_checksum w OR take_bit k n\<rparr>"
proof (induction k arbitrary: w)
  case (Suc k)
  let ?w = "place_bit (264 - Suc k) (bit n k) w"
  have "Suc (264 - Suc k) = 264 - k" using Suc.prems by simp
  then have "place_bits (264 - Suc k) (word_bits (Suc k) n) w = place_bits (264 - k) (word_bits k n) ?w"
    by (simp add: word_bits_msb)
  also have "\<dots> = ?w\<lparr>dw_poly_checksum := dw_poly_checksum ?w OR take_bit k n\<rparr>" by (rule Suc.IH) (use Suc.prems in simp)
  also have "?w = w\<lparr>dw_poly_checksum := if bit n k then dw_poly_checksum w OR push_bit k 1 else dw_poly_checksum w\<rparr>"
    using Suc.prems by (simp add: place_bit_def layout_defs set_bit_be_def)
  finally show ?case using or_take_bit_Suc [of k n "dw_poly_checksum w"] by simp
qed (simp add: word_bits_def)

lemma place_checksum_bits:
  "k \<le> 11 \<Longrightarrow> place_bits (275 - k) (word_bits k n) w = w\<lparr>dw_words_checksum := dw_words_checksum w OR take_bit k n\<rparr>"
proof (induction k arbitrary: w)
  case (Suc k)
  let ?w = "place_bit (275 - Suc k) (bit n k) w"
  have "Suc (275 - Suc k) = 275 - k" using Suc.prems by simp
  then have "place_bits (275 - Suc k) (word_bits (Suc k) n) w = place_bits (275 - k) (word_bits k n) ?w"
    by (simp add: word_bits_msb)
  also have "\<dots> = ?w\<lparr>dw_words_checksum := dw_words_checksum ?w OR take_bit k n\<rparr>" by (rule Suc.IH) (use Suc.prems in simp)
  also have "?w = w\<lparr>dw_words_checksum := if bit n k then dw_words_checksum w OR push_bit k 1 else dw_words_checksum w\<rparr>"
    using Suc.prems by (simp add: place_bit_def layout_defs set_bit_be_def)
  finally show ?case using or_take_bit_Suc [of k n "dw_words_checksum w"] by simp
qed (simp add: word_bits_def)

lemma place_byte_bits:
  fixes b :: byte
  shows "k \<le> 8 \<Longrightarrow> i < 32 \<Longrightarrow> length (dw_scalar w) = 32 \<Longrightarrow>
    place_bits (8 * i + 8 - k) (word_bits k (unat b)) w =
      w\<lparr>dw_scalar := (dw_scalar w)[i := dw_scalar w ! i OR take_bit k b]\<rparr>"
proof (induction k arbitrary: w)
  case (Suc k)
  let ?pos = "8 * i + 8 - Suc k"
  let ?w = "place_bit ?pos (bit (unat b) k) w"
  have eq: "?pos = 8 * i + (7 - k)" using Suc.prems(1) by arith
  have "(8 * i + (7 - k)) div 8 = i" "(8 * i + (7 - k)) mod 8 = 7 - k" by (simp_all add: div_nat_eqI)
  then have pos: "?pos div 8 = i" "?pos mod 8 = 7 - k" by (simp_all only: eq)
  have "Suc ?pos = 8 * i + 8 - k" "?pos < 256" using Suc.prems(1,2) by arith+
  note pos = pos this
  then have "place_bits ?pos (word_bits (Suc k) (unat b)) w = place_bits (8 * i + 8 - k) (word_bits k (unat b)) ?w"
    by (simp add: word_bits_msb)
  also have "\<dots> = ?w\<lparr>dw_scalar := (dw_scalar ?w)[i := dw_scalar ?w ! i OR take_bit k b]\<rparr>"
    by (rule Suc.IH) (use Suc.prems in \<open>simp_all add: place_bit_def\<close>)
  also have "?w = w\<lparr>dw_scalar := (dw_scalar w)[i := if bit b k then dw_scalar w ! i OR push_bit k 1 else dw_scalar w ! i]\<rparr>"
    using Suc.prems pos by (simp add: place_bit_def layout_defs set_bit_be_def bit_unsigned_iff)
  finally show ?case using or_take_bit_Suc [of k b "dw_scalar w ! i"] Suc.prems by simp
qed (simp add: word_bits_def)

lemma place_scalar_bits:
  "i + length s \<le> 32 \<Longrightarrow> length (dw_scalar w) = 32 \<Longrightarrow> \<forall>j<32. i \<le> j \<longrightarrow> dw_scalar w ! j = 0 \<Longrightarrow>
   place_bits (8 * i) (scalar_bits s) w = w\<lparr>dw_scalar := take i (dw_scalar w) @ s @ drop (i + length s) (dw_scalar w)\<rparr>"
proof (induction s arbitrary: i w)
  case (Cons b s)
  let ?w = "w\<lparr>dw_scalar := (dw_scalar w)[i := b]\<rparr>"
  have i: "i < 32" "dw_scalar w ! i = 0" using Cons.prems by simp_all
  have "take_bit 8 b = b" by (rule bit_eqI) (simp add: bit_take_bit_iff)
  then have one: "place_bits (8 * i) (word_bits 8 (unat b)) w = ?w"
    using place_byte_bits [of 8 i w b] i Cons.prems(2) by simp
  have "place_bits (8 * i) (scalar_bits (b # s)) w = place_bits (8 * Suc i) (scalar_bits s) ?w"
    by (simp add: scalar_bits_def place_bits_append one add.commute)
  also have "\<dots> = ?w\<lparr>dw_scalar := take (Suc i) (dw_scalar ?w) @ s @ drop (Suc i + length s) (dw_scalar ?w)\<rparr>"
    by (rule Cons.IH) (use Cons.prems in simp_all)
  finally show ?case using i(1) Cons.prems(2) by (simp add: take_Suc_conv_app_nth)
qed (simp add: scalar_bits_def)

lemma decode_bits:
  assumes "length s = 32" "p < 256" "c < 2048"
  shows "place_bits 0 (scalar_bits s @ word_bits 8 p @ word_bits 11 c)
      \<lparr>dw_scalar = replicate 32 0, dw_poly_checksum = 0, dw_words_checksum = 0\<rparr> =
    \<lparr>dw_scalar = s, dw_poly_checksum = p, dw_words_checksum = c\<rparr>"
proof -
  have "take_bit 8 p = p" "take_bit 11 c = c" using assms(2,3) by (simp_all add: take_bit_nat_eq_self)
  then show ?thesis
    using place_scalar_bits [of 0 s "\<lparr>dw_scalar = replicate 32 0, dw_poly_checksum = 0, dw_words_checksum = 0\<rparr>"] assms(1)
      place_poly_bits [of 8 p] place_checksum_bits [of 11 c]
    by (simp add: place_bits_append)
qed

subsection \<open>Encoding and decoding\<close>

lemma words_checksum_bound: "compute_words_checksum C i s p < 2048"
proof -
  have "hash_u16 h < 65536" for h :: bytes
    using unsigned_less [of "h ! 0", where ?'a = nat] unsigned_less [of "h ! 1", where ?'a = nat]
    unfolding hash_u16_def by simp
  then show ?thesis
    by (simp add: compute_words_checksum_def WORDS_CHECKSUM_BITS_def less_mult_imp_div_less)
qed

text \<open>The encoder: the 264 bits of share and checksum cut into 24 words, and the words' checksum.\<close>

definition backup_bits :: "share_backup \<Rightarrow> bool list" where
  "backup_bits b = scalar_bits (sh_scalar (sb_share b)) @ word_bits 8 (sb_poly_checksum b)"

definition backup_valid :: "crypto \<Rightarrow> share_backup \<Rightarrow> bool" where
  "backup_valid C b \<longleftrightarrow>
     0 < sh_index (sb_share b) \<and> sh_index (sb_share b) \<le> u32_max \<and> sb_poly_checksum b < 256 \<and>
     length (sh_scalar (sb_share b)) = 32 \<and> scalar_mod_order C (sh_scalar (sb_share b)) = sh_scalar (sb_share b)"

lemma to_word_indices_eq:
  assumes "length (sh_scalar (sb_share b)) = 32" "sb_poly_checksum b < 256" "sh_index (sb_share b) \<le> u32_max"
  shows "to_word_indices C b = (Ok (cut_words (backup_bits b) @
      [compute_words_checksum C (sh_index (sb_share b)) (sh_scalar (sb_share b)) (sb_poly_checksum b)]) :: ('e, _) result)"
    and "cut_rest (backup_bits b) = []" "length (cut_words (backup_bits b)) = 24"
proof -
  let ?s = "scalar_bits (sh_scalar (sb_share b))" and ?p = "word_bits 8 (sb_poly_checksum b)"
  let ?r = "cut_rest ?s @ ?p"
  have len: "length (cut_words ?s) = 23" "length (cut_rest ?s) = 3"
    using assms(1) by (simp_all add: length_cut_words length_cut_rest)
  have init: "\<lparr>pk_words = replicate NUM_WORDS 0, pk_word_idx = 0, pk_acc = 0, pk_bits = 0\<rparr> = packed []"
    by (simp add: packed_def cut_words.simps cut_rest.simps NUM_WORDS_def)
  have p: "fold pack_byte (sh_scalar (sb_share b)) (packed []) = packed ?s"
    using fold_pack_byte [of "[]" "sh_scalar (sb_share b)"] assms(1) by simp
  have acc: "(push_bit 8 (bits_val (cut_rest ?s)) mod 4294967296) OR sb_poly_checksum b = bits_val ?r"
    by (rule shift_in) (use len assms(2) in simp_all)
  have "length ?r = 11" using len by simp
  then have r: "cut_words ?r = [bits_val ?r]" "cut_rest ?r = []" "bits_val ?r < 65536"
    using bits_val_less [of ?r]
    by (simp_all add: cut_words.simps [of ?r] cut_rest.simps [of ?r] cut_words.simps [of "[]"] cut_rest.simps [of "[]"])
  have cut: "cut_words (backup_bits b) = cut_words ?s @ [bits_val ?r]" "cut_rest (backup_bits b) = []"
    using cut_append [of ?s ?p] r by (simp_all add: backup_bits_def)
  have two: "replicate 2 (0 :: nat) = [0, 0]" by (simp add: numeral_2_eq_2)
  have upd: "(cut_words ?s @ [0, 0])[23 := v, 24 := c] = cut_words ?s @ [v, c]" for v c
    using len(1) by (simp add: list_update_append)
  show "to_word_indices C b = (Ok (cut_words (backup_bits b) @
      [compute_words_checksum C (sh_index (sb_share b)) (sh_scalar (sb_share b)) (sb_poly_checksum b)]) :: ('e, _) result)"
    unfolding to_word_indices_def init p
    using assms(3) r(3) by (simp add: u32_try_from_def packed_def len two acc upd cut(1) Let_def)
  show "cut_rest (backup_bits b) = []" "length (cut_words (backup_bits b)) = 24" using cut len by simp_all
qed

lemma cut_words_bound: "w \<in> set (cut_words bs) \<Longrightarrow> w < 2048"
proof (induction bs rule: cut_words.induct)
  case (1 bs)
  then show ?case using bits_val_word [of bs] by (cases "length bs < 11") (auto simp: cut_words.simps [of bs])
qed

lemma words_to_indices_map:
  "\<forall>i\<in>set idx. i < 2048 \<Longrightarrow> words_to_indices k (map (nth BIP39_WORDS) idx) = Ok idx"
  by (induction idx arbitrary: k) (auto simp: word_to_index_iff [THEN iffD2])

lemma words_to_indices_Ok:
  "words_to_indices k ws = Ok idx \<Longrightarrow> ws = map (nth BIP39_WORDS) idx \<and> (\<forall>i\<in>set idx. i < 2048)"
  by (induction ws arbitrary: k idx) (auto simp: result_iff word_to_index_iff)

end
