(* ===== verification/BackupText.thy ===== *)
theory BackupText
  imports BackupWords
begin

section \<open>A backup as text\<close>

text \<open>
  Models \<^verbatim>\<open>Display\<close> and \<^verbatim>\<open>FromStr\<close> of \<^verbatim>\<open>ShareBackup\<close> in \<^verbatim>\<open>frost_backup/src/share_backup.rs\<close>: the share
  index behind a hash sign, and the 25 words; with the parts of Rust's \<^verbatim>\<open>core\<close> they are made of,
  on characters up to U+00FF. The properties say what is decoded from which words, and that a
  backup comes back from its words and from its text.
\<close>

subsection \<open>Numbers and white space in \<^verbatim>\<open>core\<close>\<close>

definition digit_char :: "nat \<Rightarrow> char" where
  "digit_char n = char_of (48 + n)"

definition to_digit :: "char \<Rightarrow> nat option" where
  "to_digit c = (if 48 \<le> (of_char c :: nat) \<and> of_char c \<le> (57 :: nat) then Some (of_char c - 48) else None)"

fun show_decimal :: "nat \<Rightarrow> string" where
  "show_decimal n = (if n < 10 then [digit_char n] else show_decimal (n div 10) @ [digit_char (n mod 10)])"

declare show_decimal.simps [simp del]

fun parse_digits :: "nat \<Rightarrow> string \<Rightarrow> nat option" where
  "parse_digits acc [] = Some acc"
| "parse_digits acc (c # cs) =
     (case to_digit c of
        None \<Rightarrow> None
      | Some d \<Rightarrow> if acc * 10 + d \<le> u32_max then parse_digits (acc * 10 + d) cs else None)"

text \<open>\<^verbatim>\<open>str::parse::<u32>\<close>: one plus sign may stand in front of the digits.\<close>

definition parse_u32 :: "string \<Rightarrow> nat option" where
  "parse_u32 s =
     (case s of
        [] \<Rightarrow> None
      | c # cs \<Rightarrow>
          if cs = [] \<and> (c = CHR ''+'' \<or> c = CHR ''-'') then None
          else if c = CHR ''+'' then parse_digits 0 cs
          else parse_digits 0 s)"

definition is_whitespace :: "char \<Rightarrow> bool" where
  "is_whitespace c \<longleftrightarrow> (9 \<le> (of_char c :: nat) \<and> of_char c \<le> (13 :: nat)) \<or> of_char c \<in> {32, 133, 160 :: nat}"

lemma split_whitespace_decreases:
  assumes "dropWhile is_whitespace s \<noteq> []"
  shows "length (dropWhile (\<lambda>c. \<not> is_whitespace c) (dropWhile is_whitespace s)) < length s"
proof -
  obtain c cs where t: "dropWhile is_whitespace s = c # cs" using assms by (cases "dropWhile is_whitespace s") auto
  then have "\<not> is_whitespace c" using hd_dropWhile [OF assms] by simp
  then have "length (dropWhile (\<lambda>c. \<not> is_whitespace c) (c # cs)) \<le> length cs" by (simp add: length_dropWhile_le)
  also have "\<dots> < length (dropWhile is_whitespace s)" by (simp add: t)
  also have "\<dots> \<le> length s" by (rule length_dropWhile_le)
  finally show ?thesis by (simp add: t)
qed

function split_whitespace :: "string \<Rightarrow> string list" where
  "split_whitespace s =
     (let t = dropWhile is_whitespace s
      in if t = [] then []
         else takeWhile (\<lambda>c. \<not> is_whitespace c) t # split_whitespace (dropWhile (\<lambda>c. \<not> is_whitespace c) t))"
  by pat_completeness auto
termination
  by (relation "measure length") (simp_all add: split_whitespace_decreases)

declare split_whitespace.simps [simp del]

subsection \<open>The text of a backup\<close>

fun join_words :: "string list \<Rightarrow> string" where
  "join_words [] = []"
| "join_words [w] = w"
| "join_words (w # ws) = w @ '' '' @ join_words ws"

definition backup_display :: "crypto \<Rightarrow> share_backup \<Rightarrow> ('e, string) result" where
  "backup_display C b =
     and_then (to_words C b) (\<lambda>words.
     and_then (expect ''Share index should fit in u32'' (u32_try_from (sh_index (sb_share b)))) (\<lambda>index.
     Ok (''#'' @ show_decimal index @ '' '' @ join_words words)))"

definition backup_from_str :: "crypto \<Rightarrow> string \<Rightarrow> (share_backup_error, share_backup) result" where
  "backup_from_str C s =
     (case split_whitespace s of
        [] \<Rightarrow> Err ShareIndexParseError
      | part # words \<Rightarrow>
          and_then (ok_or ShareIndexParseError (parse_u32 (dropWhile (\<lambda>c. c = CHR ''#'') part))) (\<lambda>index.
          if length words < NUM_WORDS then Err NotEnoughWords
          else if NUM_WORDS < length words then Err TooManyWords
          else from_words C index words))"

subsection \<open>What numbers and words read back as\<close>

lemma to_digit_char [simp]: "n < 10 \<Longrightarrow> to_digit (digit_char n) = Some n"
  by (simp add: to_digit_def digit_char_def)

lemma parse_digits_append:
  "parse_digits acc (xs @ ys) = Option.bind (parse_digits acc xs) (\<lambda>a. parse_digits a ys)"
  by (induction xs arbitrary: acc) (auto split: option.split)

lemma parse_show_decimal: "n \<le> u32_max \<Longrightarrow> parse_digits 0 (show_decimal n) = Some n"
proof (induction n rule: show_decimal.induct)
  case (1 n)
  show ?case
  proof (cases "n < 10")
    case True
    then show ?thesis using 1 by (simp add: show_decimal.simps)
  next
    case False
    then have "parse_digits 0 (show_decimal (n div 10)) = Some (n div 10)"
      using 1 div_le_dividend [of n 10] by (meson order.trans)
    then show ?thesis using False 1 by (simp add: show_decimal.simps [of n] parse_digits_append)
  qed
qed

lemma show_decimal_digits: "c \<in> set (show_decimal n) \<Longrightarrow> \<exists>k<10. c = digit_char k"
proof (induction n rule: show_decimal.induct)
  case (1 n)
  then show ?case
    by (cases "n < 10") (auto simp: show_decimal.simps [of n] intro: exI [of _ "n mod 10"])
qed

lemma digit_char_of: "k < 10 \<Longrightarrow> (of_char (digit_char k) :: nat) = 48 + k"
  by (simp add: digit_char_def)

lemma digit_char_not [simp]:
  "k < 10 \<Longrightarrow> digit_char k \<noteq> CHR ''+''" "k < 10 \<Longrightarrow> digit_char k \<noteq> CHR ''-''" "k < 10 \<Longrightarrow> digit_char k \<noteq> CHR ''#''"
  "k < 10 \<Longrightarrow> \<not> is_whitespace (digit_char k)"
  using digit_char_of [of k] by (auto simp: is_whitespace_def)

lemma show_decimal_clean: "c \<in> set (show_decimal n) \<Longrightarrow> \<not> is_whitespace c \<and> c \<noteq> CHR ''#''"
  using show_decimal_digits [of c n] digit_char_not(3,4) by auto

lemma show_decimal_not_Nil [simp]: "show_decimal n \<noteq> []"
  by (subst show_decimal.simps) simp

lemma parse_u32_show: "n \<le> u32_max \<Longrightarrow> parse_u32 (show_decimal n) = Some n"
proof -
  assume n: "n \<le> u32_max"
  obtain c cs where s: "show_decimal n = c # cs" by (cases "show_decimal n") auto
  then obtain k where "k < 10" "c = digit_char k" using show_decimal_digits [of c n] by auto
  then show ?thesis using parse_show_decimal [OF n] by (simp add: parse_u32_def s)
qed

lemma split_whitespace_word:
  assumes "w \<noteq> []" "\<forall>c\<in>set w. \<not> is_whitespace c" "s = [] \<or> is_whitespace (hd s)"
  shows "split_whitespace (w @ s) = w # split_whitespace s"
proof -
  have "dropWhile is_whitespace (w @ s) = w @ s" using assms(1,2) by (cases w) simp_all
  moreover have "takeWhile (\<lambda>c. \<not> is_whitespace c) (w @ s) = w" "dropWhile (\<lambda>c. \<not> is_whitespace c) (w @ s) = s"
    using assms(2,3) by (cases s; simp add: takeWhile_append2 dropWhile_append2)+
  ultimately show ?thesis using assms(1) by (subst split_whitespace.simps) (simp add: Let_def)
qed

lemma is_whitespace_space [simp]: "is_whitespace (CHR '' '')"
  by (simp add: is_whitespace_def)

lemma split_whitespace_space [simp]: "split_whitespace (CHR '' '' # s) = split_whitespace s"
  by (subst (1 2) split_whitespace.simps) simp

lemma split_whitespace_Nil [simp]: "split_whitespace [] = []"
  by (subst split_whitespace.simps) simp

lemma split_join:
  "\<forall>w\<in>set ws. w \<noteq> [] \<and> (\<forall>c\<in>set w. \<not> is_whitespace c) \<Longrightarrow> split_whitespace (join_words ws) = ws"
proof (induction ws rule: join_words.induct)
  case (2 w)
  then show ?case using split_whitespace_word [of w "[]"] by simp
next
  case (3 w v vs)
  have "split_whitespace (w @ '' '' @ join_words (v # vs)) = w # split_whitespace ('' '' @ join_words (v # vs))"
    using 3 by (intro split_whitespace_word) auto
  also have "\<dots> = w # split_whitespace (join_words (v # vs))" by simp
  finally show ?case using 3 by simp
qed simp

lemma capital_not_space: "capital c \<Longrightarrow> \<not> is_whitespace c"
  by (auto simp: capital_iff is_whitespace_def less_eq_char_def)

lemma BIP39_word_chars: "w \<in> set BIP39_WORDS \<Longrightarrow> w \<noteq> [] \<and> (\<forall>c\<in>set w. \<not> is_whitespace c)"
  using BIP39_letters [of w] capital_not_space by (auto simp: list_all_iff)

subsection \<open>What is decoded from which words\<close>

lemma bytes_of_bits: "length bs = 8 * n \<Longrightarrow> \<exists>s. length s = n \<and> scalar_bits s = bs"
proof (induction n arbitrary: bs)
  case (Suc n)
  obtain s where s: "length s = n" "scalar_bits s = drop 8 bs" using Suc.IH [of "drop 8 bs"] Suc.prems by auto
  have "bits_val (take 8 bs) < 256" using bits_val_less [of "take 8 bs"] Suc.prems by simp
  then have "unat (of_nat (bits_val (take 8 bs)) :: byte) = bits_val (take 8 bs)" by (simp add: unat_of_nat)
  then have "scalar_bits (of_nat (bits_val (take 8 bs)) # s) = take 8 bs @ drop 8 bs"
    using s(2) word_bits_val [of "take 8 bs"] Suc.prems by (simp add: scalar_bits_def)
  then show ?case using s(1) by (intro exI [of _ "of_nat (bits_val (take 8 bs)) # s"]) simp
qed (simp add: scalar_bits_def)

lemma bits_of_indices:
  assumes "length idx = 25" "\<forall>i\<in>set idx. i < 2048"
  obtains s p where "length s = 32" "p < 256"
    "concat (map (word_bits 11) idx) = scalar_bits s @ word_bits 8 p @ word_bits 11 (last idx)"
    "butlast idx = cut_words (scalar_bits s @ word_bits 8 p)"
proof -
  let ?bs = "concat (map (word_bits 11) (butlast idx))"
  have len: "length (concat (map (word_bits 11) ks)) = 11 * length ks" for ks by (induction ks) simp_all
  have cut: "cut_words (concat (map (word_bits 11) ks)) = ks" if "\<forall>k\<in>set ks. k < 2048" for ks
    using that by (induction ks) (simp_all add: cut_words.simps [of "word_bits 11 _ @ _"] cut_words.simps [of "[]"] bits_val_word_bits)
  obtain s where s: "length s = 32" "scalar_bits s = take 256 ?bs"
    using bytes_of_bits [of "take 256 ?bs" 32] assms(1) by (auto simp: len)
  let ?p = "bits_val (drop 256 ?bs)"
  have rest: "length (drop 256 ?bs) = 8" using assms(1) by (simp add: len)
  then have p: "?p < 256" "word_bits 8 ?p = drop 256 ?bs"
    using bits_val_less [of "drop 256 ?bs"] word_bits_val [of "drop 256 ?bs"] by simp_all
  have bs: "?bs = scalar_bits s @ word_bits 8 ?p" by (simp add: s(2) p(2))
  have "butlast idx = cut_words ?bs" using cut [of "butlast idx"] assms(2) by (simp add: in_set_butlastD)
  moreover have "concat (map (word_bits 11) idx) = ?bs @ word_bits 11 (last idx)"
    using assms(1) by (subst append_butlast_last_id [symmetric, of idx]) (auto simp del: append_butlast_last_id)
  ultimately show ?thesis using that [of s ?p] s(1) p(1) bs by simp
qed

lemma from_words_bits:
  assumes "words_to_indices 0 ws = Ok idx" "length s = 32" "p < 256" "c < 2048"
    and "concat (map (word_bits 11) idx) = scalar_bits s @ word_bits 8 p @ word_bits 11 c"
  shows "from_words C i ws =
    (if compute_words_checksum C i (scalar_mod_order C s) p \<noteq> c then Err WordsChecksumFailed
     else if i = 0 then Err InvalidShareIndex
     else Ok \<lparr>sb_share = \<lparr>sh_index = i, sh_scalar = scalar_mod_order C s\<rparr>, sb_poly_checksum = p\<rparr>)"
  using assms(1,5) decode_bits [OF assms(2-4)] by (simp add: from_words_def BITS_PER_WORD_def Let_def)

lemma first_unknown:
  "words_to_indices k ws = Err e \<longleftrightarrow>
     (\<exists>j<length ws. e = InvalidBip39Word (k + j) (ws ! j) \<and> ws ! j \<notin> set BIP39_WORDS \<and> set (take j ws) \<subseteq> set BIP39_WORDS)"
proof (induction ws arbitrary: k)
  case (Cons w ws)
  show ?case
  proof (cases "word_to_index w")
    case None
    then have "w \<notin> set BIP39_WORDS" by (simp add: word_to_index_None)
    then show ?thesis using None by (auto simp: less_Suc_eq_0_disj)
  next
    case (Some i)
    then have w: "w \<in> set BIP39_WORDS" using word_to_index_None [of w] by auto
    have "words_to_indices k (w # ws) = Err e \<longleftrightarrow> words_to_indices (k + 1) ws = Err e"
      using Some by (cases "words_to_indices (k + 1) ws") simp_all
    then show ?thesis using w Cons.IH [of "k + 1"] by (auto simp: less_Suc_eq_0_disj)
  qed
qed simp

lemma known_words_indices: "set ws \<subseteq> set BIP39_WORDS \<Longrightarrow> \<exists>idx. words_to_indices k ws = Ok idx"
proof (induction ws arbitrary: k)
  case (Cons w ws)
  then obtain i idx where "word_to_index w = Some i" "words_to_indices (k + 1) ws = Ok idx"
    using word_to_index_None [of w] by (metis insert_subset list.simps(15) not_Some_eq)
  then show ?case by simp
qed simp

text \<open>The words that carry the bytes \<open>s\<close>, the polynomial checksum \<open>p\<close> and the words' checksum \<open>c\<close>.\<close>

definition code_words :: "bytes \<Rightarrow> nat \<Rightarrow> nat \<Rightarrow> string list" where
  "code_words s p c = map (nth BIP39_WORDS) (cut_words (scalar_bits s @ word_bits 8 p) @ [c])"

lemma code_words_decode:
  assumes "length s = 32" "p < 256" "c < 2048"
  shows "from_words C i (code_words s p c) =
    (if compute_words_checksum C i (scalar_mod_order C s) p \<noteq> c then Err WordsChecksumFailed
     else if i = 0 then Err InvalidShareIndex
     else Ok \<lparr>sb_share = \<lparr>sh_index = i, sh_scalar = scalar_mod_order C s\<rparr>, sb_poly_checksum = p\<rparr>)"
proof -
  let ?b = "\<lparr>sb_share = \<lparr>sh_index = 1, sh_scalar = s\<rparr>, sb_poly_checksum = p\<rparr>"
  let ?bs = "scalar_bits s @ word_bits 8 p"
  have "cut_rest ?bs = []" using to_word_indices_eq(2) [of ?b] assms(1,2) by (simp add: backup_bits_def u32_max_def)
  then have "concat (map (word_bits 11) (cut_words ?bs @ [c])) = scalar_bits s @ word_bits 8 p @ word_bits 11 c"
    using cut_words_inverse [of ?bs] by simp
  moreover have "words_to_indices 0 (code_words s p c) = Ok (cut_words ?bs @ [c])"
    unfolding code_words_def by (rule words_to_indices_map) (use cut_words_bound assms(3) in auto)
  ultimately show ?thesis using from_words_bits [OF _ assms] by blast
qed

lemma table_words_code:
  assumes "length ws = 25" "set ws \<subseteq> set BIP39_WORDS"
  obtains s p c where "length s = 32" "p < 256" "c < 2048" "ws = code_words s p c"
proof -
  obtain idx where idx: "words_to_indices 0 ws = Ok idx" using known_words_indices [OF assms(2)] by blast
  then have ws: "ws = map (nth BIP39_WORDS) idx" "\<forall>k\<in>set idx. k < 2048" using words_to_indices_Ok by blast+
  then have "length idx = 25" "idx \<noteq> []" using assms(1) by auto
  moreover obtain s p where sp: "length s = 32" "p < 256" "butlast idx = cut_words (scalar_bits s @ word_bits 8 p)"
    using bits_of_indices [OF \<open>length idx = 25\<close> ws(2)] by metis
  moreover have "last idx < 2048" using ws(2) last_in_set [OF \<open>idx \<noteq> []\<close>] by blast
  moreover have "ws = code_words s p (last idx)"
    unfolding code_words_def sp(3) [symmetric] using ws(1) \<open>idx \<noteq> []\<close> by simp
  ultimately show ?thesis using that by blast
qed

lemma unknown_word_error:
  "from_words C i ws = Err (InvalidBip39Word j w) \<longleftrightarrow>
     j < length ws \<and> w = ws ! j \<and> w \<notin> set BIP39_WORDS \<and> set (take j ws) \<subseteq> set BIP39_WORDS"
proof -
  have "from_words C i ws = Err (InvalidBip39Word j w) \<longleftrightarrow> words_to_indices 0 ws = Err (InvalidBip39Word j w)"
    by (cases "words_to_indices 0 ws") (auto simp: from_words_def Let_def split: if_splits)
  then show ?thesis by (auto simp: first_unknown)
qed

lemma from_words_known: "from_words C i ws = Ok b \<Longrightarrow> set ws \<subseteq> set BIP39_WORDS"
proof -
  assume "from_words C i ws = Ok b"
  then obtain idx where "words_to_indices 0 ws = Ok idx" by (auto simp: from_words_def result_iff)
  then show ?thesis using words_to_indices_Ok [of 0 ws idx] by (auto simp: BIP39_length)
qed

lemma code_words_known: "c < 2048 \<Longrightarrow> set (code_words s p c) \<subseteq> set BIP39_WORDS"
proof -
  assume "c < 2048"
  then have "\<forall>k\<in>set (cut_words (scalar_bits s @ word_bits 8 p) @ [c]). k < length BIP39_WORDS"
    using cut_words_bound by (auto simp: BIP39_length)
  then show ?thesis unfolding code_words_def by (auto intro: nth_mem)
qed

lemma first_bad_word:
  assumes "\<not> set ws \<subseteq> A"
  shows "\<exists>j<length ws. ws ! j \<notin> A \<and> set (take j ws) \<subseteq> A"
proof -
  let ?j = "length (takeWhile (\<lambda>w. w \<in> A) ws)"
  have "takeWhile (\<lambda>w. w \<in> A) ws \<noteq> ws" using assms takeWhile_eq_all_conv [of "\<lambda>w. w \<in> A" ws] by blast
  then have "?j < length ws" by (metis length_takeWhile_le le_neq_implies_less takeWhile_eq_take take_all_iff)
  moreover have "ws ! ?j \<notin> A" using nth_length_takeWhile [OF calculation] .
  moreover have "set (take ?j ws) \<subseteq> A" using set_takeWhileD by (fastforce simp: takeWhile_eq_take [symmetric])
  ultimately show ?thesis by blast
qed

lemma display_parses:
  assumes "to_words C b = (Ok ws :: ('e, _) result)" "sh_index (sb_share b) \<le> u32_max" "length ws = 25"
    and "set ws \<subseteq> set BIP39_WORDS"
  shows "\<exists>s. backup_display C b = (Ok s :: ('e, _) result) \<and> backup_from_str C s = from_words C (sh_index (sb_share b)) ws"
proof -
  let ?i = "sh_index (sb_share b)" and ?n = "show_decimal (sh_index (sb_share b))"
  have n: "\<forall>c\<in>set (''#'' @ ?n). \<not> is_whitespace c" "hd ?n \<noteq> CHR ''#''"
    using show_decimal_clean [of _ ?i] hd_in_set [OF show_decimal_not_Nil [of ?i]] by (auto simp: is_whitespace_def [of "CHR ''#''"])
  have "split_whitespace (''#'' @ ?n @ '' '' @ join_words ws) = (''#'' @ ?n) # split_whitespace ('' '' @ join_words ws)"
    using split_whitespace_word [of "''#'' @ ?n" "'' '' @ join_words ws"] n(1) by simp
  also have "split_whitespace ('' '' @ join_words ws) = ws"
    using split_join [of ws] BIP39_word_chars assms(4) by auto
  finally have split: "split_whitespace (''#'' @ ?n @ '' '' @ join_words ws) = (''#'' @ ?n) # ws" .
  have "dropWhile (\<lambda>c. c = CHR ''#'') (''#'' @ ?n) = ?n" using n(2) by (cases ?n) simp_all
  then have "backup_from_str C (''#'' @ ?n @ '' '' @ join_words ws) = from_words C ?i ws"
    using split parse_u32_show [OF assms(2)] assms(3) by (simp add: backup_from_str_def NUM_WORDS_def)
  then show ?thesis using assms(1,2) by (simp add: backup_display_def u32_try_from_def)
qed

lemma encoding_decodes:
  assumes "backup_valid C b"
  shows "\<exists>ws. to_words C b = (Ok ws :: ('e, _) result) \<and> length ws = 25 \<and> set ws \<subseteq> set BIP39_WORDS \<and>
    from_words C (sh_index (sb_share b)) ws = Ok b"
proof -
  let ?i = "sh_index (sb_share b)" and ?s = "sh_scalar (sb_share b)" and ?p = "sb_poly_checksum b"
  let ?idx = "cut_words (backup_bits b) @ [compute_words_checksum C ?i ?s ?p]"
  have v: "length ?s = 32" "?p < 256" "0 < ?i" "?i \<le> u32_max" "scalar_mod_order C ?s = ?s"
    using assms by (simp_all add: backup_valid_def)
  have "from_words C ?i (map (nth BIP39_WORDS) ?idx) = Ok b"
    using code_words_decode [OF v(1,2) words_checksum_bound, of C ?i C ?i ?s ?p] v(3,5) by (simp add: backup_bits_def code_words_def)
  moreover have "\<forall>k\<in>set ?idx. k < length BIP39_WORDS"
    using cut_words_bound [of _ "backup_bits b"] words_checksum_bound [of C ?i ?s ?p] by (auto simp: BIP39_length)
  then have "set (map (nth BIP39_WORDS) ?idx) \<subseteq> set BIP39_WORDS" by auto
  ultimately show ?thesis
    using to_word_indices_eq(1) [OF v(1,2,4), of C, where ?'e = 'e] to_word_indices_eq(3) [OF v(1,2,4)] by (simp add: to_words_def)
qed

subsection \<open>Properties\<close>

text \<open>C7. A backup comes back from its 25 words and from its text: every share backup with an index
  of 32 bits and a canonical scalar is written with 25 words of the table, decoding them with its
  index gives the same backup, and so does parsing the text \<^verbatim>\<open>#index word ... word\<close> that is shown.\<close>

theorem backup_words_roundtrip:
  assumes "backup_valid C b"
  shows "\<exists>ws s. to_words C b = (Ok ws :: ('e, _) result) \<and> length ws = 25 \<and> set ws \<subseteq> set BIP39_WORDS \<and>
    from_words C (sh_index (sb_share b)) ws = Ok b \<and>
    backup_display C b = (Ok s :: ('e, _) result) \<and> backup_from_str C s = Ok b"
proof -
  obtain ws where ws: "to_words C b = (Ok ws :: ('e, _) result)" "length ws = 25" "set ws \<subseteq> set BIP39_WORDS"
      "from_words C (sh_index (sb_share b)) ws = Ok b"
    using encoding_decodes [OF assms, where ?'e = 'e] by blast
  then show ?thesis using display_parses [OF ws(1) _ ws(2,3)] assms by (auto simp: backup_valid_def)
qed

theorem backup_words_roundtrip_witness:
  "\<exists>ws s. to_words demo_crypto \<lparr>sb_share = \<lparr>sh_index = 7, sh_scalar = replicate 32 171\<rparr>, sb_poly_checksum = 200\<rparr> =
        (Ok ws :: (unit, _) result) \<and> length ws = 25 \<and> set ws \<subseteq> set BIP39_WORDS \<and>
    from_words demo_crypto 7 ws = Ok \<lparr>sb_share = \<lparr>sh_index = 7, sh_scalar = replicate 32 171\<rparr>, sb_poly_checksum = 200\<rparr> \<and>
    backup_display demo_crypto \<lparr>sb_share = \<lparr>sh_index = 7, sh_scalar = replicate 32 171\<rparr>, sb_poly_checksum = 200\<rparr> =
        (Ok s :: (unit, _) result) \<and>
    backup_from_str demo_crypto s = Ok \<lparr>sb_share = \<lparr>sh_index = 7, sh_scalar = replicate 32 171\<rparr>, sb_poly_checksum = 200\<rparr>"
  using backup_words_roundtrip [of demo_crypto "\<lparr>sb_share = \<lparr>sh_index = 7, sh_scalar = replicate 32 171\<rparr>, sb_poly_checksum = 200\<rparr>"]
  by (simp add: backup_valid_def u32_max_def demo_crypto_def)

text \<open>C10. 25 words decode to a backup exactly if they are the words of 32 bytes and 8 bits of checksum,
  followed by the word of the checksum over the index, the scalar of the bytes and those bits, and
  the index is not zero; the backup then holds the index, the bytes reduced modulo the order, and the
  bits. No other words are accepted, and nothing else is read from them.\<close>

theorem decoded_words_exact:
  assumes "length ws = 25"
  shows "from_words C i ws = Ok b \<longleftrightarrow>
    (\<exists>s p. length s = 32 \<and> p < 256 \<and> 0 < i \<and>
      ws = code_words s p (compute_words_checksum C i (scalar_mod_order C s) p) \<and>
      b = \<lparr>sb_share = \<lparr>sh_index = i, sh_scalar = scalar_mod_order C s\<rparr>, sb_poly_checksum = p\<rparr>)" (is "?ok \<longleftrightarrow> ?code")
proof
  assume ?ok
  then have "set ws \<subseteq> set BIP39_WORDS" using from_words_known by blast
  then obtain s p c where "length s = 32" "p < 256" "c < 2048" "ws = code_words s p c"
    using table_words_code [OF assms] by metis
  then show ?code using \<open>?ok\<close> code_words_decode [of s p c C i] by (intro exI [of _ s] exI [of _ p]) (auto split: if_splits)
next
  assume ?code
  then show ?ok using code_words_decode [OF _ _ words_checksum_bound] by auto
qed

theorem decoded_words_exact_witness:
  "\<forall>b. from_words demo_crypto 3 (replicate 25 ''ABANDON'') = Ok b \<longleftrightarrow>
    (\<exists>s p. length s = 32 \<and> p < 256 \<and> 0 < (3 :: nat) \<and>
      replicate 25 ''ABANDON'' = code_words s p (compute_words_checksum demo_crypto 3 (scalar_mod_order demo_crypto s) p) \<and>
      b = \<lparr>sb_share = \<lparr>sh_index = 3, sh_scalar = scalar_mod_order demo_crypto s\<rparr>, sb_poly_checksum = p\<rparr>)"
  by (rule allI, rule decoded_words_exact) simp

text \<open>What is said of 25 words that do not decode: the first word that is not in the table, with its
  position; if all are, that the checksum is wrong; and if it is right, that the index is zero.\<close>

theorem decoding_errors:
  assumes "length ws = 25"
  shows "from_words C i ws = Err e \<longleftrightarrow>
    (\<exists>j<25. e = InvalidBip39Word j (ws ! j) \<and> ws ! j \<notin> set BIP39_WORDS \<and> set (take j ws) \<subseteq> set BIP39_WORDS) \<or>
    (\<exists>s p c. length s = 32 \<and> p < 256 \<and> c < 2048 \<and> ws = code_words s p c \<and>
      (if compute_words_checksum C i (scalar_mod_order C s) p \<noteq> c then e = WordsChecksumFailed
       else i = 0 \<and> e = InvalidShareIndex))" (is "?err \<longleftrightarrow> ?unknown \<or> ?code")
proof (cases "set ws \<subseteq> set BIP39_WORDS")
  case True
  then obtain s p c where sp: "length s = 32" "p < 256" "c < 2048" "ws = code_words s p c"
    using table_words_code [OF assms] by metis
  have "\<not> ?unknown" using True assms nth_mem [of _ ws] by (metis subsetD)
  moreover have "?code" if ?err
    using that sp code_words_decode [OF sp(1-3), of C i] by (intro exI [of _ s] exI [of _ p] exI [of _ c]) (auto split: if_splits)
  moreover have "?err" if ?code
    using that code_words_decode by (auto split: if_splits)
  ultimately show ?thesis by blast
next
  case False
  then obtain j where j: "j < 25" "ws ! j \<notin> set BIP39_WORDS" "set (take j ws) \<subseteq> set BIP39_WORDS"
    using first_bad_word assms by metis
  then have err: "from_words C i ws = Err (InvalidBip39Word j (ws ! j))" using assms by (simp add: unknown_word_error)
  have "from_words C i ws = Err e" if ?unknown
    using that unknown_word_error [of C i ws] assms by auto
  moreover have ?unknown if ?err using that err j by auto
  moreover have "\<not> ?code" using False code_words_known by metis
  ultimately show ?thesis by blast
qed

theorem decoding_errors_witness:
  "\<forall>e. from_words demo_crypto 3 (replicate 25 ''BITCOIN'') = Err e \<longleftrightarrow>
    (\<exists>j<25. e = InvalidBip39Word j (replicate 25 ''BITCOIN'' ! j) \<and> replicate 25 ''BITCOIN'' ! j \<notin> set BIP39_WORDS \<and>
      set (take j (replicate 25 ''BITCOIN'')) \<subseteq> set BIP39_WORDS) \<or>
    (\<exists>s p c. length s = 32 \<and> p < 256 \<and> c < 2048 \<and> replicate 25 ''BITCOIN'' = code_words s p c \<and>
      (if compute_words_checksum demo_crypto 3 (scalar_mod_order demo_crypto s) p \<noteq> c then e = WordsChecksumFailed
       else (3 :: nat) = 0 \<and> e = InvalidShareIndex))"
  by (rule allI, rule decoding_errors) simp

end
