(* ===== verification/BackupEntry.thy ===== *)
theory BackupEntry
  imports BackupText
begin

section \<open>Entering a backup on the device\<close>

text \<open>
  Models \<^verbatim>\<open>BackupModel\<close> of \<^verbatim>\<open>frostsnap_widgets/src/backup/backup_model.rs\<close>: the rows of a backup
  while they are typed in, what the screen shows for them, and the changes of single characters with
  which the screen is kept up to date. A word the user still edits is an owned string, a finished one
  is borrowed from the table. Characters are those of the keyboards, digits and capital letters, one
  byte each.
\<close>

type_synonym 'a panicking = "(unit, 'a) result"

datatype cow = Borrowed string | Owned string

fun cow_str :: "cow \<Rightarrow> string" where
  "cow_str (Borrowed s) = s"
| "cow_str (Owned s) = s"

fun is_owned :: "cow \<Rightarrow> bool" where
  "is_owned (Owned s) = True"
| "is_owned (Borrowed s) = False"

record backup_model =
  bm_share_index :: string
  bm_confirmed :: bool
  bm_words :: "cow list"

datatype framebuffer_mutation = SetCharacter nat nat char | DelCharacter nat nat

datatype main_view_state =
    EnterShareIndex string
  | EnterWord valid_letters
  | WordSelect string "string list"
  | AllWordsEntered "share_backup option"

record view_state =
  vs_row :: nat
  vs_cursor_pos :: nat
  vs_completed_rows :: nat
  vs_main_view :: main_view_state

subsection \<open>The row that is edited\<close>

definition new_backup_model :: backup_model where
  "new_backup_model = \<lparr>bm_share_index = [], bm_confirmed = False, bm_words = replicate NUM_WORDS (Borrowed [])\<rparr>"

definition word_unfinished :: "cow \<Rightarrow> bool" where
  "word_unfinished w \<longleftrightarrow> is_owned w \<or> cow_str w = []"

text \<open>\<^verbatim>\<open>position(...).unwrap_or(0)\<close>\<close>

definition unfinished_idx :: "cow list \<Rightarrow> nat" where
  "unfinished_idx ws =
     (let position = length (takeWhile (\<lambda>w. \<not> word_unfinished w) ws)
      in if position < length ws then position else 0)"

text \<open>The row and the string being edited, and the model with that string owned.\<close>

definition current_string :: "backup_model \<Rightarrow> (backup_model \<times> nat \<times> string) panicking" where
  "current_string m =
     (if \<not> bm_confirmed m then Ok (m, 0, bm_share_index m)
      else let idx = unfinished_idx (bm_words m);
               words = (if cow_str (bm_words m ! idx) = [] then (bm_words m)[idx := Owned []] else bm_words m)
           in case words ! idx of
                Owned s \<Rightarrow> Ok (m\<lparr>bm_words := words\<rparr>, idx + 1, s)
              | Borrowed _ \<Rightarrow> Panic ''Word should be Owned at this point'')"

text \<open>What the code writes through the reference to that string.\<close>

definition write_current :: "nat \<Rightarrow> string \<Rightarrow> backup_model \<Rightarrow> backup_model" where
  "write_current row s m =
     (if row = 0 then m\<lparr>bm_share_index := s\<rparr> else m\<lparr>bm_words := (bm_words m)[row - 1 := Owned s]\<rparr>)"

subsection \<open>The operations\<close>

definition add_character :: "char \<Rightarrow> backup_model \<Rightarrow> (backup_model \<times> framebuffer_mutation list) panicking" where
  "add_character c m =
     and_then (current_string m) (\<lambda>(m, row, current).
     if row = 0 \<and> 7 \<le> length current then Ok (m, [])
     else let current = current @ [c];
              mutations = [SetCharacter row (length current - 1) c]
          in if 0 < row \<and> c = CHR ''Q''
             then let current = current @ [CHR ''U'']
                  in Ok (write_current row current m, mutations @ [SetCharacter row (length current - 1) (CHR ''U'')])
             else Ok (write_current row current m, mutations))"

text \<open>The loop of \<^verbatim>\<open>backspace\<close>: deleting on while at most eight words match, and one step back from
  where more do, or none.\<close>

function shrink_prefix :: "nat \<Rightarrow> string \<Rightarrow> framebuffer_mutation list \<Rightarrow> string \<times> framebuffer_mutation list" where
  "shrink_prefix row current mutations =
     (if current = [] then (current, mutations)
      else let shorter = butlast current;
               mutations' = mutations @ [DelCharacter row (length shorter)]
           in if shorter = [] then (shorter, mutations')
              else let matches = length (words_with_prefix shorter)
                   in if 8 < matches \<or> matches = 0 then (current, mutations)
                      else shrink_prefix row shorter mutations')"
  by pat_completeness auto
termination by (relation "measure (length \<circ> fst \<circ> snd)") auto

declare shrink_prefix.simps [simp del]

definition delete_last :: "nat \<Rightarrow> string \<Rightarrow> string \<times> framebuffer_mutation list" where
  "delete_last row current =
     (let current = butlast current;
          mutations = [DelCharacter row (length current)]
      in if 0 < row \<and> current \<noteq> [] \<and> length (words_with_prefix current) \<le> 8
         then shrink_prefix row current mutations
         else (current, mutations))"

text \<open>An empty row goes back to the row before it, which becomes editable. The array has
  \<^verbatim>\<open>NUM_WORDS\<close> words, the length of the list.\<close>

definition row_before :: "nat \<Rightarrow> backup_model \<Rightarrow> backup_model" where
  "row_before row m =
     (if row = 1 \<and> bm_confirmed m then m\<lparr>bm_confirmed := False\<rparr>
      else if 1 < row \<and> row - 2 < length (bm_words m)
      then m\<lparr>bm_words := (bm_words m)[row - 2 := Owned (cow_str (bm_words m ! (row - 2)))]\<rparr>
      else m)"

text \<open>Every time it goes back, the row that is edited lies before.\<close>

definition edit_depth :: "backup_model \<Rightarrow> nat" where
  "edit_depth m = (if bm_confirmed m then unfinished_idx (bm_words m) + 1 else 0)"

lemma unfinished_idx_le: "i < length ws \<Longrightarrow> word_unfinished (ws ! i) \<Longrightarrow> unfinished_idx ws \<le> i"
proof -
  assume i: "i < length ws" "word_unfinished (ws ! i)"
  have "length (takeWhile (\<lambda>w. \<not> word_unfinished w) ws) \<le> i"
    by (rule ccontr) (use i in \<open>metis not_le nth_mem set_takeWhileD takeWhile_nth\<close>)
  then show ?thesis by (simp add: unfinished_idx_def Let_def)
qed

lemma current_string_Ok:
  "current_string m = Ok (m', row, current) \<longleftrightarrow>
     (if bm_confirmed m
      then let idx = unfinished_idx (bm_words m);
               words = (if cow_str (bm_words m ! idx) = [] then (bm_words m)[idx := Owned []] else bm_words m)
           in words ! idx = Owned current \<and> m' = m\<lparr>bm_words := words\<rparr> \<and> row = idx + 1
      else m' = m \<and> row = 0 \<and> current = bm_share_index m)"
  by (auto simp: current_string_def Let_def split: cow.splits)

lemma unfinished_idx_less: "0 < unfinished_idx ws \<Longrightarrow> unfinished_idx ws < length ws"
  by (auto simp: unfinished_idx_def Let_def split: if_splits)

lemma row_before_decreases:
  assumes "current_string m = Ok (m', row, current)" "row \<noteq> 0"
  shows "edit_depth (row_before row m') < edit_depth m"
proof -
  let ?idx = "unfinished_idx (bm_words m)"
  have m: "bm_confirmed m" "bm_confirmed m'" "row = ?idx + 1" "length (bm_words m') = length (bm_words m)"
    using assms by (auto simp: current_string_Ok Let_def split: if_splits)
  show ?thesis
  proof (cases "row = 1")
    case False
    then have "row - 2 < length (bm_words m')" "1 < row" using m unfinished_idx_less [of "bm_words m"] by auto
    moreover from this have "unfinished_idx (bm_words (row_before row m')) \<le> row - 2"
      by (intro unfinished_idx_le) (simp_all add: row_before_def word_unfinished_def)
    ultimately show ?thesis using m by (simp add: edit_depth_def row_before_def)
  qed (use m in \<open>simp add: edit_depth_def row_before_def\<close>)
qed

function backspace :: "backup_model \<Rightarrow> (backup_model \<times> framebuffer_mutation list) panicking" where
  "backspace m =
     (case current_string m of
        Ok (m', row, current) \<Rightarrow>
          if current = []
          then if row = 0 then Ok (m', []) else backspace (row_before row m')
          else let (current, mutations) = delete_last row current
               in Ok (write_current row current m', mutations)
      | Err e \<Rightarrow> Err e
      | Panic p \<Rightarrow> Panic p)"
  by pat_completeness auto
termination
  by (relation "measure edit_depth") (use row_before_decreases in \<open>fastforce+\<close>)

declare backspace.simps [simp del]

text \<open>Writing a completion over the string that stands in a row.\<close>

definition replace_row :: "nat \<Rightarrow> string \<Rightarrow> string \<Rightarrow> framebuffer_mutation list" where
  "replace_row row current completion =
     (if prefix current completion
      then map (\<lambda>i. SetCharacter row i (completion ! i)) [length current..<length completion]
      else map (\<lambda>i. DelCharacter row (length current - 1 - i)) [0..<length current] @
           map (\<lambda>i. SetCharacter row i (completion ! i)) [0..<length completion])"

definition complete_row :: "string \<Rightarrow> backup_model \<Rightarrow> (backup_model \<times> framebuffer_mutation list) panicking" where
  "complete_row completion m =
     and_then (current_string m) (\<lambda>(m, row, current).
     let mutations = replace_row row current completion
     in if row = 0
        then Ok (m\<lparr>bm_share_index := completion, bm_confirmed := True\<rparr>, mutations)
        else let word = (case binary_search BIP39_WORDS completion of
                           Some idx \<Rightarrow> Borrowed (BIP39_WORDS ! idx)
                         | None \<Rightarrow> Owned completion)
             in Ok (m\<lparr>bm_words := (bm_words m)[row - 1 := word]\<rparr>, mutations))"

definition edit_row :: "nat \<Rightarrow> backup_model \<Rightarrow> (backup_model \<times> framebuffer_mutation list) panicking" where
  "edit_row row m =
     (let deletions = (\<lambda>n. map (\<lambda>i. DelCharacter row (n - 1 - i)) [0..<n])
      in if row = 0
         then Ok (m\<lparr>bm_share_index := [], bm_confirmed := False\<rparr>, deletions (length (bm_share_index m)))
         else if length (bm_words m) \<le> row - 1 then Panic ''index out of bounds''
         else Ok (m\<lparr>bm_words := (bm_words m)[row - 1 := Owned []]\<rparr>,
                  deletions (length (cow_str (bm_words m ! (row - 1))))))"

subsection \<open>What is shown\<close>

definition word_finished :: "cow \<Rightarrow> bool" where
  "word_finished w \<longleftrightarrow> \<not> is_owned w \<and> cow_str w \<noteq> []"

definition num_completed_rows :: "backup_model \<Rightarrow> nat" where
  "num_completed_rows m = (if bm_confirmed m then 1 else 0) + length (filter word_finished (bm_words m))"

definition is_complete :: "backup_model \<Rightarrow> bool" where
  "is_complete m \<longleftrightarrow> bm_confirmed m \<and> list_all (\<lambda>w. cow_str w \<noteq> []) (bm_words m)"

definition words_as_static :: "backup_model \<Rightarrow> string list option" where
  "words_as_static m =
     (if \<not> is_complete m then None
      else if list_all word_finished (bm_words m) then Some (map cow_str (bm_words m))
      else None)"

definition word_view :: "string \<Rightarrow> main_view_state" where
  "word_view current =
     (if current = [] then EnterWord (get_valid_next_letters [])
      else let matches = words_with_prefix current
           in if matches \<noteq> [] \<and> length matches \<le> 8 then WordSelect current matches
              else EnterWord (get_valid_next_letters current))"

definition view_state_of :: "crypto \<Rightarrow> backup_model \<Rightarrow> view_state panicking" where
  "view_state_of C m =
     (let completed = num_completed_rows m
      in if \<not> bm_confirmed m
         then Ok \<lparr>vs_row = 0, vs_cursor_pos = length (bm_share_index m), vs_completed_rows = completed,
                  vs_main_view = EnterShareIndex (bm_share_index m)\<rparr>
         else case words_as_static m of
           Some words \<Rightarrow>
             and_then (expect ''must be int'' (parse_u32 (bm_share_index m))) (\<lambda>share_index.
             let success = (case from_words C share_index words of Ok b \<Rightarrow> Some b | _ \<Rightarrow> None)
             in Ok \<lparr>vs_row = NUM_WORDS, vs_cursor_pos = 0, vs_completed_rows = completed,
                    vs_main_view = AllWordsEntered success\<rparr>)
         | None \<Rightarrow>
             let idx = unfinished_idx (bm_words m);
                 current = cow_str (bm_words m ! idx)
             in Ok \<lparr>vs_row = idx + 1, vs_cursor_pos = length current, vs_completed_rows = completed,
                    vs_main_view = word_view current\<rparr>)"

end
