(* ===== verification/EntryFramebuffer.thy ===== *)
theory EntryFramebuffer
  imports BackupEntry
begin

section \<open>The screen follows the rows\<close>

text \<open>
  Models the framebuffer of \<^verbatim>\<open>frostsnap_widgets/src/backup/input_preview.rs\<close> as the characters in the
  cells of its grid of rows, without glyphs and scrolling, and proves that the changes the operations of
  \<^verbatim>\<open>BackupModel\<close> return keep it equal to the rows of the model.
\<close>

type_synonym framebuffer = "nat \<Rightarrow> nat \<Rightarrow> char option"

fun draw_mutation :: "framebuffer_mutation \<Rightarrow> framebuffer \<Rightarrow> framebuffer" where
  "draw_mutation (SetCharacter row pos c) fb = fb(row := (fb row)(pos := Some c))"
| "draw_mutation (DelCharacter row pos) fb = fb(row := (fb row)(pos := None))"

declare draw_mutation.simps [simp del]

definition apply_mutations :: "framebuffer_mutation list \<Rightarrow> framebuffer \<Rightarrow> framebuffer" where
  "apply_mutations mutations fb = fold draw_mutation mutations fb"

text \<open>What the operations are called with.\<close>

datatype entry_op = AddCharacter char | Backspace | CompleteRow string | EditRow nat

fun run_op :: "entry_op \<Rightarrow> backup_model \<Rightarrow> (backup_model \<times> framebuffer_mutation list) panicking" where
  "run_op (AddCharacter c) m = add_character c m"
| "run_op Backspace m = backspace m"
| "run_op (CompleteRow s) m = complete_row s m"
| "run_op (EditRow row) m = edit_row row m"

text \<open>The text of a row, and all rows as they should stand in the framebuffer.\<close>

definition row_text :: "backup_model \<Rightarrow> nat \<Rightarrow> string" where
  "row_text m row =
     (if row = 0 then bm_share_index m
      else if row - 1 < length (bm_words m) then cow_str (bm_words m ! (row - 1)) else [])"

definition cells :: "string \<Rightarrow> nat \<Rightarrow> char option" where
  "cells s = (\<lambda>pos. if pos < length s then Some (s ! pos) else None)"

definition shown :: "backup_model \<Rightarrow> framebuffer" where
  "shown m = (\<lambda>row. cells (row_text m row))"

definition put_row :: "nat \<Rightarrow> string \<Rightarrow> framebuffer \<Rightarrow> framebuffer" where
  "put_row row s fb = fb(row := cells s)"

subsection \<open>One row\<close>

lemma apply_mutations_simps [simp]:
  "apply_mutations [] fb = fb"
  "apply_mutations (x # xs) fb = apply_mutations xs (draw_mutation x fb)"
  "apply_mutations (xs @ ys) fb = apply_mutations ys (apply_mutations xs fb)"
  by (simp_all add: apply_mutations_def)

lemma cells_snoc: "(cells s)(length s := Some c) = cells (s @ [c])"
  by (rule ext) (auto simp: cells_def nth_append)

lemma cells_butlast: "s \<noteq> [] \<Longrightarrow> (cells s)(length s - 1 := None) = cells (butlast s)"
  by (rule ext) (auto simp: cells_def nth_butlast)

lemma draw_set [simp]: "draw_mutation (SetCharacter row (length s) c) (put_row row s fb) = put_row row (s @ [c]) fb"
  by (simp add: cells_snoc put_row_def draw_mutation.simps)

lemma draw_del:
  "s \<noteq> [] \<Longrightarrow> draw_mutation (DelCharacter row (length s - 1)) (put_row row s fb) = put_row row (butlast s) fb"
  by (simp add: cells_butlast [unfolded One_nat_def] put_row_def draw_mutation.simps)

lemma draw_sets:
  "k \<le> n \<Longrightarrow> n \<le> length t \<Longrightarrow>
   apply_mutations (map (\<lambda>i. SetCharacter row i (t ! i)) [k..<n]) (put_row row (take k t) fb) = put_row row (take n t) fb"
proof (induction n)
  case (Suc n)
  show ?case
  proof (cases "k = Suc n")
    case False
    then have "k \<le> n" using Suc.prems by simp
    moreover have "draw_mutation (SetCharacter row n (t ! n)) (put_row row (take n t) fb) = put_row row (take (Suc n) t) fb"
      using draw_set [of row "take n t" "t ! n" fb] Suc.prems by (simp add: take_Suc_conv_app_nth)
    ultimately show ?thesis using Suc by simp
  qed simp
qed simp

lemma draw_dels:
  "k \<le> length s \<Longrightarrow>
   apply_mutations (map (\<lambda>i. DelCharacter row (length s - 1 - i)) [0..<k]) (put_row row s fb) =
     put_row row (take (length s - k) s) fb"
proof (induction k)
  case (Suc k)
  let ?t = "take (length s - k) s"
  have "length ?t - 1 = length s - 1 - k" "?t \<noteq> []" "butlast ?t = take (length s - Suc k) s"
    using Suc.prems by (auto simp: butlast_take)
  then show ?case using Suc draw_del [of ?t row fb] by simp
qed simp

lemma draw_replace:
  "apply_mutations (replace_row row s t) (put_row row s fb) = put_row row t fb"
proof (cases "prefix s t")
  case True
  then have "take (length s) t = s" "length s \<le> length t" by (auto simp: prefix_def)
  then show ?thesis using True draw_sets [of "length s" "length t" t row fb] by (simp add: replace_row_def)
next
  case False
  then show ?thesis
    using draw_dels [of "length s" s row fb] draw_sets [of 0 "length t" t row fb] by (simp add: replace_row_def)
qed

lemma shrink_prefix_step:
  "s \<noteq> [] \<Longrightarrow> shrink_prefix row s ms =
     (if butlast s = [] then ([], ms @ [DelCharacter row (length (butlast s))])
      else if 8 < length (words_with_prefix (butlast s)) \<or> words_with_prefix (butlast s) = [] then (s, ms)
      else shrink_prefix row (butlast s) (ms @ [DelCharacter row (length (butlast s))]))"
  by (subst shrink_prefix.simps) (simp add: Let_def)

lemma draw_shrink:
  "shrink_prefix row s ms = (t, ms') \<Longrightarrow> apply_mutations ms fb0 = put_row row s fb \<Longrightarrow>
   apply_mutations ms' fb0 = put_row row t fb"
proof (induction row s ms arbitrary: t ms' rule: shrink_prefix.induct)
  case (1 row s ms)
  note IH = 1(1) and run = 1(2) and shown = 1(3)
  let ?q = "butlast s"
  let ?ms = "ms @ [DelCharacter row (length ?q)]"
  show ?case
  proof (cases "s = []")
    case False
    have del: "apply_mutations ?ms fb0 = put_row row ?q fb"
      using shown draw_del [OF False, of row fb] by simp
    consider "?q = []" | "?q \<noteq> []" "8 < length (words_with_prefix ?q) \<or> words_with_prefix ?q = []"
      | "?q \<noteq> []" "\<not> (8 < length (words_with_prefix ?q) \<or> length (words_with_prefix ?q) = 0)" by auto
    then show ?thesis
    proof cases
      case 1
      then show ?thesis using run del shrink_prefix_step [OF False, of row ms] by simp
    next
      case 2
      then show ?thesis using run shown shrink_prefix_step [OF False, of row ms] by simp
    next
      case 3
      then have "shrink_prefix row ?q ?ms = (t, ms')" using run shrink_prefix_step [OF False, of row ms] by simp
      then show ?thesis using IH [OF False refl refl 3(1) refl 3(2)] del by blast
    qed
  qed (use run shown in \<open>simp add: shrink_prefix.simps\<close>)
qed

lemma draw_delete_last:
  assumes "delete_last row s = (t, ms)" "s \<noteq> []"
  shows "apply_mutations ms (put_row row s fb) = put_row row t fb"
proof -
  have "apply_mutations [DelCharacter row (length (butlast s))] (put_row row s fb) = put_row row (butlast s) fb"
    using draw_del [OF assms(2)] by simp
  then show ?thesis
    using assms(1) draw_shrink by (auto simp: delete_last_def Let_def split: if_splits)
qed

subsection \<open>The operations\<close>

lemma cow_str_Owned: "w = Owned s \<Longrightarrow> cow_str w = s"
  by simp

lemma unfinished_in_range: "ws \<noteq> [] \<Longrightarrow> unfinished_idx ws < length ws"
  by (simp add: unfinished_idx_def Let_def)

lemma current_string_shown:
  assumes "current_string m = Ok (m', row, s)" "bm_words m \<noteq> []"
  shows "shown m' = shown m" "put_row row s (shown m) = shown m" "row \<le> length (bm_words m')"
    "length (bm_words m') = length (bm_words m)"
proof -
  have idx: "unfinished_idx (bm_words m) < length (bm_words m)" using assms(2) by (rule unfinished_in_range)
  have "row_text m' r = row_text m r" for r
    using assms(1) idx
    by (auto simp: current_string_Ok Let_def row_text_def nth_list_update split: if_splits)
  then show "shown m' = shown m" by (simp add: shown_def)
  have "row_text m row = s" using assms(1) idx
    by (auto simp: current_string_Ok Let_def row_text_def split: if_splits dest: cow_str_Owned)
  then show "put_row row s (shown m) = shown m" by (auto simp: shown_def put_row_def)
  show "row \<le> length (bm_words m')" "length (bm_words m') = length (bm_words m)"
    using assms(1) idx by (auto simp: current_string_Ok Let_def split: if_splits)
qed

lemma shown_write_current:
  "row \<le> length (bm_words m) \<Longrightarrow> shown (write_current row s m) = put_row row s (shown m)"
  by (rule ext) (auto simp: shown_def write_current_def row_text_def put_row_def)

lemma shown_row_before: "shown (row_before row m) = shown m"
  by (rule ext) (auto simp: shown_def row_before_def row_text_def nth_list_update)

lemma row_before_words [simp]: "length (bm_words (row_before row m)) = length (bm_words m)"
  by (simp add: row_before_def)

lemma add_character_shown:
  assumes "add_character c m = Ok (m', ms)" "bm_words m \<noteq> []"
  shows "apply_mutations ms (shown m) = shown m'"
proof -
  obtain m1 row s where cur: "current_string m = Ok (m1, row, s)" using assms(1) by (auto simp: add_character_def result_iff)
  note c = current_string_shown [OF cur assms(2)]
  have one: "draw_mutation (SetCharacter row (length s) c) (shown m) = put_row row (s @ [c]) (shown m)"
    using draw_set [of row s c "shown m"] c(2) by simp
  have two: "draw_mutation (SetCharacter row (length (s @ [c])) d) (put_row row (s @ [c]) (shown m)) =
      put_row row ((s @ [c]) @ [d]) (shown m)" for d by (rule draw_set)
  show ?thesis
    using assms(1) cur c one two [of "CHR ''U''"] shown_write_current [OF c(3)]
    by (auto simp: add_character_def Let_def split: if_splits)
qed

lemma backspace_shown:
  "backspace m = Ok (m', ms) \<Longrightarrow> bm_words m \<noteq> [] \<Longrightarrow> apply_mutations ms (shown m) = shown m'"
proof (induction m arbitrary: m' ms rule: backspace.induct)
  case (1 m)
  obtain m1 row s where cur: "current_string m = Ok (m1, row, s)"
    using 1(2) by (subst (asm) backspace.simps) (auto split: result.splits)
  note c = current_string_shown [OF cur 1(3)]
  consider "s = []" "row = 0" | "s = []" "row \<noteq> 0" | "s \<noteq> []" by blast
  then show ?case
  proof cases
    case 1
    then show ?thesis using \<open>backspace m = _\<close> cur c(1) by (subst (asm) backspace.simps) auto
  next
    case 2
    then have "backspace (row_before row m1) = Ok (m', ms)" using \<open>backspace m = _\<close> cur by (subst (asm) backspace.simps) simp
    moreover have "bm_words (row_before row m1) \<noteq> []" using c(4) \<open>bm_words m \<noteq> []\<close> by (metis length_0_conv row_before_words)
    ultimately show ?thesis using 1(1) [OF cur refl refl 2] c(1) shown_row_before by simp
  next
    case 3
    obtain t where t: "delete_last row s = (t, ms)" "m' = write_current row t m1"
      using \<open>backspace m = _\<close> cur 3 by (subst (asm) backspace.simps) (auto split: prod.splits)
    then show ?thesis using draw_delete_last [OF t(1) 3, of "shown m"] c shown_write_current [OF c(3)] by simp
  qed
qed

lemma complete_row_shown:
  assumes "complete_row t m = Ok (m', ms)" "bm_words m \<noteq> []"
  shows "apply_mutations ms (shown m) = shown m'"
proof -
  obtain m1 row s where cur: "current_string m = Ok (m1, row, s)" using assms(1) by (auto simp: complete_row_def result_iff)
  note c = current_string_shown [OF cur assms(2)]
  have ms: "ms = replace_row row s t" using assms(1) cur by (auto simp: complete_row_def Let_def split: if_splits)
  have "cow_str (case binary_search BIP39_WORDS t of Some i \<Rightarrow> Borrowed (BIP39_WORDS ! i) | None \<Rightarrow> Owned t) = t"
    using word_to_index_iff [of t] by (auto simp: word_to_index_def split: option.split)
  then have "row_text m' r = (if r = row then t else row_text m1 r)" for r
    using assms(1) cur c(3) by (auto simp: complete_row_def Let_def row_text_def nth_list_update split: if_splits)
  then have "shown m' = put_row row t (shown m1)" by (auto simp: shown_def put_row_def)
  then show ?thesis using draw_replace [of row s t "shown m"] c ms by simp
qed

lemma edit_row_shown:
  assumes "edit_row row m = Ok (m', ms)"
  shows "apply_mutations ms (shown m) = shown m'"
proof -
  let ?s = "row_text m row"
  have row: "row - 1 < length (bm_words m)" if "row \<noteq> 0" using assms that by (auto simp: edit_row_def Let_def split: if_splits)
  have ms: "ms = map (\<lambda>i. DelCharacter row (length ?s - 1 - i)) [0..<length ?s]"
    using assms row by (auto simp: edit_row_def Let_def row_text_def split: if_splits)
  have "row_text m' r = (if r = row then [] else row_text m r)" for r
    using assms row by (auto simp: edit_row_def Let_def row_text_def nth_list_update split: if_splits)
  then have "shown m' = put_row row [] (shown m)" by (auto simp: shown_def put_row_def)
  moreover have "put_row row ?s (shown m) = shown m" by (auto simp: shown_def put_row_def)
  ultimately show ?thesis using draw_dels [of "length ?s" ?s row "shown m"] ms by simp
qed

lemma op_shown:
  assumes "run_op e m = Ok (m', mutations)" "length (bm_words m) = NUM_WORDS"
  shows "apply_mutations mutations (shown m) = shown m'"
proof -
  have "bm_words m \<noteq> []" using assms(2) by (auto simp: NUM_WORDS_def)
  then show ?thesis
    using assms(1) add_character_shown backspace_shown complete_row_shown edit_row_shown by (cases e) auto
qed

text \<open>C12. The screen never disagrees with what has been entered: applying the character changes that
  any operation returns to a framebuffer that shows the rows of the model gives a framebuffer that shows
  the rows of the new model, so nothing has to be drawn anew.\<close>

theorem framebuffer_follows_model:
  assumes "run_op e m = Ok (m', mutations)" "length (bm_words m) = NUM_WORDS"
  shows "apply_mutations mutations (shown m) = shown m'"
  by (rule op_shown [OF assms])

theorem framebuffer_follows_model_witness:
  "apply_mutations [SetCharacter 0 0 (CHR ''7'')] (shown new_backup_model) = shown (new_backup_model\<lparr>bm_share_index := ''7''\<rparr>)"
  by (rule framebuffer_follows_model [of "AddCharacter (CHR ''7'')"])
    (simp_all add: add_character_def current_string_def new_backup_model_def write_current_def)

end
