(* ===== verification/WordFacts.thy ===== *)
theory WordFacts
  imports Bip39
begin

section \<open>What the entry of words relies on in the table\<close>

text \<open>
  Two facts of the table of \<^verbatim>\<open>frost_backup/src/bip39_words.rs\<close> on which the entry of backups on the
  device rests, evaluated on the table block by block: a Q is always followed by a U, so that the
  keyboard may add the U of itself; and no word starts more than eight words, so that after all the
  letters of a word at the latest the selector of words is shown.
\<close>

fun q_then_u :: "string \<Rightarrow> bool" where
  "q_then_u [] = True"
| "q_then_u (c # cs) = ((c = CHR ''Q'' \<longrightarrow> cs \<noteq> [] \<and> hd cs = CHR ''U'') \<and> q_then_u cs)"

text \<open>No word is a prefix of the one eight places behind it.\<close>

fun no_ninth :: "string list \<Rightarrow> bool" where
  "no_ninth [] = True"
| "no_ninth (w # ws) = ((case drop 7 ws of [] \<Rightarrow> True | v # _ \<Rightarrow> \<not> prefix w v) \<and> no_ninth ws)"

definition block_ok :: "string list \<Rightarrow> bool" where
  "block_ok ws \<longleftrightarrow> list_all q_then_u ws \<and> no_ninth ws"

lemma block_A_ok [simp]: "block_ok words_A"
  by (simp add: block_ok_def words_A_def)

lemma block_B_ok [simp]: "block_ok words_B"
  by (simp add: block_ok_def words_B_def)

lemma block_C_ok [simp]: "block_ok words_C"
  by (simp add: block_ok_def words_C_def)

lemma block_D_ok [simp]: "block_ok words_D"
  by (simp add: block_ok_def words_D_def)

lemma block_E_ok [simp]: "block_ok words_E"
  by (simp add: block_ok_def words_E_def)

lemma block_F_ok [simp]: "block_ok words_F"
  by (simp add: block_ok_def words_F_def)

lemma block_G_ok [simp]: "block_ok words_G"
  by (simp add: block_ok_def words_G_def)

lemma block_H_ok [simp]: "block_ok words_H"
  by (simp add: block_ok_def words_H_def)

lemma block_I_ok [simp]: "block_ok words_I"
  by (simp add: block_ok_def words_I_def)

lemma block_J_ok [simp]: "block_ok words_J"
  by (simp add: block_ok_def words_J_def)

lemma block_K_ok [simp]: "block_ok words_K"
  by (simp add: block_ok_def words_K_def)

lemma block_L_ok [simp]: "block_ok words_L"
  by (simp add: block_ok_def words_L_def)

lemma block_M_ok [simp]: "block_ok words_M"
  by (simp add: block_ok_def words_M_def)

lemma block_N_ok [simp]: "block_ok words_N"
  by (simp add: block_ok_def words_N_def)

lemma block_O_ok [simp]: "block_ok words_O"
  by (simp add: block_ok_def words_O_def)

lemma block_P_ok [simp]: "block_ok words_P"
  by (simp add: block_ok_def words_P_def)

lemma block_Q_ok [simp]: "block_ok words_Q"
  by (simp add: block_ok_def words_Q_def)

lemma block_R_ok [simp]: "block_ok words_R"
  by (simp add: block_ok_def words_R_def)

lemma block_S_ok [simp]: "block_ok words_S"
  by (simp add: block_ok_def words_S_def)

lemma block_T_ok [simp]: "block_ok words_T"
  by (simp add: block_ok_def words_T_def)

lemma block_U_ok [simp]: "block_ok words_U"
  by (simp add: block_ok_def words_U_def)

lemma block_V_ok [simp]: "block_ok words_V"
  by (simp add: block_ok_def words_V_def)

lemma block_W_ok [simp]: "block_ok words_W"
  by (simp add: block_ok_def words_W_def)

lemma block_Y_ok [simp]: "block_ok words_Y"
  by (simp add: block_ok_def words_Y_def)

lemma block_Z_ok [simp]: "block_ok words_Z"
  by (simp add: block_ok_def words_Z_def)

lemma BIP39_blocks_ok: "\<exists>wss. BIP39_WORDS = concat wss \<and> list_all2 letter_words first_letters wss \<and> list_all block_ok wss"
  unfolding BIP39_WORDS_def first_letters_def
  by (rule exI, rule conjI, rule refl, rule conjI) (simp_all del: concat.simps)

lemma BIP39_q_then_u: "w \<in> set BIP39_WORDS \<Longrightarrow> q_then_u w"
proof -
  assume w: "w \<in> set BIP39_WORDS"
  obtain wss where "BIP39_WORDS = concat wss" "list_all block_ok wss" using BIP39_blocks_ok by blast
  then obtain ws where "w \<in> set ws" "block_ok ws" using w unfolding list_all_iff by (metis UN_E set_concat)
  then show ?thesis by (simp add: block_ok_def list_all_iff)
qed

lemma q_then_u_append: "q_then_u (p @ CHR ''Q'' # s) \<Longrightarrow> \<exists>t. s = CHR ''U'' # t"
  by (induction p) (cases s, auto)

lemma BIP39_after_Q: "p @ CHR ''Q'' # s \<in> set BIP39_WORDS \<Longrightarrow> \<exists>t. s = CHR ''U'' # t"
  using BIP39_q_then_u q_then_u_append by blast

text \<open>The words that start with a word.\<close>

lemma no_ninth_count:
  "sorted_wrt (<) ws \<Longrightarrow> no_ninth ws \<Longrightarrow> w \<in> set ws \<Longrightarrow> length (filter (prefix w) ws) \<le> 8"
proof (induction ws)
  case (Cons v vs)
  show ?case
  proof (cases "w = v")
    case True
    have "takeWhile (prefix w) (v # vs) = filter (prefix w) (v # vs)"
      by (rule takeWhile_prefix) (use Cons.prems(1) True in \<open>auto intro: le_take less_imp_le\<close>)
    moreover have "length (takeWhile (prefix w) (v # vs)) \<le> 8"
    proof (rule ccontr)
      assume "\<not> ?thesis"
      then have "8 < length (takeWhile (prefix w) (v # vs))" by simp
      then have "prefix w ((v # vs) ! 8)" "8 < length (v # vs)"
        using length_takeWhile_le [of "prefix w" "v # vs"] nth_mem set_takeWhileD takeWhile_nth by (metis, linarith)
      then have "drop 7 vs = vs ! 7 # drop 8 vs" using Cons_nth_drop_Suc [of 7 vs] by simp
      then show False using \<open>prefix w ((v # vs) ! 8)\<close> Cons.prems(2) True by simp
    qed
    ultimately show ?thesis by simp
  next
    case False
    then have w: "w \<in> set vs" "v < w" using Cons.prems by auto
    then have "\<not> prefix w v" using prefix_not_less by blast
    then show ?thesis using Cons w(1) by simp
  qed
qed simp

lemma BIP39_count:
  assumes "w \<in> set BIP39_WORDS"
  shows "length (words_with_prefix w) \<le> 8"
proof -
  obtain wss where wss: "BIP39_WORDS = concat wss" "list_all2 letter_words first_letters wss" "list_all block_ok wss"
    using BIP39_blocks_ok by blast
  have "length (filter (prefix w) (concat wss)) \<le> 8"
    if "list_all2 letter_words cs wss" "sorted_wrt (<) cs" "list_all block_ok wss" "w \<in> set (concat wss)" for cs
    using that
  proof (induction cs wss rule: list_all2_induct)
    case (Cons c cs ws wss)
    have w: "w \<noteq> []" using Cons.hyps Cons.prems(3) letter_block(1) [of "c # cs" "ws # wss" w] by simp
    have first: "v \<noteq> [] \<and> hd v = c" if "v \<in> set ws" for v
      using that Cons.hyps(1) by (auto simp: letter_words_def list_all_iff)
    have later: "v \<noteq> [] \<and> c < hd v" if "v \<in> set (concat wss)" for v
      using letter_block(1) [OF Cons.hyps(2) that] Cons.prems(1) by auto
    have hd: "prefix w v \<Longrightarrow> hd w = hd v" for v using w by (auto simp: prefix_def)
    show ?case
    proof (cases "w \<in> set ws")
      case True
      have "filter (prefix w) (concat wss) = []" using hd first [OF True] later by (force simp: filter_empty_conv)
      moreover have "sorted_wrt (<) ws" using Cons.hyps(1) by (simp add: letter_words_def ascending_iff)
      ultimately show ?thesis using no_ninth_count [of ws w] True Cons.prems(2) by (simp add: block_ok_def)
    next
      case False
      then have "w \<in> set (concat wss)" using Cons.prems(3) by simp
      moreover from this have "filter (prefix w) ws = []" using hd first later by (force simp: filter_empty_conv)
      ultimately show ?thesis using Cons.IH Cons.prems(1,2) by simp
    qed
  qed simp
  then show ?thesis using wss assms first_letters_sorted by (simp add: words_with_prefix_eq)
qed

end
