(* ===== verification/EntryScreen.thy ===== *)
theory EntryScreen
  imports EntryFramebuffer WordFacts
begin

section \<open>The screen on which a backup is entered\<close>

text \<open>
  Models \<^verbatim>\<open>EnterShareScreen\<close> of \<^verbatim>\<open>frostsnap_widgets/src/backup/enter_share_screen.rs\<close>: which keyboard,
  selector or list is up, which keys it offers, what a key does to the model behind it, and how the
  widgets catch up with the model after the fading of a touch. A touch and its release are one step, since
  a touch is cancelled by the next one and none is taken while an update is pending. Left out are drawing
  and scrolling, the backward and forward keys, which nothing handles, and the test mode that fills in words.
\<close>

datatype key =
    KeyBackspace
  | KeyConfirm
  | KeyChar char
  | KeyWord string
  | KeyShowEnteredWords
  | KeyEditWord nat

datatype completion_state = InProgress | Invalid | SuccessDelay "nat option" | Success

record entry_screen =
  es_model :: backup_model
  es_numeric :: "bool option"
  es_letters :: valid_letters
  es_selector :: "string list option"
  es_entered :: "nat option"
  es_framebuffer :: framebuffer
  es_pending :: bool
  es_completion :: completion_state

definition SUCCESS_DELAY_MS :: nat where
  "SUCCESS_DELAY_MS = 1000"

definition new_entry_screen :: entry_screen where
  "new_entry_screen = \<lparr>es_model = new_backup_model, es_numeric = None, es_letters = all_valid, es_selector = None,
     es_entered = None, es_framebuffer = (\<lambda>row pos. None), es_pending = False, es_completion = InProgress\<rparr>"

text \<open>The numeric keyboard is shown with its bottom row, zero and the check mark, enabled or not; the
  selector is not replaced while one is up.\<close>

definition update_from_model :: "crypto \<Rightarrow> entry_screen \<Rightarrow> entry_screen panicking" where
  "update_from_model C s =
     and_then (view_state_of C (es_model s)) (\<lambda>view.
     Ok (case vs_main_view view of
           AllWordsEntered success \<Rightarrow>
             s\<lparr>es_completion :=
                 (if es_completion s = InProgress
                  then (if success \<noteq> None then SuccessDelay None else Invalid) else es_completion s),
               es_entered := (case es_entered s of None \<Rightarrow> Some (vs_row view) | Some row \<Rightarrow> Some row),
               es_numeric := None, es_selector := None\<rparr>
         | EnterShareIndex current \<Rightarrow> s\<lparr>es_numeric := Some (current \<noteq> [])\<rparr>
         | EnterWord valid_letters \<Rightarrow> s\<lparr>es_numeric := None, es_selector := None, es_letters := valid_letters\<rparr>
         | WordSelect current possible_words \<Rightarrow>
             s\<lparr>es_selector := (case es_selector s of None \<Rightarrow> Some possible_words | Some words \<Rightarrow> Some words)\<rparr>))"

text \<open>\<^verbatim>\<open>can_show_entered_words\<close> of \<^verbatim>\<open>ViewState\<close>.\<close>

definition can_show_entered_words :: "view_state \<Rightarrow> bool" where
  "can_show_entered_words view = False"

definition with_mutations :: "(backup_model \<times> framebuffer_mutation list) panicking \<Rightarrow> entry_screen \<Rightarrow> entry_screen panicking" where
  "with_mutations r s =
     and_then r (\<lambda>(model, mutations).
     Ok (s\<lparr>es_model := model, es_framebuffer := apply_mutations mutations (es_framebuffer s)\<rparr>))"

definition mark_pending :: "entry_screen panicking \<Rightarrow> entry_screen panicking" where
  "mark_pending r = and_then r (\<lambda>s. Ok (s\<lparr>es_pending := True\<rparr>))"

definition is_alphanumeric :: "char \<Rightarrow> bool" where
  "is_alphanumeric c \<longleftrightarrow> to_digit c \<noteq> None \<or> letter_to_index c \<noteq> None"

fun handle_key :: "crypto \<Rightarrow> key \<Rightarrow> entry_screen \<Rightarrow> entry_screen panicking" where
  "handle_key C KeyBackspace s = mark_pending (with_mutations (backspace (es_model s)) s)"
| "handle_key C KeyConfirm s =
     and_then (view_state_of C (es_model s)) (\<lambda>view.
     case vs_main_view view of
       EnterShareIndex current \<Rightarrow> mark_pending (with_mutations (complete_row current (es_model s)) s)
     | _ \<Rightarrow> Ok s)"
| "handle_key C (KeyChar c) s =
     (if is_alphanumeric c then mark_pending (with_mutations (add_character c (es_model s)) s) else Ok s)"
| "handle_key C (KeyWord w) s = mark_pending (with_mutations (complete_row w (es_model s)) s)"
| "handle_key C KeyShowEnteredWords s =
     and_then (view_state_of C (es_model s)) (\<lambda>view.
     Ok (if can_show_entered_words view then s\<lparr>es_entered := Some (vs_row view)\<rparr> else s))"
| "handle_key C (KeyEditWord row) s =
     and_then (with_mutations (edit_row row (es_model s)) s) (\<lambda>s.
     and_then (update_from_model C (s\<lparr>es_completion := InProgress\<rparr>)) (\<lambda>s.
     Ok (s\<lparr>es_entered := None\<rparr>)))"

text \<open>The keys a touch can hit: rows of the list of entered words up to its row, the digits, the words
  of the selector or the enabled letters, and backspace beside the last three.\<close>

definition offers :: "entry_screen \<Rightarrow> key \<Rightarrow> bool" where
  "offers s k =
     (case es_completion s of
        SuccessDelay t \<Rightarrow> False
      | Success \<Rightarrow> False
      | _ \<Rightarrow>
          (case es_entered s of
             Some last_row \<Rightarrow> (case k of KeyEditWord row \<Rightarrow> row < min (last_row + 1) (NUM_WORDS + 1) | _ \<Rightarrow> False)
           | None \<Rightarrow>
               (case es_numeric s of
                  Some bottom_enabled \<Rightarrow>
                    (case k of
                       KeyBackspace \<Rightarrow> True
                     | KeyConfirm \<Rightarrow> bottom_enabled
                     | KeyChar c \<Rightarrow> to_digit c \<noteq> None \<and> (c = CHR ''0'' \<longrightarrow> bottom_enabled)
                     | _ \<Rightarrow> False)
                | None \<Rightarrow>
                    (case es_selector s of
                       Some words \<Rightarrow> (case k of KeyBackspace \<Rightarrow> True | KeyWord w \<Rightarrow> w \<in> set words | _ \<Rightarrow> False)
                     | None \<Rightarrow> (case k of KeyBackspace \<Rightarrow> True | KeyChar c \<Rightarrow> is_valid_letter (es_letters s) c | _ \<Rightarrow> False)))))"

text \<open>A frame: the delay before success runs, and once all touches have faded out the widgets catch up.\<close>

definition advance_completion :: "nat \<Rightarrow> completion_state \<Rightarrow> completion_state" where
  "advance_completion now c =
     (case c of
        SuccessDelay success_at \<Rightarrow>
          let t = (case success_at of None \<Rightarrow> now | Some t \<Rightarrow> t)
          in if SUCCESS_DELAY_MS \<le> now - t then Success else SuccessDelay (Some t)
      | _ \<Rightarrow> c)"

definition draw_screen :: "crypto \<Rightarrow> nat \<Rightarrow> bool \<Rightarrow> entry_screen \<Rightarrow> entry_screen panicking" where
  "draw_screen C now faded s =
     (let s = s\<lparr>es_completion := advance_completion now (es_completion s)\<rparr>
      in if es_pending s \<and> faded then update_from_model C (s\<lparr>es_pending := False\<rparr>) else Ok s)"

definition entered_backup :: "crypto \<Rightarrow> entry_screen \<Rightarrow> share_backup option panicking" where
  "entered_backup C s =
     and_then (view_state_of C (es_model s)) (\<lambda>view.
     Ok (case vs_main_view view of AllWordsEntered success \<Rightarrow> success | _ \<Rightarrow> None))"

definition is_finished :: "entry_screen \<Rightarrow> bool" where
  "is_finished s \<longleftrightarrow> es_completion s = Success"

definition is_invalid :: "entry_screen \<Rightarrow> bool" where
  "is_invalid s \<longleftrightarrow> es_completion s = Invalid"

text \<open>What the user and the clock can do to it.\<close>

inductive entry_step :: "crypto \<Rightarrow> entry_screen \<Rightarrow> entry_screen \<Rightarrow> bool" for C where
  tap: "\<not> es_pending s \<Longrightarrow> offers s k \<Longrightarrow> handle_key C k s = Ok s' \<Longrightarrow> entry_step C s s'"
| frame: "draw_screen C now faded s = Ok s' \<Longrightarrow> entry_step C s s'"

inductive entry_reachable :: "crypto \<Rightarrow> entry_screen \<Rightarrow> bool" for C where
  start: "update_from_model C new_entry_screen = Ok s \<Longrightarrow> entry_reachable C s"
| step: "entry_reachable C s \<Longrightarrow> entry_step C s s' \<Longrightarrow> entry_reachable C s'"

subsection \<open>What holds of the rows\<close>

text \<open>A prefix at which the keyboard gave way to the selector, or a shorter one.\<close>

definition narrow :: "string \<Rightarrow> bool" where
  "narrow s \<longleftrightarrow> s = [] \<or> butlast s = [] \<or> 8 < length (words_with_prefix (butlast s)) \<or>
     (\<exists>p. s = p @ ''QU'' \<and> (p = [] \<or> 8 < length (words_with_prefix p)))"

definition starts_word :: "string \<Rightarrow> bool" where
  "starts_word s \<longleftrightarrow> (\<exists>t. s @ t \<in> set BIP39_WORDS)"

fun word_ok :: "cow \<Rightarrow> bool" where
  "word_ok (Borrowed s) \<longleftrightarrow> s = [] \<or> s \<in> set BIP39_WORDS"
| "word_ok (Owned s) \<longleftrightarrow> starts_word s \<and> narrow s"

definition settled :: "cow \<Rightarrow> bool" where
  "settled w \<longleftrightarrow> word_finished w \<or> cow_str w = []"

text \<open>Of the unfinished words only the first has letters.\<close>

definition words_ok :: "cow list \<Rightarrow> bool" where
  "words_ok ws \<longleftrightarrow> length ws = NUM_WORDS \<and> (\<forall>w\<in>set ws. word_ok w) \<and>
     (\<forall>i<length ws. \<forall>j<i. word_unfinished (ws ! j) \<longrightarrow> settled (ws ! i))"

definition index_ok :: "string \<Rightarrow> bool" where
  "index_ok s \<longleftrightarrow> length s \<le> 7 \<and> (\<forall>c\<in>set s. to_digit c \<noteq> None) \<and> (s \<noteq> [] \<longrightarrow> hd s \<noteq> CHR ''0'')"

definition model_ok :: "backup_model \<Rightarrow> bool" where
  "model_ok m \<longleftrightarrow> words_ok (bm_words m) \<and> index_ok (bm_share_index m) \<and>
     (if bm_confirmed m then bm_share_index m \<noteq> [] else \<forall>w\<in>set (bm_words m). settled w)"

end
