(* ===== verification/EntryRows.thy ===== *)
theory EntryRows
  imports EntryScreen
begin

section \<open>What the keys do to the rows\<close>

text \<open>
  Lemmas on the invariant of \<open>EntryScreen\<close>: how the operations of \<^verbatim>\<open>BackupModel\<close> change rows that
  satisfy it, and what is shown for them.
\<close>

subsection \<open>Prefixes of words\<close>

lemma starts_word_Nil [simp]: "starts_word []"
  using BIP39_starts [of "CHR ''A''"] by (auto simp: starts_word_def first_letters_def)

lemma starts_word_prefix: "starts_word (s @ t) \<Longrightarrow> starts_word s"
  by (auto simp: starts_word_def)

lemma starts_word_butlast: "starts_word s \<Longrightarrow> starts_word (butlast s)"
  by (metis append_butlast_last_id butlast.simps(1) starts_word_prefix)

lemma table_starts_word: "s \<in> set BIP39_WORDS \<Longrightarrow> starts_word s"
  unfolding starts_word_def by (rule exI [of _ "[]"]) simp

lemma matches_iff: "w \<in> set (words_with_prefix s) \<longleftrightarrow> w \<in> set BIP39_WORDS \<and> prefix s w"
  by (auto simp: words_with_prefix_eq)

lemma matches_not_Nil: "starts_word s \<Longrightarrow> words_with_prefix s \<noteq> []"
  by (metis empty_iff list.set(1) matches_iff prefixI starts_word_def)

lemma matches_antimono: "prefix s t \<Longrightarrow> length (words_with_prefix t) \<le> length (words_with_prefix s)"
proof -
  assume "prefix s t"
  then have "filter (prefix t) BIP39_WORDS = filter (prefix t) (filter (prefix s) BIP39_WORDS)"
    by (auto intro!: filter_cong prefix_order.trans [of s t])
  then show ?thesis unfolding words_with_prefix_eq by (metis length_filter_le)
qed

lemma prefix_butlast: "prefix (butlast s) s"
  by (metis append_butlast_last_id butlast.simps(1) prefixI prefix_order.order_refl)

lemma matches_QU: "words_with_prefix (p @ ''Q'') = words_with_prefix (p @ ''QU'')"
proof -
  have "prefix (p @ ''Q'') w \<longleftrightarrow> prefix (p @ ''QU'') w" if "w \<in> set BIP39_WORDS" for w
    using BIP39_after_Q [of p] that by (auto simp: prefix_def)
  then show ?thesis unfolding words_with_prefix_eq by (rule filter_cong [OF refl])
qed

lemma many_not_long: "8 < length (words_with_prefix s) \<Longrightarrow> starts_word s \<Longrightarrow> \<exists>c t. s @ c # t \<in> set BIP39_WORDS"
proof -
  assume s: "8 < length (words_with_prefix s)" "starts_word s"
  then obtain t where t: "s @ t \<in> set BIP39_WORDS" by (auto simp: starts_word_def)
  have "t \<noteq> []" using BIP39_count [of s] s(1) t by auto
  then show ?thesis using t by (cases t) auto
qed

subsection \<open>Deleting\<close>

lemma shrink_spec:
  "starts_word s \<Longrightarrow> s \<noteq> [] \<Longrightarrow> shrink_prefix row s ms = (t, ms') \<Longrightarrow>
   prefix t s \<and> (t = [] \<or> 8 < length (words_with_prefix (butlast t)) \<and> butlast t \<noteq> [])"
proof (induction row s ms arbitrary: t ms' rule: shrink_prefix.induct)
  case (1 row s ms)
  note IH = 1(1) and prems = 1(2-4)
  let ?q = "butlast s"
  have q: "words_with_prefix ?q \<noteq> []" using prems(1) by (simp add: matches_not_Nil starts_word_butlast)
  consider "?q = []" | "?q \<noteq> []" "8 < length (words_with_prefix ?q)" | "?q \<noteq> []" "\<not> 8 < length (words_with_prefix ?q)" by blast
  then show ?case
  proof cases
    case 3
    then have no: "\<not> (8 < length (words_with_prefix ?q) \<or> length (words_with_prefix ?q) = 0)" using q by simp
    from 3 have "shrink_prefix row ?q (ms @ [DelCharacter row (length ?q)]) = (t, ms')"
      using prems shrink_prefix_step [of s row ms] q by simp
    then show ?thesis
      using IH [OF prems(2) refl refl 3(1) refl no] prems(1) 3(1) prefix_butlast [of s] starts_word_butlast prefix_order.trans by blast
  qed (use prems q shrink_prefix_step [of s row ms] in auto)
qed

lemma delete_last_index: "delete_last 0 s = (t, ms) \<Longrightarrow> t = butlast s"
  by (simp add: delete_last_def Let_def)

lemma delete_last_word:
  assumes "delete_last row s = (t, ms)" "starts_word s" "s \<noteq> []" "0 < row"
  shows "starts_word t" "narrow t" "prefix t s"
proof -
  let ?q = "butlast s"
  have q: "starts_word ?q" using assms(2) by (rule starts_word_butlast)
  have t: "prefix t ?q \<and> narrow t"
  proof (cases "?q \<noteq> [] \<and> length (words_with_prefix ?q) \<le> 8")
    case True
    then have "shrink_prefix row ?q [DelCharacter row (length ?q)] = (t, ms)"
      using assms(1,4) by (simp add: delete_last_def Let_def)
    then show ?thesis using shrink_spec [OF q] True by (auto simp: narrow_def)
  next
    case False
    then have "t = ?q" using assms(1,4) by (auto simp: delete_last_def Let_def split: if_splits)
    then show ?thesis using False matches_antimono [OF prefix_butlast, of ?q] by (auto simp: narrow_def)
  qed
  then show "narrow t" by simp
  show "prefix t s" using t prefix_butlast [of s] prefix_order.trans by blast
  then show "starts_word t" using assms(2) starts_word_prefix by (auto simp: prefix_def)
qed

text \<open>Where the selector was up, deleting leaves a row with the same selection or one without.\<close>

lemma delete_last_selected:
  assumes "delete_last row s = (t, ms)" "starts_word s" "s \<noteq> []" "0 < row" "narrow s"
    and "length (words_with_prefix s) \<le> 8"
  shows "t = [] \<or> 8 < length (words_with_prefix t) \<or> words_with_prefix t = words_with_prefix s"
proof -
  let ?q = "butlast s"
  consider "?q = []" | "?q \<noteq> []" "8 < length (words_with_prefix ?q)" | "?q \<noteq> []" "\<not> 8 < length (words_with_prefix ?q)" by blast
  then show ?thesis
  proof cases
    case 3
    then obtain p where p: "s = p @ ''QU''" "p = [] \<or> 8 < length (words_with_prefix p)"
      using assms(3,5) unfolding narrow_def by blast
    then have q: "?q = p @ ''Q''" "butlast ?q = p" by (simp_all add: butlast_append)
    have "shrink_prefix row ?q [DelCharacter row (length ?q)] = (t, ms)"
      using assms(1,4) 3 by (simp add: delete_last_def Let_def)
    then have "t = [] \<or> t = ?q" using shrink_prefix_step [OF 3(1), of row] p(2) q(2) by (auto split: if_splits)
    then show ?thesis using matches_QU [of p] q(1) p(1) by auto
  qed (use assms(1,4) in \<open>auto simp: delete_last_def Let_def split: if_splits\<close>)
qed

subsection \<open>The unfinished word\<close>

lemma finished_iff [simp]: "word_finished w \<longleftrightarrow> \<not> word_unfinished w"
  by (auto simp: word_finished_def word_unfinished_def)

text \<open>The first unfinished word is number \<open>i\<close> and stands at \<open>s\<close>.\<close>

definition editing :: "cow list \<Rightarrow> nat \<Rightarrow> string \<Rightarrow> bool" where
  "editing ws i s \<longleftrightarrow> i < length ws \<and> word_unfinished (ws ! i) \<and> cow_str (ws ! i) = s \<and>
     (\<forall>j<i. \<not> word_unfinished (ws ! j))"

lemma editing_idx: "editing ws i s \<Longrightarrow> unfinished_idx ws = i"
proof -
  assume e: "editing ws i s"
  then have "takeWhile (\<lambda>w. \<not> word_unfinished w) ws = take i ws"
    by (intro takeWhile_eq_take_P_nth) (auto simp: editing_def)
  then show ?thesis using e by (simp add: unfinished_idx_def editing_def)
qed

lemma editing_exists:
  assumes "w \<in> set ws" "word_unfinished w"
  shows "\<exists>i s. editing ws i s"
proof -
  obtain k where "k < length ws" "word_unfinished (ws ! k)" using assms by (auto simp: in_set_conv_nth)
  then obtain i where "i < length ws \<and> word_unfinished (ws ! i)" "\<forall>j<i. \<not> (j < length ws \<and> word_unfinished (ws ! j))"
    using exists_least_iff [of "\<lambda>i. i < length ws \<and> word_unfinished (ws ! i)"] by blast
  then have "editing ws i (cow_str (ws ! i))" by (auto simp: editing_def)
  then show ?thesis by blast
qed

lemma editing_word: "editing ws i s \<Longrightarrow> words_ok ws \<Longrightarrow> starts_word s \<and> narrow s"
proof -
  assume e: "editing ws i s" "words_ok ws"
  then have "word_ok (ws ! i)" "word_unfinished (ws ! i)" "cow_str (ws ! i) = s" by (auto simp: editing_def words_ok_def)
  then show ?thesis by (cases "ws ! i") (auto simp: word_unfinished_def narrow_def)
qed

lemma words_ok_update:
  assumes "words_ok ws" "editing ws i s" "word_ok w"
  shows "words_ok (ws[i := w])"
proof -
  have i: "i < length ws" "\<forall>j<i. \<not> word_unfinished (ws ! j)" "word_unfinished (ws ! i)" using assms(2) by (auto simp: editing_def)
  have "\<forall>v\<in>set (ws[i := w]). word_ok v"
    using assms(1,3) set_update_subset_insert [of ws i w] by (auto simp: words_ok_def)
  moreover have "settled (ws[i := w] ! k)" if "k < length ws" "j < k" "word_unfinished (ws[i := w] ! j)" for k j
  proof -
    have "i \<le> j" using that(3) i by (metis not_le nth_list_update_neq order_less_irrefl)
    then have "settled (ws ! k)" "k \<noteq> i" using that(1,2) i(3) assms(1) unfolding words_ok_def by (metis le_less_trans, simp)
    then show ?thesis by simp
  qed
  ultimately show ?thesis using assms(1) by (simp add: words_ok_def)
qed

lemma editing_update_Owned:
  "editing ws i s \<Longrightarrow> editing (ws[i := Owned t]) i t"
  by (auto simp: editing_def word_unfinished_def nth_list_update)

text \<open>After finishing a word, the next unfinished one is empty.\<close>

lemma finished_next:
  assumes "words_ok ws" "editing ws i s" "w \<in> set BIP39_WORDS" "editing (ws[i := Borrowed w]) k t"
  shows "t = []"
proof -
  have w: "w \<noteq> []" using BIP39_letters [OF assms(3)] by simp
  have k: "k < length ws" "word_unfinished (ws[i := Borrowed w] ! k)" "cow_str (ws[i := Borrowed w] ! k) = t"
    using assms(4) by (auto simp: editing_def)
  then have "k \<noteq> i" using w assms(2) by (auto simp: word_unfinished_def editing_def)
  moreover from this have "\<not> k < i" using k(2) assms(2) by (auto simp: editing_def)
  ultimately have "settled (ws ! k)" using k(1) assms(1,2) unfolding words_ok_def editing_def by (metis nat_neq_iff)
  then show ?thesis using k(2,3) \<open>k \<noteq> i\<close> by (auto simp: settled_def)
qed

lemma all_finished_update:
  assumes "words_ok ws" "\<forall>w\<in>set ws. \<not> word_unfinished w" "k < length ws"
  shows "words_ok (ws[k := Owned []])" "editing (ws[k := Owned []]) k []"
proof -
  have "\<forall>v\<in>set (ws[k := Owned []]). word_ok v \<and> settled v"
    using assms set_update_subset_insert [of ws k "Owned []"] by (auto simp: words_ok_def settled_def narrow_def)
  then show "words_ok (ws[k := Owned []])" using assms(1) by (auto simp: words_ok_def)
  show "editing (ws[k := Owned []]) k []"
    using assms(2,3) by (auto simp: editing_def word_unfinished_def [of "Owned []"])
qed

subsection \<open>What is shown\<close>

definition views :: "crypto \<Rightarrow> backup_model \<Rightarrow> main_view_state \<Rightarrow> bool" where
  "views C m mv \<longleftrightarrow> (\<exists>v. view_state_of C m = Ok v \<and> vs_main_view v = mv \<and> (vs_row v = NUM_WORDS \<or> \<not> (\<exists>b. mv = AllWordsEntered b)))"

lemma views_index: "\<not> bm_confirmed m \<Longrightarrow> views C m (EnterShareIndex (bm_share_index m))"
  by (simp add: views_def view_state_of_def Let_def)

lemma editing_not_static: "editing (bm_words m) i s \<Longrightarrow> words_as_static m = None"
  by (auto simp: words_as_static_def list_all_iff editing_def)

lemma views_word: "bm_confirmed m \<Longrightarrow> editing (bm_words m) i s \<Longrightarrow> views C m (word_view s)"
  using editing_not_static [of m i s] editing_idx [of "bm_words m" i s]
  by (auto simp: views_def view_state_of_def Let_def editing_def word_view_def)

lemma parse_digits_bound:
  "\<forall>c\<in>set s. to_digit c \<noteq> None \<Longrightarrow> acc < 10 ^ k \<Longrightarrow> k + length s \<le> 9 \<Longrightarrow> \<exists>n. parse_digits acc s = Some n"
proof (induction s arbitrary: acc k)
  case (Cons c s)
  obtain d where d: "to_digit c = Some d" "d < 10" using Cons.prems(1) by (auto simp: to_digit_def split: if_splits)
  then have small: "acc * 10 + d < 10 ^ Suc k" using Cons.prems(2) by simp
  also have "\<dots> \<le> 10 ^ 9" using Cons.prems(3) by (intro power_increasing) simp_all
  finally have "acc * 10 + d \<le> u32_max" by (simp add: u32_max_def)
  then show ?case using Cons.IH [OF _ small] Cons.prems d(1) by simp
qed simp

lemma index_parses: "index_ok s \<Longrightarrow> s \<noteq> [] \<Longrightarrow> \<exists>n. parse_u32 s = Some n"
proof -
  assume s: "index_ok s" "s \<noteq> []"
  then obtain c cs where c: "s = c # cs" "to_digit c \<noteq> None" by (cases s) (auto simp: index_ok_def)
  then have "c \<noteq> CHR ''+''" "c \<noteq> CHR ''-''" by (auto simp: to_digit_def)
  then show ?thesis using parse_digits_bound [of s 0 0] s(1) c(1) by (auto simp: parse_u32_def index_ok_def)
qed

lemma all_finished_static:
  "bm_confirmed m \<Longrightarrow> \<forall>w\<in>set (bm_words m). \<not> word_unfinished w \<Longrightarrow> words_as_static m = Some (map cow_str (bm_words m))"
  by (auto simp: words_as_static_def is_complete_def list_all_iff word_unfinished_def)

lemma views_all:
  assumes "bm_confirmed m" "\<forall>w\<in>set (bm_words m). \<not> word_unfinished w" "parse_u32 (bm_share_index m) = Some n"
  shows "views C m (AllWordsEntered (case from_words C n (map cow_str (bm_words m)) of Ok b \<Rightarrow> Some b | _ \<Rightarrow> None))"
  using assms all_finished_static [OF assms(1,2)] by (simp add: views_def view_state_of_def Let_def)

lemma views_exists:
  assumes "model_ok m"
  shows "\<exists>mv. views C m mv"
proof (cases "bm_confirmed m \<and> (\<forall>w\<in>set (bm_words m). \<not> word_unfinished w)")
  case True
  then obtain n where "parse_u32 (bm_share_index m) = Some n" using index_parses assms by (auto simp: model_ok_def)
  then show ?thesis using True views_all by blast
next
  case False
  then show ?thesis using views_index views_word editing_exists by blast
qed

end
