(* ===== verification/EntryProps.thy ===== *)
theory EntryProps
  imports EntryRows
begin

section \<open>Entering a backup works\<close>

text \<open>
  The properties of \<open>EntryScreen\<close>: in every state that keys and frames can lead to, no key that is
  offered and no frame panics, the framebuffer shows the rows and the widgets fit the model; and every
  backup can be entered.
\<close>

subsection \<open>What the keys do\<close>

lemma current_index: "\<not> bm_confirmed m \<Longrightarrow> current_string m = Ok (m, 0, bm_share_index m)"
  by (simp add: current_string_def)

lemma current_word:
  assumes "bm_confirmed m" "editing (bm_words m) i s"
  shows "current_string m = Ok (m\<lparr>bm_words := (bm_words m)[i := Owned s]\<rparr>, i + 1, s)"
proof -
  have e: "i < length (bm_words m)" "word_unfinished (bm_words m ! i)" "cow_str (bm_words m ! i) = s"
    using assms(2) by (auto simp: editing_def)
  show ?thesis
  proof (cases "s = []")
    case False
    then have "bm_words m ! i = Owned s" using e by (cases "bm_words m ! i") (auto simp: word_unfinished_def)
    moreover from this have "(bm_words m)[i := Owned s] = bm_words m" by (metis list_update_id)
    ultimately show ?thesis using assms(1) editing_idx [OF assms(2)] e False by (simp add: current_string_def Let_def)
  qed (use assms(1) editing_idx [OF assms(2)] e in \<open>simp add: current_string_def Let_def\<close>)
qed

lemma write_word: "write_current (i + 1) t (m\<lparr>bm_words := ws\<rparr>) = m\<lparr>bm_words := ws[i := Owned t]\<rparr>"
  by (simp add: write_current_def)

text \<open>A letter the keyboard enables.\<close>

lemma add_letter:
  assumes "bm_confirmed m" "editing (bm_words m) i s" "is_valid_letter (get_valid_next_letters s) c"
    and "s = [] \<or> 8 < length (words_with_prefix s)"
  shows "\<exists>t ms. add_character c m = Ok (m\<lparr>bm_words := (bm_words m)[i := Owned t]\<rparr>, ms) \<and> starts_word t \<and> narrow t \<and>
    (\<forall>w. w \<in> set BIP39_WORDS \<longrightarrow> prefix (s @ [c]) w \<longrightarrow> prefix t w) \<and> length s < length t"
proof -
  obtain r where r: "s @ c # r \<in> set BIP39_WORDS" using assms(3) next_letters [of s c] by blast
  show ?thesis
  proof (cases "c = CHR ''Q''")
    case True
    then obtain u where "s @ ''QU'' @ u \<in> set BIP39_WORDS" using BIP39_after_Q [of s r] r by auto
    then have "starts_word (s @ ''QU'')" unfolding starts_word_def by (metis append_assoc)
    moreover have "narrow (s @ ''QU'')" using assms(4) unfolding narrow_def by blast
    moreover have "prefix (s @ ''QU'') w" if "w \<in> set BIP39_WORDS" "prefix (s @ [c]) w" for w
      using BIP39_after_Q [of s] that True by (auto simp: prefix_def)
    ultimately show ?thesis
      using current_word [OF assms(1,2)] True by (auto simp: add_character_def Let_def write_word [simplified])
  next
    case False
    have "starts_word (s @ [c])" using r unfolding starts_word_def by (intro exI [of _ r]) simp
    moreover have "narrow (s @ [c])" using assms(4) unfolding narrow_def by (metis butlast_snoc)
    ultimately show ?thesis
      using current_word [OF assms(1,2)] False by (auto simp: add_character_def Let_def write_word [simplified])
  qed
qed

lemma backspace_index:
  assumes "\<not> bm_confirmed m"
  shows "\<exists>ms. backspace m = Ok (m\<lparr>bm_share_index := butlast (bm_share_index m)\<rparr>, ms)"
proof (cases "bm_share_index m = []")
  case True
  then show ?thesis using current_index [OF assms] by (subst backspace.simps) (simp add: prod_eq_iff)
next
  case False
  obtain t ms where t: "delete_last 0 (bm_share_index m) = (t, ms)" by fastforce
  then show ?thesis
    using False current_index [OF assms] delete_last_index [OF t] by (subst backspace.simps) (simp add: write_current_def)
qed

lemma backspace_letter:
  assumes "bm_confirmed m" "editing (bm_words m) i s" "s \<noteq> []" "delete_last (i + 1) s = (t, ms)"
  shows "backspace m = Ok (m\<lparr>bm_words := (bm_words m)[i := Owned t]\<rparr>, ms)"
  using current_word [OF assms(1,2)] assms(3,4) by (subst backspace.simps) (simp add: write_word [simplified])

lemma backspace_first_word:
  assumes "bm_confirmed m" "editing (bm_words m) 0 []"
  shows "\<exists>ms. backspace m = Ok (m\<lparr>bm_confirmed := False, bm_words := (bm_words m)[0 := Owned []],
    bm_share_index := butlast (bm_share_index m)\<rparr>, ms)"
proof -
  let ?m = "m\<lparr>bm_confirmed := False, bm_words := (bm_words m)[0 := Owned []]\<rparr>"
  have "row_before 1 (m\<lparr>bm_words := (bm_words m)[0 := Owned []]\<rparr>) = ?m" using assms(1) by (simp add: row_before_def)
  then have "backspace m = backspace ?m" using current_word [OF assms] by (subst backspace.simps) simp
  then show ?thesis using backspace_index [of ?m] by auto
qed

lemma backspace_word_before:
  assumes "bm_confirmed m" "editing (bm_words m) (Suc i) []" "delete_last (i + 1) (cow_str (bm_words m ! i)) = (t, ms)"
  shows "backspace m = Ok (m\<lparr>bm_words := (bm_words m)[Suc i := Owned [], i := Owned t]\<rparr>, ms)"
proof -
  let ?w = "cow_str (bm_words m ! i)"
  let ?m = "m\<lparr>bm_words := (bm_words m)[Suc i := Owned [], i := Owned ?w]\<rparr>"
  have i: "Suc i < length (bm_words m)" "\<not> word_unfinished (bm_words m ! i)" "\<forall>j<i. \<not> word_unfinished (bm_words m ! j)"
    using assms(2) by (auto simp: editing_def)
  have w: "?w \<noteq> []" using i(2) by (simp add: word_unfinished_def)
  have "row_before (Suc i + 1) (m\<lparr>bm_words := (bm_words m)[Suc i := Owned []]\<rparr>) = ?m" using i(1) by (simp add: row_before_def)
  then have "backspace m = backspace ?m" using current_word [OF assms(1,2)] by (subst backspace.simps) simp
  moreover have "editing (bm_words ?m) i ?w" using i by (auto simp: editing_def word_unfinished_def [of "Owned _"])
  ultimately show ?thesis using backspace_letter [of ?m i ?w t ms] assms(1,3) w by simp
qed

lemma confirm_index:
  "\<not> bm_confirmed m \<Longrightarrow> complete_row (bm_share_index m) m = Ok (m\<lparr>bm_confirmed := True\<rparr>, [])"
  using current_index [of m] by (simp add: complete_row_def replace_row_def Let_def)

lemma select_word:
  assumes "bm_confirmed m" "editing (bm_words m) i s" "w \<in> set BIP39_WORDS"
  shows "\<exists>ms. complete_row w m = Ok (m\<lparr>bm_words := (bm_words m)[i := Borrowed w]\<rparr>, ms)"
proof -
  obtain k where "binary_search BIP39_WORDS w = Some k" "BIP39_WORDS ! k = w"
    using word_to_index_None [of w] word_to_index_iff [of w] assms(3) by (auto simp: word_to_index_def)
  then show ?thesis using current_word [OF assms(1,2)] by (simp add: complete_row_def Let_def)
qed

subsection \<open>The rows stay well-formed\<close>

lemma editing_model:
  assumes "model_ok m" "bm_confirmed m" "editing (bm_words m) i s" "starts_word t" "narrow t"
  shows "model_ok (m\<lparr>bm_words := (bm_words m)[i := Owned t]\<rparr>)" "editing ((bm_words m)[i := Owned t]) i t"
  using assms words_ok_update [of "bm_words m" i s "Owned t"] editing_update_Owned [OF assms(3)] by (simp_all add: model_ok_def)

lemma settled_editing: "words_ok ws \<Longrightarrow> editing ws i [] \<Longrightarrow> \<forall>w\<in>set ws. settled w"
proof
  fix w assume ws: "words_ok ws" "editing ws i []" "w \<in> set ws"
  then obtain k where k: "k < length ws" "ws ! k = w" by (auto simp: in_set_conv_nth)
  show "settled w"
  proof (cases "i < k")
    case True
    then show ?thesis using ws k unfolding words_ok_def editing_def by blast
  next
    case False
    then have "k = i \<or> \<not> word_unfinished (ws ! k)" using ws(2) by (auto simp: editing_def)
    then show ?thesis using ws(2) k(2) by (auto simp: settled_def editing_def)
  qed
qed

lemma index_ok_butlast: "index_ok s \<Longrightarrow> index_ok (butlast s)"
  by (cases s rule: rev_cases) (auto simp: index_ok_def hd_append)

lemma index_ok_snoc:
  "index_ok s \<Longrightarrow> length s < 7 \<Longrightarrow> to_digit c \<noteq> None \<Longrightarrow> (c = CHR ''0'' \<longrightarrow> s \<noteq> []) \<Longrightarrow> index_ok (s @ [c])"
  by (auto simp: index_ok_def hd_append)

lemma add_digit:
  assumes "\<not> bm_confirmed m" "model_ok m" "to_digit c \<noteq> None" "c = CHR ''0'' \<longrightarrow> bm_share_index m \<noteq> []"
  shows "\<exists>m' ms. add_character c m = Ok (m', ms) \<and> \<not> bm_confirmed m' \<and> model_ok m'"
  using assms index_ok_snoc [of "bm_share_index m" c] current_index [OF assms(1)]
  by (simp add: add_character_def Let_def write_current_def model_ok_def)

lemma finished_in_table:
  assumes "words_ok ws" "k < length ws" "\<not> word_unfinished (ws ! k)"
  shows "cow_str (ws ! k) \<in> set BIP39_WORDS \<and> cow_str (ws ! k) \<noteq> []"
proof -
  have "word_ok (ws ! k)" using assms(1,2) by (simp add: words_ok_def)
  then show ?thesis using assms(3) by (cases "ws ! k") (auto simp: word_unfinished_def)
qed

text \<open>Going back to the finished word before an empty one.\<close>

lemma words_ok_before:
  assumes "words_ok ws" "editing ws (Suc k) []" "starts_word t" "narrow t"
  shows "editing (ws[k := Owned t]) k t" "words_ok (ws[k := Owned t])"
proof -
  have k: "Suc k < length ws" "\<forall>j<Suc k. \<not> word_unfinished (ws ! j)" using assms(2) by (auto simp: editing_def)
  then show "editing (ws[k := Owned t]) k t" by (auto simp: editing_def word_unfinished_def [of "Owned _"])
  have "\<forall>w\<in>set ws. settled w" by (rule settled_editing [OF assms(1,2)])
  moreover have "i \<noteq> k" if "j < i" "word_unfinished (ws[k := Owned t] ! j)" for i j
    using that k(2) by (cases "j = k") auto
  ultimately have "settled (ws[k := Owned t] ! i)"
    if "i < length ws" "j < i" "word_unfinished (ws[k := Owned t] ! j)" for i j
    using that by (metis nth_list_update_neq nth_mem)
  moreover have "\<forall>v\<in>set (ws[k := Owned t]). word_ok v"
    using assms(1,3,4) set_update_subset_insert [of ws k "Owned t"] by (auto simp: words_ok_def)
  ultimately show "words_ok (ws[k := Owned t])" using assms(1) by (simp add: words_ok_def)
qed

lemma backspace_ok:
  assumes "model_ok m" "bm_confirmed m" "editing (bm_words m) i s"
  shows "\<exists>m' ms. backspace m = Ok (m', ms) \<and> model_ok m' \<and>
    (\<not> bm_confirmed m' \<and> s = [] \<or>
     (\<exists>k t. bm_confirmed m' \<and> editing (bm_words m') k t \<and>
        (s \<noteq> [] \<longrightarrow> length (words_with_prefix s) \<le> 8 \<longrightarrow>
           t = [] \<or> 8 < length (words_with_prefix t) \<or> words_with_prefix t = words_with_prefix s)))"
proof (cases "s = []")
  case False
  obtain t ms where t: "delete_last (i + 1) s = (t, ms)" by fastforce
  have s: "starts_word s" "narrow s" using editing_word [OF assms(3)] assms(1) by (simp_all add: model_ok_def)
  note d = delete_last_word [OF t s(1) False]
  let ?m = "m\<lparr>bm_words := (bm_words m)[i := Owned t]\<rparr>"
  have "backspace m = Ok (?m, ms)" by (rule backspace_letter [OF assms(2,3) False t])
  moreover have "model_ok ?m" "bm_confirmed ?m" "editing (bm_words ?m) i t"
    using editing_model [OF assms d(1,2)] assms(2) by simp_all
  moreover have "t = [] \<or> 8 < length (words_with_prefix t) \<or> words_with_prefix t = words_with_prefix s"
    if "length (words_with_prefix s) \<le> 8"
    using delete_last_selected [OF t s(1) False _ s(2) that] by simp
  ultimately show ?thesis by blast
next
  case True
  note e = assms(3) [unfolded True]
  have ws: "words_ok (bm_words m)" "index_ok (bm_share_index m)" using assms(1) by (simp_all add: model_ok_def)
  have nil: "words_ok ((bm_words m)[i := Owned []])" "editing ((bm_words m)[i := Owned []]) i []"
    using words_ok_update [OF ws(1) e, of "Owned []"] editing_update_Owned [OF e] by (simp_all add: narrow_def)
  show ?thesis
  proof (cases i)
    case 0
    have "\<forall>w\<in>set ((bm_words m)[0 := Owned []]). settled w" using settled_editing [OF nil] 0 by simp
    then have "model_ok (m\<lparr>bm_confirmed := False, bm_words := (bm_words m)[0 := Owned []],
        bm_share_index := butlast (bm_share_index m)\<rparr>)"
      using nil(1) 0 index_ok_butlast [OF ws(2)] by (simp add: model_ok_def)
    then show ?thesis using backspace_first_word [of m] assms(2) e 0 True by auto
  next
    case (Suc k)
    let ?w = "cow_str (bm_words m ! k)" and ?ws = "(bm_words m)[Suc k := Owned []]"
    obtain t ms where t: "delete_last (k + 1) ?w = (t, ms)" by fastforce
    have k: "k < length (bm_words m)" "\<not> word_unfinished (bm_words m ! k)" "Suc k < length (bm_words m)"
      using e Suc by (auto simp: editing_def)
    have w: "?w \<in> set BIP39_WORDS" "?w \<noteq> []"
      using finished_in_table [OF ws(1) k(1,2)] by simp_all
    note d = delete_last_word [OF t table_starts_word [OF w(1)] w(2)]
    have "editing (?ws[k := Owned t]) k t" "words_ok (?ws[k := Owned t])"
      using words_ok_before [of ?ws k t] nil Suc d(1,2) by simp_all
    moreover from this have "model_ok (m\<lparr>bm_words := ?ws[k := Owned t]\<rparr>)" using assms(1,2) by (simp add: model_ok_def)
    ultimately show ?thesis
      using backspace_word_before [OF assms(2) e [unfolded Suc] t] assms(2) True by auto
  qed
qed

subsection \<open>The widgets and the model\<close>

text \<open>The widgets are those of what the model shows; and before they have caught up, they are such that
  they will be.\<close>

fun widgets_show :: "main_view_state \<Rightarrow> entry_screen \<Rightarrow> bool" where
  "widgets_show (EnterShareIndex current) s \<longleftrightarrow>
     es_entered s = None \<and> es_numeric s = Some (current \<noteq> []) \<and> es_selector s = None \<and> es_completion s = InProgress"
| "widgets_show (EnterWord letters) s \<longleftrightarrow>
     es_entered s = None \<and> es_numeric s = None \<and> es_selector s = None \<and> es_letters s = letters \<and>
     es_completion s = InProgress"
| "widgets_show (WordSelect current words) s \<longleftrightarrow>
     es_entered s = None \<and> es_numeric s = None \<and> es_selector s = Some words \<and> es_completion s = InProgress"
| "widgets_show (AllWordsEntered None) s \<longleftrightarrow>
     es_entered s = Some NUM_WORDS \<and> es_numeric s = None \<and> es_selector s = None \<and> es_completion s = Invalid"
| "widgets_show (AllWordsEntered (Some b)) s \<longleftrightarrow>
     es_entered s = Some NUM_WORDS \<and> es_numeric s = None \<and> es_selector s = None \<and>
     (es_completion s = Success \<or> (\<exists>t. es_completion s = SuccessDelay t))"

fun can_catch_up :: "main_view_state \<Rightarrow> entry_screen \<Rightarrow> bool" where
  "can_catch_up (EnterShareIndex current) s \<longleftrightarrow> es_selector s = None"
| "can_catch_up (WordSelect current words) s \<longleftrightarrow> es_numeric s = None \<and> (es_selector s = None \<or> es_selector s = Some words)"
| "can_catch_up v s \<longleftrightarrow> True"

definition screen_ok :: "crypto \<Rightarrow> entry_screen \<Rightarrow> bool" where
  "screen_ok C s \<longleftrightarrow> model_ok (es_model s) \<and> es_framebuffer s = shown (es_model s) \<and>
     (\<exists>v. views C (es_model s) v \<and>
       (if es_pending s then es_entered s = None \<and> es_completion s = InProgress \<and> can_catch_up v s else widgets_show v s))"

lemma update_ok:
  assumes "views C (es_model s) v" "es_completion s = InProgress" "can_catch_up v s" "es_entered s = None"
  shows "\<exists>s'. update_from_model C s = Ok s' \<and> widgets_show v s' \<and> es_model s' = es_model s \<and>
    es_framebuffer s' = es_framebuffer s \<and> es_pending s' = es_pending s"
proof -
  obtain vs where vs: "view_state_of C (es_model s) = Ok vs" "vs_main_view vs = v"
      "vs_row vs = NUM_WORDS \<or> \<not> (\<exists>b. v = AllWordsEntered b)"
    using assms(1) by (auto simp: views_def)
  show ?thesis
  proof (cases v)
    case (AllWordsEntered b)
    then show ?thesis using assms vs by (cases b) (simp_all add: update_from_model_def)
  qed (use assms vs in \<open>auto simp: update_from_model_def\<close>)
qed

text \<open>A key that leaves the update for later.\<close>

lemma pending_ok:
  assumes "r = Ok (m', ms)" "run_op e (es_model s) = r" "screen_ok C s" "model_ok m'" "views C m' v"
    and "es_entered s = None" "es_completion s = InProgress" "can_catch_up v s"
  shows "\<exists>s'. mark_pending (with_mutations r s) = Ok s' \<and> screen_ok C s'"
proof -
  have "length (bm_words (es_model s)) = NUM_WORDS" using assms(3) by (simp add: screen_ok_def model_ok_def words_ok_def)
  then have "apply_mutations ms (es_framebuffer s) = shown m'"
    using op_shown [of e "es_model s" m' ms] assms(1-3) by (simp add: screen_ok_def)
  moreover have "can_catch_up v (s\<lparr>es_model := m', es_framebuffer := fb, es_pending := True\<rparr>)" for fb
    using assms(8) by (cases v) simp_all
  ultimately show ?thesis using assms by (auto simp: mark_pending_def with_mutations_def screen_ok_def)
qed

lemma advance_simps [simp]:
  "advance_completion now InProgress = InProgress" "advance_completion now Invalid = Invalid"
  "advance_completion now Success = Success"
  by (simp_all add: advance_completion_def)

lemma advance_delay:
  "advance_completion now (SuccessDelay t) = Success \<or> (\<exists>u. advance_completion now (SuccessDelay t) = SuccessDelay u)"
  by (simp add: advance_completion_def Let_def)

lemma frame_ok:
  assumes "screen_ok C s"
  shows "\<exists>s'. draw_screen C now faded s = Ok s' \<and> screen_ok C s'"
proof -
  obtain v where v: "views C (es_model s) v"
      "if es_pending s then es_entered s = None \<and> es_completion s = InProgress \<and> can_catch_up v s else widgets_show v s"
    using assms by (auto simp: screen_ok_def)
  show ?thesis
  proof (cases "es_pending s \<and> faded")
    case True
    let ?s = "s\<lparr>es_completion := advance_completion now (es_completion s), es_pending := False\<rparr>"
    have "es_completion ?s = InProgress" "es_entered ?s = None" using True v(2) by simp_all
    moreover have "can_catch_up v ?s" using True v(2) by (cases v) simp_all
    ultimately obtain s' where "update_from_model C ?s = Ok s'" "widgets_show v s'" "es_model s' = es_model s"
        "es_framebuffer s' = es_framebuffer s" "\<not> es_pending s'"
      using update_ok [of C ?s v] v(1) by auto
    then show ?thesis using assms v(1) True by (auto simp: draw_screen_def screen_ok_def)
  next
    case False
    let ?s = "s\<lparr>es_completion := advance_completion now (es_completion s)\<rparr>"
    have "widgets_show v ?s" if "widgets_show v s"
    proof (cases v)
      case (AllWordsEntered b)
      then show ?thesis using that advance_delay [of now] by (cases b) (simp, fastforce)
    qed (use that in simp_all)
    moreover have "can_catch_up v ?s" if "can_catch_up v s" using that by (cases v) simp_all
    ultimately have "screen_ok C ?s" using assms v by (auto simp: screen_ok_def split: if_splits)
    then show ?thesis using False by (auto simp: draw_screen_def Let_def)
  qed
qed

lemma word_view_cases:
  obtains "s = []" "word_view s = EnterWord (get_valid_next_letters [])"
  | "s \<noteq> []" "8 < length (words_with_prefix s)" "word_view s = EnterWord (get_valid_next_letters s)"
  | "s \<noteq> []" "words_with_prefix s = []" "word_view s = EnterWord (get_valid_next_letters s)"
  | "s \<noteq> []" "words_with_prefix s \<noteq> []" "length (words_with_prefix s) \<le> 8" "word_view s = WordSelect s (words_with_prefix s)"
  by (cases "s = []"; cases "8 < length (words_with_prefix s)"; cases "words_with_prefix s = []") (auto simp: word_view_def Let_def)

text \<open>What is shown, for well-formed rows.\<close>

lemma views_cases:
  assumes "model_ok m" "views C m v"
  obtains (index) "\<not> bm_confirmed m" "v = EnterShareIndex (bm_share_index m)"
  | (letters) i s where "bm_confirmed m" "editing (bm_words m) i s" "s = [] \<or> 8 < length (words_with_prefix s)"
      "v = EnterWord (get_valid_next_letters s)"
  | (select) i s where "bm_confirmed m" "editing (bm_words m) i s" "s \<noteq> []" "length (words_with_prefix s) \<le> 8"
      "v = WordSelect s (words_with_prefix s)"
  | (all) b where "bm_confirmed m" "\<forall>w\<in>set (bm_words m). \<not> word_unfinished w" "v = AllWordsEntered b"
proof -
  have unique: "v = v'" if "views C m v'" for v' using assms(2) that by (auto simp: views_def)
  show ?thesis
  proof (cases "bm_confirmed m")
    case False
    then show ?thesis using unique [OF views_index] index by simp
  next
    case True
    show ?thesis
    proof (cases "\<forall>w\<in>set (bm_words m). \<not> word_unfinished w")
      case all_done: True
      then obtain n where "parse_u32 (bm_share_index m) = Some n"
        using index_parses assms(1) True by (auto simp: model_ok_def)
      then show ?thesis using unique [OF views_all] all True all_done by blast
    next
      case False
      then obtain i s where e: "editing (bm_words m) i s" using editing_exists by blast
      then have "words_with_prefix s \<noteq> []" using editing_word assms(1) matches_not_Nil by (auto simp: model_ok_def)
      then show ?thesis
        using unique [OF views_word [OF True e]] True e by (cases s rule: word_view_cases) (auto intro: letters select)
    qed
  qed
qed

subsection \<open>Every key that is offered\<close>

lemma pending_key:
  assumes "run_op e (es_model s) = Ok (m', ms)" "screen_ok C s" "model_ok m'"
    and "es_entered s = None" "es_completion s = InProgress" "\<forall>v. views C m' v \<longrightarrow> can_catch_up v s"
  shows "\<exists>s'. mark_pending (with_mutations (run_op e (es_model s)) s) = Ok s' \<and> screen_ok C s'"
proof -
  obtain v where "views C m' v" using views_exists [OF assms(3)] by blast
  then show ?thesis using pending_ok [OF assms(1) refl assms(2,3)] assms by auto
qed

lemma index_key_ok:
  assumes "screen_ok C s" "\<not> es_pending s" "offers s k" "\<not> bm_confirmed (es_model s)"
    and "widgets_show (EnterShareIndex (bm_share_index (es_model s))) s"
  shows "\<exists>s'. handle_key C k s = Ok s' \<and> screen_ok C s'"
proof -
  let ?m = "es_model s"
  have m: "model_ok ?m" using assms(1) by (simp add: screen_ok_def)
  have w: "es_entered s = None" "es_completion s = InProgress" "es_selector s = None" using assms(5) by simp_all
  have catch: "can_catch_up v s" if "views C m' v" "model_ok m'" "\<forall>i t. editing (bm_words m') i t \<longrightarrow> t = [] \<or> \<not> bm_confirmed m'" for m' v
    using that(2,1) by (cases rule: views_cases) (use that(3) w in auto)
  consider c where "k = KeyChar c" "to_digit c \<noteq> None" "c = CHR ''0'' \<longrightarrow> bm_share_index ?m \<noteq> []"
    | "k = KeyBackspace" | "k = KeyConfirm" "bm_share_index ?m \<noteq> []"
    using assms(3,5) by (cases k) (auto simp: offers_def)
  then show ?thesis
  proof cases
    case 1
    obtain m' ms where a: "add_character c ?m = Ok (m', ms)" "\<not> bm_confirmed m'" "model_ok m'"
      using add_digit [OF assms(4) m 1(2,3)] by blast
    then show ?thesis
      using pending_key [of "AddCharacter c" s m' ms C] assms(1) catch [of m'] w 1 by (simp add: is_alphanumeric_def)
  next
    case 2
    obtain ms where b: "backspace ?m = Ok (?m\<lparr>bm_share_index := butlast (bm_share_index ?m)\<rparr>, ms)"
      using backspace_index [OF assms(4)] by blast
    have "model_ok (?m\<lparr>bm_share_index := butlast (bm_share_index ?m)\<rparr>)"
      using m assms(4) by (simp add: model_ok_def index_ok_butlast)
    then show ?thesis using pending_key [of Backspace s _ ms C] b assms(1,4) catch w 2 by simp
  next
    case 3
    let ?m' = "?m\<lparr>bm_confirmed := True\<rparr>"
    have ok: "model_ok ?m'" using m assms(4) 3(2) by (simp add: model_ok_def)
    have "t = []" if "editing (bm_words ?m) i t" for i t
      using that m assms(4) by (auto simp: model_ok_def editing_def settled_def)
    then have "can_catch_up v s" if "views C ?m' v" for v using catch [OF that ok] by simp
    then have "\<exists>s'. mark_pending (with_mutations (complete_row (bm_share_index ?m) ?m) s) = Ok s' \<and> screen_ok C s'"
      using pending_key [of "CompleteRow (bm_share_index ?m)" s ?m' "[]" C] confirm_index [OF assms(4)] assms(1) ok w by simp
    then show ?thesis using 3(1) views_index [OF assms(4), of C] by (auto simp: views_def)
  qed
qed

lemma word_catch_up:
  assumes "views C m v" "model_ok m" "es_selector s = None" "es_numeric s = None"
  shows "can_catch_up v s"
  using assms(2,1) by (cases rule: views_cases) (use assms(3,4) in auto)

lemma letter_key_ok:
  assumes "screen_ok C s" "\<not> es_pending s" "offers s k" "bm_confirmed (es_model s)" "editing (bm_words (es_model s)) i t"
    and "t = [] \<or> 8 < length (words_with_prefix t)" "widgets_show (EnterWord (get_valid_next_letters t)) s"
  shows "\<exists>s'. handle_key C k s = Ok s' \<and> screen_ok C s'"
proof -
  let ?m = "es_model s"
  have m: "model_ok ?m" using assms(1) by (simp add: screen_ok_def)
  have w: "es_entered s = None" "es_completion s = InProgress" "es_selector s = None" "es_numeric s = None"
    using assms(7) by simp_all
  consider c where "k = KeyChar c" "is_valid_letter (get_valid_next_letters t) c" | "k = KeyBackspace"
    using assms(3,7) by (cases k) (auto simp: offers_def)
  then show ?thesis
  proof cases
    case 1
    obtain u ms where u: "add_character c ?m = Ok (?m\<lparr>bm_words := (bm_words ?m)[i := Owned u]\<rparr>, ms)" "starts_word u" "narrow u"
      using add_letter [OF assms(4,5) 1(2) assms(6)] by blast
    have "is_alphanumeric c" using 1(2) by (auto simp: is_alphanumeric_def is_valid_letter_def split: option.splits)
    then show ?thesis
      using pending_key [of "AddCharacter c" s _ ms C] u editing_model(1) [OF m assms(4,5) u(2,3)] assms(1) w word_catch_up 1(1) by simp
  next
    case 2
    obtain m' ms where b: "backspace ?m = Ok (m', ms)" "model_ok m'" using backspace_ok [OF m assms(4,5)] by blast
    then show ?thesis using pending_key [of Backspace s m' ms C] assms(1) w word_catch_up 2 by simp
  qed
qed

lemma selector_key_ok:
  assumes "screen_ok C s" "\<not> es_pending s" "offers s k" "bm_confirmed (es_model s)" "editing (bm_words (es_model s)) i t"
    and "t \<noteq> []" "length (words_with_prefix t) \<le> 8" "widgets_show (WordSelect t (words_with_prefix t)) s"
  shows "\<exists>s'. handle_key C k s = Ok s' \<and> screen_ok C s'"
proof -
  let ?m = "es_model s"
  have m: "model_ok ?m" using assms(1) by (simp add: screen_ok_def)
  have w: "es_entered s = None" "es_completion s = InProgress" "es_selector s = Some (words_with_prefix t)" "es_numeric s = None"
    using assms(8) by simp_all
  consider v where "k = KeyWord v" "v \<in> set (words_with_prefix t)" | "k = KeyBackspace"
    using assms(3,8) by (cases k) (auto simp: offers_def)
  then show ?thesis
  proof cases
    case 1
    then have v: "v \<in> set BIP39_WORDS" by (simp add: matches_iff)
    let ?m' = "?m\<lparr>bm_words := (bm_words ?m)[i := Borrowed v]\<rparr>"
    have ok: "model_ok ?m'" using m assms(4,5) v words_ok_update [of "bm_words ?m" i t "Borrowed v"] by (simp add: model_ok_def)
    have next_word: "u = []" if "editing (bm_words ?m') j u" for j u
      using finished_next [of "bm_words ?m" i t v j u] m assms(5) v that by (simp add: model_ok_def)
    have "can_catch_up x s" if "views C ?m' x" for x
      using ok that by (cases rule: views_cases) (use next_word assms(4) in auto)
    then show ?thesis
      using pending_key [of "CompleteRow v" s ?m'] select_word [OF assms(4,5) v] ok assms(1) w 1(1) by fastforce
  next
    case 2
    obtain m' ms j u where b: "backspace ?m = Ok (m', ms)" "model_ok m'" "bm_confirmed m'" "editing (bm_words m') j u"
        "u = [] \<or> 8 < length (words_with_prefix u) \<or> words_with_prefix u = words_with_prefix t"
      using backspace_ok [OF m assms(4,5)] assms(6,7) by blast
    have "x = word_view u" if "views C m' x" for x
      using that views_word [OF b(3,4), of C] by (auto simp: views_def)
    moreover have "can_catch_up (word_view u) s" by (cases u rule: word_view_cases) (use b(5) w in auto)
    ultimately have catch: "\<forall>x. views C m' x \<longrightarrow> can_catch_up x s" by blast
    have "run_op Backspace ?m = Ok (m', ms)" using b(1) by simp
    from pending_key [OF this assms(1) b(2) w(1,2) catch] show ?thesis using 2 by simp
  qed
qed

lemma invalid_key_ok:
  assumes "screen_ok C s" "\<not> es_pending s" "offers s k" "bm_confirmed (es_model s)"
    and "\<forall>w\<in>set (bm_words (es_model s)). \<not> word_unfinished w" "widgets_show (AllWordsEntered b) s"
  shows "\<exists>s'. handle_key C k s = Ok s' \<and> screen_ok C s'"
proof -
  let ?m = "es_model s"
  have m: "model_ok ?m" and fb: "es_framebuffer s = shown ?m" using assms(1) by (simp_all add: screen_ok_def)
  have len: "length (bm_words ?m) = NUM_WORDS" using m by (simp add: model_ok_def words_ok_def)
  have w: "es_entered s = Some NUM_WORDS" "es_numeric s = None" "es_selector s = None"
    using assms(6) by (cases b; simp)+
  then obtain row where k: "k = KeyEditWord row" "row \<le> NUM_WORDS"
    using assms(3,6) by (cases b; cases k) (auto simp: offers_def split: completion_state.splits)
  obtain m' ms where e: "edit_row row ?m = Ok (m', ms)" "model_ok m'"
      "\<not> bm_confirmed m' \<or> (\<exists>i. editing (bm_words m') i [])"
  proof (cases row)
    case 0
    have "\<forall>w\<in>set (bm_words ?m). settled w" using assms(5) by (simp add: settled_def)
    then show ?thesis using 0 m that by (simp add: edit_row_def Let_def model_ok_def index_ok_def)
  next
    case (Suc i)
    then have "i < length (bm_words ?m)" using k(2) len by simp
    then have "words_ok ((bm_words ?m)[i := Owned []])" "editing ((bm_words ?m)[i := Owned []]) i []"
      using all_finished_update [OF _ assms(5)] m by (simp_all add: model_ok_def)
    then show ?thesis
      using that \<open>i < length (bm_words ?m)\<close> m assms(4) Suc by (auto simp: edit_row_def Let_def model_ok_def)
  qed
  let ?s = "s\<lparr>es_model := m', es_framebuffer := shown m', es_completion := InProgress\<rparr>"
  have "apply_mutations ms (shown ?m) = shown m'" using op_shown [of "EditRow row"] e(1) len by simp
  then have step: "handle_key C k s = and_then (update_from_model C ?s) (\<lambda>s. Ok (s\<lparr>es_entered := None\<rparr>))"
    using k(1) e(1) fb by (simp add: with_mutations_def)
  obtain v where v: "views C m' v" "(\<exists>x. v = EnterShareIndex x) \<or> (\<exists>l. v = EnterWord l)"
    using e(3) views_index [of m' C] views_word [of m' _ "[]" C] by (cases "bm_confirmed m'") (auto simp: word_view_def)
  then obtain vs where vs: "view_state_of C m' = Ok vs" "vs_main_view vs = v" by (auto simp: views_def)
  then have "\<exists>s'. handle_key C k s = Ok s' \<and> widgets_show v s' \<and> es_model s' = m' \<and> es_framebuffer s' = shown m' \<and> \<not> es_pending s'"
    using step v(2) w assms(2) by (auto simp: update_from_model_def)
  then show ?thesis using e(2) v(1) by (auto simp: screen_ok_def)
qed

lemma key_ok:
  assumes "screen_ok C s" "\<not> es_pending s" "offers s k"
  shows "\<exists>s'. handle_key C k s = Ok s' \<and> screen_ok C s'"
proof -
  obtain v where v: "views C (es_model s) v" "widgets_show v s" "model_ok (es_model s)"
    using assms(1,2) by (auto simp: screen_ok_def)
  from v(3,1) show ?thesis
    by (cases rule: views_cases)
      (use assms v(2) index_key_ok letter_key_ok selector_key_ok invalid_key_ok in blast)+
qed

lemma start_ok: "\<exists>s. update_from_model C new_entry_screen = Ok s \<and> screen_ok C s"
proof -
  have ws: "\<forall>w\<in>set (bm_words new_backup_model). word_ok w \<and> settled w"
    by (simp add: new_backup_model_def settled_def)
  then have m: "model_ok new_backup_model"
    by (auto simp: model_ok_def words_ok_def index_ok_def) (simp_all add: new_backup_model_def)
  have "shown new_backup_model = (\<lambda>row pos. None)"
    by (intro ext) (simp add: shown_def row_text_def cells_def new_backup_model_def)
  then show ?thesis
    using update_ok [of C new_entry_screen "EnterShareIndex []"] views_index [of new_backup_model C] m
    by (fastforce simp: new_entry_screen_def screen_ok_def new_backup_model_def)
qed

lemma step_ok: "entry_step C s s' \<Longrightarrow> screen_ok C s \<Longrightarrow> screen_ok C s'"
proof (induction rule: entry_step.induct)
  case (tap s k s')
  then show ?case using key_ok [of C s k] by auto
next
  case (frame now faded s s')
  then show ?case using frame_ok [of C s now faded] by auto
qed

lemma reachable_ok: "entry_reachable C s \<Longrightarrow> screen_ok C s"
proof (induction rule: entry_reachable.induct)
  case (start s)
  then show ?case using start_ok [of C] by auto
qed (rule step_ok)

subsection \<open>A run for every backup\<close>

lemma update_keeps:
  "update_from_model C s = Ok s' \<Longrightarrow> es_model s' = es_model s \<and> es_pending s' = es_pending s"
proof -
  assume u: "update_from_model C s = Ok s'"
  then obtain view where "view_state_of C (es_model s) = Ok view" by (auto simp: update_from_model_def result_iff)
  then show ?thesis using u by (cases "vs_main_view view") (auto simp: update_from_model_def)
qed

text \<open>Pressing a key and waiting for the widgets.\<close>

lemma press:
  assumes "entry_reachable C s" "\<not> es_pending s" "offers s k" "run_op e (es_model s) = Ok (m', ms)"
    and "handle_key C k s = mark_pending (with_mutations (run_op e (es_model s)) s)"
  shows "\<exists>s'. entry_reachable C s' \<and> \<not> es_pending s' \<and> es_model s' = m'"
proof -
  obtain s1 where s1: "handle_key C k s = Ok s1" "es_pending s1" "es_model s1 = m'"
    using assms(4,5) by (simp add: mark_pending_def with_mutations_def)
  have reach: "entry_reachable C s1" using assms(1-3) s1(1) by (blast intro: entry_reachable.step entry_step.tap)
  obtain s2 where s2: "draw_screen C 0 True s1 = Ok s2" using frame_ok [OF reachable_ok [OF reach]] by blast
  then have "es_model s2 = m'" "\<not> es_pending s2"
    using s1(2,3) by (auto simp: draw_screen_def Let_def dest: update_keeps)
  then show ?thesis using entry_reachable.step [OF reach entry_step.frame [OF s2]] by blast
qed

lemma widgets:
  assumes "entry_reachable C s" "\<not> es_pending s"
  obtains v where "views C (es_model s) v" "widgets_show v s" "model_ok (es_model s)"
  using reachable_ok [OF assms(1)] assms(2) by (auto simp: screen_ok_def)

lemma type_word:
  "entry_reachable C s \<Longrightarrow> \<not> es_pending s \<Longrightarrow> bm_confirmed (es_model s) \<Longrightarrow> editing (bm_words (es_model s)) i t \<Longrightarrow>
   prefix t w \<Longrightarrow> w \<in> set BIP39_WORDS \<Longrightarrow>
   \<exists>s'. entry_reachable C s' \<and> \<not> es_pending s' \<and>
     es_model s' = (es_model s)\<lparr>bm_words := (bm_words (es_model s))[i := Borrowed w]\<rparr>"
proof (induction "length w - length t" arbitrary: s t rule: less_induct)
  case less
  note prems = less.prems
  let ?m = "es_model s"
  obtain v where v: "views C ?m v" "widgets_show v s" "model_ok ?m" using widgets [OF prems(1,2)] .
  from v(3,1) show ?case
  proof (cases rule: views_cases)
    case (letters j u)
    then have "u = t" "j = i" using editing_idx [OF prems(4)] editing_idx [OF letters(2)] prems(4) by (auto simp: editing_def)
    then have t: "t = [] \<or> 8 < length (words_with_prefix t)" using letters by simp
    obtain r where r: "w = t @ r" using prems(5) by (auto simp: prefix_def)
    moreover have "r \<noteq> []" using t BIP39_count [OF prems(6)] BIP39_letters [OF prems(6)] r by auto
    ultimately obtain c r' where c: "w = t @ c # r'" by (cases r) auto
    then have valid: "is_valid_letter (get_valid_next_letters t) c" using next_letters [of t c] prems(6) by blast
    obtain t' ms where t': "add_character c ?m = Ok (?m\<lparr>bm_words := (bm_words ?m)[i := Owned t']\<rparr>, ms)"
        "prefix t' w" "length t < length t'"
      using add_letter [OF prems(3,4) valid t] c prems(6) by (auto simp: prefix_def)
    have "is_alphanumeric c" using valid by (auto simp: is_alphanumeric_def is_valid_letter_def split: option.splits)
    then obtain s1 where s1: "entry_reachable C s1" "\<not> es_pending s1" "es_model s1 = ?m\<lparr>bm_words := (bm_words ?m)[i := Owned t']\<rparr>"
      using press [OF prems(1,2), of "KeyChar c" "AddCharacter c"] t'(1) valid v(2) letters \<open>u = t\<close> by (auto simp: offers_def)
    have "length w - length t' < length w - length t" using t'(2,3) by (auto simp: prefix_def)
    then show ?thesis
      using less.hyps [OF _ s1(1,2) _ _ t'(2) prems(6)] s1(3) prems(3) editing_update_Owned [OF prems(4), of t'] by simp
  next
    case (select j u)
    then have "u = t" "j = i" using editing_idx [OF prems(4)] editing_idx [OF select(2)] prems(4) by (auto simp: editing_def)
    then have "offers s (KeyWord w)" using select v(2) prems(5,6) by (simp add: offers_def matches_iff)
    moreover obtain ms where "complete_row w ?m = Ok (?m\<lparr>bm_words := (bm_words ?m)[i := Borrowed w]\<rparr>, ms)"
      using select_word [OF prems(3,4,6)] by blast
    ultimately show ?thesis using press [OF prems(1,2), of "KeyWord w" "CompleteRow w"] by simp
  next
    case index
    then show ?thesis using prems(3) by simp
  next
    case (all b)
    then show ?thesis using prems(4) by (auto simp: editing_def)
  qed
qed

lemma type_words:
  assumes "entry_reachable C s" "\<not> es_pending s" "es_model s = \<lparr>bm_share_index = x, bm_confirmed = True, bm_words = replicate 25 (Borrowed [])\<rparr>"
    and "length ws = 25" "set ws \<subseteq> set BIP39_WORDS"
  shows "k \<le> 25 \<Longrightarrow> \<exists>s'. entry_reachable C s' \<and> \<not> es_pending s' \<and>
    es_model s' = \<lparr>bm_share_index = x, bm_confirmed = True, bm_words = map Borrowed (take k ws) @ replicate (25 - k) (Borrowed [])\<rparr>"
proof (induction k)
  case (Suc k)
  let ?done = "map Borrowed (take k ws)"
  obtain s1 where s1: "entry_reachable C s1" "\<not> es_pending s1"
      "es_model s1 = \<lparr>bm_share_index = x, bm_confirmed = True, bm_words = ?done @ replicate (25 - k) (Borrowed [])\<rparr>"
    using Suc by auto
  have w: "ws ! k \<in> set BIP39_WORDS" using assms(4,5) Suc.prems nth_mem [of k ws] by auto
  have rep: "replicate (25 - k) (Borrowed []) = Borrowed [] # replicate (25 - Suc k) (Borrowed [])"
    using Suc.prems by (metis Suc_diff_le Suc_le_mono diff_Suc_Suc replicate_Suc)
  have len: "length ?done = k" using assms(4) Suc.prems by simp
  have "\<not> word_unfinished (?done ! j)" if "j < k" for j
  proof -
    have "ws ! j \<in> set BIP39_WORDS" using assms(4,5) Suc.prems nth_mem [of j ws] that by auto
    then show ?thesis using BIP39_letters [of "ws ! j"] that len by (simp add: word_unfinished_def)
  qed
  then have "editing (bm_words (es_model s1)) k []"
    using len Suc.prems by (auto simp: editing_def s1(3) rep nth_append word_unfinished_def [of "Borrowed []"])
  then obtain s2 where "entry_reachable C s2" "\<not> es_pending s2"
      "es_model s2 = (es_model s1)\<lparr>bm_words := (bm_words (es_model s1))[k := Borrowed (ws ! k)]\<rparr>"
    using type_word [OF s1(1,2), of k "[]" "ws ! k"] s1(3) w by auto
  moreover have "(?done @ replicate (25 - k) (Borrowed []))[k := Borrowed (ws ! k)] =
      map Borrowed (take (Suc k) ws) @ replicate (25 - Suc k) (Borrowed [])"
    using len assms(4) Suc.prems by (simp add: rep list_update_append take_Suc_conv_app_nth)
  ultimately show ?case using s1(3) by auto
qed (use assms in auto)

text \<open>The share index, digit by digit.\<close>

lemma show_decimal_index:
  assumes "0 < n" "n < 10 ^ k" "0 < k"
  shows "length (show_decimal n) \<le> k \<and> hd (show_decimal n) \<noteq> CHR ''0''"
  using assms
proof (induction n arbitrary: k rule: show_decimal.induct)
  case (1 n)
  show ?case
  proof (cases "n < 10")
    case True
    have "(of_char (digit_char n) :: nat) \<noteq> of_char (CHR ''0'')" using digit_char_of [OF True] 1(2) by simp
    then have "digit_char n \<noteq> CHR ''0''" by metis
    then show ?thesis using True 1(4) by (simp add: show_decimal.simps [of n])
  next
    case False
    then obtain l where l: "k = Suc l" "0 < l" using 1(3,4) by (cases k; cases "k - 1") auto
    then have "0 < n div 10" "n div 10 < 10 ^ l" using False 1(3) by (simp_all add: div_less_iff_less_mult mult.commute)
    then have "length (show_decimal (n div 10)) \<le> l \<and> hd (show_decimal (n div 10)) \<noteq> CHR ''0''"
      using 1(1) [OF False] l(2) by blast
    then show ?thesis using False l by (simp add: show_decimal.simps [of n] hd_append)
  qed
qed

lemma decimal_index_ok: "0 < n \<Longrightarrow> n < 10 ^ 7 \<Longrightarrow> index_ok (show_decimal n)"
proof -
  assume n: "0 < n" "n < 10 ^ 7"
  have "to_digit c \<noteq> None" if "c \<in> set (show_decimal n)" for c using show_decimal_digits [OF that] by auto
  then show ?thesis using show_decimal_index [of n 7] n by (simp add: index_ok_def)
qed

lemma type_index:
  assumes "index_ok d" "d \<noteq> []"
  shows "k \<le> length d \<Longrightarrow> \<exists>s. entry_reachable C s \<and> \<not> es_pending s \<and> es_model s = new_backup_model\<lparr>bm_share_index := take k d\<rparr>"
proof (induction k)
  case 0
  obtain s where s: "update_from_model C new_entry_screen = Ok s" using start_ok by blast
  then have "es_model s = new_backup_model" "\<not> es_pending s" using update_keeps [OF s] by (simp_all add: new_entry_screen_def)
  then show ?case using entry_reachable.start [OF s] by (intro exI [of _ s]) (simp add: new_backup_model_def)
next
  case (Suc k)
  obtain s where s: "entry_reachable C s" "\<not> es_pending s" "es_model s = new_backup_model\<lparr>bm_share_index := take k d\<rparr>"
    using Suc by auto
  obtain v where v: "views C (es_model s) v" "widgets_show v s" using widgets [OF s(1,2)] .
  have m: "\<not> bm_confirmed (es_model s)" "bm_share_index (es_model s) = take k d" by (simp_all add: s(3) new_backup_model_def)
  then have "v = EnterShareIndex (take k d)" using v(1) views_index [OF m(1), of C] by (auto simp: views_def)
  then have w: "es_entered s = None" "es_completion s = InProgress" "es_numeric s = Some (take k d \<noteq> [])" using v(2) by simp_all
  have c: "to_digit (d ! k) \<noteq> None" "length d \<le> 7" using assms(1) Suc.prems nth_mem [of k d] by (auto simp: index_ok_def)
  have "take k d \<noteq> []" if "d ! k = CHR ''0''" using that assms by (cases k) (auto simp: index_ok_def hd_conv_nth)
  then have off: "offers s (KeyChar (d ! k))" using w c(1) by (auto simp: offers_def)
  have "add_character (d ! k) (es_model s) = Ok (new_backup_model\<lparr>bm_share_index := take (Suc k) d\<rparr>, [SetCharacter 0 k (d ! k)])"
    using current_index [OF m(1)] m(2) c(2) Suc.prems
    by (simp add: add_character_def Let_def write_current_def s(3) take_Suc_conv_app_nth)
  then show ?case
    using press [OF s(1,2) off, of "AddCharacter (d ! k)"] c(1) by (simp add: is_alphanumeric_def)
qed

text \<open>After all words are entered, the delay passes.\<close>

lemma delay_passes:
  assumes "entry_reachable C s" "\<not> es_pending s" "views C (es_model s) (AllWordsEntered (Some b))"
  shows "\<exists>s'. entry_reachable C s' \<and> is_finished s' \<and> entered_backup C s' = Ok (Some b)"
proof -
  obtain v where v: "views C (es_model s) v" "widgets_show v s" using widgets [OF assms(1,2)] .
  then have "widgets_show (AllWordsEntered (Some b)) s" using assms(3) by (auto simp: views_def)
  then consider "es_completion s = Success" | t where "es_completion s = SuccessDelay t" by auto
  then obtain s' where s': "entry_reachable C s'" "es_completion s' = Success" "es_model s' = es_model s"
  proof cases
    case 2
    let ?t = "case t of None \<Rightarrow> 0 | Some t \<Rightarrow> t"
    let ?s1 = "s\<lparr>es_completion := SuccessDelay (Some ?t)\<rparr>"
    have "draw_screen C 0 False s = Ok ?s1"
      using 2 by (simp add: draw_screen_def advance_completion_def SUCCESS_DELAY_MS_def split: option.split)
    then have "entry_reachable C ?s1" using assms(1) by (blast intro: entry_reachable.step entry_step.frame)
    moreover have "draw_screen C (?t + 1000) False ?s1 = Ok (?s1\<lparr>es_completion := Success\<rparr>)"
      by (simp add: draw_screen_def advance_completion_def SUCCESS_DELAY_MS_def)
    ultimately show ?thesis using that [of "?s1\<lparr>es_completion := Success\<rparr>"] by (auto intro: entry_reachable.step entry_step.frame)
  qed (use assms(1) that in blast)
  then show ?thesis using assms(3) by (auto simp: is_finished_def entered_backup_def views_def)
qed

lemma backup_entered:
  assumes "backup_valid C b" "sh_index (sb_share b) < 10 ^ 7"
  shows "\<exists>s. entry_reachable C s \<and> is_finished s \<and> entered_backup C s = Ok (Some b)"
proof -
  let ?n = "sh_index (sb_share b)"
  let ?d = "show_decimal ?n"
  have n: "0 < ?n" "?n \<le> u32_max" using assms(1) by (simp_all add: backup_valid_def)
  obtain ws where ws: "length ws = 25" "set ws \<subseteq> set BIP39_WORDS" "from_words C ?n ws = Ok b"
    using encoding_decodes [OF assms(1)] by blast
  note d = decimal_index_ok [OF n(1) assms(2)]
  obtain s where s: "entry_reachable C s" "\<not> es_pending s" "es_model s = new_backup_model\<lparr>bm_share_index := ?d\<rparr>"
    using type_index [OF d show_decimal_not_Nil, of "length ?d" C] by auto
  have m: "\<not> bm_confirmed (es_model s)" "bm_share_index (es_model s) = ?d" by (simp_all add: s(3) new_backup_model_def)
  obtain v where v: "views C (es_model s) v" "widgets_show v s" using widgets [OF s(1,2)] .
  then have "widgets_show (EnterShareIndex ?d) s" using views_index [OF m(1), of C] m(2) by (auto simp: views_def)
  then have "offers s KeyConfirm" by (simp add: offers_def)
  moreover have "handle_key C KeyConfirm s = mark_pending (with_mutations (complete_row ?d (es_model s)) s)"
    using views_index [OF m(1), of C] m(2) by (auto simp: views_def)
  ultimately obtain s1 where s1: "entry_reachable C s1" "\<not> es_pending s1" "es_model s1 = (es_model s)\<lparr>bm_confirmed := True\<rparr>"
    using press [OF s(1,2), of KeyConfirm "CompleteRow ?d"] confirm_index [OF m(1)] m(2) by auto
  then have "es_model s1 = \<lparr>bm_share_index = ?d, bm_confirmed = True, bm_words = replicate 25 (Borrowed [])\<rparr>"
    by (simp add: s(3) new_backup_model_def NUM_WORDS_def)
  then obtain s2 where s2: "entry_reachable C s2" "\<not> es_pending s2"
      "es_model s2 = \<lparr>bm_share_index = ?d, bm_confirmed = True, bm_words = map Borrowed ws\<rparr>"
    using type_words [OF s1(1,2) _ ws(1,2), of ?d 25] ws(1) by auto
  have "\<not> word_unfinished (Borrowed w)" if "w \<in> set ws" for w
    using that ws(2) BIP39_letters [of w] by (auto simp: word_unfinished_def)
  moreover have "map (cow_str \<circ> Borrowed) ws = ws" by (simp add: comp_def)
  ultimately have "views C (es_model s2) (AllWordsEntered (Some b))"
    using views_all [of "es_model s2" ?n C] parse_u32_show [OF n(2)] ws(3) s2(3) by simp
  then show ?thesis using delay_passes [OF s2(1,2)] by blast
qed

subsection \<open>Properties\<close>

text \<open>C9. Entering a backup never panics: in every state of the screen that offered keys and frames lead
  to, every key it offers is handled, and so is the next frame; the framebuffer then shows the rows of the
  model. This rests on what the screen offers: the model alone has an \<^verbatim>\<open>unreachable!\<close> that a letter after
  the last word would reach, and an \<^verbatim>\<open>expect\<close> that an empty share index would fail.\<close>

theorem entry_never_panics:
  assumes "entry_reachable C s" "\<not> es_pending s" "offers s k"
  shows "\<exists>s' s''. handle_key C k s = Ok s' \<and> draw_screen C now faded s' = Ok s'' \<and>
    es_framebuffer s' = shown (es_model s') \<and> es_framebuffer s'' = shown (es_model s'')"
proof -
  obtain s' where s': "handle_key C k s = Ok s'" "screen_ok C s'"
    using key_ok [OF reachable_ok [OF assms(1)] assms(2,3)] by blast
  obtain s'' where "draw_screen C now faded s' = Ok s''" "screen_ok C s''" using frame_ok [OF s'(2)] by blast
  then show ?thesis using s' by (auto simp: screen_ok_def)
qed

text \<open>The widgets fit the model: whenever no update is pending, the keyboard, selector or list that
  is up is the one for what the model shows, a selector holds exactly the words that match, letters are
  enabled as the model says, and the screen reports success only with a backup to hand over.\<close>

theorem widgets_fit_model:
  assumes "entry_reachable C s" "\<not> es_pending s"
  shows "\<exists>view. view_state_of C (es_model s) = Ok view \<and> widgets_show (vs_main_view view) s \<and>
    (is_finished s \<longleftrightarrow> es_completion s = Success \<and> (\<exists>b. entered_backup C s = Ok (Some b)))"
proof -
  obtain v where v: "views C (es_model s) v" "widgets_show v s" using widgets [OF assms] .
  then obtain view where view: "view_state_of C (es_model s) = Ok view" "vs_main_view view = v" by (auto simp: views_def)
  moreover have "\<exists>b. v = AllWordsEntered (Some b)" if "es_completion s = Success"
    using v(2) that by (cases "(v, s)" rule: widgets_show.cases) auto
  ultimately show ?thesis using v(2) by (auto simp: is_finished_def entered_backup_def)
qed

text \<open>C8. Every backup can be entered: for every valid share backup with an index of at most seven
  digits, offered keys and frames lead from the fresh screen to one that reports success and hands over
  that very backup.\<close>

theorem every_backup_can_be_entered:
  assumes "backup_valid C b" "sh_index (sb_share b) < 10 ^ 7"
  shows "\<exists>s. entry_reachable C s \<and> is_finished s \<and> entered_backup C s = Ok (Some b)"
  by (rule backup_entered [OF assms])

theorem every_backup_can_be_entered_witness:
  "\<exists>s. entry_reachable demo_crypto s \<and> is_finished s \<and>
    entered_backup demo_crypto s = Ok (Some \<lparr>sb_share = \<lparr>sh_index = 12, sh_scalar = replicate 32 171\<rparr>, sb_poly_checksum = 200\<rparr>)"
  by (rule every_backup_can_be_entered) (simp_all add: backup_valid_def u32_max_def demo_crypto_def)

text \<open>The fresh screen, on which the first digit can be pressed.\<close>

definition demo_screen :: entry_screen where
  "demo_screen = new_entry_screen\<lparr>es_numeric := Some False\<rparr>"

lemma demo_screen_reachable: "entry_reachable demo_crypto demo_screen" "\<not> es_pending demo_screen"
  "offers demo_screen (KeyChar (CHR ''7''))"
  by (rule entry_reachable.start)
    (simp_all add: update_from_model_def view_state_of_def demo_screen_def new_entry_screen_def new_backup_model_def
      Let_def offers_def to_digit_def)

theorem entry_never_panics_witness:
  "\<exists>s' s''. handle_key demo_crypto (KeyChar (CHR ''7'')) demo_screen = Ok s' \<and> draw_screen demo_crypto 5 True s' = Ok s'' \<and>
    es_framebuffer s' = shown (es_model s') \<and> es_framebuffer s'' = shown (es_model s'')"
  by (rule entry_never_panics [OF demo_screen_reachable])

theorem widgets_fit_model_witness:
  "\<exists>view. view_state_of demo_crypto (es_model demo_screen) = Ok view \<and> widgets_show (vs_main_view view) demo_screen \<and>
    (is_finished demo_screen \<longleftrightarrow>
      es_completion demo_screen = Success \<and> (\<exists>b. entered_backup demo_crypto demo_screen = Ok (Some b)))"
  by (rule widgets_fit_model [OF demo_screen_reachable(1,2)])

end
