(* ===== verification/Flash.thy ===== *)
theory Flash
  imports Prelude
begin

section \<open>Partitions of the flash\<close>

text \<open>
  Models \<^verbatim>\<open>frostsnap_embedded/src/partition.rs\<close>: ranges of sectors of one NOR flash, and the
  buffered writer and the reader that \<^verbatim>\<open>bincode\<close> uses on them. The driver of the flash is not in the
  repository and a parameter; \<open>flash_ok\<close> states what the \<^verbatim>\<open>NorFlash\<close> trait documents of it. The one driver
  the repository has, the flash of its tests, is shown to be one in \<open>NorLogProps\<close>. The tag of a partition, which only debug output shows, is left out.
\<close>

datatype flash_error = NotAligned | OutOfBounds | OtherFlashError

record 's nor_flash =
  nf_write_size :: nat
  nf_erase_size :: nat
  nf_capacity :: nat
  nf_read :: "nat \<Rightarrow> nat \<Rightarrow> 's \<Rightarrow> (flash_error, bytes) result"
  nf_write :: "nat \<Rightarrow> bytes \<Rightarrow> 's \<Rightarrow> 's \<times> (flash_error, unit) result"
  nf_erase :: "nat \<Rightarrow> nat \<Rightarrow> 's \<Rightarrow> 's \<times> (flash_error, unit) result"

record flash_partition =
  fp_offset_sector :: nat
  fp_n_sectors :: nat

definition SECTOR_SIZE :: nat where
  "SECTOR_SIZE = 4096"

definition u32_mul :: "nat \<Rightarrow> nat \<Rightarrow> nat" where
  "u32_mul a b = (a * b) mod 4294967296"

subsection \<open>Reading, writing and erasing\<close>

definition partition_size :: "flash_partition \<Rightarrow> nat" where
  "partition_size p = u32_mul (fp_n_sectors p) SECTOR_SIZE"

definition abs_offset :: "flash_partition \<Rightarrow> nat \<Rightarrow> nat" where
  "abs_offset p offset = u32_add offset (u32_mul (fp_offset_sector p) SECTOR_SIZE)"

definition nor_write :: "'s nor_flash \<Rightarrow> flash_partition \<Rightarrow> nat \<Rightarrow> bytes \<Rightarrow> 's \<Rightarrow> 's \<times> (flash_error, unit) result" where
  "nor_write F p offset bytes s =
     (if partition_size p < u32_saturating_add offset (u32_of_usize (length bytes)) then (s, Err OutOfBounds)
      else nf_write F (abs_offset p offset) bytes s)"

definition nor_write_sector :: "'s nor_flash \<Rightarrow> flash_partition \<Rightarrow> nat \<Rightarrow> bytes \<Rightarrow> 's \<Rightarrow> 's \<times> (flash_error, unit) result" where
  "nor_write_sector F p sector bytes s = nor_write F p (u32_mul sector SECTOR_SIZE) bytes s"

definition flash_read :: "'s nor_flash \<Rightarrow> flash_partition \<Rightarrow> nat \<Rightarrow> nat \<Rightarrow> 's \<Rightarrow> (flash_error, bytes) result" where
  "flash_read F p offset len s =
     (if partition_size p < u32_saturating_add offset (u32_of_usize len) then Err OutOfBounds
      else nf_read F (abs_offset p offset) len s)"

definition read_sector :: "'s nor_flash \<Rightarrow> flash_partition \<Rightarrow> nat \<Rightarrow> 's \<Rightarrow> (flash_error, bytes) result" where
  "read_sector F p sector s = flash_read F p (u32_mul sector SECTOR_SIZE) SECTOR_SIZE s"

definition erase_sector :: "'s nor_flash \<Rightarrow> flash_partition \<Rightarrow> nat \<Rightarrow> 's \<Rightarrow> 's \<times> (flash_error, unit) result" where
  "erase_sector F p sector s =
     (if fp_n_sectors p \<le> sector then (s, Err OutOfBounds)
      else let sector = u32_add (fp_offset_sector p) sector
           in nf_erase F (u32_mul sector SECTOR_SIZE) (u32_mul (u32_add sector 1) SECTOR_SIZE) s)"

definition erase_sectors :: "'s nor_flash \<Rightarrow> flash_partition \<Rightarrow> nat \<Rightarrow> nat \<Rightarrow> 's \<Rightarrow> 's \<times> (flash_error, unit) result" where
  "erase_sectors F p start_sector cnt s =
     (let end_sector = u32_add start_sector cnt
      in if fp_n_sectors p < end_sector then (s, Err OutOfBounds)
         else nf_erase F (u32_mul (u32_add (fp_offset_sector p) start_sector) SECTOR_SIZE)
                (u32_mul (u32_add (fp_offset_sector p) end_sector) SECTOR_SIZE) s)"

definition erase_all :: "'s nor_flash \<Rightarrow> flash_partition \<Rightarrow> 's \<Rightarrow> 's \<times> (flash_error, unit) result" where
  "erase_all F p s =
     (let start = u32_mul (fp_offset_sector p) SECTOR_SIZE
      in nf_erase F start (u32_add start (partition_size p)) s)"

text \<open>\<^verbatim>\<open>is_empty\<close>, which stops at the first sector that is not blank or cannot be read.\<close>

fun sectors_empty :: "'s nor_flash \<Rightarrow> flash_partition \<Rightarrow> nat list \<Rightarrow> 's \<Rightarrow> (flash_error, bool) result" where
  "sectors_empty F p [] s = Ok True"
| "sectors_empty F p (sector # sectors) s =
     and_then (read_sector F p sector s) (\<lambda>data.
     if list_ex (\<lambda>b. b \<noteq> 255) data then Ok False else sectors_empty F p sectors s)"

definition partition_is_empty :: "'s nor_flash \<Rightarrow> flash_partition \<Rightarrow> 's \<Rightarrow> (flash_error, bool) result" where
  "partition_is_empty F p s = sectors_empty F p [0..<fp_n_sectors p] s"

subsection \<open>Splitting\<close>

text \<open>The rest of the partition and what was split off.\<close>

definition split_off_end :: "nat \<Rightarrow> flash_partition \<Rightarrow> ('e, flash_partition \<times> flash_partition) result" where
  "split_off_end n p =
     (if fp_n_sectors p < n then Panic ''assertion failed: n_sectors <= self.n_sectors''
      else let left = fp_n_sectors p - n
           in Ok (p\<lparr>fp_n_sectors := left\<rparr>,
                  \<lparr>fp_offset_sector = u32_add (fp_offset_sector p) left, fp_n_sectors = n\<rparr>))"

definition split_off_front :: "nat \<Rightarrow> flash_partition \<Rightarrow> ('e, flash_partition \<times> flash_partition) result" where
  "split_off_front n p =
     (if fp_n_sectors p < n then Panic ''assertion failed: n_sectors <= self.n_sectors''
      else and_then (split_off_end (fp_n_sectors p - n) p) (\<lambda>(front, end_part). Ok (end_part, front)))"

definition set_offset :: "nat \<Rightarrow> flash_partition \<Rightarrow> ('e, flash_partition) result" where
  "set_offset offset p =
     (if offset mod SECTOR_SIZE \<noteq> 0 then Panic ''assertion failed''
      else Ok (p\<lparr>fp_offset_sector := offset div SECTOR_SIZE\<rparr>))"

definition set_partition_size :: "nat \<Rightarrow> flash_partition \<Rightarrow> ('e, flash_partition) result" where
  "set_partition_size sz p =
     (if sz mod SECTOR_SIZE \<noteq> 0 then Panic ''assertion failed'' else Ok (p\<lparr>fp_n_sectors := sz div SECTOR_SIZE\<rparr>))"

definition set_offset_and_size :: "nat \<Rightarrow> nat \<Rightarrow> flash_partition \<Rightarrow> ('e, flash_partition) result" where
  "set_offset_and_size offset sz p = and_then (set_partition_size sz p) (set_offset offset)"

subsection \<open>The reader and the writer of bincode\<close>

record flash_reader =
  fr_flash :: flash_partition
  fr_pos :: nat

definition bincode_reader :: "flash_partition \<Rightarrow> flash_reader" where
  "bincode_reader p = \<lparr>fr_flash = p, fr_pos = 0\<rparr>"

definition reader_read :: "'s nor_flash \<Rightarrow> nat \<Rightarrow> flash_reader \<Rightarrow> 's \<Rightarrow> (flash_error, bytes \<times> flash_reader) result" where
  "reader_read F len r s =
     and_then (flash_read F (fr_flash r) (fr_pos r) len s) (\<lambda>bytes.
     Ok (bytes, r\<lparr>fr_pos := u32_add (fr_pos r) (u32_of_usize len)\<rparr>))"

record flash_writer =
  fw_flash :: flash_partition
  fw_buf :: bytes
  fw_buf_index :: nat
  fw_word_pos :: nat

definition bincode_writer :: "'s nor_flash \<Rightarrow> nat \<Rightarrow> flash_partition \<Rightarrow> ('e, flash_writer) result" where
  "bincode_writer F buffer_size p =
     (if buffer_size mod nf_write_size F \<noteq> 0 \<or> nf_erase_size F mod buffer_size \<noteq> 0 then Panic ''assertion failed''
      else Ok \<lparr>fw_flash = p, fw_buf = replicate buffer_size 255, fw_buf_index = 0, fw_word_pos = 0\<rparr>)"

text \<open>A byte goes into the buffer, and the buffer to the flash when it is full. When that fails, the
  writer keeps its full buffer.\<close>

fun writer_write :: "'s nor_flash \<Rightarrow> bytes \<Rightarrow> flash_writer \<Rightarrow> 's \<Rightarrow> ('s \<times> flash_writer) \<times> (flash_error, unit) result" where
  "writer_write F [] w s = ((s, w), Ok ())"
| "writer_write F (b # bs) w s =
     (let w = w\<lparr>fw_buf := (fw_buf w)[fw_buf_index w := b], fw_buf_index := fw_buf_index w + 1\<rparr>
      in if fw_buf_index w = length (fw_buf w)
         then (case nor_write F (fw_flash w) (u32_mul (fw_word_pos w) (nf_write_size F)) (fw_buf w) s of
                 (s, Ok _) \<Rightarrow>
                   writer_write F bs (w\<lparr>fw_buf_index := 0,
                     fw_word_pos := u32_add (fw_word_pos w) (length (fw_buf w) div nf_write_size F)\<rparr>) s
               | (s, Err e) \<Rightarrow> ((s, w), Err e)
               | (s, Panic m) \<Rightarrow> ((s, w), Panic m))
         else writer_write F bs w s)"

definition writer_flush :: "'s nor_flash \<Rightarrow> flash_writer \<Rightarrow> 's \<Rightarrow> 's \<times> (flash_error, nat) result" where
  "writer_flush F w s =
     (if fw_buf_index w \<noteq> 0
      then let idx = fw_buf_index w;
               size = nf_write_size F;
               aligned_index = idx + (size - idx mod size) mod size;
               buf = take idx (fw_buf w) @ replicate (aligned_index - idx) 255
           in case nor_write F (fw_flash w) (u32_mul (fw_word_pos w) size) buf s of
                (s, r) \<Rightarrow> (s, and_then r (\<lambda>_. Ok (u32_add (fw_word_pos w) (aligned_index div size))))
      else (s, Ok (fw_word_pos w)))"

text \<open>What \<^verbatim>\<open>Drop\<close> asserts when a writer is given up.\<close>

definition writer_drop :: "flash_writer \<Rightarrow> ('e, unit) result" where
  "writer_drop w = (if fw_buf_index w \<noteq> 0 then Panic ''BincodeFlashWriter must be empty when dropped'' else Ok ())"

subsection \<open>What the driver promises\<close>

text \<open>The contents of the flash, byte by byte.\<close>

definition byte_at :: "'s nor_flash \<Rightarrow> 's \<Rightarrow> nat \<Rightarrow> byte" where
  "byte_at F s a = (case nf_read F a 1 s of Ok (b # bs) \<Rightarrow> b | _ \<Rightarrow> 255)"

definition blank :: "'s nor_flash \<Rightarrow> 's \<Rightarrow> nat \<Rightarrow> nat \<Rightarrow> bool" where
  "blank F s a b \<longleftrightarrow> (\<forall>i. a \<le> i \<longrightarrow> i < b \<longrightarrow> byte_at F s i = 255)"

text \<open>Reading gives the bytes, writing aligned bytes over erased ones stores them, erasing aligned
  sectors blanks them, and neither changes any other byte. Nothing is promised of writing over bytes that
  are not erased.\<close>

definition flash_ok :: "'s nor_flash \<Rightarrow> bool" where
  "flash_ok F \<longleftrightarrow> 0 < nf_write_size F \<and>
     (\<forall>a n s. a + n \<le> nf_capacity F \<longrightarrow> nf_read F a n s = Ok (map (byte_at F s) [a..<a + n])) \<and>
     (\<forall>a bs s. a + length bs \<le> nf_capacity F \<and> a mod nf_write_size F = 0 \<and> length bs mod nf_write_size F = 0 \<and>
        blank F s a (a + length bs) \<longrightarrow>
        (\<exists>s'. nf_write F a bs s = (s', Ok ()) \<and>
           (\<forall>i. byte_at F s' i = (if a \<le> i \<and> i < a + length bs then bs ! (i - a) else byte_at F s i)))) \<and>
     (\<forall>a b s. a \<le> b \<and> b \<le> nf_capacity F \<and> a mod nf_erase_size F = 0 \<and> b mod nf_erase_size F = 0 \<longrightarrow>
        (\<exists>s'. nf_erase F a b s = (s', Ok ()) \<and>
           (\<forall>i. byte_at F s' i = (if a \<le> i \<and> i < b then 255 else byte_at F s i))))"

text \<open>A partition that lies on the flash.\<close>

definition partition_ok :: "'s nor_flash \<Rightarrow> flash_partition \<Rightarrow> bool" where
  "partition_ok F p \<longleftrightarrow> (fp_offset_sector p + fp_n_sectors p) * SECTOR_SIZE \<le> nf_capacity F \<and>
     (fp_offset_sector p + fp_n_sectors p) * SECTOR_SIZE \<le> u32_max \<and>
     SECTOR_SIZE mod nf_write_size F = 0 \<and> nf_erase_size F = SECTOR_SIZE"

end
