(* ===== verification/NorLog.thy ===== *)
theory NorLog
  imports Flash
begin

section \<open>The append-only log\<close>

text \<open>
  Models \<^verbatim>\<open>frostsnap_embedded/src/nor_flash_log.rs\<close>. An entry is a word with its length in words and the
  encoded item behind it, filled up with ones to whole words. The codec \<^verbatim>\<open>bincode\<close> is not in the repository
  and a parameter: the pieces an item is encoded in, and what decoding the bytes from a position on gives, with
  the number of bytes it has read by then. \<open>codec_ok\<close> is what it promises of the items in use: decoding reads
  back what was encoded, whatever comes behind it.
\<close>

record ('i, 'd) codec =
  cd_encode :: "'i \<Rightarrow> bytes list"
  cd_decode :: "bytes \<Rightarrow> ('d, 'i) result \<times> nat"

definition codec_ok :: "('i, 'd) codec \<Rightarrow> 'i set \<Rightarrow> bool" where
  "codec_ok K I \<longleftrightarrow> (\<forall>i\<in>I. \<forall>r. cd_decode K (concat (cd_encode K i) @ r) = (Ok i, length (concat (cd_encode K i))))"

definition WORD_SIZE :: nat where
  "WORD_SIZE = 4"

text \<open>As the release profile compiles it.\<close>

definition WRITE_BUF_SIZE :: nat where
  "WRITE_BUF_SIZE = 32"

record nor_flash_log =
  nl_flash :: flash_partition
  nl_word_pos :: nat

definition new_log :: "'s nor_flash \<Rightarrow> flash_partition \<Rightarrow> ('e, nor_flash_log) result" where
  "new_log F p = (if nf_write_size F \<noteq> WORD_SIZE then Panic ''assertion failed'' else Ok \<lparr>nl_flash = p, nl_word_pos = 0\<rparr>)"

subsection \<open>Appending\<close>

text \<open>Encoding writes piece by piece; a failure leaves with \<^verbatim>\<open>?\<close> and drops the writer.\<close>

fun write_pieces :: "'s nor_flash \<Rightarrow> bytes list \<Rightarrow> flash_writer \<Rightarrow> 's \<Rightarrow> ('s \<times> flash_writer) \<times> (flash_error, unit) result" where
  "write_pieces F [] w s = ((s, w), Ok ())"
| "write_pieces F (bs # bss) w s =
     (case writer_write F bs w s of
        ((s, w), Ok _) \<Rightarrow> write_pieces F bss w s
      | ((s, w), Err e) \<Rightarrow> ((s, w), and_then (writer_drop w) (\<lambda>_. Err e))
      | ((s, w), Panic m) \<Rightarrow> ((s, w), Panic m))"

text \<open>The first half of \<^verbatim>\<open>push\<close>: the body, behind the word for its length; gives its length in words.\<close>

definition push_body :: "'s nor_flash \<Rightarrow> bytes list \<Rightarrow> nor_flash_log \<Rightarrow> 's \<Rightarrow> 's \<times> (flash_error, nat) result" where
  "push_body F pieces log s =
     (case bincode_writer F WRITE_BUF_SIZE (nl_flash log) of
        Ok w \<Rightarrow>
          let start_word = u32_add (nl_word_pos log) 1
          in (case write_pieces F pieces (w\<lparr>fw_word_pos := start_word\<rparr>) s of
                ((s, w), Ok _) \<Rightarrow>
                  (case writer_flush F w s of
                     (s, r) \<Rightarrow> (s, and_then r (\<lambda>final_word. Ok (u32_sub final_word start_word))))
              | ((s, w), Err e) \<Rightarrow> (s, Err e)
              | ((s, w), Panic m) \<Rightarrow> (s, Panic m))
      | Err e \<Rightarrow> (s, Err e)
      | Panic m \<Rightarrow> (s, Panic m))"

definition log_push :: "'s nor_flash \<Rightarrow> ('i, 'd) codec \<Rightarrow> 'i \<Rightarrow> nor_flash_log \<Rightarrow> 's \<Rightarrow>
    ('s \<times> nor_flash_log) \<times> (flash_error, unit) result" where
  "log_push F K item log s =
     (case push_body F (cd_encode K item) log s of
        (s, Ok len) \<Rightarrow>
          (case nor_write F (nl_flash log) (u32_mul (nl_word_pos log) WORD_SIZE) (u32_to_le_bytes len) s of
             (s, Ok _) \<Rightarrow> ((s, log\<lparr>nl_word_pos := u32_add (nl_word_pos log) (u32_add len 1)\<rparr>), Ok ())
           | (s, Err e) \<Rightarrow> ((s, log), Err e)
           | (s, Panic m) \<Rightarrow> ((s, log), Panic m))
      | (s, Err e) \<Rightarrow> ((s, log), Err e)
      | (s, Panic m) \<Rightarrow> ((s, log), Panic m))"

fun log_push_all :: "'s nor_flash \<Rightarrow> ('i, 'd) codec \<Rightarrow> 'i list \<Rightarrow> nor_flash_log \<Rightarrow> 's \<Rightarrow>
    ('s \<times> nor_flash_log) \<times> (flash_error, unit) result" where
  "log_push_all F K [] log s = ((s, log), Ok ())"
| "log_push_all F K (item # items) log s =
     (case log_push F K item log s of
        ((s, log), Ok _) \<Rightarrow> log_push_all F K items log s
      | ((s, log), Err e) \<Rightarrow> ((s, log), Err e)
      | ((s, log), Panic m) \<Rightarrow> ((s, log), Panic m))"

text \<open>The flash when power is lost in a push after the writer has taken \<open>k\<close> bytes of the body.\<close>

definition push_cut :: "'s nor_flash \<Rightarrow> nat \<Rightarrow> bytes list \<Rightarrow> nor_flash_log \<Rightarrow> 's \<Rightarrow> 's" where
  "push_cut F k pieces log s =
     (case (bincode_writer F WRITE_BUF_SIZE (nl_flash log) :: (flash_error, flash_writer) result) of
        Ok w \<Rightarrow> fst (fst (writer_write F (take k (concat pieces)) (w\<lparr>fw_word_pos := u32_add (nl_word_pos log) 1\<rparr>) s))
      | _ \<Rightarrow> s)"

subsection \<open>Reading it back\<close>

datatype 'd log_error = ReadFailed flash_error | DecodeFailed 'd

text \<open>One step of the iterator: the end of the log, or the result of an entry. Decoding reads on from the
  body, up to the end of the partition.\<close>

definition bytes_from :: "'s nor_flash \<Rightarrow> flash_partition \<Rightarrow> nat \<Rightarrow> 's \<Rightarrow> bytes" where
  "bytes_from F p pos s =
     (case flash_read F p pos (partition_size p - pos) s of Ok bs \<Rightarrow> bs | _ \<Rightarrow> [])"

definition log_next :: "'s nor_flash \<Rightarrow> ('i, 'd) codec \<Rightarrow> nor_flash_log \<Rightarrow> 's \<Rightarrow>
    nor_flash_log \<times> ('d log_error, 'i option) result" where
  "log_next F K log s =
     (case flash_read F (nl_flash log) (u32_mul (nl_word_pos log) WORD_SIZE) WORD_SIZE s of
        Ok length_buf \<Rightarrow>
          if length_buf = replicate WORD_SIZE 255 then (log, Ok None)
          else let word_pos = u32_add (nl_word_pos log) 1;
                   word_length = u32_from_le_bytes length_buf;
                   body_byte_pos = u32_mul word_pos WORD_SIZE
               in (case cd_decode K (bytes_from F (nl_flash log) body_byte_pos s) of
                     (decoded, taken) \<Rightarrow>
                       if u32_add body_byte_pos (u32_of_usize taken) \<le> u32_add body_byte_pos (u32_mul word_length WORD_SIZE)
                       then (log\<lparr>nl_word_pos := u32_add word_pos word_length\<rparr>,
                             case decoded of
                               Ok item \<Rightarrow> Ok (Some item)
                             | Err e \<Rightarrow> Err (DecodeFailed e)
                             | Panic m \<Rightarrow> Panic m)
                       else (log\<lparr>nl_word_pos := word_pos\<rparr>, Panic ''assertion failed: reader.byte_pos() <= expected_pos''))
      | Err e \<Rightarrow> (log, Err (ReadFailed e))
      | Panic m \<Rightarrow> (log, Panic m))"

text \<open>The items up to the end or the first failure, on which the device stops; \<open>None\<close> when the fuel
  runs out before. The entries of a log are at most as many as it has words.\<close>

fun log_items :: "nat \<Rightarrow> 's nor_flash \<Rightarrow> ('i, 'd) codec \<Rightarrow> nor_flash_log \<Rightarrow> 's \<Rightarrow>
    (nor_flash_log \<times> ('d log_error, 'i list) result) option" where
  "log_items 0 F K log s = None"
| "log_items (Suc fuel) F K log s =
     (case log_next F K log s of
        (log, Ok None) \<Rightarrow> Some (log, Ok [])
      | (log, Ok (Some item)) \<Rightarrow>
          map_option (\<lambda>(log, r). (log, and_then r (\<lambda>items. Ok (item # items)))) (log_items fuel F K log s)
      | (log, Err e) \<Rightarrow> Some (log, Err e)
      | (log, Panic m) \<Rightarrow> Some (log, Panic m))"

definition seek_iter :: "nat \<Rightarrow> 's nor_flash \<Rightarrow> ('i, 'd) codec \<Rightarrow> nor_flash_log \<Rightarrow> 's \<Rightarrow>
    (nor_flash_log \<times> ('d log_error, 'i list) result) option" where
  "seek_iter fuel F K log s = log_items fuel F K (log\<lparr>nl_word_pos := 0\<rparr>) s"

end
