(* ===== verification/NorLogProps.thy ===== *)
theory NorLogProps
  imports NorLog
begin

section \<open>What the log keeps\<close>

text \<open>
  Lemmas and properties of \<open>Flash\<close> and \<open>NorLog\<close>: reading back what was pushed, what a power cut in the
  middle of a push leaves, and what happens at the end of the partition.
\<close>

text \<open>The words that hold so many bytes.\<close>

definition words_for :: "nat \<Rightarrow> nat" where
  "words_for n = (n + 3) div 4"

lemma words_for_bounds: "n \<le> 4 * words_for n" "4 * words_for n < n + 4"
  by (simp_all add: words_for_def)

text \<open>The words that the entries of the items take.\<close>

definition log_words :: "('i, 'd) codec \<Rightarrow> 'i list \<Rightarrow> nat" where
  "log_words K items = sum_list (map (\<lambda>i. 1 + words_for (length (concat (cd_encode K i)))) items)"

text \<open>A driver that keeps its promises, and a partition that lies on its flash.\<close>

locale flash_part =
  fixes F :: "'s nor_flash" and p :: flash_partition and base :: nat and room :: nat
  assumes driver: "flash_ok F" and on_flash: "partition_ok F p" and words: "nf_write_size F = 4"
    and base_eq: "base = fp_offset_sector p * 4096" and room_eq: "room = fp_n_sectors p * 4096"
begin

lemma bounds: "base + room \<le> nf_capacity F" "base + room \<le> u32_max"
  using on_flash by (simp_all add: partition_ok_def SECTOR_SIZE_def distrib_right base_eq room_eq)

lemma partition_size_eq: "partition_size p = room"
  using bounds(2) by (simp add: partition_size_def u32_mul_def SECTOR_SIZE_def u32_max_def room_eq)

lemma abs_offset_eq: "off \<le> room \<Longrightarrow> abs_offset p off = base + off"
  using bounds(2) by (simp add: abs_offset_def u32_mul_def SECTOR_SIZE_def u32_max_def u32_add_def base_eq)

lemma base_aligned: "4 dvd base"
  by (simp add: base_eq)

lemma in_bounds: "off + len \<le> room \<Longrightarrow> \<not> partition_size p < u32_saturating_add off (u32_of_usize len)"
  using bounds(2) by (simp add: partition_size_eq u32_saturating_add_def u32_of_usize_def u32_max_def)

lemma out_of_bounds: "room < off + len \<Longrightarrow> len \<le> u32_max \<Longrightarrow> partition_size p < u32_saturating_add off (u32_of_usize len)"
proof -
  assume len: "room < off + len" "len \<le> u32_max"
  have "even room" by (simp add: room_eq)
  then have "room \<noteq> u32_max" by (auto simp: u32_max_def)
  then have "room < u32_max" using bounds(2) by simp
  then show ?thesis using len by (simp add: partition_size_eq u32_saturating_add_def u32_of_usize_def u32_max_def)
qed

lemma flash_read_ok:
  "off + len \<le> room \<Longrightarrow> flash_read F p off len s = Ok (map (byte_at F s) [base + off..<base + off + len])"
  using driver bounds(1) in_bounds [of off len] abs_offset_eq [of off]
  by (simp add: flash_read_def flash_ok_def)

lemma nor_write_ok:
  assumes "off + length bs \<le> room" "4 dvd off" "4 dvd length bs" "blank F s (base + off) (base + off + length bs)"
  shows "\<exists>s'. nor_write F p off bs s = (s', Ok ()) \<and>
    (\<forall>i. byte_at F s' i =
      (if base + off \<le> i \<and> i < base + off + length bs then bs ! (i - (base + off)) else byte_at F s i))"
proof -
  have "(base + off) mod 4 = 0" using assms(2) base_aligned by (simp add: mod_eq_0_iff_dvd)
  then have "\<exists>s'. nf_write F (base + off) bs s = (s', Ok ()) \<and>
      (\<forall>i. byte_at F s' i =
        (if base + off \<le> i \<and> i < base + off + length bs then bs ! (i - (base + off)) else byte_at F s i))"
    using driver assms bounds(1) words by (auto simp: flash_ok_def mod_eq_0_iff_dvd)
  then show ?thesis using in_bounds [OF assms(1)] abs_offset_eq [of off] assms(1) by (simp add: nor_write_def)
qed

subsection \<open>The writer\<close>

text \<open>The writer \<open>w\<close> and the flash \<open>s\<close> after \<open>data\<close> was written from word \<open>start\<close> on over the flash \<open>s0\<close>:
  whole buffers are on the flash, the rest is in the buffer.\<close>

definition writer_at :: "flash_writer \<Rightarrow> 's \<Rightarrow> nat \<Rightarrow> bytes \<Rightarrow> 's \<Rightarrow> bool" where
  "writer_at w s start data s0 \<longleftrightarrow>
     (\<exists>k. fw_flash w = p \<and> length (fw_buf w) = 32 \<and> fw_buf_index w < 32 \<and> fw_word_pos w = start + k * 8 \<and>
        length data = k * 32 + fw_buf_index w \<and> take (fw_buf_index w) (fw_buf w) = drop (k * 32) data \<and>
        (\<forall>i. byte_at F s i =
          (if base + 4 * start \<le> i \<and> i < base + 4 * start + k * 32 then data ! (i - (base + 4 * start)) else byte_at F s0 i)))"

lemma align_words: "n + (4 - n mod 4) mod 4 = 4 * words_for n"
proof -
  have split: "(n + 3) div 4 = n div 4 + (n mod 4 + 3) div 4" using div_add1_eq [of n 3 4] by simp
  have n: "n = 4 * (n div 4) + n mod 4" by simp
  consider "n mod 4 = 0" | "n mod 4 = 1" | "n mod 4 = 2" | "n mod 4 = 3" by linarith
  then show ?thesis unfolding words_for_def split using n by cases simp_all
qed

lemma words_for_fit: "4 * (a + 1 + words_for n) \<le> r \<Longrightarrow> 4 * (a + 1) + n \<le> r"
  using words_for_bounds(1) [of n] by simp

text \<open>The last words over what was written before.\<close>

lemma overlay:
  fixes f g h :: "nat \<Rightarrow> byte"
  assumes "\<forall>i. g i = (if a \<le> i \<and> i < a + m then data ! (i - a) else f i)"
    and "\<forall>i. h i = (if a + m \<le> i \<and> i < a + m + al then (drop m data @ replicate (al - n) 255) ! (i - (a + m)) else g i)"
    and "\<forall>i. a \<le> i \<longrightarrow> i < a + m + al \<longrightarrow> f i = 255" "length data = m + n" "n \<le> al"
  shows "h i = (if a \<le> i \<and> i < a + length data then data ! (i - a) else f i)"
proof -
  consider "i < a" | "a \<le> i" "i < a + m" | "a + m \<le> i" "i < a + m + n" | "a + m + n \<le> i" "i < a + m + al" | "a + m + al \<le> i"
    by linarith
  then show ?thesis
  proof cases
    case 3
    then have "i - (a + m) < n" "m + (i - (a + m)) = i - a" by linarith+
    then have "(drop m data @ replicate (al - n) 255) ! (i - (a + m)) = data ! (i - a)"
      using assms(4) by (simp add: nth_append)
    then show ?thesis using 3 assms(2,4,5) by simp
  next
    case 4
    then have "\<not> i - (a + m) < n" "i - (a + m) - n < al - n" by linarith+
    then have "(drop m data @ replicate (al - n) 255) ! (i - (a + m)) = (255 :: byte)"
      using assms(4) by (simp add: nth_append)
    then show ?thesis using 4 assms(2,3,4) by simp
  qed (use assms in simp_all)
qed

lemma writer_byte:
  assumes "writer_at w s start data s0" "4 * start + length data < room" "blank F s0 (base + 4 * start) (base + room)"
  shows "\<exists>w' s'. writer_write F (b # bs) w s = writer_write F bs w' s' \<and> writer_at w' s' start (data @ [b]) s0"
proof -
  obtain k where w: "fw_flash w = p" "length (fw_buf w) = 32" "fw_buf_index w < 32" "fw_word_pos w = start + k * 8"
      "length data = k * 32 + fw_buf_index w" "take (fw_buf_index w) (fw_buf w) = drop (k * 32) data"
    and s: "\<forall>i. byte_at F s i =
      (if base + 4 * start \<le> i \<and> i < base + 4 * start + k * 32 then data ! (i - (base + 4 * start)) else byte_at F s0 i)"
    using assms(1) by (auto simp: writer_at_def)
  let ?buf = "(fw_buf w)[fw_buf_index w := b]"
  let ?w = "w\<lparr>fw_buf := ?buf, fw_buf_index := fw_buf_index w + 1\<rparr>"
  have buf: "take (fw_buf_index w + 1) ?buf = drop (k * 32) (data @ [b])"
    using w(2,3,5,6) by (simp add: take_Suc_conv_app_nth)
  show ?thesis
  proof (cases "fw_buf_index w + 1 = 32")
    case False
    have "writer_at ?w s start (data @ [b]) s0"
      unfolding writer_at_def
    proof (intro exI [of _ k] conjI)
      show "\<forall>i. byte_at F s i = (if base + 4 * start \<le> i \<and> i < base + 4 * start + k * 32
          then (data @ [b]) ! (i - (base + 4 * start)) else byte_at F s0 i)"
        using s w(5) by (auto simp: nth_append)
    qed (use w buf False in auto)
    moreover have "writer_write F (b # bs) w s = writer_write F bs ?w s" using False w(2) by (simp add: Let_def)
    ultimately show ?thesis by blast
  next
    case True
    have full: "length ?buf = 32" using w(2) by simp
    have full2: "?buf = drop (k * 32) (data @ [b])" using buf full unfolding True by (metis order_refl take_all)
    let ?off = "4 * (start + k * 8)"
    have fits: "?off + 32 \<le> room" using assms(2) w(5) True by simp
    have off: "base + ?off = base + 4 * start + k * 32" by simp
    have "u32_mul (start + k * 8) 4 = ?off"
      using fits bounds(2) by (simp add: u32_mul_def u32_max_def mult.commute)
    moreover have "blank F s (base + ?off) (base + ?off + 32)"
      using assms(3) s fits by (auto simp: blank_def)
    then obtain s' where s': "nor_write F p ?off ?buf s = (s', Ok ())"
        "\<forall>i. byte_at F s' i = (if base + ?off \<le> i \<and> i < base + ?off + 32 then ?buf ! (i - (base + ?off)) else byte_at F s i)"
      using nor_write_ok [of ?off ?buf s] fits full by auto
    moreover have "u32_add (start + k * 8) 8 = start + k * 8 + 8" using fits bounds(2) by (simp add: u32_max_def)
    ultimately have step: "writer_write F (b # bs) w s =
        writer_write F bs (w\<lparr>fw_buf := ?buf, fw_buf_index := 0, fw_word_pos := start + k * 8 + 8\<rparr>) s'"
      using w(1,2,4) True words by (simp add: Let_def)
    have "writer_at (w\<lparr>fw_buf := ?buf, fw_buf_index := 0, fw_word_pos := start + k * 8 + 8\<rparr>) s' start (data @ [b]) s0"
      unfolding writer_at_def
    proof (intro exI [of _ "k + 1"] conjI)
      have g: "\<forall>i. byte_at F s i = (if base + 4 * start \<le> i \<and> i < base + 4 * start + k * 32
          then (data @ [b]) ! (i - (base + 4 * start)) else byte_at F s0 i)"
        using s w(5) by (auto simp: nth_append)
      have h: "\<forall>i. byte_at F s' i = (if base + 4 * start + k * 32 \<le> i \<and> i < base + 4 * start + k * 32 + 32
          then (drop (k * 32) (data @ [b]) @ replicate (32 - 32) 255) ! (i - (base + 4 * start + k * 32)) else byte_at F s i)"
        using s'(2) unfolding full2 off by simp
      have "\<forall>i. base + 4 * start \<le> i \<longrightarrow> i < base + 4 * start + k * 32 + 32 \<longrightarrow> byte_at F s0 i = 255"
        using assms(3) fits by (auto simp: blank_def)
      moreover have len: "length (data @ [b]) = k * 32 + 32" using w(5) True by simp
      ultimately have "byte_at F s' i = (if base + 4 * start \<le> i \<and> i < base + 4 * start + length (data @ [b])
          then (data @ [b]) ! (i - (base + 4 * start)) else byte_at F s0 i)" for i
        by (intro overlay [OF g h]) simp_all
      then show "\<forall>i. byte_at F s' i = (if base + 4 * start \<le> i \<and> i < base + 4 * start + (k + 1) * 32
          then (data @ [b]) ! (i - (base + 4 * start)) else byte_at F s0 i)"
        unfolding len by (simp add: distrib_right)
    qed (use w True in auto)
    then show ?thesis using step by blast
  qed
qed

lemma writer_write_ok:
  "writer_at w s start data s0 \<Longrightarrow> 4 * start + length (data @ bs) \<le> room \<Longrightarrow> blank F s0 (base + 4 * start) (base + room) \<Longrightarrow>
   \<exists>w' s'. writer_write F bs w s = ((s', w'), Ok ()) \<and> writer_at w' s' start (data @ bs) s0"
proof (induction bs arbitrary: w s data)
  case (Cons b bs)
  obtain w' s' where step: "writer_write F (b # bs) w s = writer_write F bs w' s'" "writer_at w' s' start (data @ [b]) s0"
    using writer_byte [OF Cons.prems(1) _ Cons.prems(3), of b bs] Cons.prems(2) by auto
  then show ?case using Cons.IH [OF step(2)] Cons.prems(2,3) by simp
qed simp

lemma write_pieces_ok:
  "writer_at w s start data s0 \<Longrightarrow> 4 * start + length (data @ concat bss) \<le> room \<Longrightarrow> blank F s0 (base + 4 * start) (base + room) \<Longrightarrow>
   \<exists>w' s'. write_pieces F bss w s = ((s', w'), Ok ()) \<and> writer_at w' s' start (data @ concat bss) s0"
proof (induction bss arbitrary: w s data)
  case (Cons bs bss)
  obtain w' s' where "writer_write F bs w s = ((s', w'), Ok ())" "writer_at w' s' start (data @ bs) s0"
    using writer_write_ok [OF Cons.prems(1) _ Cons.prems(3), of bs] Cons.prems(2) by auto
  then show ?case using Cons.IH [of w' s' "data @ bs"] Cons.prems(2,3) by simp
qed simp

lemma writer_flush_ok:
  assumes "writer_at w s start data s0" "4 * start + 4 * words_for (length data) \<le> room" "blank F s0 (base + 4 * start) (base + room)"
  shows "\<exists>s'. writer_flush F w s = (s', Ok (start + words_for (length data))) \<and>
    (\<forall>i. byte_at F s' i = (if base + 4 * start \<le> i \<and> i < base + 4 * start + length data
      then data ! (i - (base + 4 * start)) else byte_at F s0 i))"
proof -
  obtain k where w: "fw_flash w = p" "length (fw_buf w) = 32" "fw_buf_index w < 32" "fw_word_pos w = start + k * 8"
      "length data = k * 32 + fw_buf_index w" "take (fw_buf_index w) (fw_buf w) = drop (k * 32) data"
    and s: "\<forall>i. byte_at F s i =
      (if base + 4 * start \<le> i \<and> i < base + 4 * start + k * 32 then data ! (i - (base + 4 * start)) else byte_at F s0 i)"
    using assms(1) by (auto simp: writer_at_def)
  let ?n = "fw_buf_index w"
  show ?thesis
  proof (cases "?n = 0")
    case True
    then have "words_for (length data) = k * 8" using w(5) by (simp add: words_for_def)
    then show ?thesis using True s w(4,5) by (intro exI [of _ s]) (simp add: writer_flush_def)
  next
    case False
    let ?al = "?n + (4 - ?n mod 4) mod 4"
    let ?buf = "drop (k * 32) data @ replicate (?al - ?n) 255"
    let ?off = "4 * (start + k * 8)"
    have al: "?al = 4 * words_for ?n" by (rule align_words)
    have total: "words_for (length data) = k * 8 + words_for ?n" using w(5) by (simp add: words_for_def)
    have len: "length ?buf = ?al" using w(5) by simp
    have off: "base + ?off = base + 4 * start + k * 32" by simp
    have fits: "?off + length ?buf \<le> room" using assms(2) total al len by simp
    have "u32_mul (start + k * 8) 4 = ?off"
      using fits bounds(2) by (simp add: u32_mul_def u32_max_def mult.commute)
    moreover have "blank F s (base + ?off) (base + ?off + length ?buf)"
      using assms(3) s fits by (auto simp: blank_def)
    then obtain s' where s': "nor_write F p ?off ?buf s = (s', Ok ())"
        "\<forall>i. byte_at F s' i = (if base + ?off \<le> i \<and> i < base + ?off + length ?buf then ?buf ! (i - (base + ?off)) else byte_at F s i)"
      using nor_write_ok [of ?off ?buf s] fits len al by auto
    moreover have "u32_add (start + k * 8) (?al div 4) = start + words_for (length data)"
      using fits bounds(2) total al len by (simp add: u32_max_def)
    ultimately have "writer_flush F w s = (s', Ok (start + words_for (length data)))"
      using False w(1,4,6) words by (simp add: writer_flush_def Let_def)
    moreover have "byte_at F s' i = (if base + 4 * start \<le> i \<and> i < base + 4 * start + length data
        then data ! (i - (base + 4 * start)) else byte_at F s0 i)" for i
    proof (rule overlay [OF s])
      show "\<forall>i. byte_at F s' i = (if base + 4 * start + k * 32 \<le> i \<and> i < base + 4 * start + k * 32 + ?al
          then ?buf ! (i - (base + 4 * start + k * 32)) else byte_at F s i)"
        using s'(2) unfolding len off by blast
      show "\<forall>i. base + 4 * start \<le> i \<longrightarrow> i < base + 4 * start + k * 32 + ?al \<longrightarrow> byte_at F s0 i = 255"
        using assms(3) fits len by (auto simp: blank_def)
    qed (use w(5) in simp_all)
    ultimately show ?thesis by blast
  qed
qed

subsection \<open>The entries\<close>

text \<open>From word \<open>w\<close> on stand the entries of the items, up to word \<open>v\<close>.\<close>

fun entries :: "('i, 'd) codec \<Rightarrow> 's \<Rightarrow> nat \<Rightarrow> 'i list \<Rightarrow> nat \<Rightarrow> bool" where
  "entries K s w [] v \<longleftrightarrow> v = w"
| "entries K s w (i # is) v \<longleftrightarrow>
     (let data = concat (cd_encode K i); n = words_for (length data)
      in map (byte_at F s) [base + 4 * w..<base + 4 * w + 4] = u32_to_le_bytes n \<and>
         map (byte_at F s) [base + 4 * (w + 1)..<base + 4 * (w + 1) + length data] = data \<and>
         4 * (w + 1 + n) \<le> room \<and> entries K s (w + 1 + n) is v)"

definition log_ok :: "('i, 'd) codec \<Rightarrow> nor_flash_log \<Rightarrow> 's \<Rightarrow> 'i list \<Rightarrow> bool" where
  "log_ok K log s items \<longleftrightarrow> nl_flash log = p \<and> entries K s 0 items (nl_word_pos log) \<and> 4 * nl_word_pos log \<le> room \<and>
     blank F s (base + 4 * nl_word_pos log) (base + room)"

lemma entries_mono: "entries K s w is v \<Longrightarrow> w + length is \<le> v"
  by (induction "is" arbitrary: w) (fastforce simp: Let_def)+

lemma entries_room: "entries K s w is v \<Longrightarrow> 4 * w \<le> room \<Longrightarrow> 4 * v \<le> room"
  by (induction "is" arbitrary: w) (auto simp: Let_def)

lemma entries_cong:
  "entries K s w is v \<Longrightarrow> \<forall>i<base + 4 * v. byte_at F s' i = byte_at F s i \<Longrightarrow> entries K s' w is v"
proof (induction "is" arbitrary: w)
  case (Cons i "is")
  let ?d = "concat (cd_encode K i)"
  let ?n = "words_for (length ?d)"
  have e: "entries K s (w + 1 + ?n) is v" using Cons.prems(1) by (simp add: Let_def)
  have "4 * (w + 1 + ?n) \<le> 4 * v" using entries_mono [OF e] by simp
  then have "map (byte_at F s') [base + 4 * w..<base + 4 * w + 4] = map (byte_at F s) [base + 4 * w..<base + 4 * w + 4]"
    "map (byte_at F s') [base + 4 * (w + 1)..<base + 4 * (w + 1) + length ?d] =
     map (byte_at F s) [base + 4 * (w + 1)..<base + 4 * (w + 1) + length ?d]"
    using words_for_bounds(1) [of "length ?d"] Cons.prems(2) by auto
  then show ?case using Cons.prems(1) Cons.IH [OF e Cons.prems(2)] by (simp only: entries.simps Let_def)
qed simp

lemma entries_append:
  "entries K s w (is @ js) v \<longleftrightarrow> (\<exists>u. entries K s w is u \<and> entries K s u js v)"
  by (induction "is" arbitrary: w) (simp_all add: Let_def)

lemma le_bytes_not_blank:
  assumes "n < u32_max" shows "u32_to_le_bytes n \<noteq> replicate 4 255"
proof
  assume "u32_to_le_bytes n = replicate 4 255"
  then have "u32_from_le_bytes (u32_to_le_bytes n) = u32_from_le_bytes (replicate 4 255)" by simp
  then have "n = u32_from_le_bytes (replicate 4 255)" using u32_from_to_le_bytes [of n] assms by simp
  also have "replicate 4 (255 :: byte) = [255, 255, 255, 255]" by (simp add: numeral_eq_Suc)
  also have "u32_from_le_bytes [255, 255, 255, 255] = u32_max" by (simp add: u32_from_le_bytes_def u32_max_def)
  finally show False using assms by simp
qed

lemma bytes_from_eq: "off \<le> room \<Longrightarrow> bytes_from F p off s = map (byte_at F s) [base + off..<base + room]"
  using flash_read_ok [of off "room - off" s] by (simp add: bytes_from_def partition_size_eq)

lemma next_entry:
  assumes "codec_ok K I" "i \<in> I" "entries K s w (i # is) v" "nl_flash log = p" "nl_word_pos log = w"
  shows "log_next F K log s =
    (log\<lparr>nl_word_pos := w + 1 + words_for (length (concat (cd_encode K i)))\<rparr>, Ok (Some i))"
proof -
  let ?d = "concat (cd_encode K i)"
  let ?n = "words_for (length ?d)"
  have e: "map (byte_at F s) [base + 4 * w..<base + 4 * w + 4] = u32_to_le_bytes ?n"
    "map (byte_at F s) [base + 4 * (w + 1)..<base + 4 * (w + 1) + length ?d] = ?d" "4 * (w + 1 + ?n) \<le> room"
    using assms(3) by (simp_all add: Let_def)
  have small: "4 * (w + 1 + ?n) \<le> u32_max" using e(3) bounds(2) by simp
  then have mul: "u32_mul w 4 = 4 * w" "u32_mul (w + 1) 4 = 4 * (w + 1)" "u32_mul ?n 4 = 4 * ?n" "u32_add w 1 = w + 1"
    "u32_add (w + 1) ?n = w + 1 + ?n" "?n \<le> u32_max" "?n < u32_max"
    by (simp_all add: u32_mul_def u32_max_def u32_add_def mult.commute)
  have len: "flash_read F p (4 * w) 4 s = Ok (u32_to_le_bytes ?n)"
    using flash_read_ok [of "4 * w" 4 s] e(1,3) by simp
  have le: "length ?d \<le> 4 * ?n" by (rule words_for_bounds)
  obtain c where "room = 4 * (w + 1) + length ?d + c" using words_for_fit [OF e(3)] le_Suc_ex by blast
  then have "[base + 4 * (w + 1)..<base + room] = [base + 4 * (w + 1)..<base + 4 * (w + 1) + length ?d] @
      [base + 4 * (w + 1) + length ?d..<base + room]"
    using upt_add_eq_append [of "base + 4 * (w + 1)" "base + 4 * (w + 1) + length ?d" c] by (simp add: add.assoc)
  then have body: "bytes_from F p (4 * (w + 1)) s = ?d @ map (byte_at F s) [base + 4 * (w + 1) + length ?d..<base + room]"
    using bytes_from_eq [of "4 * (w + 1)" s] e(2,3) by simp
  have "u32_add (4 * (w + 1)) (u32_of_usize (length ?d)) = 4 * (w + 1) + length ?d"
    "u32_add (4 * (w + 1)) (4 * ?n) = 4 * (w + 1) + 4 * ?n"
    using small le by (simp_all add: u32_max_def u32_of_usize_def u32_add_def)
  then have bound: "u32_add (4 * (w + 1)) (u32_of_usize (length ?d)) \<le> u32_add (4 * (w + 1)) (4 * ?n)" using le by simp
  show ?thesis
    using assms(1,2,4,5) len body mul(7) le_bytes_not_blank [OF mul(7)] bound
    unfolding log_next_def WORD_SIZE_def
    by (simp only: mul u32_from_to_le_bytes [OF mul(6)] result.case Let_def if_False codec_ok_def prod.case if_True)
qed

lemma blank_word: "blank F s a (a + 4) \<Longrightarrow> map (byte_at F s) [a..<a + 4] = replicate 4 255"
  by (rule nth_equalityI) (auto simp: blank_def)

lemma log_items_ok:
  assumes "codec_ok K I" "4 * v + 4 \<le> room" "blank F s (base + 4 * v) (base + 4 * v + 4)"
  shows "entries K s w is v \<Longrightarrow> set is \<subseteq> I \<Longrightarrow> nl_flash log = p \<Longrightarrow> nl_word_pos log = w \<Longrightarrow> length is < fuel \<Longrightarrow>
    log_items fuel F K log s = Some (log\<lparr>nl_word_pos := v\<rparr>, Ok is)"
proof (induction "is" arbitrary: w log fuel)
  case Nil
  then obtain f where f: "fuel = Suc f" by (cases fuel) auto
  have "u32_mul v 4 = 4 * v" using assms(2) bounds(2) by (simp add: u32_mul_def u32_max_def mult.commute)
  moreover have "flash_read F p (4 * v) 4 s = Ok (replicate 4 255)"
    using flash_read_ok [of "4 * v" 4 s] assms(2) blank_word [OF assms(3)] by simp
  ultimately show ?case using Nil f by (simp add: log_next_def WORD_SIZE_def)
next
  case (Cons i "is")
  then obtain f where f: "fuel = Suc f" "length is < f" by (cases fuel) auto
  let ?w = "w + 1 + words_for (length (concat (cd_encode K i)))"
  have "entries K s ?w is v" using Cons.prems(1) by (simp add: Let_def)
  moreover have "i \<in> I" "set is \<subseteq> I" using Cons.prems(2) by simp_all
  ultimately show ?case
    using next_entry [OF assms(1) _ Cons.prems(1,3,4)] Cons.IH [of ?w "log\<lparr>nl_word_pos := ?w\<rparr>" f] Cons.prems(3) f
    by simp
qed

lemma log_items_full:
  assumes "codec_ok K I" "4 * v = room"
  shows "entries K s w is v \<Longrightarrow> set is \<subseteq> I \<Longrightarrow> nl_flash log = p \<Longrightarrow> nl_word_pos log = w \<Longrightarrow> length is < fuel \<Longrightarrow>
    log_items fuel F K log s = Some (log\<lparr>nl_word_pos := v\<rparr>, Err (ReadFailed OutOfBounds))"
proof (induction "is" arbitrary: w log fuel)
  case Nil
  then obtain f where f: "fuel = Suc f" by (cases fuel) auto
  have "u32_mul v 4 = 4 * v" using assms(2) bounds(2) by (simp add: u32_mul_def u32_max_def mult.commute)
  moreover have "flash_read F p (4 * v) 4 s = Err OutOfBounds"
  proof -
    have "partition_size p < u32_saturating_add (4 * v) (u32_of_usize 4)"
      by (rule out_of_bounds) (use assms(2) in \<open>simp_all add: u32_max_def\<close>)
    then show ?thesis unfolding flash_read_def by (rule if_P)
  qed
  ultimately show ?case using Nil f by (simp add: log_next_def WORD_SIZE_def)
next
  case (Cons i "is")
  then obtain f where f: "fuel = Suc f" "length is < f" by (cases fuel) auto
  let ?w = "w + 1 + words_for (length (concat (cd_encode K i)))"
  have "entries K s ?w is v" using Cons.prems(1) by (simp add: Let_def)
  moreover have "i \<in> I" "set is \<subseteq> I" using Cons.prems(2) by simp_all
  ultimately show ?case
    using next_entry [OF assms(1) _ Cons.prems(1,3,4)] Cons.IH [of ?w "log\<lparr>nl_word_pos := ?w\<rparr>" f] Cons.prems(3) f
    by simp
qed

subsection \<open>Pushing\<close>

definition fits :: "('i, 'd) codec \<Rightarrow> nor_flash_log \<Rightarrow> 'i \<Rightarrow> bool" where
  "fits K log i \<longleftrightarrow> 4 * (nl_word_pos log + 1 + words_for (length (concat (cd_encode K i)))) \<le> room"

lemma erase_size: "nf_erase_size F = 4096"
  using on_flash by (simp add: partition_ok_def SECTOR_SIZE_def)

lemma push_body_ok:
  assumes "nl_flash log = p" "4 * (nl_word_pos log + 1 + words_for (length (concat bss))) \<le> room"
    and "blank F s (base + 4 * (nl_word_pos log + 1)) (base + room)"
  shows "\<exists>s'. push_body F bss log s = (s', Ok (words_for (length (concat bss)))) \<and>
    (\<forall>i. byte_at F s' i = (if base + 4 * (nl_word_pos log + 1) \<le> i \<and> i < base + 4 * (nl_word_pos log + 1) + length (concat bss)
      then concat bss ! (i - (base + 4 * (nl_word_pos log + 1))) else byte_at F s i))"
proof -
  let ?st = "nl_word_pos log + 1"
  let ?w = "\<lparr>fw_flash = p, fw_buf = replicate 32 255, fw_buf_index = 0, fw_word_pos = ?st\<rparr>"
  have start: "u32_add (nl_word_pos log) 1 = ?st" using assms(2) bounds(2) by (simp add: u32_max_def)
  have new: "bincode_writer F WRITE_BUF_SIZE (nl_flash log) =
      (Ok \<lparr>fw_flash = p, fw_buf = replicate 32 255, fw_buf_index = 0, fw_word_pos = 0\<rparr> :: (flash_error, _) result)"
    using assms(1) words erase_size by (simp add: bincode_writer_def WRITE_BUF_SIZE_def)
  have "writer_at ?w s ?st [] s" by (auto simp: writer_at_def)
  moreover have "4 * ?st + length (concat bss) \<le> room" by (rule words_for_fit [OF assms(2)])
  ultimately obtain w' s1 where w1: "write_pieces F bss ?w s = ((s1, w'), Ok ())" "writer_at w' s1 ?st (concat bss) s"
    using write_pieces_ok [of ?w s ?st "[]" s bss] assms(3) by auto
  then obtain s' where s': "writer_flush F w' s1 = (s', Ok (?st + words_for (length (concat bss))))"
      "\<forall>i. byte_at F s' i = (if base + 4 * ?st \<le> i \<and> i < base + 4 * ?st + length (concat bss)
        then concat bss ! (i - (base + 4 * ?st)) else byte_at F s i)"
    using writer_flush_ok [OF w1(2)] assms(2,3) by (auto simp: distrib_left)
  have "push_body F bss log s = (s', Ok (words_for (length (concat bss))))"
    unfolding push_body_def new start using w1(1) s'(1) by (simp add: Let_def)
  then show ?thesis using s'(2) by blast
qed

lemma log_push_ok:
  assumes "log_ok K log s items" "fits K log i"
  shows "\<exists>s'. log_push F K i log s =
      ((s', log\<lparr>nl_word_pos := nl_word_pos log + 1 + words_for (length (concat (cd_encode K i)))\<rparr>), Ok ()) \<and>
    log_ok K (log\<lparr>nl_word_pos := nl_word_pos log + 1 + words_for (length (concat (cd_encode K i)))\<rparr>) s' (items @ [i]) \<and>
    (\<forall>j. j < base \<or> base + room \<le> j \<longrightarrow> byte_at F s' j = byte_at F s j)"
proof -
  let ?w = "nl_word_pos log" and ?d = "concat (cd_encode K i)"
  let ?n = "words_for (length ?d)"
  have l: "nl_flash log = p" "entries K s 0 items ?w" "blank F s (base + 4 * ?w) (base + room)" "4 * (?w + 1 + ?n) \<le> room"
    using assms by (simp_all add: log_ok_def fits_def)
  have le: "length ?d \<le> 4 * ?n" by (rule words_for_bounds)
  have "blank F s (base + 4 * (?w + 1)) (base + room)" using l(3) by (auto simp: blank_def)
  then obtain s1 where s1: "push_body F (cd_encode K i) log s = (s1, Ok ?n)"
      "\<forall>j. byte_at F s1 j = (if base + 4 * (?w + 1) \<le> j \<and> j < base + 4 * (?w + 1) + length ?d
        then ?d ! (j - (base + 4 * (?w + 1))) else byte_at F s j)"
    using push_body_ok [OF l(1,4)] by blast
  have small: "4 * (?w + 1 + ?n) \<le> u32_max" using l(4) bounds(2) by simp
  have "blank F s1 (base + 4 * ?w) (base + 4 * ?w + length (u32_to_le_bytes ?n))"
    using l(3,4) s1(2) by (auto simp: blank_def)
  then obtain s2 where s2: "nor_write F p (4 * ?w) (u32_to_le_bytes ?n) s1 = (s2, Ok ())"
      "\<forall>j. byte_at F s2 j = (if base + 4 * ?w \<le> j \<and> j < base + 4 * ?w + 4
        then u32_to_le_bytes ?n ! (j - (base + 4 * ?w)) else byte_at F s1 j)"
    using nor_write_ok [of "4 * ?w" "u32_to_le_bytes ?n" s1] l(4) by auto
  have "u32_mul ?w 4 = 4 * ?w" "u32_add ?w (u32_add ?n 1) = ?w + 1 + ?n"
    using small by (simp_all add: u32_mul_def u32_max_def u32_add_def mult.commute)
  then have push: "log_push F K i log s = ((s2, log\<lparr>nl_word_pos := ?w + 1 + ?n\<rparr>), Ok ())"
    using s1(1) s2(1) l(1) by (simp add: log_push_def WORD_SIZE_def)
  have "entries K s2 0 items ?w"
    by (rule entries_cong [OF l(2)]) (use s1(2) s2(2) in auto)
  moreover have "entries K s2 ?w [i] (?w + 1 + ?n)"
    using s1(2) s2(2) l(4) by (auto simp: Let_def intro!: nth_equalityI)
  moreover have "blank F s2 (base + 4 * (?w + 1 + ?n)) (base + room)"
    using l(3) s1(2) s2(2) le by (auto simp: blank_def)
  ultimately have "log_ok K (log\<lparr>nl_word_pos := ?w + 1 + ?n\<rparr>) s2 (items @ [i])"
    using l(1,4) unfolding log_ok_def entries_append by auto
  moreover have "byte_at F s2 j = byte_at F s j" if "j < base \<or> base + room \<le> j" for j
    using that s1(2) s2(2) l(4) le by auto
  ultimately show ?thesis using push by blast
qed

lemma push_all_ok:
  "log_ok K log s done_items \<Longrightarrow> 4 * (nl_word_pos log + log_words K items) \<le> room \<Longrightarrow>
   \<exists>s'. log_push_all F K items log s = ((s', log\<lparr>nl_word_pos := nl_word_pos log + log_words K items\<rparr>), Ok ()) \<and>
     log_ok K (log\<lparr>nl_word_pos := nl_word_pos log + log_words K items\<rparr>) s' (done_items @ items) \<and>
     (\<forall>j. j < base \<or> base + room \<le> j \<longrightarrow> byte_at F s' j = byte_at F s j)"
proof (induction items arbitrary: log s done_items)
  case Nil
  then show ?case by (simp add: log_words_def)
next
  case (Cons i items)
  let ?n = "words_for (length (concat (cd_encode K i)))"
  let ?log = "log\<lparr>nl_word_pos := nl_word_pos log + 1 + ?n\<rparr>"
  have w: "log_words K (i # items) = 1 + ?n + log_words K items" by (simp add: log_words_def)
  have "fits K log i" using Cons.prems(2) w by (simp add: fits_def)
  then obtain s1 where s1: "log_push F K i log s = ((s1, ?log), Ok ())" "log_ok K ?log s1 (done_items @ [i])"
      "\<forall>j. j < base \<or> base + room \<le> j \<longrightarrow> byte_at F s1 j = byte_at F s j"
    using log_push_ok [OF Cons.prems(1)] by blast
  have "4 * (nl_word_pos ?log + log_words K items) \<le> room" using Cons.prems(2) w by simp
  then obtain s2 where s2: "log_push_all F K items ?log s1 =
        ((s2, ?log\<lparr>nl_word_pos := nl_word_pos ?log + log_words K items\<rparr>), Ok ())"
      "log_ok K (?log\<lparr>nl_word_pos := nl_word_pos ?log + log_words K items\<rparr>) s2 ((done_items @ [i]) @ items)"
      "\<forall>j. j < base \<or> base + room \<le> j \<longrightarrow> byte_at F s2 j = byte_at F s1 j"
    using Cons.IH [OF s1(2)] by blast
  then show ?case using s1 w by (simp add: add.assoc)
qed

lemma blank_log_ok: "blank F s base (base + room) \<Longrightarrow> log_ok K \<lparr>nl_flash = p, nl_word_pos = 0\<rparr> s []"
  by (simp add: log_ok_def)

lemma seek_iter_ok:
  assumes "codec_ok K (set items)" "log_ok K log s items" "4 * nl_word_pos log + 4 \<le> room"
  shows "seek_iter (length items + 1) F K log s = Some (log, Ok items)"
proof -
  have e: "nl_flash log = p" "entries K s 0 items (nl_word_pos log)" "blank F s (base + 4 * nl_word_pos log) (base + room)"
    using assms(2) by (simp_all add: log_ok_def)
  then have "blank F s (base + 4 * nl_word_pos log) (base + 4 * nl_word_pos log + 4)" using assms(3) by (auto simp: blank_def)
  then show ?thesis
    unfolding seek_iter_def
    using log_items_ok [OF assms(1,3) _ e(2) order_refl, of "log\<lparr>nl_word_pos := 0\<rparr>" "length items + 1"] e(1) by simp
qed

text \<open>Reading does not look behind the word at the end of the log.\<close>

lemma seek_iter_below:
  assumes "codec_ok K (set items)" "log_ok K log s items" "4 * nl_word_pos log + 4 \<le> room"
    and "\<forall>j<base + 4 * (nl_word_pos log + 1). byte_at F s' j = byte_at F s j"
  shows "seek_iter (length items + 1) F K log s' = Some (log, Ok items)"
proof -
  have e: "nl_flash log = p" "entries K s 0 items (nl_word_pos log)" "blank F s (base + 4 * nl_word_pos log) (base + room)"
    using assms(2) by (simp_all add: log_ok_def)
  then have "entries K s' 0 items (nl_word_pos log)" using assms(4) by (intro entries_cong [OF e(2)]) simp
  moreover have "blank F s' (base + 4 * nl_word_pos log) (base + 4 * nl_word_pos log + 4)"
    using e(3) assms(3,4) by (auto simp: blank_def)
  ultimately show ?thesis
    unfolding seek_iter_def
    using log_items_ok [OF assms(1,3), of s' 0 items "log\<lparr>nl_word_pos := 0\<rparr>" "length items + 1"] e(1) by simp
qed

lemma seek_iter_full:
  assumes "codec_ok K (set items)" "log_ok K log s items" "4 * nl_word_pos log = room"
  shows "seek_iter (length items + 1) F K log s = Some (log, Err (ReadFailed OutOfBounds))"
  unfolding seek_iter_def
  using log_items_full [OF assms(1,3), of s 0 items "log\<lparr>nl_word_pos := 0\<rparr>" "length items + 1"] assms(2)
  by (simp add: log_ok_def)

lemma push_cut_below:
  assumes "log_ok K log s items" "fits K log i"
  shows "\<forall>j<base + 4 * (nl_word_pos log + 1). byte_at F (push_cut F k (cd_encode K i) log s) j = byte_at F s j"
    and "\<forall>j<base + 4 * (nl_word_pos log + 1). byte_at F (fst (push_body F (cd_encode K i) log s)) j = byte_at F s j"
proof -
  let ?st = "nl_word_pos log + 1" and ?d = "concat (cd_encode K i)"
  let ?w = "\<lparr>fw_flash = p, fw_buf = replicate 32 255, fw_buf_index = 0, fw_word_pos = ?st\<rparr>"
  have l: "nl_flash log = p" "blank F s (base + 4 * nl_word_pos log) (base + room)"
      "4 * (nl_word_pos log + 1 + words_for (length ?d)) \<le> room"
    using assms by (simp_all add: log_ok_def fits_def)
  have blank: "blank F s (base + 4 * ?st) (base + room)" using l(2) by (auto simp: blank_def)
  have start: "u32_add (nl_word_pos log) 1 = ?st" using l(3) bounds(2) by (simp add: u32_max_def)
  have new: "bincode_writer F WRITE_BUF_SIZE (nl_flash log) =
      (Ok \<lparr>fw_flash = p, fw_buf = replicate 32 255, fw_buf_index = 0, fw_word_pos = 0\<rparr> :: (flash_error, _) result)"
    using l(1) words erase_size by (simp add: bincode_writer_def WRITE_BUF_SIZE_def)
  have at: "writer_at ?w s ?st [] s" by (auto simp: writer_at_def)
  have "4 * ?st + length ([] @ take k ?d) \<le> room" using words_for_fit [OF l(3)] by simp
  then obtain w' s' where "writer_write F (take k ?d) ?w s = ((s', w'), Ok ())" "writer_at w' s' ?st ([] @ take k ?d) s"
    using writer_write_ok [OF at _ blank] by blast
  then show "\<forall>j<base + 4 * (nl_word_pos log + 1). byte_at F (push_cut F k (cd_encode K i) log s) j = byte_at F s j"
    unfolding push_cut_def new start by (auto simp: writer_at_def)
  show "\<forall>j<base + 4 * (nl_word_pos log + 1). byte_at F (fst (push_body F (cd_encode K i) log s)) j = byte_at F s j"
    using push_body_ok [OF l(1,3) blank] by auto
qed

text \<open>A body that does not fit: the buffer is full when writing it fails.\<close>

lemma writer_write_full:
  assumes "fw_flash w = p" "length (fw_buf w) = 32" "fw_buf_index w < 32"
    and "room < 4 * fw_word_pos w + 32" "4 * fw_word_pos w \<le> room + 4"
  shows "if fw_buf_index w + length bs < 32
    then \<exists>w'. writer_write F bs w s = ((s, w'), Ok ()) \<and> fw_flash w' = p \<and> length (fw_buf w') = 32 \<and>
      fw_buf_index w' = fw_buf_index w + length bs \<and> fw_word_pos w' = fw_word_pos w
    else \<exists>w'. writer_write F bs w s = ((s, w'), Err OutOfBounds) \<and> fw_buf_index w' = 32"
  using assms
proof (induction bs arbitrary: w)
  case (Cons b bs)
  let ?w = "w\<lparr>fw_buf := (fw_buf w)[fw_buf_index w := b], fw_buf_index := fw_buf_index w + 1\<rparr>"
  show ?case
  proof (cases "fw_buf_index w + 1 = 32")
    case True
    have "room \<le> u32_max - 4095" using bounds(2) by (simp add: room_eq u32_max_def)
    then have "u32_mul (fw_word_pos w) 4 = 4 * fw_word_pos w"
      using Cons.prems(5) by (simp add: u32_mul_def u32_max_def mult.commute)
    moreover have "partition_size p < u32_saturating_add (4 * fw_word_pos w) (u32_of_usize 32)"
      by (rule out_of_bounds) (use Cons.prems(4) in \<open>simp_all add: u32_max_def\<close>)
    ultimately show ?thesis using True Cons.prems(1-3) words by (simp add: Let_def nor_write_def)
  next
    case False
    then obtain w1 where w1: "fw_flash w1 = p" "length (fw_buf w1) = 32" "fw_buf_index w1 < 32"
        "fw_word_pos w1 = fw_word_pos w" "fw_buf_index w1 = fw_buf_index w + 1"
        "writer_write F (b # bs) w s = writer_write F bs w1 s"
      using that [of ?w] Cons.prems(1-3) by (simp add: Let_def)
    show ?thesis using Cons.IH [OF w1(1-3)] Cons.prems(4,5) unfolding w1(4-6)
      by (cases "fw_buf_index w + length bs < 31") simp_all
  qed
qed simp

lemma write_pieces_full:
  assumes "fw_flash w = p" "length (fw_buf w) = 32" "fw_buf_index w < 32"
    and "room < 4 * fw_word_pos w + 32" "4 * fw_word_pos w \<le> room + 4" "32 \<le> fw_buf_index w + length (concat bss)"
  shows "\<exists>w'. write_pieces F bss w s = ((s, w'), Panic ''BincodeFlashWriter must be empty when dropped'')"
  using assms
proof (induction bss arbitrary: w)
  case (Cons bs bss)
  show ?case
  proof (cases "fw_buf_index w + length bs < 32")
    case True
    then obtain w' where "writer_write F bs w s = ((s, w'), Ok ())" "fw_flash w' = p" "length (fw_buf w') = 32"
        "fw_buf_index w' = fw_buf_index w + length bs" "fw_word_pos w' = fw_word_pos w"
      using writer_write_full [OF Cons.prems(1-5), of bs s] by auto
    then show ?thesis using Cons.IH [of w'] Cons.prems True by simp
  next
    case False
    then obtain w' where "writer_write F bs w s = ((s, w'), Err OutOfBounds)" "fw_buf_index w' = 32"
      using writer_write_full [OF Cons.prems(1-5), of bs s] by auto
    then show ?thesis by (simp add: writer_drop_def)
  qed
qed simp

lemma new_writer:
  "bincode_writer F WRITE_BUF_SIZE p =
    (Ok \<lparr>fw_flash = p, fw_buf = replicate 32 255, fw_buf_index = 0, fw_word_pos = 0\<rparr> :: (flash_error, _) result)"
  using words erase_size by (simp add: bincode_writer_def WRITE_BUF_SIZE_def)

lemma log_push_full:
  assumes "nl_flash log = p" "4 * nl_word_pos log \<le> room" "room < 4 * (nl_word_pos log + 1) + 32"
    and "32 \<le> length (concat (cd_encode K i))"
  shows "log_push F K i log s = ((s, log), Panic ''BincodeFlashWriter must be empty when dropped'')"
proof -
  let ?w = "\<lparr>fw_flash = p, fw_buf = replicate 32 255, fw_buf_index = 0, fw_word_pos = nl_word_pos log + 1\<rparr>"
  have "room \<le> u32_max - 4095" using bounds(2) by (simp add: room_eq u32_max_def)
  then have start: "u32_add (nl_word_pos log) 1 = nl_word_pos log + 1"
    using assms(2) by (simp add: u32_max_def)
  obtain w' where "write_pieces F (cd_encode K i) ?w s = ((s, w'), Panic ''BincodeFlashWriter must be empty when dropped'')"
    using write_pieces_full [of ?w "cd_encode K i" s] assms(2-4) by auto
  then have "push_body F (cd_encode K i) log s = (s, Panic ''BincodeFlashWriter must be empty when dropped'')"
    unfolding push_body_def assms(1) new_writer start by (simp add: Let_def)
  then show ?thesis by (simp add: log_push_def)
qed

end

subsection \<open>The flash of the tests\<close>

text \<open>An array of bytes, as \<^verbatim>\<open>TestNorFlash\<close> of \<^verbatim>\<open>frostsnap_embedded/src/test.rs\<close>, which has four
  sectors.\<close>

definition array_nor_flash :: "nat \<Rightarrow> (nat \<Rightarrow> byte) nor_flash" where
  "array_nor_flash n = \<lparr>nf_write_size = 4, nf_erase_size = 4096, nf_capacity = n,
     nf_read = (\<lambda>offset len s. if offset + len \<le> n then Ok (map s [offset..<offset + len]) else Panic ''range end index out of range''),
     nf_write = (\<lambda>offset bs s.
       if offset mod 4 \<noteq> 0 \<or> length bs mod 4 \<noteq> 0 then (s, Panic ''assertion failed'')
       else if offset + length bs \<le> n
       then ((\<lambda>i. if offset \<le> i \<and> i < offset + length bs then bs ! (i - offset) else s i), Ok ())
       else (s, Panic ''range end index out of range'')),
     nf_erase = (\<lambda>a b s.
       if a \<le> b \<and> b \<le> n then ((\<lambda>i. if a \<le> i \<and> i < b then 255 else s i), Ok ())
       else (s, Panic ''range end index out of range''))\<rparr>"

definition test_nor_flash :: "(nat \<Rightarrow> byte) nor_flash" where
  "test_nor_flash = array_nor_flash (4096 * 4)"

lemma array_sizes [simp]:
  "nf_write_size (array_nor_flash n) = 4" "nf_erase_size (array_nor_flash n) = 4096" "nf_capacity (array_nor_flash n) = n"
  by (simp_all add: array_nor_flash_def)

lemma byte_at_array: "byte_at (array_nor_flash n) s a = (if a < n then s a else 255)"
  by (simp add: byte_at_def array_nor_flash_def)

lemma byte_at_test: "byte_at test_nor_flash s a = (if a < 16384 then s a else 255)"
  by (simp add: test_nor_flash_def byte_at_array)

lemma array_flash_ok: "flash_ok (array_nor_flash n)"
  unfolding flash_ok_def byte_at_array by (auto simp: array_nor_flash_def)

lemma test_flash_ok: "flash_ok test_nor_flash"
  unfolding test_nor_flash_def by (rule array_flash_ok)

definition test_partition :: flash_partition where
  "test_partition = \<lparr>fp_offset_sector = 1, fp_n_sectors = 3\<rparr>"

lemma test_partition_ok: "partition_ok test_nor_flash test_partition"
  by (simp add: partition_ok_def test_nor_flash_def test_partition_def SECTOR_SIZE_def u32_max_def)

interpretation test_log: flash_part test_nor_flash test_partition 4096 12288
  by unfold_locales (simp_all add: test_flash_ok test_partition_ok, simp_all add: test_nor_flash_def test_partition_def)

subsection \<open>What the log promises\<close>

lemma seek_iter_word_pos [simp]: "seek_iter n F K (log\<lparr>nl_word_pos := w\<rparr>) s = seek_iter n F K log s"
  by (simp add: seek_iter_def)

text \<open>The bytes of a partition.\<close>

definition partition_start :: "flash_partition \<Rightarrow> nat" where
  "partition_start p = fp_offset_sector p * 4096"

definition partition_end :: "flash_partition \<Rightarrow> nat" where
  "partition_end p = partition_start p + fp_n_sectors p * 4096"

text \<open>A codec for bytes, for the examples.\<close>

definition byte_codec :: "(byte, unit) codec" where
  "byte_codec = \<lparr>cd_encode = (\<lambda>b. [[b]]), cd_decode = (\<lambda>bs. case bs of [] \<Rightarrow> (Err (), 0) | b # _ \<Rightarrow> (Ok b, 1))\<rparr>"

lemma byte_codec_ok: "codec_ok byte_codec I"
  by (simp add: codec_ok_def byte_codec_def)

lemma byte_codec_words: "log_words byte_codec items = 2 * length items"
  by (induction items) (simp_all add: log_words_def byte_codec_def words_for_def)

lemma flash_partI:
  "flash_ok F \<Longrightarrow> partition_ok F p \<Longrightarrow> nf_write_size F = 4 \<Longrightarrow>
   flash_part F p (partition_start p) (fp_n_sectors p * 4096)"
  by (simp add: flash_part_def partition_start_def)

lemma pushed_log_ok:
  assumes "flash_ok F" "partition_ok F p" "new_log F p = Ok log"
    and "blank F s (partition_start p) (partition_end p)" "4 * log_words K items \<le> fp_n_sectors p * 4096"
  shows "\<exists>s'. log_push_all F K items log s = ((s', log\<lparr>nl_word_pos := log_words K items\<rparr>), Ok ()) \<and>
    flash_part.log_ok F p (partition_start p) (fp_n_sectors p * 4096) K (log\<lparr>nl_word_pos := log_words K items\<rparr>) s' items \<and>
    (\<forall>a. a < partition_start p \<or> partition_end p \<le> a \<longrightarrow> byte_at F s' a = byte_at F s a)"
proof -
  have log: "log = \<lparr>nl_flash = p, nl_word_pos = 0\<rparr>" and size: "nf_write_size F = 4"
    using assms(3) by (simp_all add: new_log_def WORD_SIZE_def split: if_splits)
  note fp = flash_partI [OF assms(1,2) size]
  have "flash_part.log_ok F p (partition_start p) (fp_n_sectors p * 4096) K \<lparr>nl_flash = p, nl_word_pos = 0\<rparr> s []"
    by (rule flash_part.blank_log_ok [OF fp assms(4) [unfolded partition_end_def]])
  from flash_part.push_all_ok [OF fp this, of items] show ?thesis
    using assms(5) by (simp add: log partition_end_def)
qed

lemma new_log_write_size: "new_log F p = Ok log \<Longrightarrow> nf_write_size F = 4 \<and> nl_word_pos log = 0"
  by (auto simp: new_log_def WORD_SIZE_def split: if_splits)

text \<open>C17. On a blank partition that lies on a flash keeping its promises, any items that leave room for
  the word at the end are written, and the next start reads exactly them, in order; nothing outside the partition
  changes.\<close>

theorem log_keeps_items:
  assumes "flash_ok F" "partition_ok F p" "codec_ok K (set items)" "new_log F p = Ok log"
    and "blank F s (partition_start p) (partition_end p)"
    and "4 * log_words K items + 4 \<le> fp_n_sectors p * 4096"
  shows "\<exists>s' log'. log_push_all F K items log s = ((s', log'), Ok ()) \<and>
    seek_iter (length items + 1) F K log s' = Some (log', Ok items) \<and>
    (\<forall>a. a < partition_start p \<or> partition_end p \<le> a \<longrightarrow> byte_at F s' a = byte_at F s a)"
proof -
  have "4 * log_words K items \<le> fp_n_sectors p * 4096" using assms(6) by simp
  then obtain s' where "log_push_all F K items log s = ((s', log\<lparr>nl_word_pos := log_words K items\<rparr>), Ok ())"
      "flash_part.log_ok F p (partition_start p) (fp_n_sectors p * 4096) K (log\<lparr>nl_word_pos := log_words K items\<rparr>) s' items"
      "\<forall>a. a < partition_start p \<or> partition_end p \<le> a \<longrightarrow> byte_at F s' a = byte_at F s a"
    using pushed_log_ok [OF assms(1,2,4,5)] by blast
  moreover have "nf_write_size F = 4" using new_log_write_size [OF assms(4)] by blast
  ultimately show ?thesis
    using flash_part.seek_iter_ok [OF flash_partI [OF assms(1,2)] assms(3)] assms(6)
    by fastforce
qed

theorem log_keeps_items_witness:
  "\<exists>s' log'. log_push_all test_nor_flash byte_codec [7, 9] \<lparr>nl_flash = test_partition, nl_word_pos = 0\<rparr> (\<lambda>a. 255) =
      ((s', log'), Ok ()) \<and>
    seek_iter 3 test_nor_flash byte_codec \<lparr>nl_flash = test_partition, nl_word_pos = 0\<rparr> s' = Some (log', Ok [7, 9])"
proof -
  have "new_log test_nor_flash test_partition =
      (Ok \<lparr>nl_flash = test_partition, nl_word_pos = 0\<rparr> :: (unit, _) result)"
    by (simp add: new_log_def test_nor_flash_def WORD_SIZE_def)
  moreover have "blank test_nor_flash (\<lambda>a. 255) (partition_start test_partition) (partition_end test_partition)"
    by (simp add: blank_def byte_at_test)
  moreover have "4 * log_words byte_codec [7, 9] + 4 \<le> fp_n_sectors test_partition * 4096"
    by (simp add: byte_codec_words test_partition_def)
  ultimately have "\<exists>s' log'. log_push_all test_nor_flash byte_codec [7, 9] \<lparr>nl_flash = test_partition, nl_word_pos = 0\<rparr> (\<lambda>a. 255) =
      ((s', log'), Ok ()) \<and>
      seek_iter (length [7 :: byte, 9] + 1) test_nor_flash byte_codec \<lparr>nl_flash = test_partition, nl_word_pos = 0\<rparr> s' =
        Some (log', Ok [7, 9]) \<and>
      (\<forall>a. a < partition_start test_partition \<or> partition_end test_partition \<le> a \<longrightarrow>
        byte_at test_nor_flash s' a = byte_at test_nor_flash (\<lambda>a. 255) a)"
    by (rule log_keeps_items [OF test_flash_ok test_partition_ok byte_codec_ok])
  moreover have "length [7 :: byte, 9] + 1 = 3" by simp
  ultimately show ?thesis by metis
qed

lemma pushed_log:
  assumes "flash_ok F" "partition_ok F p" "new_log F p = Ok log"
    and "blank F s (partition_start p) (partition_end p)" "4 * log_words K items \<le> fp_n_sectors p * 4096"
    and "log_push_all F K items log s = ((s1, log1), Ok ())"
  shows "flash_part F p (partition_start p) (fp_n_sectors p * 4096)" "nl_word_pos log1 = log_words K items"
    "flash_part.log_ok F p (partition_start p) (fp_n_sectors p * 4096) K log1 s1 items"
    "seek_iter n F K log s' = seek_iter n F K log1 s'"
proof -
  show "flash_part F p (partition_start p) (fp_n_sectors p * 4096)"
    using flash_partI [OF assms(1,2)] new_log_write_size [OF assms(3)] by simp
  obtain s2 where "log_push_all F K items log s = ((s2, log\<lparr>nl_word_pos := log_words K items\<rparr>), Ok ())"
      "flash_part.log_ok F p (partition_start p) (fp_n_sectors p * 4096) K (log\<lparr>nl_word_pos := log_words K items\<rparr>) s2 items"
    using pushed_log_ok [OF assms(1-5)] by blast
  then show "nl_word_pos log1 = log_words K items"
    "flash_part.log_ok F p (partition_start p) (fp_n_sectors p * 4096) K log1 s1 items"
    "seek_iter n F K log s' = seek_iter n F K log1 s'"
    using assms(6) by auto
qed

lemma log_words_snoc: "log_words K (items @ [i]) = log_words K items + 1 + words_for (length (concat (cd_encode K i)))"
  by (simp add: log_words_def)

lemma test_log_new:
  "new_log test_nor_flash test_partition = (Ok \<lparr>nl_flash = test_partition, nl_word_pos = 0\<rparr> :: (unit, _) result)"
  by (simp add: new_log_def test_nor_flash_def WORD_SIZE_def)

lemma test_log_blank: "blank test_nor_flash (\<lambda>a. 255) (partition_start test_partition) (partition_end test_partition)"
  by (simp add: blank_def byte_at_test)

text \<open>Power may be lost at any byte of the body of a push, or between the body and the word with its
  length: the next start reads the items from before, and once the length is there it reads the new one too.\<close>

theorem log_survives_power_cut:
  assumes "flash_ok F" "partition_ok F p" "codec_ok K (set (items @ [i]))" "new_log F p = Ok log"
    and "blank F s (partition_start p) (partition_end p)"
    and "4 * log_words K (items @ [i]) + 4 \<le> fp_n_sectors p * 4096"
    and "log_push_all F K items log s = ((s1, log1), Ok ())"
  shows "seek_iter (length items + 1) F K log (push_cut F k (cd_encode K i) log1 s1) = Some (log1, Ok items) \<and>
    seek_iter (length items + 1) F K log (fst (push_body F (cd_encode K i) log1 s1)) = Some (log1, Ok items) \<and>
    (\<exists>s2 log2. log_push F K i log1 s1 = ((s2, log2), Ok ()) \<and>
       seek_iter (length items + 2) F K log s2 = Some (log2, Ok (items @ [i])))"
proof -
  have room: "4 * log_words K items \<le> fp_n_sectors p * 4096" using assms(6) by (simp add: log_words_snoc)
  note L = pushed_log [OF assms(1,2,4,5) room assms(7)]
  have fits: "flash_part.fits (fp_n_sectors p * 4096) K log1 i"
    using assms(6) L(2) by (simp add: flash_part.fits_def [OF L(1)] log_words_snoc)
  have more_room: "4 * nl_word_pos log1 + 4 \<le> fp_n_sectors p * 4096" using assms(6) L(2) by (simp add: log_words_snoc)
  have old_codec: "codec_ok K (set items)" using assms(3) by (simp add: codec_ok_def)
  have old: "seek_iter (length items + 1) F K log (push_cut F k (cd_encode K i) log1 s1) = Some (log1, Ok items)"
      "seek_iter (length items + 1) F K log (fst (push_body F (cd_encode K i) log1 s1)) = Some (log1, Ok items)"
    unfolding L(4)
    by (rule flash_part.seek_iter_below [OF L(1) old_codec L(3) more_room flash_part.push_cut_below(1) [OF L(1,3) fits]],
        rule flash_part.seek_iter_below [OF L(1) old_codec L(3) more_room flash_part.push_cut_below(2) [OF L(1,3) fits]])
  let ?log2 = "log1\<lparr>nl_word_pos := nl_word_pos log1 + 1 + words_for (length (concat (cd_encode K i)))\<rparr>"
  obtain s2 where s2: "log_push F K i log1 s1 = ((s2, ?log2), Ok ())"
      "flash_part.log_ok F p (partition_start p) (fp_n_sectors p * 4096) K ?log2 s2 (items @ [i])"
    using flash_part.log_push_ok [OF L(1,3) fits] by blast
  have "4 * nl_word_pos ?log2 + 4 \<le> fp_n_sectors p * 4096" using assms(6) L(2) by (simp add: log_words_snoc)
  then have "seek_iter (length (items @ [i]) + 1) F K ?log2 s2 = Some (?log2, Ok (items @ [i]))"
    by (rule flash_part.seek_iter_ok [OF L(1) assms(3) s2(2)])
  then have "seek_iter (length items + 2) F K log s2 = Some (?log2, Ok (items @ [i]))"
    unfolding L(4) by (simp add: add.commute)
  then show ?thesis using old s2(1) by blast
qed

lemma test_push_one:
  "\<exists>s1. log_push_all test_nor_flash byte_codec [7] \<lparr>nl_flash = test_partition, nl_word_pos = 0\<rparr> (\<lambda>a. 255) =
    ((s1, \<lparr>nl_flash = test_partition, nl_word_pos = 2\<rparr>), Ok ())"
  using pushed_log_ok [OF test_flash_ok test_partition_ok test_log_new test_log_blank, of byte_codec "[7]"]
  by (auto simp: byte_codec_words test_partition_def)

theorem log_survives_power_cut_witness:
  "\<exists>s1. log_push_all test_nor_flash byte_codec [7] \<lparr>nl_flash = test_partition, nl_word_pos = 0\<rparr> (\<lambda>a. 255) =
      ((s1, \<lparr>nl_flash = test_partition, nl_word_pos = 2\<rparr>), Ok ()) \<and>
    seek_iter 2 test_nor_flash byte_codec \<lparr>nl_flash = test_partition, nl_word_pos = 0\<rparr>
      (fst (push_body test_nor_flash (cd_encode byte_codec 9) \<lparr>nl_flash = test_partition, nl_word_pos = 2\<rparr> s1)) =
      Some (\<lparr>nl_flash = test_partition, nl_word_pos = 2\<rparr>, Ok [7])"
proof -
  obtain s1 where s1: "log_push_all test_nor_flash byte_codec [7] \<lparr>nl_flash = test_partition, nl_word_pos = 0\<rparr> (\<lambda>a. 255) =
      ((s1, \<lparr>nl_flash = test_partition, nl_word_pos = 2\<rparr>), Ok ())"
    using test_push_one by blast
  have room: "4 * log_words byte_codec ([7] @ [9]) + 4 \<le> fp_n_sectors test_partition * 4096"
    by (simp add: byte_codec_words test_partition_def)
  have "length [7 :: byte] + 1 = 2" by simp
  then show ?thesis
    using log_survives_power_cut [OF test_flash_ok test_partition_ok byte_codec_ok test_log_new test_log_blank room s1] s1
    by metis
qed

text \<open>C21. A log whose entries fill the partition to its last word is written without an error and cannot be
  read: past the last entry the iterator looks for a length word beyond the end and reports the failure as
  an entry, on which the device stops when it starts. An entry of 32 bytes or more that does not fit behind them is
  not refused either: dropping the writer with its full buffer panics.\<close>

theorem full_log_unreadable:
  assumes "flash_ok F" "partition_ok F p" "codec_ok K (set items)" "new_log F p = Ok log"
    and "blank F s (partition_start p) (partition_end p)"
    and "4 * log_words K items = fp_n_sectors p * 4096" "32 \<le> length (concat (cd_encode K i))"
  shows "\<exists>s' log'. log_push_all F K items log s = ((s', log'), Ok ()) \<and>
    seek_iter (length items + 1) F K log s' = Some (log', Err (ReadFailed OutOfBounds)) \<and>
    log_push F K i log' s' = ((s', log'), Panic ''BincodeFlashWriter must be empty when dropped'')"
proof -
  have room: "4 * log_words K items \<le> fp_n_sectors p * 4096" using assms(6) by simp
  obtain s' log' where s': "log_push_all F K items log s = ((s', log'), Ok ())"
    using pushed_log_ok [OF assms(1,2,4,5) room] by blast
  note L = pushed_log [OF assms(1,2,4,5) room s']
  have full: "4 * nl_word_pos log' = fp_n_sectors p * 4096" using L(2) assms(6) by simp
  have "nl_flash log' = p" using L(3) flash_part.log_ok_def [OF L(1)] by blast
  then have "log_push F K i log' s' = ((s', log'), Panic ''BincodeFlashWriter must be empty when dropped'')"
    by (rule flash_part.log_push_full [OF L(1)]) (use full assms(7) in simp_all)
  moreover have "seek_iter (length items + 1) F K log s' = Some (log', Err (ReadFailed OutOfBounds))"
    unfolding L(4) by (rule flash_part.seek_iter_full [OF L(1) assms(3) L(3) full])
  ultimately show ?thesis using s' by blast
qed

text \<open>A codec with one long item, for the example.\<close>

definition long_codec :: "(byte, unit) codec" where
  "long_codec = \<lparr>cd_encode = (\<lambda>b. if b = 0 then [replicate 32 0] else [[b]]),
     cd_decode = (\<lambda>bs. case bs of [] \<Rightarrow> (Err (), 0) | b # _ \<Rightarrow> (Ok b, if b = 0 then 32 else 1))\<rparr>"

lemma long_codec_ok: "codec_ok long_codec I"
  by (simp add: codec_ok_def long_codec_def numeral_eq_Suc)

lemma long_codec_words: "log_words long_codec (replicate n 1) = 2 * n"
  by (induction n) (simp_all add: log_words_def long_codec_def words_for_def)

theorem full_log_unreadable_witness:
  "\<exists>s' log'. log_push_all test_nor_flash long_codec (replicate 1536 1) \<lparr>nl_flash = test_partition, nl_word_pos = 0\<rparr>
      (\<lambda>a. 255) = ((s', log'), Ok ()) \<and>
    log_push test_nor_flash long_codec 0 log' s' = ((s', log'), Panic ''BincodeFlashWriter must be empty when dropped'')"
proof -
  have full: "4 * log_words long_codec (replicate 1536 1) = fp_n_sectors test_partition * 4096"
    unfolding long_codec_words by (simp add: test_partition_def)
  have long: "32 \<le> length (concat (cd_encode long_codec 0))" by (simp add: long_codec_def)
  show ?thesis
    using full_log_unreadable [OF test_flash_ok test_partition_ok long_codec_ok test_log_new test_log_blank full long]
    by blast
qed

end
