(* ===== verification/FlashLog.thy ===== *)
theory FlashLog
  imports NorLogProps AbWrite DeviceState
begin

section \<open>The mutations of a device on flash\<close>

text \<open>
  Models \<^verbatim>\<open>frostsnap_embedded/src/flash_log.rs\<close> and the start of \<^verbatim>\<open>device_loop.rs\<close> that reads it: mutations
  that carry a secret share are written to a slot of two sectors that holds one value, all others to the
  append-only log, and at the next start the log is applied first and the slot after it. The log is modelled down
  to its bytes (\<open>NorLog\<close>), the slot by what decoding its sectors gives (\<open>AbWrite\<close>); the two lie in different
  partitions.
\<close>

datatype flash_mutation = FmCore device_mutation | FmName string

datatype share_slot =
    SecretShare save_share_mutation
  | SlotSavedBackup saved_backup
  | SlotSavedBackup2 saved_backup2

text \<open>The one mutation of \<^verbatim>\<open>into_mutations\<close>.\<close>

fun slot_mutation :: "share_slot \<Rightarrow> device_mutation" where
  "slot_mutation (SecretShare m) = DmKeygen (DkSaveShare m)"
| "slot_mutation (SlotSavedBackup b) = DmRestoration (DrSave b)"
| "slot_mutation (SlotSavedBackup2 b) = DmRestoration (DrSave2 b)"

record flash_log =
  fl_log :: nor_flash_log
  fl_share_slot :: "share_slot ab_slot"

definition new_flash_log :: "'s nor_flash \<Rightarrow> share_slot ab_slot \<Rightarrow> flash_partition \<Rightarrow> ('e, flash_log) result" where
  "new_flash_log F share_slot log_flash =
     and_then (new_log F log_flash) (\<lambda>log. Ok \<lparr>fl_log = log, fl_share_slot = share_slot\<rparr>)"

subsection \<open>Writing\<close>

definition write_share_slot :: "share_slot \<Rightarrow> flash_log \<Rightarrow> 's \<Rightarrow> ('s \<times> flash_log) \<times> (flash_error, unit) result" where
  "write_share_slot v L s =
     (case ab_write v (fl_share_slot L) of
        Some slot \<Rightarrow> ((s, L\<lparr>fl_share_slot := slot\<rparr>), Ok ())
      | None \<Rightarrow> ((s, L), Panic ''slot has been written too many times''))"

fun flash_log_push :: "'s nor_flash \<Rightarrow> (flash_mutation, 'd) codec \<Rightarrow> flash_mutation \<Rightarrow> flash_log \<Rightarrow> 's \<Rightarrow>
    ('s \<times> flash_log) \<times> (flash_error, unit) result" where
  "flash_log_push F K (FmCore (DmKeygen (DkSaveShare m))) L s = write_share_slot (SecretShare m) L s"
| "flash_log_push F K (FmCore (DmRestoration (DrSave b))) L s =
     write_share_slot (SlotSavedBackup2 (saved_backup2_of b)) L s"
| "flash_log_push F K (FmCore (DmRestoration (DrSave2 b))) L s = write_share_slot (SlotSavedBackup2 b) L s"
| "flash_log_push F K m L s =
     (case log_push F K m (fl_log L) s of ((s, log), r) \<Rightarrow> ((s, L\<lparr>fl_log := log\<rparr>), r))"

fun flash_log_append :: "'s nor_flash \<Rightarrow> (flash_mutation, 'd) codec \<Rightarrow> flash_mutation list \<Rightarrow> flash_log \<Rightarrow> 's \<Rightarrow>
    ('s \<times> flash_log) \<times> (flash_error, unit) result" where
  "flash_log_append F K [] L s = ((s, L), Ok ())"
| "flash_log_append F K (m # ms) L s =
     (case flash_log_push F K m L s of
        ((s, L), Ok _) \<Rightarrow> flash_log_append F K ms L s
      | ((s, L), Err e) \<Rightarrow> ((s, L), Err e)
      | ((s, L), Panic msg) \<Rightarrow> ((s, L), Panic msg))"

subsection \<open>Reading\<close>

text \<open>The log, and behind it what the slot holds. Who reads stops at the first failure.\<close>

definition flash_log_seek_iter :: "nat \<Rightarrow> 's nor_flash \<Rightarrow> (flash_mutation, 'd) codec \<Rightarrow> flash_log \<Rightarrow> 's \<Rightarrow>
    (flash_log \<times> ('d log_error, flash_mutation list) result) option" where
  "flash_log_seek_iter fuel F K L s =
     map_option (\<lambda>(log, r). (L\<lparr>fl_log := log\<rparr>, and_then r (\<lambda>ms.
         Ok (ms @ (case ab_read (fl_share_slot L) of None \<Rightarrow> [] | Some v \<Rightarrow> [FmCore (slot_mutation v)])))))
       (seek_iter fuel F K (fl_log L) s)"

text \<open>What \<^verbatim>\<open>DeviceLoop::new\<close> does with it: the mutations are applied and not staged, a name is cut to its length.\<close>

definition DEVICE_NAME_MAX_LENGTH :: nat where
  "DEVICE_NAME_MAX_LENGTH = 14"

definition truncate_name :: "string \<Rightarrow> string" where
  "truncate_name n = (if DEVICE_NAME_MAX_LENGTH < length n then take DEVICE_NAME_MAX_LENGTH n else n)"

fun load_change :: "crypto \<Rightarrow> flash_mutation \<Rightarrow> 's frost_signer \<times> string option \<Rightarrow> 's frost_signer \<times> string option" where
  "load_change C (FmCore m) (d, name) = (fst (device_apply_mutation C m d), name)"
| "load_change C (FmName n) (d, name) = (d, Some (truncate_name n))"

definition load_device :: "nat \<Rightarrow> 'f nor_flash \<Rightarrow> (flash_mutation, 'd) codec \<Rightarrow> crypto \<Rightarrow> flash_log \<Rightarrow> 'f \<Rightarrow>
    's frost_signer \<Rightarrow> ('d log_error, 's frost_signer \<times> string option) result option" where
  "load_device fuel F K C L s signer =
     map_option (\<lambda>(_, r).
       case r of
         Ok changes \<Rightarrow> Ok (fold (load_change C) changes (signer, None))
       | Err e \<Rightarrow> Panic ''failed to read event''
       | Panic m \<Rightarrow> Panic m)
     (flash_log_seek_iter fuel F K L s)"

subsection \<open>What a start reads\<close>

text \<open>What is kept in the slot of a mutation that carries a share.\<close>

fun slot_of :: "flash_mutation \<Rightarrow> share_slot option" where
  "slot_of (FmCore (DmKeygen (DkSaveShare m))) = Some (SecretShare m)"
| "slot_of (FmCore (DmRestoration (DrSave b))) = Some (SlotSavedBackup2 (saved_backup2_of b))"
| "slot_of (FmCore (DmRestoration (DrSave2 b))) = Some (SlotSavedBackup2 b)"
| "slot_of m = None"

definition log_part :: "flash_mutation list \<Rightarrow> flash_mutation list" where
  "log_part ms = filter (\<lambda>m. slot_of m = None) ms"

definition share_part :: "flash_mutation list \<Rightarrow> share_slot option" where
  "share_part ms = fold (\<lambda>m old. case slot_of m of None \<Rightarrow> old | Some v \<Rightarrow> Some v) ms None"

definition slot_mutations :: "share_slot option \<Rightarrow> flash_mutation list" where
  "slot_mutations v = (case v of None \<Rightarrow> [] | Some v \<Rightarrow> [FmCore (slot_mutation v)])"

text \<open>The order in which a start applies what was pushed.\<close>

definition boot_order :: "flash_mutation list \<Rightarrow> flash_mutation list" where
  "boot_order ms = log_part ms @ slot_mutations (share_part ms)"

lemma log_part_simps [simp]:
  "log_part [] = []" "log_part (ms @ ns) = log_part ms @ log_part ns"
  "log_part (m # ms) = (case slot_of m of None \<Rightarrow> [m] | Some v \<Rightarrow> []) @ log_part ms"
  by (auto simp: log_part_def split: option.split)

lemma share_part_simps [simp]:
  "share_part [] = None"
  "share_part (ms @ [m]) = (case slot_of m of None \<Rightarrow> share_part ms | Some v \<Rightarrow> Some v)"
  by (auto simp: share_part_def split: option.split)

lemma flash_log_push_eq:
  "flash_log_push F K m L s =
     (case slot_of m of
        Some v \<Rightarrow> write_share_slot v L s
      | None \<Rightarrow> (case log_push F K m (fl_log L) s of ((s, log), r) \<Rightarrow> ((s, L\<lparr>fl_log := log\<rparr>), r)))"
  by (cases m rule: slot_of.cases) simp_all

lemma log_words_append [simp]: "log_words K (a @ b) = log_words K a + log_words K b"
  by (simp add: log_words_def)

text \<open>How often a slot was written.\<close>

definition slot_writes :: "'a ab_slot \<Rightarrow> nat" where
  "slot_writes a = (case committed_index a of None \<Rightarrow> 0 | Some i \<Rightarrow> Suc i)"

lemma ab_next_counts:
  assumes "slot_writes a < u32_max"
  shows "\<exists>n. ab_next a = Some (n, slot_writes a)"
proof (cases "current_slot_and_index a")
  case None
  then show ?thesis by (simp add: ab_next_def slot_writes_def committed_index_def)
next
  case (Some cj)
  obtain c j where cj: "cj = (c, j)" by (cases cj)
  then have w: "slot_writes a = Suc j" using Some by (simp add: slot_writes_def committed_index_def)
  then have "u32_add j 1 = Suc j" using assms by (simp add: u32_max_def)
  then show ?thesis using Some cj w assms by (simp add: ab_next_def)
qed

lemma ab_write_counts:
  assumes "ab_ok a" "slot_writes a < u32_max"
  shows "\<exists>a'. ab_write v a = Some a' \<and> ab_ok a' \<and> slot_writes a' = Suc (slot_writes a) \<and> ab_read a' = Some v"
proof -
  obtain n where n: "ab_next a = Some (n, slot_writes a)" using ab_next_counts [OF assms(2)] by blast
  then obtain a' where a': "ab_write v a = Some a'" using ab_write_eq [of v a] by blast
  then have "slot_writes a' = Suc (slot_writes a)"
    using ab_write_committed [OF n a'] by (simp add: slot_writes_def)
  then show ?thesis using a' ab_write_ok [OF assms(1) a'] ab_write_reads [OF a'] by blast
qed

context flash_part
begin

text \<open>The log holds the mutations without a share, and the slot the last one with a share.\<close>

definition flash_log_ok :: "(flash_mutation, 'd) codec \<Rightarrow> flash_log \<Rightarrow> 's \<Rightarrow> flash_mutation list \<Rightarrow> bool" where
  "flash_log_ok K L s ms \<longleftrightarrow> log_ok K (fl_log L) s (log_part ms) \<and> nl_word_pos (fl_log L) = log_words K (log_part ms) \<and>
     ab_ok (fl_share_slot L) \<and> ab_read (fl_share_slot L) = share_part ms \<and> slot_writes (fl_share_slot L) \<le> length ms"

lemma flash_push_ok:
  assumes "flash_log_ok K L s ms" "4 * log_words K (log_part (ms @ [m])) \<le> room" "length ms < u32_max"
  shows "\<exists>s' L'. flash_log_push F K m L s = ((s', L'), Ok ()) \<and> flash_log_ok K L' s' (ms @ [m])"
proof (cases "slot_of m")
  case None
  have "fits K (fl_log L) m"
    using assms(1,2) None by (simp add: fits_def flash_log_ok_def log_words_def)
  from log_push_ok [OF _ this, of s "log_part ms"] assms(1) None show ?thesis
    by (fastforce simp: flash_log_push_eq flash_log_ok_def log_words_def)
next
  case (Some v)
  obtain a where "ab_write v (fl_share_slot L) = Some a" "ab_ok a" "ab_read a = Some v"
      "slot_writes a = Suc (slot_writes (fl_share_slot L))"
    using ab_write_counts [of "fl_share_slot L" v] assms(1,3) by (auto simp: flash_log_ok_def)
  then show ?thesis
    using assms(1) Some by (auto simp: flash_log_push_eq write_share_slot_def flash_log_ok_def)
qed

lemma flash_append_ok:
  "flash_log_ok K L s ms \<Longrightarrow> 4 * log_words K (log_part (ms @ ns)) \<le> room \<Longrightarrow> length (ms @ ns) \<le> u32_max \<Longrightarrow>
   \<exists>s' L'. flash_log_append F K ns L s = ((s', L'), Ok ()) \<and> flash_log_ok K L' s' (ms @ ns)"
proof (induction ns arbitrary: L s ms)
  case (Cons n ns)
  have "4 * log_words K (log_part (ms @ [n])) \<le> room" "length ms < u32_max"
    using Cons.prems(2,3) by (simp_all add: distrib_left)
  then obtain s1 L1 where L1: "flash_log_push F K n L s = ((s1, L1), Ok ())" "flash_log_ok K L1 s1 (ms @ [n])"
    using flash_push_ok [OF Cons.prems(1)] by blast
  then obtain s2 L2 where "flash_log_append F K ns L1 s1 = ((s2, L2), Ok ())" "flash_log_ok K L2 s2 ((ms @ [n]) @ ns)"
    using Cons.IH [OF L1(2)] Cons.prems(2,3) by auto
  then show ?case using L1(1) by simp
qed simp

lemma flash_seek_enough:
  assumes "codec_ok K (set ms)" "flash_log_ok K L s ms" "4 * log_words K (log_part ms) + 4 \<le> room" "length ms < n"
  shows "flash_log_seek_iter n F K L s = Some (L, Ok (boot_order ms))"
proof -
  have l: "nl_flash (fl_log L) = p" "entries K s 0 (log_part ms) (nl_word_pos (fl_log L))"
      "blank F s (base + 4 * nl_word_pos (fl_log L)) (base + room)" "nl_word_pos (fl_log L) = log_words K (log_part ms)"
    using assms(2) unfolding flash_log_ok_def log_ok_def by blast+
  have part: "set (log_part ms) \<subseteq> set ms" by (auto simp: log_part_def)
  have fits: "4 * nl_word_pos (fl_log L) + 4 \<le> room" using assms(3) l(4) by simp
  then have "blank F s (base + 4 * nl_word_pos (fl_log L)) (base + 4 * nl_word_pos (fl_log L) + 4)"
    using l(3) fits by (auto simp: blank_def)
  moreover have "length (log_part ms) < n"
    using assms(4) by (simp add: log_part_def le_less_trans [OF length_filter_le])
  ultimately have "seek_iter n F K (fl_log L) s = Some (fl_log L, Ok (log_part ms))"
    unfolding seek_iter_def
    using log_items_ok [OF assms(1) fits _ l(2) part, of "(fl_log L)\<lparr>nl_word_pos := 0\<rparr>" n] l(1) by simp
  then show ?thesis
    using assms(2) by (simp add: flash_log_seek_iter_def flash_log_ok_def boot_order_def slot_mutations_def)
qed

lemma blank_flash_log_ok:
  "blank F s base (base + room) \<Longrightarrow> flash_log_ok K
     \<lparr>fl_log = \<lparr>nl_flash = p, nl_word_pos = 0\<rparr>, fl_share_slot = \<lparr>ab_a = Erased, ab_b = Erased\<rparr>\<rparr> s []"
  using blank_log_ok [of s K]
  by (simp add: flash_log_ok_def ab_ok_def committed_index_max ab_read_def current_slot_and_index_def ab_image_def
      slot_writes_def log_words_def)

end

end
