(* ===== verification/FlashLogProps.thy ===== *)
theory FlashLogProps
  imports FlashLog DeviceProps
begin

section \<open>What a device finds on its flash\<close>

text \<open>
  Lemmas and properties of \<open>FlashLog\<close>: the device that a start builds from its flash against the device that
  wrote there, and what a power cut in the middle of a write leaves to be read.
\<close>

fun core_mutations :: "flash_mutation list \<Rightarrow> device_mutation list" where
  "core_mutations [] = []"
| "core_mutations (FmCore m # ms) = m # core_mutations ms"
| "core_mutations (FmName n # ms) = core_mutations ms"

fun names_of :: "flash_mutation list \<Rightarrow> string list" where
  "names_of [] = []"
| "names_of (FmCore m # ms) = names_of ms"
| "names_of (FmName n # ms) = n # names_of ms"

definition loaded_name :: "flash_mutation list \<Rightarrow> string option \<Rightarrow> string option" where
  "loaded_name ms name = (if names_of ms = [] then name else Some (truncate_name (last (names_of ms))))"

lemma core_mutations_append [simp]: "core_mutations (ms @ ns) = core_mutations ms @ core_mutations ns"
  by (induction ms rule: core_mutations.induct) simp_all

lemma names_of_append [simp]: "names_of (ms @ ns) = names_of ms @ names_of ns"
  by (induction ms rule: names_of.induct) simp_all

lemma core_mutations_names: "\<forall>m\<in>set ms. \<exists>n. m = FmName n \<Longrightarrow> core_mutations ms = []"
  by (induction ms rule: core_mutations.induct) auto

lemma names_of_log_part [simp]: "names_of (log_part ms) = names_of ms"
  by (induction ms rule: names_of.induct) (auto split: option.split)

lemma names_of_slot_mutations [simp]: "names_of (slot_mutations v) = []"
  by (cases v) (simp_all add: slot_mutations_def)

lemma fold_load_change:
  "fold (load_change C) ms (d, name) = (replay (device_apply_mutation C) (core_mutations ms) d, loaded_name ms name)"
  by (induction ms arbitrary: d name rule: core_mutations.induct) (auto simp: loaded_name_def)

subsection \<open>One share\<close>

fun slot_image :: "crypto \<Rightarrow> share_slot \<Rightarrow> share_image" where
  "slot_image C (SecretShare m) = es_share_image (ssm_encrypted_share m)"
| "slot_image C (SlotSavedBackup b) = backup_share_image C (svb1_share_backup b)"
| "slot_image C (SlotSavedBackup2 b) = backup_share_image C (svb_share_backup b)"

text \<open>The mutations of a device that holds one share: backups of it may come before it is saved, and only
  names after it.\<close>

definition one_share :: "crypto \<Rightarrow> flash_mutation list \<Rightarrow> bool" where
  "one_share C ms \<longleftrightarrow> (\<forall>n\<in>set ms. slot_of n = None) \<or>
     (\<exists>pre m post v. ms = pre @ m # post \<and> slot_of m = Some v \<and>
        (\<forall>n\<in>set pre. \<forall>u. slot_of n = Some u \<longrightarrow> (\<exists>b. u = SlotSavedBackup2 b) \<and> slot_image C u = slot_image C v) \<and>
        (\<forall>n\<in>set post. \<exists>s. n = FmName s))"

text \<open>The device in memory against one that never saw the backups of the share \<open>im\<close>.\<close>

definition same_but_backup :: "share_image \<Rightarrow> 's frost_signer \<Rightarrow> 's frost_signer \<Rightarrow> bool" where
  "same_but_backup im d e \<longleftrightarrow> fs_keys d = fs_keys e \<and> saved_backups (fs_restoration e) = [] \<and>
     (saved_backups (fs_restoration d) = [] \<or> (\<exists>b. saved_backups (fs_restoration d) = [(im, b)]))"

lemmas apply_defs = device_apply_mutation_simps apply_new_key_def apply_new_access_structure_def apply_save_share_def
  remove_backups_with_share_image_def bt_remove_def

lemma same_but_backup_log:
  "same_but_backup im d e \<Longrightarrow> slot_of (FmCore m) = None \<Longrightarrow>
   same_but_backup im (fst (device_apply_mutation C m d)) (fst (device_apply_mutation C m e))"
  by (cases "FmCore m" rule: slot_of.cases) (auto simp: same_but_backup_def apply_defs)

lemma same_but_backup_slot:
  "same_but_backup im d e \<Longrightarrow> slot_of (FmCore m) = Some (SlotSavedBackup2 b) \<Longrightarrow>
   backup_share_image C (svb_share_backup b) = im \<Longrightarrow> same_but_backup im (fst (device_apply_mutation C m d)) e"
  by (cases "FmCore m" rule: slot_of.cases) (auto simp: same_but_backup_def apply_defs)

lemma same_but_backup_replay:
  "same_but_backup im d e \<Longrightarrow>
   \<forall>n\<in>set ms. \<forall>u. slot_of n = Some u \<longrightarrow> (\<exists>b. u = SlotSavedBackup2 b) \<and> slot_image C u = im \<Longrightarrow>
   same_but_backup im (replay (device_apply_mutation C) (core_mutations ms) d)
     (replay (device_apply_mutation C) (core_mutations (log_part ms)) e)"
proof (induction ms arbitrary: d e rule: core_mutations.induct)
  case (2 m ms)
  show ?case
  proof (cases "slot_of (FmCore m)")
    case None
    then show ?thesis using "2.IH" [OF same_but_backup_log [OF "2.prems"(1) None]] "2.prems"(2) by simp
  next
    case (Some u)
    then obtain b where b: "u = SlotSavedBackup2 b" "slot_image C u = im" using "2.prems"(2) by auto
    then have "same_but_backup im (fst (device_apply_mutation C m d)) e"
      using same_but_backup_slot [OF "2.prems"(1)] Some by simp
    then show ?thesis using "2.IH" "2.prems"(2) Some by simp
  qed
qed simp_all

lemma same_but_backup_last:
  "same_but_backup im d e \<Longrightarrow> slot_of (FmCore m) = Some v \<Longrightarrow> slot_image C v = im \<Longrightarrow>
   device_durable (fst (device_apply_mutation C (slot_mutation v) e)) =
   device_durable (fst (device_apply_mutation C m d))"
  by (cases "FmCore m" rule: slot_of.cases)
    (auto simp: same_but_backup_def apply_defs device_durable_def Let_def)

lemma log_part_all: "\<forall>n\<in>set ms. slot_of n = None \<Longrightarrow> log_part ms = ms \<and> share_part ms = None"
  by (induction ms rule: rev_induct) simp_all

lemma share_part_names: "\<forall>n\<in>set post. \<exists>s. n = FmName s \<Longrightarrow> share_part (ms @ post) = share_part ms"
proof (induction post rule: rev_induct)
  case (snoc n post)
  then have "share_part ((ms @ post) @ [n]) = share_part (ms @ post)" by (auto simp del: append_assoc)
  then show ?case using snoc by simp
qed simp

lemma boot_order_durable:
  assumes "one_share C ms" "fs_keys d = []" "saved_backups (fs_restoration d) = []"
  shows "device_durable (replay (device_apply_mutation C) (core_mutations (boot_order ms)) d) =
    device_durable (replay (device_apply_mutation C) (core_mutations ms) d)"
proof (cases "\<forall>n\<in>set ms. slot_of n = None")
  case True
  then show ?thesis using log_part_all [OF True] by (simp add: boot_order_def slot_mutations_def)
next
  case False
  then obtain pre m post v where ms: "ms = pre @ m # post" "slot_of m = Some v"
      "\<forall>n\<in>set pre. \<forall>u. slot_of n = Some u \<longrightarrow> (\<exists>b. u = SlotSavedBackup2 b) \<and> slot_image C u = slot_image C v"
      "\<forall>n\<in>set post. \<exists>s. n = FmName s"
    using assms(1) by (auto simp: one_share_def)
  obtain c where c: "m = FmCore c" using ms(2) by (cases m) auto
  have post: "core_mutations post = []" "log_part post = post"
    using core_mutations_names [OF ms(4)] log_part_all [of post] ms(4) by force+
  have share: "share_part ms = Some v" using share_part_names [OF ms(4), of "pre @ [m]"] ms(1,2) by simp
  have "same_but_backup (slot_image C v) d d" using assms(2,3) by (simp add: same_but_backup_def)
  from same_but_backup_last [OF same_but_backup_replay [OF this ms(3)] ms(2) [unfolded c] refl] show ?thesis
    using post share ms(2) unfolding c by (simp add: boot_order_def ms(1) c slot_mutations_def)
qed

subsection \<open>What a start builds\<close>

text \<open>A flash that was never written, as \<^verbatim>\<open>MutationLog::new\<close> finds it.\<close>

abbreviation blank_slot :: "share_slot ab_slot" where
  "blank_slot \<equiv> \<lparr>ab_a = Erased, ab_b = Erased\<rparr>"

lemma appended_ok:
  assumes "flash_ok F" "partition_ok F p" "new_flash_log F blank_slot p = Ok L"
    and "blank F s (partition_start p) (partition_end p)"
    and "4 * log_words K (log_part ms) \<le> fp_n_sectors p * 4096" "length ms \<le> u32_max"
  shows "flash_part F p (partition_start p) (fp_n_sectors p * 4096)"
    "\<exists>s' L'. flash_log_append F K ms L s = ((s', L'), Ok ()) \<and>
      flash_part.flash_log_ok F p (partition_start p) (fp_n_sectors p * 4096) K L' s' ms"
proof -
  have L: "L = \<lparr>fl_log = \<lparr>nl_flash = p, nl_word_pos = 0\<rparr>, fl_share_slot = blank_slot\<rparr>" "nf_write_size F = 4"
    using assms(3) by (auto simp: new_flash_log_def new_log_def WORD_SIZE_def split: if_splits)
  show fp: "flash_part F p (partition_start p) (fp_n_sectors p * 4096)" by (rule flash_partI [OF assms(1,2) L(2)])
  have "flash_part.flash_log_ok F p (partition_start p) (fp_n_sectors p * 4096) K L s []"
    unfolding L(1) by (rule flash_part.blank_flash_log_ok [OF fp assms(4) [unfolded partition_end_def]])
  from flash_part.flash_append_ok [OF fp this, of ms] assms(5,6)
  show "\<exists>s' L'. flash_log_append F K ms L s = ((s', L'), Ok ()) \<and>
      flash_part.flash_log_ok F p (partition_start p) (fp_n_sectors p * 4096) K L' s' ms"
    by simp
qed

text \<open>The log as \<^verbatim>\<open>MutationLog::new\<close> makes it again at the next start, where the slot is found as it was left.\<close>

definition reopened :: "flash_log \<Rightarrow> flash_log \<Rightarrow> flash_log" where
  "reopened L L' = L\<lparr>fl_share_slot := fl_share_slot L'\<rparr>"

lemma reopened_reads:
  "nl_flash (fl_log L) = nl_flash (fl_log L') \<Longrightarrow>
   flash_log_seek_iter n F K (reopened L L') s = flash_log_seek_iter n F K L' s"
  by (cases L; cases L'; cases "fl_log L"; cases "fl_log L'") (simp add: flash_log_seek_iter_def reopened_def seek_iter_def)
lemma reopened_part:
  assumes "flash_part F p (partition_start p) (fp_n_sectors p * 4096)" "new_flash_log F blank_slot p = Ok L"
    and "flash_part.flash_log_ok F p (partition_start p) (fp_n_sectors p * 4096) K L' s' ms"
  shows "nl_flash (fl_log L) = nl_flash (fl_log L')"
proof -
  have "flash_part.log_ok F p (partition_start p) (fp_n_sectors p * 4096) K (fl_log L') s' (log_part ms)"
    using assms(3) flash_part.flash_log_ok_def [OF assms(1)] by blast
  then have "nl_flash (fl_log L') = p" using flash_part.log_ok_def [OF assms(1)] by blast
  then show ?thesis using assms(2) by (auto simp: new_flash_log_def new_log_def split: if_splits)
qed

text \<open>C13. A device with one share is the same after a restart: whatever mutations and names it wrote to a
  blank flash that has room for them, the next start reads the flash without a failure and builds from it a device with the
  keys, shares and backups of the one that applied them as they came, and with the last name.\<close>

theorem boot_restores_device:
  assumes "flash_ok F" "partition_ok F p" "codec_ok K (set ms)" "new_flash_log F blank_slot p = Ok L"
    and "blank F s (partition_start p) (partition_end p)"
    and "4 * log_words K (log_part ms) + 4 \<le> fp_n_sectors p * 4096" "length ms \<le> u32_max"
    and "one_share C ms"
  shows "\<exists>s' L' d. flash_log_append F K ms L s = ((s', L'), Ok ()) \<and>
    load_device (length ms + 1) F K C (reopened L L') s' (new_signer fp kp slots) =
      Some (Ok (d, loaded_name ms None)) \<and>
    device_durable d = device_durable (replay (device_apply_mutation C) (core_mutations ms) (new_signer fp kp slots))"
proof -
  have room: "4 * log_words K (log_part ms) \<le> fp_n_sectors p * 4096" using assms(6) by simp
  note A = appended_ok [OF assms(1,2,4,5) room assms(7)]
  obtain s' L' where L': "flash_log_append F K ms L s = ((s', L'), Ok ())"
      "flash_part.flash_log_ok F p (partition_start p) (fp_n_sectors p * 4096) K L' s' ms"
    using A(2) by blast
  have "flash_log_seek_iter (length ms + 1) F K L' s' = Some (L', Ok (boot_order ms))"
    by (rule flash_part.flash_seek_enough [OF A(1) assms(3) L'(2) assms(6)]) simp
  moreover have "nl_flash (fl_log L) = nl_flash (fl_log L')" by (rule reopened_part [OF A(1) assms(4) L'(2)])
  ultimately have "load_device (length ms + 1) F K C (reopened L L') s' (new_signer fp kp slots) =
      Some (Ok (replay (device_apply_mutation C) (core_mutations (boot_order ms)) (new_signer fp kp slots),
        loaded_name (boot_order ms) None))"
    by (simp add: load_device_def reopened_reads fold_load_change)
  moreover have "loaded_name (boot_order ms) None = loaded_name ms None" by (simp add: loaded_name_def boot_order_def)
  moreover have "fs_keys (new_signer fp kp slots) = []" "saved_backups (fs_restoration (new_signer fp kp slots)) = []"
    by (simp_all add: new_signer_def)
  ultimately show ?thesis using L'(1) boot_order_durable [OF assms(8)] by metis
qed

subsection \<open>A concrete log of mutations\<close>

definition demo_save_share :: save_share_mutation where
  "demo_save_share =
     \<lparr>ssm_access_structure_ref = access_structure_ref_of demo_crypto demo_key,
      ssm_encrypted_share = \<lparr>es_share_image = shared_share_image demo_crypto demo_key 1, es_ciphertext = \<lparr>ct_data = [], ct_nonce = [], ct_tag = []\<rparr>\<rparr>\<rparr>"

definition demo_changes :: "flash_mutation list" where
  "demo_changes =
     [FmName ''a device with a long name'',
      FmCore (DmKeygen (DkNewKey (KeyId []) ''k'' PurposeTest)), FmCore (DmKeygen (DkSaveShare demo_save_share))]"

definition demo_flash_codec :: "(flash_mutation, unit) codec" where
  "demo_flash_codec =
     \<lparr>cd_encode = (\<lambda>m. if m = demo_changes ! 0 then [[0]] else if m = demo_changes ! 1 then [[1]] else [[2]]),
      cd_decode = (\<lambda>bs. case bs of [] \<Rightarrow> (Err (), 0)
        | b # _ \<Rightarrow> (Ok (if b = 0 then demo_changes ! 0 else if b = 1 then demo_changes ! 1 else demo_changes ! 2), 1))\<rparr>"

lemma demo_flash_codec_ok: "codec_ok demo_flash_codec (set demo_changes)"
  by (simp add: codec_ok_def demo_flash_codec_def demo_changes_def)

lemma demo_one_share: "one_share C demo_changes"
  unfolding one_share_def demo_changes_def
  by (rule disjI2, rule exI [of _ "[FmName ''a device with a long name'', FmCore (DmKeygen (DkNewKey (KeyId []) ''k'' PurposeTest))]"])
    auto

lemma demo_flash_log_new:
  "new_flash_log test_nor_flash blank_slot test_partition =
    (Ok \<lparr>fl_log = \<lparr>nl_flash = test_partition, nl_word_pos = 0\<rparr>, fl_share_slot = blank_slot\<rparr> :: (unit, _) result)"
  by (simp add: new_flash_log_def test_nor_flash_def new_log_def WORD_SIZE_def)

lemma demo_log_part: "log_words demo_flash_codec (log_part demo_changes) = 4"
  by (simp add: demo_changes_def log_words_def demo_flash_codec_def words_for_def)

theorem boot_restores_device_witness:
  "\<exists>s' L' d. flash_log_append test_nor_flash demo_flash_codec demo_changes
      \<lparr>fl_log = \<lparr>nl_flash = test_partition, nl_word_pos = 0\<rparr>, fl_share_slot = blank_slot\<rparr> (\<lambda>a. 255) = ((s', L'), Ok ()) \<and>
    load_device 4 test_nor_flash demo_flash_codec demo_crypto
      (reopened \<lparr>fl_log = \<lparr>nl_flash = test_partition, nl_word_pos = 0\<rparr>, fl_share_slot = blank_slot\<rparr> L') s' demo_device =
      Some (Ok (d, Some ''a device with ''))"
proof -
  have fits: "4 * log_words demo_flash_codec (log_part demo_changes) + 4 \<le> fp_n_sectors test_partition * 4096"
    unfolding demo_log_part by (simp add: test_partition_def)
  have len: "length demo_changes \<le> u32_max" by (simp add: demo_changes_def u32_max_def)
  have four: "length demo_changes + 1 = 4" by (simp add: demo_changes_def)
  have name: "loaded_name demo_changes None = Some ''a device with ''"
    by (simp add: loaded_name_def demo_changes_def truncate_name_def DEVICE_NAME_MAX_LENGTH_def)
  show ?thesis
    using boot_restores_device [OF test_flash_ok test_partition_ok demo_flash_codec_ok demo_flash_log_new test_log_blank
        fits len demo_one_share, of demo_crypto "[]" demo_keypair "ab_new memory_slot_ops []"]
    unfolding four name demo_device_def by metis
qed

subsection \<open>Losing power while writing\<close>

text \<open>The states that a push leaves when power is lost: after any byte of an entry's body, after its body, or at any
  stage of writing the slot, where \<open>g\<close> is what the decoder makes of a torn value.\<close>

definition flash_log_push_cuts :: "'s nor_flash \<Rightarrow> (flash_mutation, 'd) codec \<Rightarrow> share_slot option \<Rightarrow> flash_mutation \<Rightarrow>
    flash_log \<Rightarrow> 's \<Rightarrow> ('s \<times> flash_log) list" where
  "flash_log_push_cuts F K g m L s =
     (case slot_of m of
        Some v \<Rightarrow> map (\<lambda>a. (s, L\<lparr>fl_share_slot := a\<rparr>)) (ab_write_stages g v (fl_share_slot L))
      | None \<Rightarrow> map (\<lambda>k. (push_cut F k (cd_encode K m) (fl_log L) s, L)) [0..<Suc (length (concat (cd_encode K m)))] @
          [(fst (push_body F (cd_encode K m) (fl_log L) s), L)])"

context flash_part
begin

lemma log_part_fits:
  assumes "flash_log_ok K L s ms" "slot_of m = None" "4 * log_words K (log_part (ms @ [m])) \<le> room"
  shows "log_ok K (fl_log L) s (log_part ms)" "fits K (fl_log L) m"
  using assms by (simp_all add: flash_log_ok_def fits_def log_words_def)

lemma flash_cut_reads:
  assumes "codec_ok K (set ms)" "flash_log_ok K L s ms" "4 * log_words K (log_part (ms @ [m])) + 4 \<le> room"
    and "(s', L') \<in> set (flash_log_push_cuts F K g m L s)"
  shows "\<exists>v. flash_log_seek_iter (length (log_part ms) + 1) F K L' s' = Some (L', Ok (log_part ms @ slot_mutations v)) \<and>
    v \<in> {share_part ms, g, share_part (ms @ [m])} \<and> (slot_of m = None \<longrightarrow> v = share_part ms)"
proof -
  have codec: "codec_ok K (set (log_part ms))" using assms(1) by (auto simp: codec_ok_def log_part_def)
  have ok: "log_ok K (fl_log L) s (log_part ms)" "ab_ok (fl_share_slot L)" "ab_read (fl_share_slot L) = share_part ms"
      "nl_word_pos (fl_log L) = log_words K (log_part ms)"
    using assms(2) unfolding flash_log_ok_def by blast+
  have room: "4 * nl_word_pos (fl_log L) + 4 \<le> room" using assms(3) ok(4) by simp
  show ?thesis
  proof (cases "slot_of m")
    case None
    have "4 * log_words K (log_part (ms @ [m])) \<le> room" using assms(3) by simp
    note fits = log_part_fits(2) [OF assms(2) None this]
    have "L' = L" "\<forall>j<base + 4 * (nl_word_pos (fl_log L) + 1). byte_at F s' j = byte_at F s j"
      using assms(4) None push_cut_below [OF ok(1) fits] by (auto simp: flash_log_push_cuts_def)
    then have "seek_iter (length (log_part ms) + 1) F K (fl_log L') s' = Some (fl_log L', Ok (log_part ms))"
      using seek_iter_below [OF codec ok(1) room] by simp
    then show ?thesis using \<open>L' = L\<close> ok(3) None
      by (intro exI [of _ "share_part ms"]) (simp add: flash_log_seek_iter_def slot_mutations_def)
  next
    case (Some v)
    obtain a where a: "a \<in> set (ab_write_stages g v (fl_share_slot L))" "L' = L\<lparr>fl_share_slot := a\<rparr>" "s' = s"
      using assms(4) Some by (auto simp: flash_log_push_cuts_def)
    have "ab_read a \<in> {share_part ms, g, Some v}" using ab_crash_read [OF ok(2) a(1)] ok(3) by simp
    moreover have "seek_iter (length (log_part ms) + 1) F K (fl_log L') s' = Some (fl_log L', Ok (log_part ms))"
      using seek_iter_ok [OF codec ok(1) room] a by simp
    ultimately show ?thesis using a(2) Some
      by (intro exI [of _ "ab_read a"]) (auto simp: flash_log_seek_iter_def slot_mutations_def)
  qed
qed

end



end
