(* ===== verification/FlashErase.thy ===== *)
theory FlashErase
  imports FlashLogProps SecretDerivation
begin

section \<open>The header of the flash, and erasing it\<close>

text \<open>
  Models \<^verbatim>\<open>frostsnap_embedded/src/flash_header.rs\<close>, \<^verbatim>\<open>erase.rs\<close> and how the start of \<^verbatim>\<open>device_loop.rs\<close> lays
  out the flash and decides between a device that exists, a new one, and an erase that was cut short. The header is the
  seed of the device's identity, kept in a slot of two sectors. An erase first wipes one sector and tells the
  coordinator, then the rest.
\<close>

subsection \<open>The header\<close>

text \<open>The magic bytes in front of it are constant.\<close>

datatype header_body = HeaderV0 (header_seed: bytes)

record header =
  hd_body :: header_body

definition header_new :: "bytes \<Rightarrow> header" where
  "header_new seed = \<lparr>hd_body = HeaderV0 seed\<rparr>"

definition header_init :: "rng \<Rightarrow> header \<times> rng" where
  "header_init rng = (let (device_id_seed, rng) = rng_draw rng in (header_new device_id_seed, rng))"

text \<open>\<open>keypair_new\<close> stands for the scalar and key pair types of \<^verbatim>\<open>schnorr_fun\<close>: \<open>None\<close> for a scalar that is zero.\<close>

definition device_keypair :: "crypto \<Rightarrow> (scalar \<Rightarrow> keypair option) \<Rightarrow> device_prf \<Rightarrow> header \<Rightarrow> ('e, keypair) result" where
  "device_keypair C keypair_new prf h =
     (case hd_body h of HeaderV0 device_id_seed \<Rightarrow>
        (case keypair_new (scalar_mod_order C (prf_domain prf ''frostsnap-device-keypair'' device_id_seed)) of
           None \<Rightarrow> Panic ''built using random bytes''
         | Some kp \<Rightarrow> Ok kp))"

definition flash_header_init :: "rng \<Rightarrow> header ab_slot \<Rightarrow> ((header \<times> header ab_slot) \<times> rng) option" where
  "flash_header_init rng ab =
     (let (header, rng) = header_init rng in map_option (\<lambda>ab. ((header, ab), rng)) (ab_write header ab))"

subsection \<open>The parts of the flash\<close>

text \<open>The two regions of a slot: what \<^verbatim>\<open>AbSlot::new\<close> makes of its partition.\<close>

definition ab_regions :: "flash_partition \<Rightarrow> ('e, flash_partition \<times> flash_partition) result" where
  "ab_regions p =
     (if fp_n_sectors p < 2 then Panic ''assertion failed: partition.n_sectors() >= 2''
      else if fp_n_sectors p mod 2 \<noteq> 0 then Panic ''ab-write partition sector size must be divisible by 2''
      else split_off_end (fp_n_sectors p div 2) p)"

record flash_layout =
  ly_header :: flash_partition
  ly_share :: flash_partition
  ly_reserved :: flash_partition
  ly_nonces :: flash_partition
  ly_log :: flash_partition

definition div_ceil :: "nat \<Rightarrow> nat \<Rightarrow> nat" where
  "div_ceil a b = (a + b - 1) div b"

definition split_nvs :: "flash_partition \<Rightarrow> ('e, flash_layout) result" where
  "split_nvs nvs =
     and_then (split_off_front 2 nvs) (\<lambda>(nvs, header_sectors).
     and_then (split_off_front 2 nvs) (\<lambda>(nvs, share_partition).
     and_then (split_off_front (8 * 2) nvs) (\<lambda>(nvs, reserved).
     let n_nonce_sectors = div_ceil (fp_n_sectors nvs) 2;
         n_nonce_sectors = max (u32_mul (div_ceil n_nonce_sectors 2) 2) 16
     in and_then (split_off_front n_nonce_sectors nvs) (\<lambda>(nvs, nonces).
     Ok \<lparr>ly_header = header_sectors, ly_share = share_partition, ly_reserved = reserved,
         ly_nonces = nonces, ly_log = nvs\<rparr>))))"

subsection \<open>Erasing\<close>

datatype erase_stage = EraseInitial | ErasingFirst | ErasingRest | EraseDone

record erase =
  er_state :: erase_stage
  er_n_sectors :: nat

datatype erase_poll = ErasePending | SendEraseConfirmed | EraseReset

definition CHUNK_SIZE :: nat where
  "CHUNK_SIZE = 16"

definition erase_new :: "flash_partition \<Rightarrow> erase" where
  "erase_new p = \<lparr>er_state = EraseInitial, er_n_sectors = fp_n_sectors p\<rparr>"

text \<open>The loop over the rest; the progress shown on the way, as sectors of \<open>n\<close>. It stays below \<open>n\<close>,
  so its sum does not wrap around.\<close>

function erase_rest :: "'s nor_flash \<Rightarrow> flash_partition \<Rightarrow> nat \<Rightarrow> nat \<Rightarrow> 's \<Rightarrow> ('s \<times> (nat \<times> nat) list) \<times> ('e, unit) result" where
  "erase_rest F p n sector s =
     (if sector < n then
        let cnt = min CHUNK_SIZE (n - sector)
        in (case erase_sectors F p sector cnt s of
              (s, Ok _) \<Rightarrow>
                (case erase_rest F p n (sector + cnt) s of
                   ((s, shown), r) \<Rightarrow> ((s, (sector + cnt, n) # shown), r))
            | (s, Err e) \<Rightarrow> ((s, []), Panic ''failed to erase sectors'')
            | (s, Panic m) \<Rightarrow> ((s, []), Panic m))
      else ((s, []), Ok ()))"
  by pat_completeness auto
termination
  by (relation "measure (\<lambda>(F, p, n, sector, s). n - sector)") (auto simp: CHUNK_SIZE_def)

declare erase_rest.simps [simp del]

fun poll_erase :: "'s nor_flash \<Rightarrow> flash_partition \<Rightarrow> erase \<Rightarrow> 's \<Rightarrow>
    (('s \<times> erase) \<times> (nat \<times> nat) list) \<times> ('e, erase_poll) result" where
  "poll_erase F p er s =
     (case er_state er of
        EraseInitial \<Rightarrow> (((s, er\<lparr>er_state := ErasingFirst\<rparr>), [(0, 1)]), Ok ErasePending)
      | ErasingFirst \<Rightarrow>
          (case erase_sector F p 0 s of
             (s, Ok _) \<Rightarrow> (((s, er\<lparr>er_state := ErasingRest\<rparr>), [(1, er_n_sectors er)]), Ok SendEraseConfirmed)
           | (s, Err e) \<Rightarrow> (((s, er), []), Panic ''failed to erase sector'')
           | (s, Panic m) \<Rightarrow> (((s, er), []), Panic m))
      | ErasingRest \<Rightarrow>
          (case erase_rest F p (er_n_sectors er) 1 s of
             ((s, shown), Ok _) \<Rightarrow> (((s, er\<lparr>er_state := EraseDone\<rparr>), shown), Ok EraseReset)
           | ((s, shown), Err e) \<Rightarrow> (((s, er), shown), Err e)
           | ((s, shown), Panic m) \<Rightarrow> (((s, er), shown), Panic m))
      | EraseDone \<Rightarrow> (((s, er), []), Ok EraseReset))"

text \<open>Polling until the reset, as the recovery at the start does; \<open>None\<close> when the fuel runs out.\<close>

fun erase_until_reset :: "nat \<Rightarrow> 's nor_flash \<Rightarrow> flash_partition \<Rightarrow> erase \<Rightarrow> 's \<Rightarrow> ('s \<times> ('e, unit) result) option" where
  "erase_until_reset 0 F p er s = None"
| "erase_until_reset (Suc fuel) F p er s =
     (case poll_erase F p er s of
        (((s, er), _), Ok EraseReset) \<Rightarrow> Some (s, Ok ())
      | (((s, er), _), Ok _) \<Rightarrow> erase_until_reset fuel F p er s
      | (((s, er), _), Err e) \<Rightarrow> Some (s, Err e)
      | (((s, er), _), Panic m) \<Rightarrow> Some (s, Panic m))"

subsection \<open>The start\<close>

datatype init_outcome = InitReady header "header ab_slot" rng | InitErase

text \<open>The header that is there, a new one on a flash that is otherwise blank, or an erase.\<close>

definition init_header :: "'s nor_flash \<Rightarrow> flash_partition \<Rightarrow> header ab_slot \<Rightarrow> rng \<Rightarrow> 's \<Rightarrow> ('e, init_outcome) result" where
  "init_header F nvs ab rng s =
     (case ab_read ab of
        Some h \<Rightarrow> Ok (InitReady h ab rng)
      | None \<Rightarrow>
          (case partition_is_empty F nvs s of
             Ok False \<Rightarrow> Ok InitErase
           | Ok True \<Rightarrow>
               (case flash_header_init rng ab of
                  Some ((h, ab), rng) \<Rightarrow> Ok (InitReady h ab rng)
                | None \<Rightarrow> Panic ''slot has been written too many times'')
           | Err e \<Rightarrow> Panic ''checking NVS is empty''
           | Panic m \<Rightarrow> Panic m))"

subsection \<open>What an erase leaves\<close>

context flash_part
begin

lemma sector_bounds: "(fp_offset_sector p + fp_n_sectors p) * 4096 \<le> u32_max"
  using on_flash by (simp add: partition_ok_def SECTOR_SIZE_def)

lemma erase_range:
  assumes "a \<le> b" "b \<le> fp_n_sectors p"
  shows "\<exists>s'. nf_erase F (base + a * 4096) (base + b * 4096) s = (s', Ok ()) \<and>
    (\<forall>i. byte_at F s' i = (if base + a * 4096 \<le> i \<and> i < base + b * 4096 then 255 else byte_at F s i))"
proof -
  have "base + b * 4096 \<le> base + room" using assms(2) by (simp add: room_eq)
  then have "base + b * 4096 \<le> nf_capacity F" using bounds(1) by simp
  moreover have "(base + a * 4096) mod nf_erase_size F = 0" "(base + b * 4096) mod nf_erase_size F = 0"
    using erase_size by (simp_all add: base_eq)
  ultimately show ?thesis using driver assms(1) by (simp add: flash_ok_def)
qed

lemma erase_sectors_ok:
  assumes "a + cnt \<le> fp_n_sectors p"
  shows "\<exists>s'. erase_sectors F p a cnt s = (s', Ok ()) \<and>
    (\<forall>i. byte_at F s' i = (if base + a * 4096 \<le> i \<and> i < base + (a + cnt) * 4096 then 255 else byte_at F s i))"
proof -
  have le: "(fp_offset_sector p + a + cnt) * 4096 \<le> u32_max"
    by (rule order_trans [OF mult_le_mono1 sector_bounds]) (use assms in simp)
  have arith: "x * 4096 \<le> u32_max \<Longrightarrow> u32_mul x SECTOR_SIZE = x * 4096 \<and> x \<le> u32_max" for x
    by (simp add: u32_mul_def SECTOR_SIZE_def u32_max_def)
  have "a * 4096 \<le> u32_max" "(a + cnt) * 4096 \<le> u32_max" "(fp_offset_sector p + a) * 4096 \<le> u32_max"
    using le by simp_all
  then have "u32_add a cnt = a + cnt" "u32_add (fp_offset_sector p) a = fp_offset_sector p + a"
      "u32_add (fp_offset_sector p) (a + cnt) = fp_offset_sector p + a + cnt"
    using arith [of "a + cnt"] arith [of "fp_offset_sector p + a"] arith [OF le] by (simp_all add: add.assoc)
  moreover have "u32_mul (fp_offset_sector p + a) SECTOR_SIZE = base + a * 4096"
      "u32_mul (fp_offset_sector p + a + cnt) SECTOR_SIZE = base + (a + cnt) * 4096"
    using arith [OF le] arith [of "fp_offset_sector p + a"] \<open>(fp_offset_sector p + a) * 4096 \<le> u32_max\<close>
    by (simp_all add: base_eq distrib_right)
  ultimately show ?thesis
    using erase_range [of a "a + cnt" s] assms by (simp add: erase_sectors_def Let_def)
qed

lemma erase_first_ok:
  assumes "0 < fp_n_sectors p"
  shows "\<exists>s'. erase_sector F p 0 s = (s', Ok ()) \<and>
    (\<forall>i. byte_at F s' i = (if base \<le> i \<and> i < base + 4096 then 255 else byte_at F s i))"
proof -
  have "(fp_offset_sector p + 1) * 4096 \<le> u32_max"
    by (rule order_trans [OF mult_le_mono1 sector_bounds]) (use assms in simp)
  then have "u32_add (fp_offset_sector p) 0 = fp_offset_sector p" "u32_add (fp_offset_sector p) 1 = fp_offset_sector p + 1"
      "u32_mul (fp_offset_sector p) SECTOR_SIZE = base" "u32_mul (fp_offset_sector p + 1) SECTOR_SIZE = base + 4096"
    by (simp_all add: u32_mul_def SECTOR_SIZE_def u32_max_def base_eq)
  then show ?thesis using erase_range [of 0 1 s] assms by (simp add: erase_sector_def Let_def)
qed

lemma erase_rest_ok:
  assumes "sector \<le> fp_n_sectors p"
  shows "\<exists>s' shown. erase_rest F p (fp_n_sectors p) sector s = ((s', shown), (Ok () :: ('e, unit) result)) \<and>
    (\<forall>i. byte_at F s' i = (if base + sector * 4096 \<le> i \<and> i < base + room then 255 else byte_at F s i))"
  using assms
proof (induction "fp_n_sectors p - sector" arbitrary: sector s rule: less_induct)
  case less
  show ?case
  proof (cases "sector < fp_n_sectors p")
    case False
    then have "sector = fp_n_sectors p" using less.prems by simp
    then have "erase_rest F p (fp_n_sectors p) sector s = ((s, []), (Ok () :: ('e, unit) result))"
      by (simp add: erase_rest.simps)
    then show ?thesis using \<open>sector = fp_n_sectors p\<close> by (intro exI [of _ s] exI [of _ "[]"]) (auto simp: room_eq)
  next
    case True
    define cnt where "cnt = min CHUNK_SIZE (fp_n_sectors p - sector)"
    have cnt: "0 < cnt" "sector + cnt \<le> fp_n_sectors p" using True by (auto simp: cnt_def CHUNK_SIZE_def)
    obtain s1 where s1: "erase_sectors F p sector cnt s = (s1, Ok ())"
        "\<forall>i. byte_at F s1 i = (if base + sector * 4096 \<le> i \<and> i < base + (sector + cnt) * 4096 then 255 else byte_at F s i)"
      using erase_sectors_ok [OF cnt(2)] by blast
    have "fp_n_sectors p - (sector + cnt) < fp_n_sectors p - sector" using cnt True by linarith
    from less.hyps [OF this cnt(2), of s1] obtain s2 shown where s2: "erase_rest F p (fp_n_sectors p) (sector + cnt) s1 = ((s2, shown), (Ok () :: ('e, unit) result))"
        "\<forall>i. byte_at F s2 i = (if base + (sector + cnt) * 4096 \<le> i \<and> i < base + room then 255 else byte_at F s1 i)"
      by blast
    have "erase_rest F p (fp_n_sectors p) sector s =
        ((s2, (sector + cnt, fp_n_sectors p) # shown), (Ok () :: ('e, unit) result))"
      using True s1(1) s2(1) by (simp add: erase_rest.simps [of F p _ sector] Let_def cnt_def [symmetric])
    moreover have "byte_at F s2 i = (if base + sector * 4096 \<le> i \<and> i < base + room then 255 else byte_at F s i)" for i
      using s1(2) s2(2) cnt(2) by (auto simp: room_eq)
    ultimately show ?thesis by blast
  qed
qed

lemma erase_run_ok:
  assumes "0 < fp_n_sectors p"
  shows "\<exists>s'. erase_until_reset 3 F p (erase_new p) s = Some (s', (Ok () :: ('e, unit) result)) \<and>
    (\<forall>i. byte_at F s' i = (if base \<le> i \<and> i < base + room then 255 else byte_at F s i))"
proof -
  obtain s1 where s1: "erase_sector F p 0 s = (s1, Ok ())"
      "\<forall>i. byte_at F s1 i = (if base \<le> i \<and> i < base + 4096 then 255 else byte_at F s i)"
    using erase_first_ok [OF assms] by blast
  have "1 \<le> fp_n_sectors p" using assms by simp
  then obtain s2 shown where s2: "erase_rest F p (fp_n_sectors p) 1 s1 = ((s2, shown), (Ok () :: ('e, unit) result))"
      "\<forall>i. byte_at F s2 i = (if base + 1 * 4096 \<le> i \<and> i < base + room then 255 else byte_at F s1 i)"
    using erase_rest_ok by blast
  have "erase_until_reset 3 F p (erase_new p) s = Some (s2, (Ok () :: ('e, unit) result))"
    using s1(1) s2(1) by (simp add: numeral_eq_Suc erase_new_def)
  moreover have "4096 \<le> room" using assms by (simp add: room_eq)
  then have "byte_at F s2 i = (if base \<le> i \<and> i < base + room then 255 else byte_at F s i)" for i
    using s1(2) s2(2) by auto
  ultimately show ?thesis by blast
qed

end

subsection \<open>What the device promises when it is erased\<close>

lemma split_off_front_Ok:
  "split_off_front n p = Ok (rest, front) \<Longrightarrow>
   n \<le> fp_n_sectors p \<and> front = p\<lparr>fp_n_sectors := n\<rparr> \<and>
   rest = \<lparr>fp_offset_sector = u32_add (fp_offset_sector p) n, fp_n_sectors = fp_n_sectors p - n\<rparr>"
  by (auto simp: split_off_front_def split_off_end_def Let_def split: if_splits)

text \<open>The sectors of a partition, so that no sum wraps around.\<close>

definition sectors_ok :: "flash_partition \<Rightarrow> bool" where
  "sectors_ok p \<longleftrightarrow> fp_offset_sector p + fp_n_sectors p \<le> u32_max"

lemma split_off_front_ok:
  assumes "split_off_front n p = Ok (rest, front)" "sectors_ok p"
  shows "n \<le> fp_n_sectors p" "front = \<lparr>fp_offset_sector = fp_offset_sector p, fp_n_sectors = n\<rparr>"
    "rest = \<lparr>fp_offset_sector = fp_offset_sector p + n, fp_n_sectors = fp_n_sectors p - n\<rparr>" "sectors_ok rest"
  using split_off_front_Ok [OF assms(1)] assms(2) by (cases p; auto simp: sectors_ok_def)+

lemma split_nvs_ok:
  assumes "split_nvs nvs = (Ok ly :: ('e, _) result)" "sectors_ok nvs"
  shows "ly_header ly = \<lparr>fp_offset_sector = fp_offset_sector nvs, fp_n_sectors = 2\<rparr>" "2 \<le> fp_n_sectors nvs"
    "\<forall>q\<in>{ly_share ly, ly_nonces ly, ly_log ly}. fp_offset_sector nvs + 2 \<le> fp_offset_sector q"
proof -
  obtain n1 h n2 sh n3 r n4 k log where s: "split_off_front 2 nvs = (Ok (n1, h) :: ('e, _) result)"
      "split_off_front 2 n1 = (Ok (n2, sh) :: ('e, _) result)" "split_off_front (8 * 2) n2 = (Ok (n3, r) :: ('e, _) result)"
      "split_off_front n4 n3 = (Ok (log, k) :: ('e, _) result)"
      "ly = \<lparr>ly_header = h, ly_share = sh, ly_reserved = r, ly_nonces = k, ly_log = log\<rparr>"
    using assms(1) by (auto simp: split_nvs_def Let_def result_iff)
  note a = split_off_front_ok [OF s(1) assms(2)]
  note b = split_off_front_ok [OF s(2) a(4)]
  note c = split_off_front_ok [OF s(3) b(4)]
  note d = split_off_front_ok [OF s(4) c(4)]
  show "ly_header ly = \<lparr>fp_offset_sector = fp_offset_sector nvs, fp_n_sectors = 2\<rparr>" using s(5) a(2) by simp
  show "2 \<le> fp_n_sectors nvs" by (rule a(1))
  show "\<forall>q\<in>{ly_share ly, ly_nonces ly, ly_log ly}. fp_offset_sector nvs + 2 \<le> fp_offset_sector q"
    using s(5) a(2,3) b(2,3) c(2,3) d(2,3) by simp
qed

text \<open>C16. Polled until it asks for the reset, an erase comes to its end within three polls, never fails on a
  flash that keeps its promises, blanks every byte of the partition and touches no other.\<close>

theorem erase_wipes_partition:
  assumes "flash_ok F" "partition_ok F p" "nf_write_size F = 4" "0 < fp_n_sectors p"
  shows "\<exists>s'. erase_until_reset 3 F p (erase_new p) s = Some (s', (Ok () :: ('e, unit) result)) \<and>
    (\<forall>a. byte_at F s' a = (if partition_start p \<le> a \<and> a < partition_end p then 255 else byte_at F s a))"
  unfolding partition_end_def by (rule flash_part.erase_run_ok [OF flash_partI [OF assms(1-3)] assms(4)])

theorem erase_wipes_partition_witness:
  "\<exists>s'. erase_until_reset 3 test_nor_flash test_partition (erase_new test_partition) (\<lambda>a. 7) =
      Some (s', (Ok () :: (unit, unit) result)) \<and> byte_at test_nor_flash s' 4095 = 7 \<and> byte_at test_nor_flash s' 4096 = 255"
proof -
  have "nf_write_size test_nor_flash = 4" "0 < fp_n_sectors test_partition"
    by (simp_all add: test_nor_flash_def test_partition_def)
  from erase_wipes_partition [OF test_flash_ok test_partition_ok this, of "\<lambda>a. 7"]
  obtain s' where s': "erase_until_reset 3 test_nor_flash test_partition (erase_new test_partition) (\<lambda>a. 7) =
      Some (s', (Ok () :: (unit, unit) result))"
      "\<forall>a. byte_at test_nor_flash s' a = (if partition_start test_partition \<le> a \<and> a < partition_end test_partition
        then 255 else byte_at test_nor_flash (\<lambda>a. 7) a)" by blast
  have "byte_at test_nor_flash s' 4095 = 7" "byte_at test_nor_flash s' 4096 = 255"
    unfolding s'(2) [rule_format] by (simp_all add: partition_start_def partition_end_def test_partition_def byte_at_test)
  then show ?thesis using s'(1) by blast
qed

lemma confirmed_first:
  "poll_erase F p er s = (((s1, er1), shown), Ok SendEraseConfirmed) \<Longrightarrow> erase_sector F p 0 s = (s1, Ok ())"
  by (auto split: erase_stage.splits result.splits prod.splits)

text \<open>C15. When the device confirms the erase to the coordinator it has wiped one of the two sectors that hold its
  header. The other one, the share, the nonces and the log are as they were, and if power is lost now the next start
  finds the header in the other sector and goes on as the device it was.\<close>

theorem confirmed_erase_keeps_device:
  assumes "flash_ok F" "partition_ok F nvs" "nf_write_size F = 4"
    and "split_nvs nvs = (Ok ly :: ('e, _) result)" "ab_regions (ly_header ly) = (Ok (a, b) :: ('e, _) result)"
    and "poll_erase F nvs er s = (((s1, er1), shown), (Ok SendEraseConfirmed :: ('e, _) result))"
    and "i < u32_max"
  shows "blank F s1 (partition_start a) (partition_end a) \<and>
    (\<forall>q\<in>{b, ly_share ly, ly_nonces ly, ly_log ly}. \<forall>j. partition_start q \<le> j \<longrightarrow> byte_at F s1 j = byte_at F s j) \<and>
    init_header F rest \<lparr>ab_a = Erased, ab_b = Stored i h\<rparr> rng s1 =
      (Ok (InitReady h \<lparr>ab_a = Erased, ab_b = Stored i h\<rparr> rng) :: ('e, _) result)"
proof -
  note fp = flash_partI [OF assms(1-3)]
  have ok: "sectors_ok nvs" using flash_part.sector_bounds [OF fp] by (simp add: sectors_ok_def u32_max_def)
  note ly = split_nvs_ok [OF assms(4) ok]
  have ab: "a = \<lparr>fp_offset_sector = fp_offset_sector nvs, fp_n_sectors = 1\<rparr>"
      "b = \<lparr>fp_offset_sector = fp_offset_sector nvs + 1, fp_n_sectors = 1\<rparr>"
    using assms(5) ok ly(2)
    by (auto simp: ab_regions_def ly(1) split_off_end_def Let_def sectors_ok_def)
  have "0 < fp_n_sectors nvs" using ly(2) by simp
  then have "erase_sector F nvs 0 s = (s1, Ok ()) \<and> (\<forall>j. byte_at F s1 j =
      (if partition_start nvs \<le> j \<and> j < partition_start nvs + 4096 then 255 else byte_at F s j))"
    using flash_part.erase_first_ok [OF fp, of s] confirmed_first [OF assms(6)] by auto
  moreover have "partition_start a = partition_start nvs" "partition_end a = partition_start nvs + 4096"
    using ab(1) by (simp_all add: partition_start_def partition_end_def)
  moreover have "partition_start nvs + 4096 \<le> partition_start q" if "q \<in> {b, ly_share ly, ly_nonces ly, ly_log ly}" for q
    using that ab(2) ly(3) by (auto simp: partition_start_def)
  moreover have "ab_read \<lparr>ab_a = Erased, ab_b = Stored i h\<rparr> = Some h"
    using assms(7) by (simp add: ab_read_def current_slot_and_index_def ab_image_def not_u32_max_def)
  ultimately show ?thesis by (fastforce simp: blank_def init_header_def)
qed

definition demo_nvs :: flash_partition where
  "demo_nvs = \<lparr>fp_offset_sector = 0, fp_n_sectors = 40\<rparr>"

definition demo_header_sectors :: flash_partition where
  "demo_header_sectors = \<lparr>fp_offset_sector = 0, fp_n_sectors = 2\<rparr>"

theorem confirmed_erase_keeps_device_witness:
  "\<exists>s1. poll_erase (array_nor_flash 163840) demo_nvs \<lparr>er_state = ErasingFirst, er_n_sectors = 40\<rparr> (\<lambda>a. 7) =
      (((s1, \<lparr>er_state = ErasingRest, er_n_sectors = 40\<rparr>), [(1, 40)]), (Ok SendEraseConfirmed :: (unit, _) result)) \<and>
    init_header (array_nor_flash 163840) demo_nvs \<lparr>ab_a = Erased, ab_b = Stored 0 (header_new [5])\<rparr> (\<lambda>n. []) s1 =
      (Ok (InitReady (header_new [5]) \<lparr>ab_a = Erased, ab_b = Stored 0 (header_new [5])\<rparr> (\<lambda>n. [])) :: (unit, _) result)"
proof -
  have part: "partition_ok (array_nor_flash 163840) demo_nvs"
    by (simp add: partition_ok_def demo_nvs_def SECTOR_SIZE_def u32_max_def)
  have split: "\<exists>ly. split_nvs demo_nvs = (Ok ly :: (unit, _) result) \<and> ly_header ly = demo_header_sectors"
    by (simp add: split_nvs_def split_off_front_def split_off_end_def demo_nvs_def demo_header_sectors_def
        div_ceil_def u32_mul_def u32_add_def u32_max_def Let_def)
  then obtain ly where ly: "split_nvs demo_nvs = (Ok ly :: (unit, _) result)" "ly_header ly = demo_header_sectors" by blast
  obtain a b where ab: "ab_regions (ly_header ly) = (Ok (a, b) :: (unit, _) result)"
    unfolding ly(2) by (auto simp: ab_regions_def demo_header_sectors_def split_off_end_def Let_def)
  obtain s1 where "erase_sector (array_nor_flash 163840) demo_nvs 0 (\<lambda>a. 7) = (s1, Ok ())"
    using flash_part.erase_first_ok [OF flash_partI [OF array_flash_ok part]] by (auto simp: demo_nvs_def)
  then have poll: "poll_erase (array_nor_flash 163840) demo_nvs \<lparr>er_state = ErasingFirst, er_n_sectors = 40\<rparr> (\<lambda>a. 7) =
      (((s1, \<lparr>er_state = ErasingRest, er_n_sectors = 40\<rparr>), [(1, 40)]), (Ok SendEraseConfirmed :: (unit, _) result))"
    by simp
  have "(0 :: nat) < u32_max" by (simp add: u32_max_def)
  then show ?thesis
    using confirmed_erase_keeps_device [OF array_flash_ok part array_sizes(1) ly(1) ab poll] poll by blast
qed

end
