(* ===== verification/FirmwareVersions.thy ===== *)
theory FirmwareVersions
  imports Prelude "HOL-Library.Product_Lexorder"
begin

section \<open>Released firmware\<close>

text \<open>
  Models \<^verbatim>\<open>frostsnap_comms/src/firmware_version.rs\<close> and the part of \<^verbatim>\<open>frostsnap_coordinator/src/firmware.rs\<close>
  that decides about upgrades: the table of released digests, which features a release has, and whether a
  device may be upgraded by an app.
\<close>

datatype version_number = VersionNumber (vn_major: nat) (vn_minor: nat) (vn_patch: nat)

text \<open>The derived \<^verbatim>\<open>Ord\<close> compares the fields in order.\<close>

instantiation version_number :: linorder
begin
definition less_eq_version_number :: "version_number \<Rightarrow> version_number \<Rightarrow> bool" where
  "less_eq_version_number a b \<longleftrightarrow> (vn_major a, vn_minor a, vn_patch a) \<le> (vn_major b, vn_minor b, vn_patch b)"
definition less_version_number :: "version_number \<Rightarrow> version_number \<Rightarrow> bool" where
  "less_version_number a b \<longleftrightarrow> (vn_major a, vn_minor a, vn_patch a) < (vn_major b, vn_minor b, vn_patch b)"
instance
  by standard (auto simp: less_eq_version_number_def less_version_number_def intro: version_number.expand)
end

subsection \<open>The table\<close>

definition digest_v0_4_0 :: bytes where
  "digest_v0_4_0 =
     [3, 124, 52, 92, 157, 185, 134, 109, 48, 226, 25, 174, 86, 222, 94, 254,
      57, 5, 164, 5, 10, 130, 223, 54, 37, 144, 213, 1, 126, 112, 157, 240]"

definition digest_v0_3_0 :: bytes where
  "digest_v0_3_0 =
     [98, 115, 220, 8, 202, 124, 128, 95, 167, 10, 200, 254, 235, 152, 198, 47,
      123, 111, 203, 51, 127, 177, 205, 132, 18, 242, 79, 13, 109, 218, 81, 247]"

definition digest_v0_2_0 :: bytes where
  "digest_v0_2_0 =
     [228, 50, 211, 19, 199, 105, 139, 30, 136, 67, 177, 11, 169, 94, 250, 140,
      40, 230, 106, 87, 35, 185, 102, 197, 108, 21, 102, 135, 208, 157, 22, 224]"

definition digest_v0_1_0 :: bytes where
  "digest_v0_1_0 =
     [95, 247, 189, 40, 11, 150, 214, 69, 178, 199, 57, 166, 185, 27, 252, 108,
      39, 25, 126, 33, 51, 2, 119, 15, 26, 113, 128, 103, 140, 164, 247, 32]"

definition digest_v0_0_1 :: bytes where
  "digest_v0_0_1 =
     [143, 69, 174, 107, 114, 194, 65, 162, 7, 152, 172, 189, 60, 109, 62, 84,
      7, 28, 174, 115, 227, 53, 223, 23, 133, 242, 212, 133, 169, 21, 218, 76]"

definition V0_0_1_FULL_IMAGE_DIGEST :: bytes where
  "V0_0_1_FULL_IMAGE_DIGEST =
     [87, 22, 31, 128, 180, 20, 19, 177, 5, 62, 39, 47, 156, 61, 168, 209,
      110, 207, 206, 68, 121, 51, 69, 190, 105, 247, 254, 3, 217, 63, 78, 176]"

text \<open>The entry of 0.4.0 is compiled in for the coordinator only.\<close>

definition KNOWN_FIRMWARE_VERSIONS :: "bool \<Rightarrow> (bytes \<times> version_number) list" where
  "KNOWN_FIRMWARE_VERSIONS coordinator =
     (if coordinator then [(digest_v0_4_0, VersionNumber 0 4 0)] else []) @
     [(digest_v0_3_0, VersionNumber 0 3 0), (digest_v0_2_0, VersionNumber 0 2 0),
      (digest_v0_1_0, VersionNumber 0 1 0), (digest_v0_0_1, VersionNumber 0 0 1)]"

definition EARLIEST_ACCEPTABLE :: version_number where
  "EARLIEST_ACCEPTABLE = VersionNumber 0 4 0"

definition version_from_digest :: "bool \<Rightarrow> bytes \<Rightarrow> version_number option" where
  "version_from_digest coordinator digest =
     (if digest = V0_0_1_FULL_IMAGE_DIGEST then Some (VersionNumber 0 0 1)
      else map_option snd (find (\<lambda>(d, _). d = digest) (KNOWN_FIRMWARE_VERSIONS coordinator)))"

definition versions_before :: "bool \<Rightarrow> version_number \<Rightarrow> (bytes \<times> version_number) list" where
  "versions_before coordinator self = filter (\<lambda>(_, v). v < self) (KNOWN_FIRMWARE_VERSIONS coordinator)"

record firmware_features =
  ff_upgrade_digest_no_sig :: bool
  ff_check_backup :: bool
  ff_genuine_check :: bool

definition version_features :: "version_number \<Rightarrow> firmware_features" where
  "version_features v =
     \<lparr>ff_upgrade_digest_no_sig = VersionNumber 0 0 1 < v, ff_check_backup = VersionNumber 0 3 0 \<le> v,
      ff_genuine_check = VersionNumber 0 4 0 < v\<rparr>"

definition all_features :: firmware_features where
  "all_features = \<lparr>ff_upgrade_digest_no_sig = True, ff_check_backup = True, ff_genuine_check = True\<rparr>"

subsection \<open>The coordinator's view of a firmware\<close>

record firmware_version =
  fv_digest :: bytes
  fv_version :: "version_number option"

definition firmware_version_new :: "bytes \<Rightarrow> firmware_version" where
  "firmware_version_new digest = \<lparr>fv_digest = digest, fv_version = version_from_digest True digest\<rparr>"

definition firmware_features :: "firmware_version \<Rightarrow> firmware_features" where
  "firmware_features f = (case fv_version f of Some v \<Rightarrow> version_features v | None \<Rightarrow> all_features)"

datatype upgrade_eligibility = UpToDate | CanUpgrade | CannotUpgrade string

definition check_upgrade_eligibility :: "firmware_version \<Rightarrow> bytes \<Rightarrow> upgrade_eligibility" where
  "check_upgrade_eligibility f device_digest =
     (if device_digest = fv_digest f then UpToDate
      else (case (version_from_digest True device_digest, fv_version f) of
              (None, None) \<Rightarrow> CanUpgrade
            | (None, Some _) \<Rightarrow>
                CannotUpgrade ''Device firmware version newer app. Cannot downgrade firmware. Upgrade the app.''
            | (Some _, None) \<Rightarrow> CannotUpgrade ''This is a development app. Cannot upgrade proper device.''
            | (Some device_ver, Some app_ver) \<Rightarrow>
                if device_ver < app_ver then CanUpgrade
                else if app_ver = device_ver then UpToDate
                else CannotUpgrade ''Device firmware version newer app. Cannot downgrade firmware. Upgrade the app.''))"

subsection \<open>The table is consistent\<close>

lemmas digest_defs = digest_v0_4_0_def digest_v0_3_0_def digest_v0_2_0_def digest_v0_1_0_def digest_v0_0_1_def
  V0_0_1_FULL_IMAGE_DIGEST_def

lemma known_digests_distinct: "distinct (V0_0_1_FULL_IMAGE_DIGEST # map fst (KNOWN_FIRMWARE_VERSIONS c))"
proof -
  have "distinct (map hd (V0_0_1_FULL_IMAGE_DIGEST # map fst (KNOWN_FIRMWARE_VERSIONS c)))"
    by (simp add: KNOWN_FIRMWARE_VERSIONS_def digest_defs)
  then show ?thesis unfolding distinct_map by blast
qed

lemma find_known: "distinct (map fst xs) \<Longrightarrow> (d, v) \<in> set xs \<Longrightarrow> map_option snd (find (\<lambda>(d', _). d' = d) xs) = Some v"
  by (induction xs) (auto simp: rev_image_eqI)

lemma version_from_known:
  assumes "(d, v) \<in> set (KNOWN_FIRMWARE_VERSIONS c)"
  shows "version_from_digest c d = Some v"
proof -
  have "d \<noteq> V0_0_1_FULL_IMAGE_DIGEST" "distinct (map fst (KNOWN_FIRMWARE_VERSIONS c))"
    using known_digests_distinct [of c] assms by force+
  then show ?thesis using find_known [OF _ assms] by (simp add: version_from_digest_def)
qed

text \<open>The releases that a device refuses, exactly.\<close>

lemma superseded_releases:
  "map snd (versions_before c EARLIEST_ACCEPTABLE) =
     [VersionNumber 0 3 0, VersionNumber 0 2 0, VersionNumber 0 1 0, VersionNumber 0 0 1]"
  by (simp add: versions_before_def KNOWN_FIRMWARE_VERSIONS_def EARLIEST_ACCEPTABLE_def less_version_number_def)

text \<open>An app only offers an upgrade to a device that is older.\<close>

lemma can_upgrade_newer:
  "check_upgrade_eligibility f d = CanUpgrade \<longleftrightarrow> d \<noteq> fv_digest f \<and>
     (case (version_from_digest True d, fv_version f) of
        (None, None) \<Rightarrow> True | (Some v, Some a) \<Rightarrow> v < a | _ \<Rightarrow> False)"
  by (auto simp: check_upgrade_eligibility_def split: option.splits)

end
