(* ===== verification/Genuine.thy ===== *)
theory Genuine
  imports FirmwareVersions Ids
begin

section \<open>Attestations of genuine hardware\<close>

text \<open>
  Models \<^verbatim>\<open>frostsnap_comms/src/genuine_certificate.rs\<close> and \<^verbatim>\<open>genuine_check.rs\<close>, and how the device answers in
  \<^verbatim>\<open>device_loop.rs\<close>: what a device's two keys sign and how the coordinator verifies it. The DS key is an RSA key in
  the chip, certified by the factory; the key of the device's id is derived from a fuse. Signature schemes, SHA-256 and
  \<^verbatim>\<open>bincode\<close> are not in the repository and fields of \<open>genuine_ops\<close>.
\<close>

datatype case_color = Black | Orange | Silver | Blue | Red | OtherColor nat

fun case_color_index :: "case_color \<Rightarrow> nat" where
  "case_color_index Black = 0"
| "case_color_index Orange = 1"
| "case_color_index Silver = 2"
| "case_color_index Blue = 3"
| "case_color_index Red = 4"
| "case_color_index (OtherColor i) = i"

definition case_color_of_index :: "nat \<Rightarrow> case_color" where
  "case_color_of_index i =
     (if i = 0 then Black else if i = 1 then Orange else if i = 2 then Silver else if i = 3 then Blue
      else if i = 4 then Red else OtherColor i)"

lemma case_color_roundtrip: "case_color_index (case_color_of_index i) = i"
  by (simp add: case_color_of_index_def)

datatype certificate_body =
    Frontier (ds_public_key: bytes) (cb_case_color: case_color) (cb_revision: string) (raw_serial: string)
      (provisioned_at: nat)

text \<open>The one version of a factory signature.\<close>

record factory_certificate =
  fc_body :: certificate_body
  fc_factory_key :: bytes
  fc_signature :: bytes

datatype attested_device = AttestedV0 (attested_id: device_id) (attested_certificate: factory_certificate)

datatype ds_signed_message = GenuineAttestationV0 bytes attested_device

datatype identity_message = IdentityV0 bytes bytes

datatype genuine_request =
    RequestFactoryAttestation (request_challenge: bytes)
  | RequestIdentityAttestation (request_challenge: bytes) bytes

datatype genuine_reply =
    FactoryAttestation attested_device bytes
  | IdentityAttestation bytes

datatype genuine_error =
    DeviceIdMismatch | UnknownFactoryKey | CertificateSignatureInvalid | MalformedDsKey
  | FactoryAttestationSignatureInvalid | IdentityAttestationSignatureInvalid | AttestedAgain

text \<open>\<open>go_xonly\<close> is the point of an id, with even y, if its bytes are a point at all.\<close>

record genuine_ops =
  go_sha256 :: "bytes \<Rightarrow> bytes"
  go_encode_body :: "certificate_body \<Rightarrow> bytes"
  go_encode_attested :: "attested_device \<Rightarrow> bytes"
  go_encode_ds :: "ds_signed_message \<Rightarrow> bytes"
  go_encode_identity :: "identity_message \<Rightarrow> bytes"
  go_xonly :: "bytes \<Rightarrow> bytes option"
  go_schnorr_verify :: "bytes \<Rightarrow> string \<Rightarrow> bytes \<Rightarrow> bytes \<Rightarrow> bool"
  go_to_rsa :: "bytes \<Rightarrow> bytes option"
  go_rsa_verify :: "bytes \<Rightarrow> bytes \<Rightarrow> bytes \<Rightarrow> bool"

definition attested_digest :: "genuine_ops \<Rightarrow> attested_device \<Rightarrow> bytes" where
  "attested_digest G a = go_sha256 G (go_encode_attested G a)"

definition ds_message_digest :: "genuine_ops \<Rightarrow> ds_signed_message \<Rightarrow> bytes" where
  "ds_message_digest G m = go_sha256 G (go_encode_ds G m)"

subsection \<open>The device\<close>

datatype device_action = FactoryAttest bytes | IdentityAttest bytes

definition device_action :: "genuine_request \<Rightarrow> bytes \<Rightarrow> device_action" where
  "device_action request own =
     (case request of
        RequestFactoryAttestation challenge \<Rightarrow> FactoryAttest challenge
      | RequestIdentityAttestation challenge digest \<Rightarrow>
          if digest = own then IdentityAttest challenge else FactoryAttest challenge)"

text \<open>What \<^verbatim>\<open>genuine_check\<close> of the main loop does: start the DS engine on a digest, or send a signature of the
  device's key; \<open>sign\<close> is the signature with that key. Without a certificate the device stays silent.\<close>

datatype genuine_answer = StartAttestation bytes | SendReply genuine_reply

definition device_genuine_check ::
  "genuine_ops \<Rightarrow> (string \<Rightarrow> bytes \<Rightarrow> bytes) \<Rightarrow> attested_device option \<Rightarrow> genuine_request \<Rightarrow> genuine_answer option" where
  "device_genuine_check G sign attested message =
     (case attested of
        None \<Rightarrow> None
      | Some attested \<Rightarrow>
          (case device_action message (attested_digest G attested) of
             FactoryAttest challenge \<Rightarrow>
               Some (StartAttestation (ds_message_digest G (GenuineAttestationV0 challenge attested)))
           | IdentityAttest challenge \<Rightarrow>
               Some (SendReply (IdentityAttestation (sign ''frostsnap-genuine-identity''
                 (go_encode_identity G (IdentityV0 challenge (attested_digest G attested))))))))"

text \<open>When the engine is done with a signature, or has failed.\<close>

definition send_factory_attestation :: "attested_device option \<Rightarrow> bytes option \<Rightarrow> genuine_reply option" where
  "send_factory_attestation attested outcome =
     (case outcome of
        None \<Rightarrow> None
      | Some signature \<Rightarrow> map_option (\<lambda>a. FactoryAttestation a signature) attested)"

subsection \<open>Verification\<close>

definition verify_certificate :: "genuine_ops \<Rightarrow> factory_certificate \<Rightarrow> bytes \<Rightarrow> (genuine_error, certificate_body) result" where
  "verify_certificate G cert factory_key =
     (if factory_key \<noteq> fc_factory_key cert then Err UnknownFactoryKey
      else if go_schnorr_verify G factory_key ''frostsnap-genuine-key'' (go_encode_body G (fc_body cert)) (fc_signature cert)
      then Ok (fc_body cert)
      else Err CertificateSignatureInvalid)"

definition verify_factory_attestation ::
  "genuine_ops \<Rightarrow> attested_device \<Rightarrow> bytes \<Rightarrow> bytes \<Rightarrow> device_id \<Rightarrow> bytes \<Rightarrow> (genuine_error, certificate_body) result" where
  "verify_factory_attestation G attested factory_key challenge from_id signature =
     (if attested_id attested \<noteq> from_id then Err DeviceIdMismatch
      else and_then (verify_certificate G (attested_certificate attested) factory_key) (\<lambda>body.
        let digest = ds_message_digest G (GenuineAttestationV0 challenge attested)
        in (case go_to_rsa G (ds_public_key body) of
              None \<Rightarrow> Err MalformedDsKey
            | Some rsa \<Rightarrow>
                if go_rsa_verify G rsa digest signature then Ok body
                else Err FactoryAttestationSignatureInvalid)))"

definition verify_identity_attestation ::
  "genuine_ops \<Rightarrow> device_id \<Rightarrow> bytes \<Rightarrow> bytes \<Rightarrow> bytes \<Rightarrow> (genuine_error, unit) result" where
  "verify_identity_attestation G from_id challenge digest signature =
     (case go_xonly G (device_id_bytes from_id) of
        None \<Rightarrow> Err IdentityAttestationSignatureInvalid
      | Some xonly \<Rightarrow>
          if go_schnorr_verify G xonly ''frostsnap-genuine-identity''
               (go_encode_identity G (IdentityV0 challenge digest)) signature
          then Ok () else Err IdentityAttestationSignatureInvalid)"

lemma verify_factory_Ok:
  "verify_factory_attestation G a fk ch i sig = Ok body \<longleftrightarrow>
     attested_id a = i \<and> fc_factory_key (attested_certificate a) = fk \<and> body = fc_body (attested_certificate a) \<and>
     go_schnorr_verify G fk ''frostsnap-genuine-key'' (go_encode_body G body) (fc_signature (attested_certificate a)) \<and>
     (\<exists>rsa. go_to_rsa G (ds_public_key body) = Some rsa \<and>
        go_rsa_verify G rsa (ds_message_digest G (GenuineAttestationV0 ch a)) sig)"
  by (auto simp: verify_factory_attestation_def verify_certificate_def Let_def split: option.splits)

lemma verify_never_panics:
  "verify_factory_attestation G a fk ch i sig \<noteq> Panic m" "verify_identity_attestation G i ch d sig \<noteq> Panic m"
  by (auto simp: verify_factory_attestation_def verify_certificate_def verify_identity_attestation_def Let_def
      split: option.splits)

end
