(* ===== verification/GenuineCheck.thy ===== *)
theory GenuineCheck
  imports Genuine StagedMutations
begin

section \<open>Which devices are genuine\<close>

text \<open>
  Models \<^verbatim>\<open>frostsnap_coordinator/src/genuine_check.rs\<close>. For each connected device the coordinator keeps what it
  has asked for and what the device has attested but not proven, and on file the attestations that were proven. Every change of
  the file is a mutation for the caller to write. The table of the database is modelled as a map.
\<close>

datatype genuine_status = Unverified bool | GenuineDevice certificate_body

record factory_attestation =
  fa_attested :: attested_device
  fa_signature :: bytes
  fa_challenge :: bytes

datatype genuine_mutation = InsertCert factory_attestation certificate_body | RemoveCert device_id

record genuine_session =
  gs_supports_check :: bool
  gs_proven :: bool
  gs_outstanding :: "genuine_request option"
  gs_pending :: "(factory_attestation \<times> certificate_body) option"

record genuine_check =
  gc_factory_key :: bytes
  gc_certs :: "(device_id, factory_attestation \<times> certificate_body) btree"
  gc_sessions :: "(device_id, genuine_session) btree"
  gc_events :: "(device_id \<times> genuine_status) list"

definition genuine_new :: "bytes \<Rightarrow> genuine_check" where
  "genuine_new factory_key = \<lparr>gc_factory_key = factory_key, gc_certs = [], gc_sessions = [], gc_events = []\<rparr>"

subsection \<open>Status and events\<close>

definition genuine_certificate :: "genuine_check \<Rightarrow> device_id \<Rightarrow> certificate_body option" where
  "genuine_certificate g i = map_option snd (bt_get (gc_certs g) i)"

definition genuine_status :: "genuine_check \<Rightarrow> device_id \<Rightarrow> genuine_status option" where
  "genuine_status g i =
     map_option (\<lambda>session.
       case (if gs_proven session then genuine_certificate g i else None) of
         Some certificate \<Rightarrow> GenuineDevice certificate
       | None \<Rightarrow> Unverified (gs_supports_check session))
     (bt_get (gc_sessions g) i)"

definition push_event :: "device_id \<Rightarrow> genuine_check \<Rightarrow> genuine_check" where
  "push_event i g =
     (case genuine_status g i of
        None \<Rightarrow> g
      | Some status \<Rightarrow> g\<lparr>gc_events := gc_events g @ [(i, status)]\<rparr>)"

definition genuine_take_events :: "genuine_check \<Rightarrow> (device_id \<times> genuine_status) list \<times> genuine_check" where
  "genuine_take_events g = (gc_events g, g\<lparr>gc_events := []\<rparr>)"

subsection \<open>Mutations\<close>

text \<open>\<open>None\<close> when nothing changed and nothing is to be written.\<close>

definition genuine_apply :: "genuine_mutation \<Rightarrow> genuine_check \<Rightarrow> genuine_check \<times> genuine_mutation option" where
  "genuine_apply m g =
     (case m of
        InsertCert attestation body \<Rightarrow>
          let entry = (attestation, body); i = attested_id (fa_attested attestation)
          in if bt_get (gc_certs g) i = Some entry then (g, None)
             else (g\<lparr>gc_certs := bt_insert i entry (gc_certs g)\<rparr>, Some m)
      | RemoveCert i \<Rightarrow>
          if bt_get (gc_certs g) i = None then (g, None)
          else let g = g\<lparr>gc_certs := bt_remove i (gc_certs g)\<rparr>;
                   g = g\<lparr>gc_sessions := bt_modify i (\<lambda>s. s\<lparr>gs_proven := False, gs_outstanding := None, gs_pending := None\<rparr>)
                        (gc_sessions g)\<rparr>
               in (push_event i g, Some m))"

text \<open>The check together with the queue of mutations that the caller passes in.\<close>

type_synonym genuine_state = "genuine_check \<times> genuine_mutation list"

definition genuine_push :: "genuine_mutation \<Rightarrow> genuine_state \<Rightarrow> genuine_state" where
  "genuine_push m s = (fst s, snd s @ [m])"

definition genuine_apply_state :: "genuine_mutation \<Rightarrow> genuine_state \<Rightarrow> genuine_state \<times> genuine_mutation option" where
  "genuine_apply_state m s = (let (g, r) = genuine_apply m (fst s) in ((g, snd s), r))"

definition genuine_mutate :: "genuine_mutation \<Rightarrow> genuine_state \<Rightarrow> genuine_state" where
  "genuine_mutate m s =
     (case genuine_apply_state m s of
        (s', Some m') \<Rightarrow> genuine_push m' s'
      | (s', None) \<Rightarrow> s')"

definition supersede :: "device_id \<Rightarrow> genuine_state \<Rightarrow> genuine_state" where
  "supersede i s =
     (case bt_get (gc_certs (fst s)) i of
        None \<Rightarrow> s
      | Some (_, body) \<Rightarrow>
          let superseded = map fst (filter (\<lambda>(other, _, b). other \<noteq> i \<and> ds_public_key b = ds_public_key body)
                (gc_certs (fst s)))
          in fold (\<lambda>old_id. genuine_mutate (RemoveCert old_id)) superseded s)"

subsection \<open>Connections and replies\<close>

definition genuine_connected ::
  "genuine_ops \<Rightarrow> device_id \<Rightarrow> firmware_version \<Rightarrow> rng \<Rightarrow> genuine_check \<Rightarrow>
    (genuine_check \<times> rng) \<times> genuine_request option" where
  "genuine_connected G i firmware rng g =
     (let supports = ff_genuine_check (firmware_features firmware);
          (request, rng) =
            (if supports then
               let (challenge, rng) = rng_draw rng
               in (Some (case bt_get (gc_certs g) i of
                     Some (attestation, _) \<Rightarrow> RequestIdentityAttestation challenge (attested_digest G (fa_attested attestation))
                   | None \<Rightarrow> RequestFactoryAttestation challenge), rng)
             else (None, rng));
          g = g\<lparr>gc_sessions := bt_insert i \<lparr>gs_supports_check = supports, gs_proven = False, gs_outstanding = request,
                gs_pending = None\<rparr> (gc_sessions g)\<rparr>
      in ((push_event i g, rng), request))"

definition genuine_disconnected :: "device_id \<Rightarrow> genuine_check \<Rightarrow> genuine_check" where
  "genuine_disconnected i g = g\<lparr>gc_sessions := bt_remove i (gc_sessions g)\<rparr>"

definition set_session :: "device_id \<Rightarrow> genuine_session \<Rightarrow> genuine_state \<Rightarrow> genuine_state" where
  "set_session i session s = ((fst s)\<lparr>gc_sessions := bt_insert i session (gc_sessions (fst s))\<rparr>, snd s)"

text \<open>The last branch of \<^verbatim>\<open>recv\<close>, when the identity is proven.\<close>

definition identity_proven :: "device_id \<Rightarrow> genuine_session \<Rightarrow> genuine_state \<Rightarrow> genuine_state" where
  "identity_proven from_id session s =
     (let s = set_session from_id (session\<lparr>gs_outstanding := None, gs_proven := True, gs_pending := None\<rparr>) s;
          s = (case gs_pending session of
                 None \<Rightarrow> s
               | Some (attestation, body) \<Rightarrow> genuine_mutate (InsertCert attestation body) s);
          s = supersede from_id s
      in (push_event from_id (fst s), snd s))"

definition genuine_recv ::
  "genuine_ops \<Rightarrow> device_id \<Rightarrow> genuine_reply \<Rightarrow> rng \<Rightarrow> genuine_state \<Rightarrow>
    (genuine_state \<times> rng) \<times> (genuine_error, genuine_request option) result" where
  "genuine_recv G from_id message rng s =
     (case bt_get (gc_sessions (fst s)) from_id of
        None \<Rightarrow> ((s, rng), Ok None)
      | Some session \<Rightarrow>
          (case (gs_outstanding session, message) of
             (Some (RequestFactoryAttestation challenge), FactoryAttestation attested signature) \<Rightarrow>
               (case verify_factory_attestation G attested (gc_factory_key (fst s)) challenge from_id signature of
                  Ok body \<Rightarrow>
                    let (challenge2, rng) = rng_draw rng;
                        request = RequestIdentityAttestation challenge2 (attested_digest G attested);
                        session = session\<lparr>gs_outstanding := Some request,
                          gs_pending := Some (\<lparr>fa_attested = attested, fa_signature = signature, fa_challenge = challenge\<rparr>, body)\<rparr>
                    in ((set_session from_id session s, rng), Ok (Some request))
                | Err e \<Rightarrow> ((s, rng), Err e)
                | Panic m \<Rightarrow> ((s, rng), Panic m))
           | (Some (RequestIdentityAttestation _ _), FactoryAttestation _ _) \<Rightarrow>
               if gs_pending session \<noteq> None then ((s, rng), Err AttestedAgain)
               else let (challenge, rng) = rng_draw rng;
                        request = RequestFactoryAttestation challenge
                    in ((set_session from_id (session\<lparr>gs_outstanding := Some request\<rparr>) s, rng), Ok (Some request))
           | (Some (RequestIdentityAttestation challenge digest), IdentityAttestation signature) \<Rightarrow>
               (case verify_identity_attestation G from_id challenge digest signature of
                  Ok _ \<Rightarrow> ((identity_proven from_id session s, rng), Ok None)
                | Err e \<Rightarrow> ((s, rng), Err e)
                | Panic m \<Rightarrow> ((s, rng), Panic m))
           | _ \<Rightarrow> ((s, rng), Ok None)))"

subsection \<open>The database\<close>

type_synonym genuine_table = "(device_id, factory_attestation) btree"

definition persist_genuine :: "genuine_mutation \<Rightarrow> genuine_table \<Rightarrow> genuine_table" where
  "persist_genuine m table =
     (case m of
        InsertCert attestation _ \<Rightarrow> bt_insert (attested_id (fa_attested attestation)) attestation table
      | RemoveCert i \<Rightarrow> bt_remove i table)"

text \<open>Rows are verified again; one that no longer verifies is skipped.\<close>

definition load_row :: "genuine_ops \<Rightarrow> bytes \<Rightarrow> device_id \<times> factory_attestation \<Rightarrow> genuine_check \<Rightarrow> genuine_check" where
  "load_row G factory_key row g =
     (case row of (i, attestation) \<Rightarrow>
        (case verify_factory_attestation G (fa_attested attestation) factory_key (fa_challenge attestation) i
            (fa_signature attestation) of
           Ok body \<Rightarrow> fst (genuine_apply (InsertCert attestation body) g)
         | _ \<Rightarrow> g))"

definition load_genuine :: "genuine_ops \<Rightarrow> bytes \<Rightarrow> genuine_table \<Rightarrow> genuine_check" where
  "load_genuine G factory_key table = fold (load_row G factory_key) table (genuine_new factory_key)"

end
