(* ===== verification/GenuineProps.thy ===== *)
theory GenuineProps
  imports GenuineCheck
begin

section \<open>What a genuine device has shown\<close>

text \<open>
  Lemmas and properties of \<open>GenuineCheck\<close>, over every run of connections, replies (of any content), writes to the
  database and restarts.
\<close>

subsection \<open>The mutations\<close>

lemma genuine_apply_certs:
  "bt_get (gc_certs (fst (genuine_apply (InsertCert a b) g))) k =
     (if k = attested_id (fa_attested a) then Some (a, b) else bt_get (gc_certs g) k)"
  "bt_get (gc_certs (fst (genuine_apply (RemoveCert i) g))) k = (if k = i then None else bt_get (gc_certs g) k)"
  by (auto simp: genuine_apply_def push_event_def Let_def split: option.split)

lemma genuine_apply_wf: "bt_wf (gc_certs g) \<Longrightarrow> bt_wf (gc_certs (fst (genuine_apply m g)))"
  by (cases m) (auto simp: genuine_apply_def push_event_def Let_def split: option.split)

lemma genuine_apply_key [simp]: "gc_factory_key (fst (genuine_apply m g)) = gc_factory_key g"
  by (cases m) (auto simp: genuine_apply_def push_event_def Let_def split: option.split)

definition reset_session :: "genuine_session \<Rightarrow> genuine_session" where
  "reset_session s = s\<lparr>gs_proven := False, gs_outstanding := None, gs_pending := None\<rparr>"

lemma genuine_apply_sessions:
  "gc_sessions (fst (genuine_apply (InsertCert a b) g)) = gc_sessions g"
  "bt_get (gc_sessions (fst (genuine_apply (RemoveCert i) g))) k =
     (if k = i \<and> bt_get (gc_certs g) i \<noteq> None then map_option reset_session (bt_get (gc_sessions g) k)
      else bt_get (gc_sessions g) k)"
  by (auto simp: genuine_apply_def push_event_def Let_def reset_session_def split: option.split
      intro!: option.map_cong)

lemma genuine_mutate_fst [simp]: "fst (genuine_mutate m s) = fst (genuine_apply m (fst s))"
  by (simp add: genuine_mutate_def genuine_apply_state_def genuine_push_def Let_def split: prod.split option.split)

lemma genuine_apply_staged: "snd (genuine_apply m g) \<in> {None, Some m}"
  by (cases m) (auto simp: genuine_apply_def Let_def)

lemma genuine_unstaged: "snd (genuine_apply m g) = None \<Longrightarrow> fst (genuine_apply m g) = g"
  by (cases m) (auto simp: genuine_apply_def Let_def split: if_splits)

lemma genuine_apply_certs_cong:
  "gc_certs g = gc_certs h \<Longrightarrow> gc_certs (fst (genuine_apply m g)) = gc_certs (fst (genuine_apply m h))"
  by (cases m) (auto simp: genuine_apply_def push_event_def Let_def split: option.split)

interpretation gen: mutation_log genuine_apply_state genuine_mutate genuine_push snd "\<lambda>s. gc_certs (fst s)"
proof (unfold_locales, goal_cases)
  case (1 m s)
  show ?case by (rule genuine_mutate_def)
next
  case (2 m s)
  show ?case by (simp add: genuine_apply_state_def split: prod.split)
next
  case (5 m s)
  then show ?case using genuine_unstaged [of m "fst s"] by (simp add: genuine_apply_state_def split: prod.splits)
next
  case (6 s t m)
  then show ?case
    using genuine_apply_certs_cong [of "fst s" "fst t" m] by (simp add: genuine_apply_state_def split_beta Let_def)
next
  case (7 m s m')
  then show ?case using genuine_apply_staged [of m "fst s"] by (auto simp: genuine_apply_state_def split: prod.splits)
qed (simp_all add: genuine_push_def)

subsection \<open>Superseding\<close>

lemma fold_remove:
  "bt_get (gc_certs (fst (fold (\<lambda>r. genuine_mutate (RemoveCert r)) os s))) k =
     (if k \<in> set os then None else bt_get (gc_certs (fst s)) k)"
  "bt_get (gc_sessions (fst (fold (\<lambda>r. genuine_mutate (RemoveCert r)) os s))) k =
     (if k \<in> set os \<and> bt_get (gc_certs (fst s)) k \<noteq> None then map_option reset_session (bt_get (gc_sessions (fst s)) k)
      else bt_get (gc_sessions (fst s)) k)"
  "bt_wf (gc_certs (fst s)) \<Longrightarrow> bt_wf (gc_certs (fst (fold (\<lambda>r. genuine_mutate (RemoveCert r)) os s)))"
  "gc_factory_key (fst (fold (\<lambda>r. genuine_mutate (RemoveCert r)) os s)) = gc_factory_key (fst s)"
  by (induction os arbitrary: s) (auto simp: genuine_apply_certs genuine_apply_sessions genuine_apply_wf)

text \<open>The ids whose attestation names the DS key that \<open>i\<close> has on file.\<close>

definition same_ds_key :: "(device_id \<Rightarrow> (factory_attestation \<times> certificate_body) option) \<Rightarrow> device_id \<Rightarrow> device_id \<Rightarrow> bool" where
  "same_ds_key C i k \<longleftrightarrow> k \<noteq> i \<and>
     (\<exists>a b a' b'. C i = Some (a, b) \<and> C k = Some (a', b') \<and> ds_public_key b' = ds_public_key b)"

lemma supersede_get:
  assumes wf: "bt_wf (gc_certs (fst s))"
  defines "C \<equiv> bt_get (gc_certs (fst s))"
  shows "bt_get (gc_certs (fst (supersede i s))) k = (if same_ds_key C i k then None else C k)"
    "bt_get (gc_sessions (fst (supersede i s))) k =
      (if same_ds_key C i k then map_option reset_session (bt_get (gc_sessions (fst s)) k)
       else bt_get (gc_sessions (fst s)) k)"
    "bt_wf (gc_certs (fst (supersede i s)))" "gc_factory_key (fst (supersede i s)) = gc_factory_key (fst s)"
proof -
  have mem: "(k, e) \<in> set (gc_certs (fst s)) \<longleftrightarrow> C k = Some e" for k e
    unfolding C_def by (rule iffI [OF bt_in_get [OF wf] bt_get_in])
  have "\<exists>os. supersede i s = fold (\<lambda>r. genuine_mutate (RemoveCert r)) os s \<and> (\<forall>k. k \<in> set os \<longleftrightarrow> same_ds_key C i k)"
  proof (cases "C i")
    case None
    then show ?thesis by (intro exI [of _ "[]"]) (simp add: supersede_def same_ds_key_def C_def)
  next
    case (Some ab)
    obtain a b where ab: "ab = (a, b)" by (cases ab)
    let ?os = "map fst (filter (\<lambda>(other, _, b'). other \<noteq> i \<and> ds_public_key b' = ds_public_key b) (gc_certs (fst s)))"
    have "k \<in> set ?os \<longleftrightarrow> (\<exists>a' b'. (k, a', b') \<in> set (gc_certs (fst s)) \<and> k \<noteq> i \<and> ds_public_key b' = ds_public_key b)" for k
      by force
    then have "k \<in> set ?os \<longleftrightarrow> same_ds_key C i k" for k using Some ab by (auto simp: mem same_ds_key_def)
    moreover have "supersede i s = fold (\<lambda>r. genuine_mutate (RemoveCert r)) ?os s"
      using Some ab by (simp add: supersede_def C_def Let_def)
    ultimately show ?thesis by blast
  qed
  then obtain os where os: "supersede i s = fold (\<lambda>r. genuine_mutate (RemoveCert r)) os s" "\<And>k. k \<in> set os \<longleftrightarrow> same_ds_key C i k"
    by blast
  have "same_ds_key C i k \<Longrightarrow> C k \<noteq> None" for k by (auto simp: same_ds_key_def)
  then show "bt_get (gc_certs (fst (supersede i s))) k = (if same_ds_key C i k then None else C k)"
    "bt_get (gc_sessions (fst (supersede i s))) k =
      (if same_ds_key C i k then map_option reset_session (bt_get (gc_sessions (fst s)) k)
       else bt_get (gc_sessions (fst s)) k)"
    unfolding os(1) fold_remove os(2) C_def by simp_all
  show "bt_wf (gc_certs (fst (supersede i s)))" "gc_factory_key (fst (supersede i s)) = gc_factory_key (fst s)"
    unfolding os(1) by (rule fold_remove(3) [OF wf], rule fold_remove(4))
qed

lemma push_event_fields [simp]:
  "gc_certs (push_event i g) = gc_certs g" "gc_sessions (push_event i g) = gc_sessions g"
  "gc_factory_key (push_event i g) = gc_factory_key g"
  by (simp_all add: push_event_def split: option.split)

text \<open>The file after the pending attestation of \<open>i\<close> went in.\<close>

definition with_pending :: "genuine_session \<Rightarrow> device_id \<Rightarrow> (device_id \<Rightarrow> (factory_attestation \<times> certificate_body) option) \<Rightarrow>
    device_id \<Rightarrow> (factory_attestation \<times> certificate_body) option" where
  "with_pending session i C = (case gs_pending session of None \<Rightarrow> C | Some p \<Rightarrow> C(i := Some p))"

lemma identity_proven_get:
  assumes wf: "bt_wf (gc_certs (fst s))"
    and own: "\<forall>a b. gs_pending session = Some (a, b) \<longrightarrow> attested_id (fa_attested a) = i"
  defines "C \<equiv> with_pending session i (bt_get (gc_certs (fst s)))"
  shows "bt_get (gc_certs (fst (identity_proven i session s))) k = (if same_ds_key C i k then None else C k)"
    "bt_get (gc_sessions (fst (identity_proven i session s))) k =
      (if k = i then Some (session\<lparr>gs_outstanding := None, gs_proven := True, gs_pending := None\<rparr>)
       else if same_ds_key C i k then map_option reset_session (bt_get (gc_sessions (fst s)) k)
       else bt_get (gc_sessions (fst s)) k)"
    "bt_wf (gc_certs (fst (identity_proven i session s)))"
    "gc_factory_key (fst (identity_proven i session s)) = gc_factory_key (fst s)"
proof -
  define s1 where "s1 = set_session i (session\<lparr>gs_outstanding := None, gs_proven := True, gs_pending := None\<rparr>) s"
  define s2 where "s2 = (case gs_pending session of None \<Rightarrow> s1
    | Some (attestation, body) \<Rightarrow> genuine_mutate (InsertCert attestation body) s1)"
  have fst_eq: "fst (identity_proven i session s) = push_event i (fst (supersede i s2))"
    unfolding identity_proven_def Let_def s2_def s1_def fst_conv ..
  have c2: "bt_get (gc_certs (fst s2)) = C"
    using own by (auto simp: s2_def s1_def C_def with_pending_def set_session_def genuine_apply_certs split: option.split)
  have w2: "bt_wf (gc_certs (fst s2))"
    using wf by (auto simp: s2_def s1_def set_session_def genuine_apply_wf split: option.split)
  have se2: "bt_get (gc_sessions (fst s2)) k = (if k = i then Some (session\<lparr>gs_outstanding := None, gs_proven := True, gs_pending := None\<rparr>)
      else bt_get (gc_sessions (fst s)) k)" for k
    by (auto simp: s2_def s1_def set_session_def genuine_apply_sessions split: option.split)
  have k2: "gc_factory_key (fst s2) = gc_factory_key (fst s)"
    by (auto simp: s2_def s1_def set_session_def split: option.split)
  note sup = supersede_get [OF w2, of i, unfolded c2]
  have "\<not> same_ds_key C i i" by (simp add: same_ds_key_def)
  then show "bt_get (gc_certs (fst (identity_proven i session s))) k = (if same_ds_key C i k then None else C k)"
    "bt_get (gc_sessions (fst (identity_proven i session s))) k =
      (if k = i then Some (session\<lparr>gs_outstanding := None, gs_proven := True, gs_pending := None\<rparr>)
       else if same_ds_key C i k then map_option reset_session (bt_get (gc_sessions (fst s)) k)
       else bt_get (gc_sessions (fst s)) k)"
    "bt_wf (gc_certs (fst (identity_proven i session s)))"
    "gc_factory_key (fst (identity_proven i session s)) = gc_factory_key (fst s)"
    unfolding fst_eq by (simp_all add: sup se2 k2)
qed

subsection \<open>Runs\<close>

text \<open>What was exchanged over the connection of a device since it was announced.\<close>

datatype genuine_event = Asked genuine_request | Heard genuine_reply

text \<open>\<open>genuine_run G fk s table conn\<close>: the check \<open>s\<close>, with the mutations still to be written, is reached from an empty one;
  \<open>table\<close> is what the database holds. Replies are of any content and may come at any time. A restart loads the
  table and loses what was not written.\<close>

inductive genuine_run ::
  "genuine_ops \<Rightarrow> bytes \<Rightarrow> genuine_state \<Rightarrow> genuine_table \<Rightarrow> (device_id \<Rightarrow> genuine_event list) \<Rightarrow> bool" for G fk where
  start: "genuine_run G fk (genuine_new fk, []) [] (\<lambda>i. [])"
| announced: "genuine_run G fk (g, u) table conn \<Longrightarrow> genuine_connected G i firmware rng g = ((g', rng'), request) \<Longrightarrow>
    genuine_run G fk (g', u) table (conn(i := (case request of None \<Rightarrow> [] | Some q \<Rightarrow> [Asked q])))"
| gone: "genuine_run G fk (g, u) table conn \<Longrightarrow> genuine_run G fk (genuine_disconnected i g, u) table conn"
| replied: "genuine_run G fk s table conn \<Longrightarrow> genuine_recv G i m rng s = ((s', rng'), r) \<Longrightarrow>
    genuine_run G fk s' table (conn(i := conn i @ Heard m # (case r of Ok (Some q) \<Rightarrow> [Asked q] | _ \<Rightarrow> [])))"
| taken: "genuine_run G fk (g, u) table conn \<Longrightarrow> genuine_run G fk (snd (genuine_take_events g), u) table conn"
| stored: "genuine_run G fk (g, m # u) table conn \<Longrightarrow> genuine_run G fk (g, u) (persist_genuine m table) conn"
| restarted: "genuine_run G fk s table conn \<Longrightarrow> genuine_run G fk (load_genuine G fk table, []) table (\<lambda>i. [])"

subsection \<open>What holds in every run\<close>

definition happened_before :: "'a \<Rightarrow> 'a \<Rightarrow> 'a list \<Rightarrow> bool" where
  "happened_before x y xs \<longleftrightarrow> (\<exists>as bs cs. xs = as @ x # bs @ y # cs)"

lemma happened_before_append: "happened_before x y xs \<Longrightarrow> happened_before x y (xs @ ys)"
  unfolding happened_before_def by force

lemma happened_before_last:
  assumes "x \<in> set xs" shows "happened_before x y (xs @ y # ys)"
proof -
  obtain as bs where "xs = as @ x # bs" using assms by (auto simp: in_set_conv_decomp)
  then have "xs @ y # ys = as @ x # bs @ y # ys" by simp
  then show ?thesis unfolding happened_before_def by blast
qed

definition attestation_ok :: "genuine_ops \<Rightarrow> bytes \<Rightarrow> device_id \<Rightarrow> factory_attestation \<Rightarrow> certificate_body \<Rightarrow> bool" where
  "attestation_ok G fk i a b \<longleftrightarrow>
     verify_factory_attestation G (fa_attested a) fk (fa_challenge a) i (fa_signature a) = Ok b"

lemma attestation_ok_id: "attestation_ok G fk i a b \<Longrightarrow> attested_id (fa_attested a) = i"
  by (simp add: attestation_ok_def verify_factory_Ok)

text \<open>The identity of \<open>i\<close> was proven over the attestation \<open>a\<close>, in answer to a challenge of this connection.\<close>

definition identity_shown :: "genuine_ops \<Rightarrow> genuine_event list \<Rightarrow> device_id \<Rightarrow> factory_attestation \<Rightarrow> bool" where
  "identity_shown G h i a \<longleftrightarrow> (\<exists>ch sig.
     happened_before (Asked (RequestIdentityAttestation ch (attested_digest G (fa_attested a)))) (Heard (IdentityAttestation sig)) h \<and>
     verify_identity_attestation G i ch (attested_digest G (fa_attested a)) sig = Ok ())"

definition session_ok :: "genuine_ops \<Rightarrow> bytes \<Rightarrow> (device_id \<Rightarrow> (factory_attestation \<times> certificate_body) option) \<Rightarrow>
    genuine_event list \<Rightarrow> device_id \<Rightarrow> genuine_session \<Rightarrow> bool" where
  "session_ok G fk C h i ses \<longleftrightarrow>
     (\<forall>q. gs_outstanding ses = Some q \<longrightarrow> Asked q \<in> set h) \<and>
     (\<forall>a b. gs_pending ses = Some (a, b) \<longrightarrow> attestation_ok G fk i a b) \<and>
     (\<forall>ch d. gs_outstanding ses = Some (RequestIdentityAttestation ch d) \<longrightarrow>
        (\<exists>a b. with_pending ses i C i = Some (a, b) \<and> d = attested_digest G (fa_attested a))) \<and>
     (gs_proven ses \<longrightarrow> gs_outstanding ses = None \<and>
        (\<exists>a b. C i = Some (a, b) \<and> identity_shown G h i a) \<and> (\<forall>k. \<not> same_ds_key C i k))"

definition genuine_inv :: "genuine_ops \<Rightarrow> bytes \<Rightarrow> genuine_check \<Rightarrow> (device_id \<Rightarrow> genuine_event list) \<Rightarrow> bool" where
  "genuine_inv G fk g conn \<longleftrightarrow> bt_wf (gc_certs g) \<and> gc_factory_key g = fk \<and>
     (\<forall>i a b. bt_get (gc_certs g) i = Some (a, b) \<longrightarrow> attestation_ok G fk i a b) \<and>
     (\<forall>i ses. bt_get (gc_sessions g) i = Some ses \<longrightarrow> session_ok G fk (bt_get (gc_certs g)) (conn i) i ses)"

lemma session_ok_reset: "session_ok G fk C h i (reset_session ses)"
  by (simp add: session_ok_def reset_session_def)

lemma session_ok_heard: "session_ok G fk C h i ses \<Longrightarrow> session_ok G fk C (h @ h') i ses"
  by (fastforce simp: session_ok_def identity_shown_def intro: happened_before_append)

text \<open>When other ids lose their entries, or gain one with a key that is not on file.\<close>

lemma session_ok_cong:
  assumes "session_ok G fk C h i ses" "C' i = C i" "\<And>k. same_ds_key C' i k \<Longrightarrow> same_ds_key C i k"
  shows "session_ok G fk C' h i ses"
  using assms unfolding session_ok_def with_pending_def by (auto split: option.splits)

lemma inv_fields:
  "genuine_inv G fk g conn \<Longrightarrow> gc_certs g' = gc_certs g \<Longrightarrow> gc_sessions g' = gc_sessions g \<Longrightarrow>
   gc_factory_key g' = gc_factory_key g \<Longrightarrow> genuine_inv G fk g' conn"
  by (simp add: genuine_inv_def)

text \<open>One session replaced.\<close>

lemma inv_set_session:
  assumes "genuine_inv G fk g conn" "session_ok G fk (bt_get (gc_certs g)) h i ses"
  shows "genuine_inv G fk (g\<lparr>gc_sessions := bt_insert i ses (gc_sessions g)\<rparr>) (conn(i := h))"
  using assms by (simp add: genuine_inv_def)

lemma inv_heard:
  assumes "genuine_inv G fk g conn"
  shows "genuine_inv G fk g (conn(i := conn i @ h))"
  using assms session_ok_heard by (simp add: genuine_inv_def)

lemma inv_connected:
  assumes inv: "genuine_inv G fk g conn" and c: "genuine_connected G i firmware rng g = ((g', rng'), request)"
  shows "genuine_inv G fk g' (conn(i := (case request of None \<Rightarrow> [] | Some q \<Rightarrow> [Asked q])))"
proof -
  define ses where "ses = \<lparr>gs_supports_check = ff_genuine_check (firmware_features firmware), gs_proven = False,
      gs_outstanding = request, gs_pending = None\<rparr>"
  have g': "g' = push_event i (g\<lparr>gc_sessions := bt_insert i ses (gc_sessions g)\<rparr>)"
    and r: "request = None \<or> (\<exists>a b. bt_get (gc_certs g) i = Some (a, b) \<and> (\<exists>ch. request =
        Some (RequestIdentityAttestation ch (attested_digest G (fa_attested a))))) \<or> (\<exists>ch. request = Some (RequestFactoryAttestation ch))"
    using c by (auto simp: genuine_connected_def Let_def ses_def split: if_splits option.splits prod.splits)
  have "session_ok G fk (bt_get (gc_certs g)) (case request of None \<Rightarrow> [] | Some q \<Rightarrow> [Asked q]) i ses"
    using r by (auto simp: session_ok_def ses_def with_pending_def)
  from inv_set_session [OF inv this] show ?thesis unfolding g' by (rule inv_fields) simp_all
qed

lemma inv_identity_proven:
  assumes inv: "genuine_inv G fk (fst s) conn" and ses: "bt_get (gc_sessions (fst s)) i = Some ses"
    and out: "gs_outstanding ses = Some (RequestIdentityAttestation ch d)"
    and ver: "verify_identity_attestation G i ch d sig = Ok ()"
  shows "genuine_inv G fk (fst (identity_proven i ses s)) (conn(i := conn i @ [Heard (IdentityAttestation sig)]))"
proof -
  let ?certs = "bt_get (gc_certs (fst s))"
  define C where "C = with_pending ses i ?certs"
  define C' where "C' = (\<lambda>k. if same_ds_key C i k then None else C k)"
  have wf: "bt_wf (gc_certs (fst s))" and fk: "gc_factory_key (fst s) = fk"
    and certs: "\<And>k a b. ?certs k = Some (a, b) \<Longrightarrow> attestation_ok G fk k a b"
    and sessions: "\<And>k x. bt_get (gc_sessions (fst s)) k = Some x \<Longrightarrow> session_ok G fk ?certs (conn k) k x"
    using inv by (simp_all add: genuine_inv_def)
  note so = sessions [OF ses, unfolded session_ok_def]
  obtain a b where ab: "C i = Some (a, b)" "d = attested_digest G (fa_attested a)"
    using so out unfolding C_def by blast
  have own: "\<forall>a' b'. gs_pending ses = Some (a', b') \<longrightarrow> attested_id (fa_attested a') = i"
    using so attestation_ok_id by blast
  have C_other: "C k = ?certs k" if "k \<noteq> i" for k using that by (simp add: C_def with_pending_def split: option.split)
  have C_ok: "attestation_ok G fk k a' b'" if "C k = Some (a', b')" for k a' b'
    using that certs so by (cases "k = i") (auto simp: C_def with_pending_def split: option.splits)
  note get = identity_proven_get [OF wf own, folded C_def]
  have C'_certs: "bt_get (gc_certs (fst (identity_proven i ses s))) = C'" by (rule ext) (simp add: get C'_def)
  have C'_i: "C' i = Some (a, b)" using ab(1) by (simp add: C'_def same_ds_key_def)
  have alone: "\<not> same_ds_key C' i k" for k by (auto simp: same_ds_key_def C'_def split: if_splits)
  have "Asked (RequestIdentityAttestation ch d) \<in> set (conn i)" using so out by blast
  then have shown: "identity_shown G (conn i @ [Heard (IdentityAttestation sig)]) i a"
    using happened_before_last [of _ "conn i" _ "[]"] ver ab(2) unfolding identity_shown_def by blast
  have "session_ok G fk C' ((conn(i := conn i @ [Heard (IdentityAttestation sig)])) k) k x"
    if x: "bt_get (gc_sessions (fst (identity_proven i ses s))) k = Some x" for k x
  proof (cases "k = i")
    case True
    then have "x = ses\<lparr>gs_outstanding := None, gs_proven := True, gs_pending := None\<rparr>" using x by (simp add: get)
    then show ?thesis using True shown C'_i alone by (auto simp: session_ok_def)
  next
    case False
    show ?thesis
    proof (cases "same_ds_key C i k")
      case True
      then obtain y where "x = reset_session y" using x False True by (auto simp: get)
      then show ?thesis by (simp add: session_ok_reset)
    next
      case other: False
      have old: "session_ok G fk ?certs (conn k) k x" using x False other by (intro sessions) (simp add: get)
      have C'_k: "C' k = ?certs k" using other C_other [OF False] by (simp add: C'_def)
      have keep: "same_ds_key ?certs k l" if "same_ds_key C' k l" for l
      proof (cases "l = i")
        case True
        then show ?thesis using that alone [of k] False by (auto simp: same_ds_key_def)
      next
        case l: False
        have "C' l = None \<or> C' l = ?certs l" using C_other [OF l] by (simp add: C'_def)
        then show ?thesis using that C'_k by (auto simp: same_ds_key_def)
      qed
      have "session_ok G fk C' (conn k) k x" by (rule session_ok_cong [OF old], rule C'_k, rule keep)
      then show ?thesis using False by simp
    qed
  qed
  moreover have "attestation_ok G fk k a' b'" if "C' k = Some (a', b')" for k a' b'
    using that C_ok by (simp add: C'_def split: if_splits)
  ultimately show ?thesis unfolding genuine_inv_def C'_certs using get(3,4) fk by blast
qed

lemma inv_recv:
  assumes inv: "genuine_inv G fk (fst s) conn" and recv: "genuine_recv G i m rng s = ((s', rng'), r)"
  shows "genuine_inv G fk (fst s') (conn(i := conn i @ Heard m # (case r of Ok (Some q) \<Rightarrow> [Asked q] | _ \<Rightarrow> [])))"
proof -
  have same: ?thesis if "s' = s" "r = Ok None \<or> (\<exists>e. r = Err e)"
    using that inv_heard [OF inv, of i "[Heard m]"] by auto
  have asked: ?thesis if "s' = set_session i ses' s" "r = Ok (Some q)"
      "session_ok G fk (bt_get (gc_certs (fst s))) (conn i @ [Heard m, Asked q]) i ses'" for ses' q
    using that inv_set_session [OF inv that(3)] by (simp add: set_session_def)
  show ?thesis
  proof (cases "bt_get (gc_sessions (fst s)) i")
    case None
    then show ?thesis using recv by (intro same) (simp_all add: genuine_recv_def)
  next
    case (Some ses)
    have so: "session_ok G fk (bt_get (gc_certs (fst s))) (conn i) i ses" and fk: "gc_factory_key (fst s) = fk"
      using inv Some by (simp_all add: genuine_inv_def)
    consider "gs_outstanding ses = None" | ch att sig where "gs_outstanding ses = Some (RequestFactoryAttestation ch)" "m = FactoryAttestation att sig"
      | ch sig where "gs_outstanding ses = Some (RequestFactoryAttestation ch)" "m = IdentityAttestation sig"
      | ch d att sig where "gs_outstanding ses = Some (RequestIdentityAttestation ch d)" "m = FactoryAttestation att sig"
      | ch d sig where "gs_outstanding ses = Some (RequestIdentityAttestation ch d)" "m = IdentityAttestation sig"
      by (metis genuine_reply.exhaust genuine_request.exhaust option.exhaust)
    then show ?thesis
    proof cases
      case 2
      show ?thesis
      proof (cases "verify_factory_attestation G att fk ch i sig")
        case (Ok body)
        let ?q = "RequestIdentityAttestation (fst (rng_draw rng)) (attested_digest G att)"
        let ?p = "(\<lparr>fa_attested = att, fa_signature = sig, fa_challenge = ch\<rparr>, body)"
        have "s' = set_session i (ses\<lparr>gs_outstanding := Some ?q, gs_pending := Some ?p\<rparr>) s" "r = Ok (Some ?q)"
          using recv Some 2 Ok fk by (auto simp: genuine_recv_def Let_def split_beta)
        moreover have "\<not> gs_proven ses" using so 2 by (simp add: session_ok_def)
        then have "session_ok G fk (bt_get (gc_certs (fst s))) (conn i @ [Heard m, Asked ?q]) i
            (ses\<lparr>gs_outstanding := Some ?q, gs_pending := Some ?p\<rparr>)"
          using Ok by (auto simp: session_ok_def attestation_ok_def with_pending_def)
        ultimately show ?thesis by (rule asked)
      next
        case (Err e)
        show ?thesis by (rule same) (use recv Some 2 fk Err in \<open>auto simp: genuine_recv_def\<close>)
      qed (simp add: verify_never_panics)
    next
      case 4
      show ?thesis
      proof (cases "gs_pending ses")
        case None
        let ?q = "RequestFactoryAttestation (fst (rng_draw rng))"
        have "s' = set_session i (ses\<lparr>gs_outstanding := Some ?q\<rparr>) s" "r = Ok (Some ?q)"
          using recv Some 4 None by (auto simp: genuine_recv_def Let_def split_beta)
        moreover have "\<not> gs_proven ses" using so 4 by (simp add: session_ok_def)
        then have "session_ok G fk (bt_get (gc_certs (fst s))) (conn i @ [Heard m, Asked ?q]) i (ses\<lparr>gs_outstanding := Some ?q\<rparr>)"
          using None by (simp add: session_ok_def)
        ultimately show ?thesis by (rule asked)
      next
        case (Some p)
        show ?thesis by (rule same) (use recv \<open>bt_get (gc_sessions (fst s)) i = Some ses\<close> 4 Some in \<open>auto simp: genuine_recv_def\<close>)
      qed
    next
      case 5
      show ?thesis
      proof (cases "verify_identity_attestation G i ch d sig")
        case (Ok u)
        then have "s' = identity_proven i ses s" "r = Ok None" using recv Some 5 by (auto simp: genuine_recv_def)
        then show ?thesis using inv_identity_proven [OF inv Some 5(1)] Ok 5(2) by simp
      next
        case (Err e)
        show ?thesis by (rule same) (use recv Some 5 Err in \<open>auto simp: genuine_recv_def\<close>)
      qed (simp add: verify_never_panics)
    next
      case 1
      show ?thesis by (rule same) (use recv Some 1 in \<open>auto simp: genuine_recv_def\<close>)
    next
      case 3
      show ?thesis by (rule same) (use recv Some 3 in \<open>auto simp: genuine_recv_def\<close>)
    qed
  qed
qed

subsection \<open>The database\<close>

text \<open>Written out, the table holds what is on file.\<close>

definition synced :: "genuine_state \<Rightarrow> genuine_table \<Rightarrow> bool" where
  "synced s table \<longleftrightarrow>
     (\<forall>i. bt_get (fold persist_genuine (snd s) table) i = map_option fst (bt_get (gc_certs (fst s)) i))"

lemma synced_mutate: "synced s table \<Longrightarrow> synced (genuine_mutate m s) table"
  by (cases m) (auto simp: synced_def genuine_mutate_def genuine_apply_state_def genuine_push_def genuine_apply_def
      persist_genuine_def Let_def)

lemma synced_fold: "synced s table \<Longrightarrow> synced (fold (\<lambda>r. genuine_mutate (RemoveCert r)) os s) table"
  by (induction os arbitrary: s) (simp_all add: synced_mutate)

lemma synced_fields: "synced s table \<Longrightarrow> gc_certs (fst s') = gc_certs (fst s) \<Longrightarrow> snd s' = snd s \<Longrightarrow> synced s' table"
  by (simp add: synced_def)

lemma synced_proven: "synced s table \<Longrightarrow> synced (identity_proven i ses s) table"
proof -
  assume s: "synced s table"
  define s1 where "s1 = set_session i (ses\<lparr>gs_outstanding := None, gs_proven := True, gs_pending := None\<rparr>) s"
  define s2 where "s2 = (case gs_pending ses of None \<Rightarrow> s1 | Some (a, b) \<Rightarrow> genuine_mutate (InsertCert a b) s1)"
  have "synced s1 table" by (rule synced_fields [OF s]) (simp_all add: s1_def set_session_def)
  then have "synced s2 table" by (auto simp: s2_def synced_mutate split: option.split)
  then have "synced (supersede i s2) table" by (auto simp: supersede_def Let_def synced_fold split: option.split)
  moreover have "identity_proven i ses s = (push_event i (fst (supersede i s2)), snd (supersede i s2))"
    unfolding identity_proven_def Let_def s2_def s1_def ..
  ultimately show ?thesis by (simp add: synced_def)
qed

lemma recv_cases:
  assumes "genuine_recv G i m rng s = ((s', rng'), r)"
  shows "s' = s \<or> (\<exists>x. s' = set_session i x s) \<or>
    (\<exists>ses. bt_get (gc_sessions (fst s)) i = Some ses \<and> s' = identity_proven i ses s)"
  using assms by (auto simp: genuine_recv_def Let_def split_beta
      split: option.splits genuine_request.splits genuine_reply.splits result.splits if_splits)

lemma synced_recv:
  assumes "synced s table" "genuine_recv G i m rng s = ((s', rng'), r)"
  shows "synced s' table"
proof -
  have "synced (set_session i x s) table" for x by (rule synced_fields [OF assms(1)]) (simp_all add: set_session_def)
  then show ?thesis using recv_cases [OF assms(2)] synced_proven [OF assms(1)] assms(1) by blast
qed

text \<open>Every row and every mutation to be written verifies.\<close>

definition rows_ok :: "genuine_ops \<Rightarrow> bytes \<Rightarrow> genuine_table \<Rightarrow> bool" where
  "rows_ok G fk table \<longleftrightarrow> bt_wf table \<and> (\<forall>i a. bt_get table i = Some a \<longrightarrow> (\<exists>b. attestation_ok G fk i a b))"

fun mutation_ok :: "genuine_ops \<Rightarrow> bytes \<Rightarrow> genuine_mutation \<Rightarrow> bool" where
  "mutation_ok G fk (InsertCert a b) = attestation_ok G fk (attested_id (fa_attested a)) a b"
| "mutation_ok G fk (RemoveCert i) = True"

lemma rows_ok_persist: "rows_ok G fk table \<Longrightarrow> mutation_ok G fk m \<Longrightarrow> rows_ok G fk (persist_genuine m table)"
  by (cases m) (auto simp: rows_ok_def persist_genuine_def)

lemma queued_ok_mutate:
  "\<forall>m\<in>set (snd s). mutation_ok G fk m \<Longrightarrow> mutation_ok G fk m' \<Longrightarrow> \<forall>m\<in>set (snd (genuine_mutate m' s)). mutation_ok G fk m"
  using genuine_apply_staged [of m' "fst s"]
  by (auto simp: genuine_mutate_def genuine_apply_state_def genuine_push_def Let_def split_beta split: option.splits)

lemma queued_ok_fold:
  "\<forall>m\<in>set (snd s). mutation_ok G fk m \<Longrightarrow> \<forall>m\<in>set (snd (fold (\<lambda>r. genuine_mutate (RemoveCert r)) os s)). mutation_ok G fk m"
proof (induction os arbitrary: s)
  case (Cons r os)
  show ?case using Cons.IH [OF queued_ok_mutate [OF Cons.prems, of "RemoveCert r"]] by simp
qed simp

lemma queued_ok_proven:
  assumes "\<forall>m\<in>set (snd s). mutation_ok G fk m" "\<forall>a b. gs_pending ses = Some (a, b) \<longrightarrow> attestation_ok G fk i a b"
  shows "\<forall>m\<in>set (snd (identity_proven i ses s)). mutation_ok G fk m"
proof -
  define s1 where "s1 = set_session i (ses\<lparr>gs_outstanding := None, gs_proven := True, gs_pending := None\<rparr>) s"
  define s2 where "s2 = (case gs_pending ses of None \<Rightarrow> s1 | Some (a, b) \<Rightarrow> genuine_mutate (InsertCert a b) s1)"
  have 1: "\<forall>m\<in>set (snd s1). mutation_ok G fk m" using assms(1) by (simp add: s1_def set_session_def)
  have "\<forall>m\<in>set (snd s2). mutation_ok G fk m"
  proof (cases "gs_pending ses")
    case None
    then show ?thesis using 1 by (simp add: s2_def)
  next
    case (Some ab)
    obtain a b where ab: "ab = (a, b)" by (cases ab)
    have "attestation_ok G fk i a b" using assms(2) Some ab by blast
    then have ok: "mutation_ok G fk (InsertCert a b)" using attestation_ok_id by simp
    show ?thesis using queued_ok_mutate [OF 1 ok] Some ab by (simp add: s2_def)
  qed
  then have "\<forall>m\<in>set (snd (supersede i s2)). mutation_ok G fk m"
    by (auto simp: supersede_def Let_def queued_ok_fold split: option.splits)
  moreover have "snd (identity_proven i ses s) = snd (supersede i s2)"
    unfolding identity_proven_def Let_def s2_def s1_def by simp
  ultimately show ?thesis by simp
qed

lemma queued_ok_recv:
  assumes q: "\<forall>m\<in>set (snd s). mutation_ok G fk m" and inv: "genuine_inv G fk (fst s) conn"
    and recv: "genuine_recv G i m rng s = ((s', rng'), r)"
  shows "\<forall>m\<in>set (snd s'). mutation_ok G fk m"
proof (cases "bt_get (gc_sessions (fst s)) i")
  case None
  then show ?thesis using recv q by (simp add: genuine_recv_def)
next
  case (Some ses)
  have "session_ok G fk (bt_get (gc_certs (fst s))) (conn i) i ses" using inv Some by (simp add: genuine_inv_def)
  then have "\<forall>a b. gs_pending ses = Some (a, b) \<longrightarrow> attestation_ok G fk i a b" by (simp add: session_ok_def)
  note proven = queued_ok_proven [OF q this]
  have "snd s' = snd s \<or> s' = identity_proven i ses s"
    using recv_cases [OF recv] Some by (auto simp: set_session_def)
  then show ?thesis using proven q by auto
qed

text \<open>Loading a table, row by row.\<close>

lemma fold_load_row:
  "distinct (map fst rows) \<Longrightarrow> bt_wf (gc_certs g) \<Longrightarrow>
   (let g' = fold (load_row G fk) rows g
    in (\<forall>i. bt_get (gc_certs g') i = (case map_of rows i of
           None \<Rightarrow> bt_get (gc_certs g) i
         | Some a \<Rightarrow> (case verify_factory_attestation G (fa_attested a) fk (fa_challenge a) i (fa_signature a) of
             Ok b \<Rightarrow> Some (a, b) | _ \<Rightarrow> bt_get (gc_certs g) i))) \<and>
       bt_wf (gc_certs g') \<and> gc_sessions g' = gc_sessions g \<and> gc_factory_key g' = gc_factory_key g)"
proof (induction rows arbitrary: g)
  case (Cons row rows)
  obtain i a where row: "row = (i, a)" by (cases row)
  let ?v = "verify_factory_attestation G (fa_attested a) fk (fa_challenge a) i (fa_signature a)"
  let ?g = "load_row G fk row g"
  have new: "map_of rows i = None" using Cons.prems(1) row by (simp add: map_of_eq_None_iff)
  have g: "bt_get (gc_certs ?g) k = (if k = i then (case ?v of Ok b \<Rightarrow> Some (a, b) | _ \<Rightarrow> bt_get (gc_certs g) k)
      else bt_get (gc_certs g) k)" for k
  proof (cases ?v)
    case (Ok b)
    then have "attested_id (fa_attested a) = i" by (simp add: verify_factory_Ok)
    then show ?thesis using Ok by (simp add: load_row_def row genuine_apply_certs)
  qed (simp_all add: load_row_def row)
  have "bt_wf (gc_certs ?g)" "gc_sessions ?g = gc_sessions g" "gc_factory_key ?g = gc_factory_key g"
    using Cons.prems(2) by (auto simp: load_row_def row genuine_apply_wf genuine_apply_sessions split: result.split)
  moreover have "distinct (map fst rows)" using Cons.prems(1) by simp
  note Cons.IH [OF this \<open>bt_wf (gc_certs ?g)\<close>]
  ultimately show ?case using new by (auto simp: Let_def g [unfolded row] row split: option.split result.split)
qed simp

lemma load_genuine_get:
  assumes "rows_ok G fk table"
  shows "bt_get (gc_certs (load_genuine G fk table)) i = (case bt_get table i of
      None \<Rightarrow> None
    | Some a \<Rightarrow> Some (a, fc_body (attested_certificate (fa_attested a))))"
    "bt_wf (gc_certs (load_genuine G fk table))" "gc_sessions (load_genuine G fk table) = []"
    "gc_factory_key (load_genuine G fk table) = fk"
proof -
  have d: "distinct (map fst table)"
    using assms btree.key_list_distinct [of table] by (simp add: rows_ok_def bt_keys_def)
  have e: "bt_wf (gc_certs (genuine_new fk))" by (simp add: genuine_new_def)
  note L = fold_load_row [OF d e, of G fk, folded load_genuine_def]
  show "bt_wf (gc_certs (load_genuine G fk table))" "gc_sessions (load_genuine G fk table) = []"
    "gc_factory_key (load_genuine G fk table) = fk"
    using L by (simp_all add: Let_def genuine_new_def)
  have "verify_factory_attestation G (fa_attested a) fk (fa_challenge a) i (fa_signature a) =
      Ok (fc_body (attested_certificate (fa_attested a)))" if "bt_get table i = Some a" for a
    using assms that by (force simp: rows_ok_def attestation_ok_def verify_factory_Ok)
  then show "bt_get (gc_certs (load_genuine G fk table)) i = (case bt_get table i of
      None \<Rightarrow> None
    | Some a \<Rightarrow> Some (a, fc_body (attested_certificate (fa_attested a))))"
    using L by (auto simp: Let_def genuine_new_def bt_get_def [of table] split: option.split)
qed

end
