(* ===== verification/GenuineRuns.thy ===== *)
theory GenuineRuns
  imports GenuineProps
begin

section \<open>Runs of the genuine check\<close>

text \<open>
  The invariant of \<open>GenuineProps\<close> over every run, and what follows: what a device reported as genuine has shown, that the
  database keeps the file, and that an honest device is reported as genuine.
\<close>

definition run_ok :: "genuine_ops \<Rightarrow> bytes \<Rightarrow> genuine_state \<Rightarrow> genuine_table \<Rightarrow> (device_id \<Rightarrow> genuine_event list) \<Rightarrow> bool" where
  "run_ok G fk s table conn \<longleftrightarrow> genuine_inv G fk (fst s) conn \<and> synced s table \<and> rows_ok G fk table \<and>
     (\<forall>m\<in>set (snd s). mutation_ok G fk m)"

lemma inv_start: "genuine_inv G fk (genuine_new fk) conn"
  by (simp add: genuine_inv_def genuine_new_def)

lemma inv_gone: "genuine_inv G fk g conn \<Longrightarrow> genuine_inv G fk (genuine_disconnected i g) conn"
  by (simp add: genuine_inv_def genuine_disconnected_def)

lemma inv_loaded:
  assumes "rows_ok G fk table" shows "genuine_inv G fk (load_genuine G fk table) conn"
proof -
  have "attestation_ok G fk i a b" if "bt_get (gc_certs (load_genuine G fk table)) i = Some (a, b)" for i a b
  proof -
    have "bt_get table i = Some a" "b = fc_body (attested_certificate (fa_attested a))"
      using that by (auto simp: load_genuine_get [OF assms] split: option.splits)
    then show ?thesis using assms by (fastforce simp: rows_ok_def attestation_ok_def verify_factory_Ok)
  qed
  then show ?thesis by (simp add: genuine_inv_def load_genuine_get [OF assms])
qed

lemma connected_fields:
  assumes "genuine_connected G i firmware rng g = ((g', rng'), request)"
  shows "gc_certs g' = gc_certs g" "gc_factory_key g' = gc_factory_key g"
    "bt_get (gc_sessions g') i = Some \<lparr>gs_supports_check = ff_genuine_check (firmware_features firmware), gs_proven = False,
       gs_outstanding = request, gs_pending = None\<rparr>"
  using assms by (auto simp: genuine_connected_def Let_def split_beta split: if_splits)

lemma synced_loaded:
  assumes "rows_ok G fk table" shows "synced (load_genuine G fk table, []) table"
  by (auto simp: synced_def load_genuine_get [OF assms] split: option.split)

lemma run_invariant: "genuine_run G fk s table conn \<Longrightarrow> run_ok G fk s table conn"
proof (induction rule: genuine_run.induct)
  case start
  show ?case using inv_start by (simp add: run_ok_def synced_def rows_ok_def) (simp add: genuine_new_def)
next
  case (announced g u table conn i firmware rng g' rng' request)
  note c = connected_fields [OF announced.hyps(2)]
  have "synced (g', u) table" by (rule synced_fields [of "(g, u)"]) (use announced.IH c in \<open>simp_all add: run_ok_def\<close>)
  then show ?case using announced.IH inv_connected [OF _ announced.hyps(2)] unfolding run_ok_def fst_conv snd_conv by blast
next
  case (gone g u table conn i)
  have "synced (genuine_disconnected i g, u) table"
    by (rule synced_fields [of "(g, u)"]) (use gone.IH in \<open>simp_all add: run_ok_def genuine_disconnected_def\<close>)
  then show ?case using gone.IH inv_gone by (simp add: run_ok_def)
next
  case (replied s table conn i m rng s' rng' r)
  show ?case
    using replied.IH inv_recv [OF _ replied.hyps(2)] synced_recv [OF _ replied.hyps(2)]
      queued_ok_recv [OF _ _ replied.hyps(2)] unfolding run_ok_def by blast
next
  case (taken g u table conn)
  have "genuine_inv G fk (snd (genuine_take_events g)) conn" "synced (snd (genuine_take_events g), u) table"
    using taken.IH by (auto simp: run_ok_def genuine_take_events_def genuine_inv_def synced_def)
  then show ?case using taken.IH by (simp add: run_ok_def)
next
  case (stored g m u table conn)
  then show ?case using rows_ok_persist by (auto simp: run_ok_def synced_def)
next
  case (restarted s table conn)
  then show ?case by (simp add: run_ok_def inv_loaded synced_loaded)
qed

lemma rows_ok_fold: "rows_ok G fk table \<Longrightarrow> \<forall>m\<in>set u. mutation_ok G fk m \<Longrightarrow> rows_ok G fk (fold persist_genuine u table)"
  by (induction u arbitrary: table) (simp_all add: rows_ok_persist)

lemma status_genuine:
  "genuine_status g i = Some (GenuineDevice body) \<longleftrightarrow>
     (\<exists>ses a. bt_get (gc_sessions g) i = Some ses \<and> gs_proven ses \<and> bt_get (gc_certs g) i = Some (a, body))"
  by (auto simp: genuine_status_def genuine_certificate_def split: option.splits if_splits)

subsection \<open>An honest device\<close>

text \<open>What a device answers, once its DS engine is done, and the exchange that follows; at most \<open>n\<close> replies.\<close>

definition device_reply :: "genuine_ops \<Rightarrow> (string \<Rightarrow> bytes \<Rightarrow> bytes) \<Rightarrow> (bytes \<Rightarrow> bytes) \<Rightarrow> attested_device \<Rightarrow> genuine_request \<Rightarrow>
    genuine_reply option" where
  "device_reply G sign ds attested q =
     (case device_genuine_check G sign (Some attested) q of
        None \<Rightarrow> None
      | Some (StartAttestation digest) \<Rightarrow> send_factory_attestation (Some attested) (Some (ds digest))
      | Some (SendReply reply) \<Rightarrow> Some reply)"

fun exchange :: "nat \<Rightarrow> genuine_ops \<Rightarrow> (genuine_request \<Rightarrow> genuine_reply option) \<Rightarrow> device_id \<Rightarrow> genuine_request option \<Rightarrow> rng \<Rightarrow>
    genuine_state \<Rightarrow> genuine_state" where
  "exchange (Suc n) G device i (Some q) rng s =
     (case device q of
        None \<Rightarrow> s
      | Some m \<Rightarrow>
          (case genuine_recv G i m rng s of
             ((s', rng'), Ok q') \<Rightarrow> exchange n G device i q' rng' s'
           | ((s', rng'), _) \<Rightarrow> s'))"
| "exchange n G device i q rng s = s"

lemma exchange_None [simp]: "exchange n G device i None rng s = s"
  by (cases n) simp_all

text \<open>Both keys sign what verifies, and the factory certified the DS key.\<close>

definition honest_device :: "genuine_ops \<Rightarrow> bytes \<Rightarrow> (string \<Rightarrow> bytes \<Rightarrow> bytes) \<Rightarrow> (bytes \<Rightarrow> bytes) \<Rightarrow> attested_device \<Rightarrow> bool" where
  "honest_device G fk sign ds attested \<longleftrightarrow>
     verify_certificate G (attested_certificate attested) fk = Ok (fc_body (attested_certificate attested)) \<and>
     (\<exists>rsa. go_to_rsa G (ds_public_key (fc_body (attested_certificate attested))) = Some rsa \<and>
        (\<forall>d. go_rsa_verify G rsa d (ds d))) \<and>
     (\<exists>x. go_xonly G (device_id_bytes (attested_id attested)) = Some x \<and>
        (\<forall>m. go_schnorr_verify G x ''frostsnap-genuine-identity'' m (sign ''frostsnap-genuine-identity'' m)))"

lemma honest_verifies:
  assumes "honest_device G fk sign ds attested"
  shows "verify_factory_attestation G attested fk ch (attested_id attested) (ds (ds_message_digest G (GenuineAttestationV0 ch attested)))
      = Ok (fc_body (attested_certificate attested))"
    "verify_identity_attestation G (attested_id attested) ch d (sign ''frostsnap-genuine-identity'' (go_encode_identity G (IdentityV0 ch d))) = Ok ()"
  using assms by (auto simp: honest_device_def verify_factory_attestation_def verify_identity_attestation_def Let_def)

lemma honest_replies:
  "device_reply G sign ds attested (RequestFactoryAttestation ch) =
     Some (FactoryAttestation attested (ds (ds_message_digest G (GenuineAttestationV0 ch attested))))"
  "device_reply G sign ds attested (RequestIdentityAttestation ch d) =
     Some (if d = attested_digest G attested
       then IdentityAttestation (sign ''frostsnap-genuine-identity'' (go_encode_identity G (IdentityV0 ch d)))
       else FactoryAttestation attested (ds (ds_message_digest G (GenuineAttestationV0 ch attested))))"
  by (auto simp: device_reply_def device_genuine_check_def device_action_def send_factory_attestation_def)

text \<open>The last reply, over the attestation on file or the one just made.\<close>

lemma proves_identity:
  assumes honest: "honest_device G fk sign ds attested"
    and ses: "bt_get (gc_sessions (fst s)) (attested_id attested) = Some ses" and wf: "bt_wf (gc_certs (fst s))"
    and out: "gs_outstanding ses = Some (RequestIdentityAttestation ch (attested_digest G attested))"
    and rec: "with_pending ses (attested_id attested) (bt_get (gc_certs (fst s))) (attested_id attested) = Some (a, b)"
    and own: "\<forall>a b. gs_pending ses = Some (a, b) \<longrightarrow> attested_id (fa_attested a) = attested_id attested"
  shows "genuine_status (fst (exchange (Suc n) G (device_reply G sign ds attested) (attested_id attested)
      (gs_outstanding ses) rng s)) (attested_id attested) = Some (GenuineDevice b)"
proof -
  have "exchange (Suc n) G (device_reply G sign ds attested) (attested_id attested) (gs_outstanding ses) rng s =
      identity_proven (attested_id attested) ses s"
    using ses out honest_verifies(2) [OF honest] by (auto simp: honest_replies genuine_recv_def)
  then show ?thesis
    using rec by (auto simp: status_genuine identity_proven_get [OF wf own] same_ds_key_def)
qed

text \<open>When a factory attestation is asked for, it takes two replies.\<close>

lemma attests_then_proves:
  assumes honest: "honest_device G fk sign ds attested" and fk: "gc_factory_key (fst s) = fk"
    and ses: "bt_get (gc_sessions (fst s)) (attested_id attested) = Some ses" and wf: "bt_wf (gc_certs (fst s))"
    and out: "gs_outstanding ses = Some (RequestFactoryAttestation ch)"
  shows "genuine_status (fst (exchange (Suc (Suc n)) G (device_reply G sign ds attested) (attested_id attested)
      (gs_outstanding ses) rng s)) (attested_id attested) = Some (GenuineDevice (fc_body (attested_certificate attested)))"
proof -
  let ?i = "attested_id attested" and ?body = "fc_body (attested_certificate attested)"
  let ?q = "RequestIdentityAttestation (rng 0) (attested_digest G attested)"
  let ?a = "\<lparr>fa_attested = attested, fa_signature = ds (ds_message_digest G (GenuineAttestationV0 ch attested)), fa_challenge = ch\<rparr>"
  let ?ses = "ses\<lparr>gs_outstanding := Some ?q, gs_pending := Some (?a, ?body)\<rparr>"
  let ?s = "set_session ?i ?ses s"
  have step: "genuine_recv G ?i (FactoryAttestation attested (fa_signature ?a)) rng s = ((?s, snd (rng_draw rng)), Ok (Some ?q))"
    using ses out fk honest_verifies(1) [OF honest, of ch] by (simp add: genuine_recv_def rng_draw_def Let_def)
  have "exchange (Suc (Suc n)) G (device_reply G sign ds attested) ?i (gs_outstanding ses) rng s =
      exchange (Suc n) G (device_reply G sign ds attested) ?i (gs_outstanding ?ses) (snd (rng_draw rng)) ?s"
    using out step by (simp add: honest_replies)
  moreover have "genuine_status (fst (exchange (Suc n) G (device_reply G sign ds attested) ?i (gs_outstanding ?ses)
      (snd (rng_draw rng)) ?s)) ?i = Some (GenuineDevice ?body)"
    by (rule proves_identity [OF honest, of ?s ?ses "rng 0" ?a ?body]) (simp_all add: set_session_def wf with_pending_def)
  ultimately show ?thesis by simp
qed

text \<open>When the attestation on file is stale, the device asks for the other request, and it takes three.\<close>

lemma renews_then_proves:
  assumes honest: "honest_device G fk sign ds attested" and fk: "gc_factory_key (fst s) = fk"
    and ses: "bt_get (gc_sessions (fst s)) (attested_id attested) = Some ses" and wf: "bt_wf (gc_certs (fst s))"
    and out: "gs_outstanding ses = Some (RequestIdentityAttestation ch d)" "d \<noteq> attested_digest G attested"
    and new: "gs_pending ses = None"
  shows "genuine_status (fst (exchange (Suc (Suc (Suc n))) G (device_reply G sign ds attested) (attested_id attested)
      (gs_outstanding ses) rng s)) (attested_id attested) = Some (GenuineDevice (fc_body (attested_certificate attested)))"
proof -
  let ?i = "attested_id attested" and ?q = "RequestFactoryAttestation (rng 0)"
  let ?m = "FactoryAttestation attested (ds (ds_message_digest G (GenuineAttestationV0 ch attested)))"
  let ?ses = "ses\<lparr>gs_outstanding := Some ?q\<rparr>"
  let ?s = "set_session ?i ?ses s"
  have step: "genuine_recv G ?i ?m rng s = ((?s, snd (rng_draw rng)), Ok (Some ?q))"
    using ses out new by (simp add: genuine_recv_def rng_draw_def Let_def)
  have "exchange (Suc (Suc (Suc n))) G (device_reply G sign ds attested) ?i (gs_outstanding ses) rng s =
      exchange (Suc (Suc n)) G (device_reply G sign ds attested) ?i (gs_outstanding ?ses) (snd (rng_draw rng)) ?s"
    using out step by (simp add: honest_replies del: exchange.simps) (simp add: honest_replies)
  moreover have "genuine_status (fst (exchange (Suc (Suc n)) G (device_reply G sign ds attested) ?i (gs_outstanding ?ses)
      (snd (rng_draw rng)) ?s)) ?i = Some (GenuineDevice (fc_body (attested_certificate attested)))"
    by (rule attests_then_proves [OF honest, of ?s ?ses "rng 0"]) (simp_all add: set_session_def wf fk)
  ultimately show ?thesis by simp
qed

subsection \<open>The properties\<close>

text \<open>C18. In every run, over replies of any content, a device is reported as genuine only with the certificate of an
  attestation on file for its id that verifies against the factory key, after a reply over this connection that verifies as
  its identity attestation over exactly that attestation, to a challenge asked before; and no other id has an attestation
  on file that names the same DS key.\<close>

theorem genuine_backed:
  assumes "genuine_run G fk (g, updates) table conn" "genuine_status g i = Some (GenuineDevice body)"
  shows "\<exists>a. bt_get (gc_certs g) i = Some (a, body) \<and>
    verify_factory_attestation G (fa_attested a) fk (fa_challenge a) i (fa_signature a) = Ok body \<and>
    identity_shown G (conn i) i a \<and>
    (\<forall>k a' b'. bt_get (gc_certs g) k = Some (a', b') \<longrightarrow> ds_public_key b' = ds_public_key body \<longrightarrow> k = i)"
proof -
  obtain ses a where ses: "bt_get (gc_sessions g) i = Some ses" "gs_proven ses" and a: "bt_get (gc_certs g) i = Some (a, body)"
    using assms(2) by (auto simp: status_genuine)
  have inv: "genuine_inv G fk g conn" using run_invariant [OF assms(1)] by (simp add: run_ok_def)
  then have "session_ok G fk (bt_get (gc_certs g)) (conn i) i ses" "attestation_ok G fk i a body"
    using ses a by (simp_all add: genuine_inv_def)
  then show ?thesis using ses(2) a by (fastforce simp: session_ok_def attestation_ok_def same_ds_key_def)
qed

text \<open>C20. In every run, the database with what is still to be written holds, when it is loaded and every row verified again,
  exactly the attestations and certificates on file.\<close>

theorem genuine_file_survives:
  assumes "genuine_run G fk (g, updates) table conn"
  shows "bt_get (gc_certs (load_genuine G fk (fold persist_genuine updates table))) i = bt_get (gc_certs g) i"
proof -
  let ?t = "fold persist_genuine updates table"
  have ok: "genuine_inv G fk g conn" "synced (g, updates) table" "rows_ok G fk table" "\<forall>m\<in>set updates. mutation_ok G fk m"
    using run_invariant [OF assms] by (simp_all add: run_ok_def)
  have get: "bt_get ?t i = map_option fst (bt_get (gc_certs g) i)" using ok(2) by (simp add: synced_def)
  have "b = fc_body (attested_certificate (fa_attested a))" if "bt_get (gc_certs g) i = Some (a, b)" for a b
    using ok(1) that by (auto simp: genuine_inv_def attestation_ok_def verify_factory_Ok)
  then show ?thesis using get by (auto simp: load_genuine_get [OF rows_ok_fold [OF ok(3,4)]] split: option.split)
qed

text \<open>C19. A device whose two keys sign what verifies and whose certificate the factory signed is reported as genuine after
  at most three replies, whatever is on file for its id when it connects (nothing, its attestation, or a stale one), with
  the certificate of an attestation that has the digest the device signs for.\<close>

theorem honest_device_genuine:
  assumes "genuine_run G fk (g, updates) table conn" "honest_device G fk sign ds attested"
    and "ff_genuine_check (firmware_features firmware)"
    and "genuine_connected G (attested_id attested) firmware rng g = ((g', rng'), request)"
  shows "\<exists>a. genuine_status (fst (exchange 3 G (device_reply G sign ds attested) (attested_id attested) request rng'
      (g', updates))) (attested_id attested) = Some (GenuineDevice (fc_body (attested_certificate a))) \<and>
    attested_digest G a = attested_digest G attested"
proof -
  let ?i = "attested_id attested"
  let ?ses = "\<lparr>gs_supports_check = True, gs_proven = False, gs_outstanding = request, gs_pending = None\<rparr>"
  note c = connected_fields [OF assms(4)]
  have inv: "genuine_inv G fk g conn" using run_invariant [OF assms(1)] by (simp add: run_ok_def)
  have s: "bt_get (gc_sessions (fst (g', updates))) ?i = Some ?ses" "bt_wf (gc_certs (fst (g', updates)))"
      "gc_factory_key (fst (g', updates)) = fk" using c inv assms(3) by (simp_all add: genuine_inv_def)
  have cert: "b = fc_body (attested_certificate (fa_attested a))" if "bt_get (gc_certs g) ?i = Some (a, b)" for a b
    using inv that by (auto simp: genuine_inv_def attestation_ok_def verify_factory_Ok)
  let ?status = "genuine_status (fst (exchange 3 G (device_reply G sign ds attested) ?i request rng' (g', updates))) ?i"
  consider "bt_get (gc_certs g) ?i = None" "request = Some (RequestFactoryAttestation (rng 0))"
    | a b where "bt_get (gc_certs g) ?i = Some (a, b)"
        "request = Some (RequestIdentityAttestation (rng 0) (attested_digest G (fa_attested a)))"
    using assms(3,4) by (auto simp: genuine_connected_def Let_def rng_draw_def split: option.splits)
  then show ?thesis
  proof cases
    case 1
    then show ?thesis using attests_then_proves [OF assms(2) s(3,1,2), of "rng 0" 1 rng'] by (auto simp: eval_nat_numeral)
  next
    case (2 a b)
    show ?thesis
    proof (cases "attested_digest G (fa_attested a) = attested_digest G attested")
      case True
      then show ?thesis
        using proves_identity [OF assms(2) s(1,2), of "rng 0" a b 2 rng'] 2 c(1) cert by (auto simp: with_pending_def eval_nat_numeral)
    next
      case False
      then show ?thesis
        using renews_then_proves [OF assms(2) s(3,1,2), of "rng 0" "attested_digest G (fa_attested a)" 0 rng'] 2
        by (auto simp: eval_nat_numeral)
    qed
  qed
qed

subsection \<open>Witnesses\<close>

text \<open>A toy instance: a signature is the key followed by the message.\<close>

definition toy_ops :: genuine_ops where
  "toy_ops = \<lparr>go_sha256 = (\<lambda>b. b), go_encode_body = ds_public_key, go_encode_attested = (\<lambda>a. device_id_bytes (attested_id a)),
     go_encode_ds = (\<lambda>m. case m of GenuineAttestationV0 ch a \<Rightarrow> ch @ device_id_bytes (attested_id a)),
     go_encode_identity = (\<lambda>m. case m of IdentityV0 ch d \<Rightarrow> ch @ d), go_xonly = Some,
     go_schnorr_verify = (\<lambda>key tag m sig. sig = key @ m), go_to_rsa = Some, go_rsa_verify = (\<lambda>key d sig. sig = key @ d)\<rparr>"

definition toy_device :: attested_device where
  "toy_device = AttestedV0 (DeviceId [7])
     \<lparr>fc_body = Frontier [3] Black ''a'' ''1'' 0, fc_factory_key = [9], fc_signature = [9, 3]\<rparr>"

definition toy_firmware :: firmware_version where
  "toy_firmware = \<lparr>fv_digest = [], fv_version = None\<rparr>"

abbreviation toy_rng :: rng where "toy_rng \<equiv> \<lambda>n. [word_of_nat n]"

abbreviation "toy_reply \<equiv> device_reply toy_ops (\<lambda>tag m. 7 # m) (\<lambda>d. 3 # d) toy_device"

text \<open>The exchange stays within the runs.\<close>

lemma exchange_runs:
  "genuine_run G fk s table conn \<Longrightarrow> \<exists>conn'. genuine_run G fk (exchange n G device i q rng s) table conn'"
proof (induction n G device i q rng s arbitrary: conn rule: exchange.induct)
  case (1 n G device i q rng s)
  show ?case
  proof (cases "device q")
    case None
    then show ?thesis using 1 by auto
  next
    case (Some m)
    obtain s' rng' r where recv: "genuine_recv G i m rng s = ((s', rng'), r)" by (metis prod.exhaust)
    note genuine_run.replied [OF 1(2) recv]
    then show ?thesis using 1(1) [OF Some recv [symmetric]] recv Some by (cases r) auto
  qed
qed auto

text \<open>The toy device connects for the first time and answers what it is asked.\<close>

definition toy_connected :: genuine_check where
  "toy_connected = fst (fst (genuine_connected toy_ops (DeviceId [7]) toy_firmware toy_rng (genuine_new [9])))"

definition toy_end :: genuine_state where
  "toy_end = exchange 3 toy_ops toy_reply (DeviceId [7]) (Some (RequestFactoryAttestation [0])) (snd (rng_draw toy_rng))
     (toy_connected, [])"

lemma toy_connects:
  "genuine_connected toy_ops (DeviceId [7]) toy_firmware toy_rng (genuine_new [9]) =
     ((toy_connected, snd (rng_draw toy_rng)), Some (RequestFactoryAttestation [0]))"
  by (simp add: toy_connected_def genuine_connected_def toy_firmware_def firmware_features_def all_features_def
      genuine_new_def Let_def rng_draw_def bt_get_def)

lemma toy_run: "\<exists>conn. genuine_run toy_ops [9] toy_end [] conn"
  unfolding toy_end_def by (rule exchange_runs [OF genuine_run.announced [OF genuine_run.start toy_connects]])

lemma toy_end_eq:
  "genuine_status (fst toy_end) (DeviceId [7]) = Some (GenuineDevice (Frontier [3] Black ''a'' ''1'' 0))"
  by (simp add: toy_end_def toy_connected_def) code_simp

lemma toy_honest: "honest_device toy_ops [9] (\<lambda>tag m. 7 # m) (\<lambda>d. 3 # d) toy_device"
  by (simp add: honest_device_def toy_ops_def toy_device_def verify_certificate_def)

theorem genuine_backed_witness:
  "\<exists>conn a. genuine_run toy_ops [9] toy_end [] conn \<and>
     bt_get (gc_certs (fst toy_end)) (DeviceId [7]) = Some (a, Frontier [3] Black ''a'' ''1'' 0) \<and>
     identity_shown toy_ops (conn (DeviceId [7])) (DeviceId [7]) a"
proof -
  obtain conn where run: "genuine_run toy_ops [9] (fst toy_end, snd toy_end) [] conn" using toy_run by auto
  show ?thesis using genuine_backed [OF run toy_end_eq] run by auto
qed

theorem genuine_file_survives_witness:
  "bt_get (gc_certs (load_genuine toy_ops [9] (fold persist_genuine (snd toy_end) []))) (DeviceId [7]) \<noteq> None"
proof -
  obtain conn where run: "genuine_run toy_ops [9] (fst toy_end, snd toy_end) [] conn" using toy_run by auto
  show ?thesis using genuine_file_survives [OF run, of "DeviceId [7]"] toy_end_eq by (auto simp: status_genuine)
qed

theorem honest_device_genuine_witness:
  "\<exists>a. genuine_status (fst (exchange 3 toy_ops toy_reply (DeviceId [7]) (Some (RequestFactoryAttestation [0]))
     (snd (rng_draw toy_rng)) (toy_connected, []))) (DeviceId [7]) = Some (GenuineDevice (fc_body (attested_certificate a)))"
proof -
  have id: "attested_id toy_device = DeviceId [7]" by (simp add: toy_device_def)
  have "ff_genuine_check (firmware_features toy_firmware)"
    by (simp add: toy_firmware_def firmware_features_def all_features_def)
  from honest_device_genuine [OF genuine_run.start toy_honest this, unfolded id, OF toy_connects] show ?thesis by auto
qed

end
