(* ===== verification/TornPush.thy ===== *)
theory TornPush
  imports NorLogProps
begin

text \<open>Flash whose writes can only clear bits.\<close>

definition and_nor_flash :: "(nat \<Rightarrow> byte) nor_flash" where
  "and_nor_flash = test_nor_flash\<lparr>nf_write := (\<lambda>offset bs s.
     if offset mod 4 \<noteq> 0 \<or> length bs mod 4 \<noteq> 0 then (s, Panic ''assertion failed'')
     else if offset + length bs \<le> 16384
     then ((\<lambda>i. if offset \<le> i \<and> i < offset + length bs then and (s i) (bs ! (i - offset)) else s i), Ok ())
     else (s, Panic ''range end index out of range''))\<rparr>"

lemma byte_at_and: "byte_at and_nor_flash s a = (if a < 16384 then s a else 255)"
  by (simp add: byte_at_def and_nor_flash_def test_nor_flash_def array_nor_flash_def)

lemma ones_and [simp]: "and (255 :: byte) b = b"
proof -
  have "(255 :: byte) = - 1" by simp
  then show ?thesis by (metis and.left_neutral)
qed

lemma and_flash_ok: "flash_ok and_nor_flash"
  unfolding flash_ok_def blank_def byte_at_and by (auto simp: and_nor_flash_def test_nor_flash_def array_nor_flash_def)

lemma and_partition_ok: "partition_ok and_nor_flash test_partition"
  using test_partition_ok by (simp add: partition_ok_def and_nor_flash_def)

interpretation and_log: flash_part and_nor_flash test_partition 4096 12288
  by unfold_locales (simp_all add: and_flash_ok and_partition_ok, simp_all add: and_nor_flash_def test_nor_flash_def array_nor_flash_def test_partition_def)

lemma and_write:
  "off mod 4 = 0 \<Longrightarrow> length bs mod 4 = 0 \<Longrightarrow> off + length bs \<le> 12288 \<Longrightarrow>
   a = off + 4096 \<Longrightarrow>
   nor_write and_nor_flash test_partition off bs s =
     ((\<lambda>i. if a \<le> i \<and> i < a + length bs then and (s i) (bs ! (i - a)) else s i), Ok ())"
  using and_log.in_bounds [of off "length bs"] and_log.abs_offset_eq [of off]
  by (simp add: nor_write_def and_nor_flash_def mod_add_eq add.commute add.left_commute) presburger

lemma and_sizes: "nf_write_size and_nor_flash = 4" "nf_erase_size and_nor_flash = 4096"
  by (simp_all add: and_nor_flash_def test_nor_flash_def array_nor_flash_def)

lemma and_push_body:
  "push_body and_nor_flash [[b]] \<lparr>nl_flash = test_partition, nl_word_pos = 0\<rparr> s =
    ((\<lambda>i. if 4100 \<le> i \<and> i < 4104 then and (s i) ([b, 255, 255, 255] ! (i - 4100)) else s i), Ok 1)"
proof -
  have three: "replicate 3 (255 :: byte) = [255, 255, 255]" by (simp add: numeral_eq_Suc)
  have buf: "take (Suc 0) ((replicate 32 255)[0 := b]) = [b]" by (simp add: take_Suc numeral_eq_Suc)
  have "u32_mul 1 4 = 4" "u32_add 1 1 = 2" "u32_add 0 1 = 1" "u32_sub 2 1 = 1"
    by (simp_all add: u32_mul_def u32_add_def u32_max_def u32_sub_def)
  then show ?thesis
    unfolding push_body_def nor_flash_log.simps and_log.new_writer
    using and_write [of 4 "[b, 255, 255, 255]" 4100 s]
    by (simp add: Let_def writer_flush_def and_sizes buf three)
qed

lemma and_push:
  "log_push and_nor_flash byte_codec b \<lparr>nl_flash = test_partition, nl_word_pos = 0\<rparr> s =
    (((\<lambda>i. if 4096 \<le> i \<and> i < 4100 then and (s i) ([1, 0, 0, 0] ! (i - 4096))
        else if 4100 \<le> i \<and> i < 4104 then and (s i) ([b, 255, 255, 255] ! (i - 4100)) else s i),
      \<lparr>nl_flash = test_partition, nl_word_pos = 2\<rparr>), Ok ())"
proof -
  have le: "u32_to_le_bytes (Suc 0) = [1, 0, 0, 0]" by (simp add: u32_to_le_bytes_def u32_to_be_bytes_def)
  have "u32_mul 0 WORD_SIZE = 0" "u32_add 1 1 = 2" "u32_add 0 2 = 2" by (simp_all add: u32_mul_def u32_add_def u32_max_def)
  then show ?thesis
    using and_push_body [of b s] and_write [of 0 "[1, 0, 0, 0]" 4096]
    by (auto simp: log_push_def byte_codec_def le fun_eq_iff)
qed

text \<open>A push that lost power before its length was there leaves its body behind: the log reads as it was,
  the next push succeeds, and what is read then is the conjunction of both bodies.\<close>

theorem torn_push_spoils_next:
  "let log = \<lparr>nl_flash = test_partition, nl_word_pos = 0\<rparr>;
       torn = fst (push_body and_nor_flash (cd_encode byte_codec 0) log (\<lambda>a. 255))
   in seek_iter 1 and_nor_flash byte_codec log torn = Some (log, Ok []) \<and>
     (\<exists>s log'. log_push and_nor_flash byte_codec 255 log torn = ((s, log'), Ok ()) \<and>
       seek_iter 2 and_nor_flash byte_codec log s = Some (log', Ok [0]))"
proof -
  let ?log = "\<lparr>nl_flash = test_partition, nl_word_pos = 0\<rparr>"
  define torn where "torn = fst (push_body and_nor_flash (cd_encode byte_codec 0) ?log (\<lambda>a. 255))"
  define s where "s = (\<lambda>i. if 4096 \<le> i \<and> i < 4100 then and (torn i) ([1, 0, 0, 0] ! (i - 4096))
        else if 4100 \<le> i \<and> i < 4104 then and (torn i) ([255, 255, 255, 255] ! (i - 4100)) else torn i)"
  have torn: "torn = (\<lambda>i. if 4100 \<le> i \<and> i < 4104 then [0, 255, 255, 255] ! (i - 4100) else 255)"
    unfolding torn_def using and_push_body [of 0 "\<lambda>a. 255"] by (simp add: byte_codec_def fun_eq_iff)
  have empty: "and_log.entries byte_codec torn 0 [] 0" by simp
  have "blank and_nor_flash torn 4096 4100" by (simp add: blank_def byte_at_and torn)
  then have "seek_iter 1 and_nor_flash byte_codec ?log torn = Some (?log, Ok [])"
    unfolding seek_iter_def
    using and_log.log_items_ok [OF byte_codec_ok, of 0 torn 0 "[]" UNIV ?log 1] by simp
  moreover have "log_push and_nor_flash byte_codec 255 ?log torn = ((s, \<lparr>nl_flash = test_partition, nl_word_pos = 2\<rparr>), Ok ())"
    unfolding and_push s_def ..
  moreover have "seek_iter 2 and_nor_flash byte_codec ?log s = Some (\<lparr>nl_flash = test_partition, nl_word_pos = 2\<rparr>, Ok [0])"
  proof -
    have up: "[4096..<4100] = [4096, 4097, 4098, 4099 :: nat]" by (simp add: upt_rec)
    have up2: "[4100..<4101] = [4100 :: nat]" by (simp add: upt_rec)
    have "u32_to_le_bytes (Suc 0) = [1, 0, 0, 0]" by (simp add: u32_to_le_bytes_def u32_to_be_bytes_def)
    then have "and_log.entries byte_codec s 0 [0] 2"
      by (simp add: byte_codec_def words_for_def up up2 byte_at_and s_def torn)
    moreover have "blank and_nor_flash s 4104 4108" by (simp add: blank_def byte_at_and s_def torn)
    ultimately show ?thesis
      unfolding seek_iter_def
      using and_log.log_items_ok [OF byte_codec_ok, of 2 s 0 "[0]" UNIV ?log 2] by simp
  qed
  ultimately show ?thesis unfolding torn_def by (auto simp: Let_def)
qed

end
