(* ===== verification/Spec2Isabelle.thy ===== *)
theory Spec2Isabelle
  imports CoordRestoreProps DeviceProps EntryProps FlashErase GenuineRuns TornPush
begin

section \<open>The core of Frostsnap\<close>

text \<open>
  A model of the core of Frostsnap: threshold Schnorr keys held by hardware devices, driven by a
  coordinator. The parts of the program and how they interact:

  \<^item> A \<^bold>\<open>coordinator\<close> (\<^verbatim>\<open>frostsnap_core/src/coordinator.rs\<close>, \<^verbatim>\<open>coordinator/*.rs\<close>) keeps the keys and
    which device holds which share, a cache of the devices' public nonces, running key generations,
    signing sessions and restorations. Its operations return messages for devices; what the
    devices answer goes into \<^verbatim>\<open>recv_device_message\<close>.
  \<^item> A \<^bold>\<open>device\<close> (\<^verbatim>\<open>device.rs\<close>, \<^verbatim>\<open>device/*.rs\<close>) keeps encrypted shares, backups typed in by the user, and
    secret nonces; whatever a message of the coordinator asks for that matters waits for the
    user's confirmation, which calls the second half of the handler.
  \<^item> Both change durable state only by \<^bold>\<open>mutations\<close>, staged, written by the caller and replayed at the
    next start. A device writes nonces directly to \<^bold>\<open>slots\<close> in flash (\<^verbatim>\<open>frostsnap_embedded/src/ab_write.rs\<close>).
  \<^item> A lost coordinator is restored from \<^bold>\<open>shares\<close> held by devices and from physical backups, by the
    search of \<^verbatim>\<open>frost_backup/src/recovery.rs\<close>.

  \<^bold>\<open>Theories.\<close>
  \<^item> \<open>Prelude\<close>: \<open>u32\<close> arithmetic of the release profile (wrapping), results with a constructor for panics,
    randomness as a stream that operations return advanced, lemmas on lists.
    \<open>OrderedMap\<close>: \<^verbatim>\<open>BTreeMap\<close> and \<^verbatim>\<open>BTreeSet\<close> as sorted association lists, behind the locale
    \<open>map_interface\<close>. \<open>Ids\<close>: the newtypes of \<^verbatim>\<open>lib.rs\<close>.
  \<^item> \<open>Keys\<close> (\<^verbatim>\<open>tweak.rs\<close>, \<^verbatim>\<open>master_appkey.rs\<close>), \<open>SecretDerivation\<close>, \<open>Encryption\<close>: the record \<open>crypto\<close> of the
    curve, hash and cipher operations, and the laws of them (\<open>crypto_ok\<close>) some properties assume.
  \<^item> \<open>TxTemplate\<close> (\<^verbatim>\<open>bitcoin_transaction.rs\<close>), \<open>SignTask\<close> (\<^verbatim>\<open>sign_task.rs\<close>): the transaction a device is asked to
    sign, what it shows to the user, and the items signed.
  \<^item> \<open>NonceStream\<close>, \<open>CoordNonces\<close>: nonce segments and the coordinator's cache. \<open>DeviceNonces\<close>, \<open>AbWrite\<close>: the secret
    ratchet in slots of memory or flash, behind the locale \<open>nonce_slot_store\<close>; \<open>NonceSafety\<close> adds crashes
    (\<open>crash_slot_store\<close>) and runs, \<open>NonceTable\<close> the table of slots.
  \<^item> \<open>Messages\<close> (\<^verbatim>\<open>message.rs\<close>); \<open>StagedMutations\<close>: the locales \<open>mutation_log\<close> and \<open>fallible_log\<close> of a state that is
    replayed from its mutations, interpreted by device and coordinator.
  \<^item> \<open>DeviceState\<close>, \<open>DeviceKeygen\<close>, \<open>DeviceRestoration\<close>, \<open>Device\<close>: the device, one theory per source file.
    \<open>DeviceSafety\<close>: runs of a device against arbitrary messages. \<open>DeviceProps\<close>: its theorems.
  \<^item> \<open>ShareBackup\<close>, \<open>Recovery\<close> (\<^verbatim>\<open>frost_backup\<close>).
  \<^item> \<open>CoordRestoring\<close> (the state of restorations), \<open>CoordState\<close>, \<open>CoordKeygen\<close>, \<open>CoordSigning\<close>, \<open>CoordRestoration\<close>,
    \<open>Coordinator\<close>: the coordinator. \<open>CoordRecover\<close>: replay. \<open>CoordInv\<close>: the invariant, per mutation.
    \<open>CoordRun\<close>, \<open>CoordSessions\<close>: per operation; \<open>coord_run\<close> is every interleaving of operations, of messages
    of the devices (also dishonest ones) and of writing mutations out. \<open>CoordKeygenProps\<close>,
    \<open>CoordSigningProps\<close>: the theorems.
  \<^item> \<open>CoordRestoreProps\<close>: accepting shares into restorations and finishing them. This theory: what takes
    both programs, coordinator and device.
  \<^item> \<open>WordTable\<close>, \<open>Bisection\<close>, \<open>Bip39\<close>, \<open>WordFacts\<close> (\<^verbatim>\<open>frost_backup/src/bip39_words.rs\<close>): the 2048 words, the
    library's binary searches, the look-ups by prefix, and facts about the table found by evaluation.
    \<open>BackupWords\<close>, \<open>BackupText\<close> (\<^verbatim>\<open>share_backup.rs\<close>): 25 words and text of a backup.
  \<^item> \<open>BackupEntry\<close>, \<open>EntryFramebuffer\<close>, \<open>EntryScreen\<close>, \<open>EntryRows\<close>, \<open>EntryProps\<close> (\<^verbatim>\<open>frostsnap_widgets/src/backup\<close>):
    typing a backup on the device; \<open>entry_step\<close> is every touch the keyboards offer and every frame drawn.
  \<^item> \<open>Flash\<close> (\<^verbatim>\<open>frostsnap_embedded/src/partition.rs\<close>), \<open>NorLog\<close> (\<^verbatim>\<open>nor_flash_log.rs\<close>), \<open>FlashLog\<close> (\<^verbatim>\<open>flash_log.rs\<close> and the
    start of \<^verbatim>\<open>device_loop.rs\<close>), \<open>FlashErase\<close> (\<^verbatim>\<open>flash_header.rs\<close>, \<^verbatim>\<open>erase.rs\<close>): the flash of a device, byte by byte. The
    driver is a record \<open>nor_flash\<close> with what its trait documents as \<open>flash_ok\<close>; the locale \<open>flash_part\<close> of
    \<open>NorLogProps\<close> is a partition on such a flash. \<open>FlashLogProps\<close>, \<open>TornPush\<close>: the theorems.
  \<^item> \<open>FirmwareVersions\<close>, \<open>Genuine\<close>, \<open>GenuineCheck\<close> (\<^verbatim>\<open>genuine_certificate.rs\<close>, \<^verbatim>\<open>genuine_check.rs\<close> and \<^verbatim>\<open>firmware_version.rs\<close> of
    \<^verbatim>\<open>frostsnap_comms\<close>, \<^verbatim>\<open>genuine_check.rs\<close> and part of \<^verbatim>\<open>firmware.rs\<close> of \<^verbatim>\<open>frostsnap_coordinator\<close>): attestations of genuine
    hardware, what the device answers and the state of the check; its maps are ordered here, so ids that are superseded
    together are removed in that order. \<open>GenuineProps\<close>, \<open>GenuineRuns\<close>: every run (\<open>genuine_run\<close>).

  \<^bold>\<open>What the theorems show\<close>, by component (\<open>C\<close>-numbers are at the theorems):
  \<^item> Nonces: no secret nonce of a device signs twice, through power cuts at any stage of a write to
    flash (\<open>no_nonce_reuse\<close>); a slot's two sectors behave as one value (\<open>ab_write_newest\<close>, \<open>ab_write_crash\<close>);
    the coordinator's cache stays a part of the device's stream (\<open>cache_keeps_tracking\<close>), and no two
    of its sessions share a stream (\<open>sessions_use_distinct_streams\<close>).
  \<^item> Signing: what a device shows covers all it signs (\<open>prompt_complete\<close>, \<open>checked_task_bound\<close>);
    the coordinator records only verified shares and releases only verified signatures
    (\<open>signature_shares_verified\<close>, \<open>completed_signatures_verify\<close>), on the inputs they are for
    (\<open>signatures_land_on_their_inputs\<close>).
  \<^item> Keys: device and coordinator derive the same identifiers and keys (\<open>key_id_agrees\<close>,
    \<open>derived_keys_agree\<close>); a key is saved only after every device confirmed the same hash
    (\<open>keygen_unanimous\<close>, \<open>messages_alone_save_no_key\<close>), and what is saved can be decrypted again
    (\<open>root_key_roundtrip\<close>, \<open>stored_shares_decrypt\<close>).
  \<^item> State: replaying the mutations gives the state back (\<open>device_state_recoverable\<close>,
    \<open>coordinator_recoverable\<close>), and the maps and orders of the coordinator agree in every run.
  \<^item> Recovery: the search finds a compatible set of shares if there is one, and the best
    (\<open>find_valid_subset_exhaustive\<close>); only shares on the key are consolidated (\<open>consolidation_sound\<close>).
  \<^item> Both together: the share a device gets in a key generation can be shown as a backup on the
    coordinator's request (\<open>generated_share_can_be_displayed\<close>); a restoration whose key was found
    can always be finished (\<open>restoration_finishes\<close>).
  \<^item> Backups: the words and the text of a backup are read back as the backup
    (\<open>backup_words_roundtrip\<close>), nothing else is accepted (\<open>decoded_words_exact\<close>), every backup
    can be typed with the touches the device offers (\<open>every_backup_can_be_entered\<close>) and none of them
    reaches a panic (\<open>entry_never_panics\<close>).
  \<^item> Flash: what is pushed to the log is read back (\<open>log_keeps_items\<close>), a device with one share is the same
    after a restart (\<open>boot_restores_device\<close>), a power cut leaves the mutations from before or after
    the write (\<open>power_cut_keeps_mutations\<close>), an erase wipes everything (\<open>erase_wipes_partition\<close>). A full log
    cannot be read (\<open>full_log_unreadable\<close>), a torn push spoils the next one (\<open>torn_push_spoils_next\<close>),
    and an erase is confirmed while the device can still come back (\<open>confirmed_erase_keeps_device\<close>).
  \<^item> Genuine check: a device reported as genuine has shown it on its connection (\<open>genuine_backed\<close>), an
    honest device is reported after at most three replies (\<open>honest_device_genuine\<close>), and the database keeps
    the file (\<open>genuine_file_survives\<close>).

  \<^bold>\<open>Conventions.\<close> A fallible function returns \<open>Ok\<close>, \<open>Err\<close> or \<open>Panic\<close>; after a panic nothing is claimed. Debug
  assertions (also those in the macro \<^verbatim>\<open>fail!\<close>) are compiled out, as in the release profile. Iteration
  over a \<^verbatim>\<open>HashMap\<close> is in key order. Randomness is the argument \<open>rng\<close>. The identifier of a
  signing session is the hash of its request; a step that starts a session has the
  premise that the identifier is not in use. Cryptography of \<^verbatim>\<open>schnorr_fun\<close> and \<^verbatim>\<open>secp256kfun\<close>, serialisation of
  \<^verbatim>\<open>rust-bitcoin\<close> and the device's hardware PRF are not under \<^verbatim>\<open>src/\<close>: they are fields of the records \<open>crypto\<close>,
  \<open>tx_ops\<close>, \<open>nonce_ops\<close>, \<open>frost_ops\<close>, \<open>device_env\<close> and \<open>coord_env\<close>, with what the code relies on as named
  hypotheses. Loops are structural or have a measure; the iterators of \<open>Recovery\<close> have as fuel the number
  of their states (\<open>2 ^ n\<close> combinations of \<open>n\<close>, and the product of the sizes), proved to be enough.

  \<^bold>\<open>Not modelled.\<close> The firmware's hardware access, the main loops, screens and fonts, serial ports, the app and
  its bridge, the wallet built on \<^verbatim>\<open>bdk\<close> and electrum, simulators and tools: input and output, generated
  code or front ends of libraries that are not under \<^verbatim>\<open>src/\<close>.
  \<^verbatim>\<open>psbt.rs\<close> works on the PSBT types of \<^verbatim>\<open>rust-bitcoin\<close>; \<^verbatim>\<open>nostr.rs\<close> is serialisation. The generation of
  shares is polynomial arithmetic of \<^verbatim>\<open>schnorr_fun\<close>. A slot of two sectors is modelled by what decoding its
  sectors gives, not by bytes, because the decoder decides what a torn value is.
\<close>

section \<open>Coordinator and device together\<close>

lemma backup_request_new_key:
  assumes "bt_get (fc_keys co) (asr_key_id asr) = Some k" "lookup_access_structure asr co = Some a"
    and "bt_get (cas_device_to_share_index a) d = Some i"
    and "coord_root_shared_key (ce_crypto E) asr ek co = Some root"
    and "coord_decryption_contrib (ce_crypto E) (cfk_complete_key k) (asr_access_structure_id asr) d ek = Some (pt, contrib)"
  shows "request_device_display_backup E d asr ek co =
    Ok [CoordToDevice (RestorationMsg (DisplayBackup asr contrib i root)) [d]]"
  using assms
  by (simp add: request_device_display_backup_def backup_request_data_def Let_def lookup_access_structure_def
      coord_root_shared_key_def)

text \<open>C6. Key generation and backup fit together across the two programs: when the coordinator has
  finalized a new key, a device that confirmed the same polynomial and finalized its share can be
  asked for the backup. The coordinator's request names that device; delivered to it, it is
  answered by a screen for the key, and the backup shown there is the share the
  device got in the key generation. So the contribution the coordinator computes from the
  encrypted root key is the one the device sealed its share with.\<close>

theorem generated_share_can_be_displayed:
  assumes "crypto_ok (ce_crypto E)" "tweak_constant_term (ce_crypto E)" "de_crypto D = ce_crypto E"
    and coord: "tx_ops_ok (ce_tx_ops E)" "coord_run E fp received written co"
      "bt_get (fc_pending_keygens co) kid = Some (NeedsFinalize fin)"
      "finalize_keygen E kid ek rng co = ((co', rng'), Ok f)"
      "bt_get (fc_keys co) (asr_key_id (fk_access_structure_ref f)) = None"
    and root: "kp3_shared_key p = knf_root_shared_key fin" "kp3_shared_key p \<noteq> []"
      "valid_point (ce_crypto E) (shared_public_key (kp3_shared_key p))"
      "ps_public_key (kp3_secret_share p) = shared_public_key (kp3_shared_key p)"
    and device: "device_keygen_ack D p rng1 d = ((d1, rng2), Ok ack)"
      "recv_coordinator_message D (KeyGenMsg (KgFinalize (kp3_keygen_id p))) rng2 d1 = ((d2, rng3), r)"
    and index: "bt_get (knf_device_to_share_index fin) (signer_device_id d) = Some (sh_index (ps_share (kp3_secret_share p)))"
  shows "\<exists>m n phase b.
    request_device_display_backup E (signer_device_id d) (fk_access_structure_ref f) ek co' =
      Ok [CoordToDevice m [signer_device_id d]] \<and>
    recv_coordinator_message D m rng4 d2 =
      ((d2, rng4), Ok [ToUser (ToUserRestoration (DisplayBackupPhase n (fk_access_structure_ref f) phase))]) \<and>
    decrypt_to_backup (de_crypto D) (de_prf D) phase = Ok b \<and>
    extract_secret (de_crypto D) (kp3_shared_key p) b = Ok (ps_share (kp3_secret_share p))"
proof -
  let ?C = "ce_crypto E" and ?root = "kp3_shared_key p" and ?s = "ps_share (kp3_secret_share p)"
  let ?asr = "access_structure_ref_of ?C ?root" and ?dev = "signer_device_id d"
  let ?contrib = "share_decryption_contrib ?C ?dev (sh_index ?s) ?root"
  let ?co = "co\<lparr>fc_pending_keygens := bt_remove kid (fc_pending_keygens co)\<rparr>"
  have new: "mutate_new_key E (knf_key_name fin) ?root (knf_device_to_share_index fin) ek (knf_purpose fin) rng ?co
      = (Ok (fk_access_structure_ref f, co', rng') :: (action_error, _) result)"
    by (rule finalize_keygen_Ok [OF coord(4)]) (use coord(3) root(1) in simp)
  have wf: "bt_wf (knf_device_to_share_index fin)"
    using keygens_okD [OF coord_run_keygens_ok [OF coord(1,2)] coord(3)] by (simp add: keygen_state_ok_def)
  have unknown: "bt_get (fc_keys ?co) (asr_key_id (fk_access_structure_ref f)) = None" using coord(5) by simp
  have asr: "fk_access_structure_ref f = ?asr" using mutate_new_key_holds [OF new wf] by blast
  obtain xk ct g where "key_holds co' ?asr xk ct (g ++ bt_get (knf_device_to_share_index fin))"
    using mutate_new_key_holds [OF new wf] asr by auto
  then obtain a where a: "lookup_access_structure ?asr co' = Some a" "bt_get (cas_device_to_share_index a) ?dev = Some (sh_index ?s)"
    by (rule key_holds_lookup) (use index in simp)
  note saved = new_key_recovered [OF assms(1,2) root(2,3) new wf unknown, unfolded asr]
  then obtain k where k: "bt_get (fc_keys co') (asr_key_id ?asr) = Some k"
      "coord_decryption_contrib ?C (cfk_complete_key k) (asr_access_structure_id ?asr) ?dev ek = Some (shared_public_key ?root, ?contrib)"
    using index by blast
  have request: "request_device_display_backup E ?dev ?asr ek co' =
      Ok [CoordToDevice (RestorationMsg (DisplayBackup ?asr ?contrib (sh_index ?s) ?root)) [?dev]]"
    by (rule backup_request_new_key [OF k(1) a _ k(2)]) (use saved in blast)
  have C: "crypto_ok (de_crypto D)" using assms(1,3) by simp
  obtain p4 d0 where p4: "keygen_ack_phase4 D p rng1 d = (Ok (p4, rng2) :: (action_error, keygen_phase4 \<times> rng) result)"
      "d2 = device_mutates (de_crypto D) (save_mutations p4) d0"
    by (rule acknowledged_finalized [OF device])
  note phase = keygen_ack_phase4_Ok [OF C root(2,4) p4(1), unfolded assms(3)]
  have "get_encrypted_share d2 (access_structure_ref_of (de_crypto D) ?root) (sh_index ?s) = Some (kp4_encrypted_share p4)"
    using phase by (simp add: p4(2) saved_share assms(3))
  from display_backup_reply [OF this] phase show ?thesis
    unfolding asr request assms(3) by auto
qed

theorem generated_share_can_be_displayed_witness:
  "\<exists>co' d2 m n phase b. request_device_display_backup demo_coord_env demo_d
       (access_structure_ref_of demo_crypto demo_root) [4] co' = Ok [CoordToDevice m [demo_d]] \<and>
     recv_coordinator_message demo_device_env m demo_rng d2 =
       ((d2, demo_rng), Ok [ToUser (ToUserRestoration (DisplayBackupPhase n
         (access_structure_ref_of demo_crypto demo_root) phase))]) \<and>
     decrypt_to_backup demo_crypto (de_prf demo_device_env) phase = Ok b \<and>
     extract_secret demo_crypto demo_root b = Ok demo_secret"
proof -
  obtain co' rng' f where fin: "finalize_keygen demo_coord_env demo_kid [4] demo_rng demo_confirmed = ((co', rng'), Ok f)"
    using demo_saved_Ok by (auto simp: demo_saved_def)
  have pending: "bt_get (fc_pending_keygens demo_confirmed) demo_kid = Some (NeedsFinalize demo_fin)"
    by (simp add: demo_confirmed_pending bt_get_def)
  have asr: "fk_access_structure_ref f = access_structure_ref_of demo_crypto demo_root"
    by (rule finalize_keygen_Ok [OF fin])
      (use pending in \<open>auto simp: mutate_new_key_def new_key_mutations_def Let_def access_structure_ref_of_def
         case_prod_unfold result_iff demo_fin_def\<close>)
  have p: "kp3_shared_key demo_phase3 = demo_root" "ps_share (kp3_secret_share demo_phase3) = demo_secret"
      "ps_public_key (kp3_secret_share demo_phase3) = shared_public_key demo_root" "signer_device_id demo_device = demo_d"
    by (simp_all add: demo_phase3_def DeviceProps.demo_key_def demo_root_def shared_public_key_def signer_device_id_def
        demo_device_def new_signer_def demo_keypair_def demo_d_def)
  have root: "knf_root_shared_key demo_fin = demo_root" "demo_root \<noteq> []"
      "valid_point demo_crypto (shared_public_key demo_root)"
      "bt_get (knf_device_to_share_index demo_fin) demo_d = Some 1" "sh_index demo_secret = 1"
      "bt_get (fc_keys demo_confirmed) x = None" for x
    by (simp_all add: demo_fin_def demo_root_def shared_public_key_def demo_crypto_def demo_confirmed_keys bt_get_def
        demo_secret_def)
  obtain d1 rng2 ack where ack: "device_keygen_ack demo_device_env demo_phase3 demo_rng demo_device = ((d1, rng2), Ok ack)"
    using demo_shared_key_threshold
    by (auto simp: device_keygen_ack_def keygen_ack_phase4_def demo_phase3_def u16_try_from_def Let_def split_beta)
  obtain d2 rng3 r where dfin: "recv_coordinator_message demo_device_env
      (KeyGenMsg (KgFinalize (kp3_keygen_id demo_phase3))) rng2 d1 = ((d2, rng3), r)"
    by (metis surj_pair)
  have env: "ce_crypto demo_coord_env = demo_crypto" "de_crypto demo_device_env = demo_crypto" by simp_all
  show ?thesis
    using generated_share_can_be_displayed [of demo_coord_env demo_device_env, unfolded env,
        OF demo_crypto_ok demo_tweak_constant_term refl _ demo_confirmed_run pending fin _ _ _ _ _ ack dfin]
      root demo_tx_ops_ok
    unfolding p asr by simp blast
qed

end
